(* ===== verification/Prelude.thy ===== *)
theory Prelude
  imports Main "HOL-Library.Word"
begin

text \<open>
  Shared vocabulary of the development: bytes and the ASCII classes of the Rust standard
  library (\<open>u8::is_ascii_*\<close>), UTF-8 validation (\<open>str::from_utf8\<close>), the number parsers
  (\<open>str::parse::<u32>\<close>, \<open>str::parse::<i64>\<close>), checked and saturating arithmetic, and
  the generic list and option lemmas that the component theories use.

  A byte of the parsers is a \<open>char\<close> (Isabelle characters are exactly the 256 byte
  values), a byte string or a UTF-8 string is a \<open>string\<close>; the codecs, which calculate
  with bytes, use \<open>8 word\<close>.
\<close>

unbundle bit_operations_syntax

named_theorems ascii_defs \<open>definitions of the ASCII byte classes\<close>

type_synonym u8 = "8 word"
type_synonym u32 = "32 word"
type_synonym u64 = "64 word"

abbreviation ch_tab :: char where "ch_tab \<equiv> CHR 0x09"
abbreviation ch_lf :: char where "ch_lf \<equiv> CHR 0x0A"
abbreviation ch_ff :: char where "ch_ff \<equiv> CHR 0x0C"
abbreviation ch_cr :: char where "ch_cr \<equiv> CHR 0x0D"
abbreviation ch_space :: char where "ch_space \<equiv> CHR 0x20"
abbreviation ch_quote :: char where "ch_quote \<equiv> CHR 0x22"
abbreviation ch_backslash :: char where "ch_backslash \<equiv> CHR 0x5C"

definition byte :: "char \<Rightarrow> nat" where
  "byte c = of_char c"

lemma byte_less_256 [simp]: "byte c < 256"
  by (simp add: byte_def)

lemma byte_inject [simp]: "byte c = byte d \<longleftrightarrow> c = d"
  by (simp add: byte_def)

subsection \<open>ASCII classes\<close>

definition is_ascii_whitespace :: "char \<Rightarrow> bool" where [ascii_defs]:
  "is_ascii_whitespace c \<longleftrightarrow> c = ch_space \<or> c = ch_tab \<or> c = ch_lf \<or> c = ch_ff \<or> c = ch_cr"

definition is_ascii_digit :: "char \<Rightarrow> bool" where [ascii_defs]:
  "is_ascii_digit c \<longleftrightarrow> 48 \<le> byte c \<and> byte c \<le> 57"

definition is_ascii_uppercase :: "char \<Rightarrow> bool" where [ascii_defs]:
  "is_ascii_uppercase c \<longleftrightarrow> 65 \<le> byte c \<and> byte c \<le> 90"

definition is_ascii_lowercase :: "char \<Rightarrow> bool" where [ascii_defs]:
  "is_ascii_lowercase c \<longleftrightarrow> 97 \<le> byte c \<and> byte c \<le> 122"

definition is_ascii_alphanumeric :: "char \<Rightarrow> bool" where [ascii_defs]:
  "is_ascii_alphanumeric c \<longleftrightarrow> is_ascii_digit c \<or> is_ascii_uppercase c \<or> is_ascii_lowercase c"

definition to_ascii_uppercase :: "char \<Rightarrow> char" where [ascii_defs]:
  "to_ascii_uppercase c = (if is_ascii_lowercase c then char_of (byte c - 32) else c)"

definition to_ascii_lowercase :: "char \<Rightarrow> char" where [ascii_defs]:
  "to_ascii_lowercase c = (if is_ascii_uppercase c then char_of (byte c + 32) else c)"

definition eq_ignore_ascii_case :: "string \<Rightarrow> string \<Rightarrow> bool" where
  "eq_ignore_ascii_case a b \<longleftrightarrow> map to_ascii_lowercase a = map to_ascii_lowercase b"

lemma eq_ignore_ascii_case_refl [simp]: "eq_ignore_ascii_case s s"
  by (simp add: eq_ignore_ascii_case_def)

lemma whitespace_not_alphanumeric: "is_ascii_whitespace c \<Longrightarrow> \<not> is_ascii_alphanumeric c"
  by (auto simp: ascii_defs byte_def)

lemma digit_not_whitespace: "is_ascii_digit c \<Longrightarrow> \<not> is_ascii_whitespace c"
  by (auto simp: ascii_defs byte_def)

subsection \<open>UTF-8\<close>

text \<open>The validation that \<open>String::from_utf8\<close> performs (shortest forms, no surrogates).\<close>

definition utf8_cont :: "char \<Rightarrow> bool" where
  "utf8_cont c \<longleftrightarrow> 128 \<le> byte c \<and> byte c \<le> 191"

fun utf8_valid :: "string \<Rightarrow> bool" where
  "utf8_valid [] = True"
| "utf8_valid (a # s) =
    (if byte a < 128 then utf8_valid s
     else if 194 \<le> byte a \<and> byte a \<le> 223 then
       (case s of b # s' \<Rightarrow> utf8_cont b \<and> utf8_valid s' | _ \<Rightarrow> False)
     else if 224 \<le> byte a \<and> byte a \<le> 239 then
       (case s of b # c # s' \<Rightarrow> utf8_cont b \<and> utf8_cont c
            \<and> (byte a = 224 \<longrightarrow> 160 \<le> byte b) \<and> (byte a = 237 \<longrightarrow> byte b \<le> 159)
            \<and> utf8_valid s'
        | _ \<Rightarrow> False)
     else if 240 \<le> byte a \<and> byte a \<le> 244 then
       (case s of b # c # d # s' \<Rightarrow> utf8_cont b \<and> utf8_cont c \<and> utf8_cont d
            \<and> (byte a = 240 \<longrightarrow> 144 \<le> byte b) \<and> (byte a = 244 \<longrightarrow> byte b \<le> 143)
            \<and> utf8_valid s'
        | _ \<Rightarrow> False)
     else False)"

definition ascii_string :: "string \<Rightarrow> bool" where
  "ascii_string s \<longleftrightarrow> (\<forall>c \<in> set s. byte c < 128)"

lemma ascii_string_utf8: "ascii_string s \<Longrightarrow> utf8_valid s"
  by (induction s) (auto simp: ascii_string_def)

declare utf8_valid.simps(2) [simp del]

subsection \<open>Numbers\<close>

definition digit_value :: "char \<Rightarrow> nat" where
  "digit_value c = byte c - 48"

text \<open>
  The accumulation loop of \<open>parse::<uN>\<close> and of \<open>checked_mul(10)\<close> / \<open>checked_add\<close>:
  \<open>None\<close> at the first byte that is no digit or at the first overflow of \<open>max\<close>.
\<close>

fun parse_digits :: "nat \<Rightarrow> nat \<Rightarrow> string \<Rightarrow> nat option" where
  "parse_digits mx acc [] = Some acc"
| "parse_digits mx acc (c # cs) =
    (if is_ascii_digit c \<and> acc * 10 + digit_value c \<le> mx
     then parse_digits mx (acc * 10 + digit_value c) cs else None)"

text \<open>\<open>str::parse\<close> at an unsigned type with maximum \<open>mx\<close>: an optional plus sign, then digits.\<close>

definition parse_uint :: "nat \<Rightarrow> string \<Rightarrow> nat option" where
  "parse_uint mx s =
    (case s of [] \<Rightarrow> None
     | c # cs \<Rightarrow> if c = CHR ''+'' then (if cs = [] then None else parse_digits mx 0 cs)
                else parse_digits mx 0 (c # cs))"

definition u32_max :: nat where "u32_max = 4294967295"
definition u64_max :: nat where "u64_max = 18446744073709551615"

abbreviation parse_u32 :: "string \<Rightarrow> nat option" where
  "parse_u32 \<equiv> parse_uint u32_max"

text \<open>Decimal rendering (\<open>to_string\<close>) of an unsigned number.\<close>

fun show_nat :: "nat \<Rightarrow> string" where
  "show_nat n = (if n < 10 then [char_of (48 + n)] else show_nat (n div 10) @ [char_of (48 + n mod 10)])"

declare show_nat.simps [simp del]

lemma byte_char_of [simp]: "n < 256 \<Longrightarrow> byte (char_of n) = n"
  by (simp add: byte_def)

lemma digit_char:
  assumes "d < 10"
  shows "is_ascii_digit (char_of (48 + d))" and "digit_value (char_of (48 + d)) = d"
  using assms by (auto simp: is_ascii_digit_def digit_value_def)

lemma parse_digits_append:
  "parse_digits mx acc (s @ t) = Option.bind (parse_digits mx acc s) (\<lambda>a. parse_digits mx a t)"
  by (induction s arbitrary: acc) auto

lemma parse_digits_show_nat: "n \<le> mx \<Longrightarrow> parse_digits mx 0 (show_nat n) = Some n"
proof (induction n rule: show_nat.induct)
  case (1 n)
  show ?case
  proof (cases "n < 10")
    case True
    with "1.prems" show ?thesis
      by (subst show_nat.simps) (simp add: digit_char)
  next
    case False
    with "1.prems" have "n div 10 \<le> mx" by (meson div_le_dividend le_trans)
    with False "1.IH" have IH: "parse_digits mx 0 (show_nat (n div 10)) = Some (n div 10)" by blast
    have "n mod 10 < 10" by simp
    from digit_char [OF this] have "parse_digits mx (n div 10) [char_of (48 + n mod 10)] = Some n"
      using "1.prems" by simp
    with False IH show ?thesis
      by (subst show_nat.simps) (simp add: parse_digits_append)
  qed
qed

lemma show_nat_digits: "c \<in> set (show_nat n) \<Longrightarrow> is_ascii_digit c"
proof (induction n rule: show_nat.induct)
  case (1 n)
  show ?case
  proof (cases "n < 10")
    case True
    with "1.prems" show ?thesis by (subst (asm) show_nat.simps) (simp add: digit_char)
  next
    case False
    have "n mod 10 < 10" by simp
    with False "1.prems" "1.IH" show ?thesis
      by (subst (asm) show_nat.simps) (auto simp: digit_char)
  qed
qed

lemma show_nat_nonempty [simp]: "show_nat n \<noteq> []"
  by (subst show_nat.simps) simp

lemma plus_not_digit [simp]: "\<not> is_ascii_digit CHR ''+''"
  by (simp add: is_ascii_digit_def byte_def)

lemma parse_uint_show_nat: "n \<le> mx \<Longrightarrow> parse_uint mx (show_nat n) = Some n"
proof -
  assume n: "n \<le> mx"
  obtain c cs where eq: "show_nat n = c # cs" by (cases "show_nat n") auto
  have "is_ascii_digit c" by (rule show_nat_digits [of _ n]) (simp add: eq)
  then have "c \<noteq> CHR ''+''" by auto
  with n eq show ?thesis
    using parse_digits_show_nat [of n mx] by (simp add: parse_uint_def)
qed

lemma parse_digits_bound: "acc \<le> mx \<Longrightarrow> parse_digits mx acc s = Some n \<Longrightarrow> n \<le> mx"
  by (induction s arbitrary: acc) (auto split: if_splits)

lemma parse_uint_bound: "parse_uint mx s = Some n \<Longrightarrow> n \<le> mx"
  by (cases s) (auto simp: parse_uint_def simp del: parse_digits.simps
      dest: parse_digits_bound [of 0 mx, simplified] split: if_splits)

text \<open>The number of decimal digits is bounded by the number of digits of the maximum.\<close>

lemma length_show_nat: "n < 10 ^ Suc k \<Longrightarrow> length (show_nat n) \<le> Suc k"
proof (induction k arbitrary: n)
  case 0
  then show ?case by (subst show_nat.simps) simp
next
  case (Suc k)
  show ?case
  proof (cases "n < 10")
    case True
    then show ?thesis by (subst show_nat.simps) simp
  next
    case False
    from Suc.prems have "n div 10 < 10 ^ Suc k" by (simp add: less_mult_imp_div_less mult.commute)
    from Suc.IH [OF this] False show ?thesis by (subst show_nat.simps) simp
  qed
qed

subsection \<open>Lists\<close>

lemma sum_list_snoc: "(\<Sum>x\<leftarrow>xs @ [y]. f x) = (\<Sum>x\<leftarrow>xs. f x) + (f y :: nat)"
  by simp

lemma takeWhile_append_stop: "(\<And>x. x \<in> set xs \<Longrightarrow> P x) \<Longrightarrow> \<not> P y \<Longrightarrow> takeWhile P (xs @ y # ys) = xs"
  by (induction xs) auto

end
