(* ===== verification/Imap_Receiver.thy ===== *)
theory Imap_Receiver
  imports Prelude
begin

text \<open>
  The request receiver of the IMAP and ManageSieve listeners
  (\<open>crates/imap-proto/src/receiver.rs\<close>): a byte-driven state machine that turns the
  incoming stream into a tag, a command and a list of tokens, asking for more data or for
  a literal where the protocol needs it.

  The trait \<open>CommandParser\<close> is a record of its two operations and the default value of
  the command type; every operation takes it as its first argument. A method that mutates
  \<open>self\<close> returns the new receiver; \<open>Result<(), Error>\<close> is an optional error beside it.
  The texts of the error messages are the constructors of \<open>reason\<close>.
\<close>

section \<open>Data\<close>

datatype token =
    Argument string
  | ParenthesisOpen | ParenthesisClose
  | BracketOpen | BracketClose
  | Lt | Gt | Dot | Nil_token

record 'c request =
  tag :: string
  command :: 'c
  tokens :: "token list"

datatype receiver_state =
    Start
  | Tag
  | Command bool
  | ArgumentState char
  | ArgumentQuoted bool
  | Literal bool
  | LiteralSeek nat bool
  | LiteralData nat

record 'c receiver =
  buf :: string
  request :: "'c request"
  state :: receiver_state
  max_request_size :: nat
  current_request_size :: nat
  start_state :: receiver_state

datatype reason =
    RequestTooLarge nat
  | TagNotUtf8
  | MissingCommand string
  | TagTooLong
  | CommandTooLong
  | UnrecognizedCommand string
  | InvalidCommandChar char
  | ArgumentTooLong
  | QuotedTooLong
  | UnterminatedQuoted
  | LiteralSizeInvalid
  | LiteralTooLarge nat
  | EmptyLiteral
  | InvalidNonSync
  | LiteralSizeTooLong
  | InvalidLiteral
  | InvalidLiteralChar char
  | ExpectedCrlf

datatype rerror =
    NeedsMoreData
  | NeedsLiteral nat
  | ErrorResponse "string option" reason

record 'c command_parser =
  parse_command :: "string \<Rightarrow> bool \<Rightarrow> 'c option"
  tokenize_brackets :: "'c \<Rightarrow> bool"
  default_command :: 'c

datatype 'c outcome =
    Continue
  | Complete "'c request"
  | Fail rerror

definition ARG_MAX_LEN :: nat where "ARG_MAX_LEN = 4096"

definition default_request :: "'c command_parser \<Rightarrow> 'c request" where
  "default_request cp = \<lparr>tag = [], command = default_command cp, tokens = []\<rparr>"

definition default_receiver :: "'c command_parser \<Rightarrow> 'c receiver" where
  "default_receiver cp =
    \<lparr>buf = [], request = default_request cp, state = Start,
     max_request_size = 25 * 1024 * 1024, current_request_size = 0, start_state = Start\<rparr>"

definition with_start_state :: "receiver_state \<Rightarrow> 'c receiver \<Rightarrow> 'c receiver" where
  "with_start_state s r = r\<lparr>state := s, start_state := s\<rparr>"

definition with_max_request_size :: "'c command_parser \<Rightarrow> nat \<Rightarrow> 'c receiver" where
  "with_max_request_size cp n = (default_receiver cp)\<lparr>max_request_size := n\<rparr>"

section \<open>The argument buffer, error reset, pushing tokens\<close>

definition push_checked :: "string \<Rightarrow> char \<Rightarrow> nat \<Rightarrow> string option" where
  "push_checked b ch limit = (if length b < limit then Some (b @ [ch]) else None)"

definition error_reset ::
  "'c command_parser \<Rightarrow> reason \<Rightarrow> 'c receiver \<Rightarrow> rerror \<times> 'c receiver" where
  "error_reset cp msg r =
    (ErrorResponse (if tag (request r) \<noteq> [] then Some (tag (request r)) else None) msg,
     r\<lparr>request := default_request cp, buf := [], state := start_state r, current_request_size := 0\<rparr>)"

definition fail :: "'c command_parser \<Rightarrow> reason \<Rightarrow> 'c receiver \<Rightarrow> 'c outcome \<times> 'c receiver" where
  "fail cp msg r = (case error_reset cp msg r of (e, r') \<Rightarrow> (Fail e, r'))"

definition push_argument ::
  "'c command_parser \<Rightarrow> bool \<Rightarrow> 'c receiver \<Rightarrow> rerror option \<times> 'c receiver" where
  "push_argument cp in_quote r =
    (if buf r \<noteq> [] then
       let r1 = r\<lparr>current_request_size := current_request_size r + length (buf r)\<rparr> in
       if current_request_size r1 > max_request_size r1 then
         (case error_reset cp (RequestTooLarge (max_request_size r1)) r1 of (e, r2) \<Rightarrow> (Some e, r2))
       else
         (None, r1\<lparr>request := (request r1)\<lparr>tokens := tokens (request r1) @ [Argument (buf r1)]\<rparr>,
                   buf := []\<rparr>)
     else if in_quote then
       (None, r\<lparr>request := (request r)\<lparr>tokens := tokens (request r) @ [Nil_token]\<rparr>\<rparr>)
     else (None, r))"

definition push_token ::
  "'c command_parser \<Rightarrow> token \<Rightarrow> 'c receiver \<Rightarrow> rerror option \<times> 'c receiver" where
  "push_token cp t r =
    (let r1 = r\<lparr>current_request_size := current_request_size r + 1\<rparr> in
     if current_request_size r1 > max_request_size r1 then
       (case error_reset cp (RequestTooLarge (max_request_size r1)) r1 of (e, r2) \<Rightarrow> (Some e, r2))
     else (None, r1\<lparr>request := (request r1)\<lparr>tokens := tokens (request r1) @ [t]\<rparr>\<rparr>))"

text \<open>The \<open>?\<close> operator: stop with the error, or go on with the new receiver.\<close>

definition and_then ::
  "rerror option \<times> 'c receiver \<Rightarrow> ('c receiver \<Rightarrow> 'c outcome \<times> 'c receiver) \<Rightarrow> 'c outcome \<times> 'c receiver" where
  "and_then p k = (case fst p of Some e \<Rightarrow> (Fail e, snd p) | None \<Rightarrow> k (snd p))"

definition push_buf ::
  "'c command_parser \<Rightarrow> char \<Rightarrow> nat \<Rightarrow> reason \<Rightarrow> receiver_state \<Rightarrow> 'c receiver \<Rightarrow> 'c outcome \<times> 'c receiver" where
  "push_buf cp ch limit msg st r =
    (case push_checked (buf r) ch limit of
       None \<Rightarrow> fail cp msg r
     | Some b \<Rightarrow> (Continue, r\<lparr>buf := b, state := st\<rparr>))"

text \<open>Return the finished request and take up the start state again.\<close>

definition finish :: "'c command_parser \<Rightarrow> 'c receiver \<Rightarrow> 'c outcome \<times> 'c receiver" where
  "finish cp r =
    (Complete (request r),
     r\<lparr>state := start_state r, current_request_size := 0, request := default_request cp\<rparr>)"

section \<open>One byte in each state\<close>

definition step_start :: "'c command_parser \<Rightarrow> 'c receiver \<Rightarrow> char \<Rightarrow> 'c outcome \<times> 'c receiver" where
  "step_start cp r ch =
    (if \<not> is_ascii_whitespace ch then (Continue, r\<lparr>buf := buf r @ [ch], state := Tag\<rparr>)
     else (Continue, r))"

definition step_tag :: "'c command_parser \<Rightarrow> 'c receiver \<Rightarrow> char \<Rightarrow> 'c outcome \<times> 'c receiver" where
  "step_tag cp r ch =
    (if ch = ch_space then
       (if buf r \<noteq> [] then
          (if utf8_valid (buf r) then
             (Continue, r\<lparr>request := (request r)\<lparr>tag := buf r\<rparr>, buf := [], state := Command False\<rparr>)
           else fail cp TagNotUtf8 (r\<lparr>buf := []\<rparr>))
        else (Continue, r))
     else if ch = ch_tab \<or> ch = ch_cr then (Continue, r)
     else if ch = ch_lf then fail cp (MissingCommand (buf r)) r
     else push_buf cp ch 128 TagTooLong Tag r)"

definition step_command ::
  "'c command_parser \<Rightarrow> bool \<Rightarrow> 'c receiver \<Rightarrow> char \<Rightarrow> 'c outcome \<times> 'c receiver" where
  "step_command cp is_uid r ch =
    (if is_ascii_alphanumeric ch then
       push_buf cp (to_ascii_uppercase ch) 15 CommandTooLong (Command is_uid) r
     else if is_ascii_whitespace ch then
       (if buf r \<noteq> [] then
          (if \<not> eq_ignore_ascii_case (buf r) ''UID'' then
             (case parse_command cp (buf r) is_uid of
                None \<Rightarrow> fail cp (UnrecognizedCommand (buf r)) r
              | Some c \<Rightarrow>
                  (let r1 = r\<lparr>request := (request r)\<lparr>command := c\<rparr>, buf := []\<rparr> in
                   if ch \<noteq> ch_lf then (Continue, r1\<lparr>state := ArgumentState ch_space\<rparr>)
                   else finish cp r1))
           else (Continue, r\<lparr>buf := [], state := Command True\<rparr>))
        else (Continue, r))
     else fail cp (InvalidCommandChar ch) r)"

definition bracket_token :: "char \<Rightarrow> token option" where
  "bracket_token ch =
    (if ch = CHR ''['' then Some BracketOpen
     else if ch = CHR '']'' then Some BracketClose
     else if ch = CHR ''<'' then Some Lt
     else if ch = CHR ''>'' then Some Gt
     else if ch = CHR ''.'' then Some Dot
     else None)"

definition push_special ::
  "'c command_parser \<Rightarrow> token \<Rightarrow> 'c receiver \<Rightarrow> 'c outcome \<times> 'c receiver" where
  "push_special cp t r =
    and_then (push_argument cp False r) (\<lambda>r1.
    and_then (push_token cp t r1) (\<lambda>r2. (Continue, r2)))"

definition step_argument ::
  "'c command_parser \<Rightarrow> char \<Rightarrow> 'c receiver \<Rightarrow> char \<Rightarrow> 'c outcome \<times> 'c receiver" where
  "step_argument cp last_ch r ch =
    (if ch = ch_quote \<and> is_ascii_whitespace last_ch then
       and_then (push_argument cp False r) (\<lambda>r1. (Continue, r1\<lparr>state := ArgumentQuoted False\<rparr>))
     else if ch = CHR ''{'' \<and> (is_ascii_whitespace last_ch \<or> last_ch = CHR ''~'' \<and> length (buf r) = 1) then
       (if last_ch \<noteq> CHR ''~'' then
          and_then (push_argument cp False r) (\<lambda>r1. (Continue, r1\<lparr>state := Literal False\<rparr>))
        else (Continue, r\<lparr>buf := [], state := Literal False\<rparr>))
     else if ch = CHR ''('' then push_special cp ParenthesisOpen r
     else if ch = CHR '')'' then push_special cp ParenthesisClose r
     else if bracket_token ch \<noteq> None \<and> tokenize_brackets cp (command (request r)) then
       push_special cp (the (bracket_token ch)) r
     else if ch = ch_lf then and_then (push_argument cp False r) (finish cp)
     else if is_ascii_whitespace ch then
       and_then (push_argument cp False r) (\<lambda>r1. (Continue, r1\<lparr>state := ArgumentState ch\<rparr>))
     else push_buf cp ch ARG_MAX_LEN ArgumentTooLong (ArgumentState ch) r)"

definition step_quoted ::
  "'c command_parser \<Rightarrow> bool \<Rightarrow> 'c receiver \<Rightarrow> char \<Rightarrow> 'c outcome \<times> 'c receiver" where
  "step_quoted cp escaped r ch =
    (if ch = ch_quote then
       (if \<not> escaped then
          and_then (push_argument cp True r) (\<lambda>r1. (Continue, r1\<lparr>state := ArgumentState ch_space\<rparr>))
        else push_buf cp ch ARG_MAX_LEN QuotedTooLong (ArgumentQuoted False) r)
     else if ch = ch_backslash then
       (if escaped then push_buf cp ch ARG_MAX_LEN QuotedTooLong (ArgumentQuoted (\<not> escaped)) r
        else (Continue, r\<lparr>state := ArgumentQuoted (\<not> escaped)\<rparr>))
     else if ch = ch_lf then fail cp UnterminatedQuoted r
     else
       (let r1 = (if escaped then r\<lparr>buf := buf r @ [ch_backslash]\<rparr> else r)
        in push_buf cp ch ARG_MAX_LEN QuotedTooLong (ArgumentQuoted False) r1))"

definition step_literal ::
  "'c command_parser \<Rightarrow> bool \<Rightarrow> 'c receiver \<Rightarrow> char \<Rightarrow> 'c outcome \<times> 'c receiver" where
  "step_literal cp non_sync r ch =
    (if ch = CHR ''}'' then
       (if buf r \<noteq> [] then
          (case parse_u32 (buf r) of
             None \<Rightarrow> fail cp LiteralSizeInvalid r
           | Some sz \<Rightarrow>
               if current_request_size r + sz > max_request_size r
               then fail cp (LiteralTooLarge (max_request_size r)) r
               else (Continue, r\<lparr>state := LiteralSeek sz non_sync, buf := []\<rparr>))
        else fail cp EmptyLiteral r)
     else if ch = CHR ''+'' then
       (if buf r \<noteq> [] then (Continue, r\<lparr>state := Literal True\<rparr>) else fail cp InvalidNonSync r)
     else if is_ascii_digit ch then
       (if \<not> non_sync then push_buf cp ch 15 LiteralSizeTooLong (Literal non_sync) r
        else fail cp InvalidLiteral r)
     else fail cp (InvalidLiteralChar ch) r)"

definition step_literal_seek ::
  "'c command_parser \<Rightarrow> nat \<Rightarrow> bool \<Rightarrow> 'c receiver \<Rightarrow> char \<Rightarrow> 'c outcome \<times> 'c receiver" where
  "step_literal_seek cp sz non_sync r ch =
    (let after = (\<lambda>r'. if \<not> non_sync then (Fail (NeedsLiteral sz), r') else (Continue, r')) in
     if ch = ch_lf then
       (if sz > 0 then after (r\<lparr>state := LiteralData sz\<rparr>)
        else and_then (push_token cp Nil_token (r\<lparr>state := ArgumentState ch_space\<rparr>)) after)
     else if \<not> is_ascii_whitespace ch then fail cp ExpectedCrlf r
     else (Continue, r))"

definition step_literal_data ::
  "'c command_parser \<Rightarrow> nat \<Rightarrow> 'c receiver \<Rightarrow> char \<Rightarrow> 'c outcome \<times> 'c receiver" where
  "step_literal_data cp remaining r ch =
    (let r1 = r\<lparr>buf := buf r @ [ch]\<rparr> in
     if remaining > 1 then (Continue, r1\<lparr>state := LiteralData (remaining - 1)\<rparr>)
     else and_then (push_argument cp False r1) (\<lambda>r2. (Continue, r2\<lparr>state := ArgumentState ch_space\<rparr>)))"

definition step :: "'c command_parser \<Rightarrow> 'c receiver \<Rightarrow> char \<Rightarrow> 'c outcome \<times> 'c receiver" where
  "step cp r ch =
    (case state r of
       Start \<Rightarrow> step_start cp r ch
     | Tag \<Rightarrow> step_tag cp r ch
     | Command is_uid \<Rightarrow> step_command cp is_uid r ch
     | ArgumentState last_ch \<Rightarrow> step_argument cp last_ch r ch
     | ArgumentQuoted escaped \<Rightarrow> step_quoted cp escaped r ch
     | Literal non_sync \<Rightarrow> step_literal cp non_sync r ch
     | LiteralSeek sz non_sync \<Rightarrow> step_literal_seek cp sz non_sync r ch
     | LiteralData remaining \<Rightarrow> step_literal_data cp remaining r ch)"

text \<open>
  \<open>Receiver::parse\<close>: consume bytes until a request is complete, an error is raised or
  the input ends. The result carries the bytes that the iterator has not yielded.
\<close>

fun parse ::
  "'c command_parser \<Rightarrow> 'c receiver \<Rightarrow> string \<Rightarrow> (rerror + 'c request) \<times> 'c receiver \<times> string" where
  "parse cp r [] = (Inl NeedsMoreData, r, [])"
| "parse cp r (ch # bytes) =
    (case step cp r ch of
       (Continue, r') \<Rightarrow> parse cp r' bytes
     | (Complete q, r') \<Rightarrow> (Inr q, r', bytes)
     | (Fail e, r') \<Rightarrow> (Inl e, r', bytes))"

section \<open>Every request and every error leaves a fresh receiver\<close>

text \<open>The receiver as it was created, with its limit and its start state.\<close>

definition fresh :: "'c command_parser \<Rightarrow> 'c receiver \<Rightarrow> 'c receiver" where
  "fresh cp r = r\<lparr>buf := [], request := default_request cp, state := start_state r,
                  current_request_size := 0\<rparr>"

definition terminal :: "rerror + 'c request \<Rightarrow> bool" where
  "terminal res = (case res of Inr q \<Rightarrow> True | Inl (ErrorResponse t m) \<Rightarrow> True | _ \<Rightarrow> False)"

named_theorems receiver_defs \<open>the definitions of the receiver's steps\<close>
named_theorems push_facts \<open>the effect of the push operations\<close>

lemmas [receiver_defs] = step_def step_start_def step_tag_def step_command_def step_argument_def
  step_quoted_def step_literal_def step_literal_seek_def step_literal_data_def push_special_def
  push_buf_def push_checked_def and_then_def finish_def fail_def error_reset_def Let_def

lemma push_argument_cases:
  obtains (big) t where "buf r \<noteq> []" "current_request_size r + length (buf r) > max_request_size r"
      "push_argument cp q r = (Some (ErrorResponse t (RequestTooLarge (max_request_size r))), fresh cp r)"
  | (push) "buf r \<noteq> []" "current_request_size r + length (buf r) \<le> max_request_size r"
      "push_argument cp q r =
        (None, r\<lparr>current_request_size := current_request_size r + length (buf r),
                 request := (request r)\<lparr>tokens := tokens (request r) @ [Argument (buf r)]\<rparr>, buf := []\<rparr>)"
  | (nil) "buf r = []" "q"
      "push_argument cp q r =
        (None, r\<lparr>request := (request r)\<lparr>tokens := tokens (request r) @ [Nil_token]\<rparr>\<rparr>)"
  | (none) "buf r = []" "\<not> q" "push_argument cp q r = (None, r)"
  by (cases "buf r = []"; cases q;
      cases "current_request_size r + length (buf r) > max_request_size r")
     (auto simp: push_argument_def error_reset_def fresh_def Let_def)

lemma push_argument_buf: "push_argument cp q r = (None, r') \<Longrightarrow> buf r' = []"
  by (cases rule: push_argument_cases [of r cp q]) auto

lemma push_argument_frame:
  "push_argument cp q r = (None, r') \<Longrightarrow>
    max_request_size r' = max_request_size r \<and> start_state r' = start_state r \<and> fresh cp r' = fresh cp r"
  by (cases rule: push_argument_cases [of r cp q]) (auto simp: fresh_def)

lemma push_argument_error:
  "push_argument cp q r = (Some e, r') \<Longrightarrow> (\<exists>t m. e = ErrorResponse t m) \<and> r' = fresh cp r"
  by (cases rule: push_argument_cases [of r cp q]) auto

lemma push_token_frame:
  "push_token cp t r = (None, r') \<Longrightarrow>
    max_request_size r' = max_request_size r \<and> start_state r' = start_state r \<and> fresh cp r' = fresh cp r
    \<and> buf r' = buf r"
  by (auto simp: push_token_def Let_def error_reset_def fresh_def split: if_splits)

lemma push_token_error:
  "push_token cp t r = (Some e, r') \<Longrightarrow> (\<exists>t m. e = ErrorResponse t m) \<and> r' = fresh cp r"
  by (auto simp: push_token_def Let_def error_reset_def fresh_def split: if_splits)

lemma fresh_simps [simp]:
  "fresh cp (r\<lparr>buf := b\<rparr>) = fresh cp r"
  "fresh cp (r\<lparr>state := s\<rparr>) = fresh cp r"
  "fresh cp (r\<lparr>request := q\<rparr>) = fresh cp r"
  "fresh cp (r\<lparr>current_request_size := n\<rparr>) = fresh cp r"
  "fresh cp (fresh cp r) = fresh cp r"
  "max_request_size (fresh cp r) = max_request_size r"
  "start_state (fresh cp r) = start_state r"
  by (simp_all add: fresh_def)

lemma fail_eq: "fail cp m r = (Fail (ErrorResponse (if tag (request r) \<noteq> [] then Some (tag (request r)) else None) m), fresh cp r)"
  by (simp add: fail_def error_reset_def fresh_def)

text \<open>What a step can do: go on, finish with a fresh receiver, fail with a fresh receiver, or ask for a literal.\<close>

definition step_shape :: "'c command_parser \<Rightarrow> 'c receiver \<Rightarrow> 'c outcome \<times> 'c receiver \<Rightarrow> bool" where
  "step_shape cp r res =
    (case res of
       (Continue, r') \<Rightarrow> fresh cp r' = fresh cp r
     | (Complete q, r') \<Rightarrow> r' = fresh cp r
     | (Fail e, r') \<Rightarrow> (case e of NeedsMoreData \<Rightarrow> False
                       | NeedsLiteral n \<Rightarrow> fresh cp r' = fresh cp r
                       | ErrorResponse t m \<Rightarrow> r' = fresh cp r))"

lemma push_argument_shape:
  assumes "fresh cp r0 = fresh cp r"
    and "\<And>r'. fresh cp r' = fresh cp r \<Longrightarrow> buf r' = [] \<Longrightarrow> step_shape cp r (k r')"
  shows "step_shape cp r (and_then (push_argument cp q r0) k)"
proof (cases "push_argument cp q r0")
  case (Pair e r1)
  show ?thesis
  proof (cases e)
    case None
    with Pair have "push_argument cp q r0 = (None, r1)" by simp
    from push_argument_frame [OF this] push_argument_buf [OF this] None Pair assms show ?thesis
      by (simp add: and_then_def)
  next
    case (Some x)
    with Pair have "push_argument cp q r0 = (Some x, r1)" by simp
    from push_argument_error [OF this] Some Pair assms(1) show ?thesis
      by (auto simp: and_then_def step_shape_def)
  qed
qed

lemma push_token_shape:
  assumes "fresh cp r0 = fresh cp r"
    and "\<And>r'. fresh cp r' = fresh cp r \<Longrightarrow> step_shape cp r (k r')"
  shows "step_shape cp r (and_then (push_token cp t r0) k)"
proof (cases "push_token cp t r0")
  case (Pair e r1)
  show ?thesis
  proof (cases e)
    case None
    with Pair have "push_token cp t r0 = (None, r1)" by simp
    from push_token_frame [OF this] None Pair assms show ?thesis
      by (simp add: and_then_def)
  next
    case (Some x)
    with Pair have "push_token cp t r0 = (Some x, r1)" by simp
    from push_token_error [OF this] Some Pair assms(1) show ?thesis
      by (auto simp: and_then_def step_shape_def)
  qed
qed

lemma fail_shape: "fresh cp r' = fresh cp r \<Longrightarrow> step_shape cp r (fail cp m r')"
  by (simp add: fail_eq step_shape_def)

lemma push_buf_shape: "fresh cp r' = fresh cp r \<Longrightarrow> step_shape cp r (push_buf cp ch n m st r')"
  by (auto simp: push_buf_def push_checked_def step_shape_def fail_eq)

lemma continue_shape: "fresh cp r' = fresh cp r \<Longrightarrow> step_shape cp r (Continue, r')"
  by (simp add: step_shape_def)

lemma needs_literal_shape: "fresh cp r' = fresh cp r \<Longrightarrow> step_shape cp r (Fail (NeedsLiteral n), r')"
  by (simp add: step_shape_def)

lemma finish_shape:
  assumes "fresh cp r' = fresh cp r" and "buf r' = []"
  shows "step_shape cp r (finish cp r')"
proof -
  have "r'\<lparr>state := start_state r', current_request_size := 0, request := default_request cp\<rparr> = fresh cp r'"
    using assms(2) by (cases r') (simp add: fresh_def)
  with assms(1) show ?thesis by (simp add: finish_def step_shape_def)
qed

lemma push_special_shape: "step_shape cp r (push_special cp t r)"
  unfolding push_special_def
  by (intro push_argument_shape push_token_shape continue_shape refl)

lemma if_shape:
  "(b \<Longrightarrow> step_shape cp r x) \<Longrightarrow> (\<not> b \<Longrightarrow> step_shape cp r y) \<Longrightarrow> step_shape cp r (if b then x else y)"
  by simp

lemmas shape_intros = if_shape push_argument_shape push_token_shape fail_shape push_buf_shape
  continue_shape needs_literal_shape finish_shape push_special_shape

lemma step_argument_shape: "step_shape cp r (step_argument cp l r ch)"
  unfolding step_argument_def by (intro shape_intros) simp_all

lemma step_quoted_shape: "step_shape cp r (step_quoted cp l r ch)"
  unfolding step_quoted_def Let_def by (auto intro!: shape_intros)

lemma step_literal_seek_shape: "step_shape cp r (step_literal_seek cp n ns r ch)"
  unfolding step_literal_seek_def Let_def by (auto intro!: shape_intros)

lemma step_shape: "step_shape cp r (step cp r ch)"
proof -
  have 1: "step_shape cp r (step_start cp r ch)"
    unfolding step_start_def by (auto intro!: shape_intros)
  have 2: "step_shape cp r (step_tag cp r ch)"
    unfolding step_tag_def by (auto intro!: shape_intros)
  have 3: "step_shape cp r (step_command cp u r ch)" for u
    unfolding step_command_def Let_def by (auto intro!: shape_intros split: option.split)
  have 4: "step_shape cp r (step_literal cp u r ch)" for u
    unfolding step_literal_def by (auto intro!: shape_intros split: option.split)
  have 5: "step_shape cp r (step_literal_data cp n r ch)" for n
    unfolding step_literal_data_def Let_def by (auto intro!: shape_intros)
  show ?thesis
    unfolding step_def
    by (cases "state r") (simp_all add: 1 2 3 4 5 step_argument_shape step_quoted_shape step_literal_seek_shape)
qed

lemma parse_fresh:
  "parse cp r bs = (res, r', rest) \<Longrightarrow>
    fresh cp r' = fresh cp r \<and> (terminal res \<longrightarrow> r' = fresh cp r)"
proof (induction cp r bs rule: parse.induct)
  case (1 cp r)
  then show ?case by (auto simp: terminal_def)
next
  case (2 cp r ch bytes)
  have sh: "step_shape cp r (step cp r ch)" by (rule step_shape)
  show ?case
  proof (cases "step cp r ch")
    case (Pair oc r1)
    show ?thesis
    proof (cases oc)
      case Continue
      with Pair 2 sh show ?thesis by (auto simp: step_shape_def)
    next
      case (Complete q)
      with Pair 2 sh show ?thesis by (auto simp: step_shape_def)
    next
      case (Fail e)
      with Pair 2 sh show ?thesis by (auto simp: step_shape_def terminal_def split: rerror.splits)
    qed
  qed
qed

section \<open>Chunks\<close>

lemma step_not_more_data: "step cp r ch \<noteq> (Fail NeedsMoreData, r')"
  using step_shape [of cp r ch] by (auto simp: step_shape_def)

lemma parse_append:
  "parse cp r (xs @ ys) =
    (case parse cp r xs of
       (Inl NeedsMoreData, r', _) \<Rightarrow> parse cp r' ys
     | (res, r', rest) \<Rightarrow> (res, r', rest @ ys))"
proof (induction cp r xs rule: parse.induct)
  case (1 cp r)
  then show ?case by simp
next
  case (2 cp r ch bytes)
  then show ?case
    by (auto split: prod.split outcome.split rerror.split simp: step_not_more_data)
qed

section \<open>Bounds on what the receiver holds\<close>

fun token_weight :: "token \<Rightarrow> nat" where
  "token_weight (Argument a) = length a"
| "token_weight Nil_token = 0"
| "token_weight _ = 1"

definition tokens_weight :: "'c request \<Rightarrow> nat" where
  "tokens_weight q = (\<Sum>t\<leftarrow>tokens q. token_weight t)"

definition wf_start :: "receiver_state \<Rightarrow> bool" where
  "wf_start s = (case s of LiteralSeek _ _ \<Rightarrow> False | LiteralData _ \<Rightarrow> False | _ \<Rightarrow> True)"

definition size_inv :: "'c receiver \<Rightarrow> bool" where
  "size_inv r \<longleftrightarrow> tokens_weight (request r) \<le> current_request_size r
     \<and> current_request_size r \<le> max_request_size r \<and> wf_start (start_state r)"

definition buf_inv :: "'c receiver \<Rightarrow> bool" where
  "buf_inv r =
    (case state r of
       Start \<Rightarrow> buf r = []
     | Tag \<Rightarrow> length (buf r) \<le> 128
     | Command _ \<Rightarrow> length (buf r) \<le> 15
     | ArgumentState _ \<Rightarrow> length (buf r) \<le> ARG_MAX_LEN
     | ArgumentQuoted _ \<Rightarrow> length (buf r) \<le> ARG_MAX_LEN
     | Literal _ \<Rightarrow> length (buf r) \<le> 15
     | LiteralSeek n _ \<Rightarrow> buf r = [] \<and> current_request_size r + n \<le> max_request_size r
     | LiteralData n \<Rightarrow> 0 < n \<and> current_request_size r + length (buf r) + n \<le> max_request_size r)"

definition receiver_inv :: "'c receiver \<Rightarrow> bool" where
  "receiver_inv r \<longleftrightarrow> size_inv r \<and> buf_inv r"

definition outcome_inv :: "'c receiver \<Rightarrow> 'c outcome \<times> 'c receiver \<Rightarrow> bool" where
  "outcome_inv r res \<longleftrightarrow> receiver_inv (snd res)
     \<and> (case fst res of Complete q \<Rightarrow> tokens_weight q \<le> max_request_size r | _ \<Rightarrow> True)"

lemma tokens_weight_default [simp]: "tokens_weight (default_request cp) = 0"
  by (simp add: tokens_weight_def default_request_def)

lemma size_inv_updates [simp]:
  "size_inv (r\<lparr>buf := b\<rparr>) = size_inv r"
  "size_inv (r\<lparr>state := s\<rparr>) = size_inv r"
  "size_inv (r\<lparr>request := (request r)\<lparr>tag := t\<rparr>\<rparr>) = size_inv r"
  "size_inv (r\<lparr>request := (request r)\<lparr>command := c\<rparr>\<rparr>) = size_inv r"
  by (simp_all add: size_inv_def tokens_weight_def)

lemma fresh_inv: "size_inv r \<Longrightarrow> receiver_inv (fresh cp r)"
  by (auto simp: receiver_inv_def size_inv_def fresh_def buf_inv_def wf_start_def split: receiver_state.splits)

lemma fail_inv: "size_inv r' \<Longrightarrow> outcome_inv r (fail cp m r')"
  by (simp add: fail_eq outcome_inv_def fresh_inv)

lemma finish_inv:
  assumes "size_inv r'" and "buf r' = []" and "max_request_size r' = max_request_size r"
  shows "outcome_inv r (finish cp r')"
proof -
  have eq: "r'\<lparr>state := start_state r', current_request_size := 0, request := default_request cp\<rparr> = fresh cp r'"
    using assms(2) by (cases r') (simp add: fresh_def)
  from assms(1,3) have "tokens_weight (request r') \<le> max_request_size r" by (simp add: size_inv_def)
  with eq assms(1) show ?thesis by (simp add: finish_def outcome_inv_def fresh_inv)
qed

lemma continue_inv: "size_inv r' \<Longrightarrow> buf_inv r' \<Longrightarrow> outcome_inv r (Continue, r')"
  by (simp add: outcome_inv_def receiver_inv_def)

lemma needs_literal_inv: "size_inv r' \<Longrightarrow> buf_inv r' \<Longrightarrow> outcome_inv r (Fail (NeedsLiteral n), r')"
  by (simp add: outcome_inv_def receiver_inv_def)

lemma push_argument_inv:
  assumes "size_inv r0"
    and "\<And>r'. size_inv r' \<Longrightarrow> buf r' = [] \<Longrightarrow> max_request_size r' = max_request_size r0 \<Longrightarrow> state r' = state r0 \<Longrightarrow>
           outcome_inv r (k r')"
  shows "outcome_inv r (and_then (push_argument cp q r0) k)"
proof (cases rule: push_argument_cases [of r0 cp q])
  case (big t)
  with assms(1) show ?thesis by (simp add: and_then_def outcome_inv_def fresh_inv)
next
  case push
  with assms show ?thesis
    by (simp add: and_then_def size_inv_def tokens_weight_def)
next
  case nil
  with assms show ?thesis
    by (simp add: and_then_def size_inv_def tokens_weight_def)
next
  case none
  with assms show ?thesis by (simp add: and_then_def)
qed

lemma push_token_inv:
  assumes "size_inv r0" and "token_weight t \<le> 1"
    and "\<And>r'. size_inv r' \<Longrightarrow> buf r' = buf r0 \<Longrightarrow> max_request_size r' = max_request_size r0 \<Longrightarrow>
            state r' = state r0 \<Longrightarrow> outcome_inv r (k r')"
  shows "outcome_inv r (and_then (push_token cp t r0) k)"
proof (cases "current_request_size r0 + 1 > max_request_size r0")
  case True
  with assms(1) show ?thesis
    using fresh_inv [of r0 cp]
    by (cases r0) (simp add: and_then_def push_token_def error_reset_def outcome_inv_def fresh_def)
next
  case False
  with assms show ?thesis
    by (simp add: and_then_def push_token_def size_inv_def tokens_weight_def)
qed

lemma push_buf_inv:
  assumes "size_inv r'"
    and "\<And>b. b = buf r' @ [ch] \<Longrightarrow> length (buf r') < n \<Longrightarrow> buf_inv (r'\<lparr>buf := b, state := st\<rparr>)"
  shows "outcome_inv r (push_buf cp ch n m st r')"
  using assms by (auto simp: push_buf_def push_checked_def fail_inv continue_inv)

lemma push_special_inv:
  "size_inv r \<Longrightarrow> state r = ArgumentState l \<Longrightarrow> token_weight t \<le> 1 \<Longrightarrow> outcome_inv r (push_special cp t r)"
  unfolding push_special_def
  by (intro push_argument_inv push_token_inv continue_inv) (auto simp: buf_inv_def)

lemma if_inv:
  "(b \<Longrightarrow> outcome_inv r x) \<Longrightarrow> (\<not> b \<Longrightarrow> outcome_inv r y) \<Longrightarrow> outcome_inv r (if b then x else y)"
  by simp

lemmas inv_intros = if_inv push_argument_inv push_token_inv push_buf_inv fail_inv finish_inv
  needs_literal_inv continue_inv

lemma bracket_token_weight: "bracket_token ch = Some t \<Longrightarrow> token_weight t = 1"
  by (auto simp: bracket_token_def split: if_splits)

lemma step_argument_inv:
  assumes "receiver_inv r" and st: "state r = ArgumentState l"
  shows "outcome_inv r (step_argument cp l r ch)"
proof -
  from assms have "size_inv r" by (simp add: receiver_inv_def)
  moreover have "bracket_token ch \<noteq> None \<Longrightarrow> outcome_inv r (push_special cp (the (bracket_token ch)) r)"
    using \<open>size_inv r\<close> st bracket_token_weight [of ch] by (auto intro!: push_special_inv)
  ultimately show ?thesis
    unfolding step_argument_def
    by (intro inv_intros push_special_inv [OF _ st])
       (auto simp: buf_inv_def ARG_MAX_LEN_def bracket_token_weight)
qed

lemma step_quoted_inv:
  assumes "receiver_inv r" and st: "state r = ArgumentQuoted l"
  shows "outcome_inv r (step_quoted cp l r ch)"
proof -
  from assms have "size_inv r" "length (buf r) \<le> ARG_MAX_LEN"
    by (simp_all add: receiver_inv_def buf_inv_def)
  then show ?thesis
    unfolding step_quoted_def Let_def
    by (intro inv_intros) (auto simp: buf_inv_def ARG_MAX_LEN_def)
qed

lemma step_literal_inv:
  assumes "receiver_inv r" and st: "state r = Literal l"
  shows "outcome_inv r (step_literal cp l r ch)"
  using assms unfolding step_literal_def
  by (auto intro!: inv_intros simp: receiver_inv_def buf_inv_def split: option.split)

lemma step_literal_seek_inv:
  assumes "receiver_inv r" and st: "state r = LiteralSeek n ns"
  shows "outcome_inv r (step_literal_seek cp n ns r ch)"
  using assms unfolding step_literal_seek_def Let_def
  by (intro inv_intros) (auto simp: receiver_inv_def buf_inv_def intro!: inv_intros)

lemma step_literal_data_inv:
  assumes "receiver_inv r" and st: "state r = LiteralData n"
  shows "outcome_inv r (step_literal_data cp n r ch)"
  using assms unfolding step_literal_data_def Let_def
  by (intro inv_intros) (auto simp: receiver_inv_def buf_inv_def)

lemma step_start_inv:
  assumes "receiver_inv r" and "state r = Start"
  shows "outcome_inv r (step_start cp r ch)"
  using assms unfolding step_start_def
  by (intro inv_intros) (auto simp: receiver_inv_def buf_inv_def)

lemma step_tag_inv:
  assumes "receiver_inv r" and "state r = Tag"
  shows "outcome_inv r (step_tag cp r ch)"
  using assms unfolding step_tag_def
  by (intro inv_intros) (auto simp: receiver_inv_def buf_inv_def)

lemma step_command_inv:
  assumes "receiver_inv r" and "state r = Command u"
  shows "outcome_inv r (step_command cp u r ch)"
  using assms unfolding step_command_def Let_def
  by (auto intro!: inv_intros simp: receiver_inv_def buf_inv_def split: option.split)

lemma step_inv: "receiver_inv r \<Longrightarrow> outcome_inv r (step cp r ch)"
  unfolding step_def
  by (cases "state r")
     (simp_all add: step_start_inv step_tag_inv step_command_inv step_argument_inv step_quoted_inv
        step_literal_inv step_literal_seek_inv step_literal_data_inv)

lemma parse_inv:
  "parse cp r bs = (res, r', rest) \<Longrightarrow> receiver_inv r \<Longrightarrow>
    receiver_inv r' \<and> (\<forall>q. res = Inr q \<longrightarrow> tokens_weight q \<le> max_request_size r)"
proof (induction cp r bs rule: parse.induct)
  case (1 cp r)
  then show ?case by auto
next
  case (2 cp r ch bytes)
  have inv: "outcome_inv r (step cp r ch)" using "2.prems"(2) by (rule step_inv)
  obtain oc r1 where st: "step cp r ch = (oc, r1)" by (cases "step cp r ch") auto
  have mx: "oc = Continue \<Longrightarrow> max_request_size r1 = max_request_size r"
    using step_shape [of cp r ch] st by (auto simp: step_shape_def) (metis fresh_simps(6))
  show ?case
  proof (cases oc)
    case Continue
    with st 2 inv mx show ?thesis by (auto simp: outcome_inv_def)
  next
    case (Complete q)
    with st 2 inv show ?thesis by (auto simp: outcome_inv_def)
  next
    case (Fail e)
    with st 2 inv show ?thesis by (auto simp: outcome_inv_def)
  qed
qed

end
