(* ===== verification/Imap_Wire.thy ===== *)
theory Imap_Wire
  imports Imap_Receiver
begin

text \<open>
  The wire format that the receiver reads: the string writers of
  \<open>crates/imap-proto/src/protocol/mod.rs\<close>, a request line built with them, and the proof
  that the receiver reads such a line back. The proof is made once for every command
  language, in the locale \<open>command_syntax\<close>, whose assumptions are what the receiver needs of
  an implementation of the trait \<open>CommandParser\<close>.
\<close>

section \<open>Writers\<close>

text \<open>The writers append to a buffer; the definitions give the bytes appended.\<close>

fun quote_body :: "string \<Rightarrow> string" where
  "quote_body [] = []"
| "quote_body (c # cs) =
    (if c = ch_backslash \<or> c = ch_quote then ch_backslash # c # quote_body cs else c # quote_body cs)"

definition quoted_string :: "string \<Rightarrow> string" where
  "quoted_string text = ch_quote # quote_body text @ [ch_quote]"

definition literal_string :: "string \<Rightarrow> string" where
  "literal_string text = CHR ''{'' # show_nat (length text) @ CHR ''}'' # ch_cr # ch_lf # text"

definition quoted_or_literal_string :: "string \<Rightarrow> string" where
  "quoted_or_literal_string text =
    (if \<exists>ch \<in> set text. ch \<in> {ch_backslash, ch_quote, ch_cr, ch_lf}
     then literal_string text
     else ch_quote # text @ [ch_quote])"

section \<open>A client that sends the literal after the continuation request\<close>

lemma parse_shorter:
  "parse cp r bs = (Inl (NeedsLiteral n), r', rest) \<Longrightarrow> length rest < length bs"
proof (induction cp r bs rule: parse.induct)
  case (2 cp r ch bytes)
  then show ?case by (fastforce split: prod.splits outcome.splits)
qed simp

text \<open>
  The dialogue over a byte sequence: whenever the receiver asks for a literal, the size
  asked for is recorded and reading goes on, as the client then sends the literal.
\<close>

function dialogue ::
  "'c command_parser \<Rightarrow> 'c receiver \<Rightarrow> string \<Rightarrow> ((rerror + 'c request) \<times> 'c receiver \<times> string) \<times> nat list" where
  "dialogue cp r bs =
    (case parse cp r bs of
       (Inl (NeedsLiteral n), r', rest) \<Rightarrow>
         (case dialogue cp r' rest of (res, ns) \<Rightarrow> (res, n # ns))
     | res \<Rightarrow> (res, []))"
  by pat_completeness auto
termination
  by (relation "measure (\<lambda>(cp, r, bs). length bs)") (auto dest: parse_shorter [OF sym])

declare dialogue.simps [simp del]

definition prompt :: "nat list \<Rightarrow> 'a \<times> nat list \<Rightarrow> 'a \<times> nat list" where
  "prompt ns p = (fst p, ns @ snd p)"

lemma prompt_simps [simp]: "prompt [] p = p" "prompt ms (prompt ns p) = prompt (ms @ ns) p"
  by (simp_all add: prompt_def)

lemma dialogue_continue:
  "step cp r ch = (Continue, r') \<Longrightarrow> dialogue cp r (ch # bs) = dialogue cp r' bs"
  by (simp add: dialogue.simps [of cp r "ch # bs"] dialogue.simps [of cp r' bs])

lemma dialogue_literal:
  "step cp r ch = (Fail (NeedsLiteral n), r') \<Longrightarrow> dialogue cp r (ch # bs) = prompt [n] (dialogue cp r' bs)"
  by (simp add: dialogue.simps [of cp r "ch # bs"] prompt_def split: prod.split)

lemma dialogue_complete:
  "step cp r ch = (Complete q, r') \<Longrightarrow> dialogue cp r (ch # bs) = ((Inr q, r', bs), [])"
  by (simp add: dialogue.simps [of cp r "ch # bs"])

section \<open>Reading one argument\<close>

datatype argument_form = Quoted string | Literal_form string

fun encode_argument :: "argument_form \<Rightarrow> string" where
  "encode_argument (Quoted s) = quoted_string s"
| "encode_argument (Literal_form s) = literal_string s"

fun argument_token :: "argument_form \<Rightarrow> token" where
  "argument_token (Quoted s) = (if s = [] then Nil_token else Argument s)"
| "argument_token (Literal_form s) = (if s = [] then Nil_token else Argument s)"

fun argument_cost :: "argument_form \<Rightarrow> nat" where
  "argument_cost (Quoted s) = length s"
| "argument_cost (Literal_form s) = (if s = [] then 1 else length s)"

fun argument_ok :: "argument_form \<Rightarrow> bool" where
  "argument_ok (Quoted s) \<longleftrightarrow> length s \<le> ARG_MAX_LEN \<and> ch_lf \<notin> set s"
| "argument_ok (Literal_form s) \<longleftrightarrow> length s \<le> u32_max"

fun argument_prompt :: "argument_form \<Rightarrow> nat list" where
  "argument_prompt (Quoted s) = []"
| "argument_prompt (Literal_form s) = [length s]"

text \<open>The receiver after the tokens \<open>ts\<close> of total size \<open>n\<close>, back between arguments.\<close>

definition advance :: "token list \<Rightarrow> nat \<Rightarrow> 'c receiver \<Rightarrow> 'c receiver" where
  "advance ts n r = r\<lparr>request := (request r)\<lparr>tokens := tokens (request r) @ ts\<rparr>,
     current_request_size := current_request_size r + n, state := ArgumentState ch_space\<rparr>"

text \<open>A receiver between two arguments.\<close>

definition between :: "'c receiver \<Rightarrow> bool" where
  "between r \<longleftrightarrow> buf r = [] \<and> (\<exists>l. state r = ArgumentState l \<and> is_ascii_whitespace l)"

lemma ws_facts [simp]:
  "is_ascii_whitespace ch_space" "is_ascii_whitespace ch_tab" "is_ascii_whitespace ch_lf"
  "is_ascii_whitespace ch_cr" "\<not> is_ascii_whitespace ch_quote" "\<not> is_ascii_whitespace CHR ''{''"
  by (simp_all add: is_ascii_whitespace_def)

lemma dialogue_quote_body:
  "state r = ArgumentQuoted False \<Longrightarrow> ch_lf \<notin> set s \<Longrightarrow> length (buf r) + length s \<le> ARG_MAX_LEN \<Longrightarrow>
    dialogue cp r (quote_body s @ bs) = dialogue cp (r\<lparr>buf := buf r @ s\<rparr>) bs"
proof (induction s arbitrary: r)
  case Nil
  then show ?case by simp
next
  case (Cons c s)
  let ?r = "r\<lparr>buf := buf r @ [c]\<rparr>"
  have IH: "dialogue cp ?r (quote_body s @ bs) = dialogue cp (r\<lparr>buf := buf r @ c # s\<rparr>) bs"
    using Cons.IH [of ?r] Cons.prems by simp
  show ?case
  proof (cases "c = ch_backslash \<or> c = ch_quote")
    case True
    have 1: "step cp r ch_backslash = (Continue, r\<lparr>state := ArgumentQuoted True\<rparr>)"
      using Cons.prems by (simp add: step_def step_quoted_def)
    have 2: "step cp (r\<lparr>state := ArgumentQuoted True\<rparr>) c = (Continue, ?r)"
      using Cons.prems True
      by (cases r) (auto simp: step_def step_quoted_def push_buf_def push_checked_def)
    from True IH show ?thesis by (auto simp: dialogue_continue [OF 1] dialogue_continue [OF 2])
  next
    case False
    then have 1: "step cp r c = (Continue, ?r)"
      using Cons.prems
      by (cases r) (auto simp: step_def step_quoted_def push_buf_def push_checked_def)
    from False IH show ?thesis by (auto simp: dialogue_continue [OF 1])
  qed
qed

lemma dialogue_quoted_string:
  assumes "between r" and "argument_ok (Quoted s)"
    and "current_request_size r + length s \<le> max_request_size r"
  shows "dialogue cp r (quoted_string s @ bs) =
         dialogue cp (advance [argument_token (Quoted s)] (length s) r) bs"
proof -
  let ?r1 = "r\<lparr>state := ArgumentQuoted False\<rparr>"
  let ?r2 = "?r1\<lparr>buf := s\<rparr>"
  have 1: "step cp r ch_quote = (Continue, ?r1)"
    using assms(1) by (auto simp: between_def step_def step_argument_def and_then_def push_argument_def)
  have 2: "dialogue cp ?r1 (quote_body s @ ch_quote # bs) = dialogue cp ?r2 (ch_quote # bs)"
    using dialogue_quote_body [of ?r1 s cp "ch_quote # bs"] assms by (simp add: between_def)
  have 3: "step cp ?r2 ch_quote = (Continue, advance [argument_token (Quoted s)] (length s) r)"
    using assms
    by (cases r) (auto simp: between_def step_def step_quoted_def and_then_def push_argument_def advance_def)
  show ?thesis
    by (simp add: quoted_string_def dialogue_continue [OF 1] 2 dialogue_continue [OF 3])
qed

lemma digit_step:
  assumes "is_ascii_digit c" and "state r = Literal False" and "length (buf r) < 15"
  shows "step cp r c = (Continue, r\<lparr>buf := buf r @ [c]\<rparr>)"
proof -
  have "c \<noteq> CHR ''}''" "c \<noteq> CHR ''+''" using assms(1) by (auto simp: is_ascii_digit_def byte_def)
  with assms show ?thesis
    by (cases r) (simp add: step_def step_literal_def push_buf_def push_checked_def)
qed

lemma dialogue_digits:
  "\<forall>c \<in> set ds. is_ascii_digit c \<Longrightarrow> state r = Literal False \<Longrightarrow> length (buf r) + length ds \<le> 15 \<Longrightarrow>
    dialogue cp r (ds @ bs) = dialogue cp (r\<lparr>buf := buf r @ ds\<rparr>) bs"
proof (induction ds arbitrary: r)
  case Nil
  then show ?case by simp
next
  case (Cons c ds)
  then have 1: "step cp r c = (Continue, r\<lparr>buf := buf r @ [c]\<rparr>)"
    by (intro digit_step) auto
  show ?case
    using Cons.IH [of "r\<lparr>buf := buf r @ [c]\<rparr>"] Cons.prems by (simp add: dialogue_continue [OF 1])
qed

text \<open>Literal data is taken byte by byte, whatever the bytes are.\<close>

lemma dialogue_literal_data:
  "state r = LiteralData (length s) \<Longrightarrow> s \<noteq> [] \<Longrightarrow>
    current_request_size r + length (buf r) + length s \<le> max_request_size r \<Longrightarrow>
    dialogue cp r (s @ bs) =
    dialogue cp (r\<lparr>buf := [], request := (request r)\<lparr>tokens := tokens (request r) @ [Argument (buf r @ s)]\<rparr>,
       current_request_size := current_request_size r + length (buf r @ s), state := ArgumentState ch_space\<rparr>) bs"
proof (induction s arbitrary: r)
  case Nil
  then show ?case by simp
next
  case (Cons c s)
  show ?case
  proof (cases "s = []")
    case True
    with Cons.prems have 1: "step cp r c = (Continue,
       r\<lparr>buf := [], request := (request r)\<lparr>tokens := tokens (request r) @ [Argument (buf r @ [c])]\<rparr>,
         current_request_size := current_request_size r + length (buf r @ [c]), state := ArgumentState ch_space\<rparr>)"
      by (cases r) (simp add: step_def step_literal_data_def and_then_def push_argument_def)
    from True show ?thesis by (simp add: dialogue_continue [OF 1])
  next
    case False
    let ?r = "r\<lparr>buf := buf r @ [c], state := LiteralData (length s)\<rparr>"
    from False Cons.prems have 1: "step cp r c = (Continue, ?r)"
      by (simp add: step_def step_literal_data_def)
    show ?thesis
      using Cons.IH [of ?r] Cons.prems False by (simp add: dialogue_continue [OF 1])
  qed
qed

lemma dialogue_literal_string:
  assumes bt: "between r" and ok: "argument_ok (Literal_form s)"
    and fits: "current_request_size r + argument_cost (Literal_form s) \<le> max_request_size r"
  shows "dialogue cp r (literal_string s @ bs) =
         prompt [length s] (dialogue cp (advance [argument_token (Literal_form s)] (argument_cost (Literal_form s)) r) bs)"
proof -
  let ?ds = "show_nat (length s)"
  let ?r1 = "r\<lparr>state := Literal False\<rparr>"
  let ?r2 = "?r1\<lparr>buf := ?ds\<rparr>"
  let ?r3 = "r\<lparr>state := LiteralSeek (length s) False\<rparr>"
  have 1: "step cp r CHR ''{'' = (Continue, ?r1)"
    using bt by (auto simp: between_def step_def step_argument_def and_then_def push_argument_def)
  have "length s < 10 ^ Suc 9" using ok by (simp add: u32_max_def)
  then have "length ?ds \<le> 15" using length_show_nat [of "length s" 9] by simp
  then have 2: "dialogue cp ?r1 (?ds @ xs) = dialogue cp ?r2 xs" for xs
    using dialogue_digits [of ?ds ?r1 cp xs] show_nat_digits bt by (simp add: between_def)
  have fits': "current_request_size r + length s \<le> max_request_size r"
    using fits by (cases "s = []") auto
  have 3: "step cp ?r2 CHR ''}'' = (Continue, ?r3)"
    using ok fits' bt
    by (cases r) (simp add: between_def step_def step_literal_def parse_uint_show_nat)
  have 4: "step cp ?r3 ch_cr = (Continue, ?r3)"
    by (simp add: step_def step_literal_seek_def)
  have chain: "dialogue cp r (literal_string s @ bs) = dialogue cp ?r3 (ch_lf # s @ bs)"
    by (simp add: literal_string_def dialogue_continue [OF 1] 2 dialogue_continue [OF 3] dialogue_continue [OF 4])
  show ?thesis
  proof (cases "s = []")
    case True
    then have 5: "step cp ?r3 ch_lf =
        (Fail (NeedsLiteral (length s)), advance [argument_token (Literal_form s)] (argument_cost (Literal_form s)) r)"
      using fits by (cases r) (simp add: step_def step_literal_seek_def and_then_def push_token_def advance_def)
    from chain dialogue_literal [OF 5] True show ?thesis by simp
  next
    case False
    let ?r4 = "r\<lparr>state := LiteralData (length s)\<rparr>"
    from False have 5: "step cp ?r3 ch_lf = (Fail (NeedsLiteral (length s)), ?r4)"
      by (simp add: step_def step_literal_seek_def)
    have 6: "dialogue cp ?r4 (s @ bs) =
        dialogue cp (advance [argument_token (Literal_form s)] (argument_cost (Literal_form s)) r) bs"
      using dialogue_literal_data [of ?r4 s cp bs] False fits' bt
      by (cases r) (simp add: advance_def between_def)
    show ?thesis using chain dialogue_literal [OF 5] 6 by simp
  qed
qed

lemma dialogue_argument:
  assumes "between r" and "argument_ok a"
    and "current_request_size r + argument_cost a \<le> max_request_size r"
  shows "dialogue cp r (encode_argument a @ bs) =
         prompt (argument_prompt a) (dialogue cp (advance [argument_token a] (argument_cost a) r) bs)"
  using assms dialogue_quoted_string [of r _ cp bs] dialogue_literal_string [of r _ cp bs]
  by (cases a) auto

fun encode_arguments :: "argument_form list \<Rightarrow> string" where
  "encode_arguments [] = []"
| "encode_arguments (a # as) = ch_space # encode_argument a @ encode_arguments as"

definition arguments_cost :: "argument_form list \<Rightarrow> nat" where
  "arguments_cost as = sum_list (map argument_cost as)"

definition arguments_prompts :: "argument_form list \<Rightarrow> nat list" where
  "arguments_prompts as = concat (map argument_prompt as)"

lemma between_advance [simp]: "between r \<Longrightarrow> between (advance ts n r)"
  by (auto simp: between_def advance_def)

lemma advance_advance [simp]: "advance us m (advance ts n r) = advance (ts @ us) (n + m) r"
  by (simp add: advance_def add.assoc)

lemma advance_size [simp]:
  "current_request_size (advance ts n r) = current_request_size r + n"
  "max_request_size (advance ts n r) = max_request_size r"
  by (simp_all add: advance_def)

lemma space_step:
  assumes "between r"
  shows "step cp r ch_space = (Continue, advance [] 0 r)"
  using assms
  by (cases r) (auto simp: between_def step_def step_argument_def and_then_def push_argument_def
      bracket_token_def advance_def)

lemma dialogue_arguments:
  "between r \<Longrightarrow> \<forall>a \<in> set as. argument_ok a \<Longrightarrow>
    current_request_size r + arguments_cost as \<le> max_request_size r \<Longrightarrow>
    \<exists>r'. between r' \<and> request r' = (request r)\<lparr>tokens := tokens (request r) @ map argument_token as\<rparr>
       \<and> fresh cp r' = fresh cp r
       \<and> dialogue cp r (encode_arguments as @ bs) = prompt (arguments_prompts as) (dialogue cp r' bs)"
proof (induction as arbitrary: r)
  case Nil
  have "request r = (request r)\<lparr>tokens := tokens (request r) @ map argument_token []\<rparr>" by simp
  moreover have "dialogue cp r (encode_arguments [] @ bs) = prompt (arguments_prompts []) (dialogue cp r bs)"
    by (simp add: arguments_prompts_def)
  ultimately show ?case using Nil.prems(1) by blast
next
  case (Cons a as)
  let ?r1 = "advance [argument_token a] (argument_cost a) r"
  from Cons.prems have ok: "argument_ok a" and fits: "current_request_size r + argument_cost a \<le> max_request_size r"
    by (simp_all add: arguments_cost_def)
  have bt: "between (advance [] 0 r)" using Cons.prems(1) by simp
  have one: "dialogue cp (advance [] 0 r) (encode_argument a @ xs) = prompt (argument_prompt a) (dialogue cp ?r1 xs)" for xs
    using dialogue_argument [OF bt ok, of cp xs] fits by simp
  from Cons.IH [of ?r1] Cons.prems obtain r' where r': "between r'"
      "request r' = (request ?r1)\<lparr>tokens := tokens (request ?r1) @ map argument_token as\<rparr>"
      "fresh cp r' = fresh cp ?r1"
      "dialogue cp ?r1 (encode_arguments as @ bs) = prompt (arguments_prompts as) (dialogue cp r' bs)"
    by (auto simp: arguments_cost_def add.assoc)
  have "fresh cp ?r1 = fresh cp r"
    by (simp add: advance_def)
  with r' one show ?case
    by (intro exI [of _ r'])
       (simp add: dialogue_continue [OF space_step [OF Cons.prems(1)]] arguments_prompts_def advance_def)
qed

section \<open>Tag and end of line\<close>

definition tag_char :: "char \<Rightarrow> bool" where
  "tag_char c \<longleftrightarrow> c \<noteq> ch_space \<and> c \<noteq> ch_tab \<and> c \<noteq> ch_cr \<and> c \<noteq> ch_lf"

definition valid_tag :: "string \<Rightarrow> bool" where
  "valid_tag t \<longleftrightarrow> t \<noteq> [] \<and> \<not> is_ascii_whitespace (hd t) \<and> (\<forall>c \<in> set t. tag_char c)
     \<and> length t \<le> 128 \<and> utf8_valid t"

lemma dialogue_tag_chars:
  "state r = Tag \<Longrightarrow> \<forall>c \<in> set t. tag_char c \<Longrightarrow> length (buf r) + length t \<le> 128 \<Longrightarrow>
    dialogue cp r (t @ bs) = dialogue cp (r\<lparr>buf := buf r @ t\<rparr>) bs"
proof (induction t arbitrary: r)
  case Nil
  then show ?case by simp
next
  case (Cons c t)
  then have 1: "step cp r c = (Continue, r\<lparr>buf := buf r @ [c]\<rparr>)"
    by (cases r) (auto simp: step_def step_tag_def push_buf_def push_checked_def tag_char_def)
  show ?case
    using Cons.IH [of "r\<lparr>buf := buf r @ [c]\<rparr>"] Cons.prems by (simp add: dialogue_continue [OF 1])
qed

lemma dialogue_tag:
  assumes "valid_tag t" and "state r = Start" and "buf r = []"
  shows "dialogue cp r (t @ ch_space # bs) =
         dialogue cp (r\<lparr>request := (request r)\<lparr>tag := t\<rparr>, state := Command False\<rparr>) bs"
proof -
  obtain c t' where t: "t = c # t'" using assms(1) by (cases t) (auto simp: valid_tag_def)
  let ?r1 = "r\<lparr>buf := [c], state := Tag\<rparr>"
  have 1: "step cp r c = (Continue, ?r1)"
    using assms t by (simp add: step_def step_start_def valid_tag_def)
  have 2: "dialogue cp ?r1 (t' @ ch_space # bs) = dialogue cp (?r1\<lparr>buf := t\<rparr>) (ch_space # bs)"
    using dialogue_tag_chars [of ?r1 t' cp "ch_space # bs"] assms t by (simp add: valid_tag_def)
  have 3: "step cp (?r1\<lparr>buf := t\<rparr>) ch_space =
      (Continue, r\<lparr>request := (request r)\<lparr>tag := t\<rparr>, state := Command False\<rparr>)"
    using assms t by (cases r) (simp add: step_def step_tag_def valid_tag_def)
  show ?thesis using t 2 dialogue_continue [OF 3] by (simp add: dialogue_continue [OF 1])
qed

lemma dialogue_end_of_line:
  assumes "between r"
  shows "dialogue cp r (ch_cr # ch_lf # bs) = ((Inr (request r), fresh cp r, bs), [])"
proof -
  have 1: "step cp r ch_cr = (Continue, r\<lparr>state := ArgumentState ch_cr\<rparr>)"
    using assms
    by (auto simp: between_def step_def step_argument_def and_then_def push_argument_def bracket_token_def)
  have 2: "step cp (r\<lparr>state := ArgumentState ch_cr\<rparr>) ch_lf = (Complete (request r), fresh cp r)"
    using assms
    by (cases r) (auto simp: between_def step_def step_argument_def and_then_def push_argument_def
        bracket_token_def finish_def fresh_def)
  show ?thesis by (simp add: dialogue_continue [OF 1] dialogue_complete [OF 2])
qed

section \<open>The interface of a command language\<close>

text \<open>
  A spelling of a command: its word \<open>w\<close> and, for a UID command, its prefix \<open>u\<close>, in any mix
  of upper and lower case; \<open>command_words\<close> is what the client writes.
\<close>

definition spelling :: "('c \<Rightarrow> string) \<Rightarrow> ('c \<Rightarrow> bool) \<Rightarrow> 'c \<Rightarrow> string \<Rightarrow> string \<Rightarrow> bool" where
  "spelling name uid c u w \<longleftrightarrow> map to_ascii_uppercase w = name c
     \<and> (if uid c then map to_ascii_uppercase u = ''UID'' else u = [])
     \<and> (\<forall>ch \<in> set (u @ w). is_ascii_alphanumeric ch)"

definition command_words :: "string \<Rightarrow> string \<Rightarrow> string" where
  "command_words u w = (if u = [] then w else u @ ch_space # w)"

locale command_syntax =
  fixes cp :: "'c command_parser"
    and name :: "'c \<Rightarrow> string"
    and uid :: "'c \<Rightarrow> bool"
  assumes parse_name: "parse_command cp (name c) (uid c) = Some c"
    and name_char: "ch \<in> set (name c) \<Longrightarrow> is_ascii_alphanumeric ch"
    and name_length: "0 < length (name c) \<and> length (name c) \<le> 15"
    and name_not_uid: "\<not> eq_ignore_ascii_case (name c) ''UID''"
begin

text \<open>A spelling of a word: any mix of upper and lower case.\<close>

lemma dialogue_word:
  "map to_ascii_uppercase w = w' \<Longrightarrow> \<forall>ch \<in> set w. is_ascii_alphanumeric ch \<Longrightarrow>
    state r = Command u \<Longrightarrow> length (buf r) + length w \<le> 15 \<Longrightarrow>
    dialogue cp r (w @ bs) = dialogue cp (r\<lparr>buf := buf r @ w'\<rparr>) bs"
proof (induction w arbitrary: r w')
  case Nil
  then show ?case by simp
next
  case (Cons ch w)
  let ?r = "r\<lparr>buf := buf r @ [to_ascii_uppercase ch]\<rparr>"
  from Cons.prems have 1: "step cp r ch = (Continue, ?r)"
    by (cases r) (simp add: step_def step_command_def push_buf_def push_checked_def)
  show ?case
    using Cons.IH [of "map to_ascii_uppercase w" ?r] Cons.prems by (auto simp: dialogue_continue [OF 1])
qed

lemma dialogue_name:
  assumes w: "map to_ascii_uppercase w = name c" "\<forall>ch \<in> set w. is_ascii_alphanumeric ch"
    and r: "state r = Command (uid c)" "buf r = []"
  shows "dialogue cp r (w @ ch_space # bs) =
         dialogue cp (r\<lparr>request := (request r)\<lparr>command := c\<rparr>, state := ArgumentState ch_space\<rparr>) bs"
proof -
  have len: "length w = length (name c)" using w(1) by (metis length_map)
  have ne: "name c \<noteq> []" using name_length [of c] by auto
  have 1: "dialogue cp r (w @ ch_space # bs) = dialogue cp (r\<lparr>buf := name c\<rparr>) (ch_space # bs)"
    using dialogue_word [OF w r(1)] len name_length [of c] r(2) by simp
  have 2: "step cp (r\<lparr>buf := name c\<rparr>) ch_space =
      (Continue, r\<lparr>request := (request r)\<lparr>command := c\<rparr>, state := ArgumentState ch_space\<rparr>)"
    using r ne name_not_uid [of c] parse_name [of c]
    by (cases r) (simp add: step_def step_command_def whitespace_not_alphanumeric)
  show ?thesis by (simp add: 1 dialogue_continue [OF 2])
qed

lemma dialogue_uid:
  assumes "map to_ascii_uppercase u = ''UID''" "\<forall>ch \<in> set u. is_ascii_alphanumeric ch"
    and r: "state r = Command False" "buf r = []"
  shows "dialogue cp r (u @ ch_space # bs) = dialogue cp (r\<lparr>state := Command True\<rparr>) bs"
proof -
  have len: "length u = 3" using arg_cong [OF assms(1), of length] by simp
  have 1: "dialogue cp r (u @ ch_space # bs) = dialogue cp (r\<lparr>buf := ''UID''\<rparr>) (ch_space # bs)"
    using dialogue_word [OF assms(1,2) r(1)] len r(2) by simp
  have 2: "step cp (r\<lparr>buf := ''UID''\<rparr>) ch_space = (Continue, r\<lparr>state := Command True\<rparr>)"
    using r by (cases r) (simp add: step_def step_command_def whitespace_not_alphanumeric)
  show ?thesis by (simp add: 1 dialogue_continue [OF 2])
qed

lemma dialogue_command:
  assumes sp: "spelling name uid c u w" and r: "state r = Command False" "buf r = []"
  shows "dialogue cp r (command_words u w @ ch_space # bs) =
         dialogue cp (r\<lparr>request := (request r)\<lparr>command := c\<rparr>, state := ArgumentState ch_space\<rparr>) bs"
proof (cases "uid c")
  case True
  then have u: "map to_ascii_uppercase u = ''UID''" "u \<noteq> []" using sp by (auto simp: spelling_def)
  let ?r1 = "r\<lparr>state := Command True\<rparr>"
  have "dialogue cp r (u @ ch_space # w @ ch_space # bs) = dialogue cp ?r1 (w @ ch_space # bs)"
    using dialogue_uid [OF u(1) _ r] sp by (simp add: spelling_def)
  also have "\<dots> = dialogue cp (?r1\<lparr>request := (request ?r1)\<lparr>command := c\<rparr>, state := ArgumentState ch_space\<rparr>) bs"
    using dialogue_name [of w c ?r1] sp True r by (simp add: spelling_def)
  finally show ?thesis using u(2) by (cases r) (simp add: command_words_def)
next
  case False
  with sp have "u = []" by (simp add: spelling_def)
  with dialogue_name [of w c r] sp False r show ?thesis by (simp add: spelling_def command_words_def)
qed

text \<open>
  A whole request line, read from a fresh receiver in its start state. \<open>tagged\<close> is the
  tag with its space (IMAP), or nothing (ManageSieve, whose start state is the command state).
\<close>

lemma dialogue_request:
  assumes t: "start_state r = Start \<and> valid_tag t \<and> tagged = t @ [ch_space]
      \<or> start_state r = Command False \<and> t = [] \<and> tagged = []"
    and sp: "spelling name uid c u w" and as: "\<forall>a \<in> set as. argument_ok a"
    and fits: "arguments_cost as \<le> max_request_size r"
  shows "dialogue cp (fresh cp r)
           (tagged @ command_words u w @ ch_space # encode_arguments as @ ch_cr # ch_lf # bs)
       = ((Inr \<lparr>tag = t, command = c, tokens = map argument_token as\<rparr>, fresh cp r, bs), arguments_prompts as)"
proof -
  let ?line = "command_words u w @ ch_space # encode_arguments as @ ch_cr # ch_lf # bs"
  let ?r1 = "(fresh cp r)\<lparr>request := (request (fresh cp r))\<lparr>tag := t\<rparr>, state := Command False\<rparr>"
  let ?r2 = "?r1\<lparr>request := (request ?r1)\<lparr>command := c\<rparr>, state := ArgumentState ch_space\<rparr>"
  have 1: "dialogue cp (fresh cp r) (tagged @ ?line) = dialogue cp ?r1 ?line"
    using t
  proof
    assume "start_state r = Start \<and> valid_tag t \<and> tagged = t @ [ch_space]"
    then show ?thesis using dialogue_tag [of t "fresh cp r" cp ?line] by (simp add: fresh_def)
  next
    assume "start_state r = Command False \<and> t = [] \<and> tagged = []"
    then have "?r1 = fresh cp r" and "tagged = []"
      by (cases r; simp add: fresh_def default_request_def)+
    then show ?thesis by simp
  qed
  have 2: "dialogue cp ?r1 ?line = dialogue cp ?r2 (encode_arguments as @ ch_cr # ch_lf # bs)"
    by (rule dialogue_command [OF sp]) (simp_all add: fresh_def)
  have bt: "between ?r2" by (simp add: between_def fresh_def)
  from dialogue_arguments [OF bt as, of cp "ch_cr # ch_lf # bs"] fits obtain r' where r':
      "between r'" "request r' = (request ?r2)\<lparr>tokens := tokens (request ?r2) @ map argument_token as\<rparr>"
      "fresh cp r' = fresh cp ?r2"
      "dialogue cp ?r2 (encode_arguments as @ ch_cr # ch_lf # bs)
        = prompt (arguments_prompts as) (dialogue cp r' (ch_cr # ch_lf # bs))"
    by (auto simp: fresh_def)
  have "request r' = \<lparr>tag = t, command = c, tokens = map argument_token as\<rparr>"
    using r'(2) by (simp add: fresh_def default_request_def)
  moreover have "fresh cp r' = fresh cp r" using r'(3) by simp
  ultimately show ?thesis
    using r'(4) by (simp add: 1 2 dialogue_end_of_line [OF r'(1)] prompt_def)
qed

end

end
