(* ===== verification/Imap_Commands.thy ===== *)
theory Imap_Commands
  imports Imap_Wire
begin

text \<open>
  The two command languages that the receiver serves: IMAP (\<open>imap-proto/src/lib.rs\<close>,
  \<open>imap-proto/src/parser/mod.rs\<close>) and ManageSieve (\<open>managesieve/src/core/mod.rs\<close>), as
  instances of \<open>command_syntax\<close>, and the properties of the receiver that follow.

  \<open>hashify::tiny_map!\<close> builds a perfect hash from the table written in the source; its
  lookup is modelled as the first match in that table.
\<close>

section \<open>IMAP commands\<close>

datatype imap_command =
    CmdCapability | CmdNoop | CmdLogout | CmdStartTls | CmdAuthenticate | CmdLogin
    | CmdEnable | CmdSelect | CmdExamine | CmdCreate | CmdDelete | CmdRename | CmdSubscribe
    | CmdUnsubscribe | CmdList | CmdNamespace | CmdStatus | CmdAppend | CmdIdle | CmdClose
    | CmdUnselect | CmdExpunge bool | CmdSearch bool | CmdFetch bool | CmdStore bool
    | CmdCopy bool | CmdMove bool | CmdLsub | CmdCheck | CmdSort bool | CmdThread bool
    | CmdSetAcl | CmdDeleteAcl | CmdGetAcl | CmdListRights | CmdMyRights | CmdUnauthenticate
    | CmdId | CmdGetQuota | CmdGetQuotaRoot

fun is_uid :: "imap_command \<Rightarrow> bool" where
  "is_uid (CmdExpunge u) = u"
| "is_uid (CmdSearch u) = u"
| "is_uid (CmdFetch u) = u"
| "is_uid (CmdStore u) = u"
| "is_uid (CmdCopy u) = u"
| "is_uid (CmdMove u) = u"
| "is_uid (CmdSort u) = u"
| "is_uid (CmdThread u) = u"
| "is_uid _ = False"

definition imap_command_table :: "(string \<times> (bool \<Rightarrow> imap_command)) list" where
  "imap_command_table =
    [(''CAPABILITY'', \<lambda>_. CmdCapability),
     (''NOOP'', \<lambda>_. CmdNoop),
     (''LOGOUT'', \<lambda>_. CmdLogout),
     (''STARTTLS'', \<lambda>_. CmdStartTls),
     (''AUTHENTICATE'', \<lambda>_. CmdAuthenticate),
     (''LOGIN'', \<lambda>_. CmdLogin),
     (''ENABLE'', \<lambda>_. CmdEnable),
     (''SELECT'', \<lambda>_. CmdSelect),
     (''EXAMINE'', \<lambda>_. CmdExamine),
     (''CREATE'', \<lambda>_. CmdCreate),
     (''DELETE'', \<lambda>_. CmdDelete),
     (''RENAME'', \<lambda>_. CmdRename),
     (''SUBSCRIBE'', \<lambda>_. CmdSubscribe),
     (''UNSUBSCRIBE'', \<lambda>_. CmdUnsubscribe),
     (''LIST'', \<lambda>_. CmdList),
     (''NAMESPACE'', \<lambda>_. CmdNamespace),
     (''STATUS'', \<lambda>_. CmdStatus),
     (''APPEND'', \<lambda>_. CmdAppend),
     (''IDLE'', \<lambda>_. CmdIdle),
     (''CLOSE'', \<lambda>_. CmdClose),
     (''UNSELECT'', \<lambda>_. CmdUnselect),
     (''EXPUNGE'', CmdExpunge),
     (''SEARCH'', CmdSearch),
     (''FETCH'', CmdFetch),
     (''STORE'', CmdStore),
     (''COPY'', CmdCopy),
     (''MOVE'', CmdMove),
     (''SORT'', CmdSort),
     (''THREAD'', CmdThread),
     (''LSUB'', \<lambda>_. CmdLsub),
     (''CHECK'', \<lambda>_. CmdCheck),
     (''SETACL'', \<lambda>_. CmdSetAcl),
     (''DELETEACL'', \<lambda>_. CmdDeleteAcl),
     (''GETACL'', \<lambda>_. CmdGetAcl),
     (''LISTRIGHTS'', \<lambda>_. CmdListRights),
     (''MYRIGHTS'', \<lambda>_. CmdMyRights),
     (''UNAUTHENTICATE'', \<lambda>_. CmdUnauthenticate),
     (''ID'', \<lambda>_. CmdId),
     (''GETQUOTA'', \<lambda>_. CmdGetQuota),
     (''GETQUOTAROOT'', \<lambda>_. CmdGetQuotaRoot)]"

definition imap_parse :: "string \<Rightarrow> bool \<Rightarrow> imap_command option" where
  "imap_parse value uid = map_option (\<lambda>f. f uid) (map_of imap_command_table value)"

fun imap_tokenize_brackets :: "imap_command \<Rightarrow> bool" where
  "imap_tokenize_brackets (CmdFetch _) = True"
| "imap_tokenize_brackets _ = False"

definition imap_parser :: "imap_command command_parser" where
  "imap_parser = \<lparr>parse_command = imap_parse, tokenize_brackets = imap_tokenize_brackets,
                  default_command = CmdNoop\<rparr>"

text \<open>\<open>Display for Command\<close>, used in the responses.\<close>

fun imap_display :: "imap_command \<Rightarrow> string" where
  "imap_display CmdCapability = ''CAPABILITY''"
| "imap_display CmdNoop = ''NOOP''"
| "imap_display CmdLogout = ''LOGOUT''"
| "imap_display CmdStartTls = ''STARTTLS''"
| "imap_display CmdAuthenticate = ''AUTHENTICATE''"
| "imap_display CmdLogin = ''LOGIN''"
| "imap_display CmdEnable = ''ENABLE''"
| "imap_display CmdSelect = ''SELECT''"
| "imap_display CmdExamine = ''EXAMINE''"
| "imap_display CmdCreate = ''CREATE''"
| "imap_display CmdDelete = ''DELETE''"
| "imap_display CmdRename = ''RENAME''"
| "imap_display CmdSubscribe = ''SUBSCRIBE''"
| "imap_display CmdUnsubscribe = ''UNSUBSCRIBE''"
| "imap_display CmdList = ''LIST''"
| "imap_display CmdNamespace = ''NAMESPACE''"
| "imap_display CmdStatus = ''STATUS''"
| "imap_display CmdAppend = ''APPEND''"
| "imap_display CmdIdle = ''IDLE''"
| "imap_display CmdClose = ''CLOSE''"
| "imap_display CmdUnselect = ''UNSELECT''"
| "imap_display (CmdExpunge False) = ''EXPUNGE''"
| "imap_display (CmdExpunge True) = ''UID EXPUNGE''"
| "imap_display (CmdSearch False) = ''SEARCH''"
| "imap_display (CmdSearch True) = ''UID SEARCH''"
| "imap_display (CmdFetch False) = ''FETCH''"
| "imap_display (CmdFetch True) = ''UID FETCH''"
| "imap_display (CmdStore False) = ''STORE''"
| "imap_display (CmdStore True) = ''UID STORE''"
| "imap_display (CmdCopy False) = ''COPY''"
| "imap_display (CmdCopy True) = ''UID COPY''"
| "imap_display (CmdMove False) = ''MOVE''"
| "imap_display (CmdMove True) = ''UID MOVE''"
| "imap_display (CmdSort False) = ''SORT''"
| "imap_display (CmdSort True) = ''UID SORT''"
| "imap_display (CmdThread False) = ''THREAD''"
| "imap_display (CmdThread True) = ''UID THREAD''"
| "imap_display CmdLsub = ''LSUB''"
| "imap_display CmdCheck = ''CHECK''"
| "imap_display CmdSetAcl = ''SETACL''"
| "imap_display CmdDeleteAcl = ''DELETEACL''"
| "imap_display CmdGetAcl = ''GETACL''"
| "imap_display CmdListRights = ''LISTRIGHTS''"
| "imap_display CmdMyRights = ''MYRIGHTS''"
| "imap_display CmdUnauthenticate = ''UNAUTHENTICATE''"
| "imap_display CmdId = ''ID''"
| "imap_display CmdGetQuota = ''GETQUOTA''"
| "imap_display CmdGetQuotaRoot = ''GETQUOTAROOT''"

definition imap_name :: "imap_command \<Rightarrow> string" where
  "imap_name c = (if is_uid c then drop 4 (imap_display c) else imap_display c)"

lemma imap_display_name: "imap_display c = (if is_uid c then ''UID '' else []) @ imap_name c"
  by (cases c rule: imap_display.cases) (simp_all add: imap_name_def)

lemma imap_parse_name: "imap_parse (imap_name c) (is_uid c) = Some c"
  by (cases c rule: imap_display.cases) (simp_all add: imap_name_def imap_parse_def imap_command_table_def)

lemma imap_name_facts:
  "list_all is_ascii_alphanumeric (imap_name c) \<and> 0 < length (imap_name c) \<and> length (imap_name c) \<le> 15
    \<and> \<not> eq_ignore_ascii_case (imap_name c) ''UID''"
  by (cases c rule: imap_display.cases)
     (simp_all add: imap_name_def ascii_defs byte_def eq_ignore_ascii_case_def)

interpretation imap: command_syntax imap_parser imap_name is_uid
proof
  fix c ch
  show "parse_command imap_parser (imap_name c) (is_uid c) = Some c"
    by (simp add: imap_parser_def imap_parse_name)
  show "ch \<in> set (imap_name c) \<Longrightarrow> is_ascii_alphanumeric ch"
    and "0 < length (imap_name c) \<and> length (imap_name c) \<le> 15"
    and "\<not> eq_ignore_ascii_case (imap_name c) ''UID''"
    using imap_name_facts [of c] by (auto simp: list_all_iff)
qed

section \<open>ManageSieve commands\<close>

datatype sieve_command =
    SieveAuthenticate | SieveStartTls | SieveLogout | SieveCapability | SieveHaveSpace | SievePutScript | SieveListScripts
  | SieveSetActive | SieveGetScript | SieveDeleteScript | SieveRenameScript | SieveCheckScript | SieveNoop | SieveUnauthenticate

definition sieve_command_table :: "(string \<times> sieve_command) list" where
  "sieve_command_table =
    [(''AUTHENTICATE'', SieveAuthenticate),
     (''STARTTLS'', SieveStartTls),
     (''LOGOUT'', SieveLogout),
     (''CAPABILITY'', SieveCapability),
     (''HAVESPACE'', SieveHaveSpace),
     (''PUTSCRIPT'', SievePutScript),
     (''LISTSCRIPTS'', SieveListScripts),
     (''SETACTIVE'', SieveSetActive),
     (''GETSCRIPT'', SieveGetScript),
     (''DELETESCRIPT'', SieveDeleteScript),
     (''RENAMESCRIPT'', SieveRenameScript),
     (''CHECKSCRIPT'', SieveCheckScript),
     (''NOOP'', SieveNoop),
     (''UNAUTHENTICATE'', SieveUnauthenticate)]"

definition sieve_parse :: "string \<Rightarrow> bool \<Rightarrow> sieve_command option" where
  "sieve_parse value uid = map_of sieve_command_table value"

definition sieve_parser :: "sieve_command command_parser" where
  "sieve_parser = \<lparr>parse_command = sieve_parse, tokenize_brackets = (\<lambda>_. False),
                   default_command = SieveNoop\<rparr>"

fun sieve_name :: "sieve_command \<Rightarrow> string" where
  "sieve_name SieveAuthenticate = ''AUTHENTICATE''"
| "sieve_name SieveStartTls = ''STARTTLS''"
| "sieve_name SieveLogout = ''LOGOUT''"
| "sieve_name SieveCapability = ''CAPABILITY''"
| "sieve_name SieveHaveSpace = ''HAVESPACE''"
| "sieve_name SievePutScript = ''PUTSCRIPT''"
| "sieve_name SieveListScripts = ''LISTSCRIPTS''"
| "sieve_name SieveSetActive = ''SETACTIVE''"
| "sieve_name SieveGetScript = ''GETSCRIPT''"
| "sieve_name SieveDeleteScript = ''DELETESCRIPT''"
| "sieve_name SieveRenameScript = ''RENAMESCRIPT''"
| "sieve_name SieveCheckScript = ''CHECKSCRIPT''"
| "sieve_name SieveNoop = ''NOOP''"
| "sieve_name SieveUnauthenticate = ''UNAUTHENTICATE''"

interpretation sieve: command_syntax sieve_parser sieve_name "\<lambda>_. False"
proof
  fix c ch
  show "parse_command sieve_parser (sieve_name c) False = Some c"
    by (cases c) (simp_all add: sieve_parser_def sieve_parse_def sieve_command_table_def)
  have "list_all is_ascii_alphanumeric (sieve_name c) \<and> 0 < length (sieve_name c)
    \<and> length (sieve_name c) \<le> 15 \<and> \<not> eq_ignore_ascii_case (sieve_name c) ''UID''"
    by (cases c) (simp_all add: ascii_defs byte_def eq_ignore_ascii_case_def)
  then show "ch \<in> set (sieve_name c) \<Longrightarrow> is_ascii_alphanumeric ch"
    and "0 < length (sieve_name c) \<and> length (sieve_name c) \<le> 15"
    and "\<not> eq_ignore_ascii_case (sieve_name c) ''UID''"
    by (auto simp: list_all_iff)
qed

section \<open>Lemmas on the receiver's runs\<close>

lemma parse_continue: "step cp r ch = (Continue, r') \<Longrightarrow> parse cp r (ch # bs) = parse cp r' bs"
  by simp

lemma parse_literal_data:
  "receiver_inv r \<Longrightarrow> state r = LiteralData (length s) \<Longrightarrow>
    parse cp r (s @ bs) =
    parse cp (r\<lparr>buf := [], request := (request r)\<lparr>tokens := tokens (request r) @ [Argument (buf r @ s)]\<rparr>,
       current_request_size := current_request_size r + length (buf r @ s), state := ArgumentState ch_space\<rparr>) bs"
proof (induction s arbitrary: r)
  case Nil
  then show ?case by (simp add: receiver_inv_def buf_inv_def)
next
  case (Cons c s)
  have inv: "current_request_size r + length (buf r) + Suc (length s) \<le> max_request_size r"
    using Cons.prems by (simp add: receiver_inv_def buf_inv_def)
  show ?case
  proof (cases "s = []")
    case True
    with Cons.prems inv have "step cp r c = (Continue,
       r\<lparr>buf := [], request := (request r)\<lparr>tokens := tokens (request r) @ [Argument (buf r @ [c])]\<rparr>,
         current_request_size := current_request_size r + length (buf r @ [c]), state := ArgumentState ch_space\<rparr>)"
      by (cases r) (simp add: step_def step_literal_data_def and_then_def push_argument_def)
    from parse_continue [OF this, of bs] True show ?thesis by simp
  next
    case False
    let ?r = "r\<lparr>buf := buf r @ [c], state := LiteralData (length s)\<rparr>"
    from False Cons.prems have 1: "step cp r c = (Continue, ?r)"
      by (simp add: step_def step_literal_data_def)
    have "receiver_inv ?r" using step_inv [OF Cons.prems(1), of cp c] 1 by (simp add: outcome_inv_def)
    from Cons.IH [OF this] False show ?thesis
      using parse_continue [OF 1, of "s @ bs"] by simp
  qed
qed

lemma receiver_inv_fresh_start: "receiver_inv (with_max_request_size cp n)"
  by (simp add: with_max_request_size_def default_receiver_def receiver_inv_def size_inv_def wf_start_def
      buf_inv_def)

lemma buf_length_bound: "receiver_inv r \<Longrightarrow> length (buf r) \<le> max ARG_MAX_LEN (max_request_size r)"
  by (auto simp: receiver_inv_def buf_inv_def ARG_MAX_LEN_def split: receiver_state.splits)

lemma empty_quotes_run:
  "between r \<Longrightarrow> parse cp r (concat (replicate n [ch_quote, ch_quote, ch_space])) =
    (Inl NeedsMoreData, if n = 0 then r else advance (replicate n Nil_token) 0 r, [])"
proof (induction n arbitrary: r)
  case 0
  then show ?case by simp
next
  case (Suc n)
  let ?q = "r\<lparr>state := ArgumentQuoted False\<rparr>" and ?a = "advance [Nil_token] 0 r"
  have 1: "step cp r ch_quote = (Continue, ?q)"
    using Suc.prems by (auto simp: between_def step_def step_argument_def and_then_def push_argument_def)
  have 2: "step cp ?q ch_quote = (Continue, ?a)"
    using Suc.prems
    by (cases r) (auto simp: between_def step_def step_quoted_def and_then_def push_argument_def advance_def)
  have "step cp ?a ch_space = (Continue, advance [] 0 ?a)"
    using Suc.prems by (intro space_step) simp
  then have 3: "step cp ?a ch_space = (Continue, ?a)" by simp
  have "parse cp r (concat (replicate (Suc n) [ch_quote, ch_quote, ch_space]))
      = parse cp ?a (concat (replicate n [ch_quote, ch_quote, ch_space]))"
    by (simp only: replicate_Suc concat.simps append.simps
        parse_continue [OF 1] parse_continue [OF 2] parse_continue [OF 3])
  also have "\<dots> = (Inl NeedsMoreData, if n = 0 then ?a else advance (replicate n Nil_token) 0 ?a, [])"
    using Suc.prems by (intro Suc.IH) simp
  finally show ?case by (cases n) simp_all
qed

section \<open>Properties\<close>

text \<open>
  C31. Round trip of an IMAP request: a line made of a valid tag, a command in any letter
  case (with its UID prefix), and arguments written by \<open>quoted_string\<close> or
  \<open>literal_string\<close>, is read back as exactly that tag, command and argument list; the
  continuation requests sent are the literal sizes in order, the receiver is as new and
  the bytes after the line are untouched.
\<close>

theorem imap_request_roundtrip:
  assumes "valid_tag t" and "spelling imap_name is_uid c u w" and "\<forall>a \<in> set as. argument_ok a"
    and "arguments_cost as \<le> n"
  shows "dialogue imap_parser (with_max_request_size imap_parser n)
           (t @ ch_space # command_words u w @ ch_space # encode_arguments as @ ch_cr # ch_lf # bs)
       = ((Inr \<lparr>tag = t, command = c, tokens = map argument_token as\<rparr>, with_max_request_size imap_parser n, bs),
          arguments_prompts as)"
proof -
  let ?r = "with_max_request_size imap_parser n"
  have fr: "fresh imap_parser ?r = ?r"
    by (simp add: fresh_def with_max_request_size_def default_receiver_def)
  have "start_state ?r = Start" "arguments_cost as \<le> max_request_size ?r"
    using assms(4) by (simp_all add: with_max_request_size_def default_receiver_def)
  with imap.dialogue_request [of ?r t "t @ [ch_space]" c u w as bs] assms fr show ?thesis
    by simp
qed

theorem imap_request_roundtrip_witness:
  "dialogue imap_parser (with_max_request_size imap_parser 64)
     (''a1'' @ ch_space # command_words ''uid'' ''Fetch'' @ ch_space #
      encode_arguments [Quoted [CHR ''x'', ch_quote], Literal_form [ch_lf], Quoted []] @ ch_cr # ch_lf # ''a2'')
   = ((Inr \<lparr>tag = ''a1'', command = CmdFetch True,
            tokens = [Argument [CHR ''x'', ch_quote], Argument [ch_lf], Nil_token]\<rparr>,
       with_max_request_size imap_parser 64, ''a2''), [1])"
proof -
  have "spelling imap_name is_uid (CmdFetch True) ''uid'' ''Fetch''"
    by code_simp
  moreover have "valid_tag ''a1''"
    by (simp add: valid_tag_def tag_char_def is_ascii_whitespace_def utf8_valid.simps byte_def)
  ultimately show ?thesis
    using imap_request_roundtrip [of "''a1''" "CmdFetch True" "''uid''" "''Fetch''"
        "[Quoted [CHR ''x'', ch_quote], Literal_form [ch_lf], Quoted []]" 64 "''a2''"]
    by (simp add: arguments_cost_def arguments_prompts_def ARG_MAX_LEN_def u32_max_def)
qed

text \<open>
  The same for ManageSieve, whose requests have no tag and whose receiver starts in the
  command state.
\<close>

theorem sieve_request_roundtrip:
  assumes "map to_ascii_uppercase w = sieve_name c" and "\<forall>ch \<in> set w. is_ascii_alphanumeric ch"
    and "\<forall>a \<in> set as. argument_ok a" and "arguments_cost as \<le> n"
  shows "dialogue sieve_parser (with_start_state (Command False) (with_max_request_size sieve_parser n))
           (w @ ch_space # encode_arguments as @ ch_cr # ch_lf # bs)
       = ((Inr \<lparr>tag = [], command = c, tokens = map argument_token as\<rparr>,
           with_start_state (Command False) (with_max_request_size sieve_parser n), bs),
          arguments_prompts as)"
proof -
  let ?r = "with_start_state (Command False) (with_max_request_size sieve_parser n)"
  have fr: "fresh sieve_parser ?r = ?r"
    by (simp add: fresh_def with_start_state_def with_max_request_size_def default_receiver_def)
  have "start_state ?r = Command False" "arguments_cost as \<le> max_request_size ?r"
    using assms(4) by (simp_all add: with_start_state_def with_max_request_size_def default_receiver_def)
  moreover have "spelling sieve_name (\<lambda>_. False) c [] w"
    using assms by (simp add: spelling_def)
  ultimately show ?thesis
    using sieve.dialogue_request [of ?r "[]" "[]" c "[]" w as bs] assms fr
    by (simp add: command_words_def)
qed

theorem sieve_request_roundtrip_witness:
  "dialogue sieve_parser (with_start_state (Command False) (with_max_request_size sieve_parser 10))
     (''PutScript'' @ ch_space # encode_arguments [Quoted ''a'', Literal_form ''keep''] @ ch_cr # ch_lf # [])
   = ((Inr \<lparr>tag = [], command = SievePutScript, tokens = [Argument ''a'', Argument ''keep'']\<rparr>,
       with_start_state (Command False) (with_max_request_size sieve_parser 10), []), [4])"
proof -
  let ?as = "[Quoted ''a'', Literal_form ''keep'']"
  have 1: "map to_ascii_uppercase ''PutScript'' = sieve_name SievePutScript" by code_simp
  have 2: "\<forall>ch \<in> set ''PutScript''. is_ascii_alphanumeric ch" by code_simp
  have 3: "\<forall>a \<in> set ?as. argument_ok a" by (simp add: ARG_MAX_LEN_def u32_max_def)
  have 4: "arguments_cost ?as \<le> 10" by (simp add: arguments_cost_def)
  have 5: "arguments_prompts ?as = [4]" by (simp add: arguments_prompts_def)
  from sieve_request_roundtrip [OF 1 2 3 4, of "[]"] show ?thesis
    unfolding 5 by simp
qed

text \<open>
  C22. No state leaks from one request to the next: after a complete request and after every
  error response the receiver is exactly the receiver it was before the first byte (empty
  buffer, default request, start state, size counter 0).
\<close>

theorem receiver_fresh_after_request_or_error:
  assumes "parse cp r bs = (res, r', rest)" and "terminal res"
  shows "r' = fresh cp r"
  using parse_fresh [OF assms(1)] assms(2) by simp

theorem receiver_fresh_after_request_or_error_witness:
  "\<exists>r'. parse imap_parser (default_receiver imap_parser) ''a b%''
          = (Inl (ErrorResponse (Some ''a'') (InvalidCommandChar CHR ''%'')), r', [])
        \<and> r' = fresh imap_parser (default_receiver imap_parser)"
proof -
  let ?r = "default_receiver imap_parser"
  obtain res r' rest where p: "parse imap_parser ?r ''a b%'' = (res, r', rest)"
    by (cases "parse imap_parser ?r ''a b%''") auto
  have "parse imap_parser ?r ''a b%''
      = (Inl (ErrorResponse (Some ''a'') (InvalidCommandChar CHR ''%'')), fresh imap_parser ?r, [])"
    by (simp add: default_receiver_def step_def step_start_def step_tag_def step_command_def push_buf_def
        push_checked_def ascii_defs byte_def utf8_valid.simps fail_eq default_request_def fresh_def)
  with p have "terminal res" and res: "res = Inl (ErrorResponse (Some ''a'') (InvalidCommandChar CHR ''%''))"
      and rest: "rest = []"
    by (simp_all add: terminal_def)
  from receiver_fresh_after_request_or_error [OF p this(1)] res rest p show ?thesis by auto
qed

text \<open>
  The receiver does not depend on how the network cuts the stream: feeding two pieces
  one after the other is the same as feeding them at once.
\<close>

theorem receiver_chunking:
  "parse cp r (xs @ ys) =
    (case parse cp r xs of
       (Inl NeedsMoreData, r', _) \<Rightarrow> parse cp r' ys
     | (res, r', rest) \<Rightarrow> (res, r', rest @ ys))"
  by (rule parse_append)

text \<open>
  Bounds: whatever is fed, the bytes of the arguments and the special tokens held or
  returned never exceed \<open>max_request_size\<close>, and the buffer never exceeds that limit or
  4096 bytes, whichever is larger.
\<close>

theorem receiver_bounds:
  assumes "receiver_inv r" and "parse cp r bs = (res, r', rest)"
  shows "receiver_inv r' \<and> length (buf r') \<le> max 4096 (max_request_size r)
       \<and> tokens_weight (request r') \<le> max_request_size r
       \<and> (\<forall>q. res = Inr q \<longrightarrow> tokens_weight q \<le> max_request_size r)"
proof -
  from parse_fresh [OF assms(2)] have mx: "max_request_size r' = max_request_size r"
    by (metis fresh_simps(6))
  from parse_inv [OF assms(2,1)] mx show ?thesis
    using buf_length_bound [of r'] by (auto simp: receiver_inv_def size_inv_def ARG_MAX_LEN_def)
qed

theorem receiver_bounds_witness:
  "let r = with_max_request_size imap_parser 9 in
   receiver_inv (fst (snd (parse imap_parser r ''a b'')))
   \<and> tokens_weight (request (fst (snd (parse imap_parser r ''a b'')))) \<le> 9"
  using receiver_bounds [OF receiver_inv_fresh_start [of imap_parser 9], of imap_parser "''a b''"
      "fst (parse imap_parser (with_max_request_size imap_parser 9) ''a b'')"
      "fst (snd (parse imap_parser (with_max_request_size imap_parser 9) ''a b''))"
      "snd (snd (parse imap_parser (with_max_request_size imap_parser 9) ''a b''))"]
  by (simp add: Let_def with_max_request_size_def default_receiver_def)

text \<open>
  Once a literal has been accepted its data is never refused or interpreted: the next
  \<open>n\<close> bytes, whatever they are, become the argument (the size check made when the literal
  was announced is enough, as the comment in the source claims).
\<close>

theorem literal_data_taken_verbatim:
  assumes "receiver_inv r" and "state r = LiteralData (length s)" and "buf r = []"
  shows "parse cp r (s @ bs) =
    parse cp (r\<lparr>buf := [], request := (request r)\<lparr>tokens := tokens (request r) @ [Argument s]\<rparr>,
       current_request_size := current_request_size r + length s, state := ArgumentState ch_space\<rparr>) bs"
  using parse_literal_data [OF assms(1,2), of cp bs] assms(3) by simp

theorem literal_data_taken_verbatim_witness:
  "let r = (with_max_request_size imap_parser 3)\<lparr>state := LiteralData 2\<rparr> in
   parse imap_parser r ([ch_lf, ch_quote] @ []) =
   parse imap_parser (r\<lparr>buf := [], request := (request r)\<lparr>tokens := tokens (request r) @ [Argument [ch_lf, ch_quote]]\<rparr>,
       current_request_size := current_request_size r + length [ch_lf, ch_quote], state := ArgumentState ch_space\<rparr>) []"
  unfolding Let_def
  by (rule literal_data_taken_verbatim)
     (simp_all add: receiver_inv_def size_inv_def buf_inv_def wf_start_def with_max_request_size_def default_receiver_def)

text \<open>
  The limit does not count empty quoted strings: each of them adds a \<open>NIL\<close> token to the
  request and nothing to the counter, so the unfinished request can hold any number of
  tokens whatever \<open>max_request_size\<close> is.
\<close>

theorem empty_quoted_strings_not_counted:
  assumes "between r"
  shows "\<exists>r'. parse cp r (concat (replicate n [ch_quote, ch_quote, ch_space])) = (Inl NeedsMoreData, r', [])
     \<and> length (tokens (request r')) = length (tokens (request r)) + n
     \<and> current_request_size r' = current_request_size r"
  using empty_quotes_run [OF assms, of cp n] by (auto simp: advance_def)

theorem empty_quoted_strings_not_counted_witness:
  "let r = (with_max_request_size imap_parser 0)\<lparr>state := ArgumentState ch_space\<rparr> in
   \<exists>r'. parse imap_parser r (concat (replicate 1000 [ch_quote, ch_quote, ch_space])) = (Inl NeedsMoreData, r', [])
     \<and> length (tokens (request r')) = length (tokens (request r)) + 1000
     \<and> current_request_size r' = current_request_size r"
  unfolding Let_def
  by (rule empty_quoted_strings_not_counted)
     (auto simp: between_def with_max_request_size_def default_receiver_def intro!: exI [of _ ch_space])

end
