(* ===== verification/Queue_Message.thy ===== *)
theory Queue_Message
  imports Prelude "HOL-Library.AList"
begin

text \<open>
  The queued message of the SMTP server (\<open>crates/smtp/src/queue/mod.rs\<close>), the queue names and
  delivery schedules of its configuration (\<open>crates/common/src/config/smtp/queue.rs\<close>), and the
  functions of \<open>crates/smtp/src/queue/manager.rs\<close> that say when a message is next due.

  Times, flags and counters are the machine words of the source; the release profile of the
  workspace has \<open>overflow-checks = false\<close>, so \<open>+\<close> wraps, as it does on words. The clock is
  read by the caller and passed as \<open>now\<close>.
\<close>

section \<open>Queue names\<close>

text \<open>A queue name is its eight bytes, padded with zeros.\<close>

type_synonym queue_name = string

definition DEFAULT_QUEUE_NAME :: queue_name where
  "DEFAULT_QUEUE_NAME = ''default'' @ [CHR 0x00]"

definition queue_name_new :: "string \<Rightarrow> queue_name option" where
  "queue_name_new name =
    (if 1 \<le> length name \<and> length name \<le> 8
     then Some (name @ replicate (8 - length name) (CHR 0x00)) else None)"

definition queue_name_from_bytes :: "string \<Rightarrow> queue_name option" where
  "queue_name_from_bytes name = (if length name = 8 then Some name else None)"

definition queue_name_as_str :: "queue_name \<Rightarrow> string" where
  "queue_name_as_str name =
    rev (dropWhile (\<lambda>c. c = CHR 0x00) (rev (if utf8_valid name then name else [])))"

section \<open>Messages and recipients\<close>

record 'a schedule =
  due :: u64
  inner :: 'a

datatype queue_expiry = Ttl u64 | Attempts u32

record queue_strategy =
  strategy_retry :: "u64 list"
  strategy_notify :: "u64 list"
  strategy_expiry :: queue_expiry
  virtual_queue :: queue_name

text \<open>The reply of a remote server, with its code, enhanced code and text.\<close>

record response =
  code :: nat
  esc :: "nat \<times> nat \<times> nat"
  response_text :: string

record host_response =
  hostname :: string
  host_reply :: response

record unexpected_response =
  failed_command :: string
  failed_reply :: response

datatype queue_error =
    DnsError string
  | UnexpectedResponse unexpected_response
  | ConnectionError string
  | TlsError string
  | DaneError string
  | MtaStsError string
  | RateLimited
  | ConcurrencyLimited
  | Io string

record error_details =
  entity :: string
  details :: queue_error

datatype ('t, 'e) status =
    Scheduled
  | Completed 't
  | TemporaryFailure 'e
  | PermanentFailure 'e

type_synonym rcpt_status = "(host_response, error_details) status"

record recipient =
  address :: string
  retry :: "u32 schedule"
  notify :: "u32 schedule"
  expires :: queue_expiry
  queue :: queue_name
  status :: rcpt_status
  flags :: u64
  orcpt :: "string option"

datatype quota_key = SizeKey string u64 | CountKey string u64

datatype ip_addr = V4 u32 | V6 "128 word"

record message =
  created :: u64
  blob_hash :: string
  return_path :: string
  recipients :: "recipient list"
  message_flags :: u64
  env_id :: "string option"
  priority :: int
  message_size :: u64
  quota_keys :: "quota_key list"
  received_from_ip :: ip_addr
  received_via_port :: "16 word"

record message_wrapper =
  queue_id :: u64
  queue_name :: queue_name
  is_multi_queue :: bool
  span_id :: u64
  message :: message

definition FROM_AUTHENTICATED :: u64 where "FROM_AUTHENTICATED = push_bit 32 1"
definition FROM_UNAUTHENTICATED :: u64 where "FROM_UNAUTHENTICATED = push_bit 33 1"
definition FROM_UNAUTHENTICATED_DMARC :: u64 where "FROM_UNAUTHENTICATED_DMARC = push_bit 34 1"
definition FROM_DSN :: u64 where "FROM_DSN = push_bit 35 1"
definition FROM_REPORT :: u64 where "FROM_REPORT = push_bit 36 1"
definition FROM_AUTOGENERATED :: u64 where "FROM_AUTOGENERATED = push_bit 37 1"
definition RCPT_DSN_SENT :: u64 where "RCPT_DSN_SENT = push_bit 32 1"
definition RCPT_SPAM_PAYLOAD :: u64 where "RCPT_SPAM_PAYLOAD = push_bit 34 1"

definition u64_MAX :: u64 where "u64_MAX = - 1"

text \<open>\<open>rsplit_once('@')\<close>: the text before and after the last at sign.\<close>

definition rsplit_once :: "char \<Rightarrow> string \<Rightarrow> (string \<times> string) option" where
  "rsplit_once c s =
    (if c \<in> set s
     then Some (rev (tl (dropWhile (\<lambda>x. x \<noteq> c) (rev s))), rev (takeWhile (\<lambda>x. x \<noteq> c) (rev s)))
     else None)"

definition domain_part :: "string \<Rightarrow> string" where
  "domain_part s = (case rsplit_once (CHR ''@'') s of Some (_, d) \<Rightarrow> d | None \<Rightarrow> [])"

definition schedule_now :: "u64 \<Rightarrow> u32 schedule" where
  "schedule_now now = \<lparr>due = now, inner = 0\<rparr>"

definition schedule_later :: "u64 \<Rightarrow> u64 \<Rightarrow> u32 schedule" where
  "schedule_later now duration = \<lparr>due = now + duration, inner = 0\<rparr>"

definition has_flag :: "recipient \<Rightarrow> u64 \<Rightarrow> bool" where
  "has_flag r flag \<longleftrightarrow> flags r AND flag \<noteq> 0"

text \<open>
  \<open>Recipient::new\<close>. Lower-casing the domain follows the Unicode tables, which are a
  parameter \<open>lower_domain\<close>.
\<close>

definition recipient_new :: "(string \<Rightarrow> string) \<Rightarrow> u64 \<Rightarrow> string \<Rightarrow> recipient" where
  "recipient_new lower_domain now addr =
    \<lparr>address = lower_domain addr, retry = schedule_now now, notify = schedule_now now,
     expires = Attempts 0, queue = DEFAULT_QUEUE_NAME, status = Scheduled, flags = 0, orcpt = None\<rparr>"

fun into_permanent :: "('t, 'e) status \<Rightarrow> ('t, 'e) status" where
  "into_permanent (TemporaryFailure v) = PermanentFailure v"
| "into_permanent v = v"

fun into_temporary :: "('t, 'e) status \<Rightarrow> ('t, 'e) status" where
  "into_temporary (PermanentFailure err) = TemporaryFailure err"
| "into_temporary other = other"

text \<open>\<open>matches!(status, Scheduled | TemporaryFailure(_))\<close>\<close>

fun pending_status :: "('t, 'e) status \<Rightarrow> bool" where
  "pending_status Scheduled = True"
| "pending_status (TemporaryFailure _) = True"
| "pending_status _ = False"

abbreviation pending :: "recipient \<Rightarrow> bool" where "pending r \<equiv> pending_status (status r)"

section \<open>When a message is due\<close>

definition expiration_time :: "u64 \<Rightarrow> recipient \<Rightarrow> u64 option" where
  "expiration_time created_at r =
    (case expires r of Ttl time \<Rightarrow> Some (created_at + time) | Attempts _ \<Rightarrow> None)"

definition is_expired :: "u64 \<Rightarrow> u64 \<Rightarrow> recipient \<Rightarrow> bool" where
  "is_expired created_at now r =
    (case expires r of Ttl time \<Rightarrow> created_at + time \<le> now | Attempts count \<Rightarrow> inner (retry r) \<ge> count)"

text \<open>\<open>queue.is_none_or(|q| rcpt.queue == q)\<close>\<close>

definition in_queue :: "queue_name option \<Rightarrow> recipient \<Rightarrow> bool" where
  "in_queue q r = (case q of None \<Rightarrow> True | Some n \<Rightarrow> queue r = n)"

definition earlier_event :: "u64 \<Rightarrow> recipient \<Rightarrow> u64" where
  "earlier_event created_at r =
    (let e = min (due (retry r)) (due (notify r)) in
     case expiration_time created_at r of None \<Rightarrow> e | Some x \<Rightarrow> min e x)"

definition keep_min :: "u64 option \<Rightarrow> u64 \<Rightarrow> u64 option" where
  "keep_min acc t = (case acc of Some t0 \<Rightarrow> (if t < t0 then Some t else Some t0) | None \<Rightarrow> Some t)"

definition keep_max :: "u64 option \<Rightarrow> u64 \<Rightarrow> u64 option" where
  "keep_max acc t = (case acc of Some t0 \<Rightarrow> (if t > t0 then Some t else Some t0) | None \<Rightarrow> Some t)"

definition next_event :: "message \<Rightarrow> queue_name option \<Rightarrow> u64 option" where
  "next_event m q =
    foldl (\<lambda>acc r. if pending r \<and> in_queue q r then keep_min acc (earlier_event (created m) r) else acc)
      None (recipients m)"

definition next_delivery_event :: "message \<Rightarrow> queue_name option \<Rightarrow> u64 option" where
  "next_delivery_event m q =
    foldl (\<lambda>acc r. if pending r \<and> in_queue q r then keep_min acc (due (retry r)) else acc)
      None (recipients m)"

definition next_dsn :: "message \<Rightarrow> queue_name option \<Rightarrow> u64 option" where
  "next_dsn m q =
    foldl (\<lambda>acc r. if pending r \<and> in_queue q r then keep_min acc (due (notify r)) else acc)
      None (recipients m)"

definition message_expires :: "message \<Rightarrow> queue_name option \<Rightarrow> u64 option" where
  "message_expires m q =
    foldl (\<lambda>acc r. if pending r \<and> in_queue q r
             then (case expiration_time (created m) r of Some t \<Rightarrow> keep_max acc t | None \<Rightarrow> acc) else acc)
      None (recipients m)"

text \<open>The hash map of \<open>next_events\<close> is an association list with distinct keys.\<close>

definition add_event :: "u64 \<Rightarrow> (queue_name \<times> u64) list \<Rightarrow> recipient \<Rightarrow> (queue_name \<times> u64) list" where
  "add_event created_at evs r =
    (if pending r then
       (let t = earlier_event created_at r in
        case map_of evs (queue r) of
          Some t0 \<Rightarrow> if t < t0 then AList.update (queue r) t evs else evs
        | None \<Rightarrow> AList.update (queue r) t evs)
     else evs)"

definition next_events :: "message \<Rightarrow> (queue_name \<times> u64) list" where
  "next_events m = foldl (add_event (created m)) [] (recipients m)"

section \<open>The loops compute minima\<close>

definition min_over :: "('a \<Rightarrow> u64) \<Rightarrow> 'a set \<Rightarrow> u64 option" where
  "min_over f A = (if A = {} then None else Some (Min (f ` A)))"

lemma keep_min_eq: "keep_min acc t = Some (case acc of None \<Rightarrow> t | Some t0 \<Rightarrow> min t0 t)"
  by (auto simp: keep_min_def min_def split: option.splits)

lemma keep_min_min_over:
  assumes "finite A"
  shows "keep_min (min_over f A) (f x) = min_over f (insert x A)"
  using assms by (auto simp: keep_min_eq min_over_def min.commute)

lemma foldl_keep_min:
  "finite A \<Longrightarrow>
   foldl (\<lambda>acc r. if P r then keep_min acc (f r) else acc) (min_over f A) xs
     = min_over f (A \<union> {x \<in> set xs. P x})"
proof (induction xs arbitrary: A)
  case (Cons x xs)
  show ?case
  proof (cases "P x")
    case True
    with Cons.IH [of "insert x A"] Cons.prems show ?thesis
      by (simp add: keep_min_min_over) (rule arg_cong [where f = "min_over f"], auto)
  next
    case False
    with Cons.IH [of A] Cons.prems show ?thesis
      by (simp) (rule arg_cong [where f = "min_over f"], auto)
  qed
qed simp

lemma min_over_empty [simp]: "min_over f {} = None"
  by (simp add: min_over_def)

lemma foldl_keep_min_None:
  "foldl (\<lambda>acc r. if P r then keep_min acc (f r) else acc) None xs = min_over f {x \<in> set xs. P x}"
  using foldl_keep_min [of "{}" P f xs] by simp

definition pending_in :: "message \<Rightarrow> queue_name option \<Rightarrow> recipient set" where
  "pending_in m q = {r \<in> set (recipients m). pending r \<and> in_queue q r}"

lemma finite_pending_in [simp]: "finite (pending_in m q)"
  by (simp add: pending_in_def)

lemma next_event_min: "next_event m q = min_over (earlier_event (created m)) (pending_in m q)"
  unfolding next_event_def pending_in_def
  by (rule foldl_keep_min_None [of "\<lambda>r. pending r \<and> in_queue q r"])

lemma next_delivery_event_min: "next_delivery_event m q = min_over (\<lambda>r. due (retry r)) (pending_in m q)"
  unfolding next_delivery_event_def pending_in_def
  by (rule foldl_keep_min_None [of "\<lambda>r. pending r \<and> in_queue q r"])

lemma next_dsn_min: "next_dsn m q = min_over (\<lambda>r. due (notify r)) (pending_in m q)"
  unfolding next_dsn_def pending_in_def
  by (rule foldl_keep_min_None [of "\<lambda>r. pending r \<and> in_queue q r"])

lemma min_over_Some:
  "finite A \<Longrightarrow> min_over f A = Some t \<longleftrightarrow> (\<exists>a \<in> A. f a = t) \<and> (\<forall>a \<in> A. t \<le> f a)"
  unfolding min_over_def by (auto intro: Min_eqI [symmetric] dest: Min_in simp: Min_eq_iff)

lemma min_over_None: "min_over f A = None \<longleftrightarrow> A = {}"
  by (simp add: min_over_def)

text \<open>The hash map of \<open>next_events\<close> holds \<open>next_event\<close> of every queue.\<close>

lemma add_event_map:
  "map_of (add_event c evs r) =
     (if pending r then (map_of evs)(queue r := keep_min (map_of evs (queue r)) (earlier_event c r))
      else map_of evs)"
  by (auto simp: add_event_def Let_def keep_min_def update_conv' fun_eq_iff split: option.splits)

lemma add_event_distinct: "distinct (map fst evs) \<Longrightarrow> distinct (map fst (add_event c evs r))"
  by (auto simp: add_event_def Let_def distinct_update split: option.splits)

lemma next_events_distinct: "distinct (map fst (next_events m))"
proof -
  have "distinct (map fst evs) \<Longrightarrow> distinct (map fst (foldl (add_event c) evs rs))" for c evs rs
    by (induction rs arbitrary: evs) (simp_all add: add_event_distinct)
  from this [of "[]"] show ?thesis by (simp add: next_events_def)
qed

lemma next_events_map: "map_of (next_events m) q = next_event m (Some q)"
proof -
  have "map_of (foldl (add_event c) evs rs) q
      = foldl (\<lambda>acc r. if pending r \<and> in_queue (Some q) r then keep_min acc (earlier_event c r) else acc)
          (map_of evs q) rs" for c evs rs
    by (induction rs arbitrary: evs) (auto simp: add_event_map in_queue_def)
  from this [of "created m" "[]"] show ?thesis
    by (simp add: next_events_def next_event_def)
qed

lemma set_next_events: "set (next_events m) = {(q, t). next_event m (Some q) = Some t}"
  by (auto simp: map_of_eq_Some_iff [OF next_events_distinct, symmetric] next_events_map)

section \<open>Properties\<close>

text \<open>
  The next event of a message: it has one for a queue (or for any queue) exactly if a recipient
  there is still pending, and then it is the earliest retry, notification or expiry time of these
  recipients; and \<open>next_events\<close>, which the spool writes to the queue index, holds exactly these
  times, one per queue.
\<close>

theorem next_event_is_earliest:
  "(next_event m q = None \<longleftrightarrow> \<not> (\<exists>r \<in> set (recipients m). pending r \<and> in_queue q r))
   \<and> (next_event m q = Some t \<longleftrightarrow>
        (\<exists>r \<in> set (recipients m). pending r \<and> in_queue q r \<and> earlier_event (created m) r = t)
        \<and> (\<forall>r \<in> set (recipients m). pending r \<and> in_queue q r \<longrightarrow> t \<le> earlier_event (created m) r))
   \<and> set (next_events m) = {(n, t). next_event m (Some n) = Some t}
   \<and> distinct (map fst (next_events m))"
  by (auto simp: next_event_min min_over_None min_over_Some next_events_distinct set_next_events pending_in_def)

theorem next_event_is_earliest_witness:
  "let r = recipient_new (\<lambda>s. s) 100 ''a@b.c'' in
   next_event \<lparr>created = 100, blob_hash = [], return_path = [], recipients =
     [r\<lparr>retry := schedule_later 100 60, notify := schedule_later 100 90, expires := Ttl 500\<rparr>, r\<lparr>status := Completed undefined\<rparr>],
     message_flags = 0, env_id = None, priority = 0, message_size = 1, quota_keys = [],
     received_from_ip = V4 0, received_via_port = 25\<rparr> None = Some 160"
  unfolding Let_def
  by (subst conjunct1 [OF conjunct2 [OF next_event_is_earliest]])
    (simp add: recipient_new_def schedule_now_def schedule_later_def in_queue_def earlier_event_def expiration_time_def)

end
