(* ===== verification/Queue_Dsn.thy ===== *)
theory Queue_Dsn
  imports Queue_Message
begin

text \<open>
  Delivery status notifications (\<open>crates/smtp/src/queue/dsn.rs\<close>): which recipients of a queued
  message are reported, the texts of the report, the flag that keeps a final status from being
  reported twice, the time of the next delay notification, and double bounces.

  What the code takes from elsewhere is the record \<open>dsn_env\<close>: the NOTIFY bits of the
  \<open>smtp_proto\<close> package, the date formatter of \<open>mail_parser\<close>, the mail builder of
  \<open>mail_builder\<close>, and the values that the configured expressions evaluate to.
\<close>

section \<open>Environment\<close>

record dsn_env =
  RCPT_NOTIFY_SUCCESS :: u64
  RCPT_NOTIFY_FAILURE :: u64
  RCPT_NOTIFY_DELAY :: u64
  RCPT_NOTIFY_NEVER :: u64
  to_rfc822 :: "int \<Rightarrow> string"
  queue_expr :: "message \<Rightarrow> recipient \<Rightarrow> string option"
  queue_strategies :: "string \<Rightarrow> queue_strategy option"
  dsn_name :: "message \<Rightarrow> string option"
  dsn_address :: "message \<Rightarrow> string option"
  report_submitter :: "message \<Rightarrow> string option"

text \<open>\<open>get_queue_or_default\<close> of \<open>crates/common/src/core.rs\<close>.\<close>

definition DEFAULT_SCHEDULE :: queue_strategy where
  "DEFAULT_SCHEDULE =
    \<lparr>strategy_retry = [120, 300, 600, 900, 1800, 3600, 7200], strategy_notify = [86400, 259200],
     strategy_expiry = Ttl 432000, virtual_queue = DEFAULT_QUEUE_NAME\<rparr>"

definition get_queue_or_default :: "dsn_env \<Rightarrow> string \<Rightarrow> queue_strategy" where
  "get_queue_or_default env name =
    (case queue_strategies env name of Some q \<Rightarrow> q | None \<Rightarrow> DEFAULT_SCHEDULE)"

text \<open>The queue expression, evaluated in the envelope of a recipient.\<close>

definition resolve_queue :: "dsn_env \<Rightarrow> message \<Rightarrow> recipient \<Rightarrow> queue_strategy" where
  "resolve_queue env m r =
    get_queue_or_default env (case queue_expr env m r of Some name \<Rightarrow> name | None \<Rightarrow> ''default'')"

section \<open>Texts\<close>

abbreviation crlf :: string where "crlf \<equiv> [ch_cr, ch_lf]"
abbreviation apostrophe :: char where "apostrophe \<equiv> CHR 0x27"

fun show_triple :: "nat \<times> nat \<times> nat \<Rightarrow> string" where
  "show_triple (a, b, c) = show_nat a @ ''.'' @ show_nat b @ ''.'' @ show_nat c"

definition write_response :: "response \<Rightarrow> string" where
  "write_response r = filter (\<lambda>ch. ch \<noteq> ch_lf \<and> ch \<noteq> ch_cr) (response_text r)"

definition response_dsn_status :: "response \<Rightarrow> string" where
  "response_dsn_status r =
    (if fst (esc r) > 0 then show_triple (esc r)
     else show_triple (code r div 100, (code r div 10) mod 10, code r mod 10))"

definition response_dsn_diagnostic :: "response \<Rightarrow> string" where
  "response_dsn_diagnostic r =
    ''Diagnostic-Code: smtp;'' @ show_nat (code r) @ '' '' @ write_response r @ crlf"

definition host_response_dsn_text :: "host_response \<Rightarrow> string \<Rightarrow> string" where
  "host_response_dsn_text h addr =
    ''<'' @ addr @ ''> (delivered to '' @ apostrophe # hostname h @ apostrophe #
    '' with code '' @ show_nat (code (host_reply h)) @ '' ('' @ show_triple (esc (host_reply h)) @ '') '' @
    apostrophe # write_response (host_reply h) @ apostrophe # '')'' @ crlf"

definition unexpected_dsn_text :: "unexpected_response \<Rightarrow> string \<Rightarrow> string \<Rightarrow> string" where
  "unexpected_dsn_text u host addr =
    ''<'' @ addr @ ''> (host '' @ apostrophe # host @ apostrophe # '' rejected '' @
    (if failed_command u \<noteq> [] then ''command '' @ apostrophe # failed_command u @ [apostrophe]
     else ''transaction'') @
    '' with code '' @ show_nat (code (failed_reply u)) @ '' ('' @ show_triple (esc (failed_reply u)) @ '') '' @
    apostrophe # write_response (failed_reply u) @ apostrophe # '')'' @ crlf"

definition error_dsn_text :: "error_details \<Rightarrow> string \<Rightarrow> string" where
  "error_dsn_text e addr =
    (let quoted = apostrophe # entity e @ [apostrophe] in
     case details e of
       UnexpectedResponse u \<Rightarrow> unexpected_dsn_text u (entity e) addr
     | DnsError err \<Rightarrow> ''<'' @ addr @ ''> (failed to lookup '' @ quoted @ '': '' @ err @ '')'' @ crlf
     | ConnectionError d \<Rightarrow> ''<'' @ addr @ ''> (connection to '' @ quoted @ '' failed: '' @ d @ '')'' @ crlf
     | TlsError d \<Rightarrow> ''<'' @ addr @ ''> (TLS error from '' @ quoted @ '': '' @ d @ '')'' @ crlf
     | DaneError d \<Rightarrow> ''<'' @ addr @ ''> (DANE failed to authenticate '' @ quoted @ '': '' @ d @ '')'' @ crlf
     | MtaStsError d \<Rightarrow> ''<'' @ addr @ ''> (MTA-STS failed to authenticate '' @ quoted @ '': '' @ d @ '')'' @ crlf
     | RateLimited \<Rightarrow> ''<'' @ addr @ ''> (rate limited)'' @ crlf
     | ConcurrencyLimited \<Rightarrow> ''<'' @ addr @ ''> (too many concurrent connections to remote server)'' @ crlf
     | Io err \<Rightarrow> ''<'' @ addr @ ''> (queue error: '' @ err @ '')'' @ crlf)"

definition dsn_headers :: "dsn_env \<Rightarrow> message \<Rightarrow> string \<Rightarrow> string" where
  "dsn_headers env m reporting_mta =
    ''Reporting-MTA: dns;'' @ reporting_mta @ crlf @
    ''Arrival-Date: '' @ to_rfc822 env (sint (created m)) @ crlf @
    (case env_id m of Some e \<Rightarrow> ''Original-Envelope-Id: '' @ e @ crlf | None \<Rightarrow> []) @ crlf"

definition recipient_write_dsn :: "recipient \<Rightarrow> string" where
  "recipient_write_dsn r =
    (case orcpt r of Some o' \<Rightarrow> ''Original-Recipient: rfc822;'' @ o' @ crlf | None \<Rightarrow> []) @
    ''Final-Recipient: rfc822;'' @ address r @ crlf"

definition will_retry_until :: "dsn_env \<Rightarrow> u64 \<Rightarrow> u64 \<Rightarrow> recipient \<Rightarrow> string" where
  "will_retry_until env now created_at r =
    (case expiration_time created_at r of
       Some x \<Rightarrow> if x > now then ''Will-Retry-Until: '' @ to_rfc822 env (sint x) @ crlf else []
     | None \<Rightarrow> [])"

fun dsn_action :: "rcpt_status \<Rightarrow> string" where
  "dsn_action s = ''Action: '' @
    (case s of Completed _ \<Rightarrow> ''delivered'' | PermanentFailure _ \<Rightarrow> ''failed'' | _ \<Rightarrow> ''delayed'') @ crlf"

fun is_permanent :: "('t, 'e) status \<Rightarrow> bool" where
  "is_permanent (PermanentFailure _) = True"
| "is_permanent _ = False"

definition dsn_error_status :: "bool \<Rightarrow> error_details \<Rightarrow> string" where
  "dsn_error_status permanent err =
    (case details err of
       UnexpectedResponse u \<Rightarrow> response_dsn_status (failed_reply u)
     | _ \<Rightarrow> if permanent then ''5.0.0'' else ''4.0.0'')"

definition status_dsn_status :: "rcpt_status \<Rightarrow> string" where
  "status_dsn_status s = ''Status: '' @
    (case s of
       Completed h \<Rightarrow> response_dsn_status (host_reply h)
     | TemporaryFailure err \<Rightarrow> dsn_error_status (is_permanent s) err
     | PermanentFailure err \<Rightarrow> dsn_error_status (is_permanent s) err
     | Scheduled \<Rightarrow> ''4.0.0'') @ crlf"

definition error_remote_mta :: "error_details \<Rightarrow> string" where
  "error_remote_mta err =
    (case details err of
       UnexpectedResponse _ \<Rightarrow> ''Remote-MTA: dns;'' @ entity err @ crlf
     | ConnectionError _ \<Rightarrow> ''Remote-MTA: dns;'' @ entity err @ crlf
     | TlsError _ \<Rightarrow> ''Remote-MTA: dns;'' @ entity err @ crlf
     | DaneError _ \<Rightarrow> ''Remote-MTA: dns;'' @ entity err @ crlf
     | _ \<Rightarrow> [])"

definition status_remote_mta :: "rcpt_status \<Rightarrow> string" where
  "status_remote_mta s =
    (case s of
       Completed h \<Rightarrow> ''Remote-MTA: dns;'' @ hostname h @ crlf
     | TemporaryFailure err \<Rightarrow> error_remote_mta err
     | PermanentFailure err \<Rightarrow> error_remote_mta err
     | Scheduled \<Rightarrow> [])"

definition error_diagnostic :: "error_details \<Rightarrow> string" where
  "error_diagnostic err =
    (case details err of UnexpectedResponse u \<Rightarrow> response_dsn_diagnostic (failed_reply u) | _ \<Rightarrow> [])"

definition status_diagnostic :: "rcpt_status \<Rightarrow> string" where
  "status_diagnostic s =
    (case s of PermanentFailure err \<Rightarrow> error_diagnostic err
     | TemporaryFailure err \<Rightarrow> error_diagnostic err | _ \<Rightarrow> [])"

definition status_write_dsn :: "rcpt_status \<Rightarrow> string" where
  "status_write_dsn s = dsn_action s @ status_dsn_status s @ status_diagnostic s @ status_remote_mta s"

section \<open>The loop over the recipients\<close>

record dsn_texts =
  txt_success :: string
  txt_delay :: string
  txt_failed :: string
  dsn_fields :: string

definition no_texts :: dsn_texts where
  "no_texts = \<lparr>txt_success = [], txt_delay = [], txt_failed = [], dsn_fields = []\<rparr>"

definition set_dsn_sent :: "recipient \<Rightarrow> recipient" where
  "set_dsn_sent r = r\<lparr>flags := flags r OR RCPT_DSN_SENT\<rparr>"

definition push_delay :: "dsn_env \<Rightarrow> u64 \<Rightarrow> u64 \<Rightarrow> recipient \<Rightarrow> error_details \<Rightarrow> dsn_texts \<Rightarrow> dsn_texts" where
  "push_delay env now created_at r err t =
    t\<lparr>dsn_fields := dsn_fields t @ recipient_write_dsn r @ status_write_dsn (status r)
                    @ will_retry_until env now created_at r @ crlf,
      txt_delay := txt_delay t @ error_dsn_text err (address r)\<rparr>"

definition dsn_step ::
  "dsn_env \<Rightarrow> u64 \<Rightarrow> u64 \<Rightarrow> recipient \<Rightarrow> dsn_texts \<Rightarrow> recipient \<times> dsn_texts" where
  "dsn_step env now created_at r t =
    (if has_flag r (RCPT_DSN_SENT OR RCPT_NOTIFY_NEVER env) then (r, t)
     else case status r of
       Completed h \<Rightarrow>
         (let r = set_dsn_sent r in
          if \<not> has_flag r (RCPT_NOTIFY_SUCCESS env) then (r, t)
          else (r, t\<lparr>dsn_fields := dsn_fields t @ recipient_write_dsn r @ status_write_dsn (status r) @ crlf,
                     txt_success := txt_success t @ host_response_dsn_text h (address r)\<rparr>))
     | TemporaryFailure err \<Rightarrow>
         if due (notify r) \<le> now \<and> has_flag r (RCPT_NOTIFY_DELAY env)
         then (r, push_delay env now created_at r err t) else (r, t)
     | PermanentFailure err \<Rightarrow>
         (let r = set_dsn_sent r in
          if \<not> has_flag r (RCPT_NOTIFY_FAILURE env) then (r, t)
          else (r, t\<lparr>dsn_fields := dsn_fields t @ recipient_write_dsn r @ status_write_dsn (status r) @ crlf,
                     txt_failed := txt_failed t @ error_dsn_text err (address r)\<rparr>))
     | Scheduled \<Rightarrow>
         if due (notify r) \<le> now \<and> has_flag r (RCPT_NOTIFY_DELAY env)
         then (r, push_delay env now created_at r
                    \<lparr>entity = ''localhost'', details = ConcurrencyLimited\<rparr> t)
         else (r, t))"

fun dsn_loop :: "dsn_env \<Rightarrow> u64 \<Rightarrow> u64 \<Rightarrow> recipient list \<Rightarrow> dsn_texts \<Rightarrow> recipient list \<times> dsn_texts" where
  "dsn_loop env now created_at [] t = ([], t)"
| "dsn_loop env now created_at (r # rs) t =
    (case dsn_step env now created_at r t of (r', t') \<Rightarrow>
     case dsn_loop env now created_at rs t' of (rs', t'') \<Rightarrow> (r' # rs', t''))"

definition dsn_subject :: "dsn_texts \<Rightarrow> string \<times> string \<times> bool" where
  "dsn_subject t =
    (let has_success = txt_success t \<noteq> []; has_delay = txt_delay t \<noteq> []; has_failure = txt_failed t \<noteq> [] in
     if has_success \<and> \<not> has_delay \<and> \<not> has_failure then
       (''Your message has been successfully delivered to the following recipients:'' @ crlf @ crlf,
        ''Successfully delivered message'', False)
     else if has_delay \<and> \<not> has_success \<and> \<not> has_failure then
       (''There was a temporary problem delivering your message to the following recipients:'' @ crlf @ crlf,
        ''Warning: Delay in message delivery'', False)
     else if has_failure \<and> \<not> has_success \<and> \<not> has_delay then
       (''Your message could not be delivered to the following recipients:'' @ crlf @ crlf,
        ''Failed to deliver message'', False)
     else if has_success then
       (''Your message has been partially delivered:'' @ crlf @ crlf, ''Partially delivered message'', True)
     else
       (''Your message could not be delivered to some recipients:'' @ crlf @ crlf,
        ''Warning: Temporary and permanent failures during message delivery'', True))"

definition dsn_section :: "bool \<Rightarrow> string \<Rightarrow> string \<Rightarrow> string" where
  "dsn_section is_mixed heading txt =
    (if txt \<noteq> [] then (if is_mixed then heading @ crlf else []) @ txt @ crlf else [])"

definition dsn_text :: "dsn_texts \<Rightarrow> string \<times> string" where
  "dsn_text t =
    (case dsn_subject t of (intro, subject, is_mixed) \<Rightarrow>
      (subject,
       intro @
       dsn_section is_mixed ''    ----- Delivery to the following addresses was successful -----'' (txt_success t) @
       dsn_section is_mixed ''    ----- There was a temporary problem delivering to these addresses -----'' (txt_delay t) @
       dsn_section is_mixed ''    ----- Delivery to the following addresses failed -----'' (txt_failed t)))"

section \<open>The next delay notification\<close>

definition delay_change :: "dsn_env \<Rightarrow> u64 \<Rightarrow> message \<Rightarrow> recipient \<Rightarrow> (u32 \<times> u64) option" where
  "delay_change env now m r =
    (if pending r \<and> due (notify r) \<le> now then
       (let q = resolve_queue env m r; i = unat (inner (notify r) + 1) in
        if i < length (strategy_notify q) then Some (1, now + strategy_notify q ! i)
        else Some (0, u64_MAX))
     else None)"

definition apply_delay_change :: "(u32 \<times> u64) option \<Rightarrow> recipient \<Rightarrow> recipient" where
  "apply_delay_change c r =
    (case c of None \<Rightarrow> r | Some (i, t) \<Rightarrow> r\<lparr>notify := \<lparr>due = t, inner = inner (notify r) + i\<rparr>\<rparr>)"

definition update_delays :: "dsn_env \<Rightarrow> u64 \<Rightarrow> message \<Rightarrow> message" where
  "update_delays env now m =
    m\<lparr>recipients := map (\<lambda>r. apply_delay_change (delay_change env now m r) r) (recipients m)\<rparr>"

section \<open>The headers of the original message\<close>

definition MAX_HEADER_SIZE :: nat where "MAX_HEADER_SIZE = 4096"

text \<open>The position after the line feed that ends the header, from the position \<open>pos\<close> on.\<close>

fun header_end :: "string \<Rightarrow> nat \<Rightarrow> char \<Rightarrow> nat \<Rightarrow> nat" where
  "header_end [] pos prev_ch last_lf = last_lf"
| "header_end (ch # cs) pos prev_ch last_lf =
    (if ch = ch_lf then
       (if prev_ch \<noteq> ch_lf then header_end cs (pos + 1) ch (pos + 1) else pos + 1)
     else if ch = ch_cr then header_end cs (pos + 1) prev_ch last_lf
     else if ch = CHR 0x00 then last_lf
     else header_end cs (pos + 1) ch last_lf)"

definition original_headers :: "string option \<Rightarrow> string" where
  "original_headers blob =
    (case blob of
       None \<Rightarrow> []
     | Some b \<Rightarrow>
        (let buf = take MAX_HEADER_SIZE b;
             last_lf = header_end buf 0 (CHR 0x00) (length buf);
             buf = (if last_lf < MAX_HEADER_SIZE then take last_lf buf else buf)
         in if utf8_valid buf then buf else []))"

section \<open>The report\<close>

record dsn_report =
  report_from :: "string \<times> string"
  report_to :: string
  report_mta :: string
  report_subject :: string
  report_text :: string
  report_dsn :: string
  report_headers :: string

text \<open>
  \<open>build_dsn\<close>: the parts handed to the mail builder, or \<open>None\<close>, and the message with its new
  flags and notification times. \<open>blob\<close> is what the blob store returns for the message.
\<close>

definition build_dsn ::
  "dsn_env \<Rightarrow> u64 \<Rightarrow> string option \<Rightarrow> message \<Rightarrow> dsn_report option \<times> message" where
  "build_dsn env now blob m =
    (case dsn_loop env now (created m) (recipients m) no_texts of (rs, t) \<Rightarrow>
     let m = m\<lparr>recipients := rs\<rparr> in
     if length (txt_success t) + length (txt_delay t) + length (txt_failed t) = 0 then (None, m)
     else
       let m = (if txt_delay t \<noteq> [] then update_delays env now m else m);
           reporting_mta = (case report_submitter env m of Some s \<Rightarrow> s | None \<Rightarrow> ''localhost'') in
       (Some \<lparr>report_from = (case dsn_name env m of Some s \<Rightarrow> s | None \<Rightarrow> ''Mail Delivery Subsystem'',
                             case dsn_address env m of Some s \<Rightarrow> s | None \<Rightarrow> ''MAILER-DAEMON@localhost''),
              report_to = return_path m, report_mta = reporting_mta,
              report_subject = fst (dsn_text t), report_text = snd (dsn_text t),
              report_dsn = dsn_headers env m reporting_mta @ dsn_fields t,
              report_headers = original_headers blob\<rparr>, m))"

section \<open>Double bounces\<close>

definition double_bounce_step :: "dsn_env \<Rightarrow> u64 \<Rightarrow> u64 \<Rightarrow> recipient \<Rightarrow> recipient \<times> string option" where
  "double_bounce_step env now created_at r =
    (let (r1, log) =
       (if \<not> has_flag r (RCPT_DSN_SENT OR RCPT_NOTIFY_NEVER env) then
          (case status r of
             PermanentFailure err \<Rightarrow> (set_dsn_sent r, Some (error_dsn_text err (address r)))
           | _ \<Rightarrow> (r, None))
        else (r, None))
     in (if due (notify r1) \<le> now
         then r1\<lparr>notify := (notify r1)\<lparr>due :=
                 (case expiration_time created_at r1 of Some d \<Rightarrow> d + 10 | None \<Rightarrow> u64_MAX)\<rparr>\<rparr>
         else r1, log))"

definition handle_double_bounce :: "dsn_env \<Rightarrow> u64 \<Rightarrow> message \<Rightarrow> message" where
  "handle_double_bounce env now m =
    m\<lparr>recipients := map (\<lambda>r. fst (double_bounce_step env now (created m) r)) (recipients m)\<rparr>"

section \<open>What is reported\<close>

text \<open>The NOTIFY bits of the protocol package lie below the server's own flags (bits 32 and up).\<close>

definition notify_bits_ok :: "dsn_env \<Rightarrow> bool" where
  "notify_bits_ok env \<longleftrightarrow>
    RCPT_DSN_SENT AND RCPT_NOTIFY_SUCCESS env = 0 \<and> RCPT_DSN_SENT AND RCPT_NOTIFY_FAILURE env = 0 \<and>
    RCPT_DSN_SENT AND RCPT_NOTIFY_DELAY env = 0 \<and> RCPT_DSN_SENT AND RCPT_NOTIFY_NEVER env = 0"

lemma has_flag_or: "has_flag r (a OR b) \<longleftrightarrow> has_flag r a \<or> has_flag r b"
  by (simp add: has_flag_def bit.conj_disj_distrib or_eq_0_iff)

lemma RCPT_DSN_SENT_nonzero [simp]: "RCPT_DSN_SENT \<noteq> 0"
  by (simp add: RCPT_DSN_SENT_def)

lemma set_dsn_sent_simps [simp]:
  "status (set_dsn_sent r) = status r" "address (set_dsn_sent r) = address r"
  "retry (set_dsn_sent r) = retry r" "notify (set_dsn_sent r) = notify r"
  "expires (set_dsn_sent r) = expires r" "queue (set_dsn_sent r) = queue r"
  "orcpt (set_dsn_sent r) = orcpt r"
  by (simp_all add: set_dsn_sent_def)

lemma set_dsn_sent_flag [simp]: "has_flag (set_dsn_sent r) RCPT_DSN_SENT"
  by (simp add: has_flag_def set_dsn_sent_def bit.conj_disj_distrib2)

lemma set_dsn_sent_other:
  "RCPT_DSN_SENT AND b = 0 \<Longrightarrow> has_flag (set_dsn_sent r) b = has_flag r b"
  by (simp add: has_flag_def set_dsn_sent_def bit.conj_disj_distrib2)

definition closed :: "dsn_env \<Rightarrow> recipient \<Rightarrow> bool" where
  "closed env r \<longleftrightarrow> has_flag r (RCPT_DSN_SENT OR RCPT_NOTIFY_NEVER env)"

definition dsn_mark :: "dsn_env \<Rightarrow> recipient \<Rightarrow> recipient" where
  "dsn_mark env r = (if closed env r \<or> pending r then r else set_dsn_sent r)"

definition success_text :: "dsn_env \<Rightarrow> recipient \<Rightarrow> string" where
  "success_text env r =
    (case status r of Completed h \<Rightarrow>
       if \<not> closed env r \<and> has_flag r (RCPT_NOTIFY_SUCCESS env) then host_response_dsn_text h (address r) else []
     | _ \<Rightarrow> [])"

definition failed_text :: "dsn_env \<Rightarrow> recipient \<Rightarrow> string" where
  "failed_text env r =
    (case status r of PermanentFailure err \<Rightarrow>
       if \<not> closed env r \<and> has_flag r (RCPT_NOTIFY_FAILURE env) then error_dsn_text err (address r) else []
     | _ \<Rightarrow> [])"

definition delay_text :: "dsn_env \<Rightarrow> u64 \<Rightarrow> recipient \<Rightarrow> string" where
  "delay_text env now r =
    (if \<not> closed env r \<and> due (notify r) \<le> now \<and> has_flag r (RCPT_NOTIFY_DELAY env) then
       (case status r of
          TemporaryFailure err \<Rightarrow> error_dsn_text err (address r)
        | Scheduled \<Rightarrow> error_dsn_text \<lparr>entity = ''localhost'', details = ConcurrencyLimited\<rparr> (address r)
        | _ \<Rightarrow> [])
     else [])"

lemma dsn_step_mark: "fst (dsn_step env now c r t) = dsn_mark env r"
  by (auto simp: dsn_step_def dsn_mark_def closed_def Let_def split: status.splits)

lemma dsn_step_texts:
  assumes "notify_bits_ok env"
  shows "txt_success (snd (dsn_step env now c r t)) = txt_success t @ success_text env r"
    and "txt_failed (snd (dsn_step env now c r t)) = txt_failed t @ failed_text env r"
    and "txt_delay (snd (dsn_step env now c r t)) = txt_delay t @ delay_text env now r"
  using assms unfolding notify_bits_ok_def
  by (auto simp: dsn_step_def success_text_def failed_text_def delay_text_def closed_def Let_def
      set_dsn_sent_other push_delay_def split: status.splits)

lemma dsn_loop_Cons:
  "fst (dsn_loop env now c (r # rs) t)
     = dsn_mark env r # fst (dsn_loop env now c rs (snd (dsn_step env now c r t)))"
  "snd (dsn_loop env now c (r # rs) t) = snd (dsn_loop env now c rs (snd (dsn_step env now c r t)))"
  using dsn_step_mark [of env now c r t] by (simp_all add: case_prod_beta)

lemma dsn_loop_mark: "fst (dsn_loop env now c rs t) = map (dsn_mark env) rs"
  by (induction rs arbitrary: t) (simp_all add: dsn_loop_Cons del: dsn_loop.simps(2))

lemma dsn_loop_texts:
  assumes "notify_bits_ok env"
  shows "txt_success (snd (dsn_loop env now c rs t)) = txt_success t @ concat (map (success_text env) rs)"
    and "txt_failed (snd (dsn_loop env now c rs t)) = txt_failed t @ concat (map (failed_text env) rs)"
    and "txt_delay (snd (dsn_loop env now c rs t)) = txt_delay t @ concat (map (delay_text env now) rs)"
  by (induction rs arbitrary: t)
    (simp_all add: dsn_loop_Cons dsn_step_texts [OF assms] del: dsn_loop.simps(2))

lemma dsn_loop_eq:
  assumes "notify_bits_ok env"
  obtains f where "dsn_loop env now c rs no_texts =
    (map (dsn_mark env) rs,
     \<lparr>txt_success = concat (map (success_text env) rs), txt_delay = concat (map (delay_text env now) rs),
      txt_failed = concat (map (failed_text env) rs), dsn_fields = f\<rparr>)"
proof -
  obtain rs' t where eq: "dsn_loop env now c rs no_texts = (rs', t)" by fastforce
  with dsn_loop_mark [of env now c rs no_texts] dsn_loop_texts [OF assms, of now c rs no_texts]
  show ?thesis by (intro that [of "dsn_fields t"]) (cases t, simp add: no_texts_def)
qed

definition all_texts_empty :: "dsn_env \<Rightarrow> u64 \<Rightarrow> recipient list \<Rightarrow> bool" where
  "all_texts_empty env now rs \<longleftrightarrow>
    (\<forall>r \<in> set rs. success_text env r = [] \<and> delay_text env now r = [] \<and> failed_text env r = [])"

lemma build_dsn_none:
  assumes "notify_bits_ok env"
  shows "fst (build_dsn env now blob m) = None \<longleftrightarrow> all_texts_empty env now (recipients m)"
proof -
  obtain f where "dsn_loop env now (created m) (recipients m) no_texts =
    (map (dsn_mark env) (recipients m),
     \<lparr>txt_success = concat (map (success_text env) (recipients m)),
      txt_delay = concat (map (delay_text env now) (recipients m)),
      txt_failed = concat (map (failed_text env) (recipients m)), dsn_fields = f\<rparr>)"
    by (rule dsn_loop_eq [OF assms])
  then show ?thesis by (auto simp: build_dsn_def Let_def all_texts_empty_def)
qed

text \<open>The new recipients: the marks, and new notification times if a delay was reported.\<close>

lemma build_dsn_message:
  assumes "notify_bits_ok env"
  shows "snd (build_dsn env now blob m) =
    (let m1 = m\<lparr>recipients := map (dsn_mark env) (recipients m)\<rparr> in
     if \<exists>r \<in> set (recipients m). delay_text env now r \<noteq> [] then update_delays env now m1 else m1)"
proof -
  obtain f where "dsn_loop env now (created m) (recipients m) no_texts =
    (map (dsn_mark env) (recipients m),
     \<lparr>txt_success = concat (map (success_text env) (recipients m)),
      txt_delay = concat (map (delay_text env now) (recipients m)),
      txt_failed = concat (map (failed_text env) (recipients m)), dsn_fields = f\<rparr>)"
    by (rule dsn_loop_eq [OF assms])
  then show ?thesis by (auto simp: build_dsn_def Let_def)
qed

lemma dsn_mark_simps [simp]:
  "status (dsn_mark env r) = status r" "notify (dsn_mark env r) = notify r"
  "retry (dsn_mark env r) = retry r" "expires (dsn_mark env r) = expires r"
  "queue (dsn_mark env r) = queue r" "address (dsn_mark env r) = address r"
  by (simp_all add: dsn_mark_def)

lemma dsn_mark_closed: "\<not> pending r \<Longrightarrow> closed env (dsn_mark env r)"
  by (auto simp: dsn_mark_def closed_def has_flag_or)

lemma dsn_mark_flag:
  "notify_bits_ok env \<Longrightarrow> has_flag (dsn_mark env r) (RCPT_NOTIFY_DELAY env) = has_flag r (RCPT_NOTIFY_DELAY env)"
  by (simp add: dsn_mark_def notify_bits_ok_def set_dsn_sent_other)

lemma apply_delay_change_simps [simp]:
  "status (apply_delay_change c r) = status r" "flags (apply_delay_change c r) = flags r"
  "retry (apply_delay_change c r) = retry r" "expires (apply_delay_change c r) = expires r"
  "queue (apply_delay_change c r) = queue r" "address (apply_delay_change c r) = address r"
  by (auto simp: apply_delay_change_def split: option.splits)

lemma closed_apply_delay [simp]: "closed env (apply_delay_change c r) = closed env r"
  by (simp add: closed_def has_flag_def)

lemma texts_of_closed: "closed env r \<Longrightarrow> success_text env r = [] \<and> failed_text env r = [] \<and> delay_text env now r = []"
  by (auto simp: success_text_def failed_text_def delay_text_def split: status.splits)

lemma texts_of_pending: "pending r \<Longrightarrow> success_text env r = [] \<and> failed_text env r = []"
  by (auto simp: success_text_def failed_text_def split: status.splits)

lemma delay_text_pending: "delay_text env now r \<noteq> [] \<Longrightarrow> pending r \<and> due (notify r) \<le> now"
  by (auto simp: delay_text_def split: if_splits status.splits)

lemma final_closed_after_dsn:
  assumes "notify_bits_ok env" and "r \<in> set (recipients (snd (build_dsn env now blob m)))" and "\<not> pending r"
  shows "closed env r"
  using assms by (auto simp: build_dsn_message Let_def update_delays_def dsn_mark_closed split: if_splits)

lemma build_dsn_created [simp]: "created (snd (build_dsn env now blob m)) = created m"
  by (auto simp: build_dsn_def Let_def update_delays_def split: prod.splits)

text \<open>A report about pending recipients only is a delay warning.\<close>

lemma build_dsn_only_delays:
  assumes "notify_bits_ok env"
    and "\<forall>r \<in> set (recipients m). success_text env r = [] \<and> failed_text env r = []"
    and "fst (build_dsn env now blob m) = Some rep"
  shows "report_subject rep = ''Warning: Delay in message delivery''"
proof -
  obtain f where "dsn_loop env now (created m) (recipients m) no_texts =
    (map (dsn_mark env) (recipients m),
     \<lparr>txt_success = concat (map (success_text env) (recipients m)),
      txt_delay = concat (map (delay_text env now) (recipients m)),
      txt_failed = concat (map (failed_text env) (recipients m)), dsn_fields = f\<rparr>)"
    by (rule dsn_loop_eq [OF assms(1)])
  moreover have "concat (map (success_text env) (recipients m)) = []" "concat (map (failed_text env) (recipients m)) = []"
    using assms(2) by simp_all
  ultimately show ?thesis
    using assms(3) by (auto simp: build_dsn_def Let_def dsn_text_def dsn_subject_def split: if_splits)
qed

text \<open>The delay times that \<open>update_delays\<close> sets lie in the future.\<close>

definition notify_in_future :: "dsn_env \<Rightarrow> u64 \<Rightarrow> bool" where
  "notify_in_future env now \<longleftrightarrow>
    now < u64_MAX \<and> (\<forall>m r. \<forall>d \<in> set (strategy_notify (resolve_queue env m r)). now < now + d)"

lemma delay_change_future:
  assumes "notify_in_future env now" and "pending r"
  shows "now < due (notify (apply_delay_change (delay_change env now m r) r))"
proof (cases "due (notify r) \<le> now")
  case True
  let ?ds = "strategy_notify (resolve_queue env m r)" and ?i = "unat (inner (notify r) + 1)"
  show ?thesis
  proof (cases "?i < length ?ds")
    case l: True
    then have "now < now + ?ds ! ?i"
      using assms(1) unfolding notify_in_future_def by (meson nth_mem)
    with True assms(2) l show ?thesis by (simp add: delay_change_def apply_delay_change_def)
  next
    case False
    with True assms show ?thesis by (simp add: delay_change_def apply_delay_change_def notify_in_future_def)
  qed
next
  case False
  then show ?thesis by (simp add: delay_change_def apply_delay_change_def)
qed

lemma build_dsn_again_empty:
  assumes ok: "notify_bits_ok env" and fut: "notify_in_future env now"
  shows "all_texts_empty env now (recipients (snd (build_dsn env now blob m)))"
  unfolding all_texts_empty_def
proof
  fix r assume r: "r \<in> set (recipients (snd (build_dsn env now blob m)))"
  show "success_text env r = [] \<and> delay_text env now r = [] \<and> failed_text env r = []"
  proof (cases "pending r")
    case False
    with final_closed_after_dsn [OF ok r] texts_of_closed show ?thesis by blast
  next
    case True
    have "delay_text env now r = []"
    proof (cases "\<exists>r \<in> set (recipients m). delay_text env now r \<noteq> []")
      case upd: True
      with r obtain r0 m1 where "r = apply_delay_change (delay_change env now m1 r0) r0"
        by (auto simp: build_dsn_message [OF ok] Let_def update_delays_def)
      with True delay_change_future [OF fut, of r0 m1] have "\<not> due (notify r) \<le> now" by simp
      then show ?thesis by (simp add: delay_text_def)
    next
      case False
      with r obtain r0 where r0: "r0 \<in> set (recipients m)" "r = dsn_mark env r0"
        by (auto simp: build_dsn_message [OF ok] Let_def)
      with True have "r = r0" by (auto simp: dsn_mark_def split: if_splits)
      with False r0 show ?thesis by auto
    qed
    with True texts_of_pending show ?thesis by blast
  qed
qed

lemma write_response_no_line_breaks: "ch_cr \<notin> set (write_response r)" "ch_lf \<notin> set (write_response r)"
  by (simp_all add: write_response_def)

section \<open>Properties\<close>

text \<open>An environment and messages on which the properties are tried.\<close>

definition test_env :: dsn_env where
  "test_env = \<lparr>RCPT_NOTIFY_SUCCESS = 1, RCPT_NOTIFY_FAILURE = 2, RCPT_NOTIFY_DELAY = 4, RCPT_NOTIFY_NEVER = 8,
     to_rfc822 = (\<lambda>_. []), queue_expr = (\<lambda>_ _. None), queue_strategies = (\<lambda>_. None), dsn_name = (\<lambda>_. None),
     dsn_address = (\<lambda>_. None), report_submitter = (\<lambda>_. None)\<rparr>"

definition test_rcpt :: recipient where
  "test_rcpt = (recipient_new (\<lambda>s. s) 100 ''a@b.c'')\<lparr>expires := Ttl 5000, flags := 4\<rparr>"

definition test_message :: "recipient list \<Rightarrow> message" where
  "test_message rs = \<lparr>created = 100, blob_hash = [], return_path = ''m@x.y'', recipients = rs, message_flags = 0,
     env_id = None, priority = 0, message_size = 1, quota_keys = [],
     received_from_ip = V4 0, received_via_port = 25\<rparr>"

lemma test_env_ok: "notify_bits_ok test_env" "now = 100 \<Longrightarrow> notify_in_future test_env now"
proof -
  show "notify_bits_ok test_env"
    by (simp add: notify_bits_ok_def test_env_def RCPT_DSN_SENT_def)
  show "now = 100 \<Longrightarrow> notify_in_future test_env now"
    by (simp add: notify_in_future_def test_env_def resolve_queue_def get_queue_or_default_def DEFAULT_SCHEDULE_def u64_MAX_def)
qed

lemma dsn_loop_append:
  "snd (dsn_loop env now c (rs @ rs') t) = snd (dsn_loop env now c rs' (snd (dsn_loop env now c rs t)))"
  by (induction rs arbitrary: t) (simp_all add: dsn_loop_Cons del: dsn_loop.simps(2))

lemma dsn_loop_closed:
  assumes "closed env r"
  shows "snd (dsn_loop env now c (rs @ r # rs') t) = snd (dsn_loop env now c (rs @ rs') t)"
proof -
  have "dsn_step env now c r t = (r, t)" for t using assms by (simp add: dsn_step_def closed_def)
  then show ?thesis by (simp add: dsn_loop_append dsn_loop_Cons del: dsn_loop.simps(2))
qed

lemma build_dsn_parts:
  assumes "snd (dsn_loop env now (created m) (recipients m) no_texts) = snd (dsn_loop env now (created m') (recipients m') no_texts)"
  shows "map_option (\<lambda>rep. (report_subject rep, report_text rep)) (fst (build_dsn env now blob m)) =
    map_option (\<lambda>rep. (report_subject rep, report_text rep)) (fst (build_dsn env now blob m'))"
  using assms by (auto simp: build_dsn_def Let_def split: prod.splits)

text \<open>
  C13. A final status is reported at most once: when a report is built - or found not to be due - after the
  delivery of a recipient has completed or failed, that recipient never appears in a later report again.
  Whatever has happened to the other recipients meanwhile, a later report has the same subject, the same text
  and the same fields, or is as little due, as if the recipient were not there.
\<close>

theorem final_status_reported_once:
  assumes "notify_bits_ok env" and "i < length (recipients m)" and "\<not> pending (recipients m ! i)"
    and "recipients m' = rs @ (recipients (snd (build_dsn env now blob m)) ! i) # rs'"
  shows "dsn_fields (snd (dsn_loop env now' (created m') (recipients m') no_texts)) =
      dsn_fields (snd (dsn_loop env now' (created m') (rs @ rs') no_texts)) \<and>
    map_option (\<lambda>rep. (report_subject rep, report_text rep)) (fst (build_dsn env now' blob' m')) =
      map_option (\<lambda>rep. (report_subject rep, report_text rep)) (fst (build_dsn env now' blob' (m'\<lparr>recipients := rs @ rs'\<rparr>)))"
proof -
  let ?r = "recipients (snd (build_dsn env now blob m)) ! i"
  have "closed env ?r"
    using assms(2,3) by (auto simp: build_dsn_message [OF assms(1)] Let_def update_delays_def dsn_mark_closed)
  from dsn_loop_closed [OF this] have
    t: "snd (dsn_loop env now' (created m') (recipients m') no_texts) = snd (dsn_loop env now' (created m') (rs @ rs') no_texts)"
    by (simp add: assms(4))
  then show ?thesis using build_dsn_parts [of env now' m' "m'\<lparr>recipients := rs @ rs'\<rparr>" blob'] by simp
qed

theorem final_status_reported_once_witness:
  "map_option report_subject (fst (build_dsn test_env 100 None (test_message (test_rcpt #
       recipients (snd (build_dsn test_env 100 None
         (test_message [test_rcpt\<lparr>flags := 2, status := PermanentFailure \<lparr>entity = ''h'', details = RateLimited\<rparr>\<rparr>])))))))
     = Some ''Warning: Delay in message delivery''"
proof -
  let ?r = "test_rcpt\<lparr>flags := 2, status := PermanentFailure \<lparr>entity = ''h'', details = RateLimited\<rparr>\<rparr>"
  let ?m = "test_message [?r]"
  let ?m' = "test_message (test_rcpt # recipients (snd (build_dsn test_env 100 None ?m)))"
  have m: "recipients ?m = [?r]" by (simp add: test_message_def)
  then have "length (recipients (snd (build_dsn test_env 100 None ?m))) = 1"
    by (simp add: build_dsn_message [OF test_env_ok(1)] Let_def update_delays_def)
  then have "recipients ?m' = [test_rcpt] @ (recipients (snd (build_dsn test_env 100 None ?m)) ! 0) # []"
    by (cases "recipients (snd (build_dsn test_env 100 None ?m))") (auto simp: test_message_def)
  from final_status_reported_once [OF test_env_ok(1) _ _ this, of 100 None] m
  have "map_option fst (map_option (\<lambda>rep. (report_subject rep, report_text rep)) (fst (build_dsn test_env 100 None ?m'))) =
      map_option fst (map_option (\<lambda>rep. (report_subject rep, report_text rep))
        (fst (build_dsn test_env 100 None (?m'\<lparr>recipients := [test_rcpt]\<rparr>))))" by simp
  moreover have d: "\<not> all_texts_empty test_env 100 [test_rcpt]"
    by (simp add: all_texts_empty_def delay_text_def test_rcpt_def recipient_new_def closed_def has_flag_def test_env_def
        schedule_now_def error_dsn_text_def RCPT_DSN_SENT_def)
  obtain rep where rep: "fst (build_dsn test_env 100 None (?m'\<lparr>recipients := [test_rcpt]\<rparr>)) = Some rep"
    using build_dsn_none [OF test_env_ok(1), of 100 None "?m'\<lparr>recipients := [test_rcpt]\<rparr>"] d by auto
  moreover have "report_subject rep = ''Warning: Delay in message delivery''"
    using build_dsn_only_delays [OF test_env_ok(1) _ rep] texts_of_pending [of test_rcpt test_env]
    by (simp add: test_rcpt_def recipient_new_def)
  ultimately show ?thesis by (simp add: option.map_comp comp_def)
qed

text \<open>
  Building a report twice at the same time reports once: if the configured notification
  intervals lie ahead of the clock, the second call has nothing to say.
\<close>

theorem report_again_is_empty:
  assumes "notify_bits_ok env" and "notify_in_future env now"
  shows "fst (build_dsn env now blob' (snd (build_dsn env now blob m))) = None"
  unfolding build_dsn_none [OF assms(1)] by (rule build_dsn_again_empty [OF assms])

theorem report_again_is_empty_witness:
  "fst (build_dsn test_env 100 None (snd (build_dsn test_env 100 None (test_message [test_rcpt])))) = None"
  by (rule report_again_is_empty [OF test_env_ok(1) test_env_ok(2) [OF refl]])

text \<open>
  The text of a remote server can not break the structure of a report: whatever it answered,
  the diagnostic and the success lines have a line break at their end only, if the address and the
  host name of the delivery have none.
\<close>

theorem remote_text_stays_on_its_line:
  assumes "ch_lf \<notin> set addr" and "ch_lf \<notin> set (hostname h)"
  shows "filter (\<lambda>ch. ch = ch_lf) (host_response_dsn_text h addr) = [ch_lf]
    \<and> filter (\<lambda>ch. ch = ch_lf) (response_dsn_diagnostic r) = [ch_lf]"
proof -
  have s: "ch_lf \<notin> set (show_nat n)" for n
    using show_nat_digits [of ch_lf n] by (auto simp: is_ascii_digit_def byte_def)
  have n: "filter (\<lambda>ch. ch = ch_lf) xs = []" if "ch_lf \<notin> set xs" for xs using that by (auto simp: filter_empty_conv)
  have t: "ch_lf \<notin> set (show_triple e)" for e by (cases e) (simp add: s)
  show ?thesis
    using assms
    by (simp add: host_response_dsn_text_def response_dsn_diagnostic_def n s t write_response_no_line_breaks)
qed

theorem remote_text_stays_on_its_line_witness:
  "filter (\<lambda>ch. ch = ch_lf) (host_response_dsn_text \<lparr>hostname = ''h'', host_reply =
     \<lparr>code = 250, esc = (2, 0, 0), response_text = ''ok'' @ [ch_cr, ch_lf] @ ''Action: failed''\<rparr>\<rparr> ''a@b'') = [ch_lf]"
  by (rule conjunct1 [OF remote_text_stays_on_its_line]) simp_all

text \<open>
  A recipient that did not ask for delay notices stays due: once its notification time has
  passed, building a report does not move it, so the next event of the message is in the past
  for as long as the recipient is pending, and the queue picks the message up again at once.
\<close>

theorem silent_recipient_stays_due:
  assumes "notify_bits_ok env"
    and "\<forall>r \<in> set (recipients m). \<not> has_flag r (RCPT_NOTIFY_DELAY env)"
    and "r \<in> set (recipients m)" and "pending r" and "due (notify r) \<le> now"
  shows "\<exists>t. next_event (snd (build_dsn env now blob m)) None = Some t \<and> t \<le> now"
proof -
  let ?m = "snd (build_dsn env now blob m)"
  have "\<forall>r \<in> set (recipients m). delay_text env now r = []" using assms(2) by (simp add: delay_text_def)
  then have "recipients ?m = map (dsn_mark env) (recipients m)" by (simp add: build_dsn_message [OF assms(1)] Let_def)
  with assms(3) have "dsn_mark env r \<in> set (recipients ?m)" by simp
  moreover have "dsn_mark env r = r" using assms(4) by (simp add: dsn_mark_def)
  ultimately have r: "r \<in> pending_in ?m None" using assms(4) by (simp add: pending_in_def in_queue_def)
  then obtain t where t: "next_event ?m None = Some t"
    by (cases "next_event ?m None") (auto simp: next_event_min min_over_None)
  with r have "t \<le> earlier_event (created ?m) r" by (simp add: next_event_min min_over_Some)
  also have "\<dots> \<le> due (notify r)" by (auto simp: earlier_event_def Let_def min_le_iff_disj split: option.split)
  finally show ?thesis using t assms(5) by auto
qed


theorem silent_recipient_stays_due_witness:
  "\<exists>t. next_event (snd (build_dsn test_env 200 None (test_message [test_rcpt\<lparr>flags := 2\<rparr>]))) None = Some t \<and> t \<le> 200"
  by (rule silent_recipient_stays_due [OF test_env_ok(1), of _ "test_rcpt\<lparr>flags := 2\<rparr>"])
    (simp_all add: test_message_def test_rcpt_def recipient_new_def has_flag_def test_env_def schedule_now_def)

end
