(* ===== verification/Codec_Leb128.thy ===== *)
theory Codec_Leb128
  imports Prelude
begin

text \<open>
  Byte encodings of the store: the LEB128 integers of \<open>crates/utils/src/codec/leb128.rs\<close> and the
  big-endian integers of the keys (\<open>to_be_bytes\<close>). The macro of the source is one definition
  over the word length, with the list of shifts of each integer type.

  The locale \<open>prefix_codec\<close> is what the readers of serialized data rely on: decoding what was
  encoded returns the value and the rest of the bytes. It is interpreted on the LEB128 types and
  on the big-endian ones.
\<close>

section \<open>The contract of a codec\<close>

locale prefix_codec =
  fixes encode :: "'a \<Rightarrow> u8 list"
    and decode :: "u8 list \<Rightarrow> ('a \<times> u8 list) option"
  assumes decode_encode: "decode (encode x @ rest) = Some (x, rest)"
begin

lemma decode_all: "decode (encode x) = Some (x, [])"
  using decode_encode [of x "[]"] by simp

lemma encode_prefix_free: "encode x @ r = encode y @ s \<Longrightarrow> x = y \<and> r = s"
proof -
  assume "encode x @ r = encode y @ s"
  then have "decode (encode x @ r) = decode (encode y @ s)" by (rule arg_cong)
  then show ?thesis by (simp add: decode_encode)
qed

lemma encode_inject: "encode x = encode y \<longleftrightarrow> x = y"
  using encode_prefix_free [of x "[]" y "[]"] by auto

lemma concat_encode_inject:
  "concat (map encode xs) @ r = concat (map encode ys) @ s \<Longrightarrow> length xs = length ys \<Longrightarrow> xs = ys \<and> r = s"
proof (induction xs arbitrary: ys)
  case (Cons x xs)
  then obtain y ys' where ys: "ys = y # ys'" by (cases ys) auto
  with Cons.prems have "encode x @ (concat (map encode xs) @ r) = encode y @ (concat (map encode ys') @ s)" by simp
  from encode_prefix_free [OF this] Cons.IH [of ys'] Cons.prems ys show ?case by simp
qed simp

end

text \<open>Decoding \<open>n\<close> values one after the other, as the readers' \<open>for\<close> loops do.\<close>

fun decode_many :: "('b \<Rightarrow> ('a \<times> 'b) option) \<Rightarrow> nat \<Rightarrow> 'b \<Rightarrow> ('a list \<times> 'b) option" where
  "decode_many d 0 bs = Some ([], bs)"
| "decode_many d (Suc n) bs =
    (case d bs of None \<Rightarrow> None
     | Some (x, bs') \<Rightarrow> (case decode_many d n bs' of None \<Rightarrow> None | Some (xs, r) \<Rightarrow> Some (x # xs, r)))"

context prefix_codec
begin

lemma decode_many_encode:
  "decode_many decode (length xs) (concat (map encode xs) @ rest) = Some (xs, rest)"
  by (induction xs) (simp_all add: decode_encode)

end

section \<open>LEB128\<close>

text \<open>
  Integers are numbers with their width \<open>w\<close> written out: the left shift keeps the low \<open>w\<close> bits.
\<close>

function to_leb128 :: "nat \<Rightarrow> u8 list" where
  "to_leb128 v =
    (if v < 0x80 then [word_of_nat v]
     else word_of_nat ((v AND 0x7f) OR 0x80) # to_leb128 (drop_bit 7 v))"
  by auto
termination by (relation "measure id") (auto simp: drop_bit_eq_div)

declare to_leb128.simps [simp del]

text \<open>
  \<open>from_leb128_it\<close> on an iterator: the value and the bytes that are left. The shifts are zipped
  with the bytes, so the loop ends with \<open>None\<close> when either runs out.
\<close>

fun from_leb128_loop :: "nat \<Rightarrow> nat list \<Rightarrow> nat \<Rightarrow> u8 list \<Rightarrow> (nat \<times> u8 list) option" where
  "from_leb128_loop w (shift # shifts) result (b # bs) =
    (if b AND 0x80 = 0 then Some (result OR take_bit w (push_bit shift (unat b)), bs)
     else from_leb128_loop w shifts (result OR take_bit w (push_bit shift (unat (b AND 0x7F)))) bs)"
| "from_leb128_loop w _ result _ = None"

definition from_leb128_it :: "nat \<Rightarrow> nat list \<Rightarrow> u8 list \<Rightarrow> (nat \<times> u8 list) option" where
  "from_leb128_it w shifts bs = from_leb128_loop w shifts 0 bs"

definition from_leb128_bytes :: "nat \<Rightarrow> nat list \<Rightarrow> u8 list \<Rightarrow> nat option" where
  "from_leb128_bytes w shifts bs = map_option fst (from_leb128_loop w shifts 0 bs)"

definition from_leb128_bytes_pos :: "nat \<Rightarrow> nat list \<Rightarrow> u8 list \<Rightarrow> (nat \<times> nat) option" where
  "from_leb128_bytes_pos w shifts bs =
    map_option (\<lambda>(v, r). (v, length bs - length r)) (from_leb128_loop w shifts 0 bs)"

definition shifts_u8 :: "nat list" where "shifts_u8 = [0]"
definition shifts_u16 :: "nat list" where "shifts_u16 = [0, 7, 14]"
definition shifts_u32 :: "nat list" where "shifts_u32 = [0, 7, 14, 21, 28]"
definition shifts_u64 :: "nat list" where "shifts_u64 = [0, 7, 14, 21, 28, 35, 42, 49, 56, 63]"

text \<open>The readers of the store: \<open>next_leb128\<close> at \<open>u32\<close> and at \<open>u64\<close> or \<open>usize\<close>.\<close>

abbreviation next_leb128_u32 :: "u8 list \<Rightarrow> (nat \<times> u8 list) option" where
  "next_leb128_u32 \<equiv> from_leb128_it 32 shifts_u32"

abbreviation next_leb128_u64 :: "u8 list \<Rightarrow> (nat \<times> u8 list) option" where
  "next_leb128_u64 \<equiv> from_leb128_it 64 shifts_u64"

text \<open>\<open>skip_leb128\<close>: the bytes after the next byte without the continuation bit.\<close>

fun skip_leb128 :: "u8 list \<Rightarrow> u8 list option" where
  "skip_leb128 [] = None"
| "skip_leb128 (b # bs) = (if b AND 0x80 = 0 then Some bs else skip_leb128 bs)"

subsection \<open>Round trip\<close>

lemma shifts_upt:
  "shifts_u8 = map (\<lambda>i. 7 * i) [0..<1]"
  "shifts_u16 = map (\<lambda>i. 7 * i) [0..<3]"
  "shifts_u32 = map (\<lambda>i. 7 * i) [0..<5]"
  "shifts_u64 = map (\<lambda>i. 7 * i) [0..<10]"
  by (simp_all add: shifts_u8_def shifts_u16_def shifts_u32_def shifts_u64_def upt_rec)

lemma mask_7: "(0x7F :: nat) = mask 7" "(0x7F :: u8) = mask 7" by (simp_all add: mask_eq_exp_minus_1)

lemma bit_0x80: "bit (0x80::u8) i \<longleftrightarrow> i = 7" "bit (0x80::nat) i \<longleftrightarrow> i = 7"
proof -
  have "(0x80::u8) = push_bit 7 1" "(0x80::nat) = push_bit 7 1" by simp_all
  then show "bit (0x80::u8) i \<longleftrightarrow> i = 7" "bit (0x80::nat) i \<longleftrightarrow> i = 7"
    by (auto simp only: bit_push_bit_iff bit_1_iff) auto
qed

lemma bit_byte_of_nat: "bit (word_of_nat n :: u8) i \<longleftrightarrow> i < 8 \<and> bit n i"
  by (simp add: bit_simps)

lemma bit_below_128: "v < 0x80 \<Longrightarrow> bit (v::nat) i \<Longrightarrow> i < 7"
proof -
  assume "v < 0x80" "bit v i"
  then have "take_bit 7 v = v" by (simp add: take_bit_nat_eq_self)
  with \<open>bit v i\<close> have "bit (take_bit 7 v) i" by simp
  then show "i < 7" by (simp add: bit_take_bit_iff)
qed

lemma last_byte: "v < 0x80 \<Longrightarrow> (word_of_nat v :: u8) AND 0x80 = 0" "v < 0x80 \<Longrightarrow> unat (word_of_nat v :: u8) = v"
proof -
  assume v: "v < 0x80"
  show "(word_of_nat v :: u8) AND 0x80 = 0"
    using bit_below_128 [OF v] by (intro bit_word_eqI) (auto simp only: bit_and_iff bit_0x80 bit_byte_of_nat bit_0_eq)
  from v show "unat (word_of_nat v :: u8) = v" by (simp add: unat_of_nat take_bit_nat_eq_self)
qed

lemma continued_byte: 
 "(word_of_nat ((v AND 0x7f) OR 0x80) :: u8) AND 0x80 \<noteq> 0"
 "unat ((word_of_nat ((v AND 0x7f) OR 0x80) :: u8) AND 0x7F) = take_bit 7 v"
proof -
  have "bit ((word_of_nat ((v AND 0x7f) OR 0x80) :: u8) AND 0x80) 7"
    by (simp only: bit_and_iff bit_0x80 bit_byte_of_nat bit_or_iff) simp
  then show "(word_of_nat ((v AND 0x7f) OR 0x80) :: u8) AND 0x80 \<noteq> 0" by auto
  show "unat ((word_of_nat ((v AND 0x7f) OR 0x80) :: u8) AND 0x7F) = take_bit 7 v"
    by (rule bit_eqI) (auto simp only: mask_7 bit_unsigned_iff bit_and_iff bit_0x80 bit_byte_of_nat bit_or_iff bit_mask_iff bit_take_bit_iff
        possible_bit_def, simp)
qed

lemma from_to_leb128:
  assumes w: "v0 < 2 ^ w" "w \<le> 7 * n" and v: "v = drop_bit (7 * k) v0" and k: "k < n"
  shows "from_leb128_loop w (map (\<lambda>i. 7 * i) [k..<n]) (take_bit (7 * k) v0) (to_leb128 v @ rest) = Some (v0, rest)"
  using v k
proof (induction v arbitrary: k rule: to_leb128.induct)
  case (1 v)
  have upt: "[k..<n] = k # [Suc k..<n]" using "1.prems"(2) by (rule upt_conv_Cons)
  have low: "bit v0 i \<Longrightarrow> i < w" for i
    using w(1) by (metis bit_take_bit_iff take_bit_nat_eq_self)
  have bv: "bit v i \<longleftrightarrow> bit v0 (7 * k + i)" for i by (simp add: "1.prems"(1) bit_drop_bit_eq)
  show ?case
  proof (cases "v < 0x80")
    case True
    have "take_bit (7 * k) v0 OR take_bit w (push_bit (7 * k) v) = v0"
    proof (rule bit_eqI)
      fix i show "bit (take_bit (7 * k) v0 OR take_bit w (push_bit (7 * k) v)) i = bit v0 i"
        by (cases "i < 7 * k") (auto simp: bit_simps bv dest: low)
    qed
    with True last_byte [OF True] upt show ?thesis by (subst to_leb128.simps) simp
  next
    case False
    have "bit v j \<Longrightarrow> 7 * k + j < w" for j using low bv by blast
    have "\<not> v < 2 ^ 7" using False by simp
    have "7 * Suc k < w"
    proof (rule ccontr)
      assume "\<not> 7 * Suc k < w"
      then have "v0 < 2 ^ (7 * k + 7)" using w(1) by (metis add.commute less_le_trans mult_Suc_right not_less one_le_numeral power_increasing)
      then have "v < 2 ^ 7" unfolding "1.prems"(1) drop_bit_eq_div by (simp add: less_mult_imp_div_less power_add mult.commute)
      with False show False by simp
    qed
    with w(2) have k': "Suc k < n" by simp
    have *: "take_bit (7 * k) v0 OR take_bit w (push_bit (7 * k) (take_bit 7 v)) = take_bit (7 * Suc k) v0"
    proof (rule bit_eqI)
      fix i show "bit (take_bit (7 * k) v0 OR take_bit w (push_bit (7 * k) (take_bit 7 v))) i = bit (take_bit (7 * Suc k) v0) i"
        by (cases "i < 7 * k") (auto simp: bit_simps bv dest: low)
    qed
    have d: "drop_bit 7 v = drop_bit (7 * Suc k) v0" by (simp add: "1.prems"(1) add.commute)
    show ?thesis
      using "1.IH" [OF False d k'] False upt *
      by (subst to_leb128.simps) (simp add: continued_byte del: mult_Suc_right)
  qed
qed

text \<open>The LEB128 codecs of the two types that the store reads.\<close>

definition encode_leb128_u32 :: "u32 \<Rightarrow> u8 list" where "encode_leb128_u32 v = to_leb128 (unat v)"
definition encode_leb128_u64 :: "u64 \<Rightarrow> u8 list" where "encode_leb128_u64 v = to_leb128 (unat v)"

definition decode_leb128_u32 :: "u8 list \<Rightarrow> (u32 \<times> u8 list) option" where
  "decode_leb128_u32 bs = map_option (\<lambda>(v, r). (word_of_nat v, r)) (next_leb128_u32 bs)"

definition decode_leb128_u64 :: "u8 list \<Rightarrow> (u64 \<times> u8 list) option" where
  "decode_leb128_u64 bs = map_option (\<lambda>(v, r). (word_of_nat v, r)) (next_leb128_u64 bs)"

lemma next_leb128_to_leb128:
  "v < 2 ^ 32 \<Longrightarrow> next_leb128_u32 (to_leb128 v @ rest) = Some (v, rest)"
  "v < 2 ^ 64 \<Longrightarrow> next_leb128_u64 (to_leb128 v @ rest) = Some (v, rest)"
  using from_to_leb128 [of v 32 5 v 0 rest] from_to_leb128 [of v 64 10 v 0 rest]
  by (simp_all add: from_leb128_it_def shifts_upt)

interpretation leb128_u32: prefix_codec encode_leb128_u32 decode_leb128_u32
  using unsigned_less [where 'b = 32 and 'a = nat]
  by unfold_locales (simp add: encode_leb128_u32_def decode_leb128_u32_def next_leb128_to_leb128)

interpretation leb128_u64: prefix_codec encode_leb128_u64 decode_leb128_u64
  using unsigned_less [where 'b = 64 and 'a = nat]
  by unfold_locales (simp add: encode_leb128_u64_def decode_leb128_u64_def next_leb128_to_leb128)

text \<open>An id written at \<open>u32\<close> is read back at \<open>u64\<close>.\<close>

lemma decode_u64_of_u32: "decode_leb128_u64 (encode_leb128_u32 v @ rest) = Some (ucast v, rest)"
proof -
  have "unat v < 2 ^ 64" using unsigned_less [of v, where 'a = nat] by simp
  then show ?thesis
    by (simp add: encode_leb128_u32_def decode_leb128_u64_def next_leb128_to_leb128 unsigned_of_nat)
qed

lemma skip_leb128_to_leb128: "skip_leb128 (to_leb128 v @ rest) = Some rest"
proof (induction v rule: to_leb128.induct)
  case (1 v)
  then show ?case
    by (cases "v < 0x80") (subst to_leb128.simps, simp add: last_byte continued_byte)+
qed

section \<open>Big-endian integers\<close>

fun be_bytes :: "nat \<Rightarrow> nat \<Rightarrow> u8 list" where
  "be_bytes 0 v = []"
| "be_bytes (Suc n) v = word_of_nat (v div 256 ^ n) # be_bytes n v"

definition from_be_bytes :: "u8 list \<Rightarrow> nat" where
  "from_be_bytes bs = foldl (\<lambda>a b. a * 256 + unat b) 0 bs"

definition be16 :: "16 word \<Rightarrow> u8 list" where "be16 w = be_bytes 2 (unat w)"
definition be32 :: "u32 \<Rightarrow> u8 list" where "be32 w = be_bytes 4 (unat w)"
definition be64 :: "u64 \<Rightarrow> u8 list" where "be64 w = be_bytes 8 (unat w)"

text \<open>\<open>deserialize_be_u16\<close>, \<open>deserialize_be_u32\<close> and \<open>deserialize_be_u64\<close>: \<open>None\<close> is the error.\<close>

definition read_be :: "nat \<Rightarrow> u8 list \<Rightarrow> nat \<Rightarrow> nat option" where
  "read_be n bs index =
    (if index + n \<le> length bs then Some (from_be_bytes (take n (drop index bs))) else None)"

definition deserialize_be_u16 :: "u8 list \<Rightarrow> nat \<Rightarrow> 16 word option" where
  "deserialize_be_u16 bs i = map_option word_of_nat (read_be 2 bs i)"
definition deserialize_be_u32 :: "u8 list \<Rightarrow> nat \<Rightarrow> u32 option" where
  "deserialize_be_u32 bs i = map_option word_of_nat (read_be 4 bs i)"
definition deserialize_be_u64 :: "u8 list \<Rightarrow> nat \<Rightarrow> u64 option" where
  "deserialize_be_u64 bs i = map_option word_of_nat (read_be 8 bs i)"

lemma length_be_bytes [simp]: "length (be_bytes n v) = n"
  by (induction n) simp_all

lemma length_be [simp]: "length (be16 w) = 2" "length (be32 x) = 4" "length (be64 y) = 8"
  by (simp_all add: be16_def be32_def be64_def)

lemma be_bytes_mod: "n \<le> m \<Longrightarrow> be_bytes n (v mod 256 ^ m) = be_bytes n v"
proof (induction n)
  case (Suc n)
  have pow: "(256 :: nat) ^ k = 2 ^ (8 * k)" for k by (simp add: power_mult)
  have "(word_of_nat ((v mod 256 ^ m) div 256 ^ n) :: u8) = word_of_nat (v div 256 ^ n)"
  proof (rule bit_word_eqI)
    fix i assume "i < LENGTH(8)"
    with Suc.prems have "8 * n + i < 8 * m" by simp
    then show "bit (word_of_nat ((v mod 256 ^ m) div 256 ^ n) :: u8) i = bit (word_of_nat (v div 256 ^ n) :: u8) i"
      by (simp add: bit_byte_of_nat pow bit_take_bit_iff bit_drop_bit_eq
          flip: take_bit_eq_mod drop_bit_eq_div)
  qed
  with Suc show ?case by simp
qed simp

lemma from_be_be_bytes: "from_be_bytes (be_bytes n v) = v mod 256 ^ n"
proof -
  have "foldl (\<lambda>a b. a * 256 + unat b) a (be_bytes n v) = a * 256 ^ n + v mod 256 ^ n" for a
  proof (induction n arbitrary: a)
    case (Suc n)
    have "v mod 256 ^ Suc n = 256 ^ n * (v div 256 ^ n mod 256) + v mod 256 ^ n"
      by (simp add: mod_mult2_eq mult.commute [of 256])
    moreover have "foldl (\<lambda>a b. a * 256 + unat b) a (be_bytes (Suc n) v)
        = foldl (\<lambda>a b. a * 256 + unat b) (a * 256 + v div 256 ^ n mod 256) (be_bytes n v)"
      by (simp add: unat_of_nat take_bit_eq_mod)
    ultimately show ?case
      unfolding Suc.IH by (simp only: algebra_simps power_Suc)
  qed simp
  from this [of 0] show ?thesis by (simp add: from_be_bytes_def)
qed

lemma from_be_bytes_Cons: "from_be_bytes (b # bs) = unat b * 256 ^ length bs + from_be_bytes bs"
proof -
  have "foldl (\<lambda>a b. a * 256 + unat b) a bs = a * 256 ^ length bs + foldl (\<lambda>a b. a * 256 + unat b) 0 bs" for a
  proof (induction bs arbitrary: a)
    case (Cons c bs)
    show ?case using Cons [of "a * 256 + unat c"] Cons [of "unat c"] by (simp add: algebra_simps)
  qed simp
  from this [of "unat b"] show ?thesis by (simp add: from_be_bytes_def)
qed

lemma from_be_bytes_less: "from_be_bytes bs < 256 ^ length bs"
proof (induction bs)
  case (Cons b bs)
  have "unat b \<le> 255" using unsigned_less [of b, where 'a = nat] by simp
  then have "unat b * 256 ^ length bs \<le> 255 * 256 ^ length bs" by (rule mult_le_mono1)
  with Cons have "unat b * 256 ^ length bs + from_be_bytes bs < 256 * 256 ^ length bs" by linarith
  then show ?case by (simp add: from_be_bytes_Cons)
qed (simp add: from_be_bytes_def)

lemma be_bytes_from_be_bytes: "be_bytes (length bs) (from_be_bytes bs) = bs"
proof (induction bs)
  case (Cons b bs)
  have "be_bytes (length bs) (unat b * 256 ^ length bs + from_be_bytes bs) =
      be_bytes (length bs) ((unat b * 256 ^ length bs + from_be_bytes bs) mod 256 ^ length bs)"
    by (rule be_bytes_mod [symmetric]) simp
  also have "\<dots> = bs" using Cons from_be_bytes_less [of bs] by simp
  finally show ?case using from_be_bytes_less [of bs] by (simp add: from_be_bytes_Cons)
qed simp

lemma be64_from_be_bytes: "length bs = 8 \<Longrightarrow> be64 (word_of_nat (from_be_bytes bs)) = bs"
  using be_bytes_from_be_bytes [of bs] from_be_bytes_less [of bs]
  by (simp add: be64_def unat_of_nat take_bit_nat_eq_self)

lemma read_be_be_bytes:
  "length pre = i \<Longrightarrow> v < 256 ^ n \<Longrightarrow> read_be n (pre @ be_bytes n v @ post) i = Some v"
  by (simp add: read_be_def from_be_be_bytes)

lemma deserialize_be:
  "length pre = i \<Longrightarrow> deserialize_be_u16 (pre @ be16 w @ post) i = Some w"
  "length pre = i \<Longrightarrow> deserialize_be_u32 (pre @ be32 x @ post) i = Some x"
  "length pre = i \<Longrightarrow> deserialize_be_u64 (pre @ be64 y @ post) i = Some y"
  using unsigned_less [of w, where 'a = nat] unsigned_less [of x, where 'a = nat]
    unsigned_less [of y, where 'a = nat]
  by (simp_all add: deserialize_be_u16_def deserialize_be_u32_def deserialize_be_u64_def
      be16_def be32_def be64_def read_be_be_bytes)

text \<open>Fixed-width big-endian integers are codecs, and compare as numbers.\<close>

definition decode_be64 :: "u8 list \<Rightarrow> (u64 \<times> u8 list) option" where
  "decode_be64 bs = map_option (\<lambda>v. (v, drop 8 bs)) (deserialize_be_u64 bs 0)"
definition decode_be32 :: "u8 list \<Rightarrow> (u32 \<times> u8 list) option" where
  "decode_be32 bs = map_option (\<lambda>v. (v, drop 4 bs)) (deserialize_be_u32 bs 0)"
definition decode_be16 :: "u8 list \<Rightarrow> (16 word \<times> u8 list) option" where
  "decode_be16 bs = map_option (\<lambda>v. (v, drop 2 bs)) (deserialize_be_u16 bs 0)"

interpretation be64: prefix_codec be64 decode_be64
  using deserialize_be(3) [of "[]" 0] by unfold_locales (simp add: decode_be64_def)
interpretation be32: prefix_codec be32 decode_be32
  using deserialize_be(2) [of "[]" 0] by unfold_locales (simp add: decode_be32_def)
interpretation be16: prefix_codec be16 decode_be16
  using deserialize_be(1) [of "[]" 0] by unfold_locales (simp add: decode_be16_def)

text \<open>The order of the keys of an ordered store: bytewise, a proper prefix first.\<close>

abbreviation key_less :: "u8 list \<Rightarrow> u8 list \<Rightarrow> bool" where "key_less \<equiv> ord_class.lexordp"

lemma key_less_be_bytes:
  "a < 256 ^ n \<Longrightarrow> b < 256 ^ n \<Longrightarrow>
   key_less (be_bytes n a @ r) (be_bytes n b @ s) \<longleftrightarrow> a < b \<or> a = b \<and> key_less r s"
proof (induction n arbitrary: a b)
  case (Suc n)
  let ?p = "256 ^ n :: nat"
  have dig: "a div ?p < 256" "b div ?p < 256"
    using Suc.prems by (simp_all add: less_mult_imp_div_less mult.commute)
  then have byte: "(word_of_nat (a div ?p) :: u8) < word_of_nat (b div ?p) \<longleftrightarrow> a div ?p < b div ?p"
    "(word_of_nat (b div ?p) :: u8) < word_of_nat (a div ?p) \<longleftrightarrow> b div ?p < a div ?p"
    by (simp_all add: word_less_nat_alt unat_of_nat take_bit_eq_mod)
  have IH: "key_less (be_bytes n a @ r) (be_bytes n b @ s)
      \<longleftrightarrow> a mod ?p < b mod ?p \<or> a mod ?p = b mod ?p \<and> key_less r s"
    using Suc.IH [of "a mod ?p" "b mod ?p"] by (simp add: be_bytes_mod)
  consider "a div ?p < b div ?p" | "b div ?p < a div ?p" | "a div ?p = b div ?p" by linarith
  then show ?case
  proof cases
    case 1
    then have "a < b" by (meson div_le_mono leD leI)
    with 1 byte show ?thesis by simp
  next
    case 2
    then have "b < a" by (meson div_le_mono leD leI)
    with 2 byte show ?thesis by simp
  next
    case 3
    have "a = ?p * (b div ?p) + a mod ?p" "b = ?p * (b div ?p) + b mod ?p"
      using 3 by (metis mult_div_mod_eq)+
    then have "a < b \<longleftrightarrow> a mod ?p < b mod ?p" "a = b \<longleftrightarrow> a mod ?p = b mod ?p"
      by (metis add_less_cancel_left, metis)
    with 3 byte IH show ?thesis by simp
  qed
qed simp

lemma key_less_be64: "key_less (be64 a @ r) (be64 b @ s) \<longleftrightarrow> a < b \<or> a = b \<and> key_less r s"
  using key_less_be_bytes [of "unat a" 8 "unat b" r s] unsigned_less [of a, where 'a = nat]
    unsigned_less [of b, where 'a = nat]
  by (simp add: be64_def word_less_nat_alt word_unat_eq_iff)

section \<open>Properties\<close>

text \<open>
  LEB128 streams round trip: a sequence of 64-bit numbers written one after another, with
  whatever follows, is read back as the same numbers, and what follows is left; and skipping a
  number leaves what follows it.
\<close>

theorem leb128_stream_roundtrip:
  "decode_many decode_leb128_u64 (length vs) (concat (map encode_leb128_u64 vs) @ rest) = Some (vs, rest)
   \<and> decode_many decode_leb128_u32 (length ws) (concat (map encode_leb128_u32 ws) @ rest) = Some (ws, rest)
   \<and> skip_leb128 (encode_leb128_u64 v @ rest) = Some rest"
  by (simp add: leb128_u64.decode_many_encode leb128_u32.decode_many_encode skip_leb128_to_leb128
      encode_leb128_u64_def)

text \<open>
  Bytes do not round trip: the decoder for 8-bit numbers has one shift only, so a byte of 128
  or more, which is written in two bytes, can not be read back; at any wider type it can.
\<close>

theorem leb128_u8_unreadable:
  assumes "128 \<le> v" and "v < 256"
  shows "from_leb128_bytes 8 shifts_u8 (to_leb128 v) = None \<and> from_leb128_bytes 64 shifts_u64 (to_leb128 v) = Some v"
proof -
  have "to_leb128 v = word_of_nat ((v AND 0x7f) OR 0x80) # to_leb128 (drop_bit 7 v)"
    using assms(1) by (subst to_leb128.simps) simp
  then have "from_leb128_loop 8 [0] 0 (to_leb128 v) = None" by (simp add: continued_byte)
  moreover have "from_leb128_it 64 shifts_u64 (to_leb128 v @ []) = Some (v, [])"
    using assms(2) by (intro next_leb128_to_leb128(2)) simp
  ultimately show ?thesis by (simp add: from_leb128_bytes_def from_leb128_it_def shifts_u8_def)
qed

theorem leb128_u8_unreadable_witness: "from_leb128_bytes 8 shifts_u8 (to_leb128 200) = None"
  using leb128_u8_unreadable [of 200] by simp

end
