(* ===== verification/Store_Key.thy ===== *)
theory Store_Key
  imports Codec_Leb128
begin

text \<open>
  The keys of the data store (\<open>crates/store/src/write/key.rs\<close>, the value classes of
  \<open>crates/store/src/write/mod.rs\<close>, the collections of \<open>crates/types/src/collection.rs\<close> and the
  short hashes of \<open>crates/utils/src/cheeky_hash.rs\<close>): every kind of record the server stores has
  a subspace and a byte string, ordered bytewise by the store.

  \<open>SearchIndex::InMemory\<close> never reaches a key (its number is \<open>unreachable!()\<close>), so the index type
  has the five indexes that have one.
\<close>

type_synonym bytes = "u8 list"

section \<open>Collections\<close>

datatype collection =
    Email | Mailbox | Thread | Identity | EmailSubmission | SieveScript | PushSubscription | Principal
  | Calendar | CalendarEvent | AddressBook | ContactCard | FileNode | CalendarEventNotification | NoCollection

fun collection_u8 :: "collection \<Rightarrow> u8" where
  "collection_u8 Email = 0" | "collection_u8 Mailbox = 1" | "collection_u8 Thread = 2"
| "collection_u8 Identity = 3" | "collection_u8 EmailSubmission = 4" | "collection_u8 SieveScript = 5"
| "collection_u8 PushSubscription = 6" | "collection_u8 Principal = 7" | "collection_u8 Calendar = 8"
| "collection_u8 CalendarEvent = 9" | "collection_u8 AddressBook = 10" | "collection_u8 ContactCard = 11"
| "collection_u8 FileNode = 12" | "collection_u8 CalendarEventNotification = 13"
| "collection_u8 NoCollection = 14"

definition collection_from_u8 :: "u8 \<Rightarrow> collection" where
  "collection_from_u8 v =
    (if v = 0 then Email else if v = 1 then Mailbox else if v = 2 then Thread else if v = 3 then Identity
     else if v = 4 then EmailSubmission else if v = 5 then SieveScript else if v = 6 then PushSubscription
     else if v = 7 then Principal else if v = 8 then Calendar else if v = 9 then CalendarEvent
     else if v = 10 then AddressBook else if v = 11 then ContactCard else if v = 12 then FileNode
     else if v = 13 then CalendarEventNotification else NoCollection)"

datatype sync_collection =
    SyncEmail | SyncThread | SyncCalendar | SyncAddressBook | SyncFileNode | SyncIdentity
  | SyncEmailSubmission | SyncSieveScript | SyncCalendarEventNotification | SyncShareNotification | SyncNone

fun sync_collection_u8 :: "sync_collection \<Rightarrow> u8" where
  "sync_collection_u8 SyncEmail = 0" | "sync_collection_u8 SyncThread = 1"
| "sync_collection_u8 SyncCalendar = 2" | "sync_collection_u8 SyncAddressBook = 3"
| "sync_collection_u8 SyncFileNode = 4" | "sync_collection_u8 SyncIdentity = 5"
| "sync_collection_u8 SyncEmailSubmission = 6" | "sync_collection_u8 SyncSieveScript = 7"
| "sync_collection_u8 SyncCalendarEventNotification = 8" | "sync_collection_u8 SyncShareNotification = 9"
| "sync_collection_u8 SyncNone = 10"

definition sync_collection_from_u8 :: "u8 \<Rightarrow> sync_collection" where
  "sync_collection_from_u8 v =
    (if v = 0 then SyncEmail else if v = 1 then SyncThread else if v = 2 then SyncCalendar
     else if v = 3 then SyncAddressBook else if v = 4 then SyncFileNode else if v = 5 then SyncIdentity
     else if v = 6 then SyncEmailSubmission else if v = 7 then SyncSieveScript
     else if v = 8 then SyncCalendarEventNotification else if v = 9 then SyncShareNotification
     else SyncNone)"

datatype vanished_collection = VanishedEmail | VanishedCalendar | VanishedAddressBook | VanishedFileNode

fun vanished_collection_u8 :: "vanished_collection \<Rightarrow> u8" where
  "vanished_collection_u8 VanishedEmail = 251" | "vanished_collection_u8 VanishedCalendar = 252"
| "vanished_collection_u8 VanishedAddressBook = 253" | "vanished_collection_u8 VanishedFileNode = 254"

text \<open>The synchronised collection of a collection, and the collections of a synchronised one.\<close>

fun sync_of_collection :: "collection \<Rightarrow> sync_collection" where
  "sync_of_collection Email = SyncEmail" | "sync_of_collection Mailbox = SyncEmail"
| "sync_of_collection Thread = SyncThread" | "sync_of_collection Identity = SyncIdentity"
| "sync_of_collection EmailSubmission = SyncEmailSubmission"
| "sync_of_collection SieveScript = SyncSieveScript"
| "sync_of_collection PushSubscription = SyncNone" | "sync_of_collection Principal = SyncNone"
| "sync_of_collection Calendar = SyncCalendar" | "sync_of_collection CalendarEvent = SyncCalendar"
| "sync_of_collection CalendarEventNotification = SyncCalendarEventNotification"
| "sync_of_collection AddressBook = SyncAddressBook" | "sync_of_collection ContactCard = SyncAddressBook"
| "sync_of_collection FileNode = SyncFileNode" | "sync_of_collection NoCollection = SyncNone"

fun collection_of_sync :: "sync_collection \<Rightarrow> bool \<Rightarrow> collection" where
  "collection_of_sync SyncEmail is_container = (if is_container then Mailbox else Email)"
| "collection_of_sync SyncThread _ = Thread"
| "collection_of_sync SyncCalendar is_container = (if is_container then Calendar else CalendarEvent)"
| "collection_of_sync SyncAddressBook is_container = (if is_container then AddressBook else ContactCard)"
| "collection_of_sync SyncFileNode _ = FileNode"
| "collection_of_sync SyncIdentity _ = Identity"
| "collection_of_sync SyncEmailSubmission _ = EmailSubmission"
| "collection_of_sync SyncSieveScript _ = SieveScript"
| "collection_of_sync SyncCalendarEventNotification _ = CalendarEventNotification"
| "collection_of_sync SyncShareNotification _ = NoCollection"
| "collection_of_sync SyncNone _ = NoCollection"

section \<open>Short hashes\<close>

text \<open>
  Sixteen bytes: a length and the text itself if it has at most fifteen bytes, otherwise the
  bytes of two hash functions, which are third-party code and parameters here.
\<close>

definition HASH_PAYLOAD :: nat where "HASH_PAYLOAD = 15"

definition cheeky_new :: "(bytes \<Rightarrow> u64) \<Rightarrow> (bytes \<Rightarrow> u64) \<Rightarrow> bytes \<Rightarrow> bytes" where
  "cheeky_new xxh3_64 fingerprint64 bs =
    (if length bs \<le> HASH_PAYLOAD
     then word_of_nat (length bs) # bs @ replicate (HASH_PAYLOAD - length bs) 0
     else word_of_nat (min (length bs) 255) # be64 (xxh3_64 bs) @ take 7 (be64 (fingerprint64 bs)))"

definition cheeky_len :: "bytes \<Rightarrow> nat" where
  "cheeky_len h = min (unat (hd h)) HASH_PAYLOAD + 1"

definition cheeky_as_bytes :: "bytes \<Rightarrow> bytes" where
  "cheeky_as_bytes h = take (cheeky_len h) h"

definition cheeky_payload :: "bytes \<Rightarrow> bytes" where
  "cheeky_payload h = (let len = unat (hd h) in if len \<le> HASH_PAYLOAD then take len (tl h) else tl h)"

definition cheeky_payload_len :: "bytes \<Rightarrow> u8" where
  "cheeky_payload_len h = hd h"

definition cheeky_deserialize :: "bytes \<Rightarrow> bytes option" where
  "cheeky_deserialize bs =
    (case bs of [] \<Rightarrow> None
     | len # r \<Rightarrow>
        (let n = min (unat len) HASH_PAYLOAD in
         if n \<le> length r then Some (len # take n r @ replicate (HASH_PAYLOAD - n) 0) else None))"

section \<open>Value classes\<close>

datatype index_property_class = HashProperty u8 bytes | IntegerProperty u8 u64
datatype in_memory_class = InMemoryKey bytes | InMemoryCounter bytes

datatype search_index = EmailIndex | CalendarIndex | ContactsIndex | FileIndex | TracingIndex

fun search_index_u8 :: "search_index \<Rightarrow> u8" where
  "search_index_u8 EmailIndex = 0" | "search_index_u8 CalendarIndex = 1"
| "search_index_u8 ContactsIndex = 2" | "search_index_u8 FileIndex = 3" | "search_index_u8 TracingIndex = 4"

datatype search_index_id = SearchAccount u32 u32 | SearchGlobal u64

datatype search_index_type =
    SearchTerm u8 bytes
  | SearchField u8 bytes
  | SearchDocument

datatype task_queue_class =
    UpdateIndex u64 search_index bool
  | SendAlarm u64 "16 word" "16 word" bool
  | SendImip u64 bool
  | MergeThreads u64

datatype blob_link = LinkId u64 | LinkDocument | LinkTemporary u64

datatype blob_op =
    BlobCommit bytes
  | BlobLink bytes blob_link
  | BlobQuota bytes u64
  | BlobUndelete bytes u64
  | BlobSpamSample bytes u64

datatype directory_class =
    NameToId bytes | EmailToId bytes | DirectoryIndex bytes u32 | MemberOf u32 u32 | Members u32 u32
  | DirectoryPrincipal u32 | UsedQuota u32

record queue_event_key =
  event_due :: u64
  event_queue_id :: u64
  event_queue_name :: bytes

record report_event =
  report_due :: u64
  report_policy_hash :: u64
  report_seq_id :: u64
  report_domain :: bytes

datatype queue_class =
    QueueMessage u64
  | MessageEvent queue_event_key
  | DmarcReportHeader report_event
  | DmarcReportEvent report_event
  | TlsReportHeader report_event
  | TlsReportEvent report_event
  | QuotaCount bytes
  | QuotaSize bytes

datatype report_class = ReportTls u64 u64 | ReportDmarc u64 u64 | ReportArf u64 u64
datatype telemetry_class = TelemetrySpan u64 | TelemetryMetric u64 u64 u64

datatype value_class =
    Property u8
  | IndexProperty index_property_class
  | Acl u32
  | InMemory in_memory_class
  | TaskQueue task_queue_class
  | Directory directory_class
  | Blob blob_op
  | Config bytes
  | Queue queue_class
  | Report report_class
  | Telemetry telemetry_class
  | SearchIndexClass search_index search_index_id search_index_type
  | Any u8 bytes
  | ShareNotification u64 u32
  | DocumentId
  | ChangeId

section \<open>Subspaces\<close>

definition SUBSPACE_ACL :: u8 where "SUBSPACE_ACL = 97"
definition SUBSPACE_DIRECTORY :: u8 where "SUBSPACE_DIRECTORY = 100"
definition SUBSPACE_TASK_QUEUE :: u8 where "SUBSPACE_TASK_QUEUE = 102"
definition SUBSPACE_INDEXES :: u8 where "SUBSPACE_INDEXES = 105"
definition SUBSPACE_BLOB_EXTRA :: u8 where "SUBSPACE_BLOB_EXTRA = 106"
definition SUBSPACE_BLOB_LINK :: u8 where "SUBSPACE_BLOB_LINK = 107"
definition SUBSPACE_LOGS :: u8 where "SUBSPACE_LOGS = 108"
definition SUBSPACE_COUNTER :: u8 where "SUBSPACE_COUNTER = 110"
definition SUBSPACE_IN_MEMORY_VALUE :: u8 where "SUBSPACE_IN_MEMORY_VALUE = 109"
definition SUBSPACE_IN_MEMORY_COUNTER :: u8 where "SUBSPACE_IN_MEMORY_COUNTER = 121"
definition SUBSPACE_PROPERTY :: u8 where "SUBSPACE_PROPERTY = 112"
definition SUBSPACE_SETTINGS :: u8 where "SUBSPACE_SETTINGS = 115"
definition SUBSPACE_QUEUE_MESSAGE :: u8 where "SUBSPACE_QUEUE_MESSAGE = 101"
definition SUBSPACE_QUEUE_EVENT :: u8 where "SUBSPACE_QUEUE_EVENT = 113"
definition SUBSPACE_QUOTA :: u8 where "SUBSPACE_QUOTA = 117"
definition SUBSPACE_REPORT_OUT :: u8 where "SUBSPACE_REPORT_OUT = 104"
definition SUBSPACE_REPORT_IN :: u8 where "SUBSPACE_REPORT_IN = 114"
definition SUBSPACE_TELEMETRY_SPAN :: u8 where "SUBSPACE_TELEMETRY_SPAN = 111"
definition SUBSPACE_TELEMETRY_METRIC :: u8 where "SUBSPACE_TELEMETRY_METRIC = 120"
definition SUBSPACE_SEARCH_INDEX :: u8 where "SUBSPACE_SEARCH_INDEX = 122"

named_theorems subspace_defs \<open>the numbers of the subspaces\<close>

lemmas [subspace_defs] = SUBSPACE_ACL_def SUBSPACE_DIRECTORY_def SUBSPACE_TASK_QUEUE_def
  SUBSPACE_INDEXES_def SUBSPACE_BLOB_EXTRA_def SUBSPACE_BLOB_LINK_def SUBSPACE_LOGS_def
  SUBSPACE_COUNTER_def SUBSPACE_IN_MEMORY_VALUE_def SUBSPACE_IN_MEMORY_COUNTER_def
  SUBSPACE_PROPERTY_def SUBSPACE_SETTINGS_def SUBSPACE_QUEUE_MESSAGE_def SUBSPACE_QUEUE_EVENT_def
  SUBSPACE_QUOTA_def SUBSPACE_REPORT_OUT_def SUBSPACE_REPORT_IN_def SUBSPACE_TELEMETRY_SPAN_def
  SUBSPACE_TELEMETRY_METRIC_def SUBSPACE_SEARCH_INDEX_def

definition subspace :: "value_class \<Rightarrow> u8 \<Rightarrow> u8" where
  "subspace class collection =
    (case class of
       Property field \<Rightarrow> if field = 84 \<and> collection = 1 then SUBSPACE_COUNTER else SUBSPACE_PROPERTY
     | IndexProperty _ \<Rightarrow> SUBSPACE_PROPERTY
     | Acl _ \<Rightarrow> SUBSPACE_ACL
     | TaskQueue _ \<Rightarrow> SUBSPACE_TASK_QUEUE
     | Blob op \<Rightarrow> (case op of BlobCommit _ \<Rightarrow> SUBSPACE_BLOB_LINK | BlobLink _ _ \<Rightarrow> SUBSPACE_BLOB_LINK
         | _ \<Rightarrow> SUBSPACE_BLOB_EXTRA)
     | Config _ \<Rightarrow> SUBSPACE_SETTINGS
     | InMemory lookup \<Rightarrow> (case lookup of InMemoryKey _ \<Rightarrow> SUBSPACE_IN_MEMORY_VALUE
         | InMemoryCounter _ \<Rightarrow> SUBSPACE_IN_MEMORY_COUNTER)
     | Directory d \<Rightarrow> (case d of UsedQuota _ \<Rightarrow> SUBSPACE_QUOTA | _ \<Rightarrow> SUBSPACE_DIRECTORY)
     | Queue q \<Rightarrow> (case q of QueueMessage _ \<Rightarrow> SUBSPACE_QUEUE_MESSAGE
         | MessageEvent _ \<Rightarrow> SUBSPACE_QUEUE_EVENT
         | QuotaCount _ \<Rightarrow> SUBSPACE_QUOTA | QuotaSize _ \<Rightarrow> SUBSPACE_QUOTA
         | _ \<Rightarrow> SUBSPACE_REPORT_OUT)
     | Report _ \<Rightarrow> SUBSPACE_REPORT_IN
     | Telemetry t \<Rightarrow> (case t of TelemetrySpan _ \<Rightarrow> SUBSPACE_TELEMETRY_SPAN
         | TelemetryMetric _ _ _ \<Rightarrow> SUBSPACE_TELEMETRY_METRIC)
     | DocumentId \<Rightarrow> SUBSPACE_COUNTER
     | ChangeId \<Rightarrow> SUBSPACE_COUNTER
     | ShareNotification _ _ \<Rightarrow> SUBSPACE_LOGS
     | SearchIndexClass _ _ _ \<Rightarrow> SUBSPACE_SEARCH_INDEX
     | Any s _ \<Rightarrow> s)"

definition is_counter :: "value_class \<Rightarrow> u8 \<Rightarrow> bool" where
  "is_counter class collection =
    (case class of
       Directory (UsedQuota _) \<Rightarrow> True
     | InMemory (InMemoryCounter _) \<Rightarrow> True
     | Queue (QuotaCount _) \<Rightarrow> True
     | Queue (QuotaSize _) \<Rightarrow> True
     | DocumentId \<Rightarrow> True
     | ChangeId \<Rightarrow> True
     | Property field \<Rightarrow> field = 84 \<and> collection = 1
     | _ \<Rightarrow> False)"

section \<open>Keys\<close>

fun task_queue_key :: "u32 \<Rightarrow> u32 \<Rightarrow> task_queue_class \<Rightarrow> bytes" where
  "task_queue_key account_id document_id (UpdateIndex due index is_insert) =
    be64 due @ be32 account_id @ (if is_insert then 7 else 8) # be32 document_id @ [search_index_u8 index]"
| "task_queue_key account_id document_id (SendAlarm due event_id alarm_id is_email_alert) =
    be64 due @ be32 account_id @ (if is_email_alert then 3 else 6) # be32 document_id
      @ be16 event_id @ be16 alarm_id"
| "task_queue_key account_id document_id (SendImip due is_payload) =
    (if \<not> is_payload then be64 due @ be32 account_id @ 4 # be32 document_id
     else be64 (- 1) @ be32 account_id @ 5 # be32 document_id @ be64 due)"
| "task_queue_key account_id document_id (MergeThreads due) =
    be64 due @ be32 account_id @ 9 # be32 document_id"

definition QUOTA_LINK :: u8 where "QUOTA_LINK = 0"
definition UNDELETE_LINK :: u8 where "UNDELETE_LINK = 1"
definition SPAM_SAMPLE_LINK :: u8 where "SPAM_SAMPLE_LINK = 2"

fun blob_key :: "u32 \<Rightarrow> u8 \<Rightarrow> u32 \<Rightarrow> blob_op \<Rightarrow> bytes" where
  "blob_key account_id collection document_id (BlobCommit hash) = hash"
| "blob_key account_id collection document_id (BlobLink hash to) =
    (case to of
       LinkId oid \<Rightarrow> hash @ be64 oid
     | LinkDocument \<Rightarrow> hash @ be32 account_id @ collection # be32 document_id
     | LinkTemporary until \<Rightarrow> hash @ be32 account_id @ be64 until)"
| "blob_key account_id collection document_id (BlobQuota hash until) =
    QUOTA_LINK # be32 account_id @ hash @ be64 until"
| "blob_key account_id collection document_id (BlobUndelete hash until) =
    UNDELETE_LINK # be32 account_id @ hash @ be64 until"
| "blob_key account_id collection document_id (BlobSpamSample hash until) =
    SPAM_SAMPLE_LINK # be64 until @ be32 account_id @ hash"

fun directory_key :: "directory_class \<Rightarrow> bytes" where
  "directory_key (NameToId name) = 0 # name"
| "directory_key (EmailToId email) = 1 # email"
| "directory_key (DirectoryPrincipal uid) = 2 # encode_leb128_u32 uid"
| "directory_key (UsedQuota uid) = 4 # encode_leb128_u32 uid"
| "directory_key (MemberOf principal_id member_of) = 5 # be32 principal_id @ be32 member_of"
| "directory_key (Members principal_id has_member) = 6 # be32 principal_id @ be32 has_member"
| "directory_key (DirectoryIndex word principal_id) = 7 # word @ be32 principal_id"

fun queue_key :: "queue_class \<Rightarrow> bytes" where
  "queue_key (QueueMessage queue_id) = be64 queue_id"
| "queue_key (MessageEvent e) = be64 (event_due e) @ be64 (event_queue_id e) @ event_queue_name e"
| "queue_key (DmarcReportHeader e) =
    0 # be64 (report_due e) @ report_domain e @ be64 (report_policy_hash e) @ be64 (report_seq_id e) @ [0]"
| "queue_key (TlsReportHeader e) =
    0 # be64 (report_due e) @ report_domain e @ be64 (report_policy_hash e) @ be64 (report_seq_id e) @ [1]"
| "queue_key (DmarcReportEvent e) =
    1 # be64 (report_due e) @ report_domain e @ be64 (report_policy_hash e) @ be64 (report_seq_id e)"
| "queue_key (TlsReportEvent e) =
    2 # be64 (report_due e) @ report_domain e @ be64 (report_policy_hash e) @ be64 (report_seq_id e)"
| "queue_key (QuotaCount key) = 0 # key"
| "queue_key (QuotaSize key) = 1 # key"

fun report_key :: "report_class \<Rightarrow> bytes" where
  "report_key (ReportTls oid expires) = 0 # be64 expires @ be64 oid"
| "report_key (ReportDmarc oid expires) = 1 # be64 expires @ be64 oid"
| "report_key (ReportArf oid expires) = 2 # be64 expires @ be64 oid"

fun telemetry_key :: "telemetry_class \<Rightarrow> bytes" where
  "telemetry_key (TelemetrySpan span_id) = be64 span_id"
| "telemetry_key (TelemetryMetric timestamp metric_id node_id) =
    be64 timestamp @ encode_leb128_u64 metric_id @ encode_leb128_u64 node_id"

fun search_key :: "search_index \<Rightarrow> search_index_id \<Rightarrow> search_index_type \<Rightarrow> bytes" where
  "search_key index oid (SearchTerm field hash) =
    (let tail = cheeky_payload hash @ [cheeky_payload_len hash, field] in
     case oid of
       SearchAccount a d \<Rightarrow> search_index_u8 index # be32 a @ tail @ be32 d
     | SearchGlobal i \<Rightarrow> search_index_u8 index # tail @ be64 i)"
| "search_key index oid (SearchField field_id data) =
    (let class = search_index_u8 index OR push_bit 6 1 in
     case oid of
       SearchAccount a d \<Rightarrow> class # be32 a @ field_id # data @ be32 d
     | SearchGlobal i \<Rightarrow> class # field_id # data @ be64 i)"
| "search_key index oid SearchDocument =
    (let class = search_index_u8 index OR push_bit 6 2 in
     case oid of
       SearchAccount a d \<Rightarrow> class # be32 a @ be32 d
     | SearchGlobal i \<Rightarrow> class # be64 i)"

definition WITH_SUBSPACE :: u32 where "WITH_SUBSPACE = 1"

definition class_key :: "value_class \<Rightarrow> u32 \<Rightarrow> u8 \<Rightarrow> u32 \<Rightarrow> bytes" where
  "class_key class account_id collection document_id =
    (case class of
       Property property \<Rightarrow> be32 account_id @ collection # property # be32 document_id
     | IndexProperty p \<Rightarrow>
        (case p of
           HashProperty property hash \<Rightarrow>
             be32 account_id @ collection # property # cheeky_as_bytes hash @ be32 document_id
         | IntegerProperty property value \<Rightarrow>
             be32 account_id @ collection # property # be64 value @ be32 document_id)
     | Acl grant_account_id \<Rightarrow> be32 grant_account_id @ be32 account_id @ collection # be32 document_id
     | TaskQueue task \<Rightarrow> task_queue_key account_id document_id task
     | Blob op \<Rightarrow> blob_key account_id collection document_id op
     | Config key \<Rightarrow> key
     | InMemory lookup \<Rightarrow> (case lookup of InMemoryKey key \<Rightarrow> key | InMemoryCounter key \<Rightarrow> key)
     | Directory d \<Rightarrow> directory_key d
     | Queue q \<Rightarrow> queue_key q
     | Report r \<Rightarrow> report_key r
     | Telemetry t \<Rightarrow> telemetry_key t
     | DocumentId \<Rightarrow> be32 account_id @ [collection]
     | ChangeId \<Rightarrow> be32 account_id
     | ShareNotification notification_id notify_account_id \<Rightarrow>
         be32 notify_account_id @ sync_collection_u8 SyncShareNotification # be64 notification_id
     | SearchIndexClass index oid typ \<Rightarrow> search_key index oid typ
     | Any _ key \<Rightarrow> key)"

definition class_serialize :: "value_class \<Rightarrow> u32 \<Rightarrow> u8 \<Rightarrow> u32 \<Rightarrow> u32 \<Rightarrow> bytes" where
  "class_serialize class account_id collection document_id flags =
    (if flags AND WITH_SUBSPACE \<noteq> 0 then [subspace class collection] else [])
    @ class_key class account_id collection document_id"

text \<open>The keys of the property index and of the change log.\<close>

definition index_key :: "u32 \<Rightarrow> u8 \<Rightarrow> u32 \<Rightarrow> u8 \<Rightarrow> bytes \<Rightarrow> u32 \<Rightarrow> bytes" where
  "index_key account_id collection document_id field key flags =
    (if flags AND WITH_SUBSPACE \<noteq> 0 then [SUBSPACE_INDEXES] else [])
    @ be32 account_id @ collection # field # key @ be32 document_id"

definition index_key_prefix :: "u32 \<Rightarrow> u8 \<Rightarrow> u8 \<Rightarrow> u32 \<Rightarrow> bytes" where
  "index_key_prefix account_id collection field flags =
    (if flags AND WITH_SUBSPACE \<noteq> 0 then [SUBSPACE_INDEXES] else [])
    @ be32 account_id @ [collection, field]"

definition log_key :: "u32 \<Rightarrow> u8 \<Rightarrow> u64 \<Rightarrow> u32 \<Rightarrow> bytes" where
  "log_key account_id collection change_id flags =
    (if flags AND WITH_SUBSPACE \<noteq> 0 then [SUBSPACE_LOGS] else [])
    @ be32 account_id @ collection # be64 change_id"

text \<open>The report events are read back from their header keys; \<open>is_utf8\<close> validates the domain.\<close>

definition deserialize_report_event :: "(bytes \<Rightarrow> bool) \<Rightarrow> bytes \<Rightarrow> report_event option" where
  "deserialize_report_event is_utf8 key =
    Option.bind (deserialize_be_u64 key 1) (\<lambda>d.
    if length key < 17 then None else
    Option.bind (deserialize_be_u64 key (length key - 17)) (\<lambda>p.
    Option.bind (deserialize_be_u64 key (length key - 9)) (\<lambda>s.
    let domain = take (length key - 17 - 9) (drop 9 key) in
    if 9 \<le> length key - 17 \<and> is_utf8 domain
    then Some \<lparr>report_due = d, report_policy_hash = p, report_seq_id = s, report_domain = domain\<rparr>
    else None)))"

section \<open>Keys tell records apart\<close>

lemma be_append_eq [simp]:
  "be64 a @ r = be64 b @ s \<longleftrightarrow> a = b \<and> r = s" "be64 a = be64 b \<longleftrightarrow> a = b"
  "be32 c @ r = be32 d @ s \<longleftrightarrow> c = d \<and> r = s" "be32 c = be32 d \<longleftrightarrow> c = d"
  "be16 e @ r = be16 f @ s \<longleftrightarrow> e = f \<and> r = s" "be16 e = be16 f \<longleftrightarrow> e = f"
  by (auto simp: be64.encode_inject be32.encode_inject be16.encode_inject
      dest: be64.encode_prefix_free be32.encode_prefix_free be16.encode_prefix_free)

lemma leb_append_eq [simp]:
  "encode_leb128_u64 a @ r = encode_leb128_u64 b @ s \<longleftrightarrow> a = b \<and> r = s"
  "encode_leb128_u64 a = encode_leb128_u64 b \<longleftrightarrow> a = b"
  "encode_leb128_u32 c = encode_leb128_u32 d \<longleftrightarrow> c = d"
  by (auto simp: leb128_u64.encode_inject leb128_u32.encode_inject dest: leb128_u64.encode_prefix_free)

text \<open>
  Well-formed classes: blob hashes have 32 bytes and queue names eight. Raw keys, the property
  and search indexes and the share notifications are left out: their keys are kept apart by the
  fields or by the change ids of their writers.
\<close>

fun class_ok :: "value_class \<Rightarrow> bool" where
  "class_ok (Blob (BlobCommit h)) \<longleftrightarrow> length h = 32"
| "class_ok (Blob (BlobLink h _)) \<longleftrightarrow> length h = 32"
| "class_ok (Blob (BlobQuota h _)) \<longleftrightarrow> length h = 32"
| "class_ok (Blob (BlobUndelete h _)) \<longleftrightarrow> length h = 32"
| "class_ok (Blob (BlobSpamSample h _)) \<longleftrightarrow> length h = 32"
| "class_ok (Queue (MessageEvent e)) \<longleftrightarrow> length (event_queue_name e) = 8"
| "class_ok (Any _ _) \<longleftrightarrow> False"
| "class_ok (IndexProperty _) \<longleftrightarrow> False"
| "class_ok (SearchIndexClass _ _ _) \<longleftrightarrow> False"
| "class_ok (ShareNotification _ _) \<longleftrightarrow> False"
| "class_ok _ \<longleftrightarrow> True"

lemma be_snoc: "a @ be32 c = b @ be32 d \<longleftrightarrow> a = b \<and> c = d"
 "a @ be64 x = b @ be64 y \<longleftrightarrow> a = b \<and> x = y"
  by (auto simp: append_eq_append_conv)

lemmas class_splits = blob_op.splits queue_class.splits directory_class.splits in_memory_class.splits
  telemetry_class.splits if_splits

lemma queue_key_inject:
  assumes "subspace (Queue p) c = subspace (Queue q) c'" "queue_key p = queue_key q"
    "class_ok (Queue p)" "class_ok (Queue q)"
  shows "p = q"
  using assms
  by (cases p; cases q; auto simp: subspace_def subspace_defs be_snoc append_eq_append_conv intro!: report_event.equality queue_event_key.equality)

lemma blob_link_length:
  "length (blob_key a c d (BlobLink h l)) = length h + (case l of LinkId _ \<Rightarrow> 8 | LinkDocument \<Rightarrow> 9 | LinkTemporary _ \<Rightarrow> 12)"
  by (simp split: blob_link.split)

lemma blob_key_inject:
  assumes s: "subspace (Blob p) c = subspace (Blob q) c'" and k: "blob_key a c d p = blob_key a' c' d' q"
    and "class_ok (Blob p)" "class_ok (Blob q)"
  shows "p = q"
proof -
  have "length (blob_key a c d p) = length (blob_key a' c' d' q)" using k by simp
  with assms show ?thesis
  by (cases p; cases q; auto simp: subspace_def subspace_defs be_snoc append_eq_append_conv QUOTA_LINK_def UNDELETE_LINK_def SPAM_SAMPLE_LINK_def split: blob_link.splits dest: arg_cong [where f = length])
qed

lemma task_kind: "task_queue_key a d p ! 12 = (case p of UpdateIndex _ _ i \<Rightarrow> if i then 7 else 8 | SendAlarm _ _ _ e \<Rightarrow> if e then 3 else 6
    | SendImip _ p \<Rightarrow> if p then 5 else 4 | MergeThreads _ \<Rightarrow> 9)"
  by (cases p) (simp_all add: nth_append)

lemma task_key_inject:
  assumes "task_queue_key a d p = task_queue_key a' d' q"
  shows "p = q"
proof -
  have idx: "search_index_u8 i = search_index_u8 j \<Longrightarrow> i = j" for i j by (cases i; cases j) simp_all
  have "task_queue_key a d p ! 12 = task_queue_key a' d' q ! 12" using assms by simp
  then have "(case p of UpdateIndex _ _ i \<Rightarrow> if i then 7 else 8 | SendAlarm _ _ _ e \<Rightarrow> if e then 3 else 6
    | SendImip _ p \<Rightarrow> if p then 5 else 4 | MergeThreads _ \<Rightarrow> 9) = (case q of UpdateIndex _ _ i \<Rightarrow> if i then 7 else 8 | SendAlarm _ _ _ e \<Rightarrow> if e then 3 else 6
    | SendImip _ p \<Rightarrow> if p then 5 else 4 | MergeThreads _ \<Rightarrow> (9::u8))" by (simp only: task_kind)
  then show ?thesis using assms by (cases p; cases q) (auto split: if_splits dest: idx)
qed

lemma directory_key_inject: "directory_key p = directory_key q \<Longrightarrow> p = q"
  by (cases p; cases q) (auto simp: be_snoc)

lemma report_key_inject: "report_key p = report_key q \<Longrightarrow> p = q"
  by (cases p; cases q) auto

lemma telemetry_key_inject:
  "subspace (Telemetry p) c = subspace (Telemetry q) c' \<Longrightarrow> telemetry_key p = telemetry_key q \<Longrightarrow> p = q"
  by (cases p; cases q) (auto simp: subspace_def subspace_defs)

lemma class_key_inject:
  assumes "class_ok x" "class_ok y" and s: "subspace x c = subspace y c'"
    and k: "class_key x a c d = class_key y a' c' d'"
  shows "x = y"
proof -
  have l: "length (class_key x a c d) = length (class_key y a' c' d')" using k by simp
  show ?thesis
  proof (cases x)
    case (Blob p)
    with s assms(2) obtain q where "y = Blob q"
      by (cases y) (auto simp: subspace_def subspace_defs split: class_splits)
    with Blob assms blob_key_inject show ?thesis by (auto simp: class_key_def)
  next
    case (Queue p)
    with s assms(2) consider q where "y = Queue q" | u where "y = Directory (UsedQuota u)"
      by (cases y) (auto simp: subspace_def subspace_defs split: class_splits)
    then show ?thesis
    proof cases
      case 1 with Queue assms queue_key_inject show ?thesis by (auto simp: class_key_def)
    next
      case 2 with Queue s k show ?thesis by (cases p) (auto simp: class_key_def subspace_def subspace_defs)
    qed
  next
    case (Directory p)
    with s assms(2) consider q where "y = Directory q" | u where "y = Queue (QuotaCount u)" "p \<in> range UsedQuota"  | u where "y = Queue (QuotaSize u)" "p \<in> range UsedQuota"
      by (cases y) (auto simp: subspace_def subspace_defs split: class_splits)
    then show ?thesis
      by cases (use Directory k directory_key_inject in \<open>auto simp: class_key_def\<close>)
  next
    case (Property p)
    with s assms(2) l k show ?thesis
      by (cases y) (auto simp: class_key_def subspace_def subspace_defs split: class_splits)
  next
    case (TaskQueue p)
    with s assms(2) k task_key_inject show ?thesis
      by (cases y) (auto simp: class_key_def subspace_def subspace_defs split: class_splits)
  next
    case (Telemetry p)
    with s assms(2) obtain q where "y = Telemetry q"
      by (cases y) (auto simp: subspace_def subspace_defs split: class_splits)
    with Telemetry s k telemetry_key_inject show ?thesis by (auto simp: class_key_def)
  next
    case (Report p)
    with s assms(2) k report_key_inject show ?thesis
      by (cases y) (auto simp: class_key_def subspace_def subspace_defs split: class_splits)
  next
    case (InMemory p)
    with s assms(2) k show ?thesis
      by (cases y) (auto simp: class_key_def subspace_def subspace_defs split: class_splits)
  next
    case (Config p)
    with s assms(2) k show ?thesis
      by (cases y) (auto simp: class_key_def subspace_def subspace_defs split: class_splits)
  next
    case (Acl p)
    with s assms(2) k show ?thesis
      by (cases y) (auto simp: class_key_def subspace_def subspace_defs split: class_splits)
  next
    case DocumentId
    with s assms(2) l show ?thesis
      by (cases y) (auto simp: class_key_def subspace_def subspace_defs split: class_splits)
  next
    case ChangeId
    with s assms(2) l show ?thesis
      by (cases y) (auto simp: class_key_def subspace_def subspace_defs split: class_splits)
  qed (use assms(1) in auto)
qed

text \<open>The events of the message queue are ordered by due time.\<close>

lemma key_less_event: "class_ok (Queue (MessageEvent e)) \<Longrightarrow> class_ok (Queue (MessageEvent f)) \<Longrightarrow>
  key_less (queue_key (MessageEvent e)) (queue_key (MessageEvent f)) \<longleftrightarrow>
  event_due e < event_due f \<or> event_due e = event_due f \<and> (event_queue_id e < event_queue_id f \<or>
   event_queue_id e = event_queue_id f \<and> key_less (event_queue_name e) (event_queue_name f))"
  by (simp add: key_less_be64)

lemma deserialize_report_header:
  assumes "is_utf8 (report_domain e)"
  shows "deserialize_report_event is_utf8 (queue_key (DmarcReportHeader e)) = Some e" "deserialize_report_event is_utf8 (queue_key (TlsReportHeader e)) = Some e"
proof -
  have *: "deserialize_report_event is_utf8 (0 # be64 (report_due e) @ report_domain e @ be64 (report_policy_hash e) @ be64 (report_seq_id e) @ [t]) = Some e" for t
    using deserialize_be(3) [of "[0]" 1 "report_due e" "report_domain e @ be64 (report_policy_hash e) @ be64 (report_seq_id e) @ [t]"]
      deserialize_be(3) [of "0 # be64 (report_due e) @ report_domain e" "length (report_domain e) + 9" "report_policy_hash e" "be64 (report_seq_id e) @ [t]"]
     deserialize_be(3) [of "0 # be64 (report_due e) @ report_domain e @ be64 (report_policy_hash e)" "length (report_domain e) + 17" "report_seq_id e" "[t]"] assms
    by (simp add: deserialize_report_event_def add.commute [of 9] add.commute [of 17])
  show "deserialize_report_event is_utf8 (queue_key (DmarcReportHeader e)) = Some e" "deserialize_report_event is_utf8 (queue_key (TlsReportHeader e)) = Some e"
   using * by simp_all
qed

section \<open>Properties\<close>

text \<open>
  Different classes of a document have different keys: two well-formed value classes that are
  stored in the same subspace and serialize to the same key, whatever the accounts, collections
  and documents, are the same class, so no value can overwrite one of another class.
\<close>

theorem class_keys_distinct:
  assumes "class_ok x" and "class_ok y" and "subspace x c = subspace y c'"
    and "class_key x a c d = class_key y a' c' d'"
  shows "x = y"
  by (rule class_key_inject [OF assms])

theorem class_keys_distinct_witness:
  "class_key (Queue (QueueMessage 5)) 1 2 3 \<noteq> class_key (Queue (QueueMessage 6)) 1 2 3"
proof
  assume "class_key (Queue (QueueMessage 5)) 1 2 3 = class_key (Queue (QueueMessage 6)) 1 2 3"
  from class_keys_distinct [OF _ _ _ this] have "QueueMessage 5 = QueueMessage 6"
    by (simp add: subspace_def)
  then show False by simp
qed

text \<open>
  The queue is stored in order of time: of two queue events the one that is due first has the
  smaller key, then the smaller queue id, then the smaller queue name, so that a scan of the keys
  up to a time finds the events that are due then.
\<close>

theorem queue_events_ordered:
  assumes "length (event_queue_name e) = 8" and "length (event_queue_name f) = 8"
  shows "key_less (queue_key (MessageEvent e)) (queue_key (MessageEvent f)) \<longleftrightarrow>
    event_due e < event_due f \<or> event_due e = event_due f \<and> (event_queue_id e < event_queue_id f \<or>
     event_queue_id e = event_queue_id f \<and> key_less (event_queue_name e) (event_queue_name f))"
  using assms by (intro key_less_event) simp_all

theorem queue_events_ordered_witness:
  "key_less (queue_key (MessageEvent \<lparr>event_due = 255, event_queue_id = 9, event_queue_name = replicate 8 65\<rparr>))
            (queue_key (MessageEvent \<lparr>event_due = 256, event_queue_id = 1, event_queue_name = replicate 8 65\<rparr>))"
  using queue_events_ordered [of "\<lparr>event_due = 255, event_queue_id = 9, event_queue_name = replicate 8 65\<rparr>"
      "\<lparr>event_due = 256, event_queue_id = 1, event_queue_name = replicate 8 65\<rparr>"] by simp

text \<open>
  A report event is read back from its header key, for both kinds of reports and any domain
  that is valid text.
\<close>

theorem report_event_roundtrip:
  assumes "is_utf8 (report_domain e)"
  shows "deserialize_report_event is_utf8 (queue_key (DmarcReportHeader e)) = Some e
    \<and> deserialize_report_event is_utf8 (queue_key (TlsReportHeader e)) = Some e"
  using deserialize_report_header [of is_utf8 e, OF assms] by blast

theorem report_event_roundtrip_witness:
  "deserialize_report_event (\<lambda>bs. \<forall>b \<in> set bs. b < 128)
     (queue_key (TlsReportHeader \<lparr>report_due = 7, report_policy_hash = 8, report_seq_id = 9, report_domain = [97, 46]\<rparr>))
     = Some \<lparr>report_due = 7, report_policy_hash = 8, report_seq_id = 9, report_domain = [97, 46]\<rparr>"
  using report_event_roundtrip [of "\<lambda>bs. \<forall>b \<in> set bs. b < 128"
      "\<lparr>report_due = 7, report_policy_hash = 8, report_seq_id = 9, report_domain = [97, 46]\<rparr>"] by simp

end
