(* ===== verification/Containers.thy ===== *)
theory Containers
  imports Prelude
begin

text \<open>
  The small containers of \<open>crates/utils/src/map\<close>: \<open>VecMap\<close>, a map kept as a vector of entries, and
  \<open>Bitmap\<close>, a set of at most 64 items kept in a word. The locales state what their clients rely
  on; the interpretations discharge them for the two types.
\<close>

section \<open>Contracts\<close>

locale map_interface =
  fixes empty :: 'm
    and lookup :: "'m \<Rightarrow> 'k \<Rightarrow> 'v option"
    and update :: "'k \<Rightarrow> 'v \<Rightarrow> 'm \<Rightarrow> 'm"
    and delete :: "'k \<Rightarrow> 'm \<Rightarrow> 'm"
    and invar :: "'m \<Rightarrow> bool"
  assumes invar_empty: "invar empty"
    and invar_update: "invar m \<Longrightarrow> invar (update k v m)"
    and invar_delete: "invar m \<Longrightarrow> invar (delete k m)"
    and lookup_empty: "lookup empty k = None"
    and lookup_update: "lookup (update k v m) = (lookup m)(k \<mapsto> v)"
    and lookup_delete: "invar m \<Longrightarrow> lookup (delete k m) = (lookup m)(k := None)"
begin

lemma lookup_fold_update:
  "lookup (fold (\<lambda>(k, v). update k v) kvs m) = lookup m ++ map_of (rev kvs)"
  by (induction kvs arbitrary: m) (auto simp: lookup_update map_add_def fun_eq_iff split: option.splits)

lemma invar_fold_update: "invar m \<Longrightarrow> invar (fold (\<lambda>(k, v). update k v) kvs m)"
  by (induction kvs arbitrary: m) (auto simp: invar_update)

lemma update_delete: "invar m \<Longrightarrow> lookup (delete k (update k v m)) = (lookup m)(k := None)"
  by (simp add: lookup_delete invar_update lookup_update)

end

locale set_interface =
  fixes empty :: 's
    and member :: "'s \<Rightarrow> 'a \<Rightarrow> bool"
    and insert_item :: "'a \<Rightarrow> 's \<Rightarrow> 's"
    and items :: "'s \<Rightarrow> 'a list"
    and valid :: "'a \<Rightarrow> bool"
  assumes member_empty: "valid a \<Longrightarrow> \<not> member empty a"
    and member_insert: "valid a \<Longrightarrow> valid b \<Longrightarrow> member (insert_item a s) b \<longleftrightarrow> b = a \<or> member s b"
    and items_member: "set (items s) = {a. valid a \<and> member s a}"
    and items_distinct: "distinct (items s)"
begin

lemma member_fold_insert:
  "(\<forall>a \<in> set xs. valid a) \<Longrightarrow> valid b \<Longrightarrow> member (fold insert_item xs s) b \<longleftrightarrow> b \<in> set xs \<or> member s b"
  by (induction xs arbitrary: s) (auto simp: member_insert)

lemma items_fold_insert:
  assumes "\<forall>a \<in> set xs. valid a"
  shows "set (items (fold insert_item xs empty)) = set xs"
  using assms by (auto simp: items_member member_fold_insert member_empty)

end

section \<open>Vector maps\<close>

type_synonym ('k, 'v) vec_map = "('k \<times> 'v) list"

fun vec_get :: "('k, 'v) vec_map \<Rightarrow> 'k \<Rightarrow> 'v option" where
  "vec_get [] key = None"
| "vec_get ((k, v) # m) key = (if k = key then Some v else vec_get m key)"

fun vec_has :: "('k, 'v) vec_map \<Rightarrow> 'k \<Rightarrow> bool" where
  "vec_has [] key \<longleftrightarrow> False"
| "vec_has ((k, _) # m) key \<longleftrightarrow> k = key \<or> vec_has m key"

text \<open>\<open>set\<close> returns whether the key is new.\<close>

fun vec_set :: "'k \<Rightarrow> 'v \<Rightarrow> ('k, 'v) vec_map \<Rightarrow> ('k, 'v) vec_map \<times> bool" where
  "vec_set key val [] = ([(key, val)], True)"
| "vec_set key val ((k, v) # m) =
    (if k = key then ((k, val) # m, False)
     else (case vec_set key val m of (m', fresh) \<Rightarrow> ((k, v) # m', fresh)))"

definition vec_append :: "'k \<Rightarrow> 'v \<Rightarrow> ('k, 'v) vec_map \<Rightarrow> ('k, 'v) vec_map" where
  "vec_append key val m = m @ [(key, val)]"

text \<open>\<open>insert\<close> at an index: \<open>None\<close> is the panic of \<open>Vec::insert\<close> beyond the end.\<close>

definition vec_insert :: "nat \<Rightarrow> 'k \<Rightarrow> 'v \<Rightarrow> ('k, 'v) vec_map \<Rightarrow> ('k, 'v) vec_map option" where
  "vec_insert i key val m =
    (if i \<le> length m then Some (take i m @ (key, val) # drop i m) else None)"

text \<open>\<open>remove\<close> and \<open>remove_entry\<close> take the first entry of the key out.\<close>

fun vec_remove :: "'k \<Rightarrow> ('k, 'v) vec_map \<Rightarrow> ('k, 'v) vec_map \<times> 'v option" where
  "vec_remove key [] = ([], None)"
| "vec_remove key ((k, v) # m) =
    (if k = key then (m, Some v) else (case vec_remove key m of (m', r) \<Rightarrow> ((k, v) # m', r)))"

definition vec_remove_entry :: "'k \<Rightarrow> ('k, 'v) vec_map \<Rightarrow> ('k, 'v) vec_map \<times> ('k \<times> 'v) option" where
  "vec_remove_entry key m = (case vec_remove key m of (m', r) \<Rightarrow> (m', map_option (\<lambda>v. (key, v)) r))"

definition vec_remove_all :: "'k \<Rightarrow> ('k, 'v) vec_map \<Rightarrow> ('k, 'v) vec_map" where
  "vec_remove_all key m = filter (\<lambda>(k, _). k \<noteq> key) m"

text \<open>\<open>swap_remove\<close>: the last entry takes the place of the removed one.\<close>

definition vec_swap_remove :: "nat \<Rightarrow> ('k, 'v) vec_map \<Rightarrow> (('k, 'v) vec_map \<times> 'v) option" where
  "vec_swap_remove i m =
    (if i < length m then Some (butlast (m[i := last m]), snd (m ! i)) else None)"

text \<open>
  \<open>get_mut_or_insert_with\<close>, whose caller changes the value in place by \<open>f\<close>; \<open>get_mut_or_insert\<close>
  is the same with the default of the value type.
\<close>

fun vec_modify :: "'k \<Rightarrow> 'v \<Rightarrow> ('v \<Rightarrow> 'v) \<Rightarrow> ('k, 'v) vec_map \<Rightarrow> ('k, 'v) vec_map" where
  "vec_modify key dflt f [] = [(key, f dflt)]"
| "vec_modify key dflt f ((k, v) # m) =
    (if k = key then (k, f v) # m else (k, v) # vec_modify key dflt f m)"

definition vec_from_iter :: "('k \<times> 'v) list \<Rightarrow> ('k, 'v) vec_map" where
  "vec_from_iter kvs = foldl (\<lambda>m (k, v). vec_append k v m) [] kvs"

definition vec_iter_by_key :: "('k, 'v) vec_map \<Rightarrow> 'k \<Rightarrow> 'v list" where
  "vec_iter_by_key m key = map snd (filter (\<lambda>(k, _). k = key) m)"

lemma vec_get_map_of: "vec_get m = map_of m"
proof
  show "vec_get m k = map_of m k" for k by (induction m k rule: vec_get.induct) auto
qed

lemma vec_has_get: "vec_has m key \<longleftrightarrow> vec_get m key \<noteq> None"
  by (induction m key rule: vec_has.induct) auto

lemma vec_set_new: "snd (vec_set key val m) \<longleftrightarrow> \<not> vec_has m key"
  by (induction key val m rule: vec_set.induct) (auto split: prod.splits)

lemma vec_get_set: "vec_get (fst (vec_set key val m)) = (vec_get m)(key \<mapsto> val)"
proof
  show "vec_get (fst (vec_set key val m)) k = ((vec_get m)(key \<mapsto> val)) k" for k
    by (induction key val m rule: vec_set.induct) (auto split: prod.splits)
qed

lemma vec_get_modify:
  "vec_get (vec_modify key d f m) = (vec_get m)(key \<mapsto> f (case vec_get m key of Some v \<Rightarrow> v | None \<Rightarrow> d))"
proof
  show "vec_get (vec_modify key d f m) k
      = ((vec_get m)(key \<mapsto> f (case vec_get m key of Some v \<Rightarrow> v | None \<Rightarrow> d))) k" for k
    by (induction key d f m rule: vec_modify.induct) (auto split: prod.splits)
qed

lemma keys_vec_set: "map fst (fst (vec_set key val m)) = map fst m @ (if vec_has m key then [] else [key])"
  by (induction key val m rule: vec_set.induct) (auto split: prod.splits)

lemma keys_vec_modify: "map fst (vec_modify key d f m) = map fst m @ (if vec_has m key then [] else [key])"
  by (induction key d f m rule: vec_modify.induct) (auto split: prod.splits)

lemma vec_has_keys: "vec_has m key \<longleftrightarrow> key \<in> set (map fst m)"
  by (induction m key rule: vec_has.induct) auto

lemma vec_remove_Cons:
  "fst (vec_remove key ((k, v) # m)) = (if k = key then m else (k, v) # fst (vec_remove key m))"
  by (simp split: prod.split)

lemma vec_remove_Nil: "fst (vec_remove key []) = []"
  by simp

lemmas vec_remove_rules = vec_remove_Nil vec_remove_Cons

lemma set_vec_remove: "set (fst (vec_remove key m)) \<subseteq> set m"
  by (induction m) (auto simp del: vec_remove.simps simp: vec_remove_rules split: if_splits)

lemma distinct_remove: "distinct (map fst m) \<Longrightarrow> distinct (map fst (fst (vec_remove key m)))"
proof (induction m)
  case (Cons p m)
  then show ?case using set_vec_remove [of key m]
    by (cases p) (auto simp del: vec_remove.simps simp: vec_remove_rules image_iff)
qed simp

lemma vec_get_None: "vec_get m k = None \<longleftrightarrow> k \<notin> set (map fst m)"
  using vec_has_get [of m k] vec_has_keys [of m k] by auto

lemma vec_get_remove: "distinct (map fst m) \<Longrightarrow> vec_get (fst (vec_remove key m)) k = ((vec_get m)(key := None)) k"
proof (induction m)
  case (Cons p m)
  then show ?case
    using vec_get_None [of m key]
    by (cases p) (auto simp del: vec_remove.simps simp: vec_remove_rules)
qed simp

interpretation vec_map: map_interface "[]" vec_get "\<lambda>k v m. fst (vec_set k v m)"
    "\<lambda>k m. fst (vec_remove k m)" "\<lambda>m. distinct (map fst m)"
  by unfold_locales
    (auto simp: vec_get_set vec_get_remove fun_eq_iff keys_vec_set vec_has_keys distinct_remove simp del: set_map)

lemma vec_remove_all_get: "vec_get (vec_remove_all key m) = (vec_get m)(key := None)"
proof
  show "vec_get (vec_remove_all key m) k = ((vec_get m)(key := None)) k" for k
    by (induction m) (auto simp: vec_remove_all_def)
qed

section \<open>Bitmaps\<close>

text \<open>
  An item is its number. \<open>1 << item\<close> on \<open>u64\<close> takes the shift modulo 64 in the release build.
\<close>

definition bitmap_bit :: "u64 \<Rightarrow> u64" where
  "bitmap_bit item = push_bit (unat item mod 64) 1"

definition bitmap_insert :: "u64 \<Rightarrow> u64 \<Rightarrow> u64" where
  "bitmap_insert item b = b OR bitmap_bit item"

definition bitmap_union :: "u64 \<Rightarrow> u64 \<Rightarrow> u64" where
  "bitmap_union items b = b OR items"

definition bitmap_intersection :: "u64 \<Rightarrow> u64 \<Rightarrow> u64" where
  "bitmap_intersection items b = b AND items"

definition bitmap_remove :: "u64 \<Rightarrow> u64 \<Rightarrow> u64" where
  "bitmap_remove item b = b XOR bitmap_bit item"

definition bitmap_contains :: "u64 \<Rightarrow> u64 \<Rightarrow> bool" where
  "bitmap_contains b item \<longleftrightarrow> b AND bitmap_bit item \<noteq> 0"

fun bitmap_contains_any :: "u64 \<Rightarrow> u64 list \<Rightarrow> bool" where
  "bitmap_contains_any b [] \<longleftrightarrow> False"
| "bitmap_contains_any b (item # items) \<longleftrightarrow>
    (if b AND bitmap_bit item \<noteq> 0 then True else bitmap_contains_any b items)"

definition bitmap_contains_all :: "u64 \<Rightarrow> u64 list \<Rightarrow> bool" where
  "bitmap_contains_all b items \<longleftrightarrow>
    (if b \<noteq> 0 then (\<forall>item \<in> set items. b AND bitmap_bit item \<noteq> 0) else False)"

definition bitmap_all :: "nat \<Rightarrow> u64" where
  "bitmap_all mx = drop_bit (64 - mx) (- 1)"

text \<open>\<open>63 - leading_zeros()\<close>: the number of the highest bit.\<close>

definition highest_bit :: "u64 \<Rightarrow> nat" where
  "highest_bit b = last (filter (bit b) [0..<64])"

definition bitmap_pop :: "u64 \<Rightarrow> (u64 \<times> u64) option" where
  "bitmap_pop b =
    (if b \<noteq> 0 then Some (word_of_nat (highest_bit b), b XOR push_bit (highest_bit b) 1) else None)"

text \<open>\<open>From<Vec<T>>\<close> keeps the valid items; a bitmap is read back by popping.\<close>

definition bitmap_from_list :: "(u64 \<Rightarrow> bool) \<Rightarrow> u64 list \<Rightarrow> u64" where
  "bitmap_from_list is_valid items =
    foldl (\<lambda>b item. if is_valid item then bitmap_insert item b else b) 0 items"

lemma highest_bit:
  assumes "b \<noteq> 0"
  shows "bit b (highest_bit b)" and "bit b i \<Longrightarrow> i \<le> highest_bit b" and "highest_bit b < 64"
proof -
  have ex: "filter (bit b) [0..<64] \<noteq> []"
  proof
    assume e: "filter (bit b) [0..<64] = []"
    have "b = 0"
    proof (rule bit_word_eqI)
      fix n assume "n < LENGTH(64)"
      with e show "bit b n = bit 0 n" by (auto simp: filter_empty_conv)
    qed
    with assms show False by simp
  qed
  then have "highest_bit b \<in> set (filter (bit b) [0..<64])"
    unfolding highest_bit_def by (rule last_in_set)
  then show "bit b (highest_bit b)" "highest_bit b < 64" by simp_all
  show "i \<le> highest_bit b" if "bit b i"
  proof -
    have "i < 64" using that bit_imp_le_length [of b i] by simp
    with that have i: "i \<in> set (filter (bit b) [0..<64])" by simp
    have "sorted (filter (bit b) [0..<64])" by (intro sorted_wrt_filter) simp
    then have "\<And>j. j \<in> set (butlast (filter (bit b) [0..<64])) \<Longrightarrow> j \<le> highest_bit b"
      using ex unfolding highest_bit_def
      by (metis (no_types, lifting) append_butlast_last_id list.set_intros(1) sorted_wrt_append)
    with i show ?thesis
      by (metis (no_types, lifting) Un_iff append_butlast_last_id append_is_Nil_conv ex highest_bit_def
          le_refl list.set(1) list.set(2) set_append singletonD)
  qed
qed

lemma bitmap_pop_bits:
  assumes "bitmap_pop b = Some (item, b')"
  shows "item = word_of_nat (highest_bit b)" and "bit b' i \<longleftrightarrow> bit b i \<and> i \<noteq> highest_bit b" and "b \<noteq> 0"
proof -
  from assms have b: "b \<noteq> 0" "item = word_of_nat (highest_bit b)" "b' = b XOR push_bit (highest_bit b) 1"
    by (auto simp: bitmap_pop_def split: if_splits)
  then show "item = word_of_nat (highest_bit b)" "b \<noteq> 0" by simp_all
  show "bit b' i \<longleftrightarrow> bit b i \<and> i \<noteq> highest_bit b"
    using highest_bit(1) [OF b(1)] highest_bit(3) [OF b(1)] unfolding b(3)
    by (auto simp: bit_simps dest: bit_imp_le_length)
qed

definition bit_set :: "u64 \<Rightarrow> nat set" where "bit_set b = {i. i < 64 \<and> bit b i}"

lemma bit_set_pop:
  assumes "bitmap_pop b = Some (item, b')"
  shows "bit_set b' = bit_set b - {highest_bit b}" and "highest_bit b \<in> bit_set b"
  using bitmap_pop_bits [OF assms] highest_bit by (auto simp: bit_set_def)

lemma finite_bit_set [simp]: "finite (bit_set b)"
  by (simp add: bit_set_def)

function bitmap_items :: "u64 \<Rightarrow> u64 list" where
  "bitmap_items b = (case bitmap_pop b of None \<Rightarrow> [] | Some (item, b') \<Rightarrow> item # bitmap_items b')"
  by auto
termination
proof (relation "measure (\<lambda>b. card (bit_set b))")
  fix b p item b' assume "bitmap_pop b = Some p" "(item, b') = p"
  then have p: "bitmap_pop b = Some (item, b')" by simp
  have "card (bit_set b - {highest_bit b}) < card (bit_set b)"
    by (rule card_Diff1_less) (simp_all add: bit_set_pop(2) [OF p])
  with bit_set_pop(1) [OF p] show "(b', b) \<in> measure (\<lambda>b. card (bit_set b))" by simp
qed simp

declare bitmap_items.simps [simp del]

lemma bitmap_contains_bit: "item < 64 \<Longrightarrow> bitmap_contains b item \<longleftrightarrow> unat item \<in> bit_set b"
proof -
  assume i: "item < 64"
  then have u: "unat item < 64" by (simp add: word_less_nat_alt)
  have "b AND bitmap_bit item \<noteq> 0 \<longleftrightarrow> bit b (unat item)"
    using u and_exp_eq_0_iff_not_bit [of b "unat item"] by (simp add: bitmap_bit_def push_bit_eq_mult)
  with u show ?thesis by (simp add: bitmap_contains_def bit_set_def)
qed

lemma bit_set_insert: "item < 64 \<Longrightarrow> bit_set (bitmap_insert item b) = insert (unat item) (bit_set b)"
proof -
  assume "item < 64"
  then have "unat item < 64" by (simp add: word_less_nat_alt)
  then show ?thesis by (auto simp: bit_set_def bitmap_insert_def bitmap_bit_def bit_simps)
qed

lemma bitmap_items_set: "set (bitmap_items b) = word_of_nat ` bit_set b"
proof (induction b rule: bitmap_items.induct)
  case (1 b)
  show ?case
  proof (cases "bitmap_pop b")
    case None
    then have "b = 0" by (auto simp: bitmap_pop_def split: if_splits)
    then show ?thesis using None by (subst bitmap_items.simps) (simp add: bit_set_def)
  next
    case (Some p)
    then obtain item b' where p: "bitmap_pop b = Some (item, b')" by (cases p) auto
    from 1 [OF Some] p Some have "set (bitmap_items b') = word_of_nat ` bit_set b'" by (cases p) auto
    with p bit_set_pop [OF p] bitmap_pop_bits(1) [OF p] show ?thesis
      by (subst bitmap_items.simps) auto
  qed
qed

text \<open>The items come out in descending order, each once.\<close>

lemma bitmap_items_descending: "sorted_wrt (\<lambda>a b. unat b < unat a) (bitmap_items b)"
proof (induction b rule: bitmap_items.induct)
  case (1 b)
  show ?case
  proof (cases "bitmap_pop b")
    case None
    then show ?thesis by (subst bitmap_items.simps) simp
  next
    case (Some p)
    then obtain item b' where p: "bitmap_pop b = Some (item, b')" by (cases p) auto
    have b0: "b \<noteq> 0" using bitmap_pop_bits(3) [OF p] .
    have unat: "unat (word_of_nat i :: u64) = i" if "i < 64" for i
      using that by (simp add: unat_of_nat take_bit_nat_eq_self)
    have "unat x < unat item" if "x \<in> set (bitmap_items b')" for x
    proof -
      from that obtain i where i: "i \<in> bit_set b'" "x = word_of_nat i"
        by (auto simp: bitmap_items_set)
      then have "bit b i" "i \<noteq> highest_bit b" "i < 64" using bit_set_pop(1) [OF p] by (auto simp: bit_set_def)
      with highest_bit(2,3) [OF b0] have "i < highest_bit b" by (meson le_neq_implies_less)
      with i(2) \<open>i < 64\<close> highest_bit(3) [OF b0] bitmap_pop_bits(1) [OF p] show ?thesis
        by (simp add: unat)
    qed
    moreover have "sorted_wrt (\<lambda>a b. unat b < unat a) (bitmap_items b')"
      using 1 [OF Some, of item b'] Some p by simp
    ultimately show ?thesis using p by (subst bitmap_items.simps) simp
  qed
qed

interpretation bitmap: set_interface 0 bitmap_contains bitmap_insert bitmap_items "\<lambda>i. i < 64"
proof unfold_locales
  fix a b :: u64 and s assume ab: "a < 64" "b < 64"
  then show "bitmap_contains (bitmap_insert a s) b \<longleftrightarrow> b = a \<or> bitmap_contains s b"
    by (auto simp: bitmap_contains_bit bit_set_insert word_unat_eq_iff)
next
  fix a :: u64 assume "a < 64" then show "\<not> bitmap_contains 0 a"
    by (simp add: bitmap_contains_bit bit_set_def)
next
  fix s
  show "set (bitmap_items s) = {a. a < 64 \<and> bitmap_contains s a}"
  proof (intro set_eqI iffI)
    fix x assume "x \<in> set (bitmap_items s)"
    then obtain i where i: "i \<in> bit_set s" "x = word_of_nat i" by (auto simp: bitmap_items_set)
    then have "i < 64" by (simp add: bit_set_def)
    then have "unat x = i" using i(2) by (simp add: unat_of_nat take_bit_nat_eq_self)
    with i \<open>i < 64\<close> show "x \<in> {a. a < 64 \<and> bitmap_contains s a}"
      by (simp add: bitmap_contains_bit word_less_nat_alt)
  next
    fix x assume "x \<in> {a. a < 64 \<and> bitmap_contains s a}"
    then have "x < 64" "bitmap_contains s x" by simp_all
    with bitmap_contains_bit [of x s] have "unat x \<in> bit_set s" by blast
    moreover have "x = word_of_nat (unat x)" by simp
    ultimately show "x \<in> set (bitmap_items s)" unfolding bitmap_items_set by blast
  qed
  show "distinct (bitmap_items s)"
    using bitmap_items_descending [of s] unfolding distinct_conv_nth sorted_wrt_iff_nth_less
    by (metis less_irrefl nat_neq_iff)
qed

text \<open>Removing toggles the bit: it removes an item that is there, and inserts one that is not.\<close>

lemma bit_set_remove:
  "item < 64 \<Longrightarrow> bit_set (bitmap_remove item b)
     = (if unat item \<in> bit_set b then bit_set b - {unat item} else insert (unat item) (bit_set b))"
proof -
  assume "item < 64"
  then have "unat item < 64" by (simp add: word_less_nat_alt)
  then show ?thesis by (auto simp: bit_set_def bitmap_remove_def bitmap_bit_def bit_simps)
qed

section \<open>Properties\<close>

text \<open>
  Building a bitmap from a list and reading its items back is a sort: the items come out in
  strictly descending order, so each once, and they are exactly the valid items of the list.
\<close>

theorem bitmap_from_list_items:
  assumes "\<forall>i \<in> set xs. is_valid i \<longrightarrow> i < 64"
  shows "set (bitmap_items (bitmap_from_list is_valid xs)) = {i \<in> set xs. is_valid i}
    \<and> sorted_wrt (\<lambda>a b. unat b < unat a) (bitmap_items (bitmap_from_list is_valid xs))"
proof -
  let ?f = "\<lambda>b item. if is_valid item then bitmap_insert item b else b"
  have "\<forall>i \<in> set xs. is_valid i \<longrightarrow> i < 64 \<Longrightarrow>
      {a. a < 64 \<and> bitmap_contains (foldl ?f b xs) a} = {a. a < 64 \<and> bitmap_contains b a} \<union> {i \<in> set xs. is_valid i}" for b
  proof (induction xs arbitrary: b)
    case (Cons x xs)
    have "{a. a < 64 \<and> bitmap_contains (?f b x) a}
        = {a. a < 64 \<and> bitmap_contains b a} \<union> (if is_valid x then {x} else {})"
      using Cons.prems bitmap.member_insert [of x _ b] by auto
    with Cons.IH [of "?f b x"] Cons.prems show ?case by auto
  qed simp
  from this [OF assms, of 0] have "{a. a < 64 \<and> bitmap_contains (bitmap_from_list is_valid xs) a} = {i \<in> set xs. is_valid i}"
    using assms bitmap.member_empty unfolding bitmap_from_list_def by auto
  then show ?thesis using bitmap.items_member bitmap_items_descending by simp
qed

theorem bitmap_from_list_items_witness:
  "bitmap_items (bitmap_from_list (\<lambda>i. i < 64) [3, 70, 9, 3]) = [9, 3]"
proof -
  have "\<forall>i \<in> set [3, 70, 9, 3 :: u64]. i < 64 \<longrightarrow> i < 64" by blast
  note s = bitmap_from_list_items [OF this]
  have "l = [9, 3]" if "set l = {i \<in> set [3, 70, 9, 3 :: u64]. i < 64}" "sorted_wrt (\<lambda>a b. unat b < unat a) l" for l
  proof -
    have "filter (\<lambda>i. i < 64) [3, 70, 9, 3 :: u64] = [3, 9, 3]" by simp
    with that(1) have m: "set l = {9, 3}" unfolding set_filter [symmetric] by (simp add: insert_commute)
    from that(2) have "distinct l"
      unfolding distinct_conv_nth sorted_wrt_iff_nth_less by (metis less_irrefl nat_neq_iff)
    then have "length l = 2" using distinct_card [of l] m by simp
    then obtain x y where l: "l = [x, y]" by (auto simp: length_Suc_conv numeral_2_eq_2)
    with m that(2) show ?thesis by (auto simp: doubleton_eq_iff)
  qed
  from this [OF conjunct1 [OF s] conjunct2 [OF s]] show ?thesis .
qed

text \<open>
  Removing an item from a bitmap toggles its bit: an item that is there is removed, but an item
  that is not there is inserted.
\<close>

theorem bitmap_remove_toggles:
  assumes "item < 64"
  shows "bitmap_contains (bitmap_remove item b) item \<longleftrightarrow> \<not> bitmap_contains b item"
  using assms by (simp add: bitmap_contains_bit bit_set_remove)

theorem bitmap_remove_toggles_witness: "bitmap_contains (bitmap_remove 5 0) 5"
  using bitmap_remove_toggles [of 5 0] by (simp add: bitmap_contains_def)

end
