(* ===== verification/Store_Log.thy ===== *)
theory Store_Log
  imports Store_Key Containers
begin

text \<open>
  The change log of an account: what a batch records of every collection
  (\<open>crates/store/src/write/log.rs\<close>), its bytes, and how a sequence of log entries is read back as
  the list of changes since a state (\<open>crates/store/src/query/log.rs\<close>).

  A hash set is a list without duplicates. The order in which a hash set is written is not
  specified; the theorems hold for every order.
\<close>

section \<open>Recording changes\<close>

datatype vanished_item = VanishedName bytes | VanishedId u64 | VanishedIdPair u32 u32

record change_sets =
  item_inserts :: "u64 list"
  item_updates :: "u64 list"
  item_deletes :: "u64 list"
  container_inserts :: "u32 list"
  container_updates :: "u32 list"
  container_deletes :: "u32 list"
  container_property_changes :: "u32 list"

definition no_changes :: change_sets where
  "no_changes = \<lparr>item_inserts = [], item_updates = [], item_deletes = [], container_inserts = [],
     container_updates = [], container_deletes = [], container_property_changes = []\<rparr>"

record change_log =
  log_changes :: "(sync_collection, change_sets) vec_map"
  log_vanished :: "(vanished_collection, vanished_item list) vec_map"

definition empty_change_log :: change_log where
  "empty_change_log = \<lparr>log_changes = [], log_vanished = []\<rparr>"

definition build_id :: "u32 option \<Rightarrow> u32 \<Rightarrow> u64" where
  "build_id prefix document_id =
    (case prefix of Some p \<Rightarrow> push_bit 32 (ucast p) OR ucast document_id | None \<Rightarrow> ucast document_id)"

definition modify_changes ::
  "sync_collection \<Rightarrow> (change_sets \<Rightarrow> change_sets) \<Rightarrow> change_log \<Rightarrow> change_log" where
  "modify_changes collection f cl = cl\<lparr>log_changes := vec_modify collection no_changes f (log_changes cl)\<rparr>"

definition container_insert :: "u32 \<Rightarrow> change_sets \<Rightarrow> change_sets" where
  "container_insert document_id c =
    (if document_id \<in> set (container_deletes c)
     then c\<lparr>container_deletes := removeAll document_id (container_deletes c),
            container_updates := List.insert document_id (container_updates c)\<rparr>
     else c\<lparr>container_inserts := List.insert document_id (container_inserts c)\<rparr>)"

definition item_insert :: "u64 \<Rightarrow> change_sets \<Rightarrow> change_sets" where
  "item_insert i c =
    (if i \<in> set (item_deletes c)
     then c\<lparr>item_deletes := removeAll i (item_deletes c), item_updates := List.insert i (item_updates c)\<rparr>
     else c\<lparr>item_inserts := List.insert i (item_inserts c)\<rparr>)"

definition container_update :: "u32 \<Rightarrow> change_sets \<Rightarrow> change_sets" where
  "container_update document_id c =
    c\<lparr>container_updates := List.insert document_id (container_updates c)\<rparr>"

definition container_property_update :: "u32 \<Rightarrow> change_sets \<Rightarrow> change_sets" where
  "container_property_update document_id c =
    c\<lparr>container_property_changes := List.insert document_id (container_property_changes c)\<rparr>"

definition item_update :: "u64 \<Rightarrow> change_sets \<Rightarrow> change_sets" where
  "item_update i c = c\<lparr>item_updates := List.insert i (item_updates c)\<rparr>"

definition container_delete :: "u32 \<Rightarrow> change_sets \<Rightarrow> change_sets" where
  "container_delete i c =
    c\<lparr>container_updates := removeAll i (container_updates c),
      container_property_changes := removeAll i (container_property_changes c),
      container_deletes := List.insert i (container_deletes c)\<rparr>"

definition item_delete :: "u64 \<Rightarrow> change_sets \<Rightarrow> change_sets" where
  "item_delete i c =
    c\<lparr>item_updates := removeAll i (item_updates c), item_deletes := List.insert i (item_deletes c)\<rparr>"

definition log_container_insert :: "sync_collection \<Rightarrow> u32 \<Rightarrow> change_log \<Rightarrow> change_log" where
  "log_container_insert collection document_id = modify_changes collection (container_insert document_id)"

definition log_item_insert :: "sync_collection \<Rightarrow> u32 option \<Rightarrow> u32 \<Rightarrow> change_log \<Rightarrow> change_log" where
  "log_item_insert collection prefix document_id =
    modify_changes collection (item_insert (build_id prefix document_id))"

definition log_container_update :: "sync_collection \<Rightarrow> u32 \<Rightarrow> change_log \<Rightarrow> change_log" where
  "log_container_update collection document_id = modify_changes collection (container_update document_id)"

definition log_container_property_update :: "sync_collection \<Rightarrow> u32 \<Rightarrow> change_log \<Rightarrow> change_log" where
  "log_container_property_update collection document_id =
    modify_changes collection (container_property_update document_id)"

definition log_item_update :: "sync_collection \<Rightarrow> u32 option \<Rightarrow> u32 \<Rightarrow> change_log \<Rightarrow> change_log" where
  "log_item_update collection prefix document_id =
    modify_changes collection (item_update (build_id prefix document_id))"

definition log_container_delete :: "sync_collection \<Rightarrow> u32 \<Rightarrow> change_log \<Rightarrow> change_log" where
  "log_container_delete collection document_id = modify_changes collection (container_delete document_id)"

definition log_item_delete :: "sync_collection \<Rightarrow> u32 option \<Rightarrow> u32 \<Rightarrow> change_log \<Rightarrow> change_log" where
  "log_item_delete collection prefix document_id =
    modify_changes collection (item_delete (build_id prefix document_id))"

definition log_vanished_item :: "vanished_collection \<Rightarrow> vanished_item \<Rightarrow> change_log \<Rightarrow> change_log" where
  "log_vanished_item collection item cl =
    cl\<lparr>log_vanished := vec_modify collection [] (\<lambda>v. v @ [item]) (log_vanished cl)\<rparr>"

definition has_container_changes :: "change_sets \<Rightarrow> bool" where
  "has_container_changes c \<longleftrightarrow>
    container_inserts c \<noteq> [] \<or> container_updates c \<noteq> [] \<or> container_property_changes c \<noteq> []
    \<or> container_deletes c \<noteq> []"

definition has_item_changes :: "change_sets \<Rightarrow> bool" where
  "has_item_changes c \<longleftrightarrow> item_inserts c \<noteq> [] \<or> item_updates c \<noteq> [] \<or> item_deletes c \<noteq> []"

definition encode_len :: "'a list \<Rightarrow> bytes" where
  "encode_len xs = encode_leb128_u64 (word_of_nat (length xs))"

definition serialize_changes :: "change_sets \<Rightarrow> bytes" where
  "serialize_changes c =
    encode_len (container_inserts c) @ encode_len (container_updates c)
    @ encode_len (container_property_changes c) @ encode_len (container_deletes c)
    @ encode_len (item_inserts c) @ encode_len (item_updates c) @ encode_len (item_deletes c)
    @ concat (map encode_leb128_u32 (container_inserts c))
    @ concat (map encode_leb128_u32 (container_updates c))
    @ concat (map encode_leb128_u32 (container_property_changes c))
    @ concat (map encode_leb128_u32 (container_deletes c))
    @ concat (map encode_leb128_u64 (item_inserts c))
    @ concat (map encode_leb128_u64 (item_updates c))
    @ concat (map encode_leb128_u64 (item_deletes c))"

fun serialized_size :: "vanished_item \<Rightarrow> nat" where
  "serialized_size (VanishedName name) = length name + 1"
| "serialized_size _ = 8"

fun serialize_vanished_item :: "vanished_item \<Rightarrow> bytes" where
  "serialize_vanished_item (VanishedName name) = name @ [0]"
| "serialize_vanished_item (VanishedId i) = be64 i"
| "serialize_vanished_item (VanishedIdPair a b) = be32 a @ be32 b"

definition serialize_vanished :: "vanished_item list \<Rightarrow> bytes" where
  "serialize_vanished items = concat (map serialize_vanished_item items)"

text \<open>\<open>From<(u32, u32)>\<close> packs the pair into one id.\<close>

definition vanished_of_pair :: "u32 \<Rightarrow> u32 \<Rightarrow> vanished_item" where
  "vanished_of_pair a b = VanishedId (push_bit 32 (ucast a) OR ucast b)"

section \<open>Reading changes\<close>

datatype change =
    InsertContainer u64 | UpdateContainer u64 | UpdateContainerProperty u64 | DeleteContainer u64
  | InsertItem u64 | UpdateItem u64 | DeleteItem u64

text \<open>
  The scan of an update: \<open>None\<close> if the id was inserted in the range, otherwise the changes
  without an earlier update of the id, and whether it stays a property change.
\<close>

fun scan_container_update :: "u64 \<Rightarrow> bool \<Rightarrow> change list \<Rightarrow> (change list \<times> bool) option" where
  "scan_container_update i p [] = Some ([], p)"
| "scan_container_update i p (c # cs) =
    (if c = InsertContainer i then None
     else if c = UpdateContainer i then Some (cs, False)
     else if c = UpdateContainerProperty i then Some (cs, p)
     else map_option (\<lambda>(cs', p'). (c # cs', p')) (scan_container_update i p cs))"

definition read_container_update :: "u64 \<Rightarrow> bool \<Rightarrow> change list \<Rightarrow> change list" where
  "read_container_update i p cs =
    (case scan_container_update i p cs of
       None \<Rightarrow> cs
     | Some (cs', p') \<Rightarrow> cs' @ [if \<not> p' then UpdateContainer i else UpdateContainerProperty i])"

text \<open>The scan of a delete: the changes without the id, and whether to record the delete.\<close>

fun scan_delete :: "change \<Rightarrow> change \<Rightarrow> change list \<Rightarrow> change list \<times> bool" where
  "scan_delete ins upd [] = ([], True)"
| "scan_delete ins upd (c # cs) =
    (if c = ins then (cs, False) else if c = upd then (cs, True)
     else (case scan_delete ins upd cs of (cs', r) \<Rightarrow> (c # cs', r)))"

definition read_delete :: "change \<Rightarrow> change \<Rightarrow> change \<Rightarrow> change list \<Rightarrow> change list" where
  "read_delete ins upd del cs = (case scan_delete ins upd cs of (cs', r) \<Rightarrow> if r then cs' @ [del] else cs')"

fun scan_item_update :: "u64 \<Rightarrow> change list \<Rightarrow> change list option" where
  "scan_item_update i [] = Some []"
| "scan_item_update i (c # cs) =
    (if c = InsertItem i then None else if c = UpdateItem i then Some cs
     else map_option ((#) c) (scan_item_update i cs))"

definition read_item_update :: "u64 \<Rightarrow> change list \<Rightarrow> change list" where
  "read_item_update i cs =
    (case scan_item_update i cs of None \<Rightarrow> cs | Some cs' \<Rightarrow> cs' @ [UpdateItem i])"

text \<open>The loops of \<open>Changes::deserialize\<close>: read \<open>n\<close> ids and apply \<open>f\<close> at each position.\<close>

fun read_ids :: "(nat \<Rightarrow> u64 \<Rightarrow> change list \<Rightarrow> change list) \<Rightarrow> nat \<Rightarrow> nat \<Rightarrow> change list \<times> bytes
    \<Rightarrow> (change list \<times> bytes) option" where
  "read_ids f 0 pos (cs, bs) = Some (cs, bs)"
| "read_ids f (Suc n) pos (cs, bs) =
    (case decode_leb128_u64 bs of None \<Rightarrow> None
     | Some (i, bs') \<Rightarrow> read_ids f n (Suc pos) (f pos i cs, bs'))"

definition deserialize_changes :: "change list \<Rightarrow> bytes \<Rightarrow> (change list \<times> bool \<times> bool) option" where
  "deserialize_changes cs bs =
    (case decode_many decode_leb128_u64 7 bs of
       Some ([ci, cu, cp, cd, ii, iu, idel], bs) \<Rightarrow>
         Option.bind (read_ids (\<lambda>_ i cs. cs @ [InsertContainer i]) (unat ci) 0 (cs, bs)) (\<lambda>s.
         Option.bind (read_ids (\<lambda>pos i. read_container_update i (pos \<ge> unat cu)) (unat (cu + cp)) 0 s) (\<lambda>s.
         Option.bind (read_ids (\<lambda>_ i. read_delete (InsertContainer i) (UpdateContainer i) (DeleteContainer i))
                        (unat cd) 0 s) (\<lambda>s.
         Option.bind (read_ids (\<lambda>_ i cs. cs @ [InsertItem i]) (unat ii) 0 s) (\<lambda>s.
         Option.bind (read_ids (\<lambda>_. read_item_update) (unat iu) 0 s) (\<lambda>s.
         Option.bind (read_ids (\<lambda>_ i. read_delete (InsertItem i) (UpdateItem i) (DeleteItem i))
                        (unat idel) 0 s) (\<lambda>(cs, _).
         Some (cs, ci + cu + cp + cd > 0, ii + iu + idel > 0)))))))
     | _ \<Rightarrow> None)"

fun item_id :: "change \<Rightarrow> u64 option" where
  "item_id (InsertItem i) = Some i" | "item_id (UpdateItem i) = Some i" | "item_id (DeleteItem i) = Some i"
| "item_id _ = None"

fun container_id :: "change \<Rightarrow> u64 option" where
  "container_id (InsertContainer i) = Some i" | "container_id (UpdateContainer i) = Some i"
| "container_id (UpdateContainerProperty i) = Some i" | "container_id (DeleteContainer i) = Some i"
| "container_id _ = None"

fun is_container_change :: "change \<Rightarrow> bool" where
  "is_container_change (InsertContainer _) = True" | "is_container_change (UpdateContainer _) = True"
| "is_container_change (UpdateContainerProperty _) = True" | "is_container_change (DeleteContainer _) = True"
| "is_container_change _ = False"

fun is_item_change :: "change \<Rightarrow> bool" where
  "is_item_change (InsertItem _) = True" | "is_item_change (UpdateItem _) = True"
| "is_item_change (DeleteItem _) = True" | "is_item_change _ = False"

definition total_container_changes :: "change list \<Rightarrow> nat" where
  "total_container_changes cs = length (filter is_container_change cs)"

definition total_item_changes :: "change list \<Rightarrow> nat" where
  "total_item_changes cs = length (filter is_item_change cs)"

section \<open>Vanished items\<close>

definition deserialize_vanished_u64 :: "bytes \<Rightarrow> (u64 \<times> bytes) option" where
  "deserialize_vanished_u64 bs = decode_be64 bs"

definition deserialize_vanished_pair :: "bytes \<Rightarrow> ((u32 \<times> u32) \<times> bytes) option" where
  "deserialize_vanished_pair bs =
    (case decode_be32 bs of None \<Rightarrow> None
     | Some (a, bs) \<Rightarrow> map_option (\<lambda>(b, r). ((a, b), r)) (decode_be32 bs))"

text \<open>A name ends at its zero byte; \<open>is_utf8\<close> is the validation of \<open>String::from_utf8\<close>.\<close>

fun take_name :: "bytes \<Rightarrow> (bytes \<times> bytes) option" where
  "take_name [] = None"
| "take_name (b # bs) =
    (if b \<noteq> 0 then map_option (\<lambda>(n, r). (b # n, r)) (take_name bs) else Some ([], bs))"

definition deserialize_vanished_name :: "(bytes \<Rightarrow> bool) \<Rightarrow> bytes \<Rightarrow> (bytes \<times> bytes) option" where
  "deserialize_vanished_name is_utf8 bs =
    (case take_name bs of None \<Rightarrow> None | Some (n, r) \<Rightarrow> if is_utf8 n then Some (n, r) else None)"

section \<open>Queries\<close>

datatype query = All | Since u64 | SinceInclusive u64 | RangeInclusive u64 u64

fun query_range :: "query \<Rightarrow> bool \<times> u64 \<times> u64" where
  "query_range All = (True, 0, - 1)"
| "query_range (Since c) = (False, c, - 1)"
| "query_range (SinceInclusive c) = (True, c, - 1)"
| "query_range (RangeInclusive a b) = (True, a, b)"

record changes_result =
  changes :: "change list"
  from_change_id :: u64
  to_change_id :: u64
  container_change_id :: "u64 option"
  item_change_id :: "u64 option"
  is_truncated :: bool

definition empty_result :: changes_result where
  "empty_result = \<lparr>changes = [], from_change_id = 0, to_change_id = 0, container_change_id = None,
     item_change_id = None, is_truncated = False\<rparr>"

text \<open>The callback on one log entry, its change id and its value.\<close>

definition changes_step ::
  "bool \<Rightarrow> bool \<Rightarrow> u64 \<Rightarrow> changes_result \<Rightarrow> u64 \<times> bytes \<Rightarrow> changes_result option" where
  "changes_step is_share_log is_inclusive from r e =
    (case e of (change_id, val) \<Rightarrow>
      if is_inclusive \<or> change_id \<noteq> from then
        (if val = [] then Some (r\<lparr>is_truncated := True\<rparr>)
         else
           let r = (if changes r = [] then r\<lparr>from_change_id := change_id\<rparr> else r);
               r = r\<lparr>to_change_id := change_id\<rparr> in
           if \<not> is_share_log then
             (case deserialize_changes (changes r) val of
                None \<Rightarrow> None
              | Some (cs, has_container, has_item) \<Rightarrow>
                  let r = r\<lparr>changes := cs\<rparr>;
                      r = (if has_container then r\<lparr>container_change_id := Some change_id\<rparr> else r) in
                  Some (if has_item then r\<lparr>item_change_id := Some change_id\<rparr> else r))
           else Some (r\<lparr>changes := changes r @ [InsertItem change_id]\<rparr>))
      else Some (r\<lparr>from_change_id := change_id, to_change_id := change_id\<rparr>))"

fun changes_loop ::
  "bool \<Rightarrow> bool \<Rightarrow> u64 \<Rightarrow> changes_result \<Rightarrow> (u64 \<times> bytes) list \<Rightarrow> changes_result option" where
  "changes_loop share incl from r [] = Some r"
| "changes_loop share incl from r (e # es) =
    (case changes_step share incl from r e of None \<Rightarrow> None | Some r' \<Rightarrow> changes_loop share incl from r' es)"

text \<open>
  \<open>Store::changes\<close> on the log entries of a collection in ascending order of change id: the store
  hands the callback those between the two bounds.
\<close>

definition query_changes :: "bool \<Rightarrow> query \<Rightarrow> (u64 \<times> bytes) list \<Rightarrow> changes_result option" where
  "query_changes is_share_log q entries =
    (case query_range q of (is_inclusive, from, to) \<Rightarrow>
      changes_loop is_share_log is_inclusive from empty_result
        (filter (\<lambda>(c, _). from \<le> c \<and> c \<le> to) entries))"

section \<open>A log entry is read back as it was recorded\<close>

definition apply_changes :: "change_sets \<Rightarrow> change list \<Rightarrow> change list" where
  "apply_changes c cs =
    fold (\<lambda>i. read_delete (InsertItem i) (UpdateItem i) (DeleteItem i)) (item_deletes c)
    (fold read_item_update (item_updates c)
    (fold (\<lambda>i cs. cs @ [InsertItem i]) (item_inserts c)
    (fold (\<lambda>i. read_delete (InsertContainer (ucast i)) (UpdateContainer (ucast i)) (DeleteContainer (ucast i)))
       (container_deletes c)
    (fold (\<lambda>i. read_container_update (ucast i) True) (container_property_changes c)
    (fold (\<lambda>i. read_container_update (ucast i) False) (container_updates c)
    (fold (\<lambda>i cs. cs @ [InsertContainer (ucast i)]) (container_inserts c) cs))))))"

definition sizes_ok :: "change_sets \<Rightarrow> bool" where
  "sizes_ok c \<longleftrightarrow>
    length (container_inserts c) + length (container_updates c) + length (container_property_changes c)
      + length (container_deletes c) < 2 ^ 64 \<and>
    length (item_inserts c) + length (item_updates c) + length (item_deletes c) < 2 ^ 64"

lemma read_ids_enumerate:
  assumes "\<And>x r. decode_leb128_u64 (enc x @ r) = Some (g x, r)"
  shows "read_ids f (length xs) pos (cs, concat (map enc xs) @ rest)
    = Some (fold (\<lambda>(p, x). f p (g x)) (enumerate pos xs) cs, rest)"
  by (induction xs arbitrary: pos cs) (simp_all add: assms)

lemma fold_enumerate: "fold (\<lambda>(p, x). f x) (enumerate pos xs) cs = fold f xs cs"
  by (induction xs arbitrary: pos cs) simp_all

lemma fold_enumerate_cond:
  "pos + length xs \<le> n \<Longrightarrow> fold (\<lambda>(p, x). f (n \<le> p) x) (enumerate pos xs) cs = fold (f False) xs cs"
  "n \<le> pos \<Longrightarrow> fold (\<lambda>(p, x). f (n \<le> p) x) (enumerate pos xs) cs = fold (f True) xs cs"
  by (induction xs arbitrary: pos cs) simp_all

lemma read_ids_const:
  assumes "\<And>x r. decode_leb128_u64 (enc x @ r) = Some (g x, r)"
  shows "read_ids (\<lambda>_. f) (length xs) pos (cs, concat (map enc xs) @ rest)
    = Some (fold (\<lambda>x. f (g x)) xs cs, rest)"
  using read_ids_enumerate [of enc g "\<lambda>_. f" xs pos cs rest, OF assms] by (simp add: fold_enumerate)

lemma read_ids_updates:
  assumes "\<And>x r. decode_leb128_u64 (enc x @ r) = Some (g x, r)"
  shows "read_ids (\<lambda>pos i. f (length us \<le> pos) i) (length us + length ps) 0 (cs, concat (map enc us) @ concat (map enc ps) @ rest)
    = Some (fold (\<lambda>x. f True (g x)) ps (fold (\<lambda>x. f False (g x)) us cs), rest)"
proof -
  have "enumerate 0 (us @ ps) = enumerate 0 us @ enumerate (length us) ps"
    by (simp add: enumerate_append_eq)
  then show ?thesis
    using read_ids_enumerate [of enc g "\<lambda>pos i. f (length us \<le> pos) i" "us @ ps" 0 cs rest, OF assms]
      fold_enumerate_cond(1) [of 0 us "length us" "\<lambda>b x. f b (g x)" cs]
      fold_enumerate_cond(2) [of "length us" "length us" "\<lambda>b x. f b (g x)" ps]
    by simp
qed

lemma unat_len: "n < 2 ^ 64 \<Longrightarrow> unat (word_of_nat n :: u64) = n"
  by (simp add: unat_of_nat take_bit_nat_eq_self)

lemma decode_ids:
  "decode_leb128_u64 (encode_leb128_u32 x @ r) = Some (ucast x, r)"
  "decode_leb128_u64 (encode_leb128_u64 y @ r) = Some (y, r)"
  by (simp_all add: decode_u64_of_u32 leb128_u64.decode_encode)

lemma decode_lens:
  "decode_many decode_leb128_u64 7
    (encode_len a @ encode_len b @ encode_len c @ encode_len d @ encode_len e @ encode_len f @ encode_len g @ rest)
   = Some ([word_of_nat (length a), word_of_nat (length b), word_of_nat (length c), word_of_nat (length d),
            word_of_nat (length e), word_of_nat (length f), word_of_nat (length g)], rest)"
  unfolding encode_len_def by (simp add: eval_nat_numeral leb128_u64.decode_encode)

lemma sum_pos: "n < 2 ^ 64 \<Longrightarrow> (0 < (word_of_nat n :: u64)) = (0 < n)"
  by (simp add: word_less_nat_alt unat_len)

lemma deserialize_serialize:
  assumes "sizes_ok c"
  shows "deserialize_changes cs (serialize_changes c)
    = Some (apply_changes c cs, has_container_changes c, has_item_changes c)"
proof -
  have len: "length (container_inserts c) < 2 ^ 64" "length (container_deletes c) < 2 ^ 64"
    "length (container_updates c) < 2 ^ 64"
    "length (container_updates c) + length (container_property_changes c) < 2 ^ 64"
    "length (item_inserts c) < 2 ^ 64" "length (item_updates c) < 2 ^ 64" "length (item_deletes c) < 2 ^ 64"
    using assms by (simp_all add: sizes_ok_def)
  have c: "word_of_nat (length (container_inserts c)) + word_of_nat (length (container_updates c))
     + word_of_nat (length (container_property_changes c)) + word_of_nat (length (container_deletes c)) > (0::u64)
     \<longleftrightarrow> has_container_changes c"
    using assms sum_pos [of "length (container_inserts c) + length (container_updates c)
      + length (container_property_changes c) + length (container_deletes c)"]
    by (auto simp: sizes_ok_def has_container_changes_def)
  have i: "word_of_nat (length (item_inserts c)) + word_of_nat (length (item_updates c))
     + word_of_nat (length (item_deletes c)) > (0::u64) \<longleftrightarrow> has_item_changes c"
    using assms sum_pos [of "length (item_inserts c) + length (item_updates c) + length (item_deletes c)"]
    by (auto simp: sizes_ok_def has_item_changes_def)
  have sum: "unat (word_of_nat (length (container_updates c)) + word_of_nat (length (container_property_changes c)) :: u64)
    = length (container_updates c) + length (container_property_changes c)"
    using unat_len [OF len(4)] by simp
  show ?thesis
    unfolding deserialize_changes_def serialize_changes_def decode_lens
    by (simp only: list.case option.case prod.case unat_len [OF len(1)] unat_len [OF len(2)]  unat_len [OF len(3)] sum
        unat_len [OF len(5)] unat_len [OF len(6)] unat_len [OF len(7)] c i bind.bind_lunit
        read_ids_const [OF decode_ids(1)] read_ids_const [OF decode_ids(2)] 
        read_ids_updates [where f = "\<lambda>b i. read_container_update i b", OF decode_ids(1)] apply_changes_def)
     (simp add: read_ids_const [OF decode_ids(2), where rest = "[]", simplified])
qed

section \<open>The net change of an item\<close>

definition view :: "u64 \<Rightarrow> change list \<Rightarrow> change list" where
  "view i cs = filter (\<lambda>c. item_id c = Some i) cs"

lemma view_simps [simp]:
  "view i [] = []" "view i (cs @ ds) = view i cs @ view i ds"
  "view i (c # cs) = (if item_id c = Some i then c # view i cs else view i cs)"
  by (simp_all add: view_def)

lemma scan_item_update_same: "scan_item_update i (view i cs) = map_option (view i) (scan_item_update i cs)"
  by (induction i cs rule: scan_item_update.induct) (auto simp: option.map_comp comp_def)

lemma scan_item_update_other: "scan_item_update j cs = Some cs' \<Longrightarrow> i \<noteq> j \<Longrightarrow> view i cs' = view i cs"
  by (induction j cs arbitrary: cs' rule: scan_item_update.induct) (auto split: if_splits)

lemma scan_item_update_view:
  "view i (read_item_update j cs) = (if i = j then read_item_update i (view i cs) else view i cs)"
  by (auto simp: read_item_update_def scan_item_update_same dest: scan_item_update_other split: option.splits)

lemma scan_delete_item_view:
  "(\<lambda>(cs', r). (view i cs', r)) (scan_delete (InsertItem j) (UpdateItem j) cs)
    = (if i = j then scan_delete (InsertItem i) (UpdateItem i) (view i cs)
       else (view i cs, snd (scan_delete (InsertItem j) (UpdateItem j) cs)))"
  by (induction "InsertItem j" "UpdateItem j" cs rule: scan_delete.induct) (auto split: prod.splits)

lemma read_delete_item_view:
  "view i (read_delete (InsertItem j) (UpdateItem j) (DeleteItem j) cs)
    = (if i = j then read_delete (InsertItem i) (UpdateItem i) (DeleteItem i) (view i cs) else view i cs)"
  using scan_delete_item_view [of i j cs] by (auto simp: read_delete_def split: prod.splits if_splits)

lemma scan_container_update_view: "scan_container_update j p cs = Some (cs', p') \<Longrightarrow> view i cs' = view i cs"
  by (induction j p cs arbitrary: cs' rule: scan_container_update.induct) (auto split: if_splits)

lemma scan_delete_container_view:
  "scan_delete (InsertContainer j) (UpdateContainer j) cs = (cs', r) \<Longrightarrow> view i cs' = view i cs"
  by (induction "InsertContainer j" "UpdateContainer j" cs arbitrary: cs' rule: scan_delete.induct)
    (auto split: prod.splits if_splits)

lemma read_container_view:
  "view i (read_container_update j p cs) = view i cs"
  "view i (read_delete (InsertContainer j) (UpdateContainer j) (DeleteContainer j) cs) = view i cs"
  by (auto simp: read_container_update_def read_delete_def split: option.splits prod.splits
      dest: scan_container_update_view scan_delete_container_view)

lemma view_fold_container:
  assumes "\<And>x cs. view i (f x cs) = view i cs"
  shows "view i (fold f xs cs) = view i cs"
  using assms by (induction xs arbitrary: cs) simp_all

lemma view_fold_item:
  assumes "distinct xs" and "\<And>j cs. view i (f j cs) = (if i = j then f i (view i cs) else view i cs)"
  shows "view i (fold f xs cs) = (if i \<in> set xs then f i (view i cs) else view i cs)"
  using assms(1) by (induction xs arbitrary: cs) (auto simp: assms(2))

lemma view_apply_changes:
  assumes "distinct (item_inserts c)" "distinct (item_updates c)" "distinct (item_deletes c)"
  shows "view i (apply_changes c cs) =
    (let v = view i cs;
         v = (if i \<in> set (item_inserts c) then v @ [InsertItem i] else v);
         v = (if i \<in> set (item_updates c) then read_item_update i v else v)
     in if i \<in> set (item_deletes c) then read_delete (InsertItem i) (UpdateItem i) (DeleteItem i) v else v)"
  using assms
  by (simp add: apply_changes_def Let_def view_fold_container read_container_view
      view_fold_item [where f = "\<lambda>i cs. cs @ [InsertItem i]"] view_fold_item [where f = read_item_update]
      view_fold_item [where f = "\<lambda>i. read_delete (InsertItem i) (UpdateItem i) (DeleteItem i)"]
      scan_item_update_view read_delete_item_view)

text \<open>The operations that a batch logs, and whether the item exists after each of them.\<close>

datatype item_op = Insert_op | Update_op | Delete_op

fun log_item_op :: "item_op \<times> u64 \<Rightarrow> change_sets \<Rightarrow> change_sets" where
  "log_item_op (Insert_op, i) = item_insert i"
| "log_item_op (Update_op, i) = item_update i"
| "log_item_op (Delete_op, i) = item_delete i"

fun exists_after :: "(item_op \<times> u64) list \<Rightarrow> u64 set \<Rightarrow> u64 set" where
  "exists_after [] P = P"
| "exists_after ((op, i) # ops) P =
    exists_after ops (case op of Insert_op \<Rightarrow> insert i P | Update_op \<Rightarrow> P | Delete_op \<Rightarrow> P - {i})"

text \<open>Only absent items are inserted, and only existing ones updated or deleted.\<close>

fun legal :: "(item_op \<times> u64) list \<Rightarrow> u64 set \<Rightarrow> bool" where
  "legal [] P = True"
| "legal ((op, i) # ops) P =
    ((if op = Insert_op then i \<notin> P else i \<in> P)
     \<and> legal ops (case op of Insert_op \<Rightarrow> insert i P | Update_op \<Rightarrow> P | Delete_op \<Rightarrow> P - {i}))"

definition log_batch :: "(item_op \<times> u64) list \<Rightarrow> change_sets" where
  "log_batch ops = fold log_item_op ops no_changes"

text \<open>What the sets of a batch say about an item that existed before (\<open>p\<close>) and exists now (\<open>q\<close>).\<close>

definition batch_ok :: "bool \<Rightarrow> bool \<Rightarrow> bool \<Rightarrow> u64 \<Rightarrow> change_sets \<Rightarrow> bool" where
  "batch_ok p q touched i c \<longleftrightarrow>
    (i \<in> set (item_inserts c) \<longleftrightarrow> \<not> p \<and> touched) \<and>
    (i \<in> set (item_deletes c) \<longleftrightarrow> \<not> q \<and> touched) \<and>
    (i \<in> set (item_updates c) \<longrightarrow> q \<and> touched) \<and>
    (p \<and> q \<and> touched \<longrightarrow> i \<in> set (item_updates c)) \<and> (\<not> touched \<longrightarrow> p = q)"

definition distinct_items :: "change_sets \<Rightarrow> bool" where
  "distinct_items c \<longleftrightarrow> distinct (item_inserts c) \<and> distinct (item_updates c) \<and> distinct (item_deletes c)"

lemma log_item_op_distinct: "distinct_items c \<Longrightarrow> distinct_items (log_item_op o' c)"
  by (cases o' rule: log_item_op.cases)
    (auto simp: distinct_items_def item_insert_def item_update_def item_delete_def distinct_removeAll)

lemma log_item_op_other:
  assumes "i \<noteq> j"
  shows "i \<in> set (item_inserts (log_item_op (op, j) c)) \<longleftrightarrow> i \<in> set (item_inserts c)"
    and "i \<in> set (item_updates (log_item_op (op, j) c)) \<longleftrightarrow> i \<in> set (item_updates c)"
    and "i \<in> set (item_deletes (log_item_op (op, j) c)) \<longleftrightarrow> i \<in> set (item_deletes c)"
  using assms by (cases op; simp add: item_insert_def item_update_def item_delete_def)+

lemma log_item_op_same:
  "i \<in> set (item_inserts (log_item_op (op, i) c)) \<longleftrightarrow>
    i \<in> set (item_inserts c) \<or> op = Insert_op \<and> i \<notin> set (item_deletes c)"
  "i \<in> set (item_updates (log_item_op (op, i) c)) \<longleftrightarrow>
    (case op of Insert_op \<Rightarrow> i \<in> set (item_updates c) \<or> i \<in> set (item_deletes c)
     | Update_op \<Rightarrow> True | Delete_op \<Rightarrow> False)"
  "i \<in> set (item_deletes (log_item_op (op, i) c)) \<longleftrightarrow>
    (case op of Insert_op \<Rightarrow> False | Update_op \<Rightarrow> i \<in> set (item_deletes c) | Delete_op \<Rightarrow> True)"
  by (cases op; simp add: item_insert_def item_update_def item_delete_def)+

lemma batch_ok_same:
  assumes "batch_ok p (i \<in> P) t i c" and "if op = Insert_op then i \<notin> P else i \<in> P"
  shows "batch_ok p (op \<noteq> Delete_op) True i (log_item_op (op, i) c)"
  using assms
  by (cases op; cases t; cases p; cases "i \<in> P")
    (simp_all only: batch_ok_def log_item_op_same item_op.distinct item_op.case if_True if_False simp_thms not_False_eq_True)

lemma batch_ok_step:
  assumes "batch_ok p (i \<in> P) t i c" and "if op = Insert_op then j \<notin> P else j \<in> P"
  shows "batch_ok p (i \<in> (case op of Insert_op \<Rightarrow> insert j P | Update_op \<Rightarrow> P | Delete_op \<Rightarrow> P - {j}))
    (t \<or> i = j) i (log_item_op (op, j) c)"
proof (cases "i = j")
  case True
  have "i \<in> (case op of Insert_op \<Rightarrow> insert i P | Update_op \<Rightarrow> P | Delete_op \<Rightarrow> P - {i}) \<longleftrightarrow> op \<noteq> Delete_op"
    using assms(2) True by (cases op) simp_all
  moreover have "batch_ok p (op \<noteq> Delete_op) True i (log_item_op (op, i) c)"
    using batch_ok_same [OF assms(1)] assms(2) True by blast
  ultimately show ?thesis by (simp only: True [symmetric] simp_thms)
next
  case False
  then have eq: "i \<in> (case op of Insert_op \<Rightarrow> insert j P | Update_op \<Rightarrow> P | Delete_op \<Rightarrow> P - {j}) \<longleftrightarrow> i \<in> P"
    by (cases op) simp_all
  have "batch_ok p (i \<in> P) t i (log_item_op (op, j) c)"
    unfolding batch_ok_def log_item_op_other [OF False] by (rule assms(1) [unfolded batch_ok_def])
  with False show ?thesis unfolding eq by simp
qed

lemma log_batch_ok:
  assumes "legal ops P"
  shows "batch_ok (i \<in> P) (i \<in> exists_after ops P) (i \<in> snd ` set ops) i (log_batch ops)"
    and "distinct_items (log_batch ops)"
proof -
  have "batch_ok p (i \<in> P) t i c \<Longrightarrow> legal ops P \<Longrightarrow>
     batch_ok p (i \<in> exists_after ops P) (t \<or> i \<in> snd ` set ops) i (fold log_item_op ops c)" for p t c
  proof (induction ops arbitrary: P t c)
    case (Cons a ops)
    obtain op j where a: "a = (op, j)" by fastforce
    let ?P = "case op of Insert_op \<Rightarrow> insert j P | Update_op \<Rightarrow> P | Delete_op \<Rightarrow> P - {j}"
    from Cons.prems(2) [unfolded a legal.simps]
    have l: "legal ops ?P" "if op = Insert_op then j \<notin> P else j \<in> P" by (rule conjunct2, rule conjunct1)
    from Cons.IH [OF batch_ok_step [OF Cons.prems(1) l(2)] l(1)] a
    show ?case by (simp add: disj_assoc del: log_item_op.simps)
  qed simp
  moreover have "batch_ok (i \<in> P) (i \<in> P) False i no_changes"
    unfolding batch_ok_def no_changes_def by simp
  ultimately have "batch_ok (i \<in> P) (i \<in> exists_after ops P) (False \<or> i \<in> snd ` set ops) i
      (fold log_item_op ops no_changes)"
    using assms by blast
  then show "batch_ok (i \<in> P) (i \<in> exists_after ops P) (i \<in> snd ` set ops) i (log_batch ops)"
    unfolding log_batch_def by simp
  have "distinct_items c \<Longrightarrow> distinct_items (fold log_item_op ops c)" for c
    by (induction ops arbitrary: c) (simp_all add: log_item_op_distinct)
  then show "distinct_items (log_batch ops)"
    by (simp add: log_batch_def distinct_items_def no_changes_def)
qed

text \<open>The changes listed for an item that existed at the start (\<open>p\<close>) and exists now (\<open>q\<close>).\<close>

definition net_view :: "bool \<Rightarrow> bool \<Rightarrow> bool \<Rightarrow> u64 \<Rightarrow> change list \<Rightarrow> bool" where
  "net_view p q touched i v \<longleftrightarrow>
    (if p then
       (if q then v = (if touched then [UpdateItem i] else []) \<or> touched \<and> v = [DeleteItem i, InsertItem i]
        else v = [DeleteItem i])
     else (if q then v = [InsertItem i] else v = []))"

lemma net_view_step:
  assumes "net_view p q t i v" and "ins \<longleftrightarrow> \<not> q \<and> t'" "del \<longleftrightarrow> \<not> q' \<and> t'" "upd \<longrightarrow> q' \<and> t'"
    "q \<and> q' \<and> t' \<longrightarrow> upd" "\<not> t' \<longrightarrow> q = q'"
  shows "net_view p q' (t \<or> t') i
    (let v = (if ins then v @ [InsertItem i] else v); v = (if upd then read_item_update i v else v)
     in if del then read_delete (InsertItem i) (UpdateItem i) (DeleteItem i) v else v)"
  using assms
  by (cases p; cases q; cases q'; cases t; cases t'; cases upd)
    (auto simp: net_view_def read_item_update_def read_delete_def)

lemma read_batch_net:
  assumes "net_view p q t i (view i cs)" and "batch_ok q q' t' i c" and "distinct_items c"
  shows "net_view p q' (t \<or> t') i (view i (apply_changes c cs))"
proof -
  have d: "distinct (item_inserts c)" "distinct (item_updates c)" "distinct (item_deletes c)"
    using assms(3) by (simp_all add: distinct_items_def)
  note b = assms(2) [unfolded batch_ok_def]
  show ?thesis
    unfolding view_apply_changes [OF d] Let_def
    by (rule net_view_step [unfolded Let_def, OF assms(1), where t' = t' and ins = "i \<in> set (item_inserts c)"
          and del = "i \<in> set (item_deletes c)" and upd = "i \<in> set (item_updates c)"]) (use b in blast)+
qed

fun read_log :: "bytes list \<Rightarrow> change list \<Rightarrow> change list option" where
  "read_log [] cs = Some cs"
| "read_log (b # bs) cs = (case deserialize_changes cs b of None \<Rightarrow> None | Some (cs', _) \<Rightarrow> read_log bs cs')"

lemma read_log_net:
  assumes "legal (concat opss) P" and "\<forall>ops \<in> set opss. sizes_ok (log_batch ops)"
    and "\<forall>i. net_view (i \<in> P0) (i \<in> P) (t i) i (view i cs)"
  shows "\<exists>cs'. read_log (map (\<lambda>ops. serialize_changes (log_batch ops)) opss) cs = Some cs'
    \<and> (\<forall>i. net_view (i \<in> P0) (i \<in> exists_after (concat opss) P) (t i \<or> i \<in> snd ` set (concat opss)) i (view i cs'))"
  using assms
proof (induction opss arbitrary: P cs t)
  case (Cons ops opss)
  have split: "legal (xs @ ys) Q \<longleftrightarrow> legal xs Q \<and> legal ys (exists_after xs Q)"
    "exists_after (xs @ ys) Q = exists_after ys (exists_after xs Q)" for xs ys Q
    by (induction xs arbitrary: Q) auto
  from Cons.prems(1) have l: "legal ops P" "legal (concat opss) (exists_after ops P)" by (simp_all add: split)
  from Cons.prems(2) have s: "sizes_ok (log_batch ops)" "\<forall>ops \<in> set opss. sizes_ok (log_batch ops)" by simp_all
  let ?cs = "apply_changes (log_batch ops) cs"
  have "net_view (i \<in> P0) (i \<in> exists_after ops P) (t i \<or> i \<in> snd ` set ops) i (view i ?cs)" for i
    using read_batch_net [OF Cons.prems(3) [rule_format, of i] log_batch_ok(1) [OF l(1), of i] log_batch_ok(2) [OF l(1)]] .
  then have n: "\<forall>i. net_view (i \<in> P0) (i \<in> exists_after ops P) (t i \<or> i \<in> snd ` set ops) i (view i ?cs)" by blast
  from Cons.IH [OF l(2) s(2) n] deserialize_serialize [OF s(1), of cs] show ?case
    by (simp add: split disj_assoc image_Un)
qed simp

lemma property_change_survives_delete:
  "UpdateContainerProperty i \<in> set cs \<Longrightarrow>
   UpdateContainerProperty i \<in> set (read_delete (InsertContainer j) (UpdateContainer j) (DeleteContainer j) cs)"
proof -
  assume a: "UpdateContainerProperty i \<in> set cs"
  have "UpdateContainerProperty i \<in> set cs \<Longrightarrow>
      UpdateContainerProperty i \<in> set (fst (scan_delete (InsertContainer j) (UpdateContainer j) cs))"
    by (induction "InsertContainer j" "UpdateContainer j" cs rule: scan_delete.induct)
      (auto simp: case_prod_beta)
  with a show ?thesis by (simp add: read_delete_def case_prod_beta)
qed

lemma take_name_write: "0 \<notin> set name \<Longrightarrow> take_name (name @ 0 # rest) = Some (name, rest)"
  by (induction name) auto

interpretation vanished_ids: prefix_codec be64 deserialize_vanished_u64
  by unfold_locales (simp add: deserialize_vanished_u64_def be64.decode_encode)

interpretation vanished_pairs: prefix_codec "\<lambda>(a, b). be32 a @ be32 b" deserialize_vanished_pair
  by unfold_locales (auto simp: deserialize_vanished_pair_def be32.decode_encode)

section \<open>Queries read the log\<close>

lemma encode_len_nonempty [simp]: "encode_len xs \<noteq> []"
  by (simp add: encode_len_def encode_leb128_u64_def) (subst to_leb128.simps, simp)

lemma serialize_changes_nonempty [simp]: "serialize_changes c \<noteq> []"
  by (simp add: serialize_changes_def)

lemma changes_loop_read_log:
  assumes "\<forall>v \<in> set vs. v \<noteq> []" and "length ids = length vs"
  shows "map_option (\<lambda>r. (changes r, is_truncated r)) (changes_loop False True from r (zip ids vs))
    = map_option (\<lambda>cs. (cs, is_truncated r)) (read_log vs (changes r))"
  using assms
proof (induction vs arbitrary: ids r)
  case (Cons v vs)
  then obtain c ids' where ids: "ids = c # ids'" by (cases ids) auto
  show ?case
  proof (cases "deserialize_changes (changes r) v")
    case None
    with Cons.prems ids show ?thesis by (cases "changes r") (simp_all add: changes_step_def Let_def)
  next
    case (Some p)
    obtain cs a b where p: "p = (cs, a, b)" by (cases p)
    define r' where "r' = the (changes_step False True from r (c, v))"
    have r': "changes_step False True from r (c, v) = Some r'" "changes r' = cs" "is_truncated r' = is_truncated r"
      using Some p Cons.prems(1) by (cases "changes r"; simp add: r'_def changes_step_def Let_def)+
    with Cons.IH [of ids' r'] Cons.prems ids Some p show ?thesis by simp
  qed
qed simp

text \<open>What a query since a state skips: the entries up to that state, of which it reads the last one's id.\<close>

lemma changes_step_new: "c \<noteq> from \<Longrightarrow> changes_step share b from r (c, v) = changes_step share True from r (c, v)"
  by (simp add: changes_step_def)

lemma changes_loop_new:
  "from \<notin> fst ` set es \<Longrightarrow> changes_loop share b from r es = changes_loop share True from r es"
proof (induction es arbitrary: r)
  case (Cons e es)
  then have "changes_step share b from r e = changes_step share True from r e"
    by (cases e) (auto intro: changes_step_new)
  with Cons show ?case by (simp split: option.split)
qed simp

lemma filter_since:
  assumes "sorted_wrt (<) ids" and "length ids = length vs"
  shows "filter (\<lambda>(x :: u64, _). c < x) (zip ids vs) =
    (let k = length (filter (\<lambda>x. x \<le> c) ids) in zip (drop k ids) (drop k vs))"
  using assms(2,1)
proof (induction ids vs rule: list_induct2)
  case (Cons x ids v vs)
  show ?case
  proof (cases "x \<le> c")
    case True
    then have "\<not> c < x" by simp
    with True Cons show ?thesis by (simp add: Let_def)
  next
    case False
    then have "c < y" if "y \<in> set ids" for y using Cons.prems that by (auto simp: not_le intro: less_trans)
    then have "filter (\<lambda>y. y \<le> c) ids = []" "\<forall>p \<in> set (zip ids vs). c < fst p"
      by (auto simp: filter_empty_conv not_le dest: set_zip_leftD)
    with False show ?thesis by (auto simp: Let_def not_le intro!: filter_True)
  qed
qed simp

lemma filter_from_since:
  assumes "sorted_wrt (<) (map fst es)"
  shows "\<exists>first. filter (\<lambda>(x :: u64, _). from \<le> x) es = first @ filter (\<lambda>(x, _). from < x) es
    \<and> (first = [] \<and> from \<notin> fst ` set es \<or> (\<exists>v. first = [(from, v)]))"
  using assms
proof (induction es)
  case (Cons e es)
  obtain x v where e: "e = (x, v)" by (cases e)
  from Cons.prems e have later: "\<forall>p \<in> set es. x < fst p" "sorted_wrt (<) (map fst es)" by auto
  show ?case
  proof (cases "x = from")
    case True
    then have "filter (\<lambda>(x, _). from \<le> x) es = filter (\<lambda>(x, _). from < x) es"
      using later(1) True by (intro filter_cong refl) (auto simp: less_imp_le)
    with e True show ?thesis by simp
  next
    case False
    from Cons.IH [OF later(2)] obtain first where f: "filter (\<lambda>(x, _). from \<le> x) es = first @ filter (\<lambda>(x, _). from < x) es"
      "first = [] \<and> from \<notin> fst ` set es \<or> (\<exists>v. first = [(from, v)])" by blast
    show ?thesis
    proof (cases "from < x")
      case True
      then have "from \<notin> fst ` set es" using later(1) by (auto dest: less_trans)
      moreover have "first = []"
      proof (rule ccontr)
        assume "first \<noteq> []"
        with f(2) obtain v where "first = [(from, v)]" by blast
        then have "(from, v) \<in> set (filter (\<lambda>(x, _). from \<le> x) es)" unfolding f(1) by simp
        with \<open>from \<notin> fst ` set es\<close> show False by (force simp: image_iff)
      qed
      ultimately show ?thesis using e f(1) True by (intro exI [of _ "[]"]) auto
    next
      case False
      with e f \<open>x \<noteq> from\<close> show ?thesis by (intro exI [of _ first]) auto
    qed
  qed
qed simp

lemma last_is_greatest:
  "sorted_wrt (<) xs \<Longrightarrow> c \<in> set xs \<Longrightarrow> \<forall>x \<in> set xs. x \<le> c \<Longrightarrow> last xs = (c :: u64)"
proof (induction xs)
  case (Cons x xs)
  show ?case
  proof (cases "xs = []")
    case False
    then have "x < last xs" "last xs \<le> c" using Cons.prems by simp_all
    with Cons.prems have "c \<in> set xs" by auto
    with Cons False show ?thesis by simp
  qed (use Cons.prems in simp)
qed simp

lemma changes_loop_to:
  assumes "\<forall>v \<in> set vs. v \<noteq> []" and "length ids = length vs" and "changes_loop False True from r (zip ids vs) = Some r'"
  shows "to_change_id r' = (if ids = [] then to_change_id r else last ids)"
  using assms(2,1,3)
proof (induction ids vs arbitrary: r rule: list_induct2)
  case (Cons c ids v vs)
  then obtain r1 where r1: "changes_step False True from r (c, v) = Some r1" "changes_loop False True from r1 (zip ids vs) = Some r'"
    by (auto split: option.splits)
  have "to_change_id r1 = c"
    using r1(1) Cons.prems(1) by (auto simp: changes_step_def Let_def split: option.splits prod.splits if_splits)
  with Cons.IH [OF _ r1(2)] Cons.prems(1) show ?case by simp
qed simp

lemma legal_append:
  "legal (xs @ ys) P \<longleftrightarrow> legal xs P \<and> legal ys (exists_after xs P)"
  "exists_after (xs @ ys) P = exists_after ys (exists_after xs P)"
  by (induction xs arbitrary: P) auto

section \<open>Properties\<close>

text \<open>
  A change log entry is read back as it was written: deserialising the bytes of a batch's
  changes replays its inserts, updates, property changes and deletes on the list of changes, and
  reports whether it held container and item changes.
\<close>

theorem change_entry_roundtrip:
  assumes "sizes_ok c"
  shows "deserialize_changes cs (serialize_changes c)
    = Some (apply_changes c cs, has_container_changes c, has_item_changes c)"
  by (rule deserialize_serialize [OF assms])

theorem change_entry_roundtrip_witness:
  "deserialize_changes [InsertItem 7] (serialize_changes (item_update 7 (container_insert 300 no_changes)))
    = Some ([InsertItem 7, InsertContainer 300], True, True)"
proof -
  let ?c = "item_update 7 (container_insert 300 no_changes)"
  have "sizes_ok ?c" by (simp add: sizes_ok_def item_update_def container_insert_def no_changes_def)
  from change_entry_roundtrip [OF this, of "[InsertItem 7]"] show ?thesis
    by (simp add: apply_changes_def item_update_def container_insert_def no_changes_def
        read_item_update_def has_container_changes_def has_item_changes_def)
qed

text \<open>
  C32. The item changes since a state are the net effect of the later part of the log: let the log hold a
  sequence of batches, under ascending change ids, that insert only absent items and update or
  delete only existing ones. Then a query since a state succeeds and, for what the batches after that
  state did with an item, lists nothing if it came and went, one insert if it is new, one delete if it
  is gone, one update (or a delete and an insert, when it was recreated in a later batch) if it was
  touched, and nothing if it was not; what earlier batches did is not listed. If the log still has an
  entry for the state, the result ends with the id of the last batch. Containers are not covered, and
  indeed their property changes behave otherwise (\<open>property_change_kept_after_delete\<close>).
\<close>

theorem query_lists_net_changes:
  assumes "legal (concat opss) P" and "\<forall>ops \<in> set opss. sizes_ok (log_batch ops)"
    and "length ids = length opss" and "sorted_wrt (<) ids"
    and "old = concat (take (length (filter (\<lambda>x. x \<le> c) ids)) opss)"
    and "new = concat (drop (length (filter (\<lambda>x. x \<le> c) ids)) opss)"
  shows "\<exists>r. query_changes False (Since c) (zip ids (map (\<lambda>ops. serialize_changes (log_batch ops)) opss)) = Some r
    \<and> \<not> is_truncated r
    \<and> (\<forall>i. net_view (i \<in> exists_after old P) (i \<in> exists_after (concat opss) P) (i \<in> snd ` set new) i (view i (changes r)))
    \<and> (c \<in> set ids \<longrightarrow> to_change_id r = last ids)"
proof -
  let ?vs = "map (\<lambda>ops. serialize_changes (log_batch ops)) opss" and ?k = "length (filter (\<lambda>x. x \<le> c) ids)"
  let ?ids = "drop ?k ids" and ?new = "drop ?k ?vs"
  have opss: "concat opss = old @ new" using assms(5,6) by (metis append_take_drop_id concat_append)
  from assms(1) have legal: "legal (concat (drop ?k opss)) (exists_after old P)" unfolding opss legal_append using assms(6) by simp
  have sizes: "\<forall>ops \<in> set (drop ?k opss). sizes_ok (log_batch ops)" using assms(2) by (auto dest: in_set_dropD)
  have "\<forall>i. net_view (i \<in> exists_after old P) (i \<in> exists_after old P) False i (view i [])" by (simp add: net_view_def)
  from read_log_net [OF legal sizes this] obtain cs where cs: "read_log ?new [] = Some cs"
    "\<forall>i. net_view (i \<in> exists_after old P) (i \<in> exists_after (concat opss) P) (i \<in> snd ` set new) i (view i cs)"
    unfolding opss legal_append drop_map using assms(6) by auto
  have "v \<noteq> []" if "v \<in> set ?new" for v
  proof -
    from in_set_dropD [OF that] obtain ops where "v = serialize_changes (log_batch ops)" by auto
    then show ?thesis by simp
  qed
  with assms(3) have vs: "\<forall>v \<in> set ?new. v \<noteq> []" "length ?ids = length ?new" by auto
  have es: "map fst (zip ids ?vs) = ids" using assms(3) by simp
  have later: "filter (\<lambda>(x, _). c < x) (zip ids ?vs) = zip ?ids ?new"
    using filter_since [OF assms(4), of ?vs c] assms(3) by (simp add: Let_def)
  obtain first where first: "filter (\<lambda>(x, _). c \<le> x) (zip ids ?vs) = first @ zip ?ids ?new"
    "first = [] \<and> c \<notin> set ids \<or> (\<exists>v. first = [(c, v)])"
    using filter_from_since [of "zip ids ?vs" c] assms(4) unfolding es later set_map [symmetric] by blast
  obtain r0 where r0: "changes_loop False False c empty_result (first @ zip ?ids ?new) = changes_loop False False c r0 (zip ?ids ?new)"
    "changes r0 = []" "\<not> is_truncated r0" "first \<noteq> [] \<longrightarrow> to_change_id r0 = c"
    using first(2) by (auto simp: changes_step_def empty_result_def)
  have "c < fst p" if "p \<in> set (zip ?ids ?new)" for p
  proof -
    from that have "p \<in> set (filter (\<lambda>(x, _). c < x) (zip ids ?vs))" unfolding later .
    then show ?thesis by (simp add: case_prod_beta)
  qed
  then have "c \<notin> fst ` set (zip ?ids ?new)" by fastforce
  note loop = changes_loop_new [OF this]
  have "map_option (\<lambda>r. (changes r, is_truncated r)) (changes_loop False True c r0 (zip ?ids ?new)) = Some (cs, False)"
    using changes_loop_read_log [OF vs, of c r0] r0(2,3) cs(1) by simp
  then obtain r where r: "changes_loop False True c r0 (zip ?ids ?new) = Some r" "changes r = cs" "\<not> is_truncated r" by auto
  have "to_change_id r = last ids" if "c \<in> set ids"
  proof (cases "?ids = []")
    case True
    then have le: "x \<le> c" if "x \<in> set ids" for x
      using length_filter_less [of x ids "\<lambda>x. x \<le> c"] that by auto
    with last_is_greatest [OF assms(4) that] have "last ids = c" by blast
    with changes_loop_to [OF vs r(1)] True r0(4) first(2) that show ?thesis by auto
  next
    case False
    with changes_loop_to [OF vs r(1)] show ?thesis by (simp add: last_drop)
  qed
  moreover have "query_changes False (Since c) (zip ids ?vs) = Some r"
    using loop [THEN trans, OF r(1)] r0(1) first(1) by (simp add: query_changes_def)
  ultimately show ?thesis using r(2,3) cs(2) by blast
qed

theorem query_lists_net_changes_witness:
  "\<exists>r. query_changes False (Since 10)
      (zip [9, 10, 11] (map (\<lambda>ops. serialize_changes (log_batch ops))
         [[(Insert_op, 3)], [(Insert_op, 1), (Update_op, 2)], [(Delete_op, 1), (Delete_op, 2), (Insert_op, 4)]])) = Some r
    \<and> view 1 (changes r) = [DeleteItem 1] \<and> view 3 (changes r) = [] \<and> view 4 (changes r) = [InsertItem 4] \<and> to_change_id r = 11"
proof -
  let ?opss = "[[(Insert_op, 3)], [(Insert_op, 1), (Update_op, 2)], [(Delete_op, 1), (Delete_op, 2), (Insert_op, 4)]] :: (item_op \<times> u64) list list"
  have l: "legal (concat ?opss) {2}" by simp
  have s: "\<forall>ops \<in> set ?opss. sizes_ok (log_batch ops)"
    by (simp add: log_batch_def sizes_ok_def no_changes_def item_insert_def item_update_def item_delete_def)
  obtain r where r: "query_changes False (Since 10)
      (zip [9, 10, 11] (map (\<lambda>ops. serialize_changes (log_batch ops)) ?opss)) = Some r"
    "\<forall>i. net_view (i \<in> {1, 2, 3}) (i \<in> {3, 4}) (i \<in> {1, 2, 4}) i (view i (changes r))" "to_change_id r = 11"
    using query_lists_net_changes [OF l s _ _ refl refl, of "[9, 10, 11]" 10] by (auto simp: insert_commute)
  from r(2) [rule_format, of 1] r(2) [rule_format, of 3] r(2) [rule_format, of 4]
  have "view 1 (changes r) = [DeleteItem 1]" "view 3 (changes r) = []" "view 4 (changes r) = [InsertItem 4]"
    by (simp_all add: net_view_def)
  with r(1,3) show ?thesis by blast
qed

text \<open>
  Container property changes are the exception: a container whose property change was logged
  and that is deleted by a later batch is listed both as changed and as deleted, where the
  deletion of a container with an ordinary update lists the deletion alone.
\<close>

theorem property_change_kept_after_delete:
  "read_log [serialize_changes (container_property_update i no_changes),
             serialize_changes (container_delete i no_changes)] []
     = Some [UpdateContainerProperty (ucast i), DeleteContainer (ucast i)]
   \<and> read_log [serialize_changes (container_update i no_changes),
               serialize_changes (container_delete i no_changes)] []
     = Some [DeleteContainer (ucast i)]"
proof -
  have "sizes_ok (container_property_update i no_changes)" "sizes_ok (container_delete i no_changes)"
    "sizes_ok (container_update i no_changes)"
    by (simp_all add: sizes_ok_def container_property_update_def container_delete_def container_update_def
        no_changes_def)
  note d = this [THEN deserialize_serialize]
  show ?thesis
    unfolding read_log.simps d option.case prod.case
    by (simp add: apply_changes_def container_property_update_def container_delete_def container_update_def
        no_changes_def read_container_update_def read_delete_def d)
qed

end
