(* ===== verification/Store_Batch.thy ===== *)
theory Store_Batch
  imports Store_Log
begin

text \<open>
  Writing to the store: the batch builder (\<open>crates/store/src/write/batch.rs\<close>) turns a sequence of
  calls into operations, and the RocksDB backend (\<open>crates/store/src/backend/rocksdb/write.rs\<close>)
  executes them as one transaction. The database is a map from a subspace (its column family) and
  a key to the bytes stored there; RocksDB itself, which makes the transaction atomic, is not
  modelled beyond that. A transaction that fails leaves the database as it was.
\<close>

section \<open>Operations\<close>

datatype store_error =
    NotFound | DataCorruption | UnexpectedError | AssertValueFailed | NoChangeIds | SerializeError

datatype archive_version = Versioned u64 u32 | Hashed u32 | Unversioned

datatype assert_value = AssertU32 u32 | AssertU64 u64 | AssertArchive archive_version | AssertSome | AssertNone

datatype assigned_id = Counter u64 | ChangeIdOf u32 u64

record assigned_ids =
  ids :: "assigned_id list"
  current_change_id :: "u64 option"

definition no_ids :: assigned_ids where "no_ids = \<lparr>ids = [], current_change_id = None\<rparr>"

datatype merge_result = Update bytes | Skip | Delete

text \<open>The parameters of a set or merge function are captured by the function.\<close>

datatype value_op =
    Set bytes
  | SetFnc "assigned_ids \<Rightarrow> store_error + bytes"
  | MergeFnc "assigned_ids \<Rightarrow> bytes option \<Rightarrow> store_error + merge_result"
  | AtomicAdd u64
  | AddAndGet u64
  | Clear

datatype log_collection = LogSync sync_collection | LogVanished vanished_collection

fun log_collection_u8 :: "log_collection \<Rightarrow> u8" where
  "log_collection_u8 (LogSync c) = sync_collection_u8 c"
| "log_collection_u8 (LogVanished c) = vanished_collection_u8 c"

datatype operation =
    OpAccountId u32
  | OpCollection collection
  | OpDocumentId u32
  | OpAssertValue value_class assert_value
  | OpValue value_class value_op
  | OpIndex u8 bytes bool
  | OpLog log_collection bytes

text \<open>
  \<open>AssertValue::matches\<close>. The slices count from the end; \<open>bytes.len() - n\<close> wraps on short values
  and \<open>get\<close> then returns nothing.
\<close>

definition last_bytes :: "nat \<Rightarrow> nat \<Rightarrow> bytes \<Rightarrow> bytes option" where
  "last_bytes n skip bs =
    (if n + skip \<le> length bs then Some (take n (drop (length bs - n - skip) bs)) else None)"

fun assert_matches :: "assert_value \<Rightarrow> bytes \<Rightarrow> bool" where
  "assert_matches (AssertU32 v) bs \<longleftrightarrow> last_bytes 4 0 bs = Some (be32 v)"
| "assert_matches (AssertU64 v) bs \<longleftrightarrow> last_bytes 8 0 bs = Some (be64 v)"
| "assert_matches (AssertArchive v) bs \<longleftrightarrow>
    (case v of
       Versioned _ h \<Rightarrow> last_bytes 4 9 bs = Some (be32 h)
     | Hashed h \<Rightarrow> last_bytes 4 1 bs = Some (be32 h)
     | Unversioned \<Rightarrow> False)"
| "assert_matches AssertNone bs \<longleftrightarrow> False"
| "assert_matches AssertSome bs \<longleftrightarrow> True"

fun assert_is_none :: "assert_value \<Rightarrow> bool" where
  "assert_is_none AssertNone = True"
| "assert_is_none _ = False"

section \<open>Assigned ids\<close>

definition push_counter_id :: "u64 \<Rightarrow> assigned_ids \<Rightarrow> assigned_ids" where
  "push_counter_id i a = a\<lparr>ids := ids a @ [Counter i]\<rparr>"

definition push_change_id :: "u32 \<Rightarrow> u64 \<Rightarrow> assigned_ids \<Rightarrow> assigned_ids" where
  "push_change_id account_id change_id a = a\<lparr>ids := ids a @ [ChangeIdOf account_id change_id]\<rparr>"

text \<open>\<open>filter_map(..).next_back()\<close>: the last one.\<close>

definition last_option :: "'a list \<Rightarrow> 'a option" where
  "last_option xs = (if xs = [] then None else Some (last xs))"

definition last_change_id :: "u32 \<Rightarrow> assigned_ids \<Rightarrow> u64 option" where
  "last_change_id account_id a =
    last_option (List.map_filter (\<lambda>i. case i of ChangeIdOf ac c \<Rightarrow> if ac = account_id then Some c else None
                                  | _ \<Rightarrow> None) (ids a))"

definition last_counter_id :: "assigned_ids \<Rightarrow> u64 option" where
  "last_counter_id a =
    last_option (List.map_filter (\<lambda>i. case i of Counter c \<Rightarrow> Some c | _ \<Rightarrow> None) (ids a))"

section \<open>The batch builder\<close>

record changed_collection =
  changed_containers :: u64
  changed_items :: u64
  share_notification_id :: "u64 option"

definition no_changed_collection :: changed_collection where
  "no_changed_collection = \<lparr>changed_containers = 0, changed_items = 0, share_notification_id = None\<rparr>"

record batch_builder =
  current_account_id :: "u32 option"
  current_collection :: "collection option"
  current_document_id :: "u32 option"
  batch_changes :: "(u32, change_log) vec_map"
  changed_collections :: "(u32, changed_collection) vec_map"
  has_assertions :: bool
  batch_size :: nat
  batch_ops :: nat
  commit_points :: "nat list"
  ops :: "operation list"

definition new_batch :: batch_builder where
  "new_batch = \<lparr>current_account_id = None, current_collection = None, current_document_id = None,
     batch_changes = [], changed_collections = [], has_assertions = False, batch_size = 0, batch_ops = 0,
     commit_points = [], ops = []\<rparr>"

definition push_op :: "operation \<Rightarrow> batch_builder \<Rightarrow> batch_builder" where
  "push_op o' b = b\<lparr>ops := ops b @ [o']\<rparr>"

definition count_op :: "nat \<Rightarrow> batch_builder \<Rightarrow> batch_builder" where
  "count_op n b = b\<lparr>batch_size := batch_size b + n, batch_ops := batch_ops b + 1\<rparr>"

definition with_account_id :: "u32 \<Rightarrow> batch_builder \<Rightarrow> batch_builder" where
  "with_account_id account_id b =
    (if current_account_id b \<noteq> Some account_id
     then push_op (OpAccountId account_id) (b\<lparr>current_account_id := Some account_id\<rparr>) else b)"

definition with_collection :: "collection \<Rightarrow> batch_builder \<Rightarrow> batch_builder" where
  "with_collection c b =
    (if Some c \<noteq> current_collection b
     then push_op (OpCollection c) (b\<lparr>current_collection := Some c\<rparr>) else b)"

definition with_document :: "u32 \<Rightarrow> batch_builder \<Rightarrow> batch_builder" where
  "with_document document_id b =
    (push_op (OpDocumentId document_id) b)\<lparr>current_document_id := Some document_id, has_assertions := False\<rparr>"

text \<open>\<open>ValueClass::serialized_size\<close>, the estimate that the builder adds up.\<close>

definition class_serialized_size :: "value_class \<Rightarrow> nat" where
  "class_serialized_size class =
    (case class of
       Property _ \<Rightarrow> 4 * 2 + 3
     | IndexProperty p \<Rightarrow> (case p of HashProperty _ hash \<Rightarrow> 4 * 2 + 3 + cheeky_len hash
         | IntegerProperty _ _ \<Rightarrow> 4 * 2 + 3 + 8)
     | Acl _ \<Rightarrow> 4 * 3 + 2
     | InMemory lookup \<Rightarrow> (case lookup of InMemoryKey v \<Rightarrow> length v | InMemoryCounter v \<Rightarrow> length v)
     | Config v \<Rightarrow> length v
     | Directory d \<Rightarrow> (case d of NameToId v \<Rightarrow> length v | EmailToId v \<Rightarrow> length v
         | DirectoryPrincipal _ \<Rightarrow> 4 | UsedQuota _ \<Rightarrow> 4 | Members _ _ \<Rightarrow> 4 * 2 | MemberOf _ _ \<Rightarrow> 4 * 2
         | DirectoryIndex word _ \<Rightarrow> length word + 4)
     | Blob op \<Rightarrow> (case op of BlobCommit _ \<Rightarrow> 32
         | BlobLink _ to \<Rightarrow> 32 + (case to of LinkId _ \<Rightarrow> 8 | LinkDocument \<Rightarrow> 4 * 2 + 1 | LinkTemporary _ \<Rightarrow> 4 + 8)
         | BlobQuota _ _ \<Rightarrow> 32 + 4 + 8 + 1 | BlobUndelete _ _ \<Rightarrow> 32 + 4 + 8 + 1
         | BlobSpamSample _ _ \<Rightarrow> 32 + 4 + 2)
     | TaskQueue e \<Rightarrow> (case e of UpdateIndex _ _ _ \<Rightarrow> 8 * 2 + 2
         | SendAlarm _ _ _ _ \<Rightarrow> 8 + 4 * 3 + 1 | MergeThreads _ \<Rightarrow> 8 + 4 * 3 + 1
         | SendImip _ is_payload \<Rightarrow> if is_payload then 8 * 2 + 4 * 2 + 1 else 8 + 4 * 2 + 1)
     | Queue q \<Rightarrow> (case q of QueueMessage _ \<Rightarrow> 8 | MessageEvent _ \<Rightarrow> 8 * 3
         | DmarcReportEvent e \<Rightarrow> length (report_domain e) + 8 * 3
         | TlsReportEvent e \<Rightarrow> length (report_domain e) + 8 * 3
         | DmarcReportHeader e \<Rightarrow> length (report_domain e) + 8 * 3 + 1
         | TlsReportHeader e \<Rightarrow> length (report_domain e) + 8 * 3 + 1
         | QuotaCount v \<Rightarrow> length v | QuotaSize v \<Rightarrow> length v)
     | Report _ \<Rightarrow> 8 * 2 + 1
     | Telemetry t \<Rightarrow> (case t of TelemetrySpan _ \<Rightarrow> 8 + 1 | TelemetryMetric _ _ _ \<Rightarrow> 8 * 2 + 1)
     | DocumentId \<Rightarrow> 4 + 1
     | ChangeId \<Rightarrow> 4
     | ShareNotification _ _ \<Rightarrow> 4 + 8 + 1
     | SearchIndexClass _ oid typ \<Rightarrow>
        (case typ of
           SearchTerm _ hash \<Rightarrow> 8 + cheeky_len hash + 2
         | SearchField _ data \<Rightarrow> 1 + length data + 8
         | SearchDocument \<Rightarrow> (case oid of SearchAccount _ _ \<Rightarrow> 1 + 4 * 2 | SearchGlobal _ \<Rightarrow> 1 + 8))
     | Any _ key \<Rightarrow> length key)"

definition assert_value_op :: "value_class \<Rightarrow> assert_value \<Rightarrow> batch_builder \<Rightarrow> batch_builder" where
  "assert_value_op class v b =
    (push_op (OpAssertValue class v) b)\<lparr>batch_ops := batch_ops b + 1, has_assertions := True\<rparr>"

definition index_op :: "u8 \<Rightarrow> bytes \<Rightarrow> bool \<Rightarrow> batch_builder \<Rightarrow> batch_builder" where
  "index_op field key to_set b = count_op (4 * 3 + length key) (push_op (OpIndex field key to_set) b)"

definition add :: "value_class \<Rightarrow> u64 \<Rightarrow> batch_builder \<Rightarrow> batch_builder" where
  "add class by' b = count_op (class_serialized_size class + 8) (push_op (OpValue class (AtomicAdd by')) b)"

definition add_and_get :: "value_class \<Rightarrow> u64 \<Rightarrow> batch_builder \<Rightarrow> batch_builder" where
  "add_and_get class by' b =
    count_op (class_serialized_size class + 8 * 2) (push_op (OpValue class (AddAndGet by')) b)"

definition set_value :: "value_class \<Rightarrow> bytes \<Rightarrow> batch_builder \<Rightarrow> batch_builder" where
  "set_value class v b =
    count_op (class_serialized_size class + length v) (push_op (OpValue class (Set v)) b)"

definition set_fnc :: "value_class \<Rightarrow> (assigned_ids \<Rightarrow> store_error + bytes) \<Rightarrow> batch_builder \<Rightarrow> batch_builder" where
  "set_fnc class f b = push_op (OpValue class (SetFnc f)) b"

definition merge_fnc ::
  "value_class \<Rightarrow> (assigned_ids \<Rightarrow> bytes option \<Rightarrow> store_error + merge_result) \<Rightarrow> batch_builder \<Rightarrow> batch_builder" where
  "merge_fnc class f b = push_op (OpValue class (MergeFnc f)) b"

definition clear :: "value_class \<Rightarrow> batch_builder \<Rightarrow> batch_builder" where
  "clear class b = count_op (class_serialized_size class) (push_op (OpValue class Clear) b)"

definition acl_grant :: "u32 \<Rightarrow> bytes \<Rightarrow> batch_builder \<Rightarrow> batch_builder" where
  "acl_grant grant_account_id v b =
    count_op (4 * 3 + length v) (push_op (OpValue (Acl grant_account_id) (Set v)) b)"

definition acl_revoke :: "u32 \<Rightarrow> batch_builder \<Rightarrow> batch_builder" where
  "acl_revoke grant_account_id b = count_op (4 * 3) (push_op (OpValue (Acl grant_account_id) Clear) b)"

text \<open>The log functions do nothing unless the builder is at an account and a document.\<close>

definition log_at_document :: "(u32 \<Rightarrow> change_log \<Rightarrow> change_log) \<Rightarrow> batch_builder \<Rightarrow> batch_builder" where
  "log_at_document f b =
    (case (current_account_id b, current_document_id b) of
       (Some account_id, Some document_id) \<Rightarrow>
         b\<lparr>batch_changes := vec_modify account_id empty_change_log (f document_id) (batch_changes b)\<rparr>
     | _ \<Rightarrow> b)"

definition batch_log_item_insert :: "sync_collection \<Rightarrow> u32 option \<Rightarrow> batch_builder \<Rightarrow> batch_builder" where
  "batch_log_item_insert collection prefix = log_at_document (log_item_insert collection prefix)"

definition batch_log_item_update :: "sync_collection \<Rightarrow> u32 option \<Rightarrow> batch_builder \<Rightarrow> batch_builder" where
  "batch_log_item_update collection prefix = log_at_document (log_item_update collection prefix)"

definition batch_log_item_delete :: "sync_collection \<Rightarrow> u32 option \<Rightarrow> batch_builder \<Rightarrow> batch_builder" where
  "batch_log_item_delete collection prefix = log_at_document (log_item_delete collection prefix)"

definition batch_log_container_insert :: "sync_collection \<Rightarrow> batch_builder \<Rightarrow> batch_builder" where
  "batch_log_container_insert collection = log_at_document (log_container_insert collection)"

definition batch_log_container_update :: "sync_collection \<Rightarrow> batch_builder \<Rightarrow> batch_builder" where
  "batch_log_container_update collection = log_at_document (log_container_update collection)"

definition batch_log_container_delete :: "sync_collection \<Rightarrow> batch_builder \<Rightarrow> batch_builder" where
  "batch_log_container_delete collection = log_at_document (log_container_delete collection)"

definition log_container_property_change :: "sync_collection \<Rightarrow> u32 \<Rightarrow> batch_builder \<Rightarrow> batch_builder" where
  "log_container_property_change collection document_id b =
    (case current_account_id b of
       Some account_id \<Rightarrow>
         b\<lparr>batch_changes := vec_modify account_id empty_change_log
             (log_container_property_update collection document_id) (batch_changes b)\<rparr>
     | None \<Rightarrow> b)"

definition batch_log_vanished_item :: "vanished_collection \<Rightarrow> vanished_item \<Rightarrow> batch_builder \<Rightarrow> batch_builder" where
  "batch_log_vanished_item collection item b =
    (case current_account_id b of
       Some account_id \<Rightarrow>
         b\<lparr>batch_size := batch_size b + serialized_size item,
           batch_changes := vec_modify account_id empty_change_log (log_vanished_item collection item)
             (batch_changes b)\<rparr>
     | None \<Rightarrow> b)"

definition log_share_notification :: "u64 \<Rightarrow> u32 \<Rightarrow> bytes \<Rightarrow> batch_builder \<Rightarrow> batch_builder" where
  "log_share_notification notification_id notify_account_id v b =
    set_value (ShareNotification notification_id notify_account_id) v
      (b\<lparr>changed_collections := vec_modify notify_account_id no_changed_collection
           (\<lambda>cc. cc\<lparr>share_notification_id := Some notification_id\<rparr>) (changed_collections b)\<rparr>)"

text \<open>\<open>serialize_changes\<close>: the recorded changes become log operations, account by account.\<close>

definition mark_changed :: "sync_collection \<Rightarrow> change_sets \<Rightarrow> changed_collection \<Rightarrow> changed_collection" where
  "mark_changed collection c cc =
    (let item = ucast (sync_collection_u8 collection);
         cc = (if has_container_changes c
               then cc\<lparr>changed_containers := bitmap_insert item (changed_containers cc)\<rparr> else cc)
     in if has_item_changes c then cc\<lparr>changed_items := bitmap_insert item (changed_items cc)\<rparr> else cc)"

definition serialize_collection :: "u32 \<Rightarrow> sync_collection \<times> change_sets \<Rightarrow> batch_builder \<Rightarrow> batch_builder" where
  "serialize_collection account_id e b =
    (case e of (collection, c) \<Rightarrow>
      push_op (OpLog (LogSync collection) (serialize_changes c))
        (b\<lparr>changed_collections := vec_modify account_id no_changed_collection (mark_changed collection c)
             (changed_collections b)\<rparr>))"

definition serialize_vanished_collection ::
  "vanished_collection \<times> vanished_item list \<Rightarrow> batch_builder \<Rightarrow> batch_builder" where
  "serialize_vanished_collection e b =
    (case e of (collection, items) \<Rightarrow> push_op (OpLog (LogVanished collection) (serialize_vanished items)) b)"

definition serialize_account :: "u32 \<times> change_log \<Rightarrow> batch_builder \<Rightarrow> batch_builder" where
  "serialize_account e b =
    (case e of (account_id, cl) \<Rightarrow>
      fold serialize_vanished_collection (log_vanished cl)
        (fold (serialize_collection account_id) (log_changes cl) (with_account_id account_id b)))"

definition serialize_batch_changes :: "batch_builder \<Rightarrow> batch_builder" where
  "serialize_batch_changes b = fold serialize_account (batch_changes b) (b\<lparr>batch_changes := []\<rparr>)"

definition is_large_batch :: "batch_builder \<Rightarrow> bool" where
  "is_large_batch b \<longleftrightarrow> batch_size b > 5000000 \<or> batch_ops b > 1000"

definition commit_point :: "batch_builder \<Rightarrow> batch_builder" where
  "commit_point b =
    (if is_large_batch b then
       (let b = serialize_batch_changes b;
            b = b\<lparr>commit_points := commit_points b @ [length (ops b)], batch_ops := 0, batch_size := 0\<rparr>;
            b = (case current_account_id b of Some a \<Rightarrow> push_op (OpAccountId a) b | None \<Rightarrow> b)
        in case current_collection b of Some c \<Rightarrow> push_op (OpCollection c) b | None \<Rightarrow> b)
     else b)"

definition any_op :: "operation \<Rightarrow> batch_builder \<Rightarrow> batch_builder" where
  "any_op o' b = (push_op o' b)\<lparr>batch_ops := batch_ops b + 1\<rparr>"

definition batch_has_changes :: "batch_builder \<Rightarrow> bool" where
  "batch_has_changes b \<longleftrightarrow> changed_collections b \<noteq> []"

definition batch_is_empty :: "batch_builder \<Rightarrow> bool" where
  "batch_is_empty b \<longleftrightarrow> batch_ops b = 0"

text \<open>\<open>commit_points\<close> and its iterator: the offsets at which the operations are cut.\<close>

fun cut_points :: "nat \<Rightarrow> nat list \<Rightarrow> nat \<Rightarrow> (nat \<times> nat) list" where
  "cut_points start [] last_point = [(start, last_point)]"
| "cut_points start (p # ps) last_point = (start, p) # cut_points p ps last_point"

definition take_commit_points :: "batch_builder \<Rightarrow> (nat \<times> nat) list \<times> batch_builder" where
  "take_commit_points b =
    (let b = serialize_batch_changes b in
     (cut_points 0 (commit_points b) (length (ops b)), b\<lparr>commit_points := []\<rparr>))"

record batch =
  changed_accounts :: "(u32, changed_collection) vec_map"
  batch_operations :: "operation list"

definition build_one :: "nat \<times> nat \<Rightarrow> batch_builder \<Rightarrow> batch" where
  "build_one p b = \<lparr>changed_accounts = changed_collections b,
     batch_operations = take (snd p - fst p) (drop (fst p) (ops b))\<rparr>"

definition build_all :: "batch_builder \<Rightarrow> batch" where
  "build_all b = (let b = serialize_batch_changes b in
     \<lparr>changed_accounts = changed_collections b, batch_operations = ops b\<rparr>)"

definition is_atomic :: "batch \<Rightarrow> bool" where
  "is_atomic b \<longleftrightarrow>
    \<not> (\<exists>o' \<in> set (batch_operations b).
        (case o' of OpAssertValue _ _ \<Rightarrow> True | OpValue _ (AddAndGet _) \<Rightarrow> True | _ \<Rightarrow> False))"

section \<open>The transaction\<close>

type_synonym database = "u8 \<times> bytes \<Rightarrow> bytes option"

definition le64 :: "u64 \<Rightarrow> bytes" where "le64 v = rev (be64 v)"

definition deserialize_i64_le :: "bytes \<Rightarrow> u64 option" where
  "deserialize_i64_le bs = (if length bs = 8 then Some (word_of_nat (from_be_bytes (rev bs))) else None)"

text \<open>The merge operator of the counters; \<open>None\<close> is a value that is no 64-bit number.\<close>

definition numeric_value_merge :: "bytes option \<Rightarrow> u64 \<Rightarrow> bytes option" where
  "numeric_value_merge v by' =
    map_option (\<lambda>n. le64 (n + by')) (case v of None \<Rightarrow> Some 0 | Some b \<Rightarrow> deserialize_i64_le b)"

record txn =
  db :: database
  txn_account :: u32
  txn_collection :: u8
  txn_document :: u32
  txn_change_id :: u64
  txn_result :: assigned_ids

definition put :: "u8 \<Rightarrow> bytes \<Rightarrow> bytes \<Rightarrow> txn \<Rightarrow> txn" where
  "put s k v t = t\<lparr>db := (db t)((s, k) := Some v)\<rparr>"

definition delete :: "u8 \<Rightarrow> bytes \<Rightarrow> txn \<Rightarrow> txn" where
  "delete s k t = t\<lparr>db := (db t)((s, k) := None)\<rparr>"

definition txn_key :: "value_class \<Rightarrow> txn \<Rightarrow> u8 \<times> bytes" where
  "txn_key class t =
    (subspace class (txn_collection t),
     class_serialize class (txn_account t) (txn_collection t) (txn_document t) 0)"

text \<open>
  One value operation. An addition only leaves a request to the merge operator, which runs when the key
  is read, so it never fails: a counter that is no 64-bit number stays one that can not be read.
\<close>

definition exec_value :: "u8 \<times> bytes \<Rightarrow> value_op \<Rightarrow> txn \<Rightarrow> store_error + txn" where
  "exec_value k op t =
    (case op of
       Set v \<Rightarrow> Inr (put (fst k) (snd k) v t)
     | SetFnc f \<Rightarrow> (case f (txn_result t) of Inl e \<Rightarrow> Inl e | Inr v \<Rightarrow> Inr (put (fst k) (snd k) v t))
     | MergeFnc f \<Rightarrow>
        (case f (txn_result t) (db t k) of
           Inl e \<Rightarrow> Inl e
         | Inr (Update v) \<Rightarrow> Inr (put (fst k) (snd k) v t)
         | Inr Delete \<Rightarrow> Inr (delete (fst k) (snd k) t)
         | Inr Skip \<Rightarrow> Inr t)
     | AtomicAdd by' \<Rightarrow>
        Inr (case numeric_value_merge (db t k) by' of Some v \<Rightarrow> put (fst k) (snd k) v t | None \<Rightarrow> t)
     | AddAndGet by' \<Rightarrow>
        (case (case db t k of Some b \<Rightarrow> map_option (\<lambda>n. n + by') (deserialize_i64_le b) | None \<Rightarrow> Some by') of
           Some n \<Rightarrow> Inr ((put (fst k) (snd k) (le64 n) t)\<lparr>txn_result := push_counter_id n (txn_result t)\<rparr>)
         | None \<Rightarrow> Inl DataCorruption)
     | Clear \<Rightarrow> Inr (delete (fst k) (snd k) t))"

definition exec_op :: "bool \<Rightarrow> operation \<Rightarrow> txn \<Rightarrow> store_error + txn" where
  "exec_op hc o' t =
    (case o' of
       OpAccountId a \<Rightarrow>
        (let t = t\<lparr>txn_account := a\<rparr> in
         if hc then
           (case last_change_id a (txn_result t) of
              None \<Rightarrow> Inl NoChangeIds
            | Some c \<Rightarrow> Inr (t\<lparr>txn_change_id := c,
                              txn_result := (txn_result t)\<lparr>current_change_id := Some c\<rparr>\<rparr>))
         else Inr t)
     | OpCollection c \<Rightarrow> Inr (t\<lparr>txn_collection := collection_u8 c\<rparr>)
     | OpDocumentId d \<Rightarrow> Inr (t\<lparr>txn_document := d\<rparr>)
     | OpValue class op \<Rightarrow> exec_value (txn_key class t) op t
     | OpIndex field key to_set \<Rightarrow>
        (let k = index_key (txn_account t) (txn_collection t) (txn_document t) field key 0 in
         Inr (if to_set then put SUBSPACE_INDEXES k [] t else delete SUBSPACE_INDEXES k t))
     | OpLog collection v \<Rightarrow>
         Inr (put SUBSPACE_LOGS (log_key (txn_account t) (log_collection_u8 collection) (txn_change_id t) 0) v t)
     | OpAssertValue class v \<Rightarrow>
        (if (case db t (txn_key class t) of Some b \<Rightarrow> assert_matches v b | None \<Rightarrow> assert_is_none v)
         then Inr t else Inl AssertValueFailed))"

fun exec_ops :: "bool \<Rightarrow> operation list \<Rightarrow> txn \<Rightarrow> store_error + txn" where
  "exec_ops hc [] t = Inr t"
| "exec_ops hc (o' # os) t = (case exec_op hc o' t of Inl e \<Rightarrow> Inl e | Inr t' \<Rightarrow> exec_ops hc os t')"

text \<open>The next change id of an account, and the counter that holds it.\<close>

definition assign_change_id :: "u32 \<Rightarrow> txn \<Rightarrow> store_error + txn" where
  "assign_change_id account_id t =
    (let k = (SUBSPACE_COUNTER, class_serialize ChangeId account_id 0 0 0) in
     case (case db t k of Some b \<Rightarrow> map_option (\<lambda>v. v + 1) (deserialize_i64_le b) | None \<Rightarrow> Some 1) of
       Some c \<Rightarrow> Inr ((put (fst k) (snd k) (le64 c) t)\<lparr>txn_result := push_change_id account_id c (txn_result t)\<rparr>)
     | None \<Rightarrow> Inl DataCorruption)"

fun assign_change_ids :: "u32 list \<Rightarrow> txn \<Rightarrow> store_error + txn" where
  "assign_change_ids [] t = Inr t"
| "assign_change_ids (a # as) t =
    (case assign_change_id a t of Inl e \<Rightarrow> Inl e | Inr t' \<Rightarrow> assign_change_ids as t')"

definition begin_txn :: "database \<Rightarrow> txn" where
  "begin_txn d = \<lparr>db = d, txn_account = - 1, txn_collection = - 1, txn_document = - 1, txn_change_id = 0,
     txn_result = no_ids\<rparr>"

definition commit :: "batch \<Rightarrow> database \<Rightarrow> store_error + assigned_ids \<times> database" where
  "commit b d =
    (case assign_change_ids (map fst (changed_accounts b)) (begin_txn d) of
       Inl e \<Rightarrow> Inl e
     | Inr t \<Rightarrow>
        (case exec_ops (changed_accounts b \<noteq> []) (batch_operations b) t of
           Inl e \<Rightarrow> Inl e
         | Inr t' \<Rightarrow> Inr (txn_result t', db t')))"

section \<open>Builder calls\<close>

datatype builder_call =
    WithAccount u32 | WithCollection collection | WithDocument u32
  | AssertCall value_class assert_value | ValueCall value_class value_op | IndexCall u8 bytes bool
  | LogCall "u32 \<Rightarrow> change_log \<Rightarrow> change_log" | CommitPoint

definition value_call :: "value_class \<Rightarrow> value_op \<Rightarrow> batch_builder \<Rightarrow> batch_builder" where
  "value_call class op =
    (case op of
       Set v \<Rightarrow> set_value class v | SetFnc f \<Rightarrow> set_fnc class f | MergeFnc f \<Rightarrow> merge_fnc class f
     | AtomicAdd n \<Rightarrow> add class n | AddAndGet n \<Rightarrow> add_and_get class n | Clear \<Rightarrow> clear class)"

fun run_call :: "builder_call \<Rightarrow> batch_builder \<Rightarrow> batch_builder" where
  "run_call (WithAccount a) = with_account_id a"
| "run_call (WithCollection c) = with_collection c"
| "run_call (WithDocument d) = with_document d"
| "run_call (AssertCall class v) = assert_value_op class v"
| "run_call (ValueCall class op) = value_call class op"
| "run_call (IndexCall f k s) = index_op f k s"
| "run_call (LogCall f) = log_at_document f"
| "run_call CommitPoint = commit_point"

definition run_calls :: "builder_call list \<Rightarrow> batch_builder \<Rightarrow> batch_builder" where
  "run_calls cs b = fold run_call cs b"

named_theorems builder_defs \<open>the builder's calls\<close>
lemmas [builder_defs] = push_op_def count_op_def with_account_id_def with_collection_def with_document_def
  assert_value_op_def index_op_def add_def add_and_get_def set_value_def set_fnc_def merge_fnc_def clear_def
  log_at_document_def value_call_def

subsection \<open>The commit points cut the operations\<close>

definition cuts_ok :: "batch_builder \<Rightarrow> bool" where
  "cuts_ok b \<longleftrightarrow> sorted (commit_points b) \<and> (\<forall>p \<in> set (commit_points b). p \<le> length (ops b))"

definition extends :: "batch_builder \<Rightarrow> batch_builder \<Rightarrow> bool" where
  "extends b b' \<longleftrightarrow> commit_points b' = commit_points b \<and> (\<exists>os. ops b' = ops b @ os)"

lemma extends_refl [simp]: "extends b b"
  by (simp add: extends_def)

lemma extends_trans: "extends a b \<Longrightarrow> extends b c \<Longrightarrow> extends a c"
  by (auto simp: extends_def)

lemma extends_cuts: "extends b b' \<Longrightarrow> cuts_ok b \<Longrightarrow> cuts_ok b'"
  by (fastforce simp: extends_def cuts_ok_def)

lemma extends_push [simp]: "extends b (push_op o' b)"
  by (simp add: extends_def push_op_def)

lemma extends_fold: "(\<And>x b. extends b (f x b)) \<Longrightarrow> extends b (fold f xs b)"
  by (induction xs arbitrary: b) (auto intro: extends_trans)

lemma extends_account [simp]: "extends b (with_account_id a b)"
  by (simp add: extends_def with_account_id_def push_op_def)

lemma extends_serialize: "extends b (serialize_batch_changes b)"
proof -
  have c: "extends b (serialize_collection a e b)" for a e b
    by (cases e) (simp add: serialize_collection_def extends_def push_op_def)
  have v: "extends b (serialize_vanished_collection e b)" for e b
    by (cases e) (simp add: serialize_vanished_collection_def extends_def push_op_def)
  have "extends b (serialize_account e b)" for e b
    unfolding serialize_account_def
    by (cases e) (auto intro!: extends_fold c v intro: extends_trans [OF _ extends_fold] extends_trans [OF extends_account])
  then have "extends (b\<lparr>batch_changes := []\<rparr>) (serialize_batch_changes b)"
    unfolding serialize_batch_changes_def by (rule extends_fold)
  then show ?thesis by (simp add: extends_def)
qed

lemma cuts_commit_point: "cuts_ok b \<Longrightarrow> cuts_ok (commit_point b)"
proof -
  assume "cuts_ok b"
  then have "cuts_ok (serialize_batch_changes b)" by (rule extends_cuts [OF extends_serialize])
  then show ?thesis
    using \<open>cuts_ok b\<close> unfolding commit_point_def Let_def cuts_ok_def push_op_def
    by (auto simp: sorted_append split: option.split)
qed

lemma cuts_run_call: "cuts_ok b \<Longrightarrow> cuts_ok (run_call c b)"
proof (cases c)
  case CommitPoint
  assume "cuts_ok b"
  with CommitPoint show ?thesis by (simp add: cuts_commit_point)
qed (auto simp: builder_defs cuts_ok_def le_SucI split: option.splits value_op.splits)

lemma cuts_run_calls: "cuts_ok (run_calls cs new_batch)"
proof -
  have "cuts_ok b \<Longrightarrow> cuts_ok (fold run_call cs b)" for b
    by (induction cs arbitrary: b) (simp_all add: cuts_run_call)
  then show ?thesis by (simp add: run_calls_def cuts_ok_def new_batch_def)
qed

lemma cut_points_concat:
  assumes "sorted (start # ps)" and "\<forall>p \<in> set (start # ps). p \<le> length xs"
  shows "concat (map (\<lambda>(a, b). take (b - a) (drop a xs)) (cut_points start ps (length xs))) = drop start xs"
  using assms
proof (induction ps arbitrary: start)
  case (Cons p ps)
  have "take (p - start) (drop start xs) @ drop p xs = drop start xs"
    using Cons.prems by (metis append_take_drop_id drop_drop le_add_diff_inverse2 list.set_intros(1) sorted_simps(2))
  with Cons.IH [of p] Cons.prems show ?case by simp
qed simp

subsection \<open>Building, then executing, is executing the calls\<close>

fun direct_call :: "bool \<Rightarrow> builder_call \<Rightarrow> txn \<Rightarrow> store_error + txn" where
  "direct_call hc (WithAccount a) t = exec_op hc (OpAccountId a) t"
| "direct_call hc (WithCollection c) t = exec_op hc (OpCollection c) t"
| "direct_call hc (WithDocument d) t = exec_op hc (OpDocumentId d) t"
| "direct_call hc (AssertCall class v) t = exec_op hc (OpAssertValue class v) t"
| "direct_call hc (ValueCall class op) t = exec_op hc (OpValue class op) t"
| "direct_call hc (IndexCall f k s) t = exec_op hc (OpIndex f k s) t"
| "direct_call hc (LogCall f) t = Inr t"
| "direct_call hc CommitPoint t = Inr t"

fun direct_calls :: "bool \<Rightarrow> builder_call list \<Rightarrow> txn \<Rightarrow> store_error + txn" where
  "direct_calls hc [] t = Inr t"
| "direct_calls hc (c # cs) t = (case direct_call hc c t of Inl e \<Rightarrow> Inl e | Inr t' \<Rightarrow> direct_calls hc cs t')"

lemma exec_ops_append:
  "exec_ops hc (os @ os') t = (case exec_ops hc os t of Inl e \<Rightarrow> Inl e | Inr t' \<Rightarrow> exec_ops hc os' t')"
  by (induction os arbitrary: t) (auto split: sum.splits)

definition in_context :: "bool \<Rightarrow> batch_builder \<Rightarrow> txn \<Rightarrow> bool" where
  "in_context hc b t \<longleftrightarrow>
    (\<forall>a. current_account_id b = Some a \<longrightarrow> exec_op hc (OpAccountId a) t = Inr t) \<and>
    (\<forall>c. current_collection b = Some c \<longrightarrow> txn_collection t = collection_u8 c)"

lemma last_change_id_push_counter [simp]: "last_change_id a (push_counter_id n r) = last_change_id a r"
  by (simp add: last_change_id_def push_counter_id_def map_filter_def)

lemma account_op_fixed:
  "exec_op hc (OpAccountId a) t = Inr t \<longleftrightarrow>
    txn_account t = a \<and> (hc \<longrightarrow> last_change_id a (txn_result t) = Some (txn_change_id t)
      \<and> assigned_ids.current_change_id (txn_result t) = Some (txn_change_id t))"
proof (cases hc)
  case True
  then show ?thesis
    by (cases t; cases "txn_result t") (auto simp: exec_op_def Let_def split: option.splits)
next
  case False
  then show ?thesis by (cases t) (auto simp: exec_op_def Let_def)
qed

lemma exec_value_context:
  "exec_value k op t = Inr t' \<Longrightarrow> txn_account t' = txn_account t \<and> txn_collection t' = txn_collection t
    \<and> txn_change_id t' = txn_change_id t \<and> last_change_id a (txn_result t') = last_change_id a (txn_result t)
    \<and> assigned_ids.current_change_id (txn_result t') = assigned_ids.current_change_id (txn_result t)"
  by (auto simp: exec_value_def put_def delete_def push_counter_id_def last_change_id_def map_filter_def
      split: value_op.splits sum.splits option.splits merge_result.splits)

definition same_context :: "txn \<Rightarrow> txn \<Rightarrow> bool" where
  "same_context t t' \<longleftrightarrow> txn_account t' = txn_account t \<and> txn_collection t' = txn_collection t
    \<and> txn_change_id t' = txn_change_id t \<and> (\<forall>a. last_change_id a (txn_result t') = last_change_id a (txn_result t))
    \<and> assigned_ids.current_change_id (txn_result t') = assigned_ids.current_change_id (txn_result t)"

lemma in_context_same: "in_context hc b t \<Longrightarrow> same_context t t' \<Longrightarrow> in_context hc b t'"
  by (simp add: in_context_def same_context_def account_op_fixed)

lemma exec_op_same_context:
  assumes "exec_op hc o' t = Inr t'" and "\<And>a. o' \<noteq> OpAccountId a" and "\<And>c. o' \<noteq> OpCollection c"
  shows "same_context t t'"
  using assms
  by (cases o') (auto simp: exec_op_def same_context_def Let_def put_def delete_def
      dest: exec_value_context split: if_splits option.splits)

lemma exec_op_account_fixed: "exec_op hc (OpAccountId a) t = Inr t' \<Longrightarrow> exec_op hc (OpAccountId a) t' = Inr t'"
  by (auto simp: exec_op_def Let_def last_change_id_def split: if_splits option.splits)


lemma account_call_context:
  assumes "in_context hc b t" "exec_op hc (OpAccountId a) t = Inr t'"
  shows "in_context hc (with_account_id a b) t'"
proof -
  have "txn_collection t' = txn_collection t"
    using assms(2) by (auto simp: exec_op_def Let_def split: if_splits option.splits)
  with assms exec_op_account_fixed [OF assms(2)] show ?thesis
    by (auto simp: in_context_def builder_defs)
qed

lemma collection_call_context:
  "in_context hc b t \<Longrightarrow> in_context hc (with_collection c b) (t\<lparr>txn_collection := collection_u8 c\<rparr>)"
  by (auto simp: in_context_def builder_defs account_op_fixed)

definition context_free :: "builder_call \<Rightarrow> bool" where
  "context_free c \<longleftrightarrow> (\<forall>a. c \<noteq> WithAccount a) \<and> (\<forall>k. c \<noteq> WithCollection k) \<and> c \<noteq> CommitPoint"

fun op_of_call :: "builder_call \<Rightarrow> operation list" where
  "op_of_call (WithAccount a) = [OpAccountId a]" | "op_of_call (WithCollection c) = [OpCollection c]"
| "op_of_call (WithDocument d) = [OpDocumentId d]" | "op_of_call (AssertCall class v) = [OpAssertValue class v]"
| "op_of_call (ValueCall class op) = [OpValue class op]" | "op_of_call (IndexCall f k s) = [OpIndex f k s]"
| "op_of_call _ = []"

lemma direct_call_ops: "direct_call hc c t = exec_ops hc (op_of_call c) t"
  by (cases c) (simp_all split: sum.split)

lemma context_free_call:
  assumes "context_free c"
  shows "ops (run_call c b) = ops b @ op_of_call c"
    and "current_account_id (run_call c b) = current_account_id b"
    and "current_collection (run_call c b) = current_collection b"
  using assms
  by (cases c; simp add: context_free_def builder_defs split: option.split value_op.split)+

lemma context_free_same_context:
  "context_free c \<Longrightarrow> direct_call hc c t = Inr t' \<Longrightarrow> same_context t t'"
  by (cases c) (auto simp: context_free_def same_context_def simp del: exec_op_def
      dest: exec_op_same_context [unfolded same_context_def])

lemma run_call_direct:
  assumes "in_context hc b t" and "c \<noteq> CommitPoint"
  obtains os where "ops (run_call c b) = ops b @ os" and "exec_ops hc os t = direct_call hc c t"
    and "\<And>t'. direct_call hc c t = Inr t' \<Longrightarrow> in_context hc (run_call c b) t'"
proof (cases c)
  case (WithAccount a)
  show ?thesis
  proof (cases "current_account_id b = Some a")
    case True
    with assms(1) have "exec_op hc (OpAccountId a) t = Inr t" by (simp add: in_context_def)
    with WithAccount True assms(1) show ?thesis by (intro that [of "[]"]) (simp_all add: with_account_id_def)
  next
    case False
    with WithAccount have "ops (run_call c b) = ops b @ [OpAccountId a]" by (simp add: with_account_id_def push_op_def)
    moreover have "in_context hc (run_call c b) t'" if "direct_call hc c t = Inr t'" for t'
      using account_call_context [OF assms(1)] that WithAccount by simp
    ultimately show ?thesis using WithAccount by (intro that [of "[OpAccountId a]"]) (simp_all split: sum.split)
  qed
next
  case (WithCollection k)
  show ?thesis
  proof (cases "current_collection b = Some k")
    case True
    with assms(1) have "t\<lparr>txn_collection := collection_u8 k\<rparr> = t" by (simp add: in_context_def)
    with WithCollection True assms(1) show ?thesis
      by (intro that [of "[]"]) (simp_all add: with_collection_def exec_op_def)
  next
    case False
    with WithCollection have "ops (run_call c b) = ops b @ [OpCollection k]" by (simp add: with_collection_def push_op_def)
    moreover have "in_context hc (run_call c b) t'" if "direct_call hc c t = Inr t'" for t'
      using collection_call_context [OF assms(1), of k] that WithCollection by (simp add: exec_op_def)
    ultimately show ?thesis using WithCollection by (intro that [of "[OpCollection k]"]) (simp_all split: sum.split)
  qed
next
  case CommitPoint
  with assms(2) show ?thesis by simp
qed (rule that [of "op_of_call c"];
     use assms context_free_call [of c b] context_free_same_context [of c hc t] in_context_same [OF assms(1)]
     in \<open>auto simp: context_free_def direct_call_ops in_context_def simp del: run_call.simps direct_call.simps op_of_call.simps\<close>)+

lemma ops_run_call: "\<exists>os. ops (run_call c b) = ops b @ os"
proof (cases c)
  case CommitPoint
  with extends_serialize [of b] show ?thesis
    by (auto simp: extends_def commit_point_def Let_def push_op_def split: option.split)
qed (auto simp: builder_defs split: option.split value_op.split)

lemma ops_run_calls: "\<exists>os. ops (run_calls cs b) = ops b @ os"
  unfolding run_calls_def
proof (induction cs arbitrary: b)
  case (Cons c cs)
  from ops_run_call [of c b] Cons.IH [of "run_call c b"] show ?case by auto
qed simp

lemma run_calls_direct:
  assumes "in_context hc b t" and "CommitPoint \<notin> set cs"
  shows "\<exists>os. ops (run_calls cs b) = ops b @ os \<and> exec_ops hc os t = direct_calls hc cs t"
  using assms
proof (induction cs arbitrary: b t)
  case Nil
  show ?case by (simp add: run_calls_def)
next
  case (Cons c cs)
  obtain os where os: "ops (run_call c b) = ops b @ os" "exec_ops hc os t = direct_call hc c t"
    "\<And>t'. direct_call hc c t = Inr t' \<Longrightarrow> in_context hc (run_call c b) t'"
    using run_call_direct [OF Cons.prems(1), of c] Cons.prems(2) by auto
  show ?case
  proof (cases "direct_call hc c t")
    case (Inl e)
    with ops_run_calls [of cs "run_call c b"] os show ?thesis by (auto simp: run_calls_def exec_ops_append)
  next
    case (Inr t')
    from Cons.IH [OF os(3) [OF Inr]] Cons.prems(2) obtain os' where
      "ops (run_calls cs (run_call c b)) = ops (run_call c b) @ os'" "exec_ops hc os' t' = direct_calls hc cs t'" by auto
    with os Inr show ?thesis by (auto simp: run_calls_def exec_ops_append)
  qed
qed

lemma in_context_new: "in_context hc new_batch t"
  by (simp add: in_context_def new_batch_def)

section \<open>Properties\<close>

definition large_batch :: batch_builder where
  "large_batch = new_batch\<lparr>current_account_id := Some 7, current_collection := Some Email, batch_ops := 1001,
     ops := [OpAccountId 7, OpCollection Email]\<rparr>"

lemma take_commit_points_eq:
  "take_commit_points b = (cut_points 0 (commit_points b) (length (ops (serialize_batch_changes b))),
     (serialize_batch_changes b)\<lparr>commit_points := []\<rparr>)"
  using extends_serialize [of b] by (simp add: take_commit_points_def Let_def extends_def)

text \<open>
  A builder's chunks cover its operations: whatever calls were made, and however often a large
  batch was cut at a commit point, the batches that the commit points select, put one after
  another, hold exactly the operations of the builder, each once and in order.
\<close>

theorem chunks_cover_ops:
  "concat (map (\<lambda>p. batch_operations (build_one p (snd (take_commit_points (run_calls cs new_batch)))))
       (fst (take_commit_points (run_calls cs new_batch))))
     = ops (serialize_batch_changes (run_calls cs new_batch))"
proof -
  let ?b = "run_calls cs new_batch"
  let ?b' = "serialize_batch_changes ?b"
  have b': "cuts_ok ?b'" by (rule extends_cuts [OF extends_serialize cuts_run_calls])
  have e: "commit_points ?b' = commit_points ?b" using extends_serialize [of ?b] by (simp add: extends_def)
  from b' have "concat (map (\<lambda>(a, b). take (b - a) (drop a (ops ?b')))
      (cut_points 0 (commit_points ?b) (length (ops ?b')))) = drop 0 (ops ?b')"
    unfolding cuts_ok_def e by (intro cut_points_concat) simp_all
  then show ?thesis by (simp add: take_commit_points_eq build_one_def case_prod_unfold)
qed

text \<open>
  C33. The builder leaves out the account and collection switches that change nothing, and a
  transaction cannot tell: for calls without a commit point, executing the operations of the
  builder in any transaction gives the state, or the error, that executing every call gives. A commit
  point is excluded because it ends on the last account with changes, not on the caller's account
  (\<open>commit_point_switches_account\<close>).
\<close>

theorem builder_executes_calls:
  assumes "CommitPoint \<notin> set cs"
  shows "exec_ops hc (ops (run_calls cs new_batch)) t = direct_calls hc cs t"
proof -
  from run_calls_direct [OF in_context_new [of hc t] assms] obtain os where
    "ops (run_calls cs new_batch) = ops new_batch @ os" "exec_ops hc os t = direct_calls hc cs t" by auto
  then show ?thesis by (simp add: new_batch_def)
qed

theorem builder_executes_calls_witness:
  "exec_ops False (ops (run_calls [WithAccount 7, WithCollection Email, WithDocument 1,
      ValueCall (Property 3) (Set [1]), WithAccount 7, WithDocument 2, ValueCall (Property 3) Clear] new_batch)) (begin_txn Map.empty)
   = direct_calls False [WithAccount 7, WithCollection Email, WithDocument 1,
      ValueCall (Property 3) (Set [1]), WithAccount 7, WithDocument 2, ValueCall (Property 3) Clear] (begin_txn Map.empty)
   \<and> length (ops (run_calls [WithAccount 7, WithCollection Email, WithDocument 1,
      ValueCall (Property 3) (Set [1]), WithAccount 7, WithDocument 2, ValueCall (Property 3) Clear] new_batch)) = 6"
  (is "exec_ops False (ops (run_calls ?cs new_batch)) ?t = _ \<and> _")
proof -
  have "CommitPoint \<notin> set ?cs" by simp
  from builder_executes_calls [OF this, of False ?t] show ?thesis
    by (simp add: run_calls_def builder_defs new_batch_def)
qed

text \<open>
  A commit point writes the recorded changes account by account and does not go back to the account of
  the caller: what is written after it goes to the last account with changes.
\<close>

lemma serialize_account_current: "current_account_id (serialize_account (a, cl) b) = Some a"
proof -
  have v: "current_account_id (fold serialize_vanished_collection vs b) = current_account_id b" for vs b
    by (induction vs arbitrary: b) (simp_all add: serialize_vanished_collection_def push_op_def split: prod.split)
  have c: "current_account_id (fold (serialize_collection a) cs b) = current_account_id b" for cs b
    by (induction cs arbitrary: b) (simp_all add: serialize_collection_def push_op_def split: prod.split)
  show ?thesis by (simp add: serialize_account_def v c with_account_id_def push_op_def)
qed

lemma commit_point_switches_account:
  assumes "is_large_batch b" and "batch_changes b = earlier @ [(a, cl)]"
  shows "current_account_id (commit_point b) = Some a"
proof -
  have "current_account_id (serialize_batch_changes b) = Some a"
    by (simp add: serialize_batch_changes_def assms(2) serialize_account_current)
  then show ?thesis using assms(1) by (simp add: commit_point_def Let_def push_op_def split: option.split)
qed

text \<open>
  A chunk does not depend on the one before it: when a large batch is cut at a commit point,
  the operations that follow first switch to the builder's account and collection, so executing
  the rest in a transaction of its own is executing the rest of the calls in that account and
  collection. (The document is not restored: every document's changes begin with its own
  \<open>with_document\<close>.)
\<close>

theorem chunk_restores_context:
  assumes "is_large_batch b" and "CommitPoint \<notin> set cs"
    and "current_account_id (serialize_batch_changes b) = Some a"
    and "current_collection (serialize_batch_changes b) = Some c"
  shows "exec_ops hc (drop (last (commit_points (commit_point b))) (ops (run_calls cs (commit_point b)))) t
    = direct_calls hc (WithAccount a # WithCollection c # cs) t"
proof -
  let ?s = "serialize_batch_changes b"
  have o': "ops (commit_point b) = ops ?s @ [OpAccountId a, OpCollection c]"
    "last (commit_points (commit_point b)) = length (ops ?s)"
    "current_account_id (commit_point b) = Some a" "current_collection (commit_point b) = Some c"
    using assms by (simp_all add: commit_point_def Let_def push_op_def)
  show ?thesis
  proof (cases "exec_op hc (OpAccountId a) t")
    case (Inl e)
    with ops_run_calls [of cs "commit_point b"] o' show ?thesis by auto
  next
    case (Inr t1)
    let ?t = "t1\<lparr>txn_collection := collection_u8 c\<rparr>"
    have "in_context hc (commit_point b) ?t"
      using exec_op_account_fixed [OF Inr] o' by (simp add: in_context_def account_op_fixed)
    from run_calls_direct [OF this assms(2)] obtain os where
      "ops (run_calls cs (commit_point b)) = ops (commit_point b) @ os"
      "exec_ops hc os ?t = direct_calls hc cs ?t" by auto
    then show ?thesis using Inr o' by (simp add: exec_op_def)
  qed
qed

theorem chunk_restores_context_witness:
  "exec_ops False (drop (last (commit_points (commit_point large_batch)))
      (ops (run_calls [WithDocument 1, ValueCall (Property 3) Clear] (commit_point large_batch)))) (begin_txn Map.empty)
    = direct_calls False [WithAccount 7, WithCollection Email, WithDocument 1, ValueCall (Property 3) Clear] (begin_txn Map.empty)"
proof -
  have "is_large_batch large_batch" by (simp add: is_large_batch_def large_batch_def)
  moreover have "CommitPoint \<notin> set [WithDocument 1, ValueCall (Property 3) Clear]" by simp
  moreover have "serialize_batch_changes large_batch = large_batch"
    by (simp add: serialize_batch_changes_def large_batch_def new_batch_def)
  ultimately show ?thesis
    using chunk_restores_context [of large_batch "[WithDocument 1, ValueCall (Property 3) Clear]" 7 Email]
    by (simp add: large_batch_def)
qed

text \<open>
  A batch that has just been cut claims to be empty: \<open>commit_point\<close> resets the operation count
  that \<open>is_empty\<close> tests, while all its operations still wait to be committed. A caller that commits
  only a batch that is not empty loses them.
\<close>

theorem cut_batch_claims_empty:
  assumes "is_large_batch b"
  shows "batch_is_empty (commit_point b)
    \<and> (\<exists>os. batch_operations (build_all (commit_point b)) = ops b @ os)"
proof -
  obtain os where os: "ops (serialize_batch_changes b) = ops b @ os"
    using extends_serialize [of b] by (auto simp: extends_def)
  obtain os' where "ops (commit_point b) = ops b @ os'" using ops_run_call [of CommitPoint b] by auto
  moreover obtain os'' where "ops (serialize_batch_changes (commit_point b)) = ops (commit_point b) @ os''"
    using extends_serialize [of "commit_point b"] by (auto simp: extends_def)
  ultimately have "\<exists>os. batch_operations (build_all (commit_point b)) = ops b @ os"
    by (simp add: build_all_def Let_def)
  moreover have "batch_is_empty (commit_point b)"
    using assms by (simp add: batch_is_empty_def commit_point_def Let_def push_op_def split: option.split)
  ultimately show ?thesis by blast
qed

theorem cut_batch_claims_empty_witness:
  "batch_is_empty (commit_point large_batch) \<and> length (batch_operations (build_all (commit_point large_batch))) \<ge> 2"
proof -
  have "is_large_batch large_batch" by (simp add: is_large_batch_def large_batch_def)
  from cut_batch_claims_empty [OF this] show ?thesis by (auto simp: large_batch_def)
qed

lemma fold_serialize_collections:
  "ops (fold (serialize_collection a) cs b) = ops b @ map (\<lambda>(c, x). OpLog (LogSync c) (serialize_changes x)) cs"
  "map fst (changed_collections b) = (if cs = [] then [a] else []) \<or> map fst (changed_collections b) = [a]
    \<Longrightarrow> map fst (changed_collections (fold (serialize_collection a) cs b)) = [a]"
proof -
  show "ops (fold (serialize_collection a) cs b) = ops b @ map (\<lambda>(c, x). OpLog (LogSync c) (serialize_changes x)) cs"
    by (induction cs arbitrary: b) (auto simp: serialize_collection_def push_op_def)
  have one: "map fst (changed_collections (serialize_collection a e b)) = [a]"
    if "map fst (changed_collections b) = [] \<or> map fst (changed_collections b) = [a]" for e b
    using that by (cases e; cases "changed_collections b") (auto simp: serialize_collection_def push_op_def)
  have all: "map fst (changed_collections (fold (serialize_collection a) es b)) = [a]"
    if "map fst (changed_collections b) = [a]" for es b
    using that by (induction es arbitrary: b) (simp_all add: one)
  assume "map fst (changed_collections b) = (if cs = [] then [a] else []) \<or> map fst (changed_collections b) = [a]"
  then show "map fst (changed_collections (fold (serialize_collection a) cs b)) = [a]"
    by (cases cs) (simp, simp del: map_eq_Cons_conv map_is_Nil_conv add: one all)
qed

lemma fold_serialize_vanished:
  "ops (fold serialize_vanished_collection vs b) = ops b @ map (\<lambda>(c, x). OpLog (LogVanished c) (serialize_vanished x)) vs
   \<and> changed_collections (fold serialize_vanished_collection vs b) = changed_collections b"
  by (induction vs arbitrary: b) (auto simp: serialize_vanished_collection_def push_op_def)

text \<open>The log entries of a change log: the collection that each is filed under, and its value.\<close>

definition log_entries :: "change_log \<Rightarrow> (log_collection \<times> bytes) list" where
  "log_entries cl = map (\<lambda>(c, x). (LogSync c, serialize_changes x)) (log_changes cl)
    @ map (\<lambda>(c, x). (LogVanished c, serialize_vanished x)) (log_vanished cl)"

lemma build_all_log:
  assumes "log_changes cl \<noteq> []"
  shows "map fst (changed_accounts (build_all (new_batch\<lparr>batch_changes := [(a, cl)]\<rparr>))) = [a]"
    and "batch_operations (build_all (new_batch\<lparr>batch_changes := [(a, cl)]\<rparr>))
      = OpAccountId a # map (\<lambda>(c, v). OpLog c v) (log_entries cl)"
  using assms
  by (simp_all add: build_all_def serialize_batch_changes_def serialize_account_def with_account_id_def
      push_op_def new_batch_def fold_serialize_collections fold_serialize_vanished log_entries_def
      case_prod_unfold comp_def)

lemma fold_upds: "fold (\<lambda>(c, v) d. d(f c \<mapsto> v)) es d = d ++ map_of (rev (map (\<lambda>(c, v). (f c, v)) es))"
  by (induction es arbitrary: d) (auto simp: map_add_def split: option.split)

lemma exec_log_ops:
  "exec_ops hc (map (\<lambda>(c, v). OpLog c v) es) t
    = Inr (t\<lparr>db := fold (\<lambda>(c, v) d. d((SUBSPACE_LOGS,
        log_key (txn_account t) (log_collection_u8 c) (txn_change_id t) 0) \<mapsto> v)) es (db t)\<rparr>)"
  by (induction es arbitrary: t) (auto simp: exec_op_def put_def)

lemma log_collection_u8_inj: "log_collection_u8 c = log_collection_u8 c' \<longleftrightarrow> c = c'"
proof -
  have s: "sync_collection_u8 x = sync_collection_u8 y \<longleftrightarrow> x = y" for x y by (cases x; cases y) simp_all
  have v: "vanished_collection_u8 x = vanished_collection_u8 y \<longleftrightarrow> x = y" for x y by (cases x; cases y) simp_all
  have sv: "sync_collection_u8 x \<noteq> vanished_collection_u8 y" for x y by (cases x; cases y) simp_all
  show ?thesis using s v sv sv [symmetric] by (cases c; cases c') auto
qed

lemma log_key_inj: "log_key a c i 0 = log_key a' c' i' 0 \<longleftrightarrow> a = a' \<and> c = c' \<and> i = i'"
  by (auto simp: log_key_def)

lemma le64_roundtrip [simp]: "deserialize_i64_le (le64 v) = Some v"
  using deserialize_be(3) [of "[]" 0 v "[]"]
  by (simp add: deserialize_i64_le_def le64_def deserialize_be_u64_def read_be_def)

text \<open>
  C34. The changes of a batch are stored under the account's next change id: committing the
  recorded changes of an account advances its change counter by one, reports the new id, stores
  every collection's changes in the log under exactly that id, and touches nothing but the
  counters and the log.
\<close>

theorem commit_stores_changes:
  assumes "log_changes cl \<noteq> []" and "distinct (map fst (log_changes cl))" and "distinct (map fst (log_vanished cl))"
    and "d (SUBSPACE_COUNTER, class_serialize ChangeId a 0 0 0) = Some (le64 n)"
  shows "\<exists>i d'. commit (build_all (new_batch\<lparr>batch_changes := [(a, cl)]\<rparr>)) d = Inr (i, d')
    \<and> last_change_id a i = Some (n + 1)
    \<and> d' (SUBSPACE_COUNTER, class_serialize ChangeId a 0 0 0) = Some (le64 (n + 1))
    \<and> (\<forall>(c, x) \<in> set (log_changes cl).
         d' (SUBSPACE_LOGS, log_key a (sync_collection_u8 c) (n + 1) 0) = Some (serialize_changes x))
    \<and> (\<forall>(c, x) \<in> set (log_vanished cl).
         d' (SUBSPACE_LOGS, log_key a (vanished_collection_u8 c) (n + 1) 0) = Some (serialize_vanished x))
    \<and> (\<forall>k. fst k \<noteq> SUBSPACE_LOGS \<and> fst k \<noteq> SUBSPACE_COUNTER \<longrightarrow> d' k = d k)"
proof -
  let ?e = "map (\<lambda>(c, v). ((SUBSPACE_LOGS, log_key a (log_collection_u8 c) (n + 1) 0), v)) (log_entries cl)"
  let ?d = "d((SUBSPACE_COUNTER, class_serialize ChangeId a 0 0 0) \<mapsto> le64 (n + 1)) ++ map_of (rev ?e)"
  have "map fst (log_entries cl) = map LogSync (map fst (log_changes cl)) @ map LogVanished (map fst (log_vanished cl))"
    by (simp add: log_entries_def comp_def case_prod_unfold)
  with assms(2,3) have "distinct (map fst (log_entries cl))"
    by (auto simp: distinct_map inj_on_def)
  then have dist: "distinct (map fst (rev ?e))"
    by (auto simp: rev_map [symmetric] distinct_map inj_on_def log_key_inj log_collection_u8_inj comp_def case_prod_unfold)
  have at: "?d (SUBSPACE_LOGS, log_key a (log_collection_u8 c) (n + 1) 0) = Some v"
    if "(c, v) \<in> set (log_entries cl)" for c v
    using that dist by (intro map_add_find_right map_of_is_SomeI) auto
  have off: "?d k = (d((SUBSPACE_COUNTER, class_serialize ChangeId a 0 0 0) \<mapsto> le64 (n + 1))) k" if "fst k \<noteq> SUBSPACE_LOGS" for k
  proof -
    have "map_of (rev ?e) k = None" using that by (auto simp: map_of_eq_None_iff)
    then show ?thesis by (simp only: map_add_def option.case)
  qed
  have c: "SUBSPACE_COUNTER \<noteq> SUBSPACE_LOGS" by (simp add: SUBSPACE_COUNTER_def SUBSPACE_LOGS_def)
  have "commit (build_all (new_batch\<lparr>batch_changes := [(a, cl)]\<rparr>)) d
      = Inr (\<lparr>ids = [ChangeIdOf a (n + 1)], current_change_id = Some (n + 1)\<rparr>, ?d)"
  proof -
    let ?B = "build_all (new_batch\<lparr>batch_changes := [(a, cl)]\<rparr>)"
    have "changed_accounts ?B \<noteq> []" using build_all_log(1) [OF assms(1), of a] by auto
    moreover have "assign_change_ids [a] (begin_txn d) = Inr (begin_txn d\<lparr>db := d((SUBSPACE_COUNTER, class_serialize ChangeId a 0 0 0) \<mapsto> le64 (n + 1)),
        txn_result := \<lparr>ids = [ChangeIdOf a (n + 1)], current_change_id = None\<rparr>\<rparr>)" (is "_ = Inr ?t")
      using assms(4) by (simp add: assign_change_id_def begin_txn_def put_def push_change_id_def no_ids_def)
    moreover have "exec_op True (OpAccountId a) ?t = Inr (?t\<lparr>txn_account := a, txn_change_id := n + 1,
        txn_result := \<lparr>ids = [ChangeIdOf a (n + 1)], current_change_id = Some (n + 1)\<rparr>\<rparr>)"
      by (simp add: exec_op_def last_change_id_def last_option_def map_filter_def begin_txn_def)
    ultimately show ?thesis
      unfolding commit_def build_all_log [OF assms(1)] exec_ops.simps exec_log_ops fold_upds [symmetric]
      by (simp only: simp_thms if_True sum.case exec_log_ops) (simp add: begin_txn_def)
  qed
  moreover have "last_change_id a \<lparr>ids = [ChangeIdOf a (n + 1)], current_change_id = Some (n + 1)\<rparr> = Some (n + 1)"
    by (simp add: last_change_id_def last_option_def map_filter_def)
  moreover have "?d (SUBSPACE_COUNTER, class_serialize ChangeId a 0 0 0) = Some (le64 (n + 1))"
    using c by (subst off) simp_all
  moreover have "\<forall>(c, x) \<in> set (log_changes cl).
      ?d (SUBSPACE_LOGS, log_key a (sync_collection_u8 c) (n + 1) 0) = Some (serialize_changes x)"
  proof clarify
    fix c x assume "(c, x) \<in> set (log_changes cl)"
    then have "(LogSync c, serialize_changes x) \<in> set (log_entries cl)" by (force simp: log_entries_def)
    from at [OF this] show "?d (SUBSPACE_LOGS, log_key a (sync_collection_u8 c) (n + 1) 0) = Some (serialize_changes x)"
      by (simp only: log_collection_u8.simps)
  qed
  moreover have "\<forall>(c, x) \<in> set (log_vanished cl).
      ?d (SUBSPACE_LOGS, log_key a (vanished_collection_u8 c) (n + 1) 0) = Some (serialize_vanished x)"
  proof clarify
    fix c x assume "(c, x) \<in> set (log_vanished cl)"
    then have "(LogVanished c, serialize_vanished x) \<in> set (log_entries cl)" by (force simp: log_entries_def)
    from at [OF this] show "?d (SUBSPACE_LOGS, log_key a (vanished_collection_u8 c) (n + 1) 0) = Some (serialize_vanished x)"
      by (simp only: log_collection_u8.simps)
  qed
  moreover have "\<forall>k. fst k \<noteq> SUBSPACE_LOGS \<and> fst k \<noteq> SUBSPACE_COUNTER \<longrightarrow> ?d k = d k"
    using off by auto
  ultimately show ?thesis by (intro exI conjI)
qed

theorem commit_stores_changes_witness:
  "\<exists>i d'. commit (build_all (new_batch\<lparr>batch_changes :=
      [(7, log_item_insert SyncEmail (Some 2) 5 empty_change_log)]\<rparr>))
      (Map.empty((SUBSPACE_COUNTER, class_serialize ChangeId 7 0 0 0) \<mapsto> le64 41)) = Inr (i, d')
    \<and> last_change_id 7 i = Some 42
    \<and> d' (SUBSPACE_LOGS, log_key 7 (sync_collection_u8 SyncEmail) 42 0)
      = Some (serialize_changes (item_insert (build_id (Some 2) 5) no_changes))"
proof -
  let ?cl = "log_item_insert SyncEmail (Some 2) 5 empty_change_log"
  have c: "?cl = \<lparr>log_changes = [(SyncEmail, item_insert (build_id (Some 2) 5) no_changes)], log_vanished = []\<rparr>"
    by (simp add: log_item_insert_def empty_change_log_def modify_changes_def)
  have "log_changes ?cl \<noteq> []" "distinct (map fst (log_changes ?cl))" "distinct (map fst (log_vanished ?cl))"
    by (simp_all add: c)
  from commit_stores_changes [OF this, of "Map.empty((SUBSPACE_COUNTER, class_serialize ChangeId 7 0 0 0) \<mapsto> le64 41)" 7 41]
  show ?thesis unfolding c by auto
qed

end
