(* ===== verification/Store_Writes.thy ===== *)
theory Store_Writes
  imports Store_Batch
begin

text \<open>
  Batches of plain writes: a batch without account switches, logs and assigned counters is a list
  of classes and value operations, and its transaction acts on every key separately. The queue and
  the reports of the SMTP server write in this way.
\<close>

section \<open>Builders that hold writes\<close>

type_synonym value_write = "value_class \<times> value_op"

definition builds :: "value_write list \<Rightarrow> batch_builder \<Rightarrow> bool" where
  "builds ws b \<longleftrightarrow>
    ops b = map (\<lambda>(c, op). OpValue c op) ws \<and> batch_changes b = [] \<and> changed_collections b = []"

lemma builds_new [intro]: "builds [] new_batch"
  by (simp add: builds_def new_batch_def)

lemma builds_calls [intro]:
  assumes "builds ws b"
  shows "builds (ws @ [(c, Set v)]) (set_value c v b)"
    and "builds (ws @ [(c, AtomicAdd n)]) (add c n b)"
    and "builds (ws @ [(c, Clear)]) (clear c b)"
    and "builds (ws @ [(c, MergeFnc f)]) (merge_fnc c f b)"
  using assms by (auto simp: builds_def builder_defs)

lemma builds_fold:
  assumes "\<And>x ws b. builds ws b \<Longrightarrow> builds (ws @ [w x]) (f x b)" and "builds ws b"
  shows "builds (ws @ map w xs) (fold f xs b)"
  using assms(2)
proof (induction xs arbitrary: ws b)
  case (Cons x xs)
  from Cons.IH [OF assms(1) [OF Cons.prems, of x]] show ?case by simp
qed simp

section \<open>What a list of writes does\<close>

text \<open>One operation on the value of its key; no ids are assigned in such a batch.\<close>

definition write_one :: "value_op \<Rightarrow> bytes option \<Rightarrow> store_error + bytes option" where
  "write_one op v =
    (case op of
       Set x \<Rightarrow> Inr (Some x)
     | SetFnc f \<Rightarrow> (case f no_ids of Inl e \<Rightarrow> Inl e | Inr x \<Rightarrow> Inr (Some x))
     | MergeFnc f \<Rightarrow>
        (case f no_ids v of
           Inl e \<Rightarrow> Inl e | Inr (Update x) \<Rightarrow> Inr (Some x) | Inr Delete \<Rightarrow> Inr None | Inr Skip \<Rightarrow> Inr v)
     | AtomicAdd n \<Rightarrow> Inr (case numeric_value_merge v n of Some x \<Rightarrow> Some x | None \<Rightarrow> v)
     | AddAndGet n \<Rightarrow> Inl UnexpectedError
     | Clear \<Rightarrow> Inr None)"

definition vkey :: "value_class \<Rightarrow> u8 \<times> bytes" where
  "vkey c = (subspace c (- 1), class_serialize c (- 1) (- 1) (- 1) 0)"

fun write_all :: "value_write list \<Rightarrow> database \<Rightarrow> store_error + database" where
  "write_all [] d = Inr d"
| "write_all ((c, op) # ws) d =
    (case write_one op (d (vkey c)) of Inl e \<Rightarrow> Inl e | Inr v \<Rightarrow> write_all ws (d(vkey c := v)))"

definition plain_op :: "value_op \<Rightarrow> bool" where
  "plain_op op \<longleftrightarrow> (\<forall>n. op \<noteq> AddAndGet n)"

lemma plain_op_simps [simp]:
  "plain_op (Set v)" "plain_op (SetFnc g)" "plain_op (MergeFnc f)" "plain_op (AtomicAdd n)" "plain_op Clear"
  by (simp_all add: plain_op_def)

lemma exec_write:
  assumes "plain_op op" and "txn_result t = no_ids"
  shows "exec_value k op t =
    (case write_one op (db t k) of Inl e \<Rightarrow> Inl e | Inr v \<Rightarrow> Inr (t\<lparr>db := (db t)(k := v)\<rparr>))"
  using assms
  by (cases op) (auto simp: exec_value_def write_one_def plain_op_def put_def delete_def
      split: sum.splits merge_result.splits option.splits)

lemma exec_writes:
  assumes "\<forall>(c, op) \<in> set ws. plain_op op"
    and "txn_account t = - 1" "txn_collection t = - 1" "txn_document t = - 1" "txn_result t = no_ids"
  shows "exec_ops hc (map (\<lambda>(c, op). OpValue c op) ws) t =
    (case write_all ws (db t) of Inl e \<Rightarrow> Inl e | Inr d \<Rightarrow> Inr (t\<lparr>db := d\<rparr>))"
  using assms
proof (induction ws arbitrary: t)
  case (Cons w ws)
  obtain c op where w: "w = (c, op)" by (cases w)
  have k: "txn_key c t = vkey c" using Cons.prems by (simp add: txn_key_def vkey_def)
  have e: "exec_op hc (OpValue c op) t =
      (case write_one op (db t (vkey c)) of Inl e \<Rightarrow> Inl e | Inr v \<Rightarrow> Inr (t\<lparr>db := (db t)(vkey c := v)\<rparr>))"
    using exec_write [of op t "vkey c"] Cons.prems w k by (simp add: exec_op_def)
  show ?case
  proof (cases "write_one op (db t (vkey c))")
    case (Inl x)
    with e w show ?thesis by simp
  next
    case (Inr v)
    have "exec_ops hc (map (\<lambda>(c, op). OpValue c op) ws) (t\<lparr>db := (db t)(vkey c := v)\<rparr>) =
        (case write_all ws ((db t)(vkey c := v)) of Inl e \<Rightarrow> Inl e
         | Inr d \<Rightarrow> Inr (t\<lparr>db := (db t)(vkey c := v), db := d\<rparr>))"
      using Cons.IH [of "t\<lparr>db := (db t)(vkey c := v)\<rparr>"] Cons.prems by (simp add: fun_upd_def)
    with e w Inr show ?thesis by (simp split: sum.split)
  qed
qed simp

lemma commit_writes:
  assumes "builds ws b" and "\<forall>(c, op) \<in> set ws. plain_op op"
  shows "commit (build_all b) d =
    (case write_all ws d of Inl e \<Rightarrow> Inl e | Inr d' \<Rightarrow> Inr (no_ids, d'))"
proof -
  have "serialize_batch_changes b = b" using assms(1) by (simp add: serialize_batch_changes_def builds_def)
  then have "changed_accounts (build_all b) = []" "batch_operations (build_all b) = map (\<lambda>(c, op). OpValue c op) ws"
    using assms(1) by (simp_all add: build_all_def builds_def)
  moreover have "exec_ops hc (map (\<lambda>(c, op). OpValue c op) ws) (begin_txn d) =
      (case write_all ws d of Inl e \<Rightarrow> Inl e | Inr d' \<Rightarrow> Inr (begin_txn d\<lparr>db := d'\<rparr>))" for hc
    using exec_writes [OF assms(2), of "begin_txn d"] by (simp add: begin_txn_def)
  ultimately show ?thesis
    by (simp add: commit_def begin_txn_def split: sum.split)
qed

section \<open>Key by key\<close>

definition at_key :: "u8 \<times> bytes \<Rightarrow> value_write list \<Rightarrow> value_op list" where
  "at_key k ws = map snd (filter (\<lambda>(c, _). vkey c = k) ws)"

fun write_seq :: "value_op list \<Rightarrow> bytes option \<Rightarrow> store_error + bytes option" where
  "write_seq [] v = Inr v"
| "write_seq (op # os) v = (case write_one op v of Inl e \<Rightarrow> Inl e | Inr v' \<Rightarrow> write_seq os v')"

lemma at_key_simps [simp]:
  "at_key k [] = []"
  "at_key k ((c, op) # ws) = (if vkey c = k then op # at_key k ws else at_key k ws)"
  "at_key k (ws @ ws') = at_key k ws @ at_key k ws'"
  by (simp_all add: at_key_def)

lemma class_serialize_0: "class_serialize c a b d 0 = class_key c a b d"
  by (simp add: class_serialize_def)

lemma vkey_inject: "class_ok x \<Longrightarrow> class_ok y \<Longrightarrow> vkey x = vkey y \<longleftrightarrow> x = y"
  using class_key_inject [of x y "- 1" "- 1" "- 1" "- 1" "- 1" "- 1"] by (auto simp: vkey_def class_serialize_0)

lemma at_key_map:
  "(\<forall>x \<in> set xs. class_ok (c x)) \<Longrightarrow> class_ok y \<Longrightarrow>
   at_key (vkey y) (map (\<lambda>x. (c x, op x)) xs) = map op (filter (\<lambda>x. c x = y) xs)"
  by (induction xs) (auto simp: vkey_inject)

lemma write_all_at:
  "write_all ws d = Inr d' \<Longrightarrow> write_seq (at_key k ws) (d k) = Inr (d' k)"
  by (induction ws d rule: write_all.induct) (auto split: sum.splits if_splits)

lemma write_all_total:
  "(\<And>k. \<exists>v. write_seq (at_key k ws) (d k) = Inr v) \<Longrightarrow> \<exists>d'. write_all ws d = Inr d'"
proof (induction ws d rule: write_all.induct)
  case (2 c op ws d)
  from "2.prems" [of "vkey c"] obtain v where v: "write_one op (d (vkey c)) = Inr v"
    by (auto split: sum.splits)
  have "\<exists>v'. write_seq (at_key k ws) ((d(vkey c := v)) k) = Inr v'" for k
    using "2.prems" [of k] v by (auto split: if_splits)
  then have "\<exists>d'. write_all ws (d(vkey c := v)) = Inr d'" by (rule "2.IH" [OF v])
  with v show ?case by simp
qed simp

lemma write_seq_append:
  "write_seq (os @ os') v = (case write_seq os v of Inl e \<Rightarrow> Inl e | Inr v' \<Rightarrow> write_seq os' v')"
  by (induction os arbitrary: v) (auto split: sum.splits)

lemma write_one_simps [simp]:
  "write_one (Set x) v = Inr (Some x)" "write_one Clear v = Inr None"
  by (simp_all add: write_one_def)

text \<open>The last plain write wins.\<close>

lemma write_seq_last_set: "write_seq os v = Inr v' \<Longrightarrow> write_seq (os @ [Set x]) v = Inr (Some x)"
  "write_seq os v = Inr v' \<Longrightarrow> write_seq (os @ [Clear]) v = Inr None"
  by (simp_all add: write_seq_append)

section \<open>Counters\<close>

definition counter :: "database \<Rightarrow> u8 \<times> bytes \<Rightarrow> u64" where
  "counter d k = (case d k of Some b \<Rightarrow> (case deserialize_i64_le b of Some n \<Rightarrow> n | None \<Rightarrow> 0) | None \<Rightarrow> 0)"

definition counter_ok :: "database \<Rightarrow> u8 \<times> bytes \<Rightarrow> bool" where
  "counter_ok d k \<longleftrightarrow> (case d k of Some b \<Rightarrow> deserialize_i64_le b \<noteq> None | None \<Rightarrow> True)"

lemma write_seq_adds:
  assumes "case v of Some b \<Rightarrow> deserialize_i64_le b \<noteq> None | None \<Rightarrow> True"
  shows "\<exists>v'. write_seq (map AtomicAdd ns) v = Inr v'
    \<and> (case v' of Some b \<Rightarrow> deserialize_i64_le b \<noteq> None | None \<Rightarrow> True)
    \<and> (case v' of Some b \<Rightarrow> the (deserialize_i64_le b) | None \<Rightarrow> 0)
      = (case v of Some b \<Rightarrow> the (deserialize_i64_le b) | None \<Rightarrow> 0) + sum_list ns"
  using assms
proof (induction ns arbitrary: v)
  case (Cons n ns)
  obtain x where x: "numeric_value_merge v n = Some (le64 x)"
    "x = (case v of Some b \<Rightarrow> the (deserialize_i64_le b) | None \<Rightarrow> 0) + n"
    using Cons.prems by (auto simp: numeric_value_merge_def split: option.splits)
  with Cons.IH [of "Some (le64 x)"] show ?case by (simp add: write_one_def add.assoc)
qed (simp split: option.splits)

lemma counter_after_adds:
  assumes "write_all ws d = Inr d'" and "at_key k ws = map AtomicAdd ns" and "counter_ok d k"
  shows "counter d' k = counter d k + sum_list ns \<and> counter_ok d' k"
proof -
  have o': "case d k of Some b \<Rightarrow> deserialize_i64_le b \<noteq> None | None \<Rightarrow> True"
    using assms(3) by (simp add: counter_ok_def)
  have c: "counter e k = (case e k of Some b \<Rightarrow> the (deserialize_i64_le b) | None \<Rightarrow> 0)" if "counter_ok e k" for e
    using that by (auto simp: counter_def counter_ok_def split: option.splits)
  have w: "write_seq (map AtomicAdd ns) (d k) = Inr (d' k)"
    using write_all_at [OF assms(1), of k] assms(2) by simp
  from write_seq_adds [OF o', of ns] w have "counter_ok d' k"
    "(case d' k of Some b \<Rightarrow> the (deserialize_i64_le b) | None \<Rightarrow> 0)
      = (case d k of Some b \<Rightarrow> the (deserialize_i64_le b) | None \<Rightarrow> 0) + sum_list ns"
    by (auto simp: counter_ok_def)
  with c [OF assms(3)] c [of d'] show ?thesis by simp
qed

end
