(* ===== verification/Queue_Spool.thy ===== *)
theory Queue_Spool
  imports Queue_Dsn Store_Writes
begin

text \<open>
  The spool (\<open>crates/smtp/src/queue/spool.rs\<close>): messages enter the queue, are read, saved and
  removed, each as one batch on the store that keeps the message, its entries in the index of
  queue events, the link that keeps its text alive and the quota counters together; and the quota
  part of \<open>crates/smtp/src/queue/quota.rs\<close> that the spool calls.

  What the spool takes from elsewhere is the record \<open>spool_env\<close>: the archive format of the
  \<open>rkyv\<close> package, the hash of the blobs, the blob store (a configured backend), the hold time
  of spam samples.
\<close>

section \<open>State and environment\<close>

type_synonym blob_store = "string \<Rightarrow> bytes option"

record spool_state =
  data :: database
  blobs :: blob_store

record spool_env =
  dsn :: dsn_env
  archive :: "message \<Rightarrow> bytes option"
  unarchive :: "bytes \<Rightarrow> message option"
  generate_hash :: "bytes \<Rightarrow> string"
  put_blob :: "string \<Rightarrow> bytes \<Rightarrow> blob_store \<Rightarrow> blob_store option"
  hold_samples_for :: "u64 option"
  lower_domain :: "string \<Rightarrow> string"

datatype message_source =
    SourceAuthenticated
  | SourceUnauthenticated bool "bool option"
  | SourceDsn
  | SourceReport
  | SourceAutogenerated

definition bytes_of :: "string \<Rightarrow> bytes" where
  "bytes_of s = map (\<lambda>c. word_of_nat (byte c)) s"

section \<open>The classes of a message\<close>

definition message_class :: "u64 \<Rightarrow> value_class" where
  "message_class qid = Queue (QueueMessage qid)"

definition event_class :: "u64 \<Rightarrow> u64 \<Rightarrow> queue_name \<Rightarrow> value_class" where
  "event_class t qid name =
    Queue (MessageEvent \<lparr>event_due = t, event_queue_id = qid, event_queue_name = bytes_of name\<rparr>)"

fun quota_class :: "quota_key \<Rightarrow> value_class" where
  "quota_class (CountKey key _) = Queue (QuotaCount (bytes_of key))"
| "quota_class (SizeKey key _) = Queue (QuotaSize (bytes_of key))"

fun quota_amount :: "message \<Rightarrow> quota_key \<Rightarrow> u64" where
  "quota_amount m (CountKey _ _) = 1"
| "quota_amount m (SizeKey _ _) = message_size m"

fun quota_id :: "quota_key \<Rightarrow> u64" where
  "quota_id (CountKey _ i) = i"
| "quota_id (SizeKey _ i) = i"

definition link_class :: "message \<Rightarrow> blob_link \<Rightarrow> value_class" where
  "link_class m to = Blob (BlobLink (bytes_of (blob_hash m)) to)"

section \<open>Writing to the store\<close>

definition store_write :: "batch_builder \<Rightarrow> database \<Rightarrow> database option" where
  "store_write b d = (case commit (build_all b) d of Inl _ \<Rightarrow> None | Inr (_, d') \<Rightarrow> Some d')"

definition set_events :: "u64 \<Rightarrow> message \<Rightarrow> batch_builder \<Rightarrow> batch_builder" where
  "set_events qid m b =
    fold (\<lambda>(name, t). set_value (event_class t qid name) []) (next_events m) b"

definition clear_events :: "u64 \<Rightarrow> message \<Rightarrow> batch_builder \<Rightarrow> batch_builder" where
  "clear_events qid m b = fold (\<lambda>(name, t). clear (event_class t qid name)) (next_events m) b"

definition reserve_quotas :: "message \<Rightarrow> batch_builder \<Rightarrow> batch_builder" where
  "reserve_quotas m b = fold (\<lambda>k. add (quota_class k) (quota_amount m k)) (quota_keys m) b"

definition release_keys :: "message \<Rightarrow> quota_key list \<Rightarrow> batch_builder \<Rightarrow> batch_builder" where
  "release_keys m ks b = fold (\<lambda>k. add (quota_class k) (- quota_amount m k)) ks b"

text \<open>
  \<open>release_quota\<close>: the quotas of the recipients that are done, by their position, and of their
  domains, by the position of the first such recipient.
\<close>

fun released_ids :: "string list \<Rightarrow> nat \<Rightarrow> recipient list \<Rightarrow> u64 list" where
  "released_ids seen pos [] = []"
| "released_ids seen pos (r # rs) =
    (if \<not> pending r then
       (if domain_part (address r) \<in> set seen then [] else [push_bit 32 (word_of_nat (pos + 1))])
       @ word_of_nat (pos + 1) # released_ids (domain_part (address r) # seen) (pos + 1) rs
     else released_ids seen (pos + 1) rs)"

definition release_quota :: "message \<Rightarrow> batch_builder \<Rightarrow> message \<times> batch_builder" where
  "release_quota m b =
    (if quota_keys m = [] then (m, b)
     else
       let quota_ids = released_ids [] 0 (recipients m) in
       if quota_ids \<noteq> [] then
         (m\<lparr>quota_keys := filter (\<lambda>k. quota_id k \<notin> set quota_ids) (quota_keys m)\<rparr>,
          release_keys m (filter (\<lambda>k. quota_id k \<in> set quota_ids) (quota_keys m)) b)
       else (m, b))"

section \<open>The operations of the spool\<close>

text \<open>\<open>MessageWrapper::queue\<close>\<close>

fun source_flags :: "message_source \<Rightarrow> u64 \<times> bool option" where
  "source_flags SourceAuthenticated = (FROM_AUTHENTICATED, None)"
| "source_flags (SourceUnauthenticated dmarc_pass train_spam) =
    (if dmarc_pass then FROM_UNAUTHENTICATED_DMARC else FROM_UNAUTHENTICATED, train_spam)"
| "source_flags SourceDsn = (FROM_DSN, None)"
| "source_flags SourceReport = (FROM_REPORT, None)"
| "source_flags SourceAutogenerated = (FROM_AUTOGENERATED, None)"

definition stamp_message :: "spool_env \<Rightarrow> message_source \<Rightarrow> bytes \<Rightarrow> message \<Rightarrow> message" where
  "stamp_message env source raw m =
    m\<lparr>message_flags := message_flags m OR fst (source_flags source),
      blob_hash := generate_hash env raw,
      message_size := (if message_size m = 0 then word_of_nat (length raw) else message_size m)\<rparr>"

definition train_sample :: "spool_env \<Rightarrow> u64 \<Rightarrow> bool option \<Rightarrow> message \<Rightarrow> batch_builder \<Rightarrow> batch_builder" where
  "train_sample env now train_spam m b =
    (case (train_spam, hold_samples_for env) of
       (Some is_spam, Some hold) \<Rightarrow>
         set_value (Blob (BlobSpamSample (bytes_of (blob_hash m)) (now + hold))) [if is_spam then 1 else 0, 1]
           (set_value (link_class m (LinkTemporary (now + hold))) [SPAM_SAMPLE_LINK] b)
     | _ \<Rightarrow> b)"

definition queue_batch ::
  "spool_env \<Rightarrow> u64 \<Rightarrow> bool option \<Rightarrow> u64 \<Rightarrow> message \<Rightarrow> bytes \<Rightarrow> batch_builder" where
  "queue_batch env now train_spam qid m message_bytes =
    set_value (message_class qid) message_bytes
      (set_value (Blob (BlobCommit (bytes_of (blob_hash m)))) []
        (set_value (link_class m (LinkId qid)) []
          (clear (link_class m (LinkTemporary (now + 120)))
            (train_sample env now train_spam m
              (set_events qid m (reserve_quotas m new_batch))))))"

definition queue_message ::
  "spool_env \<Rightarrow> u64 \<Rightarrow> bytes option \<Rightarrow> bytes \<Rightarrow> message_source \<Rightarrow> message_wrapper \<Rightarrow> spool_state \<Rightarrow> bool \<times> spool_state" where
  "queue_message env now raw_headers raw_message source mw st =
    (let raw = (case raw_headers of Some h \<Rightarrow> h @ raw_message | None \<Rightarrow> raw_message);
         m = stamp_message env source raw (message mw) in
     case store_write (set_value (link_class m (LinkTemporary (now + 120))) [] new_batch) (data st) of
       None \<Rightarrow> (False, st)
     | Some d1 \<Rightarrow>
        (case put_blob env (blob_hash m) raw (blobs st) of
           None \<Rightarrow> (False, st\<lparr>data := d1\<rparr>)
         | Some bl \<Rightarrow>
            (case archive env m of
               None \<Rightarrow> (False, \<lparr>data = d1, blobs = bl\<rparr>)
             | Some message_bytes \<Rightarrow>
                (case store_write (queue_batch env now (snd (source_flags source)) (queue_id mw) m message_bytes) d1 of
                   None \<Rightarrow> (False, \<lparr>data = d1, blobs = bl\<rparr>)
                 | Some d2 \<Rightarrow> (True, \<lparr>data = d2, blobs = bl\<rparr>)))))"

text \<open>\<open>new_message\<close>; \<open>id\<close> is the next id of the generator.\<close>

definition new_message :: "spool_env \<Rightarrow> u64 \<Rightarrow> u64 \<Rightarrow> string \<Rightarrow> u64 \<Rightarrow> message_wrapper" where
  "new_message env next_id now from span =
    \<lparr>queue_id = next_id, queue_name = DEFAULT_QUEUE_NAME, is_multi_queue = False, span_id = span,
     message = \<lparr>created = now, blob_hash = replicate 32 (CHR 0x00), return_path = lower_domain env from, recipients = [],
       message_flags = 0, env_id = None, priority = 0, message_size = 0, quota_keys = [],
       received_from_ip = V4 0x7F000001, received_via_port = 0\<rparr>\<rparr>"

text \<open>\<open>add_recipient\<close>: \<open>Schedule::later\<close> adds the clock to what already holds it.\<close>

definition add_recipient :: "spool_env \<Rightarrow> u64 \<Rightarrow> string \<Rightarrow> message \<Rightarrow> message" where
  "add_recipient env now addr m =
    (let r = recipient_new (lower_domain env) now addr;
         m = m\<lparr>recipients := recipients m @ [r]\<rparr>;
         q = resolve_queue (dsn env) m r;
         delay = (case strategy_notify q of d # _ \<Rightarrow> d | [] \<Rightarrow> 86400)
     in m\<lparr>recipients := butlast (recipients m) @
         [r\<lparr>notify := schedule_later now (delay + now), expires := strategy_expiry q, queue := virtual_queue q\<rparr>]\<rparr>)"

definition read_message :: "spool_env \<Rightarrow> u64 \<Rightarrow> queue_name \<Rightarrow> database \<Rightarrow> message_wrapper option" where
  "read_message env oid name d =
    (case d (vkey (message_class oid)) of
       None \<Rightarrow> None
     | Some bs \<Rightarrow>
        map_option (\<lambda>m. \<lparr>queue_id = oid, queue_name = name,
            is_multi_queue = (\<exists>r \<in> set (recipients m). pending r \<and> queue r \<noteq> name), span_id = 0, message = m\<rparr>)
          (unarchive env bs))"

text \<open>The merge function of \<open>save_changes\<close>, and the recipients it takes over.\<close>

definition merge_recipients :: "queue_name \<Rightarrow> recipient list \<Rightarrow> recipient list \<Rightarrow> recipient list" where
  "merge_recipients name cur new = map2 (\<lambda>c n. if queue n = name then n else c) cur new"

definition merge_message ::
  "spool_env \<Rightarrow> queue_name \<Rightarrow> bytes \<Rightarrow> assigned_ids \<Rightarrow> bytes option \<Rightarrow> store_error + merge_result" where
  "merge_message env name new_bytes _ cur_bytes =
    (case cur_bytes of
       None \<Rightarrow> Inl NotFound
     | Some bs \<Rightarrow>
        (case unarchive env bs of
           None \<Rightarrow> Inl DataCorruption
         | Some cur \<Rightarrow>
            (case unarchive env new_bytes of
               None \<Rightarrow> Inl DataCorruption
             | Some new \<Rightarrow>
                if blob_hash cur = blob_hash new \<and> length (recipients cur) = length (recipients new) then
                  (case archive env (cur\<lparr>recipients := merge_recipients name (recipients cur) (recipients new)\<rparr>) of
                     None \<Rightarrow> Inl SerializeError | Some bs' \<Rightarrow> Inr (Update bs'))
                else Inl UnexpectedError)))"

definition clear_event :: "u64 option \<Rightarrow> message_wrapper \<Rightarrow> batch_builder \<Rightarrow> batch_builder" where
  "clear_event prev_event mw b =
    (case prev_event of Some t \<Rightarrow> clear (event_class t (queue_id mw) (queue_name mw)) b | None \<Rightarrow> b)"

definition save_changes :: "spool_env \<Rightarrow> u64 option \<Rightarrow> message_wrapper \<Rightarrow> database \<Rightarrow> bool \<times> database" where
  "save_changes env prev_event mw d =
    (case release_quota (message mw) new_batch of (m, b) \<Rightarrow>
     let b = set_events (queue_id mw) m (clear_event prev_event mw b) in
     case archive env m of
       None \<Rightarrow> (False, d)
     | Some message_bytes \<Rightarrow>
        let b = (if is_multi_queue mw
                 then merge_fnc (message_class (queue_id mw)) (merge_message env (queue_name mw) message_bytes) b
                 else set_value (message_class (queue_id mw)) message_bytes b) in
        (case store_write b d of None \<Rightarrow> (False, d) | Some d' \<Rightarrow> (True, d')))"

definition remove_message :: "u64 option \<Rightarrow> message_wrapper \<Rightarrow> database \<Rightarrow> bool \<times> database" where
  "remove_message prev_event mw d =
    (let m = message mw;
         b = (if prev_event \<noteq> None then clear_event prev_event mw new_batch else clear_events (queue_id mw) m new_batch);
         b = release_keys m (quota_keys m) b;
         b = clear (message_class (queue_id mw)) (clear (link_class m (LinkId (queue_id mw))) b)
     in case store_write b d of None \<Rightarrow> (False, d) | Some d' \<Rightarrow> (True, d'))"

definition has_domain :: "string list \<Rightarrow> message \<Rightarrow> bool" where
  "has_domain domains m \<longleftrightarrow>
    (\<exists>r \<in> set (recipients m). domain_part (address r) \<in> set domains)
    \<or> (case rsplit_once (CHR ''@'') (return_path m) of Some (_, dm) \<Rightarrow> dm \<in> set domains | None \<Rightarrow> False)"

section \<open>The writes of each operation\<close>

lemma bytes_of_inject [simp]: "bytes_of s = bytes_of t \<longleftrightarrow> s = t"
proof -
  have "inj (\<lambda>c. word_of_nat (byte c) :: u8)"
  proof (rule injI)
    fix c d assume "(word_of_nat (byte c) :: u8) = word_of_nat (byte d)"
    then have "unat (word_of_nat (byte c) :: u8) = unat (word_of_nat (byte d) :: u8)" by simp
    then show "c = d" by (simp add: unat_of_nat take_bit_nat_eq_self)
  qed
  then show ?thesis by (simp add: bytes_of_def inj_map_eq_map)
qed

lemma length_bytes_of [simp]: "length (bytes_of s) = length s"
  by (simp add: bytes_of_def)

lemma class_ok_spool [simp]:
  "class_ok (message_class i)" "class_ok (event_class t i n) \<longleftrightarrow> length n = 8" "class_ok (quota_class k)"
  "class_ok (link_class m l) \<longleftrightarrow> length (blob_hash m) = 32"
  by (simp_all add: message_class_def event_class_def link_class_def) (cases k; simp)

lemma class_eqs [simp]:
  "message_class i = message_class j \<longleftrightarrow> i = j"
  "event_class t i n = event_class u j n' \<longleftrightarrow> t = u \<and> i = j \<and> n = n'"
  "message_class i \<noteq> event_class t j n" "event_class t j n \<noteq> message_class i"
  "message_class i \<noteq> quota_class k" "quota_class k \<noteq> message_class i"
  "event_class t i n \<noteq> quota_class k" "quota_class k \<noteq> event_class t i n"
  "Blob x \<noteq> quota_class k" "quota_class k \<noteq> Blob x"
  "Blob x \<noteq> message_class i" "Blob x \<noteq> event_class t i n" "message_class i \<noteq> Blob x" "event_class t i n \<noteq> Blob x"
  by (auto simp: message_class_def event_class_def; cases k; simp)+

text \<open>The writes of the queue events.\<close>

definition event_writes :: "u64 \<Rightarrow> value_op \<Rightarrow> message \<Rightarrow> value_write list" where
  "event_writes i op m = map (\<lambda>(n, t). (event_class t i n, op)) (next_events m)"

definition add_writes :: "(quota_key \<Rightarrow> u64) \<Rightarrow> quota_key list \<Rightarrow> value_write list" where
  "add_writes f ks = map (\<lambda>k. (quota_class k, AtomicAdd (f k))) ks"

lemma builds_set_events [intro]:
  "builds ws b \<Longrightarrow> builds (ws @ event_writes i (Set []) m) (set_events i m b)"
  unfolding set_events_def event_writes_def by (rule builds_fold) auto

lemma builds_clear_events [intro]:
  "builds ws b \<Longrightarrow> builds (ws @ event_writes i Clear m) (clear_events i m b)"
  unfolding clear_events_def event_writes_def by (rule builds_fold) auto

lemma builds_reserve [intro]:
  "builds ws b \<Longrightarrow> builds (ws @ add_writes (quota_amount m) (quota_keys m)) (reserve_quotas m b)"
  unfolding reserve_quotas_def add_writes_def by (rule builds_fold) auto

lemma builds_release [intro]:
  "builds ws b \<Longrightarrow> builds (ws @ add_writes (\<lambda>k. - quota_amount m k) ks) (release_keys m ks b)"
  unfolding release_keys_def add_writes_def by (rule builds_fold) auto

text \<open>Recipients wait in queues with names of eight bytes.\<close>

definition names_ok :: "message \<Rightarrow> bool" where
  "names_ok m \<longleftrightarrow> (\<forall>r \<in> set (recipients m). length (queue r) = 8)"

lemma next_events_name: "names_ok m \<Longrightarrow> (n, t) \<in> set (next_events m) \<Longrightarrow> length n = 8"
  by (auto simp: set_next_events next_event_min min_over_Some pending_in_def in_queue_def names_ok_def)

lemma at_key_events:
  assumes "names_ok m" and "class_ok y"
  shows "at_key (vkey y) (event_writes i op m) = map (\<lambda>_. op) (filter (\<lambda>(n, t). event_class t i n = y) (next_events m))"
proof -
  have "\<forall>x \<in> set (next_events m). class_ok ((\<lambda>(n, t). event_class t i n) x)"
    using next_events_name [OF assms(1)] by auto
  from at_key_map [OF this assms(2), of "\<lambda>_. op"] show ?thesis
    unfolding event_writes_def by (simp add: case_prod_unfold)
qed

lemma at_key_adds:
  "class_ok y \<Longrightarrow> at_key (vkey y) (add_writes f ks) = map (\<lambda>k. AtomicAdd (f k)) (filter (\<lambda>k. quota_class k = y) ks)"
  unfolding add_writes_def by (rule at_key_map) simp_all

lemma write_seq_same:
  "write_seq (map (\<lambda>_. Set x) ys) v = Inr (if ys = [] then v else Some x)"
  "write_seq (map (\<lambda>_. Clear) ys) v = Inr (if ys = [] then v else None)"
  by (induction ys arbitrary: v) simp_all

lemma plain_writes [simp]:
  "plain_op op \<Longrightarrow> \<forall>(c, op) \<in> set (event_writes i op m). plain_op op"
  "\<forall>(c, op) \<in> set (add_writes f ks). plain_op op"
  by (auto simp: event_writes_def add_writes_def)

lemma store_write_builds:
  assumes "builds ws b" and "\<forall>(c, op) \<in> set ws. plain_op op"
  shows "store_write b d = (case write_all ws d of Inl _ \<Rightarrow> None | Inr d' \<Rightarrow> Some d')"
  by (simp add: store_write_def commit_writes [OF assms] split: sum.split)


text \<open>The quotas that saving a message releases, and the message that is left.\<close>

definition done_key :: "message \<Rightarrow> quota_key \<Rightarrow> bool" where
  "done_key m k \<longleftrightarrow> quota_id k \<in> set (released_ids [] 0 (recipients m))"

definition released :: "message \<Rightarrow> message" where
  "released m = m\<lparr>quota_keys := filter (\<lambda>k. \<not> done_key m k) (quota_keys m)\<rparr>"

lemma release_quota_eq:
  "release_quota m b = (released m, release_keys m (filter (done_key m) (quota_keys m)) b)"
proof -
  have "filter (\<lambda>k. False) xs = []" for xs :: "quota_key list" by simp
  then show ?thesis
    by (cases m) (auto simp: release_quota_def released_def done_key_def [abs_def] release_keys_def Let_def)
qed

lemma released_simps [simp]:
  "recipients (released m) = recipients m" "next_events (released m) = next_events m"
  "blob_hash (released m) = blob_hash m" "message_size (released m) = message_size m"
  "quota_amount (released m) k = quota_amount m k"
  by (simp_all add: released_def next_events_def) (cases k; simp)

subsection \<open>When a batch succeeds\<close>

definition good_writes :: "database \<Rightarrow> value_write list \<Rightarrow> bool" where
  "good_writes d ws \<longleftrightarrow> (\<forall>(c, op) \<in> set ws. class_ok c \<and>
     (case op of
        Set _ \<Rightarrow> c \<notin> range quota_class | Clear \<Rightarrow> c \<notin> range quota_class
      | AtomicAdd _ \<Rightarrow> c \<in> range quota_class \<and> counter_ok d (vkey c) | _ \<Rightarrow> False))"

lemma good_writes_append [simp]: "good_writes d (ws @ ws') \<longleftrightarrow> good_writes d ws \<and> good_writes d ws'"
  by (auto simp: good_writes_def)

lemma good_writes_total: "good_writes d ws \<Longrightarrow> \<exists>d'. write_all ws d = Inr d'"
proof (induction ws arbitrary: d)
  case (Cons w ws)
  obtain c op where w: "w = (c, op)" by (cases w)
  have g: "good_writes d ws" "class_ok c" using Cons.prems w by (auto simp: good_writes_def)
  have other: "good_writes (d(vkey c := v)) ws" if "c \<notin> range quota_class" for v
    using g that unfolding good_writes_def
    by (fastforce simp: counter_ok_def vkey_inject split: value_op.splits)
  have same: "good_writes (d(vkey c := Some (le64 x))) ws" for x
    using g unfolding good_writes_def by (fastforce simp: counter_ok_def split: value_op.splits)
  show ?case
  proof (cases op)
    case (AtomicAdd n)
    then obtain x where "numeric_value_merge (d (vkey c)) n = Some (le64 x)"
      using Cons.prems w by (auto simp: good_writes_def counter_ok_def numeric_value_merge_def split: option.splits)
    with AtomicAdd w have "write_all (w # ws) d = write_all ws (d(vkey c := Some (le64 x)))"
      by (simp add: write_one_def)
    with Cons.IH [OF same [of x]] show ?thesis by (simp only:)
  qed (use Cons.prems w Cons.IH [OF other] in \<open>auto simp: good_writes_def fun_upd_def\<close>)
qed simp

lemma write_all_snoc:
  "write_all (ws @ [(c, op)]) d = (case write_all ws d of Inl e \<Rightarrow> Inl e
     | Inr d' \<Rightarrow> (case write_one op (d' (vkey c)) of Inl e \<Rightarrow> Inl e | Inr v \<Rightarrow> Inr (d'(vkey c := v))))"
  by (induction ws arbitrary: d) (auto split: sum.splits)

text \<open>Plain writes followed by one last operation on a key of its own.\<close>

lemma good_then_last:
  assumes "good_writes d ws" and "at_key (vkey c) ws = []" and "write_one op (d (vkey c)) = Inr v"
  shows "\<exists>d'. write_all (ws @ [(c, op)]) d = Inr d' \<and> d' (vkey c) = v
    \<and> (\<forall>k. k \<noteq> vkey c \<longrightarrow> write_seq (at_key k ws) (d k) = Inr (d' k))"
proof -
  from good_writes_total [OF assms(1)] obtain d1 where d1: "write_all ws d = Inr d1" by blast
  from write_all_at [OF this] have at: "write_seq (at_key k ws) (d k) = Inr (d1 k)" for k .
  from at [of "vkey c"] assms(2) have "d1 (vkey c) = d (vkey c)" by simp
  with d1 assms(3) at show ?thesis by (auto simp: write_all_snoc)
qed

definition counters_ok :: "database \<Rightarrow> message \<Rightarrow> bool" where
  "counters_ok d m \<longleftrightarrow> (\<forall>k \<in> set (quota_keys m). counter_ok d (vkey (quota_class k)))"

lemma good_adds: "\<forall>k \<in> set ks. counter_ok d (vkey (quota_class k)) \<Longrightarrow> good_writes d (add_writes f ks)"
  by (auto simp: good_writes_def add_writes_def)

lemma good_events:
  "names_ok m \<Longrightarrow> op = Set [] \<or> op = Clear \<Longrightarrow> good_writes d (event_writes i op m)"
  by (auto simp: good_writes_def event_writes_def image_iff dest: next_events_name)


subsection \<open>The abstract queue\<close>

text \<open>
  What the spool keeps, read off the database: the message of an id, its entries in the index
  of events, and the counter of a quota.
\<close>

definition stored :: "database \<Rightarrow> u64 \<Rightarrow> bytes option" where
  "stored d i = d (vkey (message_class i))"

definition events_of :: "database \<Rightarrow> u64 \<Rightarrow> (queue_name \<times> u64) set" where
  "events_of d i = {(n, t). length n = 8 \<and> d (vkey (event_class t i n)) \<noteq> None}"

definition used :: "database \<Rightarrow> quota_key \<Rightarrow> u64" where
  "used d q = counter d (vkey (quota_class q))"

definition reserved :: "message \<Rightarrow> quota_key \<Rightarrow> u64" where
  "reserved m q = sum_list (map (quota_amount m) (filter (\<lambda>k. quota_class k = quota_class q) (quota_keys m)))"

definition event_names :: "message \<Rightarrow> (queue_name \<times> u64) set" where
  "event_names m = {(n, t). next_event m (Some n) = Some t}"

lemma event_names_length: "names_ok m \<Longrightarrow> (n, t) \<in> event_names m \<Longrightarrow> length n = 8"
  using next_events_name [of m n t] by (simp add: event_names_def set_next_events)

lemma reserved_split:
  "reserved m q = reserved (released m) q
    + sum_list (map (quota_amount m) (filter (\<lambda>k. quota_class k = quota_class q) (filter (done_key m) (quota_keys m))))"
proof -
  have "sum_list (map f (filter P ks)) = sum_list (map f (filter P (filter (\<lambda>k. \<not> D k) ks)))
      + sum_list (map f (filter P (filter D ks)))" for f :: "quota_key \<Rightarrow> u64" and P D ks
    by (induction ks) (auto simp: algebra_simps)
  from this [of "quota_amount m" "\<lambda>k. quota_class k = quota_class q" "quota_keys m" "done_key m"]
  have "reserved m q = sum_list (map (quota_amount m) (filter (\<lambda>k. quota_class k = quota_class q) (quota_keys (released m))))
      + sum_list (map (quota_amount m) (filter (\<lambda>k. quota_class k = quota_class q) (filter (done_key m) (quota_keys m))))"
    unfolding reserved_def released_def by simp
  moreover have "quota_amount m = quota_amount (released m)" by (rule ext) simp
  ultimately show ?thesis unfolding reserved_def by metis
qed

definition clear_writes :: "u64 option \<Rightarrow> message_wrapper \<Rightarrow> value_write list" where
  "clear_writes prev_event mw =
    (case prev_event of Some t \<Rightarrow> [(event_class t (queue_id mw) (queue_name mw), Clear)] | None \<Rightarrow> [])"

definition save_writes :: "u64 option \<Rightarrow> message_wrapper \<Rightarrow> value_write list" where
  "save_writes prev_event mw =
    add_writes (\<lambda>k. - quota_amount (message mw) k) (filter (done_key (message mw)) (quota_keys (message mw)))
    @ clear_writes prev_event mw @ event_writes (queue_id mw) (Set []) (message mw)"

definition wrapper_ok :: "message_wrapper \<Rightarrow> bool" where
  "wrapper_ok mw \<longleftrightarrow> names_ok (message mw) \<and> length (queue_name mw) = 8"

lemma at_clear:
  "length (queue_name mw) = 8 \<Longrightarrow> class_ok y \<Longrightarrow> at_key (vkey y) (clear_writes prev mw) =
    (if \<exists>t. prev = Some t \<and> y = event_class t (queue_id mw) (queue_name mw) then [Clear] else [])"
  by (cases prev) (auto simp: clear_writes_def vkey_inject)

lemma good_save:
  "wrapper_ok mw \<Longrightarrow> counters_ok d (message mw) \<Longrightarrow> good_writes d (save_writes prev mw)"
  unfolding save_writes_def
  by (auto simp: wrapper_ok_def counters_ok_def good_adds good_events)
    (auto simp: clear_writes_def good_writes_def split: option.split)

lemma at_save_message: "wrapper_ok mw \<Longrightarrow> at_key (vkey (message_class i)) (save_writes prev mw) = []"
  by (auto simp: save_writes_def wrapper_ok_def at_key_adds at_key_events at_clear filter_empty_conv)

lemma at_save_event:
  assumes "wrapper_ok mw" and "length n = 8"
  shows "write_seq (at_key (vkey (event_class t i n)) (save_writes prev mw)) v =
    Inr (if i = queue_id mw then
           if (n, t) \<in> event_names (message mw) then Some []
           else if prev = Some t \<and> n = queue_name mw then None else v
         else v)"
proof -
  have "filter (\<lambda>(n', t'). event_class t' (queue_id mw) n' = event_class t i n) (next_events (message mw)) = [] \<longleftrightarrow>
      \<not> (i = queue_id mw \<and> (n, t) \<in> event_names (message mw))"
    by (auto simp: filter_empty_conv event_names_def set_next_events)
  then show ?thesis
    using assms
    by (auto simp: save_writes_def wrapper_ok_def at_key_adds at_key_events at_clear write_seq_append
        write_seq_same(1) filter_empty_conv)
qed

lemma at_save_quota:
  assumes "wrapper_ok mw"
  shows "at_key (vkey (quota_class q)) (save_writes prev mw)
    = map AtomicAdd (map (\<lambda>k. - quota_amount (message mw) k)
        (filter (\<lambda>k. quota_class k = quota_class q) (filter (done_key (message mw)) (quota_keys (message mw)))))"
  using assms by (auto simp: save_writes_def wrapper_ok_def at_key_adds at_key_events at_clear filter_empty_conv comp_def)


lemma builds_save:
  "builds (save_writes prev mw) (set_events (queue_id mw) (message mw) (clear_event prev mw
     (release_keys (message mw) (filter (done_key (message mw)) (quota_keys (message mw))) new_batch)))"
proof -
  have c: "builds (ws @ clear_writes prev mw) (clear_event prev mw b)" if "builds ws b" for ws b
    using that builds_calls(3) [OF that] by (cases prev) (auto simp: clear_writes_def clear_event_def)
  show ?thesis
    using builds_set_events [OF c [OF builds_release [OF builds_new]]] by (simp add: save_writes_def)
qed

lemma plain_save: "\<forall>(c, op) \<in> set (save_writes prev mw). plain_op op"
  by (auto simp: save_writes_def add_writes_def event_writes_def clear_writes_def split: option.splits)

lemma sum_list_neg: "sum_list (map (\<lambda>k. - f k) xs) = - (sum_list (map f xs) :: u64)"
  by (induction xs) simp_all

lemma used_after_adds:
  assumes "write_all ws d = Inr d'" and "at_key (vkey (quota_class q)) ws = map AtomicAdd (map f ks)"
    and "ks = filter (\<lambda>k. quota_class k = quota_class q) ks0"
    and "\<forall>k \<in> set ks0. counter_ok d (vkey (quota_class k))"
  shows "used d' q = used d q + sum_list (map f ks)"
proof (cases "ks = []")
  case True
  with assms(1,2) write_all_at [of ws d d' "vkey (quota_class q)"] show ?thesis by (simp add: used_def counter_def)
next
  case False
  then obtain k where "k \<in> set ks" by (cases ks) auto
  with assms(3,4) have "counter_ok d (vkey (quota_class q))" by force
  with counter_after_adds [OF assms(1,2)] show ?thesis by (simp add: used_def)
qed

text \<open>What saving a message does, when the archive works and the counters can be read.\<close>

lemma save_effect:
  assumes mw: "wrapper_ok mw" and ok: "counters_ok d (message mw)"
    and bs: "archive env (released (message mw)) = Some bs"
    and v: "if is_multi_queue mw
      then merge_message env (queue_name mw) bs no_ids (stored d (queue_id mw)) = Inr (Update v) else v = bs"
  shows "\<exists>d'. save_changes env prev mw d = (True, d')
    \<and> stored d' (queue_id mw) = Some v
    \<and> events_of d' (queue_id mw)
        = events_of d (queue_id mw) - (case prev of Some t \<Rightarrow> {(queue_name mw, t)} | None \<Rightarrow> {}) \<union> event_names (message mw)
    \<and> (\<forall>j. j \<noteq> queue_id mw \<longrightarrow> stored d' j = stored d j \<and> events_of d' j = events_of d j)
    \<and> (\<forall>q. used d' q + reserved (message mw) q = used d q + reserved (released (message mw)) q)
    \<and> (\<forall>q. counter_ok d (vkey (quota_class q)) \<longrightarrow> counter_ok d' (vkey (quota_class q)))"
proof -
  let ?i = "queue_id mw" and ?m = "message mw" and ?ws = "save_writes prev mw"
  define op where "op = (if is_multi_queue mw then MergeFnc (merge_message env (queue_name mw) bs) else Set bs)"
  let ?b = "set_events ?i ?m (clear_event prev mw (release_keys ?m (filter (done_key ?m) (quota_keys ?m)) new_batch))"
  have w: "write_one op (d (vkey (message_class ?i))) = Inr (Some v)"
    using v by (auto simp: op_def stored_def write_one_def split: if_splits)
  from good_then_last [OF good_save [OF mw ok] at_save_message [OF mw] w]
  obtain d' where d': "write_all (?ws @ [(message_class ?i, op)]) d = Inr d'" "d' (vkey (message_class ?i)) = Some v"
    "\<And>k. k \<noteq> vkey (message_class ?i) \<Longrightarrow> write_seq (at_key k ?ws) (d k) = Inr (d' k)" by blast
  have "builds (?ws @ [(message_class ?i, op)])
      (if is_multi_queue mw then merge_fnc (message_class ?i) (merge_message env (queue_name mw) bs) ?b
       else set_value (message_class ?i) bs ?b)"
    using builds_calls(1,4) [OF builds_save [of prev mw]] by (simp add: op_def)
  from store_write_builds [OF this, of d] plain_save [of prev mw] d'(1)
  have "save_changes env prev mw d = (True, d')"
    by (auto simp: save_changes_def release_quota_eq bs op_def set_events_def [of _ "released ?m"] set_events_def [symmetric])
  moreover have "stored d' ?i = Some v" using d'(2) by (simp add: stored_def)
  moreover have "d' (vkey (event_class t i n)) = (if i = ?i then
           if (n, t) \<in> event_names ?m then Some []
           else if prev = Some t \<and> n = queue_name mw then None else d (vkey (event_class t i n))
         else d (vkey (event_class t i n)))" if "length n = 8" for t i n
    using d'(3) [of "vkey (event_class t i n)"] that
    by (simp add: at_save_event [OF mw] vkey_inject)
  then have "events_of d' ?i = events_of d ?i - (case prev of Some t \<Rightarrow> {(queue_name mw, t)} | None \<Rightarrow> {}) \<union> event_names ?m"
    "\<And>j. j \<noteq> ?i \<Longrightarrow> events_of d' j = events_of d j"
    using mw event_names_length [of ?m] by (auto simp: events_of_def wrapper_ok_def split: option.splits if_splits)
  moreover have "stored d' j = stored d j" if "j \<noteq> ?i" for j
    using d'(3) [of "vkey (message_class j)"] that by (simp add: stored_def at_save_message [OF mw] vkey_inject)
  moreover have "used d' q + reserved ?m q = used d q + reserved (released ?m) q"
    "counter_ok d (vkey (quota_class q)) \<longrightarrow> counter_ok d' (vkey (quota_class q))" for q
  proof -
    let ?ks = "filter (\<lambda>k. quota_class k = quota_class q) (filter (done_key ?m) (quota_keys ?m))"
    have a: "at_key (vkey (quota_class q)) (?ws @ [(message_class ?i, op)])
        = map AtomicAdd (map (\<lambda>k. - quota_amount ?m k) ?ks)"
      by (simp add: at_save_quota [OF mw] vkey_inject)
    from used_after_adds [OF d'(1) this refl] ok
    have "used d' q = used d q + sum_list (map (\<lambda>k. - quota_amount ?m k) ?ks)" by (simp add: counters_ok_def)
    then show "used d' q + reserved ?m q = used d q + reserved (released ?m) q"
      using reserved_split [of ?m q] by (simp add: sum_list_neg)
    show "counter_ok d (vkey (quota_class q)) \<longrightarrow> counter_ok d' (vkey (quota_class q))"
      using counter_after_adds [OF d'(1) a] by blast
  qed
  ultimately show ?thesis by blast
qed

definition remove_writes :: "u64 option \<Rightarrow> message_wrapper \<Rightarrow> value_write list" where
  "remove_writes prev_event mw =
    (if prev_event \<noteq> None then clear_writes prev_event mw else event_writes (queue_id mw) Clear (message mw))
    @ add_writes (\<lambda>k. - quota_amount (message mw) k) (quota_keys (message mw))
    @ [(link_class (message mw) (LinkId (queue_id mw)), Clear)]"

definition removed_events :: "u64 option \<Rightarrow> message_wrapper \<Rightarrow> (queue_name \<times> u64) set" where
  "removed_events prev_event mw =
    (case prev_event of Some t \<Rightarrow> {(queue_name mw, t)} | None \<Rightarrow> event_names (message mw))"

definition hash_ok :: "message \<Rightarrow> bool" where
  "hash_ok m \<longleftrightarrow> length (blob_hash m) = 32"

lemma link_not [simp]:
  "link_class m l \<notin> range quota_class" "link_class m l \<noteq> message_class i" "message_class i \<noteq> link_class m l"
  "link_class m l \<noteq> event_class t i n" "event_class t i n \<noteq> link_class m l" "quota_class q \<noteq> link_class m l"
  "link_class m l \<noteq> quota_class q"
  by (auto simp: link_class_def)

lemma builds_clear_event: "builds ws b \<Longrightarrow> builds (ws @ clear_writes prev mw) (clear_event prev mw b)"
  using builds_calls(3) [of ws b] by (cases prev) (auto simp: clear_writes_def clear_event_def)

lemma event_writes_at:
  assumes "names_ok m" and "length n = 8"
  shows "write_seq (at_key (vkey (event_class t i n)) (event_writes j (Set []) m)) v
      = Inr (if i = j \<and> (n, t) \<in> event_names m then Some [] else v)"
    and "write_seq (at_key (vkey (event_class t i n)) (event_writes j Clear m)) v
      = Inr (if i = j \<and> (n, t) \<in> event_names m then None else v)"
proof -
  have "filter (\<lambda>(n', t'). event_class t' j n' = event_class t i n) (next_events m) = [] \<longleftrightarrow>
      \<not> (i = j \<and> (n, t) \<in> event_names m)"
    by (auto simp: filter_empty_conv event_names_def set_next_events)
  then show "write_seq (at_key (vkey (event_class t i n)) (event_writes j (Set []) m)) v
      = Inr (if i = j \<and> (n, t) \<in> event_names m then Some [] else v)"
    "write_seq (at_key (vkey (event_class t i n)) (event_writes j Clear m)) v
      = Inr (if i = j \<and> (n, t) \<in> event_names m then None else v)"
    using assms by (auto simp: at_key_events write_seq_same)
qed

lemma event_writes_else:
  "names_ok m \<Longrightarrow> class_ok y \<Longrightarrow> (\<And>t n. y \<noteq> event_class t i n) \<Longrightarrow> at_key (vkey y) (event_writes i op m) = []"
  by (auto simp: at_key_events filter_empty_conv)

lemma clear_writes_else:
  "length (queue_name mw) = 8 \<Longrightarrow> class_ok y \<Longrightarrow> (\<And>t n. y \<noteq> event_class t i n) \<Longrightarrow> i = queue_id mw \<Longrightarrow>
   at_key (vkey y) (clear_writes prev mw) = []"
  by (auto simp: at_clear)

lemma adds_else: "class_ok y \<Longrightarrow> y \<notin> range quota_class \<Longrightarrow> at_key (vkey y) (add_writes f ks) = []"
  by (auto simp: at_key_adds filter_empty_conv)

text \<open>What removing a message does.\<close>

lemma remove_effect:
  assumes mw: "wrapper_ok mw" and ok: "counters_ok d (message mw)" and h: "hash_ok (message mw)"
  shows "\<exists>d'. remove_message prev mw d = (True, d')
    \<and> stored d' (queue_id mw) = None
    \<and> events_of d' (queue_id mw) = events_of d (queue_id mw) - removed_events prev mw
    \<and> d' (vkey (link_class (message mw) (LinkId (queue_id mw)))) = None
    \<and> (\<forall>j. j \<noteq> queue_id mw \<longrightarrow> stored d' j = stored d j \<and> events_of d' j = events_of d j)
    \<and> (\<forall>q. used d' q + reserved (message mw) q = used d q)
    \<and> (\<forall>q. counter_ok d (vkey (quota_class q)) \<longrightarrow> counter_ok d' (vkey (quota_class q)))"
proof -
  let ?i = "queue_id mw" and ?m = "message mw" and ?ws = "remove_writes prev mw"
  let ?l = "link_class ?m (LinkId ?i)"
  have n: "names_ok ?m" "length (queue_name mw) = 8" "class_ok ?l" using mw h by (auto simp: wrapper_ok_def hash_ok_def)
  have "good_writes d ?ws"
    using n ok by (auto simp: remove_writes_def good_adds good_events counters_ok_def)
      (auto simp: clear_writes_def good_writes_def hash_ok_def image_iff split: option.split)
  moreover have msg: "at_key (vkey (message_class j)) ?ws = []" for j
    using n by (simp add: remove_writes_def event_writes_else clear_writes_else adds_else vkey_inject image_iff)
  ultimately obtain d' where d': "write_all (?ws @ [(message_class ?i, Clear)]) d = Inr d'"
    "d' (vkey (message_class ?i)) = None"
    "\<And>k. k \<noteq> vkey (message_class ?i) \<Longrightarrow> write_seq (at_key k ?ws) (d k) = Inr (d' k)"
    using good_then_last [of d ?ws "message_class ?i" Clear None] by auto
  have "builds (?ws @ [(message_class ?i, Clear)])
     (clear (message_class ?i) (clear ?l (release_keys ?m (quota_keys ?m)
       (if prev \<noteq> None then clear_event prev mw new_batch else clear_events ?i ?m new_batch))))"
    using builds_calls(3) [OF builds_calls(3) [OF builds_release [OF builds_clear_event [OF builds_new]]]]
      builds_calls(3) [OF builds_calls(3) [OF builds_release [OF builds_clear_events [OF builds_new]]]]
    by (simp add: remove_writes_def)
  moreover have "\<forall>(c, op) \<in> set (?ws @ [(message_class ?i, Clear)]). plain_op op"
    by (auto simp: remove_writes_def add_writes_def event_writes_def clear_writes_def split: option.splits)
  ultimately have "remove_message prev mw d = (True, d')"
    using store_write_builds d'(1) by (auto simp: remove_message_def Let_def)
  moreover have "stored d' ?i = None" using d'(2) by (simp add: stored_def)
  moreover have ev: "d' (vkey (event_class t j k)) =
      (if j = ?i \<and> (k, t) \<in> removed_events prev mw then None else d (vkey (event_class t j k)))" if "length k = 8" for t j k
    using d'(3) [of "vkey (event_class t j k)"] that n event_writes_at [of ?m k t j ?i] n(1)
    by (cases prev) (auto simp: remove_writes_def vkey_inject adds_else at_clear image_iff write_seq_append removed_events_def)
  then have "events_of d' ?i = events_of d ?i - removed_events prev mw"
    "\<And>j. j \<noteq> ?i \<Longrightarrow> events_of d' j = events_of d j"
    by (auto simp: events_of_def split: if_splits)
  moreover have "d' (vkey ?l) = None"
    using d'(3) [of "vkey ?l"] n
    by (simp add: remove_writes_def vkey_inject adds_else event_writes_else clear_writes_else split: if_splits)
  moreover have "stored d' j = stored d j" if "j \<noteq> ?i" for j
    using d'(3) [of "vkey (message_class j)"] that by (simp add: stored_def msg vkey_inject)
  moreover have "used d' q + reserved ?m q = used d q"
    "counter_ok d (vkey (quota_class q)) \<longrightarrow> counter_ok d' (vkey (quota_class q))" for q
  proof -
    let ?ks = "filter (\<lambda>k. quota_class k = quota_class q) (quota_keys ?m)"
    have a: "at_key (vkey (quota_class q)) (?ws @ [(message_class ?i, Clear)])
        = map AtomicAdd (map (\<lambda>k. - quota_amount ?m k) ?ks)"
      using n by (simp add: remove_writes_def at_key_adds event_writes_else clear_writes_else vkey_inject comp_def)
    from used_after_adds [OF d'(1) this refl] ok have "used d' q = used d q + sum_list (map (\<lambda>k. - quota_amount ?m k) ?ks)"
      by (simp add: counters_ok_def)
    then show "used d' q + reserved ?m q = used d q" by (simp add: sum_list_neg reserved_def)
    show "counter_ok d (vkey (quota_class q)) \<longrightarrow> counter_ok d' (vkey (quota_class q))"
      using counter_after_adds [OF d'(1) a] by blast
  qed
  ultimately show ?thesis by blast
qed

text \<open>What queueing a message does.\<close>

definition sample_writes :: "spool_env \<Rightarrow> u64 \<Rightarrow> bool option \<Rightarrow> message \<Rightarrow> value_write list" where
  "sample_writes env now train_spam m =
    (case (train_spam, hold_samples_for env) of
       (Some is_spam, Some hold) \<Rightarrow>
         [(link_class m (LinkTemporary (now + hold)), Set [SPAM_SAMPLE_LINK]),
          (Blob (BlobSpamSample (bytes_of (blob_hash m)) (now + hold)), Set [if is_spam then 1 else 0, 1])]
     | _ \<Rightarrow> [])"

definition queue_writes :: "spool_env \<Rightarrow> u64 \<Rightarrow> bool option \<Rightarrow> u64 \<Rightarrow> message \<Rightarrow> value_write list" where
  "queue_writes env now train_spam i m =
    add_writes (quota_amount m) (quota_keys m) @ event_writes i (Set []) m @ sample_writes env now train_spam m
    @ [(link_class m (LinkTemporary (now + 120)), Clear), (link_class m (LinkId i), Set []),
       (Blob (BlobCommit (bytes_of (blob_hash m))), Set [])]"

lemma sample_else:
  "hash_ok m \<Longrightarrow> class_ok y \<Longrightarrow> (\<And>b. y \<noteq> Blob b) \<Longrightarrow> at_key (vkey y) (sample_writes env now tr m) = []"
  by (auto simp: sample_writes_def link_class_def vkey_inject hash_ok_def split: option.split)

lemma sample_link:
  "hash_ok m \<Longrightarrow> at_key (vkey (link_class m (LinkId i))) (sample_writes env now tr m) = []"
  by (auto simp: sample_writes_def link_class_def vkey_inject hash_ok_def split: option.split)

lemma builds_sample: "builds ws b \<Longrightarrow> builds (ws @ sample_writes env now tr m) (train_sample env now tr m b)"
  using builds_calls(1) [OF builds_calls(1), of ws b]
  by (auto simp: sample_writes_def train_sample_def split: option.split)

lemma queue_batch_effect:
  assumes n: "names_ok m" and ok: "counters_ok d m" and h: "hash_ok m"
  shows "\<exists>d'. store_write (queue_batch env now tr i m bs) d = Some d'
    \<and> stored d' i = Some bs
    \<and> events_of d' i = events_of d i \<union> event_names m
    \<and> d' (vkey (link_class m (LinkId i))) = Some []
    \<and> (\<forall>j. j \<noteq> i \<longrightarrow> stored d' j = stored d j \<and> events_of d' j = events_of d j)
    \<and> (\<forall>q. used d' q = used d q + reserved m q)
    \<and> (\<forall>q. counter_ok d (vkey (quota_class q)) \<longrightarrow> counter_ok d' (vkey (quota_class q)))"
proof -
  let ?ws = "queue_writes env now tr i m"
  have l: "class_ok (link_class m x)" "class_ok (Blob (BlobCommit (bytes_of (blob_hash m))))" for x using h by (simp_all add: hash_ok_def)
  have "good_writes d (sample_writes env now tr m)"
    using h by (auto simp: sample_writes_def good_writes_def hash_ok_def image_iff split: option.split)
  then have "good_writes d ?ws"
    using n ok h by (simp add: queue_writes_def good_adds good_events counters_ok_def)
      (auto simp: good_writes_def hash_ok_def image_iff)
  moreover have msg: "at_key (vkey (message_class j)) ?ws = []" for j
    using n h l by (simp add: queue_writes_def event_writes_else sample_else adds_else vkey_inject image_iff)
  ultimately obtain d' where d': "write_all (?ws @ [(message_class i, Set bs)]) d = Inr d'"
    "d' (vkey (message_class i)) = Some bs"
    "\<And>k. k \<noteq> vkey (message_class i) \<Longrightarrow> write_seq (at_key k ?ws) (d k) = Inr (d' k)"
    using good_then_last [of d ?ws "message_class i" "Set bs" "Some bs"] by auto
  have "builds (?ws @ [(message_class i, Set bs)]) (queue_batch env now tr i m bs)"
    using builds_calls(1) [OF builds_calls(1) [OF builds_calls(1) [OF builds_calls(3) [OF builds_sample
      [OF builds_set_events [OF builds_reserve [OF builds_new]]]]]]]
    by (simp add: queue_batch_def queue_writes_def)
  moreover have "\<forall>(c, op) \<in> set (?ws @ [(message_class i, Set bs)]). plain_op op"
    by (auto simp: queue_writes_def add_writes_def event_writes_def sample_writes_def split: option.splits)
  ultimately have "store_write (queue_batch env now tr i m bs) d = Some d'"
    using store_write_builds d'(1) by auto
  moreover have "stored d' i = Some bs" using d'(2) by (simp add: stored_def)
  moreover have "d' (vkey (event_class t j k)) =
      (if j = i \<and> (k, t) \<in> event_names m then Some [] else d (vkey (event_class t j k)))" if "length k = 8" for t j k
    using d'(3) [of "vkey (event_class t j k)"] that n h l event_writes_at [of m k t j i]
    by (simp add: queue_writes_def vkey_inject adds_else sample_else image_iff write_seq_append)
  then have "events_of d' i = events_of d i \<union> event_names m" "\<And>j. j \<noteq> i \<Longrightarrow> events_of d' j = events_of d j"
    using event_names_length [OF n] by (auto simp: events_of_def split: if_splits)
  moreover have "d' (vkey (link_class m (LinkId i))) = Some []"
  proof -
    have "vkey (Blob (BlobCommit (bytes_of (blob_hash m)))) \<noteq> vkey (link_class m (LinkId i))"
      "vkey (link_class m (LinkTemporary (now + 120))) \<noteq> vkey (link_class m (LinkId i))"
      using l by (simp_all add: vkey_inject) (simp_all add: link_class_def)
    with d'(3) [of "vkey (link_class m (LinkId i))"] n h l show ?thesis
      by (simp add: queue_writes_def vkey_inject [of _ "message_class i"] adds_else event_writes_else sample_link)
  qed
  moreover have "stored d' j = stored d j" if "j \<noteq> i" for j
    using d'(3) [of "vkey (message_class j)"] that by (simp add: stored_def msg vkey_inject)
  moreover have "used d' q = used d q + reserved m q"
    "counter_ok d (vkey (quota_class q)) \<longrightarrow> counter_ok d' (vkey (quota_class q))" for q
  proof -
    let ?ks = "filter (\<lambda>k. quota_class k = quota_class q) (quota_keys m)"
    have a: "at_key (vkey (quota_class q)) (?ws @ [(message_class i, Set bs)]) = map AtomicAdd (map (quota_amount m) ?ks)"
      using n h l by (simp add: queue_writes_def at_key_adds event_writes_else sample_else vkey_inject comp_def)
    from used_after_adds [OF d'(1) this refl] ok show "used d' q = used d q + reserved m q" by (simp add: counters_ok_def reserved_def)
    show "counter_ok d (vkey (quota_class q)) \<longrightarrow> counter_ok d' (vkey (quota_class q))"
      using counter_after_adds [OF d'(1) a] by blast
  qed
  ultimately show ?thesis by blast
qed

end
