(* ===== verification/Spool_Properties.thy ===== *)
theory Spool_Properties imports Queue_Spool begin

text \<open>
  What the operations of the spool do to the spool as a whole: its abstract state is a map from ids
  to messages, beside the index of events, the links of the message texts and the counters of
  the quotas.  The last part evaluates the properties on a message that waits in two queues.
\<close>

section \<open>Properties\<close>

text \<open>
  The laws of what the spool takes from elsewhere: an archive is read back as what was archived,
  hashes have 32 bytes, and a blob that was put is there.
\<close>

definition spool_env_ok :: "spool_env \<Rightarrow> bool" where
  "spool_env_ok env \<longleftrightarrow>
    (\<forall>m bs. archive env m = Some bs \<longrightarrow> unarchive env bs = Some m)
    \<and> (\<forall>x. length (generate_hash env x) = 32)
    \<and> (\<forall>h raw s s'. put_blob env h raw s = Some s' \<longrightarrow> s' h = Some raw)"

text \<open>The abstract spool: a map from ids to messages.\<close>

definition spooled :: "spool_env \<Rightarrow> database \<Rightarrow> u64 \<Rightarrow> message option" where
  "spooled env d i = Option.bind (stored d i) (unarchive env)"

lemma read_message_spooled:
  "map_option message (read_message env i n d) = spooled env d i"
  by (auto simp: read_message_def spooled_def stored_def option.map_comp comp_def option.map_ident split: option.split)

lemma spooled_update:
  assumes "stored d' i = Some v" and "unarchive env v = Some m" and "\<And>j. j \<noteq> i \<Longrightarrow> stored d' j = stored d j"
  shows "spooled env d' = (spooled env d)(i \<mapsto> m)"
  using assms by (auto simp: spooled_def fun_eq_iff)

lemma stamp_simps [simp]:
  "recipients (stamp_message env source raw m) = recipients m" "created (stamp_message env source raw m) = created m"
  "quota_keys (stamp_message env source raw m) = quota_keys m"
  "blob_hash (stamp_message env source raw m) = generate_hash env raw"
  by (simp_all add: stamp_message_def)

lemma first_batch:
  assumes "hash_ok m"
  shows "store_write (set_value (link_class m x) [] new_batch) d = Some (d(vkey (link_class m x) \<mapsto> []))"
  using store_write_builds [OF builds_calls(1) [OF builds_new, of "link_class m x" "[]"], of d] by simp

lemma link_update [simp]:
  assumes "hash_ok m"
  shows "stored (d(vkey (link_class m x) := v)) i = stored d i"
    and "events_of (d(vkey (link_class m x) := v)) i = events_of d i"
    and "used (d(vkey (link_class m x) := v)) q = used d q"
    and "counter_ok (d(vkey (link_class m x) := v)) (vkey (quota_class q)) = counter_ok d (vkey (quota_class q))"
  using assms by (auto simp: stored_def events_of_def used_def counter_def counter_ok_def hash_ok_def vkey_inject)

lemma queue_message_effect:
  assumes env: "spool_env_ok env" and n: "names_ok (message mw)" and ok: "counters_ok (data st) (message mw)"
    and raw: "raw = (case raw_headers of Some h \<Rightarrow> h @ raw_message | None \<Rightarrow> raw_message)"
    and m: "m = stamp_message env source raw (message mw)"
    and bs: "archive env m = Some bs" and bl: "put_blob env (blob_hash m) raw (blobs st) = Some bl"
    and fresh: "events_of (data st) (queue_id mw) = {}"
  shows "\<exists>st'. queue_message env now raw_headers raw_message source mw st = (True, st')
    \<and> spooled env (data st') = (spooled env (data st))(queue_id mw \<mapsto> m)
    \<and> events_of (data st') (queue_id mw) = {(name, t). next_event m (Some name) = Some t}
    \<and> blobs st' (blob_hash m) = Some raw
    \<and> data st' (vkey (link_class m (LinkId (queue_id mw)))) \<noteq> None
    \<and> (\<forall>q. used (data st') q = used (data st) q + reserved m q)"
proof -
  have h: "hash_ok m" using env m by (simp add: spool_env_ok_def hash_ok_def)
  let ?d1 = "(data st)(vkey (link_class m (LinkTemporary (now + 120))) \<mapsto> [])"
  have "counters_ok ?d1 m" using ok h m by (simp add: counters_ok_def)
  moreover have "names_ok m" using n m by (simp add: names_ok_def)
  ultimately obtain d' where d': "store_write (queue_batch env now (snd (source_flags source)) (queue_id mw) m bs) ?d1 = Some d'"
    "stored d' (queue_id mw) = Some bs" "events_of d' (queue_id mw) = events_of ?d1 (queue_id mw) \<union> event_names m"
    "d' (vkey (link_class m (LinkId (queue_id mw)))) = Some []"
    "\<And>j. j \<noteq> queue_id mw \<Longrightarrow> stored d' j = stored ?d1 j" "\<And>q. used d' q = used ?d1 q + reserved m q"
    using queue_batch_effect [of m ?d1 env now "snd (source_flags source)" "queue_id mw" bs] h by blast
  have "queue_message env now raw_headers raw_message source mw st = (True, \<lparr>data = d', blobs = bl\<rparr>)"
    using d'(1) bs bl first_batch [OF h] by (simp add: queue_message_def Let_def raw [symmetric] m [symmetric])
  moreover have "unarchive env bs = Some m" "bl (blob_hash m) = Some raw" using env bs bl by (auto simp: spool_env_ok_def)
  ultimately show ?thesis
    using d' h fresh spooled_update [OF d'(2), of env m "data st"] by (simp add: event_names_def)
qed

text \<open>
  C23. Queueing a message adds it to the spool: if the archive and the blob store work, the call
  succeeds, the abstract spool is updated at the new id with the stamped message and nowhere else,
  the index of events has exactly the next event of every queue in which a recipient waits, the
  text can be read under the message's hash and is linked to the message, and every quota counter
  went up by what the message reserves.
\<close>

theorem queue_message_spools:
  assumes env: "spool_env_ok env" and n: "names_ok (message mw)" and ok: "counters_ok (data st) (message mw)"
    and raw: "raw = (case raw_headers of Some h \<Rightarrow> h @ raw_message | None \<Rightarrow> raw_message)"
    and m: "m = stamp_message env source raw (message mw)"
    and bs: "archive env m = Some bs" and bl: "put_blob env (blob_hash m) raw (blobs st) = Some bl"
    and fresh: "events_of (data st) (queue_id mw) = {}"
  shows "\<exists>st'. queue_message env now raw_headers raw_message source mw st = (True, st')
    \<and> spooled env (data st') = (spooled env (data st))(queue_id mw \<mapsto> m)
    \<and> events_of (data st') (queue_id mw) = {(name, t). next_event m (Some name) = Some t}
    \<and> blobs st' (blob_hash m) = Some raw
    \<and> data st' (vkey (link_class m (LinkId (queue_id mw)))) \<noteq> None
    \<and> (\<forall>q. used (data st') q = used (data st) q + reserved m q)"
  by (rule queue_message_effect [OF env n ok raw m bs bl fresh])

text \<open>
  C9. Saving a message replaces it in the spool: unless other queues have pending recipients, the
  saved message is the caller's, without the quotas of the recipients that are done; if they have,
  it is the stored one with the recipients of the caller's queue taken over. In both cases the call
  succeeds, other messages keep their contents and events, the event that was processed leaves the
  index and the next events of all queues enter it.
\<close>

theorem save_changes_spools:
  assumes env: "spool_env_ok env" and mw: "wrapper_ok mw" and ok: "counters_ok d (message mw)"
    and new: "archive env (released (message mw)) = Some bs"
    and m: "if is_multi_queue mw
      then spooled env d (queue_id mw) = Some cur \<and> blob_hash cur = blob_hash (message mw)
        \<and> length (recipients cur) = length (recipients (message mw))
        \<and> m = cur\<lparr>recipients := merge_recipients (queue_name mw) (recipients cur) (recipients (message mw))\<rparr>
        \<and> archive env m \<noteq> None
      else m = released (message mw)"
  shows "\<exists>d'. save_changes env (Some t) mw d = (True, d')
    \<and> spooled env d' = (spooled env d)(queue_id mw \<mapsto> m)
    \<and> events_of d' (queue_id mw) = events_of d (queue_id mw) - {(queue_name mw, t)}
        \<union> {(name, t'). next_event (message mw) (Some name) = Some t'}
    \<and> (\<forall>j. j \<noteq> queue_id mw \<longrightarrow> events_of d' j = events_of d j)"
proof -
  have un: "unarchive env bs = Some (released (message mw))" using env new by (simp add: spool_env_ok_def)
  obtain v where v: "if is_multi_queue mw
      then merge_message env (queue_name mw) bs no_ids (stored d (queue_id mw)) = Inr (Update v) else v = bs"
    "unarchive env v = Some m"
  proof (cases "is_multi_queue mw")
    case True
    with m obtain v where "archive env m = Some v" by auto
    with True m un env show ?thesis
      by (intro that [of v]) (auto simp: spooled_def merge_message_def spool_env_ok_def split: option.splits bind_splits)
  next
    case False
    with m un show ?thesis by (intro that [of bs]) simp_all
  qed
  from save_effect [OF mw ok new v(1), of "Some t"] obtain d' where d': "save_changes env (Some t) mw d = (True, d')"
    "stored d' (queue_id mw) = Some v" "events_of d' (queue_id mw) = events_of d (queue_id mw) - {(queue_name mw, t)} \<union> event_names (message mw)"
    "\<And>j. j \<noteq> queue_id mw \<Longrightarrow> stored d' j = stored d j \<and> events_of d' j = events_of d j"
    by auto
  with spooled_update [OF d'(2) v(2), of d] show ?thesis by (auto simp: event_names_def)
qed

text \<open>
  C18. A message that waits in one queue only gives its quotas back exactly once: after a save that released
  those of the recipients that are done, and the removal of what was saved, every quota counter is lower by
  just what the message had reserved before; and what is removed is gone from the spool, from the index and
  from the links of its text. (For a message in several queues this fails, as shown below.)
\<close>

theorem quotas_conserved:
  assumes mw: "wrapper_ok mw" "\<not> is_multi_queue mw" and ok: "counters_ok d (message mw)" and h: "hash_ok (message mw)"
    and new: "archive env (released (message mw)) = Some bs"
    and mw': "wrapper_ok mw'" "message mw' = released (message mw)" "queue_id mw' = queue_id mw"
  shows "\<exists>d1 d2. save_changes env prev mw d = (True, d1) \<and> remove_message prev' mw' d1 = (True, d2)
    \<and> (\<forall>q. used d2 q + reserved (message mw) q = used d q)
    \<and> spooled env d2 (queue_id mw) = None
    \<and> events_of d2 (queue_id mw) = events_of d1 (queue_id mw) - removed_events prev' mw'
    \<and> d2 (vkey (link_class (message mw) (LinkId (queue_id mw)))) = None"
proof -
  from save_effect [OF mw(1) ok new, of bs prev] mw(2) obtain d1 where d1: "save_changes env prev mw d = (True, d1)"
    "\<And>q. used d1 q + reserved (message mw) q = used d q + reserved (message mw') q"
    "\<And>q. counter_ok d (vkey (quota_class q)) \<Longrightarrow> counter_ok d1 (vkey (quota_class q))"
    using mw'(2) by auto
  have "counters_ok d1 (message mw')" using d1(3) ok by (simp add: counters_ok_def mw'(2) released_def)
  moreover have "hash_ok (message mw')" using h by (simp add: hash_ok_def mw'(2))
  ultimately obtain d2 where d2: "remove_message prev' mw' d1 = (True, d2)" "stored d2 (queue_id mw') = None"
    "events_of d2 (queue_id mw') = events_of d1 (queue_id mw') - removed_events prev' mw'"
    "d2 (vkey (link_class (message mw') (LinkId (queue_id mw')))) = None"
    "\<And>q. used d2 q + reserved (message mw') q = used d1 q"
    using remove_effect [OF mw'(1), of d1 prev'] by auto
  have "used d2 q + reserved (message mw) q = used d q" for q
  proof -
    have "used d2 q + reserved (message mw') q + reserved (message mw) q = used d q + reserved (message mw') q"
      by (simp add: d2(5) d1(2))
    then have "(used d2 q + reserved (message mw) q) + reserved (message mw') q = used d q + reserved (message mw') q"
      by (simp add: add.commute add.left_commute)
    then show ?thesis by simp
  qed
  moreover have "link_class (message mw') x = link_class (message mw) x" for x by (simp add: link_class_def mw'(2))
  ultimately show ?thesis using d1(1) d2 mw'(3) by (auto simp: spooled_def)
qed

text \<open>
  Quotas are given back twice by a message in several queues: the save releases the quotas of
  the recipients that are done, but the merge keeps the quotas of the stored message, so removing
  that message releases the same quotas again, and the counters fall below what they were.
\<close>

theorem multi_queue_releases_twice:
  assumes env: "spool_env_ok env" and mw: "wrapper_ok mw" "is_multi_queue mw" and ok: "counters_ok d (message mw)"
    and h: "hash_ok (message mw)" and new: "archive env (released (message mw)) = Some bs"
    and cur: "spooled env d (queue_id mw) = Some cur" "blob_hash cur = blob_hash (message mw)"
      "length (recipients cur) = length (recipients (message mw))" "quota_keys cur = quota_keys (message mw)"
      "message_size cur = message_size (message mw)"
    and m: "m = cur\<lparr>recipients := merge_recipients (queue_name mw) (recipients cur) (recipients (message mw))\<rparr>"
      "archive env m \<noteq> None"
    and mw': "wrapper_ok mw'" "message mw' = m" "queue_id mw' = queue_id mw"
  shows "\<exists>d1 d2. save_changes env prev mw d = (True, d1) \<and> remove_message prev' mw' d1 = (True, d2)
    \<and> spooled env d1 (queue_id mw) = Some m
    \<and> (\<forall>q. used d2 q + reserved (message mw) q + (reserved (message mw) q - reserved (released (message mw)) q) = used d q)"
proof -
  obtain v where v: "archive env m = Some v" using m by auto
  have un: "unarchive env bs = Some (released (message mw))" "unarchive env v = Some m"
    using env new v by (simp_all add: spool_env_ok_def)
  have "merge_message env (queue_name mw) bs no_ids (stored d (queue_id mw)) = Inr (Update v)"
    using cur(1-3) un v m(1) by (auto simp: spooled_def merge_message_def split: option.splits bind_splits)
  with save_effect [OF mw(1) ok new, of v prev] mw(2) obtain d1 where d1: "save_changes env prev mw d = (True, d1)"
    "stored d1 (queue_id mw) = Some v"
    "\<And>q. used d1 q + reserved (message mw) q = used d q + reserved (released (message mw)) q"
    "\<And>q. counter_ok d (vkey (quota_class q)) \<Longrightarrow> counter_ok d1 (vkey (quota_class q))" by auto
  have "counters_ok d1 (message mw')" using d1(4) ok by (simp add: counters_ok_def mw'(2) m(1) cur(4))
  moreover have "hash_ok (message mw')" using h by (simp add: hash_ok_def mw'(2) m(1) cur(2))
  ultimately obtain d2 where d2: "remove_message prev' mw' d1 = (True, d2)"
    "\<And>q. used d2 q + reserved (message mw') q = used d1 q"
    using remove_effect [OF mw'(1), of d1 prev'] by auto
  have "quota_amount m = quota_amount (message mw)"
  proof
    show "quota_amount m k = quota_amount (message mw) k" for k by (cases k) (simp_all add: m(1) cur(5))
  qed
  then have r: "reserved (message mw') q = reserved (message mw) q" for q
    by (simp add: reserved_def mw'(2)) (simp add: m(1) cur(4))
  have "used d2 q + reserved (message mw) q + (reserved (message mw) q - reserved (released (message mw)) q) = used d q" for q
    using d1(3) [of q] d2(2) [of q] r [of q] by (simp add: algebra_simps)
  with d1 d2(1) un(2) show ?thesis by (auto simp: spooled_def)
qed

lemma merge_recipients_nth:
  "i < length cur \<Longrightarrow> length cur = length new \<Longrightarrow>
   merge_recipients n cur new ! i = (if queue (new ! i) = n then new ! i else cur ! i)"
  by (simp add: merge_recipients_def)

lemma length_merge [simp]: "length cur = length new \<Longrightarrow> length (merge_recipients n cur new) = length new"
  by (simp add: merge_recipients_def)

lemma merge_recipients_commute:
  assumes "length cur = length as" and "length cur = length bs"
    and "\<forall>i < length cur. \<not> (queue (as ! i) = a \<and> queue (bs ! i) = b)"
  shows "merge_recipients b (merge_recipients a cur as) bs = merge_recipients a (merge_recipients b cur bs) as"
  using assms by (intro nth_equalityI) (auto simp: merge_recipients_nth)

definition multi_save_ok :: "spool_env \<Rightarrow> database \<Rightarrow> message_wrapper \<Rightarrow> message \<Rightarrow> bool" where
  "multi_save_ok env d mw cur \<longleftrightarrow> wrapper_ok mw \<and> is_multi_queue mw \<and> counters_ok d (message mw)
    \<and> blob_hash cur = blob_hash (message mw) \<and> length (recipients cur) = length (recipients (message mw))
    \<and> archive env (released (message mw)) \<noteq> None
    \<and> archive env (cur\<lparr>recipients := merge_recipients (queue_name mw) (recipients cur) (recipients (message mw))\<rparr>) \<noteq> None"

lemma multi_save:
  assumes env: "spool_env_ok env" and ok: "multi_save_ok env d mw cur" and cur: "spooled env d (queue_id mw) = Some cur"
  shows "\<exists>d'. save_changes env prev mw d = (True, d')
    \<and> spooled env d' (queue_id mw)
        = Some (cur\<lparr>recipients := merge_recipients (queue_name mw) (recipients cur) (recipients (message mw))\<rparr>)
    \<and> events_of d' (queue_id mw) = events_of d (queue_id mw)
        - (case prev of Some t \<Rightarrow> {(queue_name mw, t)} | None \<Rightarrow> {}) \<union> event_names (message mw)
    \<and> (\<forall>q. counter_ok d (vkey (quota_class q)) \<longrightarrow> counter_ok d' (vkey (quota_class q)))"
proof -
  let ?m = "cur\<lparr>recipients := merge_recipients (queue_name mw) (recipients cur) (recipients (message mw))\<rparr>"
  obtain bs v where bs: "archive env (released (message mw)) = Some bs" "archive env ?m = Some v"
    using ok by (auto simp: multi_save_ok_def)
  have un: "unarchive env bs = Some (released (message mw))" "unarchive env v = Some ?m"
    using env bs by (simp_all add: spool_env_ok_def)
  have "merge_message env (queue_name mw) bs no_ids (stored d (queue_id mw)) = Inr (Update v)"
    using cur un bs(2) ok by (auto simp: multi_save_ok_def spooled_def merge_message_def split: option.splits bind_splits)
  with save_effect [of mw d env bs v prev] ok bs(1) un(2) show ?thesis
    by (auto simp: multi_save_ok_def spooled_def)
qed


text \<open>
  The events of a save are those of the worker's own copy, for all queues: the worker that saves last puts
  the event that the other has just processed and removed into the index again.
\<close>

lemma processed_event_comes_back:
  assumes env: "spool_env_ok env" and cur: "spooled env d i = Some cur" and i: "queue_id a = i" "queue_id b = i"
    and a: "multi_save_ok env d a cur"
    and b: "multi_save_ok env d b (cur\<lparr>recipients := merge_recipients (queue_name a) (recipients cur) (recipients (message a))\<rparr>)"
    and stale: "next_event (message b) (Some (queue_name a)) = Some t"
  shows "\<exists>d1 d2. save_changes env (Some t) a d = (True, d1) \<and> save_changes env (Some t') b d1 = (True, d2)
    \<and> (queue_name a, t) \<in> events_of d2 i"
proof -
  from multi_save [OF env a, of "Some t"] cur i obtain d1 where d1: "save_changes env (Some t) a d = (True, d1)"
    "spooled env d1 i = Some (cur\<lparr>recipients := merge_recipients (queue_name a) (recipients cur) (recipients (message a))\<rparr>)"
    "\<forall>q. counter_ok d (vkey (quota_class q)) \<longrightarrow> counter_ok d1 (vkey (quota_class q))" by auto
  have "multi_save_ok env d1 b (cur\<lparr>recipients := merge_recipients (queue_name a) (recipients cur) (recipients (message a))\<rparr>)"
    using b d1(3) by (auto simp: multi_save_ok_def counters_ok_def)
  from multi_save [OF env this, of "Some t'"] d1(2) i obtain d2 where "save_changes env (Some t') b d1 = (True, d2)"
    "events_of d2 i = events_of d1 i - {(queue_name b, t')} \<union> event_names (message b)" by auto
  with d1(1) stale show ?thesis by (auto simp: event_names_def)
qed

text \<open>
  A recipient that moves to another queue is not saved while other queues have work: the save
  takes over only the recipients that are now in the worker's queue, so the status and the retry
  time of a recipient that the attempt sent to another queue are lost, although its old event has
  left the index and an event in the new queue has entered it.
\<close>

theorem moved_recipient_not_saved:
  assumes env: "spool_env_ok env" and ok: "multi_save_ok env d mw cur" and cur: "spooled env d (queue_id mw) = Some cur"
    and k: "k < length (recipients cur)" and r: "r = recipients (message mw) ! k" "queue r \<noteq> queue_name mw"
    and t': "next_event (message mw) (Some (queue r)) = Some t'"
  shows "\<exists>d' m. save_changes env (Some t) mw d = (True, d') \<and> spooled env d' (queue_id mw) = Some m
    \<and> recipients m ! k = recipients cur ! k \<and> (queue r, t') \<in> events_of d' (queue_id mw)"
proof -
  from multi_save [OF env ok cur, of "Some t"] obtain d' where d': "save_changes env (Some t) mw d = (True, d')"
    "spooled env d' (queue_id mw)
       = Some (cur\<lparr>recipients := merge_recipients (queue_name mw) (recipients cur) (recipients (message mw))\<rparr>)"
    "events_of d' (queue_id mw) = events_of d (queue_id mw) - {(queue_name mw, t)} \<union> event_names (message mw)"
    by auto
  moreover have "(queue r, t') \<in> event_names (message mw)" using t' by (simp add: event_names_def)
  ultimately show ?thesis
    using k r ok by (auto simp: merge_recipients_nth multi_save_ok_def)
qed

text \<open>
  Recipients of messages that the server generates get their delay notice in about twice the
  current time: \<open>add_recipient\<close> passes a point in time to a function that expects a duration.
\<close>

theorem add_recipient_notify_time:
  "\<exists>r. recipients (add_recipient env now addr m) = recipients m @ [r]
    \<and> due (retry r) = now \<and> status r = Scheduled
    \<and> (\<exists>q. q = resolve_queue (dsn env) (m\<lparr>recipients := recipients m @ [recipient_new (lower_domain env) now addr]\<rparr>)
              (recipient_new (lower_domain env) now addr)
         \<and> queue r = virtual_queue q \<and> expires r = strategy_expiry q
         \<and> due (notify r) = now + now + (case strategy_notify q of d # _ \<Rightarrow> d | [] \<Rightarrow> 86400))"
  by (auto simp: add_recipient_def Let_def recipient_new_def schedule_now_def schedule_later_def algebra_simps
      split: list.split)

section \<open>An instance\<close>

text \<open>
  The hypotheses on the archive, the hash and the blob store hold for a table of messages, whose
  archives are their positions.
\<close>

fun table_archive :: "message list \<Rightarrow> nat \<Rightarrow> message \<Rightarrow> bytes option" where
  "table_archive [] n m = None"
| "table_archive (x # xs) n m = (if m = x then Some (replicate n 0) else table_archive xs (Suc n) m)"

definition table_env :: "message list \<Rightarrow> spool_env" where
  "table_env ms = \<lparr>dsn = test_env, archive = table_archive ms 0,
     unarchive = (\<lambda>bs. if length bs < length ms then Some (ms ! length bs) else None),
     generate_hash = (\<lambda>_. replicate 32 (CHR 0x00)), put_blob = (\<lambda>h raw s. Some (s(h \<mapsto> raw))),
     hold_samples_for = None, lower_domain = (\<lambda>s. s)\<rparr>"

lemma table_archive_index: "table_archive xs n m = Some bs \<Longrightarrow> \<exists>k < length xs. bs = replicate (n + k) 0 \<and> xs ! k = m"
proof (induction xs arbitrary: n)
  case (Cons x xs)
  then show ?case
  proof (cases "m = x")
    case False
    with Cons obtain k where "k < length xs" "bs = replicate (Suc n + k) 0" "xs ! k = m" by fastforce
    then show ?thesis by (intro exI [of _ "Suc k"]) simp
  qed auto
qed simp

lemma table_env_ok: "spool_env_ok (table_env ms)"
proof -
  have "(if length bs < length ms then Some (ms ! length bs) else None) = Some m" if "table_archive ms 0 m = Some bs" for m bs
    using table_archive_index [OF that] by auto
  then show ?thesis by (simp add: spool_env_ok_def table_env_def)
qed

lemma table_archive_some: "m \<in> set ms \<Longrightarrow> \<exists>bs. archive (table_env ms) m = Some bs"
proof -
  have "m \<in> set xs \<Longrightarrow> \<exists>bs. table_archive xs n m = Some bs" for xs n
    by (induction xs arbitrary: n) auto
  then show "m \<in> set ms \<Longrightarrow> \<exists>bs. archive (table_env ms) m = Some bs" by (simp add: table_env_def)
qed

definition second_queue :: queue_name where "second_queue = ''queue-02''"

definition delivered :: rcpt_status where
  "delivered = Completed \<lparr>hostname = ''mx'', host_reply = \<lparr>code = 250, esc = (2, 0, 0), response_text = ''ok''\<rparr>\<rparr>"

definition waiting :: "queue_name \<Rightarrow> rcpt_status \<Rightarrow> recipient" where
  "waiting n s = test_rcpt\<lparr>queue := n, status := s\<rparr>"

definition spool_message :: "quota_key list \<Rightarrow> recipient list \<Rightarrow> message" where
  "spool_message ks rs = (test_message rs)\<lparr>blob_hash := replicate 32 (CHR 0x00), quota_keys := ks\<rparr>"

definition worker :: "queue_name \<Rightarrow> bool \<Rightarrow> message \<Rightarrow> message_wrapper" where
  "worker n multi m = \<lparr>queue_id = 7, queue_name = n, is_multi_queue = multi, span_id = 0, message = m\<rparr>"

definition spool_db :: "spool_env \<Rightarrow> message \<Rightarrow> database" where
  "spool_db env m = [vkey (message_class 7) \<mapsto> the (archive env m)]"

lemma spooled_db: "m \<in> set ms \<Longrightarrow> spooled (table_env ms) (spool_db (table_env ms) m) 7 = Some m"
  using table_archive_some [of m ms] table_env_ok [of ms]
  by (auto simp: spooled_def stored_def spool_db_def spool_env_ok_def)

lemma counter_spool_db [simp]: "counter_ok (spool_db env m) (vkey (quota_class q))"
  "used (spool_db env m) q = 0"
  by (simp_all add: counter_ok_def spool_db_def vkey_inject used_def counter_def)

lemma spool_simps [simp]:
  "length second_queue = 8" "length DEFAULT_QUEUE_NAME = 8" "DEFAULT_QUEUE_NAME \<noteq> second_queue"
  "second_queue \<noteq> DEFAULT_QUEUE_NAME"
  "queue (waiting n s) = n" "status (waiting n s) = s" "waiting n s = waiting n' s' \<longleftrightarrow> n = n' \<and> s = s'"
  "recipients (spool_message ks rs) = rs" "quota_keys (spool_message ks rs) = ks"
  "blob_hash (spool_message ks rs) = replicate 32 (CHR 0x00)" "message_size (spool_message ks rs) = 1"
  "recipients_update f (spool_message ks rs) = spool_message ks (f rs)"
  "queue_id (worker n b m) = 7" "queue_name (worker n b m) = n" "is_multi_queue (worker n b m) = b"
  "message (worker n b m) = m" "\<not> pending_status delivered"
  by (simp_all add: second_queue_def DEFAULT_QUEUE_NAME_def waiting_def spool_message_def test_message_def worker_def
      delivered_def) (auto dest: arg_cong [of _ _ queue] arg_cong [of _ _ status])

lemma spool_ok [simp]:
  "hash_ok (spool_message ks rs)"
  "names_ok (spool_message ks rs) \<longleftrightarrow> (\<forall>r \<in> set rs. length (queue r) = 8)"
  "wrapper_ok (worker n b (spool_message ks rs)) \<longleftrightarrow> (\<forall>r \<in> set rs. length (queue r) = 8) \<and> length n = 8"
  "counters_ok (spool_db env m) m'"
  by (simp_all add: hash_ok_def names_ok_def wrapper_ok_def counters_ok_def)

lemma released_spool: "released (spool_message ks rs)
    = spool_message (filter (\<lambda>k. quota_id k \<notin> set (released_ids [] 0 rs)) ks) rs"
  by (simp add: released_def done_key_def) (simp add: spool_message_def test_message_def)

lemma released_ids_delivered: "released_ids [] 0 [waiting n delivered, waiting n' Scheduled] = [push_bit 32 1, 1]"
  "released_ids [] 0 [waiting n Scheduled, waiting n' Scheduled] = []"
  "released_ids [] 0 [waiting n delivered] = [push_bit 32 1, 1]"
  by simp_all

lemma merge_simps [simp]:
  "merge_recipients n [] [] = []"
  "merge_recipients n (c # cs) (x # xs) = (if queue x = n then x else c) # merge_recipients n cs xs"
  by (simp_all add: merge_recipients_def)

abbreviation "dq \<equiv> DEFAULT_QUEUE_NAME"
abbreviation "waiting_message \<equiv> spool_message [CountKey ''k'' 1] [waiting dq Scheduled, waiting second_queue Scheduled]"
abbreviation "half_message \<equiv> spool_message [CountKey ''k'' 1] [waiting dq delivered, waiting second_queue Scheduled]"
abbreviation "half_released \<equiv> spool_message [] [waiting dq delivered, waiting second_queue Scheduled]"
abbreviation "other_message \<equiv> spool_message [CountKey ''k'' 1] [waiting dq Scheduled, waiting second_queue delivered]"
abbreviation "both_message \<equiv> spool_message [CountKey ''k'' 1] [waiting dq delivered, waiting second_queue delivered]"
abbreviation "moved_message \<equiv> spool_message [CountKey ''k'' 1] [waiting second_queue Scheduled, waiting second_queue Scheduled]"

definition all_messages :: "message list" where
  "all_messages = [waiting_message, half_message, half_released, other_message, both_message, moved_message]"

definition spool_test_env :: spool_env where "spool_test_env = table_env all_messages"

lemma archived [simp]:
  "archive spool_test_env waiting_message \<noteq> None" "archive spool_test_env half_message \<noteq> None"
  "archive spool_test_env half_released \<noteq> None" "archive spool_test_env other_message \<noteq> None"
  "archive spool_test_env both_message \<noteq> None" "archive spool_test_env moved_message \<noteq> None"
proof -
  have *: "m \<in> set all_messages \<Longrightarrow> archive spool_test_env m \<noteq> None" for m
    using table_archive_some [of m all_messages] by (auto simp: spool_test_env_def)
  show "archive spool_test_env waiting_message \<noteq> None" "archive spool_test_env half_message \<noteq> None"
    "archive spool_test_env half_released \<noteq> None" "archive spool_test_env other_message \<noteq> None"
    "archive spool_test_env both_message \<noteq> None" "archive spool_test_env moved_message \<noteq> None"
    by (rule *, simp add: all_messages_def)+
qed

lemma test_spool: "spool_env_ok spool_test_env"
  "spooled spool_test_env (spool_db spool_test_env waiting_message) 7 = Some waiting_message"
  using table_env_ok [of all_messages] spooled_db [of waiting_message all_messages]
  by (simp_all add: spool_test_env_def all_messages_def)

theorem queue_message_spools_witness:
  "\<exists>st'. queue_message (table_env [stamp_message (table_env []) SourceDsn [97] waiting_message]) 100 None [97] SourceDsn
      (worker dq False waiting_message) \<lparr>data = Map.empty, blobs = Map.empty\<rparr> = (True, st')
    \<and> used (data st') (CountKey ''k'' 1) = 1 \<and> blobs st' (replicate 32 (CHR 0x00)) = Some [97]"
proof -
  let ?m = "stamp_message (table_env []) SourceDsn [97] waiting_message"
  let ?env = "table_env [?m]"
  have m: "?m = stamp_message ?env SourceDsn [97] waiting_message" by (simp add: stamp_message_def table_env_def)
  obtain bs where bs: "archive ?env ?m = Some bs" using table_archive_some [of ?m "[?m]"] by auto
  have r: "reserved ?m (CountKey ''k'' 1) = 1" by (simp add: reserved_def)
  have h: "blob_hash ?m = replicate 32 (CHR 0x00)" by (simp add: table_env_def)
  have p: "put_blob ?env (blob_hash ?m) [97] Map.empty = Some (Map.empty(blob_hash ?m \<mapsto> [97]))" by (simp add: table_env_def)
  obtain st' where st': "queue_message ?env 100 None [97] SourceDsn (worker dq False waiting_message) \<lparr>data = Map.empty, blobs = Map.empty\<rparr> = (True, st')"
    "blobs st' (blob_hash ?m) = Some [97]" "\<forall>q. used (data st') q = used Map.empty q + reserved ?m q"
    using queue_message_spools [OF table_env_ok, where mw = "worker dq False waiting_message" and st = "\<lparr>data = Map.empty, blobs = Map.empty\<rparr>"
        and raw = "[97]" and raw_headers = None and raw_message = "[97]" and m = ?m and source = SourceDsn and now = 100,
        OF _ _ _ _ bs] m p
    by (auto simp: counters_ok_def counter_ok_def events_of_def)
  moreover have "used (data st') (CountKey ''k'' 1) = 1"
    using st'(3) [rule_format, of "CountKey ''k'' 1"] r by (simp add: used_def [of Map.empty] counter_def)
  ultimately show ?thesis using h by auto
qed

theorem save_changes_spools_witness:
  "\<exists>d'. save_changes spool_test_env (Some 5) (worker dq True half_message) (spool_db spool_test_env waiting_message) = (True, d')
    \<and> spooled spool_test_env d' 7 = Some half_message"
proof -
  obtain bs where "archive spool_test_env half_released = Some bs" using archived(3) by blast
  then have "archive spool_test_env (released half_message) = Some bs" by (simp add: released_spool)
  with save_changes_spools [OF test_spool(1), of "worker dq True half_message" "spool_db spool_test_env waiting_message" bs waiting_message half_message 5]
    test_spool(2) archived(2) obtain d' where
    "save_changes spool_test_env (Some 5) (worker dq True half_message) (spool_db spool_test_env waiting_message) = (True, d')"
    "spooled spool_test_env d' = (spooled spool_test_env (spool_db spool_test_env waiting_message))(7 \<mapsto> half_message)"
    by auto
  then show ?thesis by auto
qed

theorem quotas_conserved_witness:
  "\<exists>d1 d2. save_changes spool_test_env (Some 5) (worker dq False half_message) (spool_db spool_test_env waiting_message) = (True, d1)
    \<and> remove_message None (worker dq False half_released) d1 = (True, d2)
    \<and> used d2 (CountKey ''k'' 1) = - 1 \<and> spooled spool_test_env d2 7 = None"
proof -
  obtain bs where "archive spool_test_env half_released = Some bs" using archived(3) by blast
  then have "archive spool_test_env (released half_message) = Some bs" by (simp add: released_spool)
  moreover have "reserved half_message (CountKey ''k'' 1) = 1" by (simp add: reserved_def)
  ultimately obtain d1 d2 where d: "save_changes spool_test_env (Some 5) (worker dq False half_message) (spool_db spool_test_env waiting_message) = (True, d1)"
    "remove_message None (worker dq False half_released) d1 = (True, d2)" "spooled spool_test_env d2 7 = None"
    "\<forall>q. used d2 q + reserved half_message q = 0"
    using quotas_conserved [of "worker dq False half_message" "spool_db spool_test_env waiting_message" spool_test_env bs
        "worker dq False half_released" "Some 5" None]
    by (auto simp: released_spool)
  have "used d2 (CountKey ''k'' 1) = - 1"
    using d(4) [rule_format, of "CountKey ''k'' 1"] by (simp add: reserved_def eq_neg_iff_add_eq_0)
  with d show ?thesis by blast
qed

theorem multi_queue_releases_twice_witness:
  "\<exists>d1 d2. save_changes spool_test_env (Some 5) (worker dq True half_message) (spool_db spool_test_env waiting_message) = (True, d1)
    \<and> remove_message None (worker dq True half_message) d1 = (True, d2) \<and> used d2 (CountKey ''k'' 1) = - 2"
proof -
  obtain bs where "archive spool_test_env half_released = Some bs" using archived(3) by blast
  then have "archive spool_test_env (released half_message) = Some bs" by (simp add: released_spool)
  moreover have "reserved half_message (CountKey ''k'' 1) = 1" "reserved half_released (CountKey ''k'' 1) = 0"
    by (simp_all add: reserved_def)
  ultimately have r: "archive spool_test_env (released half_message) = Some bs" by simp
  obtain d1 d2 where d: "save_changes spool_test_env (Some 5) (worker dq True half_message) (spool_db spool_test_env waiting_message) = (True, d1)"
    "remove_message None (worker dq True half_message) d1 = (True, d2)"
    "\<forall>q. used d2 q + reserved half_message q + (reserved half_message q - reserved half_released q) = 0"
    using multi_queue_releases_twice [OF test_spool(1), of "worker dq True half_message" "spool_db spool_test_env waiting_message" bs
        waiting_message half_message "worker dq True half_message" "Some 5" None] test_spool(2) archived(2) r(1)
    by (auto simp: released_spool simp del: add_diff_eq)
  have "used d2 (CountKey ''k'' 1) + 2 = 0"
    using d(3) [rule_format, of "CountKey ''k'' 1"] by (simp add: reserved_def add.commute)
  with d(1,2) show ?thesis by (auto simp: eq_neg_iff_add_eq_0)
qed


theorem moved_recipient_not_saved_witness:
  "\<exists>d' m. save_changes spool_test_env (Some 5) (worker dq True moved_message) (spool_db spool_test_env waiting_message) = (True, d')
    \<and> spooled spool_test_env d' 7 = Some m \<and> recipients m ! 0 = waiting dq Scheduled"
proof -
  have "multi_save_ok spool_test_env (spool_db spool_test_env waiting_message) (worker dq True moved_message) waiting_message"
    using archived by (simp add: multi_save_ok_def released_spool)
  moreover have "\<exists>t. next_event moved_message (Some second_queue) = Some t"
    by (auto simp: next_event_min min_over_def pending_in_def in_queue_def)
  ultimately show ?thesis
    using moved_recipient_not_saved [OF test_spool(1), of "spool_db spool_test_env waiting_message" "worker dq True moved_message" waiting_message 0 "waiting second_queue Scheduled"] test_spool(2)
    by fastforce
qed

end
