(* ===== verification/Rust_Str.thy ===== *)
theory Rust_Str
  imports Prelude
begin

text \<open>
  The string methods of the Rust standard library that the parsers of the mail server use, on
  UTF-8 byte strings: \<open>trim\<close> with the Unicode white space, \<open>split_once\<close>, \<open>strip_prefix\<close>,
  \<open>strip_suffix\<close> and \<open>ends_with\<close>.
\<close>

text \<open>The encodings of the characters of Unicode's \<open>White_Space\<close>, by their length.\<close>

definition white_space_1 :: "char \<Rightarrow> bool" where
  "white_space_1 a \<longleftrightarrow> a = ch_space \<or> (9 \<le> byte a \<and> byte a \<le> 13)"

definition white_space_2 :: "char \<Rightarrow> char \<Rightarrow> bool" where
  "white_space_2 a b \<longleftrightarrow> byte a = 0xC2 \<and> (byte b = 0x85 \<or> byte b = 0xA0)"

definition white_space_3 :: "char \<Rightarrow> char \<Rightarrow> char \<Rightarrow> bool" where
  "white_space_3 a b c \<longleftrightarrow>
    (byte a = 0xE1 \<and> byte b = 0x9A \<and> byte c = 0x80)
    \<or> (byte a = 0xE2 \<and> byte b = 0x80 \<and> ((0x80 \<le> byte c \<and> byte c \<le> 0x8A) \<or> byte c = 0xA8 \<or> byte c = 0xA9 \<or> byte c = 0xAF))
    \<or> (byte a = 0xE2 \<and> byte b = 0x81 \<and> byte c = 0x9F)
    \<or> (byte a = 0xE3 \<and> byte b = 0x80 \<and> byte c = 0x80)"

fun trim_start :: "string \<Rightarrow> string" where
  "trim_start (a # b # c # s) =
    (if white_space_1 a then trim_start (b # c # s)
     else if white_space_2 a b then trim_start (c # s)
     else if white_space_3 a b c then trim_start s
     else a # b # c # s)"
| "trim_start [a, b] = (if white_space_1 a then trim_start [b] else if white_space_2 a b then [] else [a, b])"
| "trim_start [a] = (if white_space_1 a then [] else [a])"
| "trim_start [] = []"

text \<open>The same from the end, on the reversed string.\<close>

fun trim_rev :: "string \<Rightarrow> string" where
  "trim_rev (c # b # a # s) =
    (if white_space_1 c then trim_rev (b # a # s)
     else if white_space_2 b c then trim_rev (a # s)
     else if white_space_3 a b c then trim_rev s
     else c # b # a # s)"
| "trim_rev [b, a] = (if white_space_1 b then trim_rev [a] else if white_space_2 a b then [] else [b, a])"
| "trim_rev [a] = (if white_space_1 a then [] else [a])"
| "trim_rev [] = []"

definition trim :: "string \<Rightarrow> string" where
  "trim s = rev (trim_rev (rev (trim_start s)))"

definition split_once :: "char \<Rightarrow> string \<Rightarrow> (string \<times> string) option" where
  "split_once c s =
    (if c \<in> set s then Some (takeWhile (\<lambda>x. x \<noteq> c) s, tl (dropWhile (\<lambda>x. x \<noteq> c) s)) else None)"

definition strip_prefix :: "string \<Rightarrow> string \<Rightarrow> string option" where
  "strip_prefix p s = (if take (length p) s = p then Some (drop (length p) s) else None)"

definition ends_with :: "string \<Rightarrow> string \<Rightarrow> bool" where
  "ends_with p s \<longleftrightarrow> length p \<le> length s \<and> drop (length s - length p) s = p"

definition strip_suffix :: "string \<Rightarrow> string \<Rightarrow> string option" where
  "strip_suffix p s = (if ends_with p s then Some (take (length s - length p) s) else None)"

lemma split_once_Some: "split_once c s = Some (a, b) \<longleftrightarrow> s = a @ c # b \<and> c \<notin> set a"
proof
  assume "split_once c s = Some (a, b)"
  then have c: "c \<in> set s" and a: "a = takeWhile (\<lambda>x. x \<noteq> c) s" and b: "b = tl (dropWhile (\<lambda>x. x \<noteq> c) s)"
    by (auto simp: split_once_def split: if_splits)
  from c have "dropWhile (\<lambda>x. x \<noteq> c) s \<noteq> []" by (auto simp: dropWhile_eq_Nil_conv)
  moreover from this have "hd (dropWhile (\<lambda>x. x \<noteq> c) s) = c" using hd_dropWhile by blast
  ultimately have "dropWhile (\<lambda>x. x \<noteq> c) s = c # b" using b by (metis list.collapse)
  then show "s = a @ c # b \<and> c \<notin> set a"
    using a takeWhile_dropWhile_id [of "\<lambda>x. x \<noteq> c" s] set_takeWhileD by fastforce
next
  assume s: "s = a @ c # b \<and> c \<notin> set a"
  then have "\<And>x. x \<in> set a \<Longrightarrow> x \<noteq> c" by auto
  with s show "split_once c s = Some (a, b)"
    by (simp add: split_once_def takeWhile_append_stop dropWhile_append2)
qed

lemma split_once_shorter: "split_once c s = Some (a, b) \<Longrightarrow> length a < length s \<and> length b < length s"
  by (auto simp: split_once_Some)

lemma length_trim_start: "length (trim_start s) \<le> length s"
  by (induction s rule: trim_start.induct) auto

end
