(* ===== verification/Smtp_Status.thy ===== *)
theory Smtp_Status
  imports Queue_Dsn Rust_Str
begin

text \<open>
  The outcome of a delivery attempt (\<open>crates/smtp/src/outbound/mod.rs\<close>): how the errors of the
  SMTP client, of the resolver and of the MTA-STS policy become the status of a recipient, and the
  next hop of a delivery.

  The errors are the ones of the packages \<open>mail_send\<close>, \<open>mail_auth\<close> and \<open>reqwest\<close>, with the
  constructors that the source distinguishes; an error that the source only prints carries its text.
\<close>

section \<open>Errors of other packages\<close>

datatype severity = PositiveCompletion | PositiveIntermediate | TransientNegativeCompletion
  | PermanentNegativeCompletion | InvalidSeverity

datatype send_error =
    SendIo string
  | SendTls string
  | SendBase64 string
  | SendAuth string
  | UnparseableReply
  | UnexpectedReply response
  | AuthenticationFailed response
  | InvalidTLSName
  | MissingCredentials
  | MissingMailFrom
  | MissingRcptTo
  | UnsupportedAuthMechanism
  | Timeout
  | MissingStartTls

datatype dns_error = DnsRecordNotFound string | InvalidRecordType | DnsFailure string | OtherDnsError string

record http_error =
  is_timeout :: bool
  is_connect :: bool
  is_status :: bool
  http_status :: "nat option"

datatype mta_sts_error = StsDns dns_error | StsHttp http_error | InvalidPolicy string

text \<open>What the packages say of their values: the severity of a reply, the texts of errors.\<close>

record reply_env =
  severity_of :: "response \<Rightarrow> severity"
  is_positive_completion :: "response \<Rightarrow> bool"
  show_send_error :: "send_error \<Rightarrow> string"
  show_dns_error :: "dns_error \<Rightarrow> string"

section \<open>Status of a recipient\<close>

definition temporary :: "string \<Rightarrow> queue_error \<Rightarrow> rcpt_status" where
  "temporary host e = TemporaryFailure \<lparr>entity = host, details = e\<rparr>"

definition permanent :: "string \<Rightarrow> queue_error \<Rightarrow> rcpt_status" where
  "permanent host e = PermanentFailure \<lparr>entity = host, details = e\<rparr>"

definition unexpected :: "string \<Rightarrow> response \<Rightarrow> queue_error" where
  "unexpected command r = UnexpectedResponse \<lparr>failed_command = command, failed_reply = r\<rparr>"

text \<open>A negative reply is final if it says so.\<close>

definition rejected :: "reply_env \<Rightarrow> string \<Rightarrow> string \<Rightarrow> response \<Rightarrow> rcpt_status" where
  "rejected env host command r =
    (if severity_of env r = PermanentNegativeCompletion
     then permanent host (unexpected command r) else temporary host (unexpected command r))"

fun from_smtp_error :: "reply_env \<Rightarrow> string \<Rightarrow> string \<Rightarrow> send_error \<Rightarrow> rcpt_status" where
  "from_smtp_error env host command (UnexpectedReply r) = rejected env host (trim command) r"
| "from_smtp_error env host command (SendAuth t) = permanent host (ConnectionError (show_send_error env (SendAuth t)))"
| "from_smtp_error env host command UnsupportedAuthMechanism =
    permanent host (ConnectionError (show_send_error env UnsupportedAuthMechanism))"
| "from_smtp_error env host command InvalidTLSName = permanent host (ConnectionError (show_send_error env InvalidTLSName))"
| "from_smtp_error env host command MissingStartTls = permanent host (ConnectionError (show_send_error env MissingStartTls))"
| "from_smtp_error env host command err = temporary host (ConnectionError (show_send_error env err))"

definition from_starttls_error :: "reply_env \<Rightarrow> string \<Rightarrow> response option \<Rightarrow> rcpt_status" where
  "from_starttls_error env host reply =
    (case reply of
       Some r \<Rightarrow> rejected env host ''STARTTLS'' r
     | None \<Rightarrow> permanent host (TlsError ''STARTTLS not advertised by host.''))"

fun from_tls_error :: "string \<Rightarrow> send_error \<Rightarrow> rcpt_status" where
  "from_tls_error host InvalidTLSName = permanent host (TlsError ''Invalid hostname'')"
| "from_tls_error host Timeout = temporary host (TlsError ''TLS handshake timed out'')"
| "from_tls_error host (SendTls err) = temporary host (TlsError (''Handshake failed: '' @ err))"
| "from_tls_error host (SendIo err) = temporary host (TlsError (''I/O error: '' @ err))"
| "from_tls_error host _ = permanent host (TlsError ''Other TLS error'')"

definition status_timeout :: "string \<Rightarrow> string \<Rightarrow> rcpt_status" where
  "status_timeout host stage = temporary host (ConnectionError (''Timeout while '' @ stage))"

fun from_mail_auth_error :: "reply_env \<Rightarrow> string \<Rightarrow> dns_error \<Rightarrow> rcpt_status" where
  "from_mail_auth_error env host (DnsRecordNotFound c) = permanent host (DnsError (''Domain not found: '' @ c))"
| "from_mail_auth_error env host err = temporary host (DnsError (show_dns_error env err))"

fun from_mta_sts_error :: "reply_env \<Rightarrow> string \<Rightarrow> mta_sts_error \<Rightarrow> rcpt_status" where
  "from_mta_sts_error env host (StsDns (DnsRecordNotFound c)) = permanent host (MtaStsError (''Record not found: '' @ c))"
| "from_mta_sts_error env host (StsDns InvalidRecordType) =
    permanent host (MtaStsError ''Failed to parse MTA-STS DNS record.'')"
| "from_mta_sts_error env host (StsDns err) =
    temporary host (MtaStsError (''DNS lookup error: '' @ show_dns_error env err))"
| "from_mta_sts_error env host (StsHttp err) =
    (if is_timeout err then temporary host (MtaStsError ''Timeout fetching policy.'')
     else if is_connect err then temporary host (MtaStsError ''Could not reach policy host.'')
     else if is_status err \<and> http_status err = Some 404 then permanent host (MtaStsError ''Policy not found.'')
     else temporary host (MtaStsError ''Failed to fetch policy.''))"
| "from_mta_sts_error env host (InvalidPolicy err) =
    permanent host (MtaStsError (''Failed to parse policy: '' @ err))"

section \<open>The result of a delivery attempt\<close>

datatype delivery_result =
    DomainResult rcpt_status "nat list"
  | AccountResult rcpt_status nat
  | RateLimitedResult "nat list" u64

section \<open>Next hops\<close>

datatype require_optional = Optional | Require | Disable

record tls_strategy =
  dane_mode :: require_optional
  mta_sts_mode :: require_optional
  tls_mode :: require_optional
  allow_invalid_certs :: bool

definition try_dane :: "tls_strategy \<Rightarrow> bool" where
  "try_dane t \<longleftrightarrow> dane_mode t = Require \<or> dane_mode t = Optional"

definition try_start_tls :: "tls_strategy \<Rightarrow> bool" where
  "try_start_tls t \<longleftrightarrow> tls_mode t = Require \<or> tls_mode t = Optional"

definition is_dane_required :: "tls_strategy \<Rightarrow> bool" where
  "is_dane_required t \<longleftrightarrow> dane_mode t = Require"

definition try_mta_sts :: "tls_strategy \<Rightarrow> bool" where
  "try_mta_sts t \<longleftrightarrow> mta_sts_mode t = Require \<or> mta_sts_mode t = Optional"

definition is_mta_sts_required :: "tls_strategy \<Rightarrow> bool" where
  "is_mta_sts_required t \<longleftrightarrow> mta_sts_mode t = Require"

definition is_tls_required :: "tls_strategy \<Rightarrow> bool" where
  "is_tls_required t \<longleftrightarrow> tls_mode t = Require \<or> is_dane_required t \<or> is_mta_sts_required t"

datatype ip_lookup_strategy = Ipv4Only | Ipv6Only | Ipv4thenIpv6 | Ipv6thenIpv4

record mx_config =
  max_mx :: nat
  config_multi_homed :: nat
  mx_lookup_strategy :: ip_lookup_strategy

datatype credentials = PlainCredentials string string | OAuthBearer string | XOauth2 string string

record relay_config =
  relay_address :: string
  relay_port :: nat
  relay_is_smtp :: bool
  relay_auth :: "credentials option"
  tls_implicit :: bool
  tls_allow_invalid_certs :: bool

datatype routing_strategy = RouteLocal | RouteMx mx_config | RouteRelay relay_config

text \<open>\<open>NextHop::MX\<close> with \<open>is_implicit\<close>, \<open>host\<close> and \<open>config\<close>.\<close>

datatype next_hop = Relay relay_config | MX bool string mx_config

fun next_hop_hostname :: "next_hop \<Rightarrow> string" where
  "next_hop_hostname (MX _ host _) = (case strip_suffix ''.'' host of Some h \<Rightarrow> h | None \<Rightarrow> host)"
| "next_hop_hostname (Relay r) = relay_address r"

fun fqdn_hostname :: "next_hop \<Rightarrow> string" where
  "fqdn_hostname (MX _ host _) = (if \<not> ends_with ''.'' host then host @ ''.'' else host)"
| "fqdn_hostname (Relay r) = relay_address r"

fun max_multi_homed :: "next_hop \<Rightarrow> nat" where
  "max_multi_homed (MX _ _ config) = config_multi_homed config"
| "max_multi_homed (Relay _) = 10"

fun lookup_strategy :: "next_hop \<Rightarrow> ip_lookup_strategy" where
  "lookup_strategy (MX _ _ config) = mx_lookup_strategy config"
| "lookup_strategy (Relay _) = Ipv4thenIpv6"

fun next_hop_port :: "next_hop \<Rightarrow> nat" where
  "next_hop_port (MX _ _ _) = 25"
| "next_hop_port (Relay r) = relay_port r"

fun next_hop_credentials :: "next_hop \<Rightarrow> credentials option" where
  "next_hop_credentials (MX _ _ _) = None"
| "next_hop_credentials (Relay r) = relay_auth r"

fun hop_allow_invalid_certs :: "next_hop \<Rightarrow> bool" where
  "hop_allow_invalid_certs (MX _ _ _) = False"
| "hop_allow_invalid_certs (Relay r) = tls_allow_invalid_certs r"

fun implicit_tls :: "next_hop \<Rightarrow> bool" where
  "implicit_tls (MX _ _ _) = False"
| "implicit_tls (Relay r) = tls_implicit r"

fun next_hop_is_smtp :: "next_hop \<Rightarrow> bool" where
  "next_hop_is_smtp (MX _ _ _) = True"
| "next_hop_is_smtp (Relay r) = relay_is_smtp r"

lemma status_pending_simps [simp]:
  "pending_status (temporary h e)" "\<not> pending_status (permanent h e)"
  by (simp_all add: temporary_def permanent_def)

end
