(* ===== verification/Smtp_Client.thy ===== *)
theory Smtp_Client
  imports Smtp_Status Containers
begin

text \<open>
  The SMTP client (\<open>crates/smtp/src/outbound/client.rs\<close>): reading replies from a stream that
  delivers them in chunks, sending commands and the message, authentication and STARTTLS.

  A connection is what its remote side will do, as a script of reads and writes: a read yields a
  chunk (an empty one is the end of the stream), fails or never completes, and a write is accepted,
  fails or never completes, the last two after some bytes.  An operation that never completes is
  what the time limits of the client are for.  The parsers of replies are the ones of the
  \<open>smtp_proto\<close> package, the mechanisms and their encodings those of \<open>mail_send\<close>, TLS is
  \<open>tokio_rustls\<close>: they are fields of the environment.
\<close>

section \<open>Connections\<close>

datatype read_event = Chunk string | ReadError string | ReadStall
datatype write_event = WriteOk | WriteError nat string | WriteStall nat

datatype connector = PkiVerify | DummyVerify

type_synonym certificates = "string list option"

datatype channel = PlainText | Tls connector certificates

record conn =
  incoming :: "read_event list"
  write_events :: "write_event list"
  sent :: string
  channel :: channel

datatype op_error = Stalled | Failed send_error

text \<open>The handshake of TLS: the script of the encrypted stream, or a failure.\<close>

datatype tls_outcome =
    TlsUp "read_event list" "write_event list" certificates
  | TlsBadName
  | TlsFailed string
  | TlsIo string
  | TlsStalled

record ehlo_response =
  ehlo_capabilities :: u64
  auth_mechanisms :: u64

datatype 'p parsed = Reply response string | NeedsMoreData 'p | BadReply
datatype ehlo_parsed = EhloReply ehlo_response | EhloNeedsMore | EhloInvalid nat string | EhloBad

datatype blob_result = BlobFound string | BlobMissing | BlobFailed

record 'p client_env = reply_env +
  reply_parser :: 'p
  reply_parser_from_code :: "nat \<Rightarrow> 'p"
  parse_reply :: "'p \<Rightarrow> string \<Rightarrow> 'p parsed"
  parse_ehlo :: "string \<Rightarrow> ehlo_parsed"
  MAX_RESPONSE_LENGTH :: nat
  assert_code :: "nat \<Rightarrow> response \<Rightarrow> send_error + response"
  assert_positive_completion :: "response \<Rightarrow> send_error + response"
  has_capability :: "ehlo_response \<Rightarrow> u64 \<Rightarrow> bool"
  EXT_START_TLS :: u64
  AUTH_CRAM_MD5 :: u64
  AUTH_DIGEST_MD5 :: u64
  AUTH_LOGIN :: u64
  AUTH_PLAIN :: u64
  AUTH_OAUTHBEARER :: u64
  AUTH_XOAUTH2 :: u64
  to_mechanism :: "u64 \<Rightarrow> string"
  encode_credentials :: "credentials \<Rightarrow> u64 \<Rightarrow> string \<Rightarrow> send_error + string"
  tls_handshake :: "connector \<Rightarrow> string \<Rightarrow> conn \<Rightarrow> tls_outcome"

section \<open>The stream\<close>

text \<open>\<open>write_all\<close>; \<open>flush\<close> is a write of no bytes.\<close>

definition write_all :: "string \<Rightarrow> conn \<Rightarrow> (op_error + unit) \<times> conn" where
  "write_all s c =
    (case write_events c of
       [] \<Rightarrow> (Inr (), c\<lparr>sent := sent c @ s\<rparr>)
     | WriteOk # ws \<Rightarrow> (Inr (), c\<lparr>sent := sent c @ s, write_events := ws\<rparr>)
     | WriteError n e # ws \<Rightarrow> (Inl (Failed (SendIo e)), c\<lparr>sent := sent c @ take n s, write_events := ws\<rparr>)
     | WriteStall n # ws \<Rightarrow> (Inl Stalled, c\<lparr>sent := sent c @ take n s, write_events := ws\<rparr>))"

fun write_chunks :: "string list \<Rightarrow> conn \<Rightarrow> (op_error + unit) \<times> conn" where
  "write_chunks [] c = write_all [] c"
| "write_chunks (s # ss) c =
    (case write_all s c of (Inl e, c) \<Rightarrow> (Inl e, c) | (Inr _, c) \<Rightarrow> write_chunks ss c)"

text \<open>\<open>read\<close>: what a chunk holds after the reply is dropped.\<close>

fun read_events :: "'p client_env \<Rightarrow> 'p \<Rightarrow> read_event list \<Rightarrow> (op_error + response) \<times> read_event list" where
  "read_events env p [] = (Inl Stalled, [])"
| "read_events env p (ReadStall # es) = (Inl Stalled, es)"
| "read_events env p (ReadError e # es) = (Inl (Failed (SendIo e)), es)"
| "read_events env p (Chunk s # es) =
    (if s \<noteq> [] then
       (case parse_reply env p s of
          Reply r _ \<Rightarrow> (Inr r, es)
        | NeedsMoreData p' \<Rightarrow> read_events env p' es
        | BadReply \<Rightarrow> (Inl (Failed UnparseableReply), es))
     else (Inl (Failed UnparseableReply), es))"

definition client_read :: "'p client_env \<Rightarrow> conn \<Rightarrow> (op_error + response) \<times> conn" where
  "client_read env c =
    (case read_events env (reply_parser env) (incoming c) of (r, es) \<Rightarrow> (r, c\<lparr>incoming := es\<rparr>))"

text \<open>
  \<open>read_many\<close>: the replies of one chunk, \<open>n\<close> more being wanted; the call has \<open>n > 0\<close> (with none
  wanted the source reads on until the stream ends).
\<close>

datatype 'p many = AllReplies "response list" | MoreReplies nat 'p "response list" | BadReplies

fun parse_many :: "'p client_env \<Rightarrow> nat \<Rightarrow> 'p \<Rightarrow> string \<Rightarrow> response list \<Rightarrow> 'p many" where
  "parse_many env 0 p s acc = MoreReplies 0 p acc"
| "parse_many env (Suc n) p s acc =
    (case parse_reply env p s of
       Reply r rest \<Rightarrow> if n = 0 then AllReplies (acc @ [r]) else parse_many env n (reply_parser env) rest (acc @ [r])
     | NeedsMoreData p' \<Rightarrow> MoreReplies (Suc n) p' acc
     | BadReply \<Rightarrow> BadReplies)"

fun read_many_events ::
  "'p client_env \<Rightarrow> nat \<Rightarrow> 'p \<Rightarrow> response list \<Rightarrow> read_event list \<Rightarrow> (op_error + response list) \<times> read_event list" where
  "read_many_events env n p acc [] = (Inl Stalled, [])"
| "read_many_events env n p acc (ReadStall # es) = (Inl Stalled, es)"
| "read_many_events env n p acc (ReadError e # es) = (Inl (Failed (SendIo e)), es)"
| "read_many_events env n p acc (Chunk s # es) =
    (if s \<noteq> [] then
       (case parse_many env n p s acc of
          AllReplies rs \<Rightarrow> (Inr rs, es)
        | MoreReplies n' p' acc' \<Rightarrow> read_many_events env n' p' acc' es
        | BadReplies \<Rightarrow> (Inl (Failed UnparseableReply), es))
     else (Inl (Failed UnparseableReply), es))"

definition read_many :: "'p client_env \<Rightarrow> nat \<Rightarrow> conn \<Rightarrow> (op_error + response list) \<times> conn" where
  "read_many env n c =
    (case read_many_events env n (reply_parser env) [] (incoming c) of (r, es) \<Rightarrow> (r, c\<lparr>incoming := es\<rparr>))"

text \<open>\<open>read_ehlo\<close>: the chunks so far are parsed anew with each chunk that is added.\<close>

fun read_ehlo_events :: "'p client_env \<Rightarrow> string \<Rightarrow> read_event list \<Rightarrow> (op_error + ehlo_response) \<times> read_event list" where
  "read_ehlo_events env buf [] = (Inl Stalled, [])"
| "read_ehlo_events env buf (ReadStall # es) = (Inl Stalled, es)"
| "read_ehlo_events env buf (ReadError e # es) = (Inl (Failed (SendIo e)), es)"
| "read_ehlo_events env buf (Chunk s # es) =
    (if s = [] then (Inl (Failed UnparseableReply), es)
     else if buf = [] \<or> length s + length buf < MAX_RESPONSE_LENGTH env then
       (case parse_ehlo env (buf @ s) of
          EhloReply r \<Rightarrow> (Inr r, es)
        | EhloNeedsMore \<Rightarrow> read_ehlo_events env (buf @ s) es
        | EhloInvalid k rest \<Rightarrow>
            (case parse_reply env (reply_parser_from_code env k) rest of
               Reply r _ \<Rightarrow> (Inl (Failed (UnexpectedReply r)), es)
             | NeedsMoreData _ \<Rightarrow> read_ehlo_events env (buf @ s) es
             | BadReply \<Rightarrow> (Inl (Failed UnparseableReply), es))
        | EhloBad \<Rightarrow> (Inl (Failed UnparseableReply), es))
     else (Inl (Failed UnparseableReply), es))"

definition read_ehlo :: "'p client_env \<Rightarrow> conn \<Rightarrow> (op_error + ehlo_response) \<times> conn" where
  "read_ehlo env c =
    (case read_ehlo_events env [] (incoming c) of (r, es) \<Rightarrow> (r, c\<lparr>incoming := es\<rparr>))"

section \<open>Commands\<close>

text \<open>What a call reports: a command's time limit is an error of the client.\<close>

definition timed :: "op_error \<Rightarrow> send_error" where
  "timed e = (case e of Stalled \<Rightarrow> Timeout | Failed err \<Rightarrow> err)"

definition client_cmd :: "'p client_env \<Rightarrow> string \<Rightarrow> conn \<Rightarrow> (send_error + response) \<times> conn" where
  "client_cmd env s c =
    (case write_chunks [s] c of
       (Inl e, c) \<Rightarrow> (Inl (timed e), c)
     | (Inr _, c) \<Rightarrow> (case client_read env c of (Inl e, c) \<Rightarrow> (Inl (timed e), c) | (Inr r, c) \<Rightarrow> (Inr r, c)))"

text \<open>The other calls say what they were doing when the time ran out.\<close>

definition stage_error :: "'p client_env \<Rightarrow> string \<Rightarrow> string \<Rightarrow> string \<Rightarrow> op_error \<Rightarrow> rcpt_status" where
  "stage_error env host stage command e =
    (case e of Stalled \<Rightarrow> status_timeout host stage
     | Failed err \<Rightarrow> from_smtp_error (reply_env.truncate env) host command err)"

definition read_greeting :: "'p client_env \<Rightarrow> string \<Rightarrow> conn \<Rightarrow> (rcpt_status + unit) \<times> conn" where
  "read_greeting env host c =
    (case client_read env c of
       (Inl e, c) \<Rightarrow> (Inl (stage_error env host ''reading greeting'' [] e), c)
     | (Inr r, c) \<Rightarrow>
        (case assert_code env 220 r of
           Inl err \<Rightarrow> (Inl (from_smtp_error (reply_env.truncate env) host [] err), c)
         | Inr _ \<Rightarrow> (Inr (), c)))"

definition command_of :: "string option \<Rightarrow> string" where
  "command_of bdat_cmd = (case bdat_cmd of Some s \<Rightarrow> s | None \<Rightarrow> ''DATA'')"

definition read_smtp_data_response ::
  "'p client_env \<Rightarrow> string \<Rightarrow> string option \<Rightarrow> conn \<Rightarrow> (rcpt_status + response) \<times> conn" where
  "read_smtp_data_response env host bdat_cmd c =
    (case client_read env c of
       (Inl e, c) \<Rightarrow> (Inl (stage_error env host ''reading SMTP DATA response'' (command_of bdat_cmd) e), c)
     | (Inr r, c) \<Rightarrow> (Inr r, c))"

definition read_lmtp_data_response ::
  "'p client_env \<Rightarrow> string \<Rightarrow> nat \<Rightarrow> conn \<Rightarrow> (rcpt_status + response list) \<times> conn" where
  "read_lmtp_data_response env host num_responses c =
    (case read_many env num_responses c of
       (Inl e, c) \<Rightarrow> (Inl (stage_error env host ''reading LMTP DATA responses'' [] e), c)
     | (Inr rs, c) \<Rightarrow> (Inr rs, c))"

definition say_helo :: "'p client_env \<Rightarrow> bool \<Rightarrow> string \<Rightarrow> string \<Rightarrow> conn \<Rightarrow> (rcpt_status + ehlo_response) \<times> conn" where
  "say_helo env is_smtp host local_hostname c =
    (let cmd = (if is_smtp then ''EHLO '' else ''LHLO '') @ local_hostname @ crlf;
         err = stage_error env host ''reading EHLO response'' cmd in
     case write_chunks [cmd] c of
       (Inl e, c) \<Rightarrow> (Inl (err e), c)
     | (Inr _, c) \<Rightarrow> (case read_ehlo env c of (Inl e, c) \<Rightarrow> (Inl (err e), c) | (Inr r, c) \<Rightarrow> (Inr r, c)))"

text \<open>\<open>quit\<close> ignores what the remote side answers.\<close>

definition quit :: "conn \<Rightarrow> conn" where
  "quit c =
    (case write_chunks [''QUIT'' @ crlf] c of
       (Inl _, c) \<Rightarrow> c
     | (Inr _, c) \<Rightarrow> c\<lparr>incoming := drop 1 (incoming c)\<rparr>)"

section \<open>The message\<close>

text \<open>
  \<open>write_message\<close>: the pieces of the message between the dots that are doubled, \<open>eol\<close> being
  \<open>is_cr_or_lf\<close>.
\<close>

fun stuff_chunks :: "string \<Rightarrow> bool \<Rightarrow> string \<Rightarrow> string list" where
  "stuff_chunks piece eol [] = [piece]"
| "stuff_chunks piece eol (b # s) =
    (if b = CHR ''.'' \<and> eol then piece # ''.'' # stuff_chunks [b] False s
     else stuff_chunks (piece @ [b]) (b = ch_lf \<or> b = ch_cr) s)"

definition write_message :: "string \<Rightarrow> conn \<Rightarrow> (op_error + unit) \<times> conn" where
  "write_message m = write_chunks (stuff_chunks [] False m @ [crlf @ ''.'' @ crlf])"

definition queue_system_error :: rcpt_status where
  "queue_system_error = temporary ''localhost'' (Io ''Queue system error.'')"

definition send_message ::
  "'p client_env \<Rightarrow> string \<Rightarrow> string option \<Rightarrow> blob_result \<Rightarrow> conn \<Rightarrow> (rcpt_status + unit) \<times> conn" where
  "send_message env host bdat_cmd blob c =
    (let err = stage_error env host ''sending message'' (command_of bdat_cmd) in
     case blob of
       BlobFound raw_message \<Rightarrow>
        (case bdat_cmd of
           Some cmd \<Rightarrow> (case write_chunks [cmd, raw_message] c of (Inl e, c) \<Rightarrow> (Inl (err e), c) | (Inr _, c) \<Rightarrow> (Inr (), c))
         | None \<Rightarrow>
            (case write_chunks [''DATA'' @ crlf] c of
               (Inl e, c) \<Rightarrow> (Inl (err e), c)
             | (Inr _, c) \<Rightarrow>
                (case client_read env c of
                   (Inl e, c) \<Rightarrow> (Inl (err e), c)
                 | (Inr r, c) \<Rightarrow>
                    (case assert_code env 354 r of
                       Inl e \<Rightarrow> (Inl (err (Failed e)), c)
                     | Inr _ \<Rightarrow>
                        (case write_message raw_message c of
                           (Inl e, c) \<Rightarrow> (Inl (err e), c) | (Inr _, c) \<Rightarrow> (Inr (), c))))))
     | BlobMissing \<Rightarrow> (Inl queue_system_error, c)
     | BlobFailed \<Rightarrow> (Inl queue_system_error, c))"

section \<open>Authentication\<close>

fun auth_rounds :: "'p client_env \<Rightarrow> u64 \<Rightarrow> credentials \<Rightarrow> nat \<Rightarrow> response \<Rightarrow> conn \<Rightarrow> (send_error + unit) \<times> conn" where
  "auth_rounds env mech cred 0 reply c = (Inl (UnexpectedReply reply), c)"
| "auth_rounds env mech cred (Suc n) reply c =
    (if code reply = 334 then
       (case encode_credentials env cred mech (response_text reply) of
          Inl e \<Rightarrow> (Inl e, c)
        | Inr s \<Rightarrow>
            (case client_cmd env (s @ crlf) c of
               (Inl e, c) \<Rightarrow> (Inl e, c)
             | (Inr reply, c) \<Rightarrow> auth_rounds env mech cred n reply c))
     else if code reply = 235 then (Inr (), c)
     else (Inl (UnexpectedReply reply), c))"

definition auth :: "'p client_env \<Rightarrow> u64 \<Rightarrow> credentials \<Rightarrow> conn \<Rightarrow> (send_error + unit) \<times> conn" where
  "auth env mech cred c =
    (let first = (if mech AND (AUTH_PLAIN env OR AUTH_XOAUTH2 env OR AUTH_OAUTHBEARER env) \<noteq> 0
                  then (case encode_credentials env cred mech [] of
                          Inl e \<Rightarrow> Inl e
                        | Inr s \<Rightarrow> Inr (''AUTH '' @ to_mechanism env mech @ '' '' @ s @ crlf))
                  else Inr (''AUTH '' @ to_mechanism env mech @ crlf)) in
     case first of
       Inl e \<Rightarrow> (Inl e, c)
     | Inr cmd \<Rightarrow>
        (case client_cmd env cmd c of
           (Inl e, c) \<Rightarrow> (Inl e, c)
         | (Inr reply, c) \<Rightarrow> auth_rounds env mech cred 3 reply c))"

fun credential_mechanisms :: "'p client_env \<Rightarrow> credentials \<Rightarrow> u64" where
  "credential_mechanisms env (PlainCredentials _ _) =
    AUTH_CRAM_MD5 env OR AUTH_DIGEST_MD5 env OR AUTH_LOGIN env OR AUTH_PLAIN env"
| "credential_mechanisms env (OAuthBearer _) = AUTH_OAUTHBEARER env"
| "credential_mechanisms env (XOauth2 _ _) = AUTH_XOAUTH2 env"

definition auth_failure :: "response option \<Rightarrow> send_error" where
  "auth_failure has_err = (case has_err of Some r \<Rightarrow> AuthenticationFailed r | None \<Rightarrow> UnsupportedAuthMechanism)"

text \<open>The loop takes the highest mechanism that is left; it ends as each is tried once.\<close>

definition best_mechanism :: "u64 \<Rightarrow> u64" where
  "best_mechanism available = push_bit (highest_bit available) 1"

lemma bit_set_less_mechanism:
  assumes "available \<noteq> 0"
  shows "card (bit_set (available XOR best_mechanism available)) < card (bit_set available)"
proof -
  have p: "bitmap_pop available = Some (word_of_nat (highest_bit available), available XOR best_mechanism available)"
    using assms by (simp add: bitmap_pop_def best_mechanism_def)
  show ?thesis unfolding bit_set_pop(1) [OF p]
    by (rule card_Diff1_less) (simp_all add: bit_set_pop(2) [OF p])
qed

function auth_loop :: "'p client_env \<Rightarrow> credentials \<Rightarrow> u64 \<Rightarrow> response option \<Rightarrow> conn \<Rightarrow> (send_error + unit) \<times> conn" where
  "auth_loop env cred available has_err c =
    (if available = 0 then (Inl (auth_failure has_err), c)
     else
       (case auth env (best_mechanism available) cred c of
          (Inr _, c) \<Rightarrow> (Inr (), c)
        | (Inl (UnexpectedReply reply), c) \<Rightarrow>
            if code reply = 535 then (Inl (auth_failure (Some reply)), c)
            else auth_loop env cred (available XOR best_mechanism available) (Some reply) c
        | (Inl UnsupportedAuthMechanism, c) \<Rightarrow>
            auth_loop env cred (available XOR best_mechanism available) has_err c
        | (Inl err, c) \<Rightarrow> (Inl err, c)))"
  by pat_completeness auto
termination
  by (relation "measure (\<lambda>(env, cred, available, has_err, c). card (bit_set available))")
    (use bit_set_less_mechanism in auto)

declare auth_loop.simps [simp del]

definition authenticate :: "'p client_env \<Rightarrow> credentials \<Rightarrow> ehlo_response \<Rightarrow> conn \<Rightarrow> (send_error + unit) \<times> conn" where
  "authenticate env cred capabilities c =
    auth_loop env cred (credential_mechanisms env cred AND auth_mechanisms capabilities) None c"

section \<open>TLS\<close>

definition into_tls :: "'p client_env \<Rightarrow> connector \<Rightarrow> string \<Rightarrow> conn \<Rightarrow> send_error + conn" where
  "into_tls env connector host c =
    (case tls_handshake env connector host c of
       TlsUp es ws certs \<Rightarrow> Inr \<lparr>incoming = es, write_events = ws, sent = [], channel = Tls connector certs\<rparr>
     | TlsBadName \<Rightarrow> Inl InvalidTLSName
     | TlsFailed e \<Rightarrow> Inl (SendTls e)
     | TlsIo e \<Rightarrow> Inl (SendIo e)
     | TlsStalled \<Rightarrow> Inl Timeout)"

definition start_tls :: "'p client_env \<Rightarrow> connector \<Rightarrow> string \<Rightarrow> conn \<Rightarrow> send_error + conn" where
  "start_tls env connector host c =
    (case client_cmd env (''STARTTLS'' @ crlf) c of
       (Inl e, _) \<Rightarrow> Inl e
     | (Inr r, c) \<Rightarrow>
        (case assert_positive_completion env r of Inl e \<Rightarrow> Inl e | Inr _ \<Rightarrow> into_tls env connector host c))"

datatype start_tls_result = TlsSuccess conn | StartTlsFailed send_error | TlsUnavailable "response option" conn

definition client_try_start_tls ::
  "'p client_env \<Rightarrow> connector \<Rightarrow> string \<Rightarrow> ehlo_response \<Rightarrow> conn \<Rightarrow> start_tls_result" where
  "client_try_start_tls env connector host capabilities c =
    (if has_capability env capabilities (EXT_START_TLS env) then
       (case client_cmd env (''STARTTLS'' @ crlf) c of
          (Inr r, c) \<Rightarrow>
            if code r = 220 then
              (case into_tls env connector host c of Inr c \<Rightarrow> TlsSuccess c | Inl e \<Rightarrow> StartTlsFailed e)
            else TlsUnavailable (Some r) c
        | (Inl e, _) \<Rightarrow> StartTlsFailed e)
     else TlsUnavailable None c)"

section \<open>Properties\<close>

lemma write_all_ok:
  assumes "write_all s c = (Inr u, c')"
  shows "sent c' = sent c @ s \<and> incoming c' = incoming c \<and> channel c' = channel c"
  using assms by (auto simp: write_all_def split: list.splits write_event.splits)

lemma write_chunks_ok:
  "write_chunks ss c = (Inr u, c') \<Longrightarrow>
   sent c' = sent c @ concat ss \<and> incoming c' = incoming c \<and> channel c' = channel c"
proof (induction ss arbitrary: c)
  case (Cons s ss)
  then show ?case by (auto split: prod.splits sum.splits dest: write_all_ok)
qed (use write_all_ok in simp)

text \<open>The text that the chunks make up.\<close>

fun stuffed :: "bool \<Rightarrow> string \<Rightarrow> string" where
  "stuffed eol [] = []"
| "stuffed eol (b # s) =
    (if b = CHR ''.'' \<and> eol then ''..'' @ stuffed False s else b # stuffed (b = ch_lf \<or> b = ch_cr) s)"

lemma concat_stuff_chunks: "concat (stuff_chunks piece eol s) = piece @ stuffed eol s"
  by (induction piece eol s rule: stuff_chunks.induct) auto

lemma write_message_ok:
  "write_message m c = (Inr u, c') \<Longrightarrow> sent c' = sent c @ stuffed False m @ crlf @ ''.'' @ crlf"
  using write_chunks_ok [of _ c u c'] by (simp add: write_message_def concat_stuff_chunks)

text \<open>
  The receiver of RFC 5321, section 4.5.2: lines end with CRLF, a line that is a dot ends the
  data, and a dot that begins another line is removed. \<open>bol\<close>: at the beginning of a line.
\<close>

fun receive_data :: "bool \<Rightarrow> string \<Rightarrow> (string \<times> string) option" where
  "receive_data bol [] = None"
| "receive_data bol (b # s) =
    (if bol \<and> b = CHR ''.'' then
       (if take 2 s = crlf then Some ([], drop 2 s) else receive_data False s)
     else if b = ch_cr \<and> take 1 s = [ch_lf]
     then map_option (\<lambda>(m, rest). (crlf @ m, rest)) (receive_data True (drop 1 s))
     else map_option (\<lambda>(m, rest). (b # m, rest)) (receive_data False s))"

text \<open>The rule of RFC 5322: CR and LF only occur together.\<close>

fun crlf_only :: "string \<Rightarrow> bool" where
  "crlf_only [] = True"
| "crlf_only (b # s) =
    (if b = ch_cr then take 1 s = [ch_lf] \<and> crlf_only (drop 1 s) else b \<noteq> ch_lf \<and> crlf_only s)"

lemma receive_stuffed:
  "crlf_only s \<Longrightarrow> receive_data eol (stuffed eol s @ crlf @ ''.'' @ crlf @ rest) = Some (s @ crlf, rest)"
proof (induction s arbitrary: eol rule: crlf_only.induct)
  case (2 b s)
  show ?case
  proof (cases "b = ch_cr")
    case True
    with "2.prems" obtain s' where s: "s = ch_lf # s'" "crlf_only s'" by (cases s) auto
    with True "2.IH"(1) show ?thesis by simp
  next
    case False
    with "2.prems" "2.IH"(2) show ?thesis by auto
  qed
qed simp

text \<open>
  C36. A message whose line breaks are CRLF and that does not begin with a dot is received as it was sent: what
  the client writes for it is read back by a receiver of the standard as the message with one line break more
  at its end - the one that the client always adds -, and reading stops exactly at the end of what was written.
\<close>

theorem message_transparency:
  assumes "write_message m c = (Inr (), c')" and "crlf_only m" and "take 1 m \<noteq> ''.''"
  shows "\<exists>w. sent c' = sent c @ w \<and> receive_data True (w @ rest) = Some (m @ crlf, rest)"
proof (intro exI conjI)
  show "sent c' = sent c @ stuffed False m @ crlf @ ''.'' @ crlf" by (rule write_message_ok) fact
  have "receive_data True (stuffed False m @ x) = receive_data False (stuffed False m @ x)"
    if "take 1 (stuffed False m @ x) \<noteq> ''.''" for x
    using that by (cases "stuffed False m @ x") auto
  moreover have "take 1 (stuffed False m @ crlf @ ''.'' @ crlf @ rest) \<noteq> ''.''"
    using assms(3) by (cases m) auto
  ultimately show "receive_data True ((stuffed False m @ crlf @ ''.'' @ crlf) @ rest) = Some (m @ crlf, rest)"
    using receive_stuffed [OF assms(2), of False rest] by simp
qed

definition open_conn :: "read_event list \<Rightarrow> conn" where
  "open_conn es = \<lparr>incoming = es, write_events = [], sent = [], channel = PlainText\<rparr>"

theorem message_transparency_witness:
  "\<exists>c' w. write_message (''a'' @ crlf @ ''.b'') (open_conn []) = (Inr (), c')
    \<and> sent c' = w \<and> receive_data True (w @ ''QUIT'') = Some (''a'' @ crlf @ ''.b'' @ crlf, ''QUIT'')"
proof -
  obtain c' where c': "write_message (''a'' @ crlf @ ''.b'') (open_conn []) = (Inr (), c')"
    by (simp add: write_message_def write_all_def open_conn_def)
  with message_transparency [OF c', of "''QUIT''"] show ?thesis by (auto simp: open_conn_def)
qed

lemma stuffed_dot:
  "stuffed True s @ crlf @ t = CHR ''.'' # x # post \<Longrightarrow> x = CHR ''.''"
  by (cases s) (auto split: if_splits)

lemma stuffed_end:
  assumes "e1 = ch_cr \<or> e1 = ch_lf" and "e2 = ch_cr \<or> e2 = ch_lf"
    and "stuffed eol s @ crlf @ ''.'' @ crlf = pre @ [e1, CHR ''.'', e2] @ post"
  shows "post = [ch_lf]"
  using assms(3)
proof (induction s arbitrary: eol pre)
  case Nil
  with assms(1,2) show ?case by (auto simp: Cons_eq_append_conv)
next
  case (Cons b s)
  show ?case
  proof (cases "b = CHR ''.'' \<and> eol")
    case True
    with Cons.prems assms(1) obtain pre' where "pre = ''..'' @ pre'" by (auto simp: Cons_eq_append_conv)
    with True Cons show ?thesis by auto
  next
    case False
    show ?thesis
    proof (cases pre)
      case Nil
      with False Cons.prems have "b = e1" "stuffed (b = ch_lf \<or> b = ch_cr) s @ crlf @ ''.'' @ crlf = CHR ''.'' # e2 # post"
        by auto
      with assms(1) have "stuffed True s @ crlf @ ''.'' @ crlf = CHR ''.'' # e2 # post" by auto
      with stuffed_dot [of s "''.'' @ crlf"] assms(2) show ?thesis by auto
    next
      case (Cons p pre')
      with False Cons.prems Cons.IH [of "b = ch_lf \<or> b = ch_cr" pre'] show ?thesis by auto
    qed
  qed
qed

text \<open>
  C11. A message that does not begin with a dot can smuggle no commands: in the data that the client writes,
  after the line break that ends its DATA command, a dot alone between line breaks - be they CR, LF or CRLF,
  for a receiver as lenient as may be - stands only at the very end.
\<close>

theorem no_smuggled_end:
  assumes "write_message m c = (Inr (), c')" and "take 1 m \<noteq> ''.''"
    and "sent c' = sent c @ data" and "crlf @ data = pre @ [e1, CHR ''.'', e2] @ post"
    and "e1 \<in> {ch_cr, ch_lf}" and "e2 \<in> {ch_cr, ch_lf}"
  shows "post = [ch_lf]"
proof -
  have "stuffed True m = stuffed False m" using assms(2) by (cases m) auto
  moreover have "data = stuffed False m @ crlf @ ''.'' @ crlf" using write_message_ok [OF assms(1)] assms(3) by simp
  ultimately have "stuffed False (crlf @ m) @ crlf @ ''.'' @ crlf = pre @ [e1, CHR ''.'', e2] @ post"
    using assms(4) by simp
  from stuffed_end [OF _ _ this] assms(5,6) show ?thesis by auto
qed

theorem no_smuggled_end_witness:
  "\<exists>c'. write_message (''a'' @ [ch_lf] @ ''.'' @ crlf @ ''QUIT'') (open_conn []) = (Inr (), c')
    \<and> \<not> (\<exists>pre post. crlf @ sent c' = pre @ [ch_lf, CHR ''.'', ch_cr] @ post \<and> post \<noteq> [ch_lf])"
proof -
  obtain c' where c': "write_message (''a'' @ [ch_lf] @ ''.'' @ crlf @ ''QUIT'') (open_conn []) = (Inr (), c')"
    by (simp add: write_message_def write_all_def open_conn_def)
  have "sent c' = sent (open_conn []) @ sent c'" by (simp add: open_conn_def)
  from no_smuggled_end [OF c' _ this, of _ ch_lf ch_cr] c' show ?thesis by auto
qed

text \<open>
  A dot at the very beginning of a message is not doubled: a message that starts with a line
  of one dot is empty for its receiver, and its other lines are read as commands.
\<close>

lemma leading_dot_ends_data:
  assumes "write_message (''.'' @ crlf @ m) c = (Inr (), c')"
  shows "\<exists>w rest. sent c' = sent c @ w \<and> receive_data True w = Some ([], rest)
    \<and> rest = stuffed True m @ crlf @ ''.'' @ crlf"
  using write_message_ok [OF assms] by (intro exI conjI) (assumption, simp_all)

end
