(* ===== verification/Smtp_Session.thy ===== *)
theory Smtp_Session
  imports Smtp_Client
begin

text \<open>
  One delivery session with a remote host (\<open>crates/smtp/src/outbound/session.rs\<close>): EHLO,
  authentication, the envelope, the message, and the results of the recipients.
\<close>

record 'p session_env = "'p client_env" +
  notify_bits :: dsn_env
  EXT_CHUNKING :: u64
  EXT_DSN :: u64
  EXT_REQUIRE_TLS :: u64
  EXT_SIZE :: u64
  EXT_SMTP_UTF8 :: u64
  MAIL_REQUIRETLS :: u64
  MAIL_RET_FULL :: u64
  MAIL_RET_HDRS :: u64
  MAIL_SMTPUTF8 :: u64
  get_blob :: "string \<Rightarrow> blob_result"

record session_params =
  remote_name :: string
  session_credentials :: "credentials option"
  session_capabilities :: "ehlo_response option"
  session_is_smtp :: bool
  session_local_hostname :: string

abbreviation (input) client :: "('p, 'z) session_env_scheme \<Rightarrow> 'p client_env" where
  "client env \<equiv> client_env.truncate env"

abbreviation (input) replies :: "('p, 'z) session_env_scheme \<Rightarrow> reply_env" where
  "replies env \<equiv> reply_env.truncate env"

section \<open>Commands\<close>

definition message_has_flag :: "message \<Rightarrow> u64 \<Rightarrow> bool" where
  "message_has_flag m flag \<longleftrightarrow> message_flags m AND flag \<noteq> 0"

definition build_mail_from :: "'p session_env \<Rightarrow> message \<Rightarrow> ehlo_response \<Rightarrow> string" where
  "build_mail_from env m capabilities =
    (let cap = has_capability env capabilities in
     ''MAIL FROM:<'' @ return_path m @ ''>'' @
     (if cap (EXT_SIZE env) then '' SIZE='' @ show_nat (unat (message_size m)) else []) @
     (if message_has_flag m (MAIL_REQUIRETLS env) \<and> cap (EXT_REQUIRE_TLS env) then '' REQUIRETLS'' else []) @
     (if message_has_flag m (MAIL_SMTPUTF8 env) \<and> cap (EXT_SMTP_UTF8 env) then '' SMTPUTF8'' else []) @
     (if cap (EXT_DSN env) then
        (if message_has_flag m (MAIL_RET_FULL env) then '' RET=FULL''
         else if message_has_flag m (MAIL_RET_HDRS env) then '' RET=HDRS'' else []) @
        (case env_id m of Some i \<Rightarrow> '' ENVID='' @ i | None \<Rightarrow> [])
      else []) @ crlf)"

text \<open>The list after \<open>NOTIFY=\<close>, with its commas.\<close>

definition notify_list :: "dsn_env \<Rightarrow> recipient \<Rightarrow> string" where
  "notify_list env r =
    (let success = has_flag r (RCPT_NOTIFY_SUCCESS env);
         delay = has_flag r (RCPT_NOTIFY_DELAY env);
         failure = has_flag r (RCPT_NOTIFY_FAILURE env) in
     (if success then ''SUCCESS'' else []) @
     (if delay then (if success then '','' else []) @ ''DELAY'' else []) @
     (if failure then (if success \<or> delay then '','' else []) @ ''FAILURE'' else []))"

definition build_rcpt_to :: "'p session_env \<Rightarrow> recipient \<Rightarrow> ehlo_response \<Rightarrow> string" where
  "build_rcpt_to env r capabilities =
    (let bits = notify_bits env in
     ''RCPT TO:<'' @ address r @ ''>'' @
     (if has_capability env capabilities (EXT_DSN env) then
        (if has_flag r (RCPT_NOTIFY_SUCCESS bits OR RCPT_NOTIFY_FAILURE bits OR RCPT_NOTIFY_DELAY bits)
         then '' NOTIFY='' @ notify_list bits r
         else if has_flag r (RCPT_NOTIFY_NEVER bits) then '' NOTIFY=NEVER'' else [])
      else []) @ crlf)"

section \<open>The session\<close>

text \<open>
  \<open>RCPT TO\<close>: the recipients that the host accepts, with the status they get if the message is
  accepted too, and the results of the others; the session is over if the connection fails.
\<close>

type_synonym accepted_rcpts = "(nat \<times> rcpt_status) list"

fun rcpt_to ::
  "'p session_env \<Rightarrow> message \<Rightarrow> session_params \<Rightarrow> ehlo_response \<Rightarrow> nat list \<Rightarrow> nat list \<Rightarrow> accepted_rcpts
   \<Rightarrow> delivery_result list \<Rightarrow> conn \<Rightarrow> (delivery_result list + accepted_rcpts \<times> delivery_result list) \<times> conn" where
  "rcpt_to env m params capabilities rcpt_idxs [] accepted statuses c = (Inr (accepted, statuses), c)"
| "rcpt_to env m params capabilities rcpt_idxs (i # idxs) accepted statuses c =
    (let rcpt = recipients m ! i; cmd = build_rcpt_to env rcpt capabilities; host = remote_name params in
     if \<not> pending rcpt then rcpt_to env m params capabilities rcpt_idxs idxs accepted statuses c
     else
       (case client_cmd (client env) cmd c of
          (Inl err, c) \<Rightarrow> (Inl (statuses @ [DomainResult (from_smtp_error (replies env) host [] err) rcpt_idxs]), quit c)
        | (Inr reply, c) \<Rightarrow>
            if severity_of env reply = PositiveCompletion then
              rcpt_to env m params capabilities rcpt_idxs idxs
                (accepted @ [(i, Completed \<lparr>hostname = host, host_reply = reply\<rparr>)]) statuses c
            else
              rcpt_to env m params capabilities rcpt_idxs idxs accepted
                (statuses @ [AccountResult (rejected (replies env) host (trim cmd) reply) i]) c))"

text \<open>The answers to the message: one for all recipients in SMTP, one for each in LMTP.\<close>

definition smtp_answer ::
  "'p session_env \<Rightarrow> session_params \<Rightarrow> string option \<Rightarrow> nat list \<Rightarrow> accepted_rcpts \<Rightarrow> conn \<Rightarrow> delivery_result list \<times> conn" where
  "smtp_answer env params bdat_cmd rcpt_idxs accepted c =
    (case read_smtp_data_response (client env) (remote_name params) bdat_cmd c of
       (Inr reply, c) \<Rightarrow>
         if code reply = 250 then (map (\<lambda>(i, s). AccountResult s i) accepted, quit c)
         else ([DomainResult (from_smtp_error (replies env) (remote_name params) (command_of bdat_cmd)
                  (UnexpectedReply reply)) rcpt_idxs], quit c)
     | (Inl err, c) \<Rightarrow> ([DomainResult err rcpt_idxs], quit c))"

definition lmtp_status :: "'p session_env \<Rightarrow> session_params \<Rightarrow> string option \<Rightarrow> response \<Rightarrow> rcpt_status" where
  "lmtp_status env params bdat_cmd reply =
    (if severity_of env reply = PositiveCompletion
     then Completed \<lparr>hostname = remote_name params, host_reply = reply\<rparr>
     else rejected (replies env) (remote_name params) (command_of bdat_cmd) reply)"

definition lmtp_answer ::
  "'p session_env \<Rightarrow> session_params \<Rightarrow> string option \<Rightarrow> nat list \<Rightarrow> accepted_rcpts \<Rightarrow> conn \<Rightarrow> delivery_result list \<times> conn" where
  "lmtp_answer env params bdat_cmd rcpt_idxs accepted c =
    (case read_lmtp_data_response (client env) (remote_name params) (length accepted) c of
       (Inr responses, c) \<Rightarrow>
         (map2 (\<lambda>(i, _) reply. AccountResult (lmtp_status env params bdat_cmd reply) i) accepted responses, quit c)
     | (Inl err, c) \<Rightarrow> ([DomainResult err rcpt_idxs], quit c))"

definition bdat_command :: "'p session_env \<Rightarrow> message \<Rightarrow> ehlo_response \<Rightarrow> string option" where
  "bdat_command env m capabilities =
    (if has_capability env capabilities (EXT_CHUNKING env)
     then Some (''BDAT '' @ show_nat (unat (message_size m)) @ '' LAST'' @ crlf) else None)"

definition send_data ::
  "'p session_env \<Rightarrow> message \<Rightarrow> session_params \<Rightarrow> ehlo_response \<Rightarrow> nat list \<Rightarrow> accepted_rcpts \<Rightarrow> conn \<Rightarrow> delivery_result list \<times> conn" where
  "send_data env m params capabilities rcpt_idxs accepted c =
    (if accepted = [] then ([], quit c)
     else
       let bdat_cmd = bdat_command env m capabilities in
       case send_message (client env) (remote_name params) bdat_cmd (get_blob env (blob_hash m)) c of
         (Inl err, c) \<Rightarrow> ([DomainResult err rcpt_idxs], quit c)
       | (Inr _, c) \<Rightarrow>
          if session_is_smtp params then smtp_answer env params bdat_cmd rcpt_idxs accepted c
          else lmtp_answer env params bdat_cmd rcpt_idxs accepted c)"

definition mail_from ::
  "'p session_env \<Rightarrow> message \<Rightarrow> session_params \<Rightarrow> ehlo_response \<Rightarrow> conn \<Rightarrow> (rcpt_status + unit) \<times> conn" where
  "mail_from env m params capabilities c =
    (let cmd = build_mail_from env m capabilities; err = from_smtp_error (replies env) (remote_name params) cmd in
     case client_cmd (client env) cmd c of
       (Inl e, c) \<Rightarrow> (Inl (err e), c)
     | (Inr r, c) \<Rightarrow> if is_positive_completion env r then (Inr (), c) else (Inl (err (UnexpectedReply r)), c))"

text \<open>What comes before the envelope: the capabilities, if they are not known, and authentication.\<close>

definition greet ::
  "'p session_env \<Rightarrow> session_params \<Rightarrow> conn \<Rightarrow> (rcpt_status + ehlo_response) \<times> conn" where
  "greet env params c =
    (case session_capabilities params of
       Some capabilities \<Rightarrow> (Inr capabilities, c)
     | None \<Rightarrow> say_helo (client env) (session_is_smtp params) (remote_name params) (session_local_hostname params) c)"

definition log_in ::
  "'p session_env \<Rightarrow> session_params \<Rightarrow> ehlo_response \<Rightarrow> conn \<Rightarrow> (rcpt_status + unit) \<times> conn" where
  "log_in env params capabilities c =
    (case session_credentials params of
       None \<Rightarrow> (Inr (), c)
     | Some cred \<Rightarrow>
        (case authenticate (client env) cred capabilities c of
           (Inl err, c) \<Rightarrow> (Inl (from_smtp_error (replies env) (remote_name params) ''AUTH ...'' err), c)
         | (Inr _, c) \<Rightarrow> (Inr (), c)))"

text \<open>\<open>MessageWrapper::deliver\<close>: the results that it adds.\<close>

definition deliver ::
  "'p session_env \<Rightarrow> message \<Rightarrow> session_params \<Rightarrow> nat list \<Rightarrow> conn \<Rightarrow> delivery_result list \<times> conn" where
  "deliver env m params rcpt_idxs c =
    (case greet env params c of
       (Inl err, c) \<Rightarrow> ([DomainResult err rcpt_idxs], quit c)
     | (Inr capabilities, c) \<Rightarrow>
        (case log_in env params capabilities c of
           (Inl err, c) \<Rightarrow> ([DomainResult err rcpt_idxs], quit c)
         | (Inr _, c) \<Rightarrow>
            (case mail_from env m params capabilities c of
               (Inl err, c) \<Rightarrow> ([DomainResult err rcpt_idxs], quit c)
             | (Inr _, c) \<Rightarrow>
                (case rcpt_to env m params capabilities rcpt_idxs rcpt_idxs [] [] c of
                   (Inl statuses, c) \<Rightarrow> (statuses, c)
                 | (Inr (accepted, statuses), c) \<Rightarrow>
                    (case send_data env m params capabilities rcpt_idxs accepted c of
                       (results, c) \<Rightarrow> (statuses @ results, c))))))"

end
