(* ===== verification/Smtp_Policy.thy ===== *)
theory Smtp_Policy
  imports Smtp_Status
begin

text \<open>
  The policies and addresses of a delivery: MTA-STS (\<open>crates/smtp/src/outbound/mta_sts/\<close>), DANE
  (\<open>crates/smtp/src/outbound/dane/\<close>) and the choice of hosts and addresses
  (\<open>crates/smtp/src/outbound/lookup.rs\<close>).  Lower-casing and debug texts, the X.509 parser and the
  hashes, the results of DNS and HTTP requests and the random choices are parameters.
\<close>

record policy_env =
  to_lowercase :: "string \<Rightarrow> string"
  debug_text :: "string \<Rightarrow> string"
  utf8_error_text :: "string \<Rightarrow> string"
  parse_certificate :: "string \<Rightarrow> string option"
  sha256 :: "string \<Rightarrow> string"
  sha512 :: "string \<Rightarrow> string"

section \<open>MTA-STS\<close>

datatype sts_mode = Enforce | Testing | ModeNone

datatype mx_pattern = Equals string | StartsWith string

record policy =
  policy_id :: string
  mode :: sts_mode
  mx :: "mx_pattern list"
  max_age :: nat

text \<open>The line of a key, and what is left after it.\<close>

definition policy_line :: "string \<Rightarrow> (string \<times> string \<times> string) option" where
  "policy_line s =
    (case split_once (CHR '':'') s of
       None \<Rightarrow> None
     | Some (key, next_data) \<Rightarrow>
        (case split_once ch_lf next_data of
           Some (v, next_data) \<Rightarrow> Some (trim key, trim v, next_data)
         | None \<Rightarrow> Some (trim key, trim next_data, [])))"

definition parse_mode :: "policy_env \<Rightarrow> string \<Rightarrow> string + sts_mode" where
  "parse_mode env v =
    (if v = ''enforce'' then Inr Enforce
     else if v = ''testing'' then Inr Testing
     else if v = ''none'' then Inr ModeNone
     else Inl (''Unsupported mode '' @ debug_text env v @ ''.''))"

definition parse_mx :: "policy_env \<Rightarrow> string \<Rightarrow> mx_pattern list" where
  "parse_mx env v =
    (case strip_prefix ''*.'' v of
       Some suffix \<Rightarrow> if suffix \<noteq> [] then [StartsWith (to_lowercase env suffix)] else []
     | None \<Rightarrow> if v \<noteq> [] then [Equals (to_lowercase env v)] else [])"

definition policy_field :: "policy_env \<Rightarrow> string \<Rightarrow> string \<Rightarrow> policy \<Rightarrow> string + policy" where
  "policy_field env key v p =
    (if key = ''mx'' then Inr (p\<lparr>mx := mx p @ parse_mx env v\<rparr>)
     else if key = ''max_age'' then
       Inr (case parse_uint u64_max v of Some n \<Rightarrow> p\<lparr>max_age := n\<rparr> | None \<Rightarrow> p)
     else if key = ''mode'' then
       (case parse_mode env v of Inl e \<Rightarrow> Inl e | Inr x \<Rightarrow> Inr (p\<lparr>mode := x\<rparr>))
     else if key = ''version'' then
       (if \<not> eq_ignore_ascii_case v ''STSv1'' then Inl (''Unsupported version '' @ debug_text env v @ ''.'') else Inr p)
     else Inr p)"

lemma policy_line_shorter: "policy_line s = Some (k, v, s') \<Longrightarrow> length s' < length s"
  by (auto simp: policy_line_def split_once_Some split: option.splits)

function policy_lines :: "policy_env \<Rightarrow> string \<Rightarrow> policy \<Rightarrow> string + policy" where
  "policy_lines env s p =
    (case policy_line s of
       None \<Rightarrow> Inr p
     | Some (key, v, s') \<Rightarrow>
        (case policy_field env key v p of Inl e \<Rightarrow> Inl e | Inr p \<Rightarrow> policy_lines env s' p))"
  by pat_completeness auto
termination
  by (relation "measure (\<lambda>(env, s, p). length s)") (auto dest: policy_line_shorter)

declare policy_lines.simps [simp del]

definition parse_policy :: "policy_env \<Rightarrow> string \<Rightarrow> string \<Rightarrow> string + policy" where
  "parse_policy env s i =
    (case policy_lines env s \<lparr>policy_id = i, mode = ModeNone, mx = [], max_age = 86400\<rparr> of
       Inl e \<Rightarrow> Inl e
     | Inr p \<Rightarrow> if mx p \<noteq> [] then Inr p else Inl ''No 'mx' entries found.'')"

fun matches_mx :: "string \<Rightarrow> mx_pattern \<Rightarrow> bool" where
  "matches_mx mx_host (Equals host) \<longleftrightarrow> host = mx_host"
| "matches_mx mx_host (StartsWith d) \<longleftrightarrow> (case split_once (CHR ''.'') mx_host of Some (_, suffix) \<Rightarrow> suffix = d | None \<Rightarrow> False)"

definition verify_policy :: "policy \<Rightarrow> string \<Rightarrow> bool" where
  "verify_policy p mx_host = (if mode p \<noteq> ModeNone then list_ex (matches_mx mx_host) (mx p) else True)"

definition enforce :: "policy \<Rightarrow> bool" where
  "enforce p \<longleftrightarrow> mode p = Enforce"

text \<open>
  \<open>lookup_mta_sts_policy\<close>: the TXT record, the cached policy and the result of the request, which
  is only made if the others do not decide; with the policy that enters the cache and for how long.
\<close>

datatype fetched = FetchError http_error | FetchTooLarge | FetchBytes string

definition cache_seconds :: "policy \<Rightarrow> nat" where
  "cache_seconds p = (if 3600 \<le> max_age p \<and> max_age p < 31557600 then max_age p else 86400)"

definition lookup_mta_sts_policy ::
  "policy_env \<Rightarrow> dns_error + string \<Rightarrow> policy option \<Rightarrow> fetched \<Rightarrow> (mta_sts_error + policy) \<times> (policy \<times> nat) option" where
  "lookup_mta_sts_policy env txt cached fetch =
    (case txt of
       Inl err \<Rightarrow> (case cached of Some p \<Rightarrow> Inr p | None \<Rightarrow> Inl (StsDns err), None)
     | Inr record_id \<Rightarrow>
        (if (case cached of Some p \<Rightarrow> policy_id p = record_id | None \<Rightarrow> False)
         then (Inr (the cached), None)
         else
           (case fetch of
              FetchError err \<Rightarrow> (Inl (StsHttp err), None)
            | FetchTooLarge \<Rightarrow> (Inl (InvalidPolicy ''Policy too large''), None)
            | FetchBytes bs \<Rightarrow>
               (if utf8_valid bs then
                  (case parse_policy env bs record_id of
                     Inl err \<Rightarrow> (Inl (InvalidPolicy err), None)
                   | Inr p \<Rightarrow> (Inr p, Some (p, cache_seconds p)))
                else (Inl (InvalidPolicy (utf8_error_text env bs)), None)))))"

section \<open>DANE\<close>

record tlsa_entry =
  is_end_entity :: bool
  is_sha256 :: bool
  is_spki :: bool
  tlsa_data :: string

record tlsa =
  entries :: "tlsa_entry list"
  has_end_entities :: bool
  has_intermediates :: bool

text \<open>A TLSA record of the answer: whether it is signed, its usage, matching, selector and data.\<close>

datatype cert_usage = DaneEe | DaneTa | OtherUsage
datatype matching = MatchSha256 | MatchSha512 | OtherMatching
datatype selector = SelectSpki | SelectFull | OtherSelector

record tlsa_record =
  secure :: bool
  usage :: cert_usage
  matching :: matching
  selector :: selector
  cert_data :: string

text \<open>
  \<open>tlsa_lookup\<close> without its cache: a signed record of another usage is passed over, and so is
  one of another matching or selector, but only after its usage was noted.
\<close>

definition tlsa_step :: "tlsa_record \<Rightarrow> tlsa \<times> bool \<Rightarrow> tlsa \<times> bool" where
  "tlsa_step r = (\<lambda>(t, found_insecure).
    if secure r then
      (if usage r = OtherUsage then (t, found_insecure)
       else
         let t = (if usage r = DaneEe then t\<lparr>has_end_entities := True\<rparr> else t\<lparr>has_intermediates := True\<rparr>) in
         if matching r = OtherMatching \<or> selector r = OtherSelector then (t, found_insecure)
         else (t\<lparr>entries := entries t @ [\<lparr>is_end_entity = (usage r = DaneEe), is_sha256 = (matching r = MatchSha256),
                 is_spki = (selector r = SelectSpki), tlsa_data = cert_data r\<rparr>]\<rparr>, found_insecure))
    else (t, True))"

definition tlsa_of_records :: "tlsa_record list \<Rightarrow> tlsa option" where
  "tlsa_of_records rs =
    (case fold tlsa_step rs (\<lparr>entries = [], has_end_entities = False, has_intermediates = False\<rparr>, False) of
       (t, found_insecure) \<Rightarrow> if entries t \<noteq> [] \<or> \<not> found_insecure then Some t else None)"

text \<open>\<open>TlsaVerify::verify\<close>: the records against one certificate, then the certificates in turn.\<close>

definition entry_matches :: "policy_env \<Rightarrow> string \<Rightarrow> string \<Rightarrow> tlsa_entry \<Rightarrow> bool" where
  "entry_matches env der spki e \<longleftrightarrow>
    (if is_sha256 e then sha256 env else sha512 env) (if is_spki e then spki else der) = tlsa_data e"

fun match_entries ::
  "policy_env \<Rightarrow> tlsa \<Rightarrow> string \<Rightarrow> string \<Rightarrow> bool \<Rightarrow> tlsa_entry list \<Rightarrow> bool \<times> bool \<Rightarrow> bool \<times> bool \<times> bool" where
  "match_entries env t der spki ee [] (matched_ee, matched_ta) = (False, matched_ee, matched_ta)"
| "match_entries env t der spki ee (e # es) (matched_ee, matched_ta) =
    (if is_end_entity e = ee \<and> entry_matches env der spki e then
       (if ee then
          (if \<not> has_intermediates t then (True, True, matched_ta)
           else match_entries env t der spki ee es (True, matched_ta))
        else (True, matched_ee, True))
     else match_entries env t der spki ee es (matched_ee, matched_ta))"

fun match_certificates ::
  "policy_env \<Rightarrow> tlsa \<Rightarrow> string \<Rightarrow> nat \<Rightarrow> string list \<Rightarrow> bool \<times> bool \<Rightarrow> rcpt_status + bool \<times> bool" where
  "match_certificates env t host pos [] matched = Inr matched"
| "match_certificates env t host pos (der # certs) matched =
    (case parse_certificate env der of
       None \<Rightarrow> Inl (temporary host (DaneError ''Failed to parse X.509 certificate''))
     | Some spki \<Rightarrow>
        (case match_entries env t der spki (pos = 0) (entries t) matched of
           (stop, matched) \<Rightarrow> if stop then Inr matched else match_certificates env t host (pos + 1) certs matched))"

definition tlsa_verify :: "policy_env \<Rightarrow> tlsa \<Rightarrow> string \<Rightarrow> string list option \<Rightarrow> rcpt_status + unit" where
  "tlsa_verify env t host certificates =
    (case certificates of
       None \<Rightarrow> Inl (temporary host (DaneError ''No certificates were provided by host''))
     | Some certs \<Rightarrow>
        (case match_certificates env t host 0 certs (False, False) of
           Inl err \<Rightarrow> Inl err
         | Inr (matched_ee, matched_ta) \<Rightarrow>
            if (has_end_entities t \<and> matched_ee)
              \<or> (has_end_entities t = matched_ee \<and> has_intermediates t = matched_ta)
            then Inr ()
            else Inl (permanent host (DaneError ''No matching certificates found in TLSA records''))))"

section \<open>Hosts and addresses\<close>

record mx_record =
  preference :: nat
  exchanges :: "string list"

text \<open>\<open>to_remote_hosts\<close>; \<open>shuffle\<close> is the random order of the exchanges of one preference.\<close>

fun push_hosts :: "mx_config \<Rightarrow> string list \<Rightarrow> next_hop list \<Rightarrow> bool \<times> next_hop list" where
  "push_hosts config [] hosts = (False, hosts)"
| "push_hosts config (h # hs) hosts =
    (let hosts = hosts @ [MX False h config] in
     if length hosts = max_mx config then (True, hosts) else push_hosts config hs hosts)"

fun remote_hosts_loop ::
  "(string list \<Rightarrow> string list) \<Rightarrow> mx_config \<Rightarrow> mx_record list \<Rightarrow> next_hop list \<Rightarrow> next_hop list option" where
  "remote_hosts_loop shuffle config [] hosts = Some hosts"
| "remote_hosts_loop shuffle config (r # rs) hosts =
    (if length (exchanges r) > 1 then
       (case push_hosts config (shuffle (exchanges r)) hosts of
          (stop, hosts) \<Rightarrow> if stop then Some hosts else remote_hosts_loop shuffle config rs hosts)
     else
       (case exchanges r of
          [] \<Rightarrow> remote_hosts_loop shuffle config rs hosts
        | h # _ \<Rightarrow>
           if preference r = 0 \<and> h = ''.'' then None
           else
             (case push_hosts config [h] hosts of
                (stop, hosts) \<Rightarrow> if stop then Some hosts else remote_hosts_loop shuffle config rs hosts)))"

definition to_remote_hosts ::
  "(string list \<Rightarrow> string list) \<Rightarrow> mx_config \<Rightarrow> string \<Rightarrow> mx_record list \<Rightarrow> next_hop list option" where
  "to_remote_hosts shuffle config domain rs =
    (if rs \<noteq> [] then remote_hosts_loop shuffle config rs [] else Some [MX True domain config])"

text \<open>\<open>ip_lookup\<close>, with the results of the queries for the addresses.\<close>

definition ip_lookup ::
  "ip_lookup_strategy \<Rightarrow> nat \<Rightarrow> dns_error + ip_addr list \<Rightarrow> dns_error + ip_addr list \<Rightarrow> dns_error + ip_addr list" where
  "ip_lookup strategy max_results v4 v6 =
    (let has_ipv4 = (strategy \<noteq> Ipv6Only); has_ipv6 = (strategy \<noteq> Ipv4Only) in
     case (if has_ipv4 then (case v4 of Inl err \<Rightarrow> if has_ipv6 then Inr [] else Inl err | Inr ips \<Rightarrow> Inr ips) else Inr []) of
       Inl err \<Rightarrow> Inl err
     | Inr ipv4_addrs \<Rightarrow>
        if has_ipv6 then
          (case (case v6 of Inl err \<Rightarrow> if ipv4_addrs \<noteq> [] then Inr [] else Inl err | Inr ips \<Rightarrow> Inr ips) of
             Inl err \<Rightarrow> Inl err
           | Inr ipv6_addrs \<Rightarrow>
              Inr (take max_results
                (if strategy = Ipv4thenIpv6 then ipv4_addrs @ ipv6_addrs else ipv6_addrs @ ipv4_addrs)))
        else Inr (take max_results ipv4_addrs))"

text \<open>\<open>IpAddr::is_loopback\<close> of the standard library.\<close>

fun is_loopback :: "ip_addr \<Rightarrow> bool" where
  "is_loopback (V4 a) \<longleftrightarrow> drop_bit 24 a = 127"
| "is_loopback (V6 a) \<longleftrightarrow> a = 1"

fun is_ipv4 :: "ip_addr \<Rightarrow> bool" where
  "is_ipv4 (V4 _) = True"
| "is_ipv4 (V6 _) = False"

fun lookup_error :: "reply_env \<Rightarrow> next_hop \<Rightarrow> dns_error \<Rightarrow> rcpt_status" where
  "lookup_error env hop (DnsRecordNotFound k) =
    (case hop of
       MX True _ _ \<Rightarrow> permanent (next_hop_hostname hop) (DnsError ''no MX record found.'')
     | _ \<Rightarrow> permanent (next_hop_hostname hop) (ConnectionError ''record not found for MX''))"
| "lookup_error env hop err =
    temporary (next_hop_hostname hop) (ConnectionError (''lookup error: '' @ show_dns_error env err))"

definition resolve_host ::
  "reply_env \<Rightarrow> policy_env \<Rightarrow> next_hop \<Rightarrow> string \<Rightarrow> dns_error + ip_addr list \<Rightarrow> dns_error + ip_addr list \<Rightarrow> rcpt_status + ip_addr list" where
  "resolve_host env penv hop mx_name v4 v6 =
    (case ip_lookup (lookup_strategy hop) (max_multi_homed hop) v4 v6 of
       Inl err \<Rightarrow> Inl (lookup_error env hop err)
     | Inr ips \<Rightarrow>
        if ips \<noteq> [] then
          (if list_ex is_loopback ips then
             (if filter (\<lambda>ip. \<not> is_loopback ip) ips = []
              then Inl (permanent (next_hop_hostname hop) (ConnectionError ''host resolves loopback address''))
              else Inr (filter (\<lambda>ip. \<not> is_loopback ip) ips))
           else Inr ips)
        else Inl (temporary (next_hop_hostname hop) (DnsError (''No IP addresses found for '' @ debug_text penv mx_name @ ''.''))))"

record ip_and_host =
  source_ip_addr :: ip_addr
  source_host :: "string option"

record connection_strategy =
  source_ipv4 :: "ip_and_host list"
  source_ipv6 :: "ip_and_host list"
  ehlo_hostname :: "string option"

text \<open>\<open>source_ip\<close>; \<open>pick\<close> is the random number below the length of the list.\<close>

definition source_ip :: "(nat \<Rightarrow> nat) \<Rightarrow> connection_strategy \<Rightarrow> bool \<Rightarrow> ip_and_host option" where
  "source_ip pick s is_v4 =
    (let ips = (if is_v4 then source_ipv4 s else source_ipv6 s) in
     if length ips = 1 then Some (hd ips)
     else if length ips > 1 then Some (ips ! pick (length ips))
     else None)"

section \<open>Properties\<close>

text \<open>Flags and entries of a lookup agree.\<close>

definition tlsa_ok :: "tlsa \<Rightarrow> bool" where
  "tlsa_ok t \<longleftrightarrow> (\<forall>e \<in> set (entries t). if is_end_entity e then has_end_entities t else has_intermediates t)"

lemma tlsa_step_ok: "tlsa_ok (fst x) \<Longrightarrow> tlsa_ok (fst (tlsa_step r x))"
  by (cases "usage r"; cases x) (auto simp: tlsa_step_def tlsa_ok_def Let_def)

lemma tlsa_of_records_ok: "tlsa_of_records rs = Some t \<Longrightarrow> tlsa_ok t"
proof -
  have "tlsa_ok (fst x) \<Longrightarrow> tlsa_ok (fst (fold tlsa_step rs x))" for x
    by (induction rs arbitrary: x) (simp_all add: tlsa_step_ok)
  from this [of "(\<lparr>entries = [], has_end_entities = False, has_intermediates = False\<rparr>, False)"]
  show "tlsa_of_records rs = Some t \<Longrightarrow> tlsa_ok t"
    by (auto simp: tlsa_of_records_def tlsa_ok_def split: prod.splits if_splits)
qed

text \<open>A certificate is matched by an entry of its kind: the first one is the end entity.\<close>

definition certificate_matches :: "policy_env \<Rightarrow> tlsa \<Rightarrow> bool \<Rightarrow> string \<Rightarrow> bool" where
  "certificate_matches env t ee der \<longleftrightarrow>
    (\<exists>e \<in> set (entries t). is_end_entity e = ee \<and> entry_matches env der (the (parse_certificate env der)) e)"

lemma match_entries_ee:
  "match_entries env t der spki True es (ee, ta) = (stop, ee', ta') \<Longrightarrow>
   (ee' \<longleftrightarrow> ee \<or> (\<exists>e \<in> set es. is_end_entity e \<and> entry_matches env der spki e)) \<and> ta' = ta
   \<and> (stop \<longrightarrow> \<not> has_intermediates t \<and> ee')"
  by (induction es arbitrary: ee) (auto split: if_splits)

lemma match_entries_ta:
  "match_entries env t der spki False es (ee, ta) = (stop, ee', ta') \<Longrightarrow>
   (ta' \<longleftrightarrow> ta \<or> (\<exists>e \<in> set es. \<not> is_end_entity e \<and> entry_matches env der spki e)) \<and> ee' = ee
   \<and> (stop \<longleftrightarrow> (\<exists>e \<in> set es. \<not> is_end_entity e \<and> entry_matches env der spki e))"
  by (induction es arbitrary: ta) (auto split: if_splits)

lemma match_rest:
  assumes "\<forall>der \<in> set certs. parse_certificate env der \<noteq> None" and "pos > 0"
  shows "match_certificates env t host pos certs (ee, False) = Inr (ee, \<exists>der \<in> set certs. certificate_matches env t False der)"
  using assms
proof (induction certs arbitrary: pos)
  case (Cons der certs)
  then obtain spki where s: "parse_certificate env der = Some spki" by auto
  obtain stop ee' ta' where m: "match_entries env t der spki False (entries t) (ee, False) = (stop, ee', ta')"
    by (metis prod.exhaust)
  from match_entries_ta [OF m] s have "ee' = ee" "stop \<longleftrightarrow> certificate_matches env t False der" "ta' = stop"
    by (auto simp: certificate_matches_def)
  with Cons s m show ?case by auto
qed simp

lemma match_all:
  assumes "\<forall>c \<in> set (der # certs). parse_certificate env c \<noteq> None"
  obtains ta where "match_certificates env t host 0 (der # certs) (False, False) = Inr (certificate_matches env t True der, ta)"
    and "certificate_matches env t True der \<and> \<not> has_intermediates t \<or> ta = (\<exists>c \<in> set certs. certificate_matches env t False c)"
proof -
  from assms obtain spki where s: "parse_certificate env der = Some spki" by auto
  obtain stop ee' ta' where m: "match_entries env t der spki True (entries t) (False, False) = (stop, ee', ta')"
    by (metis prod.exhaust)
  from match_entries_ee [OF m] s have e: "ee' = certificate_matches env t True der" "ta' = False"
    "stop \<longrightarrow> \<not> has_intermediates t \<and> ee'"
    by (auto simp: certificate_matches_def)
  show ?thesis
  proof (cases stop)
    case True
    with e s m show ?thesis by (intro that [of False]) auto
  next
    case False
    with e s m match_rest [of certs env 1 t host ee'] assms show ?thesis
      by (intro that [of "\<exists>c \<in> set certs. certificate_matches env t False c"]) auto
  qed
qed

text \<open>The records that count, those of them that can be checked, and what one of them authenticates.\<close>

definition counts :: "cert_usage \<Rightarrow> tlsa_record \<Rightarrow> bool" where
  "counts u r \<longleftrightarrow> secure r \<and> usage r = u"

definition supported :: "tlsa_record \<Rightarrow> bool" where
  "supported r \<longleftrightarrow> matching r \<noteq> OtherMatching \<and> selector r \<noteq> OtherSelector"

definition authenticates :: "policy_env \<Rightarrow> tlsa_record \<Rightarrow> string \<Rightarrow> bool" where
  "authenticates env r der \<longleftrightarrow>
    (let part = (case selector r of SelectSpki \<Rightarrow> parse_certificate env der | SelectFull \<Rightarrow> Some der | OtherSelector \<Rightarrow> None) in
     case matching r of
       MatchSha256 \<Rightarrow> map_option (sha256 env) part = Some (cert_data r)
     | MatchSha512 \<Rightarrow> map_option (sha512 env) part = Some (cert_data r)
     | OtherMatching \<Rightarrow> False)"

definition entry_of :: "tlsa_record \<Rightarrow> tlsa_entry" where
  "entry_of r = \<lparr>is_end_entity = (usage r = DaneEe), is_sha256 = (matching r = MatchSha256), is_spki = (selector r = SelectSpki),
     tlsa_data = cert_data r\<rparr>"

lemma tlsa_step_fst:
  "fst (tlsa_step r x) =
    \<lparr>entries = entries (fst x) @ map entry_of (filter (\<lambda>r. secure r \<and> usage r \<noteq> OtherUsage \<and> supported r) [r]),
     has_end_entities = (has_end_entities (fst x) \<or> counts DaneEe r), has_intermediates = (has_intermediates (fst x) \<or> counts DaneTa r)\<rparr>"
  by (cases x; cases "usage r") (auto simp: tlsa_step_def Let_def supported_def entry_of_def counts_def)

lemma tlsa_fold:
  "fst (fold tlsa_step rs x) =
    \<lparr>entries = entries (fst x) @ map entry_of (filter (\<lambda>r. secure r \<and> usage r \<noteq> OtherUsage \<and> supported r) rs),
     has_end_entities = (has_end_entities (fst x) \<or> (\<exists>r \<in> set rs. counts DaneEe r)),
     has_intermediates = (has_intermediates (fst x) \<or> (\<exists>r \<in> set rs. counts DaneTa r))\<rparr>"
  by (induction rs arbitrary: x) (auto simp: tlsa_step_fst)

lemma tlsa_of_records_parts:
  assumes "tlsa_of_records rs = Some t"
  shows "entries t = map entry_of (filter (\<lambda>r. secure r \<and> usage r \<noteq> OtherUsage \<and> supported r) rs)"
    and "has_end_entities t \<longleftrightarrow> (\<exists>r \<in> set rs. counts DaneEe r)"
    and "has_intermediates t \<longleftrightarrow> (\<exists>r \<in> set rs. counts DaneTa r)"
  using assms tlsa_fold [of rs "(\<lparr>entries = [], has_end_entities = False, has_intermediates = False\<rparr>, False)"]
  by (auto simp: tlsa_of_records_def split: prod.splits if_splits)

lemma entry_of_matches:
  assumes "supported r" and "parse_certificate env der \<noteq> None"
  shows "entry_matches env der (the (parse_certificate env der)) (entry_of r) \<longleftrightarrow> authenticates env r der"
  using assms
  by (cases "matching r"; cases "selector r") (auto simp: entry_matches_def entry_of_def authenticates_def supported_def)

lemma certificate_matches_records:
  assumes "tlsa_of_records rs = Some t" and "parse_certificate env der \<noteq> None"
    and "\<forall>r \<in> set rs. counts DaneEe r \<or> counts DaneTa r \<longrightarrow> supported r"
  shows "certificate_matches env t True der \<longleftrightarrow> (\<exists>r \<in> set rs. counts DaneEe r \<and> authenticates env r der)"
    and "certificate_matches env t False der \<longleftrightarrow> (\<exists>r \<in> set rs. counts DaneTa r \<and> authenticates env r der)"
proof -
  have u: "usage r = DaneTa" if "usage r \<noteq> DaneEe" "usage r \<noteq> OtherUsage" for r using that by (cases "usage r") auto
  have e: "is_end_entity (entry_of r) \<longleftrightarrow> usage r = DaneEe" for r by (simp add: entry_of_def)
  show "certificate_matches env t True der \<longleftrightarrow> (\<exists>r \<in> set rs. counts DaneEe r \<and> authenticates env r der)"
    using assms(3) entry_of_matches [OF _ assms(2)]
    by (fastforce simp: certificate_matches_def tlsa_of_records_parts(1) [OF assms(1)] e counts_def)
  show "certificate_matches env t False der \<longleftrightarrow> (\<exists>r \<in> set rs. counts DaneTa r \<and> authenticates env r der)"
    using assms(3) entry_of_matches [OF _ assms(2)] u
    by (fastforce simp: certificate_matches_def tlsa_of_records_parts(1) [OF assms(1)] e counts_def)
qed

text \<open>
  C16. DANE accepts exactly the chains that the records authenticate: for a host with secure records, all of
  kinds that can be checked, and certificates that parse, verification succeeds if and only if the first
  certificate is authenticated by an end entity record, where there are such records, and otherwise if some
  later certificate is authenticated by a trust anchor record; without a match the error is permanent.
  (Records of other kinds, and answers without any record, are what the findings are about.)
\<close>

theorem dane_verification_exact:
  assumes "tlsa_of_records rs = Some t" and "\<exists>r \<in> set rs. counts DaneEe r \<or> counts DaneTa r"
    and "\<forall>r \<in> set rs. counts DaneEe r \<or> counts DaneTa r \<longrightarrow> supported r"
    and "\<forall>c \<in> set (der # certs). parse_certificate env c \<noteq> None"
  shows "tlsa_verify env t host (Some (der # certs)) =
    (if (if \<exists>r \<in> set rs. counts DaneEe r then \<exists>r \<in> set rs. counts DaneEe r \<and> authenticates env r der
         else \<exists>c \<in> set certs. \<exists>r \<in> set rs. counts DaneTa r \<and> authenticates env r c)
     then Inr () else Inl (permanent host (DaneError ''No matching certificates found in TLSA records'')))"
proof -
  have n: "\<not> has_end_entities t \<Longrightarrow> \<not> certificate_matches env t True der"
    using tlsa_of_records_ok [OF assms(1)] by (auto simp: tlsa_ok_def certificate_matches_def)
  have der: "certificate_matches env t True der \<longleftrightarrow> (\<exists>r \<in> set rs. counts DaneEe r \<and> authenticates env r der)"
    using certificate_matches_records(1) [OF assms(1) _ assms(3)] assms(4) by simp
  have ta: "(\<exists>c \<in> set certs. certificate_matches env t False c) \<longleftrightarrow>
      (\<exists>c \<in> set certs. \<exists>r \<in> set rs. counts DaneTa r \<and> authenticates env r c)"
    using certificate_matches_records(2) [OF assms(1) _ assms(3)] assms(4) by simp
  from match_all [OF assms(4)] obtain a where
    a: "match_certificates env t host 0 (der # certs) (False, False) = Inr (certificate_matches env t True der, a)"
    "certificate_matches env t True der \<and> \<not> has_intermediates t \<or> a = (\<exists>c \<in> set certs. certificate_matches env t False c)"
    by metis
  show ?thesis
  proof (cases "has_end_entities t")
    case True
    then have e: "\<exists>r \<in> set rs. counts DaneEe r" by (simp add: tlsa_of_records_parts(2) [OF assms(1)])
    show ?thesis using a(1) True by (simp add: tlsa_verify_def e flip: der)
  next
    case False
    then have e: "\<not> (\<exists>r \<in> set rs. counts DaneEe r)" "\<exists>r \<in> set rs. counts DaneTa r"
      using assms(2) by (auto simp: tlsa_of_records_parts(2) [OF assms(1)])
    then have i: "has_intermediates t" by (simp add: tlsa_of_records_parts(3) [OF assms(1)])
    with a False n have "a = (\<exists>c \<in> set certs. certificate_matches env t False c)" by blast
    with a(1) False n i e(1) show ?thesis by (simp add: tlsa_verify_def ta)
  qed
qed

definition plain_policy_env :: policy_env where
  "plain_policy_env = \<lparr>to_lowercase = map to_ascii_lowercase, debug_text = (\<lambda>s. s), utf8_error_text = (\<lambda>s. s),
     parse_certificate = (\<lambda>s. if s = [] then None else Some (tl s)), sha256 = (\<lambda>s. s), sha512 = rev\<rparr>"

definition tlsa_test :: "tlsa_record list" where
  "tlsa_test = [\<lparr>secure = True, usage = DaneTa, matching = MatchSha256, selector = SelectSpki, cert_data = ''ca''\<rparr>,
     \<lparr>secure = True, usage = DaneEe, matching = MatchSha512, selector = SelectFull, cert_data = ''xm''\<rparr>]"

theorem dane_verification_exact_witness:
  "\<exists>t. tlsa_of_records tlsa_test = Some t
    \<and> tlsa_verify plain_policy_env t ''mx'' (Some [''mx'', ''xca'']) = Inr ()
    \<and> tlsa_verify plain_policy_env t ''mx'' (Some [''mz'', ''xca'']) =
        Inl (permanent ''mx'' (DaneError ''No matching certificates found in TLSA records''))"
proof -
  obtain t where t: "tlsa_of_records tlsa_test = Some t"
    by (simp add: tlsa_of_records_def tlsa_test_def tlsa_step_def)
  have r: "\<exists>r \<in> set tlsa_test. counts DaneEe r \<or> counts DaneTa r" "\<exists>r \<in> set tlsa_test. counts DaneEe r"
    "\<forall>r \<in> set tlsa_test. counts DaneEe r \<or> counts DaneTa r \<longrightarrow> supported r"
    by (simp_all add: tlsa_test_def counts_def supported_def)
  have a: "(\<exists>r \<in> set tlsa_test. counts DaneEe r \<and> authenticates plain_policy_env r der) \<longleftrightarrow> der = ''mx''" for der
    by (auto simp: tlsa_test_def counts_def authenticates_def plain_policy_env_def)
  have "\<forall>c \<in> set [x, ''xca'']. parse_certificate plain_policy_env c \<noteq> None" if "x \<noteq> []" for x
    using that by (simp add: plain_policy_env_def)
  with dane_verification_exact [OF t r(1,3)] t r(2) show ?thesis by (simp add: a)
qed

text \<open>
  With an answer that has no record at all there is nothing to match, and every chain is accepted; deliveries
  do not come this far then, since they ask for end entity records first.
\<close>

lemma no_record_accepts_all:
  "tlsa_of_records [] = Some t \<Longrightarrow> parse_certificate env der \<noteq> None \<Longrightarrow> tlsa_verify env t host (Some [der]) = Inr ()"
  by (auto simp: tlsa_of_records_def tlsa_verify_def)

text \<open>A record of the full certificate can not match, but its usage counts: such a host always fails.\<close>

lemma full_certificate_record_fails:
  "tlsa_of_records [\<lparr>secure = True, usage = DaneEe, matching = OtherMatching, selector = SelectFull, cert_data = der\<rparr>] = Some t
   \<Longrightarrow> parse_certificate env der \<noteq> None
   \<Longrightarrow> tlsa_verify env t host (Some [der]) = Inl (permanent host (DaneError ''No matching certificates found in TLSA records''))"
  by (auto simp: tlsa_of_records_def tlsa_step_def tlsa_verify_def)

definition exchange_order :: "(string list \<Rightarrow> string list) \<Rightarrow> mx_record \<Rightarrow> string list" where
  "exchange_order shuffle r = (if length (exchanges r) > 1 then shuffle (exchanges r) else exchanges r)"

definition null_mx :: "mx_record \<Rightarrow> bool" where
  "null_mx r \<longleftrightarrow> preference r = 0 \<and> exchanges r = [''.'']"

lemma push_hosts_take:
  "length hosts < max_mx config \<Longrightarrow>
   push_hosts config hs hosts =
     (max_mx config \<le> length hosts + length hs,
      take (max_mx config) (hosts @ map (\<lambda>h. MX False h config) hs))"
  by (induction hs arbitrary: hosts) (auto simp: Let_def take_Cons')

lemma remote_hosts_step:
  "\<not> null_mx r \<Longrightarrow> remote_hosts_loop shuffle config (r # rs) hosts =
    (if exchanges r = [] then remote_hosts_loop shuffle config rs hosts
     else case push_hosts config (exchange_order shuffle r) hosts of
       (stop, hosts) \<Rightarrow> if stop then Some hosts else remote_hosts_loop shuffle config rs hosts)"
  by (cases "exchanges r"; cases "tl (exchanges r)") (auto simp: null_mx_def exchange_order_def)

lemma remote_hosts_take:
  assumes "list_all (\<lambda>r. \<not> null_mx r) rs" and "length hosts < max_mx config"
  shows "remote_hosts_loop shuffle config rs hosts =
    Some (take (max_mx config) (hosts @ map (\<lambda>h. MX False h config) (concat (map (exchange_order shuffle) rs))))"
  using assms
proof (induction rs arbitrary: hosts)
  case (Cons r rs)
  show ?case
  proof (cases "exchanges r = []")
    case True
    with Cons show ?thesis by (simp add: remote_hosts_step exchange_order_def del: remote_hosts_loop.simps(2))
  next
    case False
    with Cons show ?thesis
      by (auto simp: remote_hosts_step push_hosts_take simp del: remote_hosts_loop.simps(2))
  qed
qed simp

text \<open>
  The hosts of a domain are tried in the order of their preference, at most \<open>max_mx\<close> of them:
  unless an exchange is the null MX, they are the first \<open>max_mx\<close> names of the records, those of one
  preference in random order; and a domain without records is its own host.
\<close>

theorem mx_hosts_in_order:
  assumes "list_all (\<lambda>r. \<not> null_mx r) rs" and "max_mx config > 0"
  shows "to_remote_hosts shuffle config dom_name rs =
    Some (if rs = [] then [MX True dom_name config]
      else take (max_mx config) (map (\<lambda>h. MX False h config) (concat (map (exchange_order shuffle) rs))))"
  using remote_hosts_take [OF assms(1), of "[]" config shuffle] assms(2) by (simp add: to_remote_hosts_def)

theorem mx_hosts_in_order_witness:
  "let config = \<lparr>max_mx = 2, config_multi_homed = 2, mx_lookup_strategy = Ipv4Only\<rparr> in
   to_remote_hosts rev config ''d'' [\<lparr>preference = 0, exchanges = [''a'']\<rparr>, \<lparr>preference = 5, exchanges = [''b'', ''c'']\<rparr>]
     = Some [MX False ''a'' config, MX False ''c'' config]"
  unfolding Let_def by (subst mx_hosts_in_order) (simp_all add: null_mx_def exchange_order_def)

end
