(* ===== verification/Smtp_Delivery.thy ===== *)
theory Smtp_Delivery
  imports Smtp_Session Smtp_Policy Queue_Spool "HOL-Library.State_Monad"
begin

text \<open>
  A delivery attempt (\<open>crates/smtp/src/outbound/delivery.rs\<close>, \<open>local.rs\<close>, and
  \<open>crates/smtp/src/queue/throttle.rs\<close>): what is due is grouped by domain and route, each route is
  tried host by host and address by address under its MTA-STS, DANE and TLS policies, and the
  results become the status of the recipients.

  The world outside - clock, resolver, network, limits, reports, local delivery - is a state that
  the operations of the environment \<open>delivery_env\<close> read and change, in the order in which the
  source calls them; the configured expressions are functions of the envelope.
\<close>

section \<open>Environment\<close>

record envelope =
  env_message :: message
  env_rcpt :: recipient
  env_mx :: string
  env_remote_ip :: ip_addr
  env_local_ip :: ip_addr

definition no_ip :: ip_addr where "no_ip = V4 0"

text \<open>\<open>QueueEnvelope::new\<close>\<close>

definition new_envelope :: "message \<Rightarrow> recipient \<Rightarrow> envelope" where
  "new_envelope m r = \<lparr>env_message = m, env_rcpt = r, env_mx = [], env_remote_ip = no_ip, env_local_ip = no_ip\<rparr>"

text \<open>Reports on TLS (RFC 8460).\<close>

datatype frequency = Hourly | Daily | Weekly | Never

record tls_report =
  report_record :: string
  report_interval :: frequency

datatype policy_type = PolicyTlsa "tlsa option" | PolicySts "policy option" | PolicyNone

datatype result_type = ResultOther | ValidationFailure | TlsaInvalid | DaneRequired | StartTlsNotSupported
  | CertificateNotTrusted | StsPolicyInvalid | StsPolicyFetchError

record failure_details =
  failure_type :: result_type
  failure_mx :: "string option"
  failure_ip :: "ip_addr option"
  failure_reason :: "string option"

record tls_event =
  event_policy :: policy_type
  event_domain :: string
  event_failure :: "failure_details option"
  event_report :: tls_report

datatype local_status = LocalSuccess | LocalTemporary string | LocalPermanent "nat \<times> nat \<times> nat" string

record ingest_message =
  sender_address :: string
  sender_authenticated :: bool
  ingest_recipients :: "(string \<times> bool) list"
  ingest_blob :: string
  ingest_size :: u64

record ('p, 'w) delivery_env =
  session :: "'p session_env"
  policies :: policy_env
  clock :: "('w, u64) state"
  limiter_applies :: "string \<Rightarrow> envelope \<Rightarrow> bool"
  rate_exceeded :: "string \<Rightarrow> envelope \<Rightarrow> ('w, u64 option) state"
  sender_limiters :: "string list"
  rcpt_limiters :: "string list"
  remote_limiters :: "string list"
  route_expr :: "message \<Rightarrow> recipient \<Rightarrow> string option"
  routing_strategies :: "string \<Rightarrow> routing_strategy option"
  tls_expr :: "envelope \<Rightarrow> string option"
  tls_strategies :: "string \<Rightarrow> tls_strategy option"
  connection_expr :: "envelope \<Rightarrow> string option"
  connection_strategies :: "string \<Rightarrow> connection_strategy option"
  tls_report_expr :: "envelope \<Rightarrow> frequency option"
  tlsrpt_query :: "string \<Rightarrow> ('w, dns_error + string) state"
  schedule_report :: "tls_event \<Rightarrow> ('w, unit) state"
  sts_queries :: "string \<Rightarrow> ('w, (dns_error + string) \<times> policy option \<times> fetched) state"
  mx_query :: "string \<Rightarrow> ('w, dns_error + mx_record list) state"
  ip_queries :: "string \<Rightarrow> ('w, (dns_error + ip_addr list) \<times> (dns_error + ip_addr list)) state"
  tlsa_query :: "string \<Rightarrow> ('w, dns_error + tlsa_record list) state"
  connect :: "ip_addr option \<Rightarrow> ip_addr \<Rightarrow> nat \<Rightarrow> ('w, send_error + conn) state"
  deliver_message :: "ingest_message \<Rightarrow> ('w, local_status list) state"
  get_dsn_blob :: "string \<Rightarrow> ('w, string option) state"
  send_report :: "dsn_report \<Rightarrow> ('w, unit) state"
  shuffle_hosts :: "string list \<Rightarrow> string list"
  pick_source :: "nat \<Rightarrow> nat"
  order_routes :: "((string \<times> routing_strategy) \<times> nat list) list \<Rightarrow> ((string \<times> routing_strategy) \<times> nat list) list"
  server_name :: string

text \<open>The defaults of \<open>crates/common/src/core.rs\<close>.\<close>

definition get_route_or_default :: "('p, 'w) delivery_env \<Rightarrow> string \<Rightarrow> routing_strategy" where
  "get_route_or_default env name =
    (case routing_strategies env name of
       Some r \<Rightarrow> r
     | None \<Rightarrow> if name = ''local'' then RouteLocal
         else RouteMx \<lparr>max_mx = 5, config_multi_homed = 2, mx_lookup_strategy = Ipv4thenIpv6\<rparr>)"

definition get_tls_or_default :: "('p, 'w) delivery_env \<Rightarrow> string \<Rightarrow> tls_strategy" where
  "get_tls_or_default env name =
    (case tls_strategies env name of
       Some t \<Rightarrow> t
     | None \<Rightarrow> \<lparr>dane_mode = Optional, mta_sts_mode = Optional, tls_mode = Optional, allow_invalid_certs = False\<rparr>)"

definition get_connection_or_default :: "('p, 'w) delivery_env \<Rightarrow> string \<Rightarrow> connection_strategy" where
  "get_connection_or_default env name =
    (case connection_strategies env name of
       Some t \<Rightarrow> t | None \<Rightarrow> \<lparr>source_ipv4 = [], source_ipv6 = [], ehlo_hostname = None\<rparr>)"

definition or_default :: "string option \<Rightarrow> string" where
  "or_default name = (case name of Some n \<Rightarrow> n | None \<Rightarrow> ''default'')"

section \<open>Limits\<close>

text \<open>\<open>is_allowed\<close>: \<open>Some\<close> time if the limit is reached; errors of the store count as allowed.\<close>

definition is_allowed :: "('p, 'w) delivery_env \<Rightarrow> string \<Rightarrow> envelope \<Rightarrow> ('w, u64 option) state" where
  "is_allowed env limiter e =
    (if limiter_applies env limiter e then
       do { r \<leftarrow> rate_exceeded env limiter e;
            case r of
              Some next_refill \<Rightarrow> do { now \<leftarrow> clock env; State_Monad.return (Some (now + next_refill)) }
            | None \<Rightarrow> State_Monad.return None }
     else State_Monad.return None)"

fun first_limit :: "('p, 'w) delivery_env \<Rightarrow> string list \<Rightarrow> envelope \<Rightarrow> ('w, u64 option) state" where
  "first_limit env [] e = State_Monad.return None"
| "first_limit env (l # ls) e =
    do { r \<leftarrow> is_allowed env l e;
         case r of Some t \<Rightarrow> State_Monad.return (Some t) | None \<Rightarrow> first_limit env ls e }"

section \<open>One route\<close>

record route_ctx =
  ctx_message :: message
  ctx_domain :: string
  ctx_idxs :: "nat list"
  ctx_report :: "tls_report option"
  ctx_sts :: "policy option"
  ctx_is_smtp :: bool

text \<open>A session that was opened for the message, with all that was sent in it.\<close>

record session_log =
  log_host :: string
  log_ip :: ip_addr
  log_conn :: conn

datatype attempt_end =
    NextIp rcpt_status envelope
  | NextHost rcpt_status envelope
  | RouteDone "delivery_result list" "session_log list"

definition report_tls :: "('p, 'w) delivery_env \<Rightarrow> route_ctx \<Rightarrow> policy_type \<Rightarrow> failure_details option \<Rightarrow> ('w, unit) state" where
  "report_tls env ctx p failure =
    (case ctx_report ctx of
       Some r \<Rightarrow> schedule_report env \<lparr>event_policy = p, event_domain = ctx_domain ctx, event_failure = failure, event_report = r\<rparr>
     | None \<Rightarrow> State_Monad.return ())"

definition mx_failure :: "result_type \<Rightarrow> string \<Rightarrow> ip_addr option \<Rightarrow> string \<Rightarrow> failure_details option" where
  "mx_failure t host ip reason =
    Some \<lparr>failure_type = t, failure_mx = Some host, failure_ip = ip, failure_reason = Some reason\<rparr>"

definition policy_of :: "policy option \<Rightarrow> tlsa option \<Rightarrow> policy_type" where
  "policy_of sts dane =
    (case sts of Some p \<Rightarrow> PolicySts (Some p)
     | None \<Rightarrow> (case dane of Some t \<Rightarrow> PolicyTlsa (Some t) | None \<Rightarrow> PolicyNone))"

definition wants_strict_tls :: "('p, 'w) delivery_env \<Rightarrow> route_ctx \<Rightarrow> tls_strategy \<Rightarrow> tlsa option \<Rightarrow> bool" where
  "wants_strict_tls env ctx tls dane \<longleftrightarrow>
    is_tls_required tls \<or> message_flags (ctx_message ctx) AND MAIL_REQUIRETLS (session env) \<noteq> 0
    \<or> ctx_sts ctx \<noteq> None \<or> dane \<noteq> None"

definition tls_connector_for :: "tls_strategy \<Rightarrow> next_hop \<Rightarrow> tlsa option \<Rightarrow> connector" where
  "tls_connector_for tls hop dane =
    (if allow_invalid_certs tls \<or> hop_allow_invalid_certs hop
        \<or> (case dane of Some t \<Rightarrow> has_end_entities t | None \<Rightarrow> False)
     then DummyVerify else PkiVerify)"

text \<open>\<open>peer_certificates\<close> of the encrypted stream.\<close>

fun peer_certificates :: "channel \<Rightarrow> string list option" where
  "peer_certificates (Tls _ certs) = certs"
| "peer_certificates PlainText = None"

text \<open>The message is delivered in a session, and the route is done.\<close>

definition open_session ::
  "('p, 'w) delivery_env \<Rightarrow> route_ctx \<Rightarrow> envelope \<Rightarrow> session_params \<Rightarrow> conn \<Rightarrow> attempt_end" where
  "open_session env ctx e params c =
    (case deliver (session env) (ctx_message ctx) params (ctx_idxs ctx) c of
       (results, c) \<Rightarrow> RouteDone results [\<lparr>log_host = env_mx e, log_ip = env_remote_ip e, log_conn = c\<rparr>])"

text \<open>After EHLO: STARTTLS as the strategy asks, and what its failure means.\<close>

definition verify_dane :: "('p, 'w) delivery_env \<Rightarrow> tlsa option \<Rightarrow> string \<Rightarrow> conn \<Rightarrow> rcpt_status + unit" where
  "verify_dane env dane host c =
    (case dane of
       Some t \<Rightarrow> tlsa_verify (policies env) t host (peer_certificates (channel c))
     | None \<Rightarrow> Inr ())"

definition unavailable_reason :: "('p, 'w) delivery_env \<Rightarrow> (response \<Rightarrow> string) \<Rightarrow> response option \<Rightarrow> string" where
  "unavailable_reason env show_response reply =
    (case reply of Some r \<Rightarrow> show_response r | None \<Rightarrow> ''STARTTLS was not advertised by host'')"

fun tls_error_text :: "send_error \<Rightarrow> string option" where
  "tls_error_text (SendTls t) = Some t"
| "tls_error_text _ = None"

definition try_tls ::
  "('p, 'w) delivery_env \<Rightarrow> (response \<Rightarrow> string) \<Rightarrow> route_ctx \<Rightarrow> tls_strategy \<Rightarrow> tlsa option \<Rightarrow> next_hop \<Rightarrow> envelope
   \<Rightarrow> session_params \<Rightarrow> ehlo_response \<Rightarrow> conn \<Rightarrow> ('w, attempt_end) state" where
  "try_tls env show_response ctx tls dane hop e params capabilities c =
    (if try_start_tls tls then
       (case client_try_start_tls (client (session env)) (tls_connector_for tls hop dane) (env_mx e) capabilities c of
          TlsSuccess c \<Rightarrow>
           (case verify_dane env dane (env_mx e) c of
              Inl st \<Rightarrow>
                do { report_tls env ctx (PolicyTlsa dane)
                       (mx_failure ValidationFailure (env_mx e) (Some (env_remote_ip e)) ''No matching certificates found.'');
                     State_Monad.return (NextHost st e) }
            | Inr _ \<Rightarrow>
                do { report_tls env ctx (policy_of (ctx_sts ctx) dane) None;
                     State_Monad.return (open_session env ctx e params c) })
        | TlsUnavailable reply c \<Rightarrow>
            do { report_tls env ctx (policy_of (ctx_sts ctx) dane)
                   (mx_failure StartTlsNotSupported (env_mx e) (Some (env_remote_ip e)) (unavailable_reason env show_response reply));
                 State_Monad.return
                   (if wants_strict_tls env ctx tls dane
                    then NextHost (from_starttls_error (replies (session env)) (env_mx e) reply) e
                    else open_session env ctx e (params\<lparr>session_capabilities := Some capabilities\<rparr>) c) }
        | StartTlsFailed err \<Rightarrow>
            do { (case tls_error_text err of
                    Some t \<Rightarrow> report_tls env ctx (policy_of (ctx_sts ctx) dane)
                      (mx_failure CertificateNotTrusted (env_mx e) (Some (env_remote_ip e)) t)
                  | None \<Rightarrow> State_Monad.return ());
                 State_Monad.return (NextHost
                   (if wants_strict_tls env ctx tls dane then from_tls_error (env_mx e) err
                    else into_temporary (from_tls_error (env_mx e) err)) e) })
     else State_Monad.return (open_session env ctx e params c))"

text \<open>A connection: in clear with a greeting and EHLO, or encrypted from the start.\<close>

definition use_connection ::
  "('p, 'w) delivery_env \<Rightarrow> (response \<Rightarrow> string) \<Rightarrow> route_ctx \<Rightarrow> tls_strategy \<Rightarrow> tlsa option \<Rightarrow> next_hop \<Rightarrow> envelope
   \<Rightarrow> session_params \<Rightarrow> conn \<Rightarrow> ('w, attempt_end) state" where
  "use_connection env show_response ctx tls dane hop e params c =
    (if \<not> implicit_tls hop then
       (case read_greeting (client (session env)) (env_mx e) c of
          (Inl st, _) \<Rightarrow> State_Monad.return (NextHost st e)
        | (Inr _, c) \<Rightarrow>
           (case say_helo (client (session env)) (session_is_smtp params) (remote_name params) (session_local_hostname params) c of
              (Inl st, _) \<Rightarrow> State_Monad.return (NextHost st e)
            | (Inr capabilities, c) \<Rightarrow> try_tls env show_response ctx tls dane hop e params capabilities c))
     else
       State_Monad.return
         (case into_tls (client (session env)) (tls_connector_for tls hop dane) (env_mx e) c of
            Inl err \<Rightarrow> NextHost (from_tls_error (env_mx e) err) e
          | Inr c \<Rightarrow>
             (case read_greeting (client (session env)) (env_mx e) c of
                (Inl st, _) \<Rightarrow> NextHost st e
              | (Inr _, c) \<Rightarrow> open_session env ctx e params c)))"

text \<open>One address: limits, the source address, the connection.\<close>

definition params_for :: "('p, 'w) delivery_env \<Rightarrow> connection_strategy \<Rightarrow> ip_and_host option \<Rightarrow> next_hop \<Rightarrow> envelope \<Rightarrow> session_params" where
  "params_for env conn_strategy ip_host hop e =
    \<lparr>remote_name = env_mx e, session_credentials = next_hop_credentials hop, session_capabilities = None,
     session_is_smtp = next_hop_is_smtp hop,
     session_local_hostname =
       (case Option.bind ip_host source_host of
          Some h \<Rightarrow> h
        | None \<Rightarrow> (case ehlo_hostname conn_strategy of Some h \<Rightarrow> h | None \<Rightarrow> server_name env))\<rparr>"

definition try_ip ::
  "('p, 'w) delivery_env \<Rightarrow> (response \<Rightarrow> string) \<Rightarrow> route_ctx \<Rightarrow> tls_strategy \<Rightarrow> tlsa option \<Rightarrow> next_hop \<Rightarrow> envelope \<Rightarrow> ip_addr
   \<Rightarrow> ('w, attempt_end) state" where
  "try_ip env show_response ctx tls dane hop e remote_ip =
    (let e = e\<lparr>env_remote_ip := remote_ip\<rparr> in
     do { limit \<leftarrow> first_limit env (remote_limiters env) e;
          case limit of
            Some retry_at \<Rightarrow> State_Monad.return (RouteDone [RateLimitedResult (ctx_idxs ctx) retry_at] [])
          | None \<Rightarrow>
              (let conn_strategy = get_connection_or_default env (or_default (connection_expr env e));
                   ip_host = source_ip (pick_source env) conn_strategy (is_ipv4 remote_ip);
                   e = e\<lparr>env_local_ip := (case ip_host of Some i \<Rightarrow> source_ip_addr i | None \<Rightarrow> no_ip)\<rparr> in
               do { r \<leftarrow> connect env (map_option source_ip_addr ip_host) remote_ip (next_hop_port hop);
                    case r of
                      Inl err \<Rightarrow> State_Monad.return (NextIp (from_smtp_error (replies (session env)) (env_mx e) [] err) e)
                    | Inr c \<Rightarrow> use_connection env show_response ctx tls dane hop e (params_for env conn_strategy ip_host hop e) c }) })"

fun try_ips ::
  "('p, 'w) delivery_env \<Rightarrow> (response \<Rightarrow> string) \<Rightarrow> route_ctx \<Rightarrow> tls_strategy \<Rightarrow> tlsa option \<Rightarrow> next_hop \<Rightarrow> rcpt_status \<Rightarrow> envelope
   \<Rightarrow> ip_addr list \<Rightarrow> ('w, attempt_end) state" where
  "try_ips env show_response ctx tls dane hop last_status e [] = State_Monad.return (NextHost last_status e)"
| "try_ips env show_response ctx tls dane hop last_status e (ip # ips) =
    do { o' \<leftarrow> try_ip env show_response ctx tls dane hop e ip;
         case o' of
           NextIp s e \<Rightarrow> try_ips env show_response ctx tls dane hop s e ips
         | _ \<Rightarrow> State_Monad.return o' }"

text \<open>DANE: the records of the host, and what follows if there are none that can be used.\<close>

definition dane_stage ::
  "('p, 'w) delivery_env \<Rightarrow> route_ctx \<Rightarrow> tls_strategy \<Rightarrow> envelope \<Rightarrow> ('w, rcpt_status + tlsa option) state" where
  "dane_stage env ctx tls e =
    (if try_dane tls \<and> ctx_is_smtp ctx then
       (let strict = is_dane_required tls; host = env_mx e;
            fail = (\<lambda>p t reason. report_tls env ctx (PolicyTlsa p) (mx_failure t host None reason)) in
        do { r \<leftarrow> tlsa_query env (''_25._tcp.'' @ host @ ''.'');
             case r of
               Inr rs \<Rightarrow>
                (case tlsa_of_records rs of
                   Some t \<Rightarrow>
                     if has_end_entities t then State_Monad.return (Inr (Some t))
                     else do { fail (Some t) TlsaInvalid ''Invalid TLSA record.'';
                               State_Monad.return
                                 (if strict then Inl (permanent host (DaneError ''No valid TLSA records were found'')) else Inr None) }
                 | None \<Rightarrow>
                     if strict then
                       do { fail None DaneRequired ''No TLSA DNSSEC records found.'';
                            State_Monad.return (Inl (permanent host (DaneError ''No TLSA DNSSEC records found''))) }
                     else State_Monad.return (Inr None))
             | Inl err \<Rightarrow>
                if strict then
                  (case err of
                     DnsRecordNotFound _ \<Rightarrow>
                       do { fail None DaneRequired ''No TLSA records found for MX.'';
                            State_Monad.return (Inl (permanent host (DaneError ''No TLSA records found''))) }
                   | _ \<Rightarrow> State_Monad.return (Inl (from_mail_auth_error (replies (session env)) host err)))
                else State_Monad.return (Inr None) })
     else State_Monad.return (Inr None))"

text \<open>MTA-STS for one host: a host that the policy does not list is reported, and skipped if the policy is enforced.\<close>

definition sts_refuses :: "('p, 'w) delivery_env \<Rightarrow> route_ctx \<Rightarrow> string \<Rightarrow> rcpt_status option" where
  "sts_refuses env ctx host =
    (case ctx_sts ctx of
       Some p \<Rightarrow>
         if \<not> verify_policy p host \<and> enforce p
         then Some (permanent host (MtaStsError (''MX '' @ debug_text (policies env) host @ '' not authorized by policy.'')))
         else None
     | None \<Rightarrow> None)"

definition report_sts :: "('p, 'w) delivery_env \<Rightarrow> route_ctx \<Rightarrow> string \<Rightarrow> ('w, unit) state" where
  "report_sts env ctx host =
    (case ctx_sts ctx of
       Some p \<Rightarrow>
         if \<not> verify_policy p host
         then report_tls env ctx (PolicySts (Some p)) (mx_failure ValidationFailure host None ''MX not authorized by policy.'')
         else State_Monad.return ()
     | None \<Rightarrow> State_Monad.return ())"

definition try_host ::
  "('p, 'w) delivery_env \<Rightarrow> (response \<Rightarrow> string) \<Rightarrow> route_ctx \<Rightarrow> rcpt_status \<Rightarrow> envelope \<Rightarrow> next_hop \<Rightarrow> ('w, attempt_end) state" where
  "try_host env show_response ctx last_status e hop =
    (let e = e\<lparr>env_mx := next_hop_hostname hop\<rparr> in
     do { report_sts env ctx (env_mx e);
          case sts_refuses env ctx (env_mx e) of
            Some s \<Rightarrow> State_Monad.return (NextHost s e)
          | None \<Rightarrow>
             do { answers \<leftarrow> ip_queries env (fqdn_hostname hop);
                  case resolve_host (replies (session env)) (policies env) hop (env_mx e) (fst answers) (snd answers) of
                    Inl s \<Rightarrow> State_Monad.return (NextHost s e)
                  | Inr ips \<Rightarrow>
                     (let tls = get_tls_or_default env (or_default (tls_expr env e)) in
                      do { dane \<leftarrow> dane_stage env ctx tls e;
                           case dane of
                             Inl s \<Rightarrow> State_Monad.return (NextHost s e)
                           | Inr t \<Rightarrow> try_ips env show_response ctx tls t hop last_status e ips }) } })"

fun try_hosts ::
  "('p, 'w) delivery_env \<Rightarrow> (response \<Rightarrow> string) \<Rightarrow> route_ctx \<Rightarrow> rcpt_status \<Rightarrow> envelope \<Rightarrow> next_hop list
   \<Rightarrow> ('w, delivery_result list \<times> session_log list) state" where
  "try_hosts env show_response ctx last_status e [] = State_Monad.return ([DomainResult last_status (ctx_idxs ctx)], [])"
| "try_hosts env show_response ctx last_status e (hop # hops) =
    do { o' \<leftarrow> try_host env show_response ctx last_status e hop;
         case o' of
           NextHost s e \<Rightarrow> try_hosts env show_response ctx s e hops
         | NextIp s e \<Rightarrow> try_hosts env show_response ctx s e hops
         | RouteDone results sessions \<Rightarrow> State_Monad.return (results, sessions) }"

text \<open>What comes before the hosts: the TLS report policy, the MTA-STS policy, the MX records.\<close>

definition report_stage :: "('p, 'w) delivery_env \<Rightarrow> message \<Rightarrow> string \<Rightarrow> bool \<Rightarrow> bool \<Rightarrow> envelope \<Rightarrow> ('w, tls_report option) state" where
  "report_stage env m domain is_mx is_smtp e =
    (if is_smtp \<and> is_mx \<and> message_flags m AND FROM_REPORT = 0 then
       (case tls_report_expr env e of
          Some f \<Rightarrow>
            if f = Never then State_Monad.return None
            else do { r \<leftarrow> tlsrpt_query env (''_smtp._tls.'' @ domain @ ''.'');
                      State_Monad.return (case r of Inr rec \<Rightarrow> Some \<lparr>report_record = rec, report_interval = f\<rparr> | Inl _ \<Rightarrow> None) }
        | None \<Rightarrow> State_Monad.return None)
     else State_Monad.return None)"

text \<open>\<open>Display for mta_sts::Error\<close>, and the result type of the error.\<close>

fun show_sts_error :: "('p, 'w) delivery_env \<Rightarrow> mta_sts_error \<Rightarrow> string" where
  "show_sts_error env (StsDns (DnsRecordNotFound k)) = ''Record not found: '' @ k"
| "show_sts_error env (StsDns InvalidRecordType) = ''Failed to parse MTA-STS DNS record.''"
| "show_sts_error env (StsDns err) = ''DNS lookup error: '' @ show_dns_error (session env) err"
| "show_sts_error env (StsHttp err) =
    (if is_timeout err then ''Timeout fetching policy.''
     else if is_connect err then ''Could not reach policy host.''
     else if is_status err \<and> http_status err = Some 404 then ''Policy not found.''
     else ''Failed to fetch policy.'')"
| "show_sts_error env (InvalidPolicy err) = ''Failed to parse policy: '' @ err"

fun sts_result_type :: "mta_sts_error \<Rightarrow> result_type" where
  "sts_result_type (InvalidPolicy _) = StsPolicyInvalid"
| "sts_result_type _ = StsPolicyFetchError"

definition report_sts_error :: "('p, 'w) delivery_env \<Rightarrow> route_ctx \<Rightarrow> bool \<Rightarrow> mta_sts_error \<Rightarrow> ('w, unit) state" where
  "report_sts_error env ctx strict err =
    (let fail = (\<lambda>t reason. report_tls env ctx (PolicySts None)
           (Some \<lparr>failure_type = t, failure_mx = None, failure_ip = None, failure_reason = Some reason\<rparr>)) in
     case err of
       StsDns (DnsRecordNotFound _) \<Rightarrow>
         if strict then fail ResultOther ''MTA-STS is required and no policy was found.'' else State_Monad.return ()
     | StsDns (DnsFailure _) \<Rightarrow> State_Monad.return ()
     | _ \<Rightarrow> fail (sts_result_type err) (show_sts_error env err))"

definition sts_stage ::
  "('p, 'w) delivery_env \<Rightarrow> route_ctx \<Rightarrow> bool \<Rightarrow> tls_strategy \<Rightarrow> ('w, rcpt_status + policy option) state" where
  "sts_stage env ctx is_mx tls =
    (if is_mx \<and> try_mta_sts tls \<and> ctx_is_smtp ctx then
       do { answers \<leftarrow> sts_queries env (ctx_domain ctx);
            case answers of (txt, cached, fetch) \<Rightarrow>
              (case fst (lookup_mta_sts_policy (policies env) txt cached fetch) of
                 Inr p \<Rightarrow> State_Monad.return (Inr (Some p))
               | Inl err \<Rightarrow>
                   do { report_sts_error env ctx (is_mta_sts_required tls) err;
                        State_Monad.return
                          (if is_mta_sts_required tls
                           then Inl (from_mta_sts_error (replies (session env)) (ctx_domain ctx) err) else Inr None) }) }
     else State_Monad.return (Inr None))"

definition mx_stage :: "('p, 'w) delivery_env \<Rightarrow> string \<Rightarrow> mx_config \<Rightarrow> ('w, rcpt_status + next_hop list) state" where
  "mx_stage env domain config =
    do { r \<leftarrow> mx_query env domain;
         State_Monad.return
           (case (case r of Inl (DnsRecordNotFound _) \<Rightarrow> Inr [] | _ \<Rightarrow> r) of
              Inl err \<Rightarrow> Inl (from_mail_auth_error (replies (session env)) domain err)
            | Inr rs \<Rightarrow>
               (case to_remote_hosts (shuffle_hosts env) config domain rs of
                  Some hosts \<Rightarrow> Inr hosts
                | None \<Rightarrow> Inl (permanent domain (DnsError ''Domain does not accept messages (null MX)'')))) }"

text \<open>
  \<open>deliver_local\<close>: what the mailboxes of this server answer, as replies of an SMTP server. The
  messages that Sieve scripts generate during delivery are the business of \<open>deliver_message\<close>.
\<close>

definition ingest_of :: "('p, 'w) delivery_env \<Rightarrow> message \<Rightarrow> nat list \<Rightarrow> ingest_message" where
  "ingest_of env m idxs =
    \<lparr>sender_address = return_path m,
     sender_authenticated = (message_flags m AND (FROM_UNAUTHENTICATED_DMARC OR FROM_AUTHENTICATED) \<noteq> 0),
     ingest_recipients = map (\<lambda>i. (to_lowercase (policies env) (address (recipients m ! i)),
         flags (recipients m ! i) AND RCPT_SPAM_PAYLOAD \<noteq> 0)) idxs,
     ingest_blob = blob_hash m, ingest_size = message_size m\<rparr>"

fun local_result :: "string \<Rightarrow> local_status \<Rightarrow> rcpt_status" where
  "local_result addr LocalSuccess =
    Completed \<lparr>hostname = ''localhost'', host_reply = \<lparr>code = 250, esc = (2, 1, 5), response_text = ''OK''\<rparr>\<rparr>"
| "local_result addr (LocalTemporary reason) =
    temporary ''localhost'' (unexpected (''RCPT TO:<'' @ addr @ ''>'') \<lparr>code = 451, esc = (4, 3, 0), response_text = reason\<rparr>)"
| "local_result addr (LocalPermanent k reason) =
    permanent ''localhost'' (unexpected (''RCPT TO:<'' @ addr @ ''>'') \<lparr>code = 550, esc = k, response_text = reason\<rparr>)"

definition deliver_local :: "('p, 'w) delivery_env \<Rightarrow> message \<Rightarrow> nat list \<Rightarrow> ('w, delivery_result list) state" where
  "deliver_local env m idxs =
    do { statuses \<leftarrow> deliver_message env (ingest_of env m idxs);
         State_Monad.return
           (map2 (\<lambda>i s. AccountResult (local_result (address (recipients m ! i)) s) i) idxs statuses) }"

text \<open>One domain and route, with the recipients that share them.\<close>

definition deliver_remote ::
  "('p, 'w) delivery_env \<Rightarrow> (response \<Rightarrow> string) \<Rightarrow> message \<Rightarrow> string \<Rightarrow> nat list \<Rightarrow> envelope
   \<Rightarrow> next_hop list \<Rightarrow> mx_config option \<Rightarrow> bool \<Rightarrow> ('w, delivery_result list \<times> session_log list) state" where
  "deliver_remote env show_response m domain idxs e relay_hosts mx_conf is_smtp =
    (let tls = get_tls_or_default env (or_default (tls_expr env e));
         fails = (\<lambda>s. State_Monad.return ([DomainResult s idxs], [])) in
     do { report \<leftarrow> report_stage env m domain (mx_conf \<noteq> None) is_smtp e;
          (let ctx = \<lparr>ctx_message = m, ctx_domain = domain, ctx_idxs = idxs, ctx_report = report,
                      ctx_sts = None, ctx_is_smtp = is_smtp\<rparr> in
           do { sts \<leftarrow> sts_stage env ctx (mx_conf \<noteq> None) tls;
                case sts of
                  Inl s \<Rightarrow> fails s
                | Inr p \<Rightarrow>
                    do { hosts \<leftarrow> (case mx_conf of
                             Some config \<Rightarrow> mx_stage env domain config
                           | None \<Rightarrow> State_Monad.return (Inr relay_hosts));
                         case hosts of
                           Inl s \<Rightarrow> fails s
                         | Inr hops \<Rightarrow> try_hosts env show_response (ctx\<lparr>ctx_sts := p\<rparr>) Scheduled e hops } }) })"

definition deliver_route ::
  "('p, 'w) delivery_env \<Rightarrow> (response \<Rightarrow> string) \<Rightarrow> message \<Rightarrow> (string \<times> routing_strategy) \<times> nat list
   \<Rightarrow> ('w, delivery_result list \<times> session_log list) state" where
  "deliver_route env show_response m = (\<lambda>((domain, route), idxs).
    (let e = new_envelope m (recipients m ! hd idxs) in
     do { limit \<leftarrow> first_limit env (rcpt_limiters env) e;
          case limit of
            Some retry_at \<Rightarrow> State_Monad.return ([RateLimitedResult idxs retry_at], [])
          | None \<Rightarrow>
             (case route of
                RouteLocal \<Rightarrow> do { results \<leftarrow> deliver_local env m idxs; State_Monad.return (results, []) }
              | RouteMx config \<Rightarrow> deliver_remote env show_response m domain idxs e [] (Some config) True
              | RouteRelay config \<Rightarrow>
                  deliver_remote env show_response m domain idxs e [Relay config] None (relay_is_smtp config)) }))"

fun deliver_routes ::
  "('p, 'w) delivery_env \<Rightarrow> (response \<Rightarrow> string) \<Rightarrow> message \<Rightarrow> ((string \<times> routing_strategy) \<times> nat list) list
   \<Rightarrow> ('w, delivery_result list \<times> session_log list) state" where
  "deliver_routes env show_response m [] = State_Monad.return ([], [])"
| "deliver_routes env show_response m (r # rs) =
    do { a \<leftarrow> deliver_route env show_response m r;
         b \<leftarrow> deliver_routes env show_response m rs;
         State_Monad.return (fst a @ fst b, snd a @ snd b) }"

section \<open>The attempt\<close>

text \<open>What is due: pending, in the queue of the worker, and its retry time has come.\<close>

definition due_rcpt :: "queue_name \<Rightarrow> u64 \<Rightarrow> recipient \<Rightarrow> bool" where
  "due_rcpt name now r \<longleftrightarrow> pending r \<and> due (retry r) \<le> now \<and> queue r = name"

fun add_to_route ::
  "'k \<Rightarrow> nat \<Rightarrow> ('k \<times> nat list) list \<Rightarrow> ('k \<times> nat list) list" where
  "add_to_route k i [] = [(k, [i])]"
| "add_to_route k i ((k', is) # rs) = (if k' = k then (k', is @ [i]) # rs else (k', is) # add_to_route k i rs)"

definition route_key :: "('p, 'w) delivery_env \<Rightarrow> message \<Rightarrow> recipient \<Rightarrow> string \<times> routing_strategy" where
  "route_key env m r = (domain_part (address r), get_route_or_default env (or_default (route_expr env m r)))"

definition group_routes ::
  "('p, 'w) delivery_env \<Rightarrow> queue_name \<Rightarrow> u64 \<Rightarrow> message \<Rightarrow> ((string \<times> routing_strategy) \<times> nat list) list" where
  "group_routes env name now m =
    fold (\<lambda>i. add_to_route (route_key env m (recipients m ! i)) i)
      (filter (\<lambda>i. due_rcpt name now (recipients m ! i)) [0..<length (recipients m)]) []"

text \<open>\<open>has_pending_delivery\<close>: what has expired is marked as failed.\<close>

datatype pending_delivery = PendingYes bool | PendingNo

definition expired_status :: "recipient \<Rightarrow> rcpt_status" where
  "expired_status r =
    (case status r of
       TemporaryFailure err \<Rightarrow> into_permanent (TemporaryFailure err)
     | Scheduled \<Rightarrow> permanent (domain_part (address r)) (Io ''Message expired without any delivery attempts made.'')
     | s \<Rightarrow> s)"

definition expire_rcpt :: "u64 \<Rightarrow> u64 \<Rightarrow> recipient \<Rightarrow> recipient" where
  "expire_rcpt created_at now r =
    (if pending r \<and> is_expired created_at now r then r\<lparr>status := expired_status r\<rparr> else r)"

definition has_pending_delivery :: "u64 \<Rightarrow> message_wrapper \<Rightarrow> pending_delivery \<times> message_wrapper" where
  "has_pending_delivery now mw =
    (let m = message mw; rs = map (expire_rcpt (created m) now) (recipients m) in
     (if list_ex pending rs then PendingYes (list_ex (\<lambda>r. pending r \<and> queue r = queue_name mw) rs) else PendingNo,
      mw\<lparr>message := m\<lparr>recipients := rs\<rparr>\<rparr>))"

text \<open>\<open>send_dsn\<close>: a report to the sender, or the end of a double bounce.\<close>

definition send_dsn :: "('p, 'w) delivery_env \<Rightarrow> message \<Rightarrow> ('w, message) state" where
  "send_dsn env m =
    do { now \<leftarrow> clock env;
         if return_path m \<noteq> [] then
           (if fst (build_dsn (notify_bits (session env)) now None m) \<noteq> None then
              do { blob \<leftarrow> get_dsn_blob env (blob_hash m);
                   (case fst (build_dsn (notify_bits (session env)) now blob m) of
                      Some rep \<Rightarrow> send_report env rep | None \<Rightarrow> State_Monad.return ());
                   State_Monad.return (snd (build_dsn (notify_bits (session env)) now blob m)) }
            else State_Monad.return (snd (build_dsn (notify_bits (session env)) now None m)))
         else State_Monad.return (handle_double_bounce (notify_bits (session env)) now m) }"

text \<open>\<open>set_rcpt_status\<close> and \<open>set_rcpt_rate_limit\<close>; the configuration has no empty retry schedule.\<close>

definition reschedule :: "queue_strategy \<Rightarrow> u64 \<Rightarrow> recipient \<Rightarrow> recipient" where
  "reschedule q now r =
    r\<lparr>retry := \<lparr>due = now + strategy_retry q ! min (unat (inner (retry r))) (length (strategy_retry q) - 1),
        inner = inner (retry r) + 1\<rparr>,
      expires := strategy_expiry q, queue := virtual_queue q\<rparr>"

definition update_rcpt :: "nat \<Rightarrow> (recipient \<Rightarrow> recipient) \<Rightarrow> message \<Rightarrow> message" where
  "update_rcpt i f m = m\<lparr>recipients := (recipients m)[i := f (recipients m ! i)]\<rparr>"

definition set_rcpt_status :: "('p, 'w) delivery_env \<Rightarrow> rcpt_status \<Rightarrow> nat \<Rightarrow> message \<Rightarrow> ('w, message) state" where
  "set_rcpt_status env s i m =
    (let m = update_rcpt i (\<lambda>r. r\<lparr>status := s\<rparr>) m in
     if pending_status s then
       (let q = resolve_queue (notify_bits (session env)) m (recipients m ! i) in
        do { now \<leftarrow> clock env; State_Monad.return (update_rcpt i (reschedule q now) m) })
     else State_Monad.return m)"

definition rate_limited :: "u64 \<Rightarrow> recipient \<Rightarrow> recipient" where
  "rate_limited retry_at r =
    r\<lparr>retry := (retry r)\<lparr>due := retry_at\<rparr>, status := temporary ''localhost'' RateLimited\<rparr>"

definition set_rcpt_rate_limit :: "nat \<Rightarrow> u64 \<Rightarrow> message \<Rightarrow> message" where
  "set_rcpt_rate_limit i retry_at = update_rcpt i (rate_limited retry_at)"

fun set_rcpts_status :: "('p, 'w) delivery_env \<Rightarrow> rcpt_status \<Rightarrow> nat list \<Rightarrow> message \<Rightarrow> ('w, message) state" where
  "set_rcpts_status env s [] m = State_Monad.return m"
| "set_rcpts_status env s (i # is) m = do { m \<leftarrow> set_rcpt_status env s i m; set_rcpts_status env s is m }"

fun apply_result :: "('p, 'w) delivery_env \<Rightarrow> delivery_result \<Rightarrow> message \<Rightarrow> ('w, message) state" where
  "apply_result env (DomainResult s idxs) m = set_rcpts_status env s idxs m"
| "apply_result env (AccountResult s i) m = set_rcpt_status env s i m"
| "apply_result env (RateLimitedResult idxs retry_at) m =
    State_Monad.return (fold (\<lambda>i. set_rcpt_rate_limit i retry_at) idxs m)"

fun apply_results :: "('p, 'w) delivery_env \<Rightarrow> delivery_result list \<Rightarrow> message \<Rightarrow> ('w, message) state" where
  "apply_results env [] m = State_Monad.return m"
| "apply_results env (r # rs) m = do { m \<leftarrow> apply_result env r m; apply_results env rs m }"

text \<open>
  \<open>deliver_task\<close>: whether the message is saved or removed, the message, what the queue manager is
  told, and the sessions that were opened.
\<close>

datatype queue_event_status = EventCompleted | EventLocked | EventDeferred

record task_end =
  task_removes :: bool
  task_message :: message_wrapper
  task_status :: queue_event_status
  task_sessions :: "session_log list"

definition requeue :: "message_wrapper \<Rightarrow> task_end" where
  "requeue mw = \<lparr>task_removes = False, task_message = mw, task_status = EventDeferred, task_sessions = []\<rparr>"

definition limit_sender :: "message_wrapper \<Rightarrow> u64 \<Rightarrow> u64 \<Rightarrow> message_wrapper" where
  "limit_sender mw now retry_at =
    mw\<lparr>message := (message mw)\<lparr>recipients :=
      map (\<lambda>r. if due_rcpt (queue_name mw) now r then rate_limited retry_at r else r) (recipients (message mw))\<rparr>\<rparr>"

definition attempt :: "('p, 'w) delivery_env \<Rightarrow> (response \<Rightarrow> string) \<Rightarrow> message_wrapper \<Rightarrow> ('w, task_end) state" where
  "attempt env show_response mw =
    do { now \<leftarrow> clock env;
         out \<leftarrow> deliver_routes env show_response (message mw) (order_routes env (group_routes env (queue_name mw) now (message mw)));
         m \<leftarrow> apply_results env (fst out) (message mw);
         m \<leftarrow> send_dsn env m;
         State_Monad.return
           (if next_event m None \<noteq> None
            then \<lparr>task_removes = False, task_message = mw\<lparr>message := m\<rparr>, task_status = EventDeferred, task_sessions = snd out\<rparr>
            else \<lparr>task_removes = True, task_message = mw\<lparr>message := m\<rparr>, task_status = EventCompleted, task_sessions = snd out\<rparr>) }"

text \<open>The limits of the sender are resolved on the message, not on the envelope of a recipient.\<close>

definition sender_envelope :: "message \<Rightarrow> envelope" where
  "sender_envelope m = new_envelope m (recipient_new (\<lambda>s. s) 0 [])"

definition continue_task ::
  "('p, 'w) delivery_env \<Rightarrow> (response \<Rightarrow> string) \<Rightarrow> queue_name \<Rightarrow> pending_delivery \<Rightarrow> message_wrapper \<Rightarrow> ('w, task_end) state" where
  "continue_task env show_response name pend mw =
    do { now \<leftarrow> clock env;
         if pend = PendingYes True
            \<and> (case next_delivery_event (message mw) (Some name) of Some t \<Rightarrow> t \<le> now | None \<Rightarrow> False) then
           do { limit \<leftarrow> first_limit env (sender_limiters env) (sender_envelope (message mw));
                case limit of
                  Some retry_at \<Rightarrow>
                    do { now \<leftarrow> clock env; State_Monad.return (requeue (limit_sender mw now retry_at)) }
                | None \<Rightarrow> attempt env show_response mw }
         else if pend = PendingNo then
           State_Monad.return \<lparr>task_removes = True, task_message = mw, task_status = EventCompleted, task_sessions = []\<rparr>
         else State_Monad.return (requeue mw) }"

definition deliver_task ::
  "('p, 'w) delivery_env \<Rightarrow> (response \<Rightarrow> string) \<Rightarrow> queue_name \<Rightarrow> message_wrapper \<Rightarrow> ('w, task_end) state" where
  "deliver_task env show_response name mw =
    do { now \<leftarrow> clock env;
         (case has_pending_delivery now mw of (pend, mw) \<Rightarrow>
           do { m \<leftarrow> send_dsn env (message mw);
                continue_task env show_response name pend (mw\<lparr>message := m\<rparr>) }) }"

text \<open>The end of the task in the store; the worker's event is the one that was \<open>due_at\<close>.\<close>

definition finish_task :: "spool_env \<Rightarrow> u64 \<Rightarrow> task_end \<Rightarrow> database \<Rightarrow> bool \<times> database" where
  "finish_task senv due_at t d =
    (if task_removes t then remove_message (Some due_at) (task_message t) d
     else save_changes senv (Some due_at) (task_message t) d)"

text \<open>\<open>try_deliver\<close> without its lock: a message that no longer exists loses its event.\<close>

definition forget_event :: "u64 \<Rightarrow> queue_name \<Rightarrow> u64 \<Rightarrow> database \<Rightarrow> database" where
  "forget_event qid name due_at d =
    (case store_write (clear (event_class due_at qid name) new_batch) d of Some d' \<Rightarrow> d' | None \<Rightarrow> d)"

definition try_deliver ::
  "('p, 'w) delivery_env \<Rightarrow> (response \<Rightarrow> string) \<Rightarrow> spool_env \<Rightarrow> bool \<Rightarrow> u64 \<Rightarrow> u64 \<Rightarrow> u64 \<Rightarrow> queue_name \<Rightarrow> database
   \<Rightarrow> ('w, queue_event_status \<times> database) state" where
  "try_deliver env show_response senv locked span qid due_at name d =
    (if locked then
       (case read_message senv qid name d of
          Some mw \<Rightarrow>
            do { t \<leftarrow> deliver_task env show_response name (mw\<lparr>span_id := span\<rparr>);
                 State_Monad.return (task_status t, snd (finish_task senv due_at t d)) }
        | None \<Rightarrow> State_Monad.return (EventCompleted, forget_event qid name due_at d))
     else State_Monad.return (EventLocked, d))"

end
