(* ===== verification/Session_Properties.thy ===== *)
theory Session_Properties
  imports Smtp_Session
begin

text \<open>
  What a delivery session guarantees: every recipient is answered for, and one is reported as
  delivered only after the whole message was sent.  The last part runs a session against a script.
\<close>

section \<open>What is sent\<close>

text \<open>What a connection has sent only grows, and it stays the connection that it is.\<close>

declare write_chunks.simps [simp del]

definition sends :: "conn \<Rightarrow> string \<Rightarrow> conn \<Rightarrow> bool" where
  "sends c x c' \<longleftrightarrow> (\<exists>y. sent c' = sent c @ x @ y) \<and> channel c' = channel c"

lemma sends_Nil [simp]: "sends c [] c"
  by (simp add: sends_def)

lemma sends_trans: "sends c x c' \<Longrightarrow> sends c' [] c'' \<Longrightarrow> sends c x c''"
  by (auto simp: sends_def)

lemma sends_grow: "sends c x c' \<Longrightarrow> sends c [] c'"
  by (auto simp: sends_def)

lemma sends_after: "sends c [] c' \<Longrightarrow> sends c' x c'' \<Longrightarrow> \<exists>y. sends c (y @ x) c''"
proof -
  assume "sends c [] c'" and s: "sends c' x c''"
  then obtain y where "sent c' = sent c @ y" "channel c' = channel c" by (auto simp: sends_def)
  with s have "sends c (y @ x) c''" by (auto simp: sends_def)
  then show ?thesis ..
qed

lemma write_all_sends: "write_all s c = (r, c') \<Longrightarrow> sends c [] c' \<and> (\<forall>u. r = Inr u \<longrightarrow> sends c s c')"
  by (auto simp: write_all_def sends_def split: list.splits write_event.splits)

lemma write_chunks_sends: "write_chunks ss c = (r, c') \<Longrightarrow> sends c [] c'"
proof (induction ss arbitrary: c)
  case (Cons s ss)
  obtain r1 c1 where w: "write_all s c = (r1, c1)" by (metis prod.exhaust)
  with Cons show ?case
    by (cases r1) (use write_all_sends [OF w] in \<open>auto simp: write_chunks.simps intro: sends_trans\<close>)
qed (auto simp: write_chunks.simps dest: write_all_sends)

lemma write_chunks_sent: "write_chunks ss c = (Inr u, c') \<Longrightarrow> sends c (concat ss) c'"
  by (auto dest!: write_chunks_ok simp: sends_def)

lemma write_chunk_sent: "write_chunks [s] c = (Inr u, c') \<Longrightarrow> sends c s c'"
  using write_chunks_sent [of "[s]"] by simp

lemma read_sends:
  "client_read env c = (r, c') \<Longrightarrow> sends c [] c'"
  "read_many env n c = (rs, c') \<Longrightarrow> sends c [] c'"
  "read_ehlo env c = (e, c') \<Longrightarrow> sends c [] c'"
  by (auto simp: client_read_def read_many_def read_ehlo_def sends_def split: prod.splits)

lemma client_cmd_sends:
  assumes "client_cmd env s c = (r, c')"
  shows "sends c [] c'" and "r = Inr reply \<Longrightarrow> sends c s c'"
  using assms
  by (auto simp: client_cmd_def split: prod.splits sum.splits
      dest: write_chunks_sends dest!: read_sends(1) intro: sends_trans write_chunk_sent)

lemma auth_rounds_sends: "auth_rounds env mech cred n reply c = (r, c') \<Longrightarrow> sends c [] c'"
  by (induction n arbitrary: reply c)
    (auto split: if_splits sum.splits prod.splits dest!: client_cmd_sends(1) intro: sends_trans)

lemma auth_sends: "auth env mech cred c = (r, c') \<Longrightarrow> sends c [] c'"
  by (auto simp: auth_def Let_def split: if_splits sum.splits prod.splits
      dest!: client_cmd_sends(1) auth_rounds_sends intro: sends_trans)

lemma auth_loop_sends: "auth_loop env cred available e c = (r, c') \<Longrightarrow> sends c [] c'"
proof (induction env cred available e c rule: auth_loop.induct)
  case (1 env cred available e c)
  show ?case
  proof (cases "available = 0")
    case True
    with "1.prems" show ?thesis by (subst (asm) auth_loop.simps) simp
  next
    case False
    obtain r1 c1 where a: "auth env (best_mechanism available) cred c = (r1, c1)" by (metis prod.exhaust)
    note s = auth_sends [OF a]
    show ?thesis
    proof (cases r1)
      case (Inl err)
      with False a "1.prems" s "1.IH" [OF False a [symmetric] Inl] show ?thesis
        by (cases err) (auto simp: auth_loop.simps [of _ _ available] split: if_splits intro: sends_trans)
    next
      case (Inr u)
      with False a "1.prems" s show ?thesis by (simp add: auth_loop.simps [of _ _ available])
    qed
  qed
qed

lemma quit_sends: "sends c [] (quit c)"
proof -
  obtain r c' where w: "write_chunks [''QUIT'' @ crlf] c = (r, c')" by (metis prod.exhaust)
  with write_chunks_sends [OF w] show ?thesis by (cases r) (auto simp: quit_def sends_def)
qed

lemma greet_sends: "greet env params c = (r, c') \<Longrightarrow> sends c [] c'"
  by (auto simp: greet_def say_helo_def Let_def split: option.splits prod.splits sum.splits
      dest!: write_chunks_sends read_sends(3) intro: sends_trans)

lemma log_in_sends: "log_in env params caps c = (r, c') \<Longrightarrow> sends c [] c'"
  by (auto simp: log_in_def authenticate_def split: option.splits prod.splits sum.splits dest!: auth_loop_sends)

lemma mail_from_sends: "mail_from env m params caps c = (r, c') \<Longrightarrow> sends c [] c'"
  by (auto simp: mail_from_def Let_def split: if_splits prod.splits sum.splits dest!: client_cmd_sends(1))

text \<open>The recipients that a result is about, and the status it gives them.\<close>

fun result_idxs :: "delivery_result \<Rightarrow> nat set" where
  "result_idxs (DomainResult _ idxs) = set idxs"
| "result_idxs (AccountResult _ i) = {i}"
| "result_idxs (RateLimitedResult idxs _) = set idxs"

fun result_status :: "delivery_result \<Rightarrow> rcpt_status option" where
  "result_status (DomainResult s _) = Some s"
| "result_status (AccountResult s _) = Some s"
| "result_status (RateLimitedResult _ _) = None"

fun failed_status :: "rcpt_status \<Rightarrow> bool" where
  "failed_status (TemporaryFailure _) = True"
| "failed_status (PermanentFailure _) = True"
| "failed_status _ = False"

lemma failed_status_simps [simp]:
  "failed_status (temporary h e)" "failed_status (permanent h e)"
  by (simp_all add: temporary_def permanent_def)

lemma failed_status_not_completed: "failed_status s \<Longrightarrow> s \<noteq> Completed h"
  by auto

lemma failed_rejected [simp]: "failed_status (rejected env host cmd r)"
  by (simp add: rejected_def)

lemma failed_smtp_error [simp]: "failed_status (from_smtp_error env host cmd err)"
  by (cases err) simp_all

lemma failed_stage_error [simp]: "failed_status (stage_error env host stage cmd e)"
  by (cases e) (simp_all add: stage_error_def status_timeout_def)

lemma failed_calls:
  "greet env params c = (Inl err, c') \<Longrightarrow> failed_status err"
  "log_in env params caps c = (Inl err, c') \<Longrightarrow> failed_status err"
  "mail_from env m params caps c = (Inl err, c') \<Longrightarrow> failed_status err"
  "send_message cenv host cmd blob c = (Inl err, c') \<Longrightarrow> failed_status err"
  by (auto simp: greet_def say_helo_def log_in_def mail_from_def send_message_def queue_system_error_def Let_def
      split: option.splits prod.splits sum.splits if_splits blob_result.splits)

text \<open>What the recipients of an envelope become.\<close>

definition accepted_as ::
  "'p session_env \<Rightarrow> message \<Rightarrow> session_params \<Rightarrow> ehlo_response \<Rightarrow> conn \<Rightarrow> conn \<Rightarrow> nat \<Rightarrow> rcpt_status \<Rightarrow> bool" where
  "accepted_as env m params caps c c' i s \<longleftrightarrow>
    pending (recipients m ! i)
    \<and> (\<exists>reply. severity_of env reply = PositiveCompletion
        \<and> s = Completed \<lparr>hostname = remote_name params, host_reply = reply\<rparr>)
    \<and> (\<exists>pre. sends c (pre @ build_rcpt_to env (recipients m ! i) caps) c')"

lemma accepted_as_later: "accepted_as env m params caps c c' i s \<Longrightarrow> sends c' [] c'' \<Longrightarrow> accepted_as env m params caps c c'' i s"
  unfolding accepted_as_def using sends_trans by blast

lemma accepted_as_earlier:
  assumes "accepted_as env m params caps c1 c' i s" and "sends c [] c1"
  shows "accepted_as env m params caps c c' i s"
proof -
  from assms(1) obtain pre where "sends c1 (pre @ build_rcpt_to env (recipients m ! i) caps) c'"
    by (auto simp: accepted_as_def)
  from sends_after [OF assms(2) this] obtain y where "sends c ((y @ pre) @ build_rcpt_to env (recipients m ! i) caps) c'"
    by auto
  then have "\<exists>pre. sends c (pre @ build_rcpt_to env (recipients m ! i) caps) c'" ..
  with assms(1) show ?thesis by (auto simp: accepted_as_def)
qed

definition refused :: "message \<Rightarrow> nat list \<Rightarrow> delivery_result \<Rightarrow> bool" where
  "refused m idxs r \<longleftrightarrow> (\<exists>i s. r = AccountResult s i \<and> i \<in> set idxs \<and> pending (recipients m ! i) \<and> failed_status s)"

text \<open>The outcome of the envelope, from what was there before.\<close>

definition rcpts_done ::
  "'p session_env \<Rightarrow> message \<Rightarrow> session_params \<Rightarrow> ehlo_response \<Rightarrow> nat list \<Rightarrow> conn \<Rightarrow> conn \<Rightarrow> accepted_rcpts \<Rightarrow> delivery_result list \<Rightarrow> bool" where
  "rcpts_done env m params caps idxs c c' new refusals \<longleftrightarrow>
    (\<forall>(i, s) \<in> set new. i \<in> set idxs \<and> accepted_as env m params caps c c' i s)
    \<and> (\<forall>r \<in> set refusals. refused m idxs r)
    \<and> (\<forall>i \<in> set idxs. pending (recipients m ! i) \<longrightarrow> i \<in> fst ` set new \<or> (\<exists>r \<in> set refusals. i \<in> result_idxs r))"

lemma refused_mono: "refused m idxs r \<Longrightarrow> refused m (i # idxs) r"
  by (auto simp: refused_def)

lemma rcpts_done_Cons:
  assumes d: "rcpts_done env m params caps idxs c1 c' new refusals" and s: "sends c [] c1"
    and f: "\<forall>(j, s) \<in> set first. j = i \<and> accepted_as env m params caps c c' j s"
    and r: "\<forall>r \<in> set first_refusals. refused m (i # idxs) r"
    and p: "pending (recipients m ! i) \<longrightarrow> i \<in> fst ` set first \<or> (\<exists>r \<in> set first_refusals. i \<in> result_idxs r)"
  shows "rcpts_done env m params caps (i # idxs) c c' (first @ new) (first_refusals @ refusals)"
proof -
  have "\<forall>(j, s) \<in> set (first @ new). j \<in> set (i # idxs) \<and> accepted_as env m params caps c c' j s"
    using d f accepted_as_earlier [OF _ s] by (fastforce simp: rcpts_done_def)
  moreover have "\<forall>r \<in> set (first_refusals @ refusals). refused m (i # idxs) r"
    using d r refused_mono by (auto simp: rcpts_done_def)
  moreover have "\<forall>j \<in> set (i # idxs). pending (recipients m ! j) \<longrightarrow>
      j \<in> fst ` set (first @ new) \<or> (\<exists>r \<in> set (first_refusals @ refusals). j \<in> result_idxs r)"
    using d p by (auto simp: rcpts_done_def)
  ultimately show ?thesis by (simp add: rcpts_done_def)
qed

text \<open>The outcome, from what was there before.\<close>

definition rcpt_outcome ::
  "'p session_env \<Rightarrow> message \<Rightarrow> session_params \<Rightarrow> ehlo_response \<Rightarrow> nat list \<Rightarrow> nat list \<Rightarrow> accepted_rcpts \<Rightarrow> delivery_result list
   \<Rightarrow> conn \<Rightarrow> conn \<Rightarrow> delivery_result list + accepted_rcpts \<times> delivery_result list \<Rightarrow> bool" where
  "rcpt_outcome env m params caps all idxs acc st c c' r \<longleftrightarrow> sends c [] c' \<and>
    (case r of
       Inr (acc', st') \<Rightarrow> \<exists>new refusals. acc' = acc @ new \<and> st' = st @ refusals
          \<and> rcpts_done env m params caps idxs c c' new refusals
     | Inl st' \<Rightarrow> \<exists>refusals s. st' = st @ refusals @ [DomainResult s all] \<and> failed_status s
          \<and> (\<forall>r \<in> set refusals. refused m idxs r))"

lemma rcpt_outcome_Cons:
  assumes o: "rcpt_outcome env m params caps all idxs (acc @ first) (st @ first_refusals) c1 c' r" and s: "sends c [] c1"
    and f: "\<forall>(j, s) \<in> set first. j = i \<and> accepted_as env m params caps c c' j s"
    and fr: "\<forall>r \<in> set first_refusals. refused m (i # idxs) r"
    and p: "pending (recipients m ! i) \<longrightarrow> i \<in> fst ` set first \<or> (\<exists>r \<in> set first_refusals. i \<in> result_idxs r)"
  shows "rcpt_outcome env m params caps all (i # idxs) acc st c c' r"
proof (cases r)
  case (Inl st')
  with o obtain refusals s where r: "st' = st @ first_refusals @ refusals @ [DomainResult s all]" "failed_status s"
    "\<forall>r \<in> set refusals. refused m idxs r" "sends c1 [] c'" by (auto simp: rcpt_outcome_def)
  moreover have "\<forall>r \<in> set (first_refusals @ refusals). refused m (i # idxs) r" using r(3) fr refused_mono by auto
  ultimately have "\<exists>refusals s. st' = st @ refusals @ [DomainResult s all] \<and> failed_status s
      \<and> (\<forall>r \<in> set refusals. refused m (i # idxs) r)"
    by (intro exI [of _ "first_refusals @ refusals"] exI [of _ s]) simp
  with Inl sends_trans [OF s r(4)] show ?thesis by (simp add: rcpt_outcome_def)
next
  case (Inr x)
  with o obtain new refusals where n: "x = (acc @ first @ new, st @ first_refusals @ refusals)"
    "rcpts_done env m params caps idxs c1 c' new refusals" "sends c1 [] c'" by (auto simp: rcpt_outcome_def)
  with rcpts_done_Cons [OF n(2) s f fr p] Inr sends_trans [OF s n(3)] show ?thesis
    by (auto simp: rcpt_outcome_def)
qed

lemma rcpt_to_effect:
  "rcpt_to env m params caps all idxs acc st c = (r, c') \<Longrightarrow> rcpt_outcome env m params caps all idxs acc st c c' r"
proof (induction idxs arbitrary: acc st c)
  case Nil
  then show ?case by (auto simp: rcpt_outcome_def rcpts_done_def)
next
  case (Cons i idxs)
  let ?rcpt = "recipients m ! i" and ?cmd = "build_rcpt_to env (recipients m ! i) caps"
  show ?case
  proof (cases "pending ?rcpt")
    case False
    with Cons.prems have "rcpt_to env m params caps all idxs (acc @ []) (st @ []) c = (r, c')" by (simp add: Let_def)
    from rcpt_outcome_Cons [OF Cons.IH [OF this], of c i] False show ?thesis by simp
  next
    case True
    obtain r1 c1 where cmd: "client_cmd (client env) ?cmd c = (r1, c1)" by (metis prod.exhaust)
    note s1 = client_cmd_sends(1) [OF cmd]
    show ?thesis
    proof (cases r1)
      case (Inl err)
      with Cons.prems True cmd s1 sends_trans [OF s1 quit_sends [of c1]] show ?thesis
        by (auto simp: Let_def rcpt_outcome_def)
    next
      case (Inr reply)
      note sent = client_cmd_sends(2) [OF cmd Inr]
      let ?first = "if severity_of env reply = PositiveCompletion
        then [(i, Completed \<lparr>hostname = remote_name params, host_reply = reply\<rparr>)] else []"
      let ?refusal = "if severity_of env reply = PositiveCompletion then []
        else [AccountResult (rejected (replies env) (remote_name params) (trim ?cmd) reply) i]"
      have next_call: "rcpt_to env m params caps all idxs (acc @ ?first) (st @ ?refusal) c1 = (r, c')"
        using Cons.prems True cmd Inr by (auto simp: Let_def)
      note IH = Cons.IH [OF next_call]
      then have s2: "sends c1 [] c'" by (simp add: rcpt_outcome_def)
      have "\<exists>pre. sends c (pre @ ?cmd) c'" using sends_trans [OF sent s2] by (intro exI [of _ "[]"]) simp
      with True have "\<forall>(j, s) \<in> set ?first. j = i \<and> accepted_as env m params caps c c' j s"
        by (auto simp: accepted_as_def)
      from rcpt_outcome_Cons [OF IH s1 this] True show ?thesis by (auto simp: refused_def)
    qed
  qed
qed

text \<open>What has to be sent for a message.\<close>

definition message_data :: "'p session_env \<Rightarrow> message \<Rightarrow> ehlo_response \<Rightarrow> string \<Rightarrow> string" where
  "message_data env m caps raw =
    (case bdat_command env m caps of Some cmd \<Rightarrow> cmd @ raw | None \<Rightarrow> stuffed False raw @ crlf @ ''.'' @ crlf)"

lemma send_message_sends:
  assumes "send_message cenv host (bdat_command env m caps) blob c = (r, c')"
  shows "sends c [] c' \<and> (\<forall>u. r = Inr u \<longrightarrow> (\<exists>raw pre. blob = BlobFound raw \<and> sends c (pre @ message_data env m caps raw) c'))"
proof (cases blob)
  case (BlobFound raw)
  show ?thesis
  proof (cases "bdat_command env m caps")
    case (Some cmd)
    obtain r1 c1 where w: "write_chunks [cmd, raw] c = (r1, c1)" by (metis prod.exhaust)
    with assms BlobFound Some write_chunks_sends [OF w] write_chunks_sent [of "[cmd, raw]" c "()" c1] show ?thesis
      by (cases r1) (auto simp: send_message_def message_data_def intro: exI [of _ "[]"])
  next
    case None
    obtain r1 c1 where w: "write_chunks [''DATA'' @ crlf] c = (r1, c1)" by (metis prod.exhaust)
    note s1 = write_chunks_sends [OF w]
    show ?thesis
    proof (cases r1)
      case (Inl e)
      with assms BlobFound None w s1 show ?thesis by (auto simp: send_message_def)
    next
      case (Inr u)
      obtain r2 c2 where rd: "client_read cenv c1 = (r2, c2)" by (metis prod.exhaust)
      have s2: "sends c [] c2" using sends_trans [OF s1 read_sends(1) [OF rd]] .
      obtain r3 c3 where wm: "write_message raw c2 = (r3, c3)" by (metis prod.exhaust)
      have s3: "sends c2 [] c3" using wm write_chunks_sends unfolding write_message_def by blast
      have s4: "\<exists>pre. sends c (pre @ stuffed False raw @ crlf @ ''.'' @ crlf) c3" if "r3 = Inr u" for u
      proof (rule sends_after [OF s2])
        show "sends c2 (stuffed False raw @ crlf @ ''.'' @ crlf) c3"
          using write_message_ok [of raw c2 u c3] wm that s3 by (simp add: sends_def)
      qed
      from assms BlobFound None w Inr rd wm s2 s3 s4 sends_trans [OF s2 s3] show ?thesis
        by (auto simp: send_message_def message_data_def Let_def split: sum.splits)
    qed
  qed
qed (use assms in \<open>auto simp: send_message_def\<close>)

lemma parse_many_length:
  "parse_many env n p s acc = AllReplies rs \<Longrightarrow> length rs = length acc + n"
  "parse_many env n p s acc = MoreReplies n' p' acc' \<Longrightarrow> length acc' + n' = length acc + n"
proof (induction n arbitrary: p s acc)
  case (Suc n)
  { case 1 with Suc show ?case by (fastforce split: parsed.splits if_splits) }
  { case 2 with Suc show ?case by (fastforce split: parsed.splits if_splits) }
qed auto

lemma read_many_length:
  "read_many_events env n p acc es = (Inr rs, es') \<Longrightarrow> length rs = length acc + n"
proof (induction es arbitrary: n p acc)
  case (Cons e es)
  then show ?case
    by (cases e) (auto split: if_splits many.splits dest: parse_many_length)
qed simp

text \<open>The results of the message, for the recipients that the host accepted.\<close>

definition data_results ::
  "'p session_env \<Rightarrow> message \<Rightarrow> ehlo_response \<Rightarrow> nat list \<Rightarrow> accepted_rcpts \<Rightarrow> session_params \<Rightarrow> conn \<Rightarrow> conn \<Rightarrow> delivery_result list \<Rightarrow> bool" where
  "data_results env m caps all acc params c c' rs \<longleftrightarrow>
    (\<forall>i \<in> fst ` set acc. i \<in> set all \<longrightarrow> (\<exists>r \<in> set rs. i \<in> result_idxs r))
    \<and> (\<forall>r \<in> set rs. (\<exists>s. r = DomainResult s all \<and> failed_status s)
        \<or> (\<exists>i s. r = AccountResult s i \<and> i \<in> fst ` set acc
            \<and> (failed_status s \<or> (\<exists>h. s = Completed h \<and> hostname h = remote_name params
                \<and> (\<exists>raw pre. get_blob env (blob_hash m) = BlobFound raw \<and> sends c (pre @ message_data env m caps raw) c')))))"

lemma sends_quit: "sends c x c' \<Longrightarrow> sends c x (quit c')"
  using sends_trans quit_sends by blast

lemma smtp_answer_effect:
  assumes "smtp_answer env params cmd all acc c = (rs, c')"
  shows "sends c [] c'"
    and "rs = map (\<lambda>(i, s). AccountResult s i) acc \<or> (\<exists>s. rs = [DomainResult s all] \<and> failed_status s)"
  using assms sends_quit
  by (auto simp: smtp_answer_def read_smtp_data_response_def split: prod.splits sum.splits if_splits dest!: read_sends(1))

lemma lmtp_answer_effect:
  assumes "lmtp_answer env params cmd all acc c = (rs, c')"
  shows "sends c [] c'"
    and "(\<exists>responses. length responses = length acc
            \<and> rs = map2 (\<lambda>(i, _) reply. AccountResult (lmtp_status env params cmd reply) i) acc responses)
      \<or> (\<exists>s. rs = [DomainResult s all] \<and> failed_status s)"
proof -
  obtain r1 c1 where rd: "read_many (client env) (length acc) c = (r1, c1)" by (metis prod.exhaust)
  then have len: "length responses = length acc" if "r1 = Inr responses" for responses
    using that read_many_length by (fastforce simp: read_many_def split: prod.splits)
  with assms rd show "(\<exists>responses. length responses = length acc
            \<and> rs = map2 (\<lambda>(i, _) reply. AccountResult (lmtp_status env params cmd reply) i) acc responses)
      \<or> (\<exists>s. rs = [DomainResult s all] \<and> failed_status s)"
    by (cases r1) (auto simp: lmtp_answer_def read_lmtp_data_response_def)
  from assms rd sends_quit [OF read_sends(2) [OF rd]] show "sends c [] c'"
    by (cases r1) (auto simp: lmtp_answer_def read_lmtp_data_response_def)
qed

lemma lmtp_status_cases:
  "failed_status (lmtp_status env params cmd reply)
   \<or> (\<exists>h. lmtp_status env params cmd reply = Completed h \<and> hostname h = remote_name params)"
  by (auto simp: lmtp_status_def)

lemma send_data_effect:
  assumes "send_data env m params caps all acc c = (rs, c')"
    and acc_done: "\<forall>(i, s) \<in> set acc. \<exists>h. s = Completed h \<and> hostname h = remote_name params"
  shows "sends c [] c'" and "data_results env m caps all acc params c c' rs"
proof -
  obtain r1 c1 where sm: "send_message (client env) (remote_name params) (bdat_command env m caps)
      (get_blob env (blob_hash m)) c = (r1, c1)" by (metis prod.exhaust)
  note s1 = send_message_sends [OF sm]
  have "sends c [] c' \<and> data_results env m caps all acc params c c' rs"
  proof (cases "acc = [] \<or> (\<exists>err. r1 = Inl err)")
    case True
    then show ?thesis
    proof (cases "acc = []")
      case True
      with assms(1) quit_sends show ?thesis by (auto simp: send_data_def data_results_def)
    next
      case False
      with True obtain err where e: "r1 = Inl err" by auto
      with assms(1) sm False have "rs = [DomainResult err all]" "c' = quit c1"
        by (simp_all add: send_data_def Let_def)
      with sm e failed_calls(4) s1 sends_quit show ?thesis by (fastforce simp: data_results_def)
    qed
  next
    case False
    then obtain u where u: "r1 = Inr u" by (cases r1) auto
    with s1 obtain raw pre where raw: "get_blob env (blob_hash m) = BlobFound raw"
      "sends c (pre @ message_data env m caps raw) c1" by blast
    let ?cmd = "bdat_command env m caps"
    have a: "if session_is_smtp params then smtp_answer env params ?cmd all acc c1 = (rs, c')
        else lmtp_answer env params ?cmd all acc c1 = (rs, c')"
      using assms(1) sm u False by (simp add: send_data_def Let_def split: if_splits)
    have s2: "sends c1 [] c'"
      using a smtp_answer_effect(1) [of env params ?cmd all acc c1 rs c']
        lmtp_answer_effect(1) [of env params ?cmd all acc c1 rs c'] by (auto split: if_splits)
    have data: "\<exists>raw pre. get_blob env (blob_hash m) = BlobFound raw \<and> sends c (pre @ message_data env m caps raw) c'"
      using raw sends_trans [OF raw(2) s2] by blast
    have "(\<exists>s. rs = [DomainResult s all] \<and> failed_status s)
      \<or> (\<exists>f. rs = map (\<lambda>(i, s). AccountResult s i) f \<and> map fst f = map fst acc
          \<and> (\<forall>(i, s) \<in> set f. failed_status s \<or> (\<exists>h. s = Completed h \<and> hostname h = remote_name params)))"
    proof (cases "session_is_smtp params")
      case True
      with a smtp_answer_effect(2) [of env params ?cmd all acc c1 rs c'] acc_done show ?thesis
        by (auto intro!: exI [of _ acc])
    next
      case False
      with a lmtp_answer_effect(2) [of env params ?cmd all acc c1 rs c'] consider
          s where "rs = [DomainResult s all]" "failed_status s"
        | responses where "length responses = length acc"
            "rs = map2 (\<lambda>(i, _) reply. AccountResult (lmtp_status env params ?cmd reply) i) acc responses"
        by auto
      then show ?thesis
      proof cases
        case 2
        let ?f = "map2 (\<lambda>(i, _) reply. (i, lmtp_status env params ?cmd reply)) acc responses"
        have "rs = map (\<lambda>(i, s). AccountResult s i) ?f" using 2 by (simp add: split_def)
        moreover have "map fst ?f = map fst acc"
          using 2(1) by (induction responses acc rule: list_induct2) auto
        moreover have "\<forall>(i, s) \<in> set ?f. failed_status s \<or> (\<exists>h. s = Completed h \<and> hostname h = remote_name params)"
          using lmtp_status_cases by fastforce
        ultimately show ?thesis by blast
      qed auto
    qed
    then show ?thesis
    proof (elim disjE exE conjE)
      fix s assume "rs = [DomainResult s all]" "failed_status s"
      then show ?thesis using s1 s2 sends_trans by (auto simp: data_results_def)
    next
      fix f assume f: "rs = map (\<lambda>(i, s). AccountResult s i) f" "map fst f = map fst acc"
        "\<forall>(i, s) \<in> set f. failed_status s \<or> (\<exists>h. s = Completed h \<and> hostname h = remote_name params)"
      have fst: "fst ` set f = fst ` set acc" using f(2) by (metis set_map)
      have cover: "\<exists>r \<in> set rs. i \<in> result_idxs r" if "i \<in> fst ` set acc" for i
        using that f(1) unfolding fst [symmetric] by force
      have each: "\<exists>i s. r = AccountResult s i \<and> i \<in> fst ` set acc
            \<and> (failed_status s \<or> (\<exists>h. s = Completed h \<and> hostname h = remote_name params))" if "r \<in> set rs" for r
      proof -
        from that f(1) obtain i s where "r = AccountResult s i" "(i, s) \<in> set f" by auto
        with f(3) fst show ?thesis by force
      qed
      have "data_results env m caps all acc params c c' rs"
        unfolding data_results_def using cover each data by (intro conjI ballI impI disjI2) (simp, metis)
      with s1 s2 sends_trans show ?thesis by blast
    qed
  qed
  then show "sends c [] c'" "data_results env m caps all acc params c c' rs" by simp_all
qed

lemma data_results_idxs:
  "data_results env m caps all acc params c c' rs \<Longrightarrow> fst ` set acc \<subseteq> set all \<Longrightarrow> r \<in> set rs \<Longrightarrow> result_idxs r \<subseteq> set all"
  unfolding data_results_def by (elim conjE) (drule (1) bspec, auto)

lemma data_results_completed:
  assumes "data_results env m caps all acc params c c' rs" and "r \<in> set rs" and "result_status r = Some (Completed h)"
  shows "\<exists>i raw pre. r = AccountResult (Completed h) i \<and> i \<in> fst ` set acc \<and> hostname h = remote_name params
    \<and> get_blob env (blob_hash m) = BlobFound raw \<and> sends c (pre @ message_data env m caps raw) c'"
proof -
  from assms(1,2) consider s where "r = DomainResult s all" "failed_status s"
    | i s where "r = AccountResult s i" "i \<in> fst ` set acc" "failed_status s"
    | i h' raw pre where "r = AccountResult (Completed h') i" "i \<in> fst ` set acc" "hostname h' = remote_name params"
      "get_blob env (blob_hash m) = BlobFound raw" "sends c (pre @ message_data env m caps raw) c'"
    unfolding data_results_def by metis
  then show ?thesis using assms(3) by cases auto
qed

lemma data_results_cover:
  "data_results env m caps all acc params c c' rs \<Longrightarrow> i \<in> fst ` set acc \<Longrightarrow> i \<in> set all \<Longrightarrow> \<exists>r \<in> set rs. i \<in> result_idxs r"
  unfolding data_results_def by blast

text \<open>What comes before the envelope, and a session as a whole.\<close>

lemma rcpts_done_completed:
  "rcpts_done env m params caps idxs c c' new refusals \<Longrightarrow>
   \<forall>(i, s) \<in> set new. \<exists>h. s = Completed h \<and> hostname h = remote_name params"
  by (fastforce simp: rcpts_done_def accepted_as_def)

lemma deliver_cases:
  assumes "deliver env m params idxs c = (rs, c')"
  obtains (fails) s refusals where "rs = refusals @ [DomainResult s idxs]" "failed_status s" "\<forall>r \<in> set refusals. refused m idxs r"
  | (ends) caps new refusals results c1 where "rs = refusals @ results"
      "rcpts_done env m params caps idxs c c1 new refusals" "data_results env m caps idxs new params c1 c' results"
      "sends c [] c1"
proof -
  obtain r1 c1 where g: "greet env params c = (r1, c1)" by (metis prod.exhaust)
  show thesis
  proof (cases r1)
    case (Inl err)
    with assms g failed_calls(1) show ?thesis by (intro fails [of "[]" err]) (auto simp: deliver_def)
  next
    case (Inr caps)
    obtain r2 c2 where l: "log_in env params caps c1 = (r2, c2)" by (metis prod.exhaust)
    show ?thesis
    proof (cases r2)
      case (Inl err)
      with assms g l Inr failed_calls(2) show ?thesis by (intro fails [of "[]" err]) (auto simp: deliver_def)
    next
      case (Inr u)
      note r2 = Inr
      obtain r3 c3 where f: "mail_from env m params caps c2 = (r3, c3)" by (metis prod.exhaust)
      show ?thesis
      proof (cases r3)
        case (Inl err)
        with assms g l f \<open>r1 = Inr caps\<close> r2 failed_calls(3) show ?thesis
          by (intro fails [of "[]" err]) (auto simp: deliver_def)
      next
        case (Inr u')
        have s3: "sends c [] c3"
          using greet_sends [OF g] log_in_sends [OF l] mail_from_sends [OF f] sends_trans by blast
        obtain r4 c4 where e: "rcpt_to env m params caps idxs idxs [] [] c3 = (r4, c4)" by (metis prod.exhaust)
        note out = rcpt_to_effect [OF e]
        show ?thesis
        proof (cases r4)
          case (Inl st)
          with assms g l f e \<open>r1 = Inr caps\<close> r2 Inr out show ?thesis
            by (auto simp: deliver_def rcpt_outcome_def intro: fails)
        next
          case (Inr p)
          with out obtain new refusals where p: "p = (new, refusals)"
            "rcpts_done env m params caps idxs c3 c4 new refusals" "sends c3 [] c4"
            by (auto simp: rcpt_outcome_def)
          obtain results c5 where d: "send_data env m params caps idxs new c4 = (results, c5)" by (metis prod.exhaust)
          have "rs = refusals @ results" "c' = c5"
            using assms g l f e \<open>r1 = Inr caps\<close> r2 \<open>r3 = Inr u'\<close> Inr p(1) d by (auto simp: deliver_def)
          moreover have "rcpts_done env m params caps idxs c c4 new refusals"
            using accepted_as_earlier [OF _ s3] p(2) by (fastforce simp: rcpts_done_def)
          ultimately show ?thesis
            using send_data_effect(2) [OF d rcpts_done_completed [OF p(2)]] sends_trans [OF s3 p(3)]
            by (intro ends [of refusals results caps c4 new]) simp_all
        qed
      qed
    qed
  qed
qed

lemma every_recipient_covered:
  assumes "deliver env m params idxs c = (rs, c')"
  shows "(\<forall>i \<in> set idxs. pending (recipients m ! i) \<longrightarrow> (\<exists>r \<in> set rs. i \<in> result_idxs r))
    \<and> (\<forall>r \<in> set rs. result_idxs r \<subseteq> set idxs)"
  using assms
proof (cases rule: deliver_cases)
  case (fails s refusals)
  then show ?thesis by (auto simp: refused_def)
next
  case (ends caps new refusals results c1)
  then have new: "fst ` set new \<subseteq> set idxs" by (auto simp: rcpts_done_def)
  have "result_idxs r \<subseteq> set idxs" if "r \<in> set rs" for r
    using that ends(1,2) data_results_idxs [OF ends(3) new, of r] by (auto simp: rcpts_done_def refused_def)
  moreover have "\<exists>r \<in> set rs. i \<in> result_idxs r" if "i \<in> set idxs" "pending (recipients m ! i)" for i
  proof -
    from that ends(2) have "i \<in> fst ` set new \<or> (\<exists>r \<in> set refusals. i \<in> result_idxs r)"
      unfolding rcpts_done_def by blast
    then show ?thesis using ends(1) data_results_cover [OF ends(3) _ that(1)] by (metis Un_iff set_append)
  qed
  ultimately show ?thesis by blast
qed

lemma results_are_answers:
  assumes "deliver env m params idxs c = (rs, c')" and "r \<in> set rs"
  shows "(\<exists>s. r = DomainResult s idxs \<and> failed_status s)
    \<or> (\<exists>s i. r = AccountResult s i \<and> i \<in> set idxs \<and> pending (recipients m ! i))"
  using assms(1)
proof (cases rule: deliver_cases)
  case (fails s refusals)
  with assms(2) show ?thesis by (auto simp: refused_def)
next
  case (ends caps new refusals results c1)
  have "i \<in> set idxs \<and> pending (recipients m ! i)" if "i \<in> fst ` set new" for i
    using that ends(2) by (fastforce simp: rcpts_done_def accepted_as_def)
  moreover have "(\<exists>s. r = DomainResult s idxs \<and> failed_status s) \<or> (\<exists>s i. r = AccountResult s i \<and> i \<in> fst ` set new)"
    if "r \<in> set results"
    using that ends(3) unfolding data_results_def by blast
  moreover have "refused m idxs r" if "r \<in> set refusals"
    using that ends(2) unfolding rcpts_done_def by blast
  moreover have "r \<in> set refusals \<or> r \<in> set results" using assms(2) ends(1) by simp
  ultimately show ?thesis unfolding refused_def by meson
qed

text \<open>
  C28. A session answers for every recipient: each pending recipient of the session gets a
  result, whatever the remote host does - refuses, answers nonsense, closes the connection or falls
  silent at any point. A result is either a failure of the whole session, which is given to all its
  recipients, or it is for a single recipient, and then one of the session that is still pending: those
  that are finished are never offered to the host again.
\<close>

theorem every_recipient_answered:
  assumes "deliver env m params idxs c = (rs, c')"
  shows "(\<forall>i \<in> set idxs. pending (recipients m ! i) \<longrightarrow> (\<exists>r \<in> set rs. i \<in> result_idxs r))
    \<and> (\<forall>r \<in> set rs. (\<exists>s. r = DomainResult s idxs \<and> failed_status s)
        \<or> (\<exists>s i. r = AccountResult s i \<and> i \<in> set idxs \<and> pending (recipients m ! i)))"
  using every_recipient_covered [OF assms] results_are_answers [OF assms] by blast

text \<open>
  C29. A recipient is reported as delivered only after the remote host got the message: if a result
  says that a recipient is completed, then \<open>RCPT TO\<close> with its address was sent, after it the whole
  message - the announced chunk, or the stuffed text with its end -, and the status names
  the host of the session.
\<close>

theorem delivered_after_message:
  assumes "deliver env m params idxs c = (rs, c')" and "r \<in> set rs" and "result_status r = Some (Completed h)" and "i \<in> result_idxs r"
  shows "i \<in> set idxs \<and> pending (recipients m ! i) \<and> hostname h = remote_name params
    \<and> (\<exists>caps raw pre mid rest. get_blob env (blob_hash m) = BlobFound raw
        \<and> sent c' = sent c @ pre @ build_rcpt_to env (recipients m ! i) caps @ mid @ message_data env m caps raw @ rest)"
  using assms(1)
proof (cases rule: deliver_cases)
  case (fails s refusals)
  with assms(2-) show ?thesis by (auto simp: refused_def)
next
  case (ends caps new refusals results c1)
  have "r \<in> set results" using assms(2,3) ends(1,2) by (auto simp: rcpts_done_def refused_def)
  from data_results_completed [OF ends(3) this assms(3)] assms(4) obtain raw pre where d: "i \<in> fst ` set new"
    "hostname h = remote_name params" "get_blob env (blob_hash m) = BlobFound raw"
    "sends c1 (pre @ message_data env m caps raw) c'" by (metis result_idxs.simps(2) singletonD)
  from d(1) ends(2) obtain s where a: "i \<in> set idxs" "accepted_as env m params caps c c1 i s"
    by (fastforce simp: rcpts_done_def)
  then obtain pre' mid where c1: "sent c1 = sent c @ pre' @ build_rcpt_to env (recipients m ! i) caps @ mid"
    by (auto simp: accepted_as_def sends_def)
  from d(4) obtain rest where "sent c' = sent c1 @ pre @ message_data env m caps raw @ rest"
    by (auto simp: sends_def)
  with c1 have "sent c' = sent c @ pre' @ build_rcpt_to env (recipients m ! i) caps @ (mid @ pre) @ message_data env m caps raw @ rest"
    by simp
  with a d(2,3) show ?thesis unfolding accepted_as_def by blast
qed

lemma deliver_sends: "deliver env m params idxs c = (rs, c') \<Longrightarrow> sends c [] c'"
proof -
  assume d: "deliver env m params idxs c = (rs, c')"
  obtain r1 c1 where g: "greet env params c = (r1, c1)" by (metis prod.exhaust)
  note s1 = greet_sends [OF g]
  show ?thesis
  proof (cases r1)
    case (Inl err)
    with d g s1 sends_quit show ?thesis by (auto simp: deliver_def)
  next
    case (Inr caps)
    obtain r2 c2 where l: "log_in env params caps c1 = (r2, c2)" by (metis prod.exhaust)
    have s2: "sends c [] c2" using s1 log_in_sends [OF l] sends_trans by blast
    show ?thesis
    proof (cases r2)
      case (Inl err)
      with d g l Inr s2 sends_quit show ?thesis by (auto simp: deliver_def)
    next
      case (Inr u)
      obtain r3 c3 where f: "mail_from env m params caps c2 = (r3, c3)" by (metis prod.exhaust)
      have s3: "sends c [] c3" using s2 mail_from_sends [OF f] sends_trans by blast
      obtain r4 c4 where e: "rcpt_to env m params caps idxs idxs [] [] c3 = (r4, c4)" by (metis prod.exhaust)
      have s4: "sends c3 [] c4" using rcpt_to_effect [OF e] by (simp add: rcpt_outcome_def)
      have data: "sends c4 [] c5" if "r4 = Inr (new, refusals)" "send_data env m params caps idxs new c4 = (results, c5)"
        for new refusals results c5
      proof -
        have "rcpts_done env m params caps idxs c3 c4 new refusals"
          using rcpt_to_effect [OF e] that(1) by (simp add: rcpt_outcome_def)
        then show ?thesis by (rule send_data_effect(1) [OF that(2) rcpts_done_completed])
      qed
      from d g l f e \<open>r1 = Inr caps\<close> Inr s3 s4 sends_quit data show ?thesis
        by (auto simp: deliver_def split: sum.splits prod.splits intro: sends_trans)
    qed
  qed
qed

section \<open>A session evaluated\<close>

text \<open>A parser of one-line replies, which keeps what it has read of a line.\<close>

definition line_reply :: "string \<Rightarrow> string \<Rightarrow> string parsed" where
  "line_reply acc s =
    (case split_once ch_lf (acc @ s) of
       None \<Rightarrow> NeedsMoreData (acc @ s)
     | Some (l, rest) \<Rightarrow>
        (case parse_digits 999 0 (take 3 l) of
           Some n \<Rightarrow> Reply \<lparr>code = n, esc = (0, 0, 0), response_text = drop 4 l\<rparr> rest
         | None \<Rightarrow> BadReply))"

definition code_severity :: "response \<Rightarrow> severity" where
  "code_severity r =
    (if code r div 100 = 2 then PositiveCompletion else if code r div 100 = 3 then PositiveIntermediate
     else if code r div 100 = 4 then TransientNegativeCompletion
     else if code r div 100 = 5 then PermanentNegativeCompletion else InvalidSeverity)"

definition session_test_env :: "string \<Rightarrow> string session_env" where
  "session_test_env raw =
    \<lparr>severity_of = code_severity, is_positive_completion = (\<lambda>r. code r div 100 = 2),
     show_send_error = (\<lambda>_. ''error''), show_dns_error = (\<lambda>_. ''error''),
     reply_parser = [], reply_parser_from_code = (\<lambda>_. []), parse_reply = line_reply,
     parse_ehlo = (\<lambda>s. if ch_lf \<in> set s then EhloReply \<lparr>ehlo_capabilities = 0, auth_mechanisms = 0\<rparr> else EhloNeedsMore),
     MAX_RESPONSE_LENGTH = 4096, assert_code = (\<lambda>n r. if code r = n then Inr r else Inl (UnexpectedReply r)),
     assert_positive_completion = (\<lambda>r. if code r div 100 = 2 then Inr r else Inl (UnexpectedReply r)),
     has_capability = (\<lambda>e x. ehlo_capabilities e AND x \<noteq> 0), EXT_START_TLS = 1,
     AUTH_CRAM_MD5 = 1, AUTH_DIGEST_MD5 = 2, AUTH_LOGIN = 4, AUTH_PLAIN = 8, AUTH_OAUTHBEARER = 16, AUTH_XOAUTH2 = 32,
     to_mechanism = (\<lambda>_. ''PLAIN''), encode_credentials = (\<lambda>_ _ _. Inr ''x''),
     tls_handshake = (\<lambda>_ _ c. TlsUp (incoming c) [] None), notify_bits = test_env,
     EXT_CHUNKING = 2, EXT_DSN = 4, EXT_REQUIRE_TLS = 8, EXT_SIZE = 16, EXT_SMTP_UTF8 = 32,
     MAIL_REQUIRETLS = 1, MAIL_RET_FULL = 2, MAIL_RET_HDRS = 4, MAIL_SMTPUTF8 = 8, get_blob = (\<lambda>_. BlobFound raw)\<rparr>"

definition reply_line :: "string \<Rightarrow> read_event" where
  "reply_line s = Chunk (s @ crlf)"

definition plain_session :: session_params where
  "plain_session = \<lparr>remote_name = ''mx'', session_credentials = None, session_capabilities = None,
     session_is_smtp = True, session_local_hostname = ''here''\<rparr>"

lemma session_run:
  "fst (deliver (session_test_env ''hi'') (test_message [test_rcpt, test_rcpt]) plain_session [0, 1]
     (open_conn [reply_line ''250 mx'', Chunk ''25'', Chunk (''0 ok'' @ crlf), reply_line ''450 later'', reply_line ''250 ok'',
        reply_line ''354 go'', reply_line ''250 done'']))
   = [AccountResult (temporary ''mx'' (unexpected (''RCPT TO:<'' @ address test_rcpt @ ''>'') \<lparr>code = 450, esc = (0, 0, 0), response_text = ''later'' @ [ch_cr]\<rparr>)) 0,
      AccountResult (Completed \<lparr>hostname = ''mx'', host_reply = \<lparr>code = 250, esc = (0, 0, 0), response_text = ''ok'' @ [ch_cr]\<rparr>\<rparr>) 1]"
  by code_simp

abbreviation test_session :: "read_event list \<Rightarrow> delivery_result list \<times> conn" where
  "test_session es \<equiv> deliver (session_test_env ''hi'') (test_message [test_rcpt, test_rcpt]) plain_session [0, 1] (open_conn es)"

lemma test_recipients: "i = 0 \<or> i = 1 \<Longrightarrow> pending (recipients (test_message [test_rcpt, test_rcpt]) ! i)"
  by (auto simp: test_message_def test_rcpt_def recipient_new_def)

theorem every_recipient_answered_witness:
  "list_ex (\<lambda>r. 0 \<in> result_idxs r) (fst (test_session [reply_line ''250 mx'', Chunk ''25'', Chunk []]))
   \<and> list_ex (\<lambda>r. 1 \<in> result_idxs r) (fst (test_session [reply_line ''250 mx'', Chunk ''25'', Chunk []]))"
proof -
  obtain rs c' where d: "test_session [reply_line ''250 mx'', Chunk ''25'', Chunk []] = (rs, c')" by (metis prod.exhaust)
  from every_recipient_answered [OF d] test_recipients show ?thesis unfolding d list_ex_iff by auto
qed

theorem delivered_after_message_witness:
  "\<exists>h caps pre mid rest. result_status (fst (test_session [reply_line ''250 mx'', Chunk ''25'', Chunk (''0 ok'' @ crlf), reply_line ''450 later'',
      reply_line ''250 ok'', reply_line ''354 go'', reply_line ''250 done'']) ! 1) = Some (Completed h)
    \<and> sent (snd (test_session [reply_line ''250 mx'', Chunk ''25'', Chunk (''0 ok'' @ crlf), reply_line ''450 later'',
      reply_line ''250 ok'', reply_line ''354 go'', reply_line ''250 done''])) =
      pre @ build_rcpt_to (session_test_env ''hi'') test_rcpt caps @ mid
        @ message_data (session_test_env ''hi'') (test_message [test_rcpt, test_rcpt]) caps ''hi'' @ rest"
proof -
  let ?es = "[reply_line ''250 mx'', Chunk ''25'', Chunk (''0 ok'' @ crlf), reply_line ''450 later'',
      reply_line ''250 ok'', reply_line ''354 go'', reply_line ''250 done'']"
  let ?h = "\<lparr>hostname = ''mx'', host_reply = \<lparr>code = 250, esc = (0, 0, 0), response_text = ''ok'' @ [ch_cr]\<rparr>\<rparr>"
  obtain rs c' where d: "test_session ?es = (rs, c')" by (metis prod.exhaust)
  with session_run have rs: "AccountResult (Completed ?h) 1 \<in> set rs" "result_status (rs ! 1) = Some (Completed ?h)" by auto
  have "get_blob (session_test_env ''hi'') b = BlobFound raw \<longleftrightarrow> raw = ''hi''" for b raw by (auto simp: session_test_env_def)
  moreover have "sent (open_conn ?es) = []" "recipients (test_message [test_rcpt, test_rcpt]) ! 1 = test_rcpt"
    by (simp_all add: open_conn_def test_message_def)
  ultimately show ?thesis
    using delivered_after_message [OF d rs(1), of ?h 1] rs(2) unfolding d by simp
qed

end
