(* ===== verification/Delivery_Properties.thy ===== *)
theory Delivery_Properties
  imports Smtp_Delivery Session_Properties "HOL-Library.Multiset"
begin

text \<open>
  What a delivery attempt guarantees, whatever the world answers: transport policies are kept,
  every recipient that is due is dealt with, final states stay, a message is removed exactly when it
  is finished, and attempts come to an end.  \<open>pred_state\<close> of the library says it of every value that
  a program yields.
\<close>

section \<open>Programs over the world\<close>

text \<open>\<open>pred_state P m\<close>: whatever the state of the world, \<open>m\<close> yields a value with \<open>P\<close>.\<close>

lemma yields_return: "P x \<Longrightarrow> pred_state P (State_Monad.return x)"
  by (auto intro: pred_stateI)

lemma yields_any: "(\<And>x. P x) \<Longrightarrow> pred_state P m"
  by (auto intro: pred_stateI)

lemma yields_bind:
  assumes "pred_state Q m" and "\<And>x. Q x \<Longrightarrow> pred_state P (f x)"
  shows "pred_state P (m \<bind> f)"
  by (rule bind_predI, rule pred_stateI) (use assms in auto)

lemma yields_seq: "(\<And>x. pred_state P (f x)) \<Longrightarrow> pred_state P (m \<bind> f)"
  by (rule yields_bind [of "\<lambda>_. True"]) (auto intro: yields_any)

lemma yields_mono: "pred_state Q m \<Longrightarrow> (\<And>x. Q x \<Longrightarrow> P x) \<Longrightarrow> pred_state P m"
  by (rule pred_stateI) auto

lemma yields_if: "(b \<Longrightarrow> pred_state P m) \<Longrightarrow> (\<not> b \<Longrightarrow> pred_state P n) \<Longrightarrow> pred_state P (if b then m else n)"
  by simp

lemmas yields = yields_return yields_seq yields_if

section \<open>Transport security\<close>

fun sessions_of :: "attempt_end \<Rightarrow> session_log list" where
  "sessions_of (RouteDone _ sessions) = sessions"
| "sessions_of _ = []"

text \<open>A host may get the message in clear only if the strategy for it does not ask for more.\<close>

definition clear_allowed :: "('p, 'w) delivery_env \<Rightarrow> route_ctx \<Rightarrow> tls_strategy \<Rightarrow> bool" where
  "clear_allowed env ctx tls \<longleftrightarrow>
    \<not> try_start_tls tls
    \<or> (\<not> is_tls_required tls \<and> message_flags (ctx_message ctx) AND MAIL_REQUIRETLS (session env) = 0 \<and> ctx_sts ctx = None)"

definition session_allowed :: "('p, 'w) delivery_env \<Rightarrow> route_ctx \<Rightarrow> session_log \<Rightarrow> bool" where
  "session_allowed env ctx s \<longleftrightarrow>
    (\<forall>p. ctx_sts ctx = Some p \<longrightarrow> enforce p \<longrightarrow> verify_policy p (log_host s))
    \<and> (channel (log_conn s) = PlainText \<longrightarrow>
        (\<exists>e. env_mx e = log_host s \<and> clear_allowed env ctx (get_tls_or_default env (or_default (tls_expr env e)))))"

text \<open>The results are about the recipients of the route, and about each that is pending.\<close>

definition answers :: "message \<Rightarrow> nat list \<Rightarrow> delivery_result list \<Rightarrow> bool" where
  "answers m idxs results \<longleftrightarrow>
    (\<forall>i \<in> set idxs. pending (recipients m ! i) \<longrightarrow> (\<exists>r \<in> set results. i \<in> result_idxs r))
    \<and> (\<forall>r \<in> set results. result_idxs r \<subseteq> set idxs)"

lemma answers_all [simp]: "answers m idxs [DomainResult s idxs]" "answers m idxs [RateLimitedResult idxs t]"
  by (simp_all add: answers_def)

lemma open_session_log:
  "\<exists>results c'. open_session env ctx e params c = RouteDone results [\<lparr>log_host = env_mx e, log_ip = env_remote_ip e, log_conn = c'\<rparr>]
    \<and> channel c' = channel c \<and> answers (ctx_message ctx) (ctx_idxs ctx) results"
proof -
  obtain results c' where d: "deliver (session env) (ctx_message ctx) params (ctx_idxs ctx) c = (results, c')"
    by (metis prod.exhaust)
  with deliver_sends [OF d] every_recipient_covered [OF d] show ?thesis
    by (simp add: open_session_def sends_def answers_def)
qed

lemma into_tls_channel: "into_tls env connector host c = Inr c' \<Longrightarrow> \<exists>certs. channel c' = Tls connector certs"
  by (auto simp: into_tls_def split: tls_outcome.splits)

lemma start_tls_channel:
  "client_try_start_tls env connector host caps c = TlsSuccess c' \<Longrightarrow> \<exists>certs. channel c' = Tls connector certs"
  by (auto simp: client_try_start_tls_def split: if_splits prod.splits sum.splits dest!: into_tls_channel)

text \<open>The end of an attempt at one address of a host.\<close>

definition end_ok :: "('p, 'w) delivery_env \<Rightarrow> route_ctx \<Rightarrow> tls_strategy \<Rightarrow> string \<Rightarrow> attempt_end \<Rightarrow> bool" where
  "end_ok env ctx tls host o' \<longleftrightarrow>
    (\<forall>s \<in> set (sessions_of o'). log_host s = host \<and> (channel (log_conn s) = PlainText \<longrightarrow> clear_allowed env ctx tls))
    \<and> (\<forall>st e. o' = NextIp st e \<longrightarrow> env_mx e = host)
    \<and> (\<forall>results ss. o' = RouteDone results ss \<longrightarrow> answers (ctx_message ctx) (ctx_idxs ctx) results)"

lemma end_ok_next [simp]: "end_ok env ctx tls host (NextHost st e)"
  by (simp add: end_ok_def)

lemma end_ok_session:
  assumes "channel c = PlainText \<longrightarrow> clear_allowed env ctx tls"
  shows "end_ok env ctx tls (env_mx e) (open_session env ctx e params c)"
  using assms open_session_log [of env ctx e params c] by (auto simp: end_ok_def)

lemma not_plain:
  "client_try_start_tls env connector host caps c = TlsSuccess c' \<Longrightarrow> channel c' \<noteq> PlainText"
  "into_tls env connector host c = Inr c' \<Longrightarrow> channel c' \<noteq> PlainText"
  using start_tls_channel into_tls_channel by (metis channel.distinct(1))+

lemma read_greeting_channel: "read_greeting env host c = (r, c') \<Longrightarrow> channel c' = channel c"
  using read_sends(1) by (fastforce simp: read_greeting_def sends_def split: prod.splits sum.splits)

lemma try_tls_ok: "pred_state (end_ok env ctx tls (env_mx e)) (try_tls env show_response ctx tls dane hop e params caps c)"
proof (cases "try_start_tls tls")
  case False
  then show ?thesis unfolding try_tls_def by (auto intro!: yields end_ok_session simp: clear_allowed_def)
next
  case True
  show ?thesis
  proof (cases "client_try_start_tls (client (session env)) (tls_connector_for tls hop dane) (env_mx e) caps c")
    case (TlsSuccess c')
    with True not_plain(1) [OF TlsSuccess] show ?thesis
      unfolding try_tls_def by (auto intro!: yields end_ok_session split: sum.splits)
  next
    case (StartTlsFailed err)
    with True show ?thesis unfolding try_tls_def by (auto intro!: yields)
  next
    case (TlsUnavailable reply c')
    with True show ?thesis unfolding try_tls_def
      by (auto intro!: yields end_ok_session simp: clear_allowed_def wants_strict_tls_def)
  qed
qed

lemma use_connection_ok:
  "pred_state (end_ok env ctx tls (env_mx e)) (use_connection env show_response ctx tls dane hop e params c)"
proof (cases "implicit_tls hop")
  case False
  then show ?thesis
    unfolding use_connection_def by (auto intro!: yields try_tls_ok split: sum.splits prod.splits)
next
  case True
  have "end_ok env ctx tls (env_mx e)
    (case into_tls (client (session env)) connector (env_mx e) c of
       Inl err \<Rightarrow> NextHost (from_tls_error (env_mx e) err) e
     | Inr c \<Rightarrow>
        (case read_greeting (client (session env)) (env_mx e) c of
           (Inl st, _) \<Rightarrow> NextHost st e
         | (Inr _, c) \<Rightarrow> open_session env ctx e params c))" for connector
  proof (cases "into_tls (client (session env)) connector (env_mx e) c")
    case (Inr c')
    obtain r c'' where g: "read_greeting (client (session env)) (env_mx e) c' = (r, c'')" by (metis prod.exhaust)
    with Inr read_greeting_channel [OF g] not_plain(2) [OF Inr] show ?thesis
      by (cases r) (auto intro: end_ok_session)
  qed simp
  with True show ?thesis unfolding use_connection_def by (auto intro!: yields)
qed

lemma try_ip_ok: "pred_state (end_ok env ctx tls (env_mx e)) (try_ip env show_response ctx tls dane hop e ip)"
proof -
  have "pred_state (end_ok env ctx tls (env_mx e)) (use_connection env show_response ctx tls dane hop (e\<lparr>env_remote_ip := a, env_local_ip := b\<rparr>) params c)"
    for a b params c
    using use_connection_ok [of env ctx tls "e\<lparr>env_remote_ip := a, env_local_ip := b\<rparr>"] by simp
  then show ?thesis unfolding try_ip_def Let_def
    by (auto intro!: yields simp: end_ok_def split: option.splits sum.splits)
qed

lemma end_okD: "end_ok env ctx tls host (NextIp st e) \<Longrightarrow> env_mx e = host"
  by (simp add: end_ok_def)

lemma try_ips_ok: "env_mx e = host \<Longrightarrow> pred_state (end_ok env ctx tls host) (try_ips env show_response ctx tls dane hop st e ips)"
proof (induction ips arbitrary: st e)
  case (Cons ip ips)
  show ?case
    unfolding try_ips.simps
  proof (rule yields_bind [OF try_ip_ok])
    fix o' assume "end_ok env ctx tls (env_mx e) o'"
    with Cons.prems have "end_ok env ctx tls host o'" by simp
    then show "pred_state (end_ok env ctx tls host)
        (case o' of NextIp s e \<Rightarrow> try_ips env show_response ctx tls dane hop s e ips | _ \<Rightarrow> State_Monad.return o')"
      by (cases o') (auto intro!: yields_return Cons.IH dest: end_okD)
  qed
qed (auto intro!: yields)

definition host_ok :: "('p, 'w) delivery_env \<Rightarrow> route_ctx \<Rightarrow> attempt_end \<Rightarrow> bool" where
  "host_ok env ctx o' \<longleftrightarrow> list_all (session_allowed env ctx) (sessions_of o')
    \<and> (\<forall>results ss. o' = RouteDone results ss \<longrightarrow> answers (ctx_message ctx) (ctx_idxs ctx) results)"

lemma host_ok_next [simp]: "host_ok env ctx (NextHost st e)"
  by (simp add: host_ok_def)

lemma try_host_ok: "pred_state (host_ok env ctx) (try_host env show_response ctx st e hop)"
proof -
  let ?host = "next_hop_hostname hop" and ?e = "e\<lparr>env_mx := next_hop_hostname hop\<rparr>"
  let ?tls = "get_tls_or_default env (or_default (tls_expr env ?e))"
  have "pred_state (host_ok env ctx) (try_ips env show_response ctx ?tls t hop st ?e ips)"
    if "sts_refuses env ctx ?host = None" for t ips
  proof (rule yields_mono [OF try_ips_ok [of ?e ?host]])
    fix o' assume ok: "end_ok env ctx ?tls ?host o'"
    have "session_allowed env ctx s" if "s \<in> set (sessions_of o')" for s
    proof -
      from ok that have s: "log_host s = ?host" "channel (log_conn s) = PlainText \<longrightarrow> clear_allowed env ctx ?tls"
        by (auto simp: end_ok_def)
      have "enforce p \<longrightarrow> verify_policy p ?host" if "ctx_sts ctx = Some p" for p
        using that \<open>sts_refuses env ctx ?host = None\<close> by (auto simp: sts_refuses_def split: if_splits)
      with s show ?thesis
        unfolding session_allowed_def by (auto intro: exI [of _ ?e])
    qed
    with ok show "host_ok env ctx o'" by (simp add: host_ok_def list_all_iff end_ok_def)
  qed simp
  then show ?thesis
    unfolding try_host_def Let_def by (auto intro!: yields split: option.splits sum.splits)
qed

definition route_ok :: "('p, 'w) delivery_env \<Rightarrow> route_ctx \<Rightarrow> delivery_result list \<times> session_log list \<Rightarrow> bool" where
  "route_ok env ctx out \<longleftrightarrow>
    list_all (session_allowed env ctx) (snd out) \<and> answers (ctx_message ctx) (ctx_idxs ctx) (fst out)"

lemma host_ok_route: "host_ok env ctx (RouteDone results ss) \<Longrightarrow> route_ok env ctx (results, ss)"
  by (simp add: host_ok_def route_ok_def)

lemma try_hosts_ok: "pred_state (route_ok env ctx) (try_hosts env show_response ctx st e hops)"
proof (induction hops arbitrary: st e)
  case (Cons hop hops)
  show ?case
    unfolding try_hosts.simps
  proof (rule yields_bind [OF try_host_ok])
    fix o' assume "host_ok env ctx o'"
    then show "pred_state (route_ok env ctx)
      (case o' of NextHost s e \<Rightarrow> try_hosts env show_response ctx s e hops
       | NextIp s e \<Rightarrow> try_hosts env show_response ctx s e hops
       | RouteDone results sessions \<Rightarrow> State_Monad.return (results, sessions))"
      by (cases o') (auto intro!: yields_return Cons.IH host_ok_route)
  qed
qed (auto intro!: yields simp: route_ok_def)

text \<open>
  C12. No message leaves unprotected where protection is promised: in whatever way the hosts of a
  route, their addresses and their certificates answer, a session is only opened with a host that
  the enforced MTA-STS policy of the domain lists, and in clear only if the strategy for that host
  disables TLS, or asks for none while the sender did not require it and the domain has no policy.
\<close>

theorem sessions_respect_policies:
  "pred_state (\<lambda>out. list_all (session_allowed env ctx) (snd out)) (try_hosts env show_response ctx st e hops)"
  by (rule yields_mono [OF try_hosts_ok]) (simp add: route_ok_def)

section \<open>Every recipient that is due is dealt with\<close>

text \<open>
  The laws of what the delivery takes from elsewhere: local delivery answers for each recipient
  of the message it got, and the routes are tried in some order.
\<close>

definition delivery_env_ok :: "('p, 'w) delivery_env \<Rightarrow> bool" where
  "delivery_env_ok env \<longleftrightarrow>
    (\<forall>msg. pred_state (\<lambda>ss. length ss = length (ingest_recipients msg)) (deliver_message env msg))
    \<and> (\<forall>rs. mset (order_routes env rs) = mset rs)"

lemma local_answers:
  assumes "delivery_env_ok env"
  shows "pred_state (answers m idxs) (deliver_local env m idxs)"
proof -
  have l: "pred_state (\<lambda>ss. length ss = length idxs) (deliver_message env (ingest_of env m idxs))"
  proof -
    have "length (ingest_recipients (ingest_of env m idxs)) = length idxs" by (simp add: ingest_of_def)
    with assms show ?thesis unfolding delivery_env_ok_def by metis
  qed
  have a: "answers m idxs (map2 (\<lambda>i s. AccountResult (f i s) i) idxs ss)" if "length ss = length idxs" for f ss
  proof -
    have "\<exists>r \<in> set (map2 (\<lambda>i s. AccountResult (f i s) i) idxs ss). i \<in> result_idxs r" if "i \<in> set idxs" for i
    proof -
      from that obtain k where "k < length idxs" "idxs ! k = i" by (auto simp: in_set_conv_nth)
      with \<open>length ss = length idxs\<close> have "(i, ss ! k) \<in> set (zip idxs ss)" by (auto simp: in_set_zip)
      then show ?thesis by force
    qed
    moreover have "\<forall>r \<in> set (map2 (\<lambda>i s. AccountResult (f i s) i) idxs ss). result_idxs r \<subseteq> set idxs"
      by (auto dest: set_zip_leftD)
    ultimately show ?thesis by (simp add: answers_def)
  qed
  show ?thesis unfolding deliver_local_def by (rule yields_bind [OF l]) (auto intro!: yields_return a)
qed

lemma remote_answers:
  "pred_state (\<lambda>out. answers m idxs (fst out)) (deliver_remote env show_response m domain idxs e relays conf smtp)"
proof -
  have "pred_state (\<lambda>out. answers m idxs (fst out))
      (try_hosts env show_response \<lparr>ctx_message = m, ctx_domain = domain, ctx_idxs = idxs, ctx_report = report,
          ctx_sts = p, ctx_is_smtp = smtp\<rparr> st e hops)" for report p st hops
    by (rule yields_mono [OF try_hosts_ok]) (simp add: route_ok_def)
  then show ?thesis
    unfolding deliver_remote_def Let_def by (auto intro!: yields split: sum.splits)
qed

lemma route_answers:
  assumes "delivery_env_ok env"
  shows "pred_state (\<lambda>out. answers m idxs (fst out)) (deliver_route env show_response m (k, idxs))"
  unfolding deliver_route_def Let_def
  by (cases k) (auto intro!: yields remote_answers yields_bind [OF local_answers [OF assms]]
      split: option.splits routing_strategy.splits)

lemma routes_answer:
  assumes "delivery_env_ok env"
  shows "pred_state (\<lambda>out. answers m (concat (map snd rs)) (fst out)) (deliver_routes env show_response m rs)"
proof (induction rs)
  case (Cons r rs)
  obtain k idxs where r: "r = (k, idxs)" by (metis prod.exhaust)
  have a: "answers m (xs @ ys) (as @ bs)" if "answers m xs as" "answers m ys bs" for xs ys as bs
    using that unfolding answers_def by (auto simp: subset_iff)
  show ?case
    unfolding deliver_routes.simps r
  proof (rule yields_bind [OF route_answers [OF assms]])
    fix x :: "delivery_result list \<times> session_log list" assume "answers m idxs (fst x)"
    then show "pred_state (\<lambda>out. answers m (concat (map snd ((k, idxs) # rs))) (fst out))
        (deliver_routes env show_response m rs \<bind> (\<lambda>b. State_Monad.return (fst x @ fst b, snd x @ snd b)))"
      by (intro yields_bind [OF Cons.IH]) (auto intro!: yields_return a)
  qed
qed (auto intro!: yields_return simp: answers_def)

lemma add_to_route_idxs: "mset (concat (map snd (add_to_route k i rs))) = mset (concat (map snd rs)) + {#i#}"
  by (induction k i rs rule: add_to_route.induct) auto

lemma group_routes_idxs:
  "mset (concat (map snd (group_routes env name now m)))
    = mset (filter (\<lambda>i. due_rcpt name now (recipients m ! i)) [0..<length (recipients m)])"
proof -
  have "mset (concat (map snd (fold (\<lambda>i. add_to_route (f i) i) ixs rs))) = mset (concat (map snd rs)) + mset ixs"
    for f and ixs :: "nat list" and rs :: "((string \<times> routing_strategy) \<times> nat list) list"
    by (induction ixs arbitrary: rs) (simp_all add: add_to_route_idxs)
  from this [of _ _ "[]"] show ?thesis by (simp add: group_routes_def)
qed

lemma ordered_idxs:
  assumes "delivery_env_ok env"
  shows "set (concat (map snd (order_routes env rs))) = set (concat (map snd rs))"
proof -
  have "set (order_routes env rs) = set rs" using assms by (metis delivery_env_ok_def set_mset_mset)
  then show ?thesis by simp
qed

lemma due_dealt_with:
  assumes "delivery_env_ok env"
  shows "pred_state (\<lambda>out. \<forall>i. i < length (recipients m) \<and> due_rcpt name now (recipients m ! i)
        \<longleftrightarrow> (\<exists>r \<in> set (fst out). i \<in> result_idxs r))
    (deliver_routes env show_response m (order_routes env (group_routes env name now m)))"
proof (rule yields_mono [OF routes_answer [OF assms]])
  let ?idxs = "concat (map snd (order_routes env (group_routes env name now m)))"
  have "set ?idxs = set (concat (map snd (group_routes env name now m)))" by (rule ordered_idxs [OF assms])
  also have "\<dots> = {i. i < length (recipients m) \<and> due_rcpt name now (recipients m ! i)}"
    using arg_cong [OF group_routes_idxs [of env name now m], of set_mset] by (auto simp del: set_concat)
  finally have idxs: "set ?idxs = {i. i < length (recipients m) \<and> due_rcpt name now (recipients m ! i)}" .
  fix out :: "delivery_result list \<times> session_log list" assume "answers m ?idxs (fst out)"
  then show "\<forall>i. i < length (recipients m) \<and> due_rcpt name now (recipients m ! i) \<longleftrightarrow> (\<exists>r \<in> set (fst out). i \<in> result_idxs r)"
    unfolding answers_def idxs by (auto simp: due_rcpt_def)
qed

text \<open>
  C25. An attempt deals with every recipient that is due, and with no other: whatever limits, hosts
  and mailboxes answer, each pending recipient of the queue whose time has come gets a result, and
  every result is about such recipients.
\<close>

theorem due_recipients_dealt_with:
  assumes "delivery_env_ok env"
  shows "pred_state (\<lambda>out. \<forall>i. i < length (recipients m) \<and> due_rcpt name now (recipients m ! i)
        \<longleftrightarrow> (\<exists>r \<in> set (fst out). i \<in> result_idxs r))
    (deliver_routes env show_response m (order_routes env (group_routes env name now m)))"
  by (rule due_dealt_with [OF assms])

section \<open>What an attempt leaves\<close>

text \<open>The fate of the recipients: their status, in order.\<close>

abbreviation statuses :: "message \<Rightarrow> rcpt_status list" where
  "statuses m \<equiv> map status (recipients m)"

lemma double_bounce_status [simp]: "status (fst (double_bounce_step env now t r)) = status r"
  by (auto simp: double_bounce_step_def set_dsn_sent_simps Let_def split: status.splits prod.splits)

lemma send_dsn_statuses:
  assumes "notify_bits_ok (notify_bits (session env))"
  shows "pred_state (\<lambda>m'. statuses m' = statuses m) (send_dsn env m)"
proof -
  have "statuses (snd (build_dsn (notify_bits (session env)) now blob m)) = statuses m" for now blob
    by (simp add: build_dsn_message [OF assms] Let_def update_delays_def)
  then show ?thesis
    unfolding send_dsn_def by (auto intro!: yields simp: handle_double_bounce_def)
qed

lemma set_status_touches:
  "pred_state (\<lambda>m'. length (recipients m') = length (recipients m) \<and> (\<forall>j. j \<noteq> i \<longrightarrow> recipients m' ! j = recipients m ! j))
    (set_rcpt_status env s i m)"
  unfolding set_rcpt_status_def Let_def by (auto intro!: yields simp: update_rcpt_def)

definition touches :: "nat set \<Rightarrow> message \<Rightarrow> message \<Rightarrow> bool" where
  "touches I m m' \<longleftrightarrow> length (recipients m') = length (recipients m)
    \<and> (\<forall>j. j \<notin> I \<longrightarrow> recipients m' ! j = recipients m ! j)"

lemma touches_refl [simp]: "touches I m m"
  by (simp add: touches_def)

lemma touches_trans: "touches I m m' \<Longrightarrow> touches J m' m'' \<Longrightarrow> I \<union> J \<subseteq> K \<Longrightarrow> touches K m m''"
  unfolding touches_def by (metis Un_iff subset_iff)

lemma set_rcpt_status_touches: "pred_state (touches {i} m) (set_rcpt_status env s i m)"
  by (rule yields_mono [OF set_status_touches]) (auto simp: touches_def)

lemma set_rcpts_status_touches: "pred_state (touches (set is') m) (set_rcpts_status env s is' m)"
proof (induction is' arbitrary: m)
  case (Cons i is')
  show ?case
    unfolding set_rcpts_status.simps
  proof (rule yields_bind [OF set_rcpt_status_touches], rule yields_mono [OF Cons.IH])
    fix m1 m2 assume "touches {i} m m1" "touches (set is') m1 m2"
    then show "touches (set (i # is')) m m2" by (rule touches_trans) simp
  qed
qed (auto intro!: yields)

lemma rate_limits_touch: "touches (set is') m (fold (\<lambda>i. set_rcpt_rate_limit i t) is' m)"
proof (induction is' arbitrary: m)
  case (Cons i is')
  have "touches {i} m (set_rcpt_rate_limit i t m)"
    by (auto simp: touches_def set_rcpt_rate_limit_def update_rcpt_def)
  from touches_trans [OF this Cons.IH, of "set (i # is')"] show ?case by simp
qed simp

lemma apply_result_touches: "pred_state (touches (result_idxs r) m) (apply_result env r m)"
  using set_rcpts_status_touches set_rcpt_status_touches rate_limits_touch by (cases r) (auto intro!: yields_return)

lemma apply_results_touch: "pred_state (touches (\<Union>r \<in> set rs. result_idxs r) m) (apply_results env rs m)"
proof (induction rs arbitrary: m)
  case (Cons r rs)
  show ?case
    unfolding apply_results.simps
  proof (rule yields_bind [OF apply_result_touches], rule yields_mono [OF Cons.IH])
    fix m1 m2 assume "touches (result_idxs r) m m1" "touches (\<Union>r \<in> set rs. result_idxs r) m1 m2"
    then show "touches (\<Union>r \<in> set (r # rs). result_idxs r) m m2" by (rule touches_trans) simp
  qed
qed (auto intro!: yields)

lemma next_event_pending: "next_event m None \<noteq> None \<longleftrightarrow> list_ex pending (recipients m)"
  by (auto simp: next_event_min min_over_def pending_in_def list_ex_iff in_queue_def)

lemma pending_statuses: "list_ex pending (recipients m) = list_ex pending_status (statuses m)"
  by (simp add: list_ex_iff)

definition finished :: "task_end \<Rightarrow> bool" where
  "finished t \<longleftrightarrow> \<not> list_ex pending (recipients (message (task_message t)))"

definition task_ok :: "task_end \<Rightarrow> bool" where
  "task_ok t \<longleftrightarrow> (task_removes t \<longleftrightarrow> finished t) \<and> task_status t = (if task_removes t then EventCompleted else EventDeferred)"

lemma attempt_ok: "pred_state task_ok (attempt env show_response mw)"
proof -
  have "task_ok (if next_event m None \<noteq> None
            then \<lparr>task_removes = False, task_message = mw\<lparr>message := m\<rparr>, task_status = EventDeferred, task_sessions = ss\<rparr>
            else \<lparr>task_removes = True, task_message = mw\<lparr>message := m\<rparr>, task_status = EventCompleted, task_sessions = ss\<rparr>)" for m ss
    using next_event_pending [of m] by (simp add: task_ok_def finished_def)
  then show ?thesis unfolding attempt_def by (intro yields_seq yields_return)
qed

lemma has_pending_delivery_yes:
  assumes "has_pending_delivery now mw = (p, mw')"
  shows "p \<noteq> PendingNo \<longleftrightarrow> list_ex pending (recipients (message mw'))"
    and "queue_name mw' = queue_name mw"
    and "recipients (message mw') = map (expire_rcpt (created (message mw)) now) (recipients (message mw))"
  using assms by (auto simp: has_pending_delivery_def Let_def split: if_splits)

lemma limit_sender_pending:
  "list_ex pending (recipients (message (limit_sender mw now t))) = list_ex pending (recipients (message mw))"
proof -
  have "pending (if due_rcpt n now r then rate_limited t r else r) = pending r" for n r
    by (simp add: rate_limited_def due_rcpt_def)
  then show ?thesis by (simp add: limit_sender_def list_ex_iff del: if_image_distrib)
qed

lemma continue_task_ok:
  assumes "p \<noteq> PendingNo \<longleftrightarrow> list_ex pending (recipients (message mw))"
  shows "pred_state task_ok (continue_task env show_response name p mw)"
  using assms unfolding continue_task_def
  by (auto intro!: yields attempt_ok simp: task_ok_def finished_def requeue_def limit_sender_pending split: option.splits)

text \<open>
  C26. Nothing is removed before it is finished: a task tells the spool to remove the message exactly
  if every recipient is delivered to or has failed for good, and to save it otherwise; and it
  reports to the queue manager accordingly.
\<close>

theorem removed_when_finished:
  assumes "notify_bits_ok (notify_bits (session env))"
  shows "pred_state (\<lambda>t. task_removes t = finished t \<and> task_status t = (if finished t then EventCompleted else EventDeferred))
    (deliver_task env show_response name mw)"
proof -
  have "pred_state task_ok (send_dsn env (message mw1) \<bind> (\<lambda>m. continue_task env show_response name p (mw1\<lparr>message := m\<rparr>)))"
    if hp: "has_pending_delivery now mw = (p, mw1)" for now p mw1
  proof (rule yields_bind [OF send_dsn_statuses [OF assms]])
    fix m assume "statuses m = statuses (message mw1)"
    with has_pending_delivery_yes(1) [OF hp] show "pred_state task_ok (continue_task env show_response name p (mw1\<lparr>message := m\<rparr>))"
      by (intro continue_task_ok) (simp add: pending_statuses)
  qed
  then have "pred_state task_ok (deliver_task env show_response name mw)"
    unfolding deliver_task_def by (auto intro!: yields_seq split: prod.splits)
  then show ?thesis by (rule yields_mono) (auto simp: task_ok_def)
qed

text \<open>The status of the recipients that were finished before.\<close>

definition keeps_final :: "message \<Rightarrow> message \<Rightarrow> bool" where
  "keeps_final m m' \<longleftrightarrow> length (recipients m') = length (recipients m)
    \<and> (\<forall>i < length (recipients m). \<not> pending (recipients m ! i) \<longrightarrow> status (recipients m' ! i) = status (recipients m ! i))"

lemma keeps_final_trans: "keeps_final m m' \<Longrightarrow> keeps_final m' m'' \<Longrightarrow> keeps_final m m''"
  by (auto simp: keeps_final_def)

lemma keeps_final_statuses:
  assumes "statuses m' = statuses m"
  shows "keeps_final m m'"
proof -
  have len: "length (recipients m') = length (recipients m)" using assms by (metis length_map)
  have "status (recipients m' ! i) = status (recipients m ! i)" if "i < length (recipients m)" for i
    using arg_cong [OF assms, of "\<lambda>xs. xs ! i"] that len by simp
  with len show ?thesis by (simp add: keeps_final_def)
qed

lemma keeps_final_map:
  assumes "\<And>r. \<not> pending r \<Longrightarrow> status (f r) = status r" and "recipients m' = map f (recipients m)"
  shows "keeps_final m m'"
  using assms by (simp add: keeps_final_def)

lemma attempt_keeps_final:
  assumes "delivery_env_ok env" and "notify_bits_ok (notify_bits (session env))"
  shows "pred_state (\<lambda>t. keeps_final (message mw) (message (task_message t))) (attempt env show_response mw)"
  unfolding attempt_def
proof (rule yields_seq, rule yields_bind [OF due_dealt_with [OF assms(1)]])
  let ?m = "message mw"
  fix now and out :: "delivery_result list \<times> session_log list"
  assume out: "\<forall>i. i < length (recipients ?m) \<and> due_rcpt (queue_name mw) now (recipients ?m ! i)
        \<longleftrightarrow> (\<exists>r \<in> set (fst out). i \<in> result_idxs r)"
  show "pred_state (\<lambda>t. keeps_final ?m (message (task_message t)))
    (do { m \<leftarrow> apply_results env (fst out) ?m;
          m \<leftarrow> send_dsn env m;
          State_Monad.return
           (if next_event m None \<noteq> None
            then \<lparr>task_removes = False, task_message = mw\<lparr>message := m\<rparr>, task_status = EventDeferred, task_sessions = snd out\<rparr>
            else \<lparr>task_removes = True, task_message = mw\<lparr>message := m\<rparr>, task_status = EventCompleted, task_sessions = snd out\<rparr>) })"
  proof (rule yields_bind [OF apply_results_touch])
    fix m1 assume t: "touches (\<Union>r \<in> set (fst out). result_idxs r) ?m m1"
    have "i \<notin> (\<Union>r \<in> set (fst out). result_idxs r)" if "\<not> pending (recipients ?m ! i)" for i
      using out that unfolding due_rcpt_def by blast
    with t have k: "keeps_final ?m m1" by (simp add: keeps_final_def touches_def)
    show "pred_state (\<lambda>t. keeps_final ?m (message (task_message t)))
      (send_dsn env m1 \<bind> (\<lambda>m. State_Monad.return
           (if next_event m None \<noteq> None
            then \<lparr>task_removes = False, task_message = mw\<lparr>message := m\<rparr>, task_status = EventDeferred, task_sessions = snd out\<rparr>
            else \<lparr>task_removes = True, task_message = mw\<lparr>message := m\<rparr>, task_status = EventCompleted, task_sessions = snd out\<rparr>)))"
    proof (rule yields_bind [OF send_dsn_statuses [OF assms(2)]], rule yields_return)
      fix m2 assume "statuses m2 = statuses m1"
      from keeps_final_trans [OF k keeps_final_statuses [OF this]]
      show "keeps_final ?m (message (task_message
           (if next_event m2 None \<noteq> None
            then \<lparr>task_removes = False, task_message = mw\<lparr>message := m2\<rparr>, task_status = EventDeferred, task_sessions = snd out\<rparr>
            else \<lparr>task_removes = True, task_message = mw\<lparr>message := m2\<rparr>, task_status = EventCompleted, task_sessions = snd out\<rparr>)))"
        by simp
    qed
  qed
qed

lemma continue_keeps_final:
  assumes "delivery_env_ok env" and "notify_bits_ok (notify_bits (session env))"
  shows "pred_state (\<lambda>t. keeps_final (message mw) (message (task_message t))) (continue_task env show_response name p mw)"
proof -
  have "keeps_final (message mw) (message (task_message (requeue (limit_sender mw now t))))" for now t
    unfolding requeue_def limit_sender_def
    by (rule keeps_final_map [where f = "\<lambda>r. if due_rcpt (queue_name mw) now r then rate_limited t r else r"])
      (auto simp: due_rcpt_def)
  moreover have "keeps_final m m" for m by (simp add: keeps_final_def)
  ultimately show ?thesis
    unfolding continue_task_def
    by (auto intro!: yields attempt_keeps_final [OF assms] simp: requeue_def split: option.splits)
qed

text \<open>
  C19. What is final stays final: a task never changes the status of a recipient whose delivery has
  completed or failed, and it neither adds nor removes recipients, so each keeps its position.
\<close>

theorem final_status_kept:
  assumes "delivery_env_ok env" and "notify_bits_ok (notify_bits (session env))"
  shows "pred_state (\<lambda>t. keeps_final (message mw) (message (task_message t))) (deliver_task env show_response name mw)"
proof -
  have "pred_state (\<lambda>t. keeps_final (message mw) (message (task_message t)))
      (send_dsn env (message mw1) \<bind> (\<lambda>m. continue_task env show_response name p (mw1\<lparr>message := m\<rparr>)))"
    if hp: "has_pending_delivery now mw = (p, mw1)" for now p mw1
  proof (rule yields_bind [OF send_dsn_statuses [OF assms(2)]], rule yields_mono [OF continue_keeps_final [OF assms]])
    have k: "keeps_final (message mw) (message mw1)"
      by (rule keeps_final_map [OF _ has_pending_delivery_yes(3) [OF hp]]) (simp add: expire_rcpt_def)
    fix m t assume "statuses m = statuses (message mw1)"
      and "keeps_final (message (mw1\<lparr>message := m\<rparr>)) (message (task_message t))"
    with keeps_final_trans [OF keeps_final_trans [OF k keeps_final_statuses]] show "keeps_final (message mw) (message (task_message t))"
      by simp
  qed
  then show ?thesis
    unfolding deliver_task_def by (auto intro!: yields_seq split: prod.splits)
qed

section \<open>The end of the attempts\<close>

text \<open>When a recipient has had its attempts, or its time.\<close>

definition used_up :: "('p, 'w) delivery_env \<Rightarrow> u64 \<Rightarrow> recipient \<Rightarrow> bool" where
  "used_up env created_at r \<longleftrightarrow>
    (case expires r of
       Attempts n \<Rightarrow> n \<le> inner (retry r)
     | Ttl t \<Rightarrow> pred_state (\<lambda>now. created_at + t \<le> now) (clock env))"

definition given_up :: "recipient \<Rightarrow> rcpt_status" where
  "given_up r =
    (case status r of
       TemporaryFailure failure \<Rightarrow> PermanentFailure failure
     | _ \<Rightarrow> permanent (domain_part (address r)) (Io ''Message expired without any delivery attempts made.''))"

lemma clock_expires:
  assumes "used_up env c r" and "pending r"
  shows "pred_state (\<lambda>now. status (expire_rcpt c now r) = given_up r) (clock env)"
proof -
  have "pred_state (\<lambda>now. is_expired c now r) (clock env)"
    using assms(1) by (cases "expires r") (auto simp: used_up_def is_expired_def intro: yields_any)
  then show ?thesis
    by (rule yields_mono)
      (use assms(2) in \<open>auto simp: expire_rcpt_def expired_status_def given_up_def split: status.splits\<close>)
qed

lemma given_up_final: "\<not> pending_status (given_up r)"
  by (simp add: given_up_def split: status.split)

text \<open>
  C24. Attempts come to an end: a pending recipient that has been tried as often as its schedule allows,
  or whose time has passed, is given up by the next task, whatever the world answers to that task and
  whichever queue it is for: its last temporary failure has become permanent, and if it was never
  tried it fails with the message that says so.
\<close>

theorem attempts_end:
  assumes "delivery_env_ok env" and "notify_bits_ok (notify_bits (session env))"
    and "i < length (recipients (message mw))" and "pending (recipients (message mw) ! i)"
    and "used_up env (created (message mw)) (recipients (message mw) ! i)"
  shows "pred_state (\<lambda>t. status (recipients (message (task_message t)) ! i) = given_up (recipients (message mw) ! i))
    (deliver_task env show_response name mw)"
  unfolding deliver_task_def
proof (rule yields_bind [OF clock_expires [OF assms(5,4)]])
  fix now assume e: "status (expire_rcpt (created (message mw)) now (recipients (message mw) ! i)) = given_up (recipients (message mw) ! i)"
  obtain p mw1 where hp: "has_pending_delivery now mw = (p, mw1)" by (metis prod.exhaust)
  have s1: "i < length (recipients (message mw1))" "status (recipients (message mw1) ! i) = given_up (recipients (message mw) ! i)"
    using has_pending_delivery_yes(3) [OF hp] assms(3) e by simp_all
  have "pred_state (\<lambda>t. status (recipients (message (task_message t)) ! i) = given_up (recipients (message mw) ! i))
      (send_dsn env (message mw1) \<bind> (\<lambda>m. continue_task env show_response name p (mw1\<lparr>message := m\<rparr>)))"
  proof (rule yields_bind [OF send_dsn_statuses [OF assms(2)]], rule yields_mono [OF continue_keeps_final [OF assms(1,2)]])
    fix m t assume m: "statuses m = statuses (message mw1)"
      and t: "keeps_final (message (mw1\<lparr>message := m\<rparr>)) (message (task_message t))"
    from keeps_final_trans [OF keeps_final_statuses [OF m]] t have "keeps_final (message mw1) (message (task_message t))" by simp
    with s1 given_up_final show "status (recipients (message (task_message t)) ! i) = given_up (recipients (message mw) ! i)"
      unfolding keeps_final_def by simp
  qed
  then show "pred_state (\<lambda>t. status (recipients (message (task_message t)) ! i) = given_up (recipients (message mw) ! i))
      (case has_pending_delivery now mw of (pend, mw) \<Rightarrow>
        send_dsn env (message mw) \<bind> (\<lambda>m. continue_task env show_response name pend (mw\<lparr>message := m\<rparr>)))"
    using hp by simp
qed

text \<open>
  A temporary failure counts as an attempt; a rate limit does not, so a recipient whose limits are
  always reached is only given up by its time.
\<close>

lemma failure_counts:
  assumes "pending_status s" and "i < length (recipients m)"
  shows "pred_state (\<lambda>m'. inner (retry (recipients m' ! i)) = inner (retry (recipients m ! i)) + 1) (set_rcpt_status env s i m)"
  using assms unfolding set_rcpt_status_def Let_def
  by (auto intro!: yields simp: update_rcpt_def reschedule_def)

lemma rate_limit_not_counted: "inner (retry (rate_limited t r)) = inner (retry r)"
  by (simp add: rate_limited_def)

section \<open>Weak spots\<close>

text \<open>Without STARTTLS in the strategy, neither REQUIRETLS nor a policy of the domain is looked at.\<close>

lemma disabled_tls_ignores_policies:
  "\<not> try_start_tls tls \<Longrightarrow>
   try_tls env show_response ctx tls dane hop e params caps c = State_Monad.return (open_session env ctx e params c)"
  by (simp add: try_tls_def)

text \<open>A policy that is only tested makes TLS as strict as one that is enforced.\<close>

lemma testing_policy_is_strict:
  "ctx_sts ctx = Some p \<Longrightarrow> mode p = Testing \<Longrightarrow> wants_strict_tls env ctx tls dane"
  by (simp add: wants_strict_tls_def)

text \<open>
  With TLS from the start, DANE records turn off the verification of certificates by name, and are
  not verified themselves.
\<close>

lemma implicit_tls_skips_dane:
  assumes "implicit_tls hop" and "has_end_entities t"
    and "into_tls (client (session env)) DummyVerify (env_mx e) c = Inr c'"
    and "read_greeting (client (session env)) (env_mx e) c' = (Inr (), c'')"
  shows "use_connection env show_response ctx tls (Some t) hop e params c = State_Monad.return (open_session env ctx e params c'')"
  using assms by (simp add: use_connection_def tls_connector_for_def)

text \<open>
  A result for the whole session comes after those of its recipients and wins: the recipient that was
  to be tried again later fails for good with the message.
\<close>

lemma greylisted_recipient_bounced:
  "fst (test_session [reply_line ''250 mx'', reply_line ''250 ok'', reply_line ''450 later'', reply_line ''250 ok'',
      reply_line ''354 go'', reply_line ''554 no''])
   = [AccountResult (temporary ''mx'' (unexpected (''RCPT TO:<'' @ address test_rcpt @ ''>'') \<lparr>code = 450, esc = (0, 0, 0), response_text = ''later'' @ [ch_cr]\<rparr>)) 0,
      DomainResult (permanent ''mx'' (unexpected ''DATA'' \<lparr>code = 554, esc = (0, 0, 0), response_text = ''no'' @ [ch_cr]\<rparr>)) [0, 1]]"
  by code_simp

lemma last_result_wins:
  "i < length (recipients m) \<Longrightarrow> \<not> pending_status s' \<Longrightarrow>
   pred_state (\<lambda>m'. status (recipients m' ! i) = s') (apply_results env [AccountResult s i, DomainResult s' [i]] m)"
proof -
  assume i: "i < length (recipients m)" and s: "\<not> pending_status s'"
  have "pred_state (\<lambda>m'. status (recipients m' ! i) = s') (set_rcpt_status env s' i m1)" if "i < length (recipients m1)" for m1
    using s that unfolding set_rcpt_status_def Let_def by (auto intro!: yields simp: update_rcpt_def)
  with i show ?thesis
    by (auto intro!: yields_bind [OF set_status_touches] yields_return)
qed

section \<open>A task evaluated\<close>

text \<open>A server with one local mailbox, and a message for it.\<close>

definition local_env :: "queue_expiry \<Rightarrow> (string, unit) delivery_env" where
  "local_env expiry =
    \<lparr>session = (session_test_env ''hi'')\<lparr>notify_bits := test_env\<lparr>queue_strategies := (\<lambda>_. Some
         \<lparr>strategy_retry = [60], strategy_notify = [3600], strategy_expiry = expiry, virtual_queue = DEFAULT_QUEUE_NAME\<rparr>)\<rparr>\<rparr>,
     policies = plain_policy_env, clock = State_Monad.return 200, limiter_applies = (\<lambda>_ _. True),
     rate_exceeded = (\<lambda>l e. State_Monad.return None), sender_limiters = [''s''], rcpt_limiters = [''r''], remote_limiters = [],
     route_expr = (\<lambda>_ _. Some ''local''), routing_strategies = (\<lambda>_. None), tls_expr = (\<lambda>_. None), tls_strategies = (\<lambda>_. None),
     connection_expr = (\<lambda>_. None), connection_strategies = (\<lambda>_. None), tls_report_expr = (\<lambda>_. None),
     tlsrpt_query = (\<lambda>_. State_Monad.return (Inl InvalidRecordType)), schedule_report = (\<lambda>_. State_Monad.return ()),
     sts_queries = (\<lambda>_. State_Monad.return (Inl InvalidRecordType, None, FetchTooLarge)),
     mx_query = (\<lambda>_. State_Monad.return (Inr [])), ip_queries = (\<lambda>_. State_Monad.return (Inr [], Inr [])),
     tlsa_query = (\<lambda>_. State_Monad.return (Inr [])), connect = (\<lambda>_ _ _. State_Monad.return (Inl Timeout)),
     deliver_message = (\<lambda>msg. State_Monad.return (map (\<lambda>_. LocalSuccess) (ingest_recipients msg))),
     get_dsn_blob = (\<lambda>_. State_Monad.return None), send_report = (\<lambda>_. State_Monad.return ()),
     shuffle_hosts = (\<lambda>xs. xs), pick_source = (\<lambda>_. 0), order_routes = rev, server_name = ''here''\<rparr>"

definition local_task :: message_wrapper where
  "local_task = \<lparr>queue_id = 7, queue_name = DEFAULT_QUEUE_NAME, is_multi_queue = False, span_id = 0,
     message = test_message [test_rcpt, test_rcpt\<lparr>status := permanent ''mx'' RateLimited\<rparr>]\<rparr>"

lemma local_env_ok [simp]: "delivery_env_ok (local_env x)" "notify_bits_ok (notify_bits (session (local_env x)))"
  by (auto simp: delivery_env_ok_def local_env_def session_test_env_def notify_bits_ok_def test_env_def RCPT_DSN_SENT_def intro: yields_return)

lemma local_task_run:
  "task_removes (fst (run_state (deliver_task (local_env (Ttl 5000)) (\<lambda>_. []) DEFAULT_QUEUE_NAME local_task) ()))"
  "due_rcpt DEFAULT_QUEUE_NAME 200 test_rcpt"
  by code_simp+

theorem due_recipients_dealt_with_witness:
  "\<exists>r \<in> set (fst (fst (run_state (deliver_routes (local_env (Ttl 5000)) (\<lambda>_. []) (message local_task)
      (order_routes (local_env (Ttl 5000)) (group_routes (local_env (Ttl 5000)) DEFAULT_QUEUE_NAME 200 (message local_task)))) ()))).
    0 \<in> result_idxs r"
proof -
  have "0 < length (recipients (message local_task)) \<and> due_rcpt DEFAULT_QUEUE_NAME 200 (recipients (message local_task) ! 0)"
    using local_task_run(2) by (simp add: local_task_def test_message_def)
  then show ?thesis
    using pred_state_run_state [OF due_recipients_dealt_with [OF local_env_ok(1), where m = "message local_task"
        and name = DEFAULT_QUEUE_NAME and now = 200 and show_response = "\<lambda>_. []"]]
    by blast
qed

theorem removed_when_finished_witness:
  "finished (fst (run_state (deliver_task (local_env (Ttl 5000)) (\<lambda>_. []) DEFAULT_QUEUE_NAME local_task) ()))"
  using pred_state_run_state [OF removed_when_finished [OF local_env_ok(2), where show_response = "\<lambda>_. []"
        and name = DEFAULT_QUEUE_NAME and mw = local_task]]
    local_task_run(1) by blast

theorem final_status_kept_witness:
  "status (recipients (message (task_message
      (fst (run_state (deliver_task (local_env (Ttl 5000)) (\<lambda>_. []) DEFAULT_QUEUE_NAME local_task) ())))) ! 1) = permanent ''mx'' RateLimited"
  using pred_state_run_state [OF final_status_kept [OF local_env_ok, where mw = local_task
        and show_response = "\<lambda>_. []" and name = DEFAULT_QUEUE_NAME]]
  unfolding keeps_final_def by (auto simp: local_task_def test_message_def)

theorem attempts_end_witness:
  "status (recipients (message (task_message (fst (run_state (deliver_task (local_env (Attempts 3)) (\<lambda>_. []) DEFAULT_QUEUE_NAME
      (local_task\<lparr>message := test_message
        [test_rcpt\<lparr>status := temporary ''mx'' RateLimited, expires := Attempts 3, retry := \<lparr>due = 100, inner = 3\<rparr>\<rparr>]\<rparr>)) ())))) ! 0)
    = permanent ''mx'' RateLimited"
proof -
  let ?r = "test_rcpt\<lparr>status := temporary ''mx'' RateLimited, expires := Attempts 3, retry := \<lparr>due = 100, inner = 3\<rparr>\<rparr>"
  let ?mw = "local_task\<lparr>message := test_message [?r]\<rparr>"
  have r: "recipients (message ?mw) = [?r]" by (simp add: test_message_def)
  have "used_up (local_env (Attempts 3)) (created (message ?mw)) (recipients (message ?mw) ! 0)"
    unfolding r by (simp add: used_up_def)
  then have u: "used_up (local_env (Attempts 3)) (created (message ?mw)) (recipients (message ?mw) ! 0)" .
  have "given_up ?r = permanent ''mx'' RateLimited" by (simp add: given_up_def temporary_def permanent_def)
  moreover have "0 < length (recipients (message ?mw))" "pending (recipients (message ?mw) ! 0)"
    unfolding r by (simp_all add: temporary_def)
  ultimately show ?thesis
    using pred_state_run_state [OF attempts_end [OF local_env_ok _ _ u, where show_response = "\<lambda>_. []" and name = DEFAULT_QUEUE_NAME]]
    unfolding r by simp
qed

end
