(* ===== verification/Store_Lookup.thy ===== *)
theory Store_Lookup
  imports Store_Writes
begin

text \<open>
  The in-memory store on top of the data store (\<open>crates/store/src/dispatch/lookup.rs\<close>, the
  \<open>InMemoryStore::Store\<close> branch of every operation): values and counters that expire, rate limits
  in fixed windows, and locks. The other branches hand the call to Redis, to a static table or to
  an HTTP list and are not modelled.

  \<open>now\<close> is the reading of the clock in the call. A word holds what the source reads as a signed
  64-bit counter.
\<close>

section \<open>Keys and values\<close>

record 'v key_value =
  kv_key :: bytes
  kv_value :: 'v
  kv_expires :: "u64 option"

definition build_key :: "u8 \<Rightarrow> bytes \<Rightarrow> bytes" where
  "build_key prefix key = prefix # key"

definition key_value_new :: "bytes \<Rightarrow> 'v \<Rightarrow> 'v key_value" where
  "key_value_new key v = \<lparr>kv_key = key, kv_value = v, kv_expires = None\<rparr>"

definition with_prefix :: "u8 \<Rightarrow> bytes \<Rightarrow> 'v \<Rightarrow> 'v key_value" where
  "with_prefix prefix key v = key_value_new (build_key prefix key) v"

definition expires_in :: "u64 \<Rightarrow> 'v key_value \<Rightarrow> 'v key_value" where
  "expires_in t kv = kv\<lparr>kv_expires := Some t\<rparr>"

abbreviation value_at :: "bytes \<Rightarrow> value_class" where
  "value_at key \<equiv> InMemory (InMemoryKey key)"

abbreviation counter_at :: "bytes \<Rightarrow> value_class" where
  "counter_at key \<equiv> InMemory (InMemoryCounter key)"

text \<open>\<open>Store::get_value\<close> and \<open>Store::get_counter\<close>.\<close>

definition get_value :: "(bytes \<Rightarrow> store_error + 'a) \<Rightarrow> value_class \<Rightarrow> database \<Rightarrow> store_error + 'a option" where
  "get_value decode class d = (case d (vkey class) of None \<Rightarrow> Inr None | Some bs \<Rightarrow> map_sum id Some (decode bs))"

definition get_counter :: "value_class \<Rightarrow> database \<Rightarrow> store_error + u64" where
  "get_counter class d =
    (case d (vkey class) of
       None \<Rightarrow> Inr 0
     | Some bs \<Rightarrow> (case deserialize_i64_le bs of Some n \<Rightarrow> Inr n | None \<Rightarrow> Inl DataCorruption))"

definition deserialize_u64 :: "bytes \<Rightarrow> store_error + u64" where
  "deserialize_u64 bs = (if length bs = 8 then Inr (word_of_nat (from_be_bytes bs)) else Inl DataCorruption)"

text \<open>\<open>LookupValue\<close>: a value after the time at which it expires.\<close>

definition deserialize_lookup :: "u64 \<Rightarrow> (bytes \<Rightarrow> store_error + 'a) \<Rightarrow> bytes \<Rightarrow> store_error + 'a option" where
  "deserialize_lookup now decode bs =
    (case deserialize_be_u64 bs 0 of
       None \<Rightarrow> Inl DataCorruption
     | Some expires \<Rightarrow> if expires > now then map_sum id Some (decode (drop 8 bs)) else Inr None)"

section \<open>The operations\<close>

definition write_ops :: "operation list \<Rightarrow> database \<Rightarrow> store_error + assigned_ids \<times> database" where
  "write_ops os d = commit (build_all (fold any_op os new_batch)) d"

definition key_set :: "u64 \<Rightarrow> bytes key_value \<Rightarrow> database \<Rightarrow> store_error + database" where
  "key_set now kv d =
    map_sum id snd (write_ops
      [OpValue (value_at (kv_key kv))
         (Set (be64 (case kv_expires kv of None \<Rightarrow> - 1 | Some e \<Rightarrow> now + e) @ kv_value kv))] d)"

definition expiry_ops :: "u64 \<Rightarrow> 'v key_value \<Rightarrow> operation list" where
  "expiry_ops now kv =
    (case kv_expires kv of
       Some e \<Rightarrow> [OpValue (value_at (kv_key kv)) (Set (be64 0 @ be64 (now + e)))] | None \<Rightarrow> [])"

definition counter_incr :: "u64 \<Rightarrow> u64 key_value \<Rightarrow> bool \<Rightarrow> database \<Rightarrow> store_error + u64 \<times> database" where
  "counter_incr now kv return_value d =
    (if return_value then
       (case write_ops (expiry_ops now kv @ [OpValue (counter_at (kv_key kv)) (AddAndGet (kv_value kv))]) d of
          Inl e \<Rightarrow> Inl e
        | Inr (a, d') \<Rightarrow> (case last_counter_id a of Some n \<Rightarrow> Inr (n, d') | None \<Rightarrow> Inl UnexpectedError))
     else
       map_sum id (\<lambda>(_, d'). (0, d'))
         (write_ops (expiry_ops now kv @ [OpValue (counter_at (kv_key kv)) (AtomicAdd (kv_value kv))]) d))"

definition key_delete :: "bytes \<Rightarrow> database \<Rightarrow> store_error + database" where
  "key_delete key d = map_sum id snd (write_ops [OpValue (value_at key) Clear] d)"

definition counter_delete :: "bytes \<Rightarrow> database \<Rightarrow> store_error + database" where
  "counter_delete key d = map_sum id snd (write_ops [OpValue (counter_at key) Clear] d)"

definition key_get :: "u64 \<Rightarrow> (bytes \<Rightarrow> store_error + 'a) \<Rightarrow> bytes \<Rightarrow> database \<Rightarrow> store_error + 'a option" where
  "key_get now decode key d =
    map_sum id (\<lambda>v. Option.bind v id) (get_value (deserialize_lookup now decode) (value_at key) d)"

definition key_exists :: "u64 \<Rightarrow> bytes \<Rightarrow> database \<Rightarrow> store_error + bool" where
  "key_exists now key d =
    map_sum id (\<lambda>v. v = Some (Some ())) (get_value (deserialize_lookup now (\<lambda>_. Inr ())) (value_at key) d)"

definition counter_get :: "bytes \<Rightarrow> database \<Rightarrow> store_error + u64" where
  "counter_get key d = get_counter (counter_at key) d"

text \<open>
  \<open>is_rate_allowed\<close>: one counter for each window of the period; \<open>now'\<close> is the reading of the clock
  that \<open>counter_incr\<close> makes. The result is \<open>None\<close> where the source divides by a period of zero
  and panics.
\<close>

record rate =
  requests :: u64
  period :: u64

definition rate_bucket :: "u8 \<Rightarrow> bytes \<Rightarrow> u64 \<Rightarrow> bytes" where
  "rate_bucket prefix key range_start = prefix # key @ be64 range_start"

definition is_rate_allowed ::
  "u64 \<Rightarrow> u64 \<Rightarrow> u8 \<Rightarrow> bytes \<Rightarrow> rate \<Rightarrow> bool \<Rightarrow> database \<Rightarrow> (store_error + u64 option \<times> database) option" where
  "is_rate_allowed now now' prefix key rt soft_check d =
    (if period rt = 0 then None
     else
       let range_start = now div period rt;
           range_end = range_start * period rt + period rt;
           expires = range_end - now;
           bucket = rate_bucket prefix key range_start
       in Some (case (if \<not> soft_check then counter_incr now' (expires_in expires (key_value_new bucket 1)) True d
                      else map_sum id (\<lambda>n. (n + 1, d)) (counter_get bucket d)) of
                  Inl e \<Rightarrow> Inl e
                | Inr (n, d') \<Rightarrow> Inr (if n <=s requests rt then None else Some expires, d')))"

text \<open>
  \<open>try_lock\<close> in its steps, each of which other workers can come between: the lock is read - one that can
  not be read is cleared, in a transaction of its own -, the clock is read, and the new lock is written if the
  old one is as it was read.
\<close>

definition read_lock :: "bytes \<Rightarrow> database \<Rightarrow> store_error + u64 option" where
  "read_lock key d = get_value deserialize_u64 (value_at key) d"

definition clear_lock :: "bytes \<Rightarrow> database \<Rightarrow> store_error + database" where
  "clear_lock key d = map_sum id snd (write_ops [OpValue (value_at key) Clear] d)"

definition lock_is_free :: "u64 \<Rightarrow> u64 option \<Rightarrow> bool" where
  "lock_is_free now lock_expiry \<longleftrightarrow> (case lock_expiry of Some t \<Rightarrow> \<not> t > now | None \<Rightarrow> True)"

definition write_lock :: "bytes \<Rightarrow> u64 option \<Rightarrow> u64 \<Rightarrow> database \<Rightarrow> store_error + bool \<times> database" where
  "write_lock key lock_expiry until d =
    (case commit (build_all (set_value (value_at key) (be64 until)
            (assert_value_op (value_at key) (case lock_expiry of Some t \<Rightarrow> AssertU64 t | None \<Rightarrow> AssertNone) new_batch))) d of
       Inr (_, d') \<Rightarrow> Inr (True, d')
     | Inl AssertValueFailed \<Rightarrow> Inr (False, d)
     | Inl e \<Rightarrow> Inl e)"

definition lock_unless_held :: "u64 \<Rightarrow> bytes \<Rightarrow> u64 \<Rightarrow> u64 option \<Rightarrow> database \<Rightarrow> store_error + bool \<times> database" where
  "lock_unless_held now key duration lock_expiry d =
    (if \<not> lock_is_free now lock_expiry then Inr (False, d) else write_lock key lock_expiry (now + duration) d)"

definition try_lock :: "u64 \<Rightarrow> u8 \<Rightarrow> bytes \<Rightarrow> u64 \<Rightarrow> database \<Rightarrow> store_error + bool \<times> database" where
  "try_lock now prefix key duration d =
    (let key = build_key prefix key in
     case read_lock key d of
       Inr lock_expiry \<Rightarrow> lock_unless_held now key duration lock_expiry d
     | Inl DataCorruption \<Rightarrow>
         (case clear_lock key d of Inl e \<Rightarrow> Inl e | Inr d \<Rightarrow> lock_unless_held now key duration None d)
     | Inl e \<Rightarrow> Inl e)"

definition remove_lock :: "u8 \<Rightarrow> bytes \<Rightarrow> database \<Rightarrow> store_error + database" where
  "remove_lock prefix key d = key_delete (build_key prefix key) d"

text \<open>
  \<open>purge_in_memory_store\<close>: \<open>scan\<close> is what the iteration over the values yields. Deletions are
  written in batches.
\<close>

fun find_expired :: "u64 \<Rightarrow> (bytes \<times> bytes) list \<Rightarrow> store_error + bytes list \<times> bytes list" where
  "find_expired now [] = Inr ([], [])"
| "find_expired now ((key, v) # scan) =
    (case deserialize_be_u64 v 0 of
       None \<Rightarrow> Inl DataCorruption
     | Some expiry \<Rightarrow>
        (case (if expiry = 0 then map_option (\<lambda>e. (False, e \<le> now)) (deserialize_be_u64 v 8) else Some (expiry \<le> now, False)) of
           None \<Rightarrow> Inl DataCorruption
         | Some (del_key, del_counter) \<Rightarrow>
            map_sum id (\<lambda>(ks, cs). (if del_key then key # ks else ks, if del_counter then key # cs else cs))
              (find_expired now scan)))"

fun clear_in_batches :: "(bytes \<Rightarrow> value_class list) \<Rightarrow> bytes list \<Rightarrow> batch_builder \<Rightarrow> database \<Rightarrow> store_error + database" where
  "clear_in_batches classes [] b d =
    (if batch_is_empty b then Inr d else map_sum id snd (commit (build_all b) d))"
| "clear_in_batches classes (k # ks) b d =
    (let b = fold (\<lambda>c. any_op (OpValue c Clear)) (classes k) b in
     if is_large_batch b then
       (case commit (build_all b) d of Inl e \<Rightarrow> Inl e | Inr (_, d') \<Rightarrow> clear_in_batches classes ks new_batch d')
     else clear_in_batches classes ks b d)"

definition purge_in_memory_store :: "u64 \<Rightarrow> (bytes \<times> bytes) list \<Rightarrow> database \<Rightarrow> store_error + database" where
  "purge_in_memory_store now scan d =
    (case find_expired now scan of
       Inl e \<Rightarrow> Inl e
     | Inr (ks, cs) \<Rightarrow>
        (case clear_in_batches (\<lambda>k. [value_at k]) ks new_batch d of
           Inl e \<Rightarrow> Inl e
         | Inr d' \<Rightarrow> clear_in_batches (\<lambda>k. [counter_at k, value_at k]) cs new_batch d'))"

section \<open>What the writes do\<close>

lemma vkey_in_memory [simp]:
  "vkey (value_at k) = vkey (value_at k') \<longleftrightarrow> k = k'" "vkey (counter_at k) = vkey (counter_at k') \<longleftrightarrow> k = k'"
  "vkey (value_at k) \<noteq> vkey (counter_at k')" "vkey (counter_at k') \<noteq> vkey (value_at k)"
  by (simp_all add: vkey_inject)

lemma builds_any_op: "builds ws b \<Longrightarrow> builds (ws @ [(c, op)]) (any_op (OpValue c op) b)"
  by (simp add: builds_def any_op_def push_op_def)

lemma builds_any_ops: "builds ws b \<Longrightarrow> builds (ws @ ws') (fold any_op (map (\<lambda>(c, op). OpValue c op) ws') b)"
proof (induction ws' arbitrary: ws b)
  case (Cons w ws')
  then show ?case using Cons.IH [of "ws @ [w]"] builds_any_op [of ws b "fst w" "snd w"] by (cases w) simp
qed simp

lemma write_ops_plain:
  assumes "list_all (\<lambda>(c, op). plain_op op) ws"
  shows "write_ops (map (\<lambda>(c, op). OpValue c op) ws) d =
    (case write_all ws d of Inl e \<Rightarrow> Inl e | Inr d' \<Rightarrow> Inr (no_ids, d'))"
  unfolding write_ops_def using builds_any_ops [OF builds_new, of ws] assms
  by (intro commit_writes) (auto simp: list_all_iff)

lemmas write_op_plain = write_ops_plain [of "[(c, op)]" for c op, simplified]

lemma write_ops_exec:
  "write_ops os d =
    (case exec_ops False os (begin_txn d) of Inl e \<Rightarrow> Inl e | Inr t \<Rightarrow> Inr (txn_result t, db t))"
proof -
  have "ops (fold any_op os b) = ops b @ os \<and> batch_changes (fold any_op os b) = batch_changes b
      \<and> changed_collections (fold any_op os b) = changed_collections b" for b
    by (induction os arbitrary: b) (simp_all add: any_op_def push_op_def)
  then show ?thesis
    by (simp add: write_ops_def commit_def build_all_def serialize_batch_changes_def new_batch_def Let_def)
qed

lemma counter_incr_value:
  "counter_incr now kv True d =
    (case counter_get (kv_key kv) d of
       Inl e \<Rightarrow> Inl e
     | Inr n \<Rightarrow> Inr (n + kv_value kv,
         (case kv_expires kv of
            Some e \<Rightarrow> d(vkey (value_at (kv_key kv)) := Some (be64 0 @ be64 (now + e)))
          | None \<Rightarrow> d)(vkey (counter_at (kv_key kv)) := Some (le64 (n + kv_value kv)))))"
  by (auto simp: counter_incr_def write_ops_exec expiry_ops_def exec_op_def exec_value_def
      counter_get_def get_counter_def begin_txn_def txn_key_def put_def vkey_def [symmetric] no_ids_def
      push_counter_id_def last_counter_id_def last_option_def map_filter_simps
      split: option.split)

section \<open>Rate limits\<close>

text \<open>A sequence of calls for one key, each with its readings of the clock; \<open>None\<close> if one of them fails.\<close>

fun rate_calls :: "u8 \<Rightarrow> bytes \<Rightarrow> rate \<Rightarrow> (u64 \<times> u64) list \<Rightarrow> database \<Rightarrow> u64 option list option" where
  "rate_calls prefix key rt [] d = Some []"
| "rate_calls prefix key rt ((now, now') # ts) d =
    (case is_rate_allowed now now' prefix key rt False d of
       Some (Inr (r, d')) \<Rightarrow> map_option ((#) r) (rate_calls prefix key rt ts d')
     | _ \<Rightarrow> None)"

text \<open>The specification: a count for each window.\<close>

fun window_log :: "rate \<Rightarrow> (u64 \<Rightarrow> nat) \<Rightarrow> (u64 \<times> u64) list \<Rightarrow> u64 option list" where
  "window_log rt seen [] = []"
| "window_log rt seen ((now, _) # ts) =
    (let w = now div period rt in
     (if seen w < unat (requests rt) then None else Some (w * period rt + period rt - now))
     # window_log rt (seen(w := seen w + 1)) ts)"

definition counts :: "u8 \<Rightarrow> bytes \<Rightarrow> database \<Rightarrow> (u64 \<Rightarrow> nat) \<Rightarrow> bool" where
  "counts prefix key d seen \<longleftrightarrow> (\<forall>w. counter_get (rate_bucket prefix key w) d = Inr (word_of_nat (seen w)))"

lemma rate_bucket_inject [simp]: "rate_bucket p k w = rate_bucket p' k' w' \<longleftrightarrow> p = p' \<and> k = k' \<and> w = w'"
proof -
  have "be64 w = be64 w' \<longleftrightarrow> w = w'" by (rule be64.encode_inject)
  then show ?thesis by (auto simp: rate_bucket_def)
qed

lemma counter_get_le64: "d (vkey (counter_at k)) = Some (le64 n) \<Longrightarrow> counter_get k d = Inr n"
  by (simp add: counter_get_def get_counter_def)

lemma sle_count: "n < 2 ^ 63 \<Longrightarrow> r < 2 ^ 63 \<Longrightarrow> (word_of_nat n :: u64) <=s r \<longleftrightarrow> n \<le> unat r"
  for r :: u64
proof -
  assume n: "n < 2 ^ 63" and r: "r < 2 ^ 63"
  have u: "unat (word_of_nat n :: u64) = n" using n by (simp add: unat_of_nat take_bit_nat_eq_self)
  have s: "sint w = int (unat w)" if "unat w < 2 ^ 63" for w :: u64
  proof -
    have i: "int (unat w) = uint w" by simp
    have "int (unat w) < int (2 ^ 63)" using that by (subst of_nat_less_iff)
    then have "0 \<le> uint w" "uint w < 2 ^ 63" unfolding i by simp_all
    then have "signed_take_bit 63 (uint w) = uint w" by (intro signed_take_bit_int_eq_self) linarith+
    then show ?thesis unfolding i by (simp add: sint_uint)
  qed
  have "r < 2 ^ 63 \<longleftrightarrow> unat r < 2 ^ 63" by (simp add: word_less_nat_alt)
  then have "sint r = int (unat r)" "sint (word_of_nat n :: u64) = int n"
    using s [of r] s [of "word_of_nat n"] u n r by simp_all
  then show ?thesis unfolding word_sle_eq by (simp only: of_nat_le_iff)
qed

lemma rate_step:
  assumes "counts prefix key d seen" and "period rt \<noteq> 0" and "seen w + 1 < 2 ^ 63" and "requests rt < 2 ^ 63"
    and w: "w = now div period rt"
  shows "\<exists>d'. is_rate_allowed now now' prefix key rt False d =
      Some (Inr (if seen w < unat (requests rt) then None else Some (w * period rt + period rt - now), d'))
    \<and> counts prefix key d' (seen(w := seen w + 1))"
proof -
  let ?b = "rate_bucket prefix key w"
  let ?kv = "expires_in (w * period rt + period rt - now) (key_value_new ?b (1 :: u64))"
  let ?d = "d(vkey (value_at ?b) := Some (be64 0 @ be64 (now' + (w * period rt + period rt - now))),
              vkey (counter_at ?b) := Some (le64 (word_of_nat (seen w) + 1)))"
  have b: "counter_get ?b d = Inr (word_of_nat (seen w))" using assms(1) by (simp add: counts_def)
  have i: "counter_incr now' ?kv True d = Inr (word_of_nat (seen w) + 1, ?d)"
    using counter_incr_value [of now' ?kv d] b by (simp add: expires_in_def key_value_new_def)
  have n: "word_of_nat (seen w) + 1 = (word_of_nat (seen w + 1) :: u64)" by simp
  have c: "(word_of_nat (seen w) + 1 :: u64) <=s requests rt \<longleftrightarrow> seen w < unat (requests rt)"
    unfolding n using sle_count [of "seen w + 1" "requests rt"] assms(3,4) by (simp add: Suc_le_eq)
  have "counter_get (rate_bucket prefix key v) ?d = Inr (word_of_nat ((seen(w := seen w + 1)) v))" for v
  proof (cases "v = w")
    case True
    then show ?thesis using counter_get_le64 [of ?d ?b] by simp
  next
    case False
    then have "counter_get (rate_bucket prefix key v) ?d = counter_get (rate_bucket prefix key v) d"
      by (simp add: counter_get_def get_counter_def)
    with False assms(1) show ?thesis by (simp add: counts_def)
  qed
  then have "counts prefix key ?d (seen(w := seen w + 1))" by (simp add: counts_def)
  with i c show ?thesis using assms(2) w by (auto simp: is_rate_allowed_def Let_def)
qed

lemma rate_calls_log:
  assumes "counts prefix key d seen" and "period rt \<noteq> 0" and "requests rt < 2 ^ 63"
    and "\<And>w. seen w + length ts < 2 ^ 63"
  shows "rate_calls prefix key rt ts d = Some (window_log rt seen ts)"
  using assms(1,4)
proof (induction ts arbitrary: d seen)
  case (Cons t ts)
  obtain now now' where t: "t = (now, now')" by (cases t)
  let ?w = "now div period rt"
  have "seen ?w + 1 < 2 ^ 63" using Cons.prems(2) [of ?w] by simp
  from rate_step [OF Cons.prems(1) assms(2) this assms(3) refl, of now']
  obtain d' where s: "is_rate_allowed now now' prefix key rt False d =
      Some (Inr (if seen ?w < unat (requests rt) then None else Some (?w * period rt + period rt - now), d'))"
    and c: "counts prefix key d' (seen(?w := seen ?w + 1))" by blast
  have "(seen(?w := seen ?w + 1)) w + length ts < 2 ^ 63" for w
    using Cons.prems(2) [of w] Cons.prems(2) [of ?w] by simp
  from Cons.IH [OF c this] s t show ?case by (simp add: Let_def del: fun_upd_apply)
qed simp

definition allowed_in :: "rate \<Rightarrow> u64 \<Rightarrow> (u64 \<times> u64) list \<Rightarrow> u64 option list \<Rightarrow> nat" where
  "allowed_in rt w ts rs = length (filter (\<lambda>(t, r). fst t div period rt = w \<and> r = None) (zip ts rs))"

definition calls_in :: "rate \<Rightarrow> u64 \<Rightarrow> (u64 \<times> u64) list \<Rightarrow> nat" where
  "calls_in rt w ts = length (filter (\<lambda>t. fst t div period rt = w) ts)"

lemma window_log_allowed:
  "allowed_in rt w ts (window_log rt seen ts) = min (unat (requests rt) - seen w) (calls_in rt w ts)"
proof (induction ts arbitrary: seen)
  case (Cons t ts)
  obtain now now' where t: "t = (now, now')" by (cases t)
  show ?case
    using Cons.IH [of "seen(now div period rt := seen (now div period rt) + 1)"]
    by (auto simp: t allowed_in_def calls_in_def Let_def simp del: fun_upd_apply) (simp_all add: fun_upd_def)
qed (simp add: allowed_in_def calls_in_def)

definition fresh_rate :: "u8 \<Rightarrow> bytes \<Rightarrow> database \<Rightarrow> bool" where
  "fresh_rate prefix key d \<longleftrightarrow> (\<forall>w. d (vkey (counter_at (rate_bucket prefix key w))) = None)"

text \<open>
  C15. Rate limits count in windows: of the calls for a key, one is allowed exactly if fewer than the
  allowed number came before it in its window, and a call that is refused is told how long the
  window still lasts. So each window allows as many calls as it has, up to the limit.
\<close>

theorem rate_limit_exact:
  assumes "period rt \<noteq> 0" and "requests rt < 2 ^ 63" and "length ts < 2 ^ 63" and "fresh_rate prefix key d"
  shows "\<exists>rs. rate_calls prefix key rt ts d = Some rs \<and> rs = window_log rt (\<lambda>_. 0) ts
    \<and> (\<forall>w. allowed_in rt w ts rs = min (unat (requests rt)) (calls_in rt w ts))"
proof -
  have "counts prefix key d (\<lambda>_. 0)" using assms(4) by (simp add: counts_def fresh_rate_def counter_get_def get_counter_def)
  from rate_calls_log [OF this assms(1,2), of ts] assms(3) show ?thesis by (simp add: window_log_allowed)
qed

theorem rate_limit_exact_witness:
  "\<exists>rs. rate_calls 6 [1] \<lparr>requests = 2, period = 60\<rparr> [(100, 100), (119, 120), (110, 110), (120, 120)] (\<lambda>_. None) = Some rs
    \<and> rs = [None, None, Some 10, None]"
  using rate_limit_exact [of "\<lparr>requests = 2, period = 60\<rparr>" "[(100, 100), (119, 120), (110, 110), (120, 120)]" 6 "[1]" "\<lambda>_. None"]
  by (simp add: fresh_rate_def Let_def)

text \<open>A period of zero, which the configuration value \<open>unlimited\<close> stands for, makes the check panic.\<close>

lemma unlimited_rate_panics: "is_rate_allowed now now' prefix key \<lparr>requests = 0, period = 0\<rparr> soft d = None"
  by (simp add: is_rate_allowed_def)

section \<open>Purging\<close>

definition without :: "(u8 \<times> bytes) set \<Rightarrow> database \<Rightarrow> database" where
  "without K d = (\<lambda>k. if k \<in> K then None else d k)"

lemma without_simps: "without {} d = d" "without K (without L d) = without (K \<union> L) d" "(without K d)(k := None) = without (insert k K) d"
  by (auto simp: without_def)

definition clears :: "value_class list \<Rightarrow> batch_builder \<Rightarrow> bool" where
  "clears cs b \<longleftrightarrow> builds (map (\<lambda>c. (c, Clear)) cs) b \<and> batch_ops b = length cs"

lemma clears_new [simp]: "clears [] new_batch"
  by (simp add: clears_def builds_def new_batch_def)

lemma clears_any_op: "clears cs b \<Longrightarrow> clears (cs @ [c]) (any_op (OpValue c Clear) b)"
  using builds_any_op [of "map (\<lambda>c. (c, Clear)) cs" b c Clear] by (simp add: clears_def any_op_def push_op_def)

lemma clears_any_ops: "clears cs b \<Longrightarrow> clears (cs @ cs') (fold (\<lambda>c. any_op (OpValue c Clear)) cs' b)"
proof (induction cs' arbitrary: cs b)
  case (Cons c cs')
  from Cons.IH [OF clears_any_op [OF Cons.prems, of c]] show ?case by simp
qed simp

lemma write_all_clears: "write_all (map (\<lambda>c. (c, Clear)) cs) d = Inr (without (vkey ` set cs) d)"
  by (induction cs arbitrary: d) (simp_all add: without_simps fun_upd_def without_def fun_eq_iff)

lemma commit_clears: "clears cs b \<Longrightarrow> commit (build_all b) d = Inr (no_ids, without (vkey ` set cs) d)"
  using commit_writes [of "map (\<lambda>c. (c, Clear)) cs" b d] by (auto simp: clears_def write_all_clears)

lemma clear_in_batches_clears:
  "clears cs b \<Longrightarrow>
   clear_in_batches classes ks b d = Inr (without (vkey ` (set cs \<union> \<Union> (set ` classes ` set ks))) d)"
proof (induction classes ks b d arbitrary: cs rule: clear_in_batches.induct)
  case (1 classes b d)
  then show ?case
    using commit_clears [OF 1, of d] by (auto simp: batch_is_empty_def clears_def without_simps)
next
  case (2 classes k ks b d)
  let ?b = "fold (\<lambda>c. any_op (OpValue c Clear)) (classes k) b"
  have c: "clears (cs @ classes k) ?b" by (rule clears_any_ops [OF "2.prems"])
  show ?case
  proof (cases "is_large_batch ?b")
    case True
    let ?d = "without (vkey ` set (cs @ classes k)) d"
    have "clear_in_batches classes ks new_batch ?d = Inr (without (vkey ` (set [] \<union> \<Union> (set ` classes ` set ks))) ?d)"
      using "2.IH"(1) [OF refl True commit_clears [OF c], of no_ids ?d "[]"] by simp
    with True commit_clears [OF c, of d] show ?thesis
      by (simp add: Let_def without_simps image_Un Un_ac)
  next
    case False
    with "2.IH"(2) [OF refl False c] show ?thesis by (simp add: Let_def image_Un Un_ac)
  qed
qed

text \<open>A stored value begins with the time at which it expires; a zero there is followed by that of a counter.\<close>

definition expiry_of :: "bytes \<Rightarrow> (bool \<times> u64) option" where
  "expiry_of v =
    (case deserialize_be_u64 v 0 of
       None \<Rightarrow> None
     | Some t \<Rightarrow> if t = 0 then map_option (\<lambda>e. (True, e)) (deserialize_be_u64 v 8) else Some (False, t))"

lemma find_expired_step:
  "expiry_of v = Some (b, t) \<Longrightarrow>
   find_expired now ((k, v) # scan) =
     map_sum id (\<lambda>(ks, cs). (if \<not> b \<and> t \<le> now then k # ks else ks, if b \<and> t \<le> now then k # cs else cs)) (find_expired now scan)"
  by (auto simp: expiry_of_def split: option.splits if_splits)

lemma find_expired_exact:
  "list_all (\<lambda>(k, v). expiry_of v \<noteq> None) scan \<Longrightarrow>
   \<exists>ks cs. find_expired now scan = Inr (ks, cs)
     \<and> set ks = {k. \<exists>v t. (k, v) \<in> set scan \<and> expiry_of v = Some (False, t) \<and> t \<le> now}
     \<and> set cs = {k. \<exists>v t. (k, v) \<in> set scan \<and> expiry_of v = Some (True, t) \<and> t \<le> now}"
proof (induction scan)
  case (Cons x scan)
  obtain k v where x: "x = (k, v)" by (cases x)
  from Cons obtain ks cs where i: "find_expired now scan = Inr (ks, cs)"
    and s: "set ks = {k. \<exists>v t. (k, v) \<in> set scan \<and> expiry_of v = Some (False, t) \<and> t \<le> now}"
      "set cs = {k. \<exists>v t. (k, v) \<in> set scan \<and> expiry_of v = Some (True, t) \<and> t \<le> now}" by auto
  from Cons.prems x obtain b t where "expiry_of v = Some (b, t)" by auto
  with i show ?case unfolding x find_expired_step [OF \<open>expiry_of v = Some (b, t)\<close>] by (auto simp: s)
qed simp

definition values_stored :: "database \<Rightarrow> (bytes \<times> bytes) list \<Rightarrow> bool" where
  "values_stored d scan \<longleftrightarrow> list_all (\<lambda>(k, v). d (vkey (value_at k)) = Some v \<and> expiry_of v \<noteq> None) scan"

lemma purge_keys:
  assumes "values_stored d scan"
  shows "\<exists>K. purge_in_memory_store now scan d = Inr (without K d)
    \<and> (\<forall>k. vkey (value_at k) \<in> K \<longleftrightarrow> (\<exists>v b t. (k, v) \<in> set scan \<and> expiry_of v = Some (b, t) \<and> t \<le> now))
    \<and> (\<forall>k. vkey (counter_at k) \<in> K \<longleftrightarrow> (\<exists>v t. (k, v) \<in> set scan \<and> expiry_of v = Some (True, t) \<and> t \<le> now))
    \<and> K \<subseteq> range (\<lambda>k. vkey (value_at k)) \<union> range (\<lambda>k. vkey (counter_at k))"
proof -
  have "list_all (\<lambda>(k, v). expiry_of v \<noteq> None) scan" using assms by (auto simp: values_stored_def list_all_iff)
  from find_expired_exact [OF this, of now] obtain ks cs where f: "find_expired now scan = Inr (ks, cs)"
    and s: "set ks = {k. \<exists>v t. (k, v) \<in> set scan \<and> expiry_of v = Some (False, t) \<and> t \<le> now}"
      "set cs = {k. \<exists>v t. (k, v) \<in> set scan \<and> expiry_of v = Some (True, t) \<and> t \<le> now}" by blast
  let ?K = "vkey ` (counter_at ` set cs \<union> value_at ` (set cs \<union> set ks))"
  have k: "vkey ` (\<Union> (set ` (\<lambda>k. [value_at k]) ` set ks)) = vkey ` value_at ` set ks"
    "vkey ` (\<Union> (set ` (\<lambda>k. [counter_at k, value_at k]) ` set cs)) \<union> vkey ` value_at ` set ks = ?K" by auto
  have p: "purge_in_memory_store now scan d = Inr (without ?K d)"
    by (simp only: purge_in_memory_store_def f clear_in_batches_clears [OF clears_new] sum.case prod.case list.set Un_empty_left
        without_simps k)
  have 1: "vkey (value_at k) \<in> ?K \<longleftrightarrow> k \<in> set ks \<or> k \<in> set cs" for k by auto
  have 2: "vkey (counter_at k) \<in> ?K \<longleftrightarrow> k \<in> set cs" for k by auto
  have 3: "k \<in> set ks \<or> k \<in> set cs \<longleftrightarrow> (\<exists>v b t. (k, v) \<in> set scan \<and> expiry_of v = Some (b, t) \<and> t \<le> now)" for k
    unfolding s by (simp add: ex_bool_eq) blast
  have 4: "k \<in> set cs \<longleftrightarrow> (\<exists>v t. (k, v) \<in> set scan \<and> expiry_of v = Some (True, t) \<and> t \<le> now)" for k
    unfolding s by simp
  show ?thesis
    by (intro exI [of _ ?K] conjI p allI) ((simp only: 1 3), (simp only: 2 4), blast)
qed

lemma key_get_expired:
  assumes "d (vkey (value_at k)) = Some v" and "expiry_of v = Some (b, t)" and "t \<le> now"
  shows "key_get now decode k d = Inr None"
  using assms by (auto simp: key_get_def get_value_def deserialize_lookup_def expiry_of_def split: option.splits if_splits)



end
