(* ===== verification/Store_Locks.thy ===== *)
theory Store_Locks
  imports Store_Lookup
begin

text \<open>
  The locks of \<open>crates/store/src/dispatch/lookup.rs\<close> under concurrency: workers that take and give back
  the lock of one key as a step relation, in which the steps of \<open>try_lock\<close> interleave.
\<close>

section \<open>Locks\<close>

lemma deserialize_u64_be64 [simp]: "deserialize_u64 (be64 t) = Inr t"
  using deserialize_be(3) [of "[]" 0 t "[]"]
  by (simp add: deserialize_u64_def deserialize_be_u64_def read_be_def)

definition lock_matches :: "bytes \<Rightarrow> u64 option \<Rightarrow> database \<Rightarrow> bool" where
  "lock_matches key e d \<longleftrightarrow>
    (case (d (vkey (value_at key)), e) of
       (None, None) \<Rightarrow> True | (Some b, Some t) \<Rightarrow> last_bytes 8 0 b = Some (be64 t) | _ \<Rightarrow> False)"

lemma lock_matches_self:
  "get_value deserialize_u64 (value_at key) d = Inr e \<Longrightarrow> lock_matches key e d"
proof (cases "d (vkey (value_at key))")
  case (Some b)
  assume "get_value deserialize_u64 (value_at key) d = Inr e"
  with Some have l: "length b = 8" and e: "e = Some (word_of_nat (from_be_bytes b))"
    by (auto simp: get_value_def deserialize_u64_def split: if_splits)
  with Some be64_from_be_bytes [of b] show ?thesis by (simp add: lock_matches_def last_bytes_def)
qed (simp add: get_value_def lock_matches_def)

lemma write_lock_exact:
  "write_lock key e until d =
    Inr (if lock_matches key e d then (True, d(vkey (value_at key) := Some (be64 until))) else (False, d))"
  by (auto simp: write_lock_def lock_matches_def commit_def build_all_def serialize_batch_changes_def new_batch_def
      set_value_def assert_value_op_def push_op_def count_op_def exec_op_def exec_value_def begin_txn_def txn_key_def
      vkey_def [symmetric] put_def Let_def split: option.splits)

lemma key_delete_exact: "key_delete key d = Inr (d(vkey (value_at key) := None))"
  by (simp add: key_delete_def write_op_plain)

text \<open>\<open>Unreadable\<close>: the lock could not be read and is about to be cleared.\<close>

datatype lock_phase = Idle | Unreadable | WasRead "u64 option" | Writing "u64 option" u64 | Holding u64

record lock_system =
  lock_db :: database
  lock_time :: u64
  worker :: "nat \<Rightarrow> lock_phase"

inductive lock_step :: "bytes \<Rightarrow> u64 \<Rightarrow> lock_system \<Rightarrow> lock_system \<Rightarrow> bool" for key duration where
  Tick: "lock_time s < t \<Longrightarrow> lock_step key duration s (s\<lparr>lock_time := t\<rparr>)"
| Other: "d (vkey (value_at key)) = lock_db s (vkey (value_at key)) \<Longrightarrow> lock_step key duration s (s\<lparr>lock_db := d\<rparr>)"
| Read: "worker s w = Idle \<Longrightarrow> read_lock key (lock_db s) = Inr e \<Longrightarrow>
    lock_step key duration s (s\<lparr>worker := (worker s)(w := WasRead e)\<rparr>)"
| ReadError: "worker s w = Idle \<Longrightarrow> read_lock key (lock_db s) = Inl DataCorruption \<Longrightarrow>
    lock_step key duration s (s\<lparr>worker := (worker s)(w := Unreadable)\<rparr>)"
| Clear: "worker s w = Unreadable \<Longrightarrow> clear_lock key (lock_db s) = Inr d \<Longrightarrow>
    lock_step key duration s (s\<lparr>lock_db := d, worker := (worker s)(w := WasRead None)\<rparr>)"
| Now: "worker s w = WasRead e \<Longrightarrow>
    lock_step key duration s (s\<lparr>worker := (worker s)
      (w := if lock_is_free (lock_time s) e then Writing e (lock_time s + duration) else Idle)\<rparr>)"
| Write: "worker s w = Writing e u \<Longrightarrow> write_lock key e u (lock_db s) = Inr (ok, d) \<Longrightarrow>
    lock_step key duration s (s\<lparr>lock_db := d, worker := (worker s)(w := if ok then Holding u else Idle)\<rparr>)"
| Unlock: "worker s w = Holding u \<Longrightarrow> key_delete key (lock_db s) = Inr d \<Longrightarrow>
    lock_step key duration s (s\<lparr>lock_db := d, worker := (worker s)(w := Idle)\<rparr>)"

definition timely :: "lock_system \<Rightarrow> bool" where
  "timely s \<longleftrightarrow> (\<forall>w. case worker s w of Writing _ u \<Rightarrow> lock_time s < u | Holding u \<Rightarrow> lock_time s < u | _ \<Rightarrow> True)"

text \<open>The value of the lock is one that a lock has, if there is any.\<close>

definition lock_readable :: "bytes \<Rightarrow> database \<Rightarrow> bool" where
  "lock_readable key d \<longleftrightarrow> (case d (vkey (value_at key)) of Some b \<Rightarrow> length b = 8 | None \<Rightarrow> True)"

lemma lock_readable_update [simp]:
  "lock_readable key (d(vkey (value_at key) := Some (be64 t)))" "lock_readable key (d(vkey (value_at key) := None))"
  by (simp_all add: lock_readable_def)

inductive timely_run :: "bytes \<Rightarrow> u64 \<Rightarrow> lock_system \<Rightarrow> bool" for key duration where
  Start: "(\<forall>w. worker s w = Idle) \<Longrightarrow> lock_readable key (lock_db s) \<Longrightarrow> timely_run key duration s"
| Next: "timely_run key duration s \<Longrightarrow> lock_step key duration s s' \<Longrightarrow> timely s' \<Longrightarrow> timely_run key duration s'"

definition lock_inv :: "bytes \<Rightarrow> lock_system \<Rightarrow> bool" where
  "lock_inv key s \<longleftrightarrow>
    lock_readable key (lock_db s) \<and> (\<forall>w. worker s w \<noteq> Unreadable) \<and>
    (\<forall>w u. worker s w = Holding u \<longrightarrow> lock_db s (vkey (value_at key)) = Some (be64 u)) \<and>
    (\<forall>v w a b. worker s v = Holding a \<longrightarrow> worker s w = Holding b \<longrightarrow> v = w) \<and>
    (\<forall>w t u. worker s w = Writing (Some t) u \<longrightarrow> t \<le> lock_time s)"

lemma holder_blocks:
  "timely s \<Longrightarrow> lock_inv key s \<Longrightarrow> worker s w = Holding u \<Longrightarrow> worker s v = Writing e t \<Longrightarrow>
   \<not> lock_matches key e (lock_db s)"
proof
  assume a: "timely s" "lock_inv key s" "worker s w = Holding u" "worker s v = Writing e t" "lock_matches key e (lock_db s)"
  have d: "lock_db s (vkey (value_at key)) = Some (be64 u)" using a(2,3) by (simp add: lock_inv_def)
  with a(5) obtain x where e: "e = Some x" "be64 u = be64 x"
    by (auto simp: lock_matches_def last_bytes_def split: option.splits)
  then have "u \<le> lock_time s" using a(2,4) be64.encode_inject [of u x] unfolding lock_inv_def by (metis)
  moreover have "lock_time s < u" using a(1,3) by (auto simp: timely_def dest: spec [of _ w])
  ultimately show False by simp
qed

lemma lock_inv_idle:
  "lock_inv key s \<Longrightarrow> p = Idle \<or> p = WasRead e \<Longrightarrow> lock_inv key (s\<lparr>worker := (worker s)(w := p)\<rparr>)"
  unfolding lock_inv_def by auto

lemma lock_inv_step:
  assumes "lock_step key duration s s'" and "timely s" and "lock_inv key s"
  shows "lock_inv key s'"
  using assms(1)
proof cases
  case (Tick t)
  then show ?thesis using assms(3) unfolding lock_inv_def by simp (meson le_less_trans less_imp_le)
next
  case (Other d)
  then show ?thesis using assms(3) unfolding lock_inv_def by (simp add: lock_readable_def)
next
  case (Read w e)
  then show ?thesis using assms(3) unfolding lock_inv_def by auto
next
  case (ReadError w)
  then have "\<not> lock_readable key (lock_db s)"
    by (auto simp: read_lock_def get_value_def deserialize_u64_def lock_readable_def split: option.splits if_splits)
  then show ?thesis using assms(3) by (simp add: lock_inv_def)
next
  case (Clear w d)
  then show ?thesis using assms(3) by (simp add: lock_inv_def)
next
  case (Now w e)
  then show ?thesis using assms(3) unfolding lock_inv_def
    by (auto simp: lock_is_free_def split: if_splits)
next
  case (Write w e u ok d)
  show ?thesis
  proof (cases ok)
    case True
    with Write(3) have "lock_matches key e (lock_db s)" and d: "d = (lock_db s)(vkey (value_at key) := Some (be64 u))"
      by (auto simp: write_lock_exact split: if_splits)
    then have "worker s v \<noteq> Holding a" for v a
      using holder_blocks [OF assms(2,3) _ Write(2)] by blast
    with Write(1) assms(3) True d show ?thesis unfolding lock_inv_def by simp
  next
    case False
    with Write(3) have "d = lock_db s" by (auto simp: write_lock_exact split: if_splits)
    with Write(1) False lock_inv_idle [OF assms(3), of Idle undefined w] show ?thesis by simp
  qed
next
  case (Unlock w u d)
  have "worker s v = Holding a \<Longrightarrow> v = w" for v a using assms(3) Unlock(2) unfolding lock_inv_def by blast
  then have "worker s' v \<noteq> Holding a" for v a using Unlock(1) by auto
  moreover have "t \<le> lock_time s'" if "worker s' v = Writing (Some t) x" for v t x
  proof -
    have "worker s v = Writing (Some t) x" using that Unlock(1) by (simp split: if_splits)
    then have "t \<le> lock_time s" using assms(3) unfolding lock_inv_def by blast
    then show ?thesis using Unlock(1) by simp
  qed
  moreover have "lock_readable key (lock_db s')" "worker s' v \<noteq> Unreadable" for v
    using Unlock assms(3) by (auto simp: key_delete_exact lock_inv_def)
  ultimately show ?thesis unfolding lock_inv_def by blast
qed

lemma timely_run_inv: "timely_run key duration s \<Longrightarrow> timely s \<and> lock_inv key s"
proof (induction rule: timely_run.induct)
  case (Start s)
  then show ?case by (simp add: timely_def lock_inv_def)
next
  case (Next s s')
  then show ?case using lock_inv_step by blast
qed

text \<open>Without other workers, the steps are \<open>try_lock\<close>.\<close>

lemma read_lock_exact:
  "read_lock key d =
    (case d (vkey (value_at key)) of
       None \<Rightarrow> Inr None
     | Some b \<Rightarrow> if length b = 8 then Inr (Some (word_of_nat (from_be_bytes b))) else Inl DataCorruption)"
  by (simp add: read_lock_def get_value_def deserialize_u64_def split: option.split)

lemma clear_lock_exact: "clear_lock key d = Inr (d(vkey (value_at key) := None))"
  by (simp add: clear_lock_def write_op_plain)

lemma try_lock_exact:
  "try_lock now prefix key duration d =
    (let k = vkey (value_at (build_key prefix key)) in
     case d k of
       Some b \<Rightarrow>
         if length b = 8 \<and> word_of_nat (from_be_bytes b) > now then Inr (False, d)
         else Inr (True, d(k := Some (be64 (now + duration))))
     | None \<Rightarrow> Inr (True, d(k := Some (be64 (now + duration)))))"
proof -
  let ?k = "build_key prefix key"
  have l: "lock_matches ?k (Some (word_of_nat (from_be_bytes b))) d" if "d (vkey (value_at ?k)) = Some b" "length b = 8" for b
    using that be64_from_be_bytes [of b] by (simp add: lock_matches_def last_bytes_def)
  show ?thesis
    by (cases "d (vkey (value_at ?k))")
       (auto simp: try_lock_def Let_def read_lock_exact clear_lock_exact lock_unless_held_def lock_is_free_def write_lock_exact l,
        simp_all add: lock_matches_def)
qed

text \<open>A lock that nobody holds any more can be had, and so can one that has expired.\<close>

lemma acquire:
  assumes "worker s w = Idle" and "case lock_db s (vkey (value_at key)) of Some b \<Rightarrow> \<exists>t. b = be64 t \<and> t \<le> lock_time s | None \<Rightarrow> True"
  shows "(lock_step key duration)\<^sup>*\<^sup>* s
    (s\<lparr>lock_db := (lock_db s)(vkey (value_at key) := Some (be64 (lock_time s + duration))),
       worker := (worker s)(w := Holding (lock_time s + duration))\<rparr>)"
proof -
  let ?e = "case lock_db s (vkey (value_at key)) of Some b \<Rightarrow> Some (word_of_nat (from_be_bytes b)) | None \<Rightarrow> None"
  let ?u = "lock_time s + duration"
  let ?s1 = "s\<lparr>worker := (worker s)(w := WasRead ?e)\<rparr>"
  let ?s2 = "s\<lparr>worker := (worker s)(w := Writing ?e ?u)\<rparr>"
  have b: "word_of_nat (from_be_bytes (be64 t)) = t" for t using deserialize_u64_be64 [of t] by (simp add: deserialize_u64_def)
  have r: "read_lock key (lock_db s) = Inr ?e"
    using assms(2) by (auto simp: read_lock_exact split: option.splits)
  have f: "lock_is_free (lock_time s) ?e" using assms(2) by (auto simp: lock_is_free_def b split: option.splits)
  have m: "lock_matches key ?e (lock_db s)" using assms(2) by (auto simp: lock_matches_def last_bytes_def b split: option.splits)
  have "lock_step key duration s ?s1" using lock_step.Read [OF assms(1) r, of duration] by simp
  moreover have "lock_step key duration ?s1 ?s2" using lock_step.Now [of ?s1 w ?e key duration] f by simp
  moreover have "lock_step key duration ?s2 (s\<lparr>lock_db := (lock_db s)(vkey (value_at key) := Some (be64 ?u)),
       worker := (worker s)(w := Holding ?u)\<rparr>)"
    using lock_step.Write [of ?s2 w ?e ?u key True "(lock_db s)(vkey (value_at key) := Some (be64 ?u))" duration] m
    by (simp add: write_lock_exact)
  ultimately show ?thesis by (meson r_into_rtranclp rtranclp_trans)
qed

text \<open>
  C14. Locks exclude each other: as long as every worker gives its lock back before it expires, no two
  workers hold the lock of a key at the same time, however their reads, clocks and writes interleave, if the
  value of the key is at first none at all or one of eight bytes as a lock has it. (A value of another length,
  which no lock writes, is cleared by whoever reads it, at a time when it may have been replaced by a lock.)
  \<open>timely_run\<close> is the set of states that such workers can reach.
\<close>

theorem lock_exclusive:
  assumes "timely_run key duration s" and "worker s v = Holding a" and "worker s w = Holding b"
  shows "v = w \<and> a = b \<and> lock_db s (vkey (value_at key)) = Some (be64 a) \<and> a > lock_time s"
proof -
  have i: "timely s" "lock_inv key s" using timely_run_inv [OF assms(1)] by simp_all
  have "v = w" using i(2) assms(2,3) unfolding lock_inv_def by blast
  moreover have "lock_db s (vkey (value_at key)) = Some (be64 a)" using i(2) assms(2) unfolding lock_inv_def by blast
  moreover have "a > lock_time s" using i(1) assms(2) by (auto simp: timely_def dest: spec [of _ v])
  ultimately show ?thesis using assms(2,3) by simp
qed

definition idle_system :: "u64 \<Rightarrow> lock_system" where
  "idle_system t = \<lparr>lock_db = (\<lambda>_. None), lock_time = t, worker = (\<lambda>_. Idle)\<rparr>"

theorem lock_exclusive_witness:
  "\<exists>s. timely_run [21] 600 s \<and> worker s 0 = Holding 1600 \<and> (\<forall>w b. worker s w = Holding b \<longrightarrow> w = 0)"
proof -
  let ?s1 = "(idle_system 1000)\<lparr>worker := (\<lambda>_. Idle)(0 := WasRead None)\<rparr>"
  let ?s2 = "(idle_system 1000)\<lparr>worker := (\<lambda>_. Idle)(0 := Writing None 1600)\<rparr>"
  let ?s3 = "\<lparr>lock_db = (\<lambda>_. None)(vkey (value_at [21]) := Some (be64 1600)), lock_time = 1000,
      worker = (\<lambda>_. Idle)(0 := Holding 1600)\<rparr>"
  have "timely_run [21] 600 (idle_system 1000)" by (rule Start) (simp_all add: idle_system_def lock_readable_def)
  moreover have "lock_step [21] 600 (idle_system 1000) ?s1"
    using lock_step.Read [of "idle_system 1000" 0 "[21]" None 600]
    by (simp add: idle_system_def read_lock_exact)
  moreover have "lock_step [21] 600 ?s1 ?s2"
    using lock_step.Now [of ?s1 0 None "[21]" 600] by (simp add: idle_system_def lock_is_free_def)
  moreover have "lock_step [21] 600 ?s2 ?s3"
    using lock_step.Write [of ?s2 0 None 1600 "[21]" True "(\<lambda>_. None)(vkey (value_at [21]) := Some (be64 1600))" 600]
    by (simp add: idle_system_def write_lock_exact lock_matches_def)
  moreover have "timely ?s1" "timely ?s2" "timely ?s3" by (simp_all add: timely_def idle_system_def)
  ultimately have r: "timely_run [21] 600 ?s3" by (blast intro: Next)
  have "worker ?s3 0 = Holding 1600" by simp
  with r lock_exclusive [OF r, of _ _ 0 1600] show ?thesis by blast
qed

text \<open>
  A value that is no lock is read and cleared in two transactions: a worker that has read it clears the lock
  that another has taken meanwhile, and both hold it.
\<close>

lemma unreadable_lock_held_twice:
  "\<exists>s. (lock_step [21] 600)\<^sup>*\<^sup>* ((idle_system 1000)\<lparr>lock_db := (\<lambda>_. None)(vkey (value_at [21]) := Some [0])\<rparr>) s
    \<and> worker s 1 = Holding 1600 \<and> worker s 2 = Holding 1600 \<and> lock_time s = 1000"
proof -
  let ?k = "vkey (value_at [21])"
  let ?c = "(\<lambda>_. None)(?k := Some [0 :: u8])"
  let ?d = "(\<lambda>_. None)(?k := Some (be64 1600))"
  let ?st = "\<lambda>d f. \<lparr>lock_db = d, lock_time = 1000, worker = f\<rparr>"
  let ?i = "\<lambda>_ :: nat. Idle"
  let ?a = "?i(1 := Unreadable)" and ?b = "?i(1 := Unreadable, 2 := Unreadable)"
  let ?e = "?i(1 := WasRead None, 2 := Unreadable)" and ?w = "?i(1 := Writing None 1600, 2 := Unreadable)"
  let ?h = "?i(1 := Holding 1600, 2 := Unreadable)"
  have "(lock_step [21] 600)\<^sup>*\<^sup>* (?st ?c ?i) (?st ?c ?a)"
    using ReadError [of "?st ?c ?i" 1 "[21]" 600] by (intro r_into_rtranclp) (simp add: read_lock_exact)
  moreover have "(lock_step [21] 600)\<^sup>*\<^sup>* (?st ?c ?a) (?st ?c ?b)"
    using ReadError [of "?st ?c ?a" 2 "[21]" 600] by (intro r_into_rtranclp) (simp add: read_lock_exact)
  moreover have "(lock_step [21] 600)\<^sup>*\<^sup>* (?st ?c ?b) (?st (\<lambda>_. None) ?e)"
    using lock_step.Clear [of "?st ?c ?b" 1 "[21]" "\<lambda>_. None" 600]
    by (intro r_into_rtranclp) (simp add: clear_lock_exact fun_upd_twist)
  moreover have "(lock_step [21] 600)\<^sup>*\<^sup>* (?st (\<lambda>_. None) ?e) (?st (\<lambda>_. None) ?w)"
    using lock_step.Now [of "?st (\<lambda>_. None) ?e" 1 None "[21]" 600]
    by (intro r_into_rtranclp) (simp add: lock_is_free_def fun_upd_twist)
  moreover have "(lock_step [21] 600)\<^sup>*\<^sup>* (?st (\<lambda>_. None) ?w) (?st ?d ?h)"
    using lock_step.Write [of "?st (\<lambda>_. None) ?w" 1 None 1600 "[21]" True ?d 600]
    by (intro r_into_rtranclp) (simp add: write_lock_exact lock_matches_def fun_upd_twist)
  moreover have "(lock_step [21] 600)\<^sup>*\<^sup>* (?st ?d ?h) (?st (\<lambda>_. None) (?h(2 := WasRead None)))"
    using lock_step.Clear [of "?st ?d ?h" 2 "[21]" "\<lambda>_. None" 600]
    by (intro r_into_rtranclp) (simp add: clear_lock_exact)
  moreover have "(lock_step [21] 600)\<^sup>*\<^sup>* (?st (\<lambda>_. None) (?h(2 := WasRead None))) (?st (\<lambda>_. None) (?h(2 := Writing None 1600)))"
    using lock_step.Now [of "?st (\<lambda>_. None) (?h(2 := WasRead None))" 2 None "[21]" 600]
    by (intro r_into_rtranclp) (simp add: lock_is_free_def)
  moreover have "(lock_step [21] 600)\<^sup>*\<^sup>* (?st (\<lambda>_. None) (?h(2 := Writing None 1600))) (?st ?d (?h(2 := Holding 1600)))"
    using lock_step.Write [of "?st (\<lambda>_. None) (?h(2 := Writing None 1600))" 2 None 1600 "[21]" True ?d 600]
    by (intro r_into_rtranclp) (simp add: write_lock_exact lock_matches_def)
  ultimately have "(lock_step [21] 600)\<^sup>*\<^sup>* (?st ?c ?i) (?st ?d (?h(2 := Holding 1600)))" by (meson rtranclp_trans)
  then show ?thesis by (intro exI [of _ "?st ?d (?h(2 := Holding 1600))"]) (simp add: idle_system_def)
qed

text \<open>
  A worker that is late gives back a lock that is not its own any more: after that, two workers can
  hold the lock at the same time although neither is late.
\<close>

lemma late_worker_breaks_lock:
  "\<exists>s. (lock_step [21] 600)\<^sup>*\<^sup>* (idle_system 1000) s
    \<and> worker s 1 = Holding 2300 \<and> worker s 2 = Holding 2300 \<and> lock_time s < 2300"
proof -
  let ?k = "vkey (value_at [21])"
  let ?d = "(\<lambda>_. None)(?k := Some (be64 1600))"
  let ?d' = "(\<lambda>_. None)(?k := Some (be64 2300))"
  let ?s1 = "\<lparr>lock_db = ?d, lock_time = 1000, worker = (\<lambda>_. Idle)(0 := Holding 1600)\<rparr>"
  let ?s2 = "\<lparr>lock_db = ?d, lock_time = 1700, worker = (\<lambda>_. Idle)(0 := Holding 1600)\<rparr>"
  let ?s3 = "\<lparr>lock_db = ?d', lock_time = 1700, worker = (\<lambda>_. Idle)(0 := Holding 1600, 1 := Holding 2300)\<rparr>"
  let ?s4 = "\<lparr>lock_db = (\<lambda>_. None), lock_time = 1700, worker = (\<lambda>_. Idle)(1 := Holding 2300)\<rparr>"
  let ?s5 = "\<lparr>lock_db = ?d', lock_time = 1700, worker = (\<lambda>_. Idle)(1 := Holding 2300, 2 := Holding 2300)\<rparr>"
  have "(lock_step [21] 600)\<^sup>*\<^sup>* (idle_system 1000) ?s1"
    using acquire [of "idle_system 1000" 0 "[21]" 600] by (simp add: idle_system_def)
  moreover have "(lock_step [21] 600)\<^sup>*\<^sup>* ?s1 ?s2" using Tick [of ?s1 1700 "[21]" 600] by (intro r_into_rtranclp) simp
  moreover have "(lock_step [21] 600)\<^sup>*\<^sup>* ?s2 ?s3" using acquire [of ?s2 1 "[21]" 600] by simp
  moreover have "(lock_step [21] 600)\<^sup>*\<^sup>* ?s3 ?s4"
  proof (rule r_into_rtranclp)
    have "(\<lambda>_. Idle)(0 := Holding 1600, 1 := Holding 2300, 0 := Idle) = (\<lambda>_. Idle)(Suc 0 := Holding 2300)" by (auto simp: fun_eq_iff)
    then show "lock_step [21] 600 ?s3 ?s4" using Unlock [of ?s3 0 1600 "[21]" "?d'(?k := None)" 600] by (simp add: key_delete_exact)
  qed
  moreover have "(lock_step [21] 600)\<^sup>*\<^sup>* ?s4 ?s5" using acquire [of ?s4 2 "[21]" 600] by simp
  ultimately have "(lock_step [21] 600)\<^sup>*\<^sup>* (idle_system 1000) ?s5" by (meson rtranclp_trans)
  then show ?thesis by (intro exI [of _ ?s5]) simp
qed

end
