(* ===== verification/Queue_Limits.thy ===== *)
theory Queue_Limits
  imports Smtp_Delivery Spool_Properties Store_Lookup
begin

text \<open>
  Quotas and rate limits of the queue (\<open>crates/smtp/src/queue/quota.rs\<close>,
  \<open>crates/smtp/src/queue/throttle.rs\<close>, the keys in \<open>crates/smtp/src/core/throttle.rs\<close> and the
  variables in \<open>crates/smtp/src/queue/mod.rs\<close>): which counters a message needs, whether they have
  room, and how they end after the message is queued and delivered.

  The record \<open>limit_env\<close> holds what is evaluated elsewhere: configured expressions, the hash of
  the \<open>blake3\<close> package, the text of an address and the native byte order.
\<close>

section \<open>Variables and keys\<close>

datatype variable =
  V_RECIPIENT | V_RECIPIENT_DOMAIN | V_SENDER | V_SENDER_DOMAIN | V_HELO_DOMAIN | V_AUTHENTICATED_AS | V_LISTENER
  | V_MX | V_REMOTE_IP | V_LOCAL_IP

datatype subject = OfMessage message | OfEnvelope envelope

record 'e limit_env =
  eval_bool :: "'e list \<Rightarrow> subject \<Rightarrow> bool option"
  blake3 :: "bytes \<Rightarrow> string"
  show_ip :: "ip_addr \<Rightarrow> string"
  ne_bytes :: "u64 \<Rightarrow> bytes"

text \<open>\<open>resolve_variable\<close> of a message and of an envelope, for the variables in keys.\<close>

fun resolve_variable :: "(ip_addr \<Rightarrow> string) \<Rightarrow> subject \<Rightarrow> variable \<Rightarrow> string" where
  "resolve_variable _ (OfMessage m) V_SENDER = return_path m"
| "resolve_variable _ (OfMessage m) V_SENDER_DOMAIN = domain_part (return_path m)"
| "resolve_variable _ (OfMessage m) _ = []"
| "resolve_variable _ (OfEnvelope e) V_SENDER = return_path (env_message e)"
| "resolve_variable _ (OfEnvelope e) V_SENDER_DOMAIN = domain_part (return_path (env_message e))"
| "resolve_variable _ (OfEnvelope e) V_RECIPIENT_DOMAIN = domain_part (address (env_rcpt e))"
| "resolve_variable _ (OfEnvelope e) V_RECIPIENT = address (env_rcpt e)"
| "resolve_variable _ (OfEnvelope e) V_MX = env_mx e"
| "resolve_variable ip (OfEnvelope e) V_REMOTE_IP = ip (env_remote_ip e)"
| "resolve_variable ip (OfEnvelope e) V_LOCAL_IP = ip (env_local_ip e)"
| "resolve_variable _ (OfEnvelope _) _ = []"

definition THROTTLE_RCPT :: "16 word" where "THROTTLE_RCPT = 1"
definition THROTTLE_RCPT_DOMAIN :: "16 word" where "THROTTLE_RCPT_DOMAIN = 2"
definition THROTTLE_SENDER :: "16 word" where "THROTTLE_SENDER = 4"
definition THROTTLE_SENDER_DOMAIN :: "16 word" where "THROTTLE_SENDER_DOMAIN = 8"
definition THROTTLE_AUTH_AS :: "16 word" where "THROTTLE_AUTH_AS = 16"
definition THROTTLE_LISTENER :: "16 word" where "THROTTLE_LISTENER = 32"
definition THROTTLE_MX :: "16 word" where "THROTTLE_MX = 64"
definition THROTTLE_REMOTE_IP :: "16 word" where "THROTTLE_REMOTE_IP = 128"
definition THROTTLE_LOCAL_IP :: "16 word" where "THROTTLE_LOCAL_IP = 256"
definition THROTTLE_HELO_DOMAIN :: "16 word" where "THROTTLE_HELO_DOMAIN = 512"

record 'e queue_quota =
  quota_expr :: "'e list"
  quota_by :: "16 word"
  quota_max_size :: "u64 option"
  quota_max_messages :: "u64 option"

record 'e queue_rate_limiter =
  limiter_expr :: "'e list"
  limiter_by :: "16 word"
  limiter_rate :: rate

definition or_null_sender :: "string \<Rightarrow> string" where
  "or_null_sender s = (if s \<noteq> [] then s else ''<>'')"

definition key_part :: "16 word \<Rightarrow> (variable \<Rightarrow> string) \<Rightarrow> 16 word \<times> variable \<times> bool \<Rightarrow> bytes" where
  "key_part by' r = (\<lambda>(flag, v, null).
    if by' AND flag \<noteq> 0 then bytes_of ((if null then or_null_sender else id) (r v)) else [])"

text \<open>\<open>new_key\<close> of a quota and of a rate limiter, the latter for whatever resolves the variables.\<close>

definition quota_new_key :: "'e limit_env \<Rightarrow> 'e queue_quota \<Rightarrow> subject \<Rightarrow> string" where
  "quota_new_key env q s =
    blake3 env (concat (map (key_part (quota_by q) (resolve_variable (show_ip env) s))
        [(THROTTLE_RCPT, V_RECIPIENT, False), (THROTTLE_RCPT_DOMAIN, V_RECIPIENT_DOMAIN, False),
         (THROTTLE_SENDER, V_SENDER, True), (THROTTLE_SENDER_DOMAIN, V_SENDER_DOMAIN, True)])
      @ (case quota_max_messages q of Some n \<Rightarrow> ne_bytes env n | None \<Rightarrow> [])
      @ (case quota_max_size q of Some n \<Rightarrow> ne_bytes env n | None \<Rightarrow> []))"

definition limiter_key :: "(bytes \<Rightarrow> string) \<Rightarrow> 'e queue_rate_limiter \<Rightarrow> (variable \<Rightarrow> string) \<Rightarrow> string \<Rightarrow> string" where
  "limiter_key hash l r context =
    hash (concat (map (key_part (limiter_by l) r)
        [(THROTTLE_RCPT, V_RECIPIENT, False), (THROTTLE_RCPT_DOMAIN, V_RECIPIENT_DOMAIN, False),
         (THROTTLE_SENDER, V_SENDER, True), (THROTTLE_SENDER_DOMAIN, V_SENDER_DOMAIN, True),
         (THROTTLE_HELO_DOMAIN, V_HELO_DOMAIN, False), (THROTTLE_AUTH_AS, V_AUTHENTICATED_AS, False),
         (THROTTLE_LISTENER, V_LISTENER, False), (THROTTLE_MX, V_MX, False),
         (THROTTLE_REMOTE_IP, V_REMOTE_IP, False), (THROTTLE_LOCAL_IP, V_LOCAL_IP, False)])
      @ be64 (period (limiter_rate l)) @ be64 (requests (limiter_rate l)) @ bytes_of context)"

definition limiter_new_key :: "'e limit_env \<Rightarrow> 'e queue_rate_limiter \<Rightarrow> subject \<Rightarrow> string \<Rightarrow> string" where
  "limiter_new_key env l s context = limiter_key (blake3 env) l (resolve_variable (show_ip env) s) context"

section \<open>Quotas\<close>

text \<open>
  \<open>check_quota\<close>: \<open>None\<close> if a counter has no room, otherwise the keys so far with those that the quota
  needs; counters are read as unsigned numbers and a counter that can not be read counts as zero.
\<close>

definition check_quota ::
  "'e limit_env \<Rightarrow> database \<Rightarrow> 'e queue_quota \<Rightarrow> subject \<Rightarrow> u64 \<Rightarrow> u64 \<Rightarrow> quota_key list \<Rightarrow> quota_key list option" where
  "check_quota env d q s size' i refs =
    (if quota_expr q \<noteq> [] \<and> eval_bool env (quota_expr q) s = Some True then
       (let key = quota_new_key env q s in
        case (case quota_max_size q of
                Some max_size \<Rightarrow>
                  if counter d (vkey (quota_class (SizeKey key i))) + size' > max_size then None
                  else Some (refs @ [SizeKey key i])
              | None \<Rightarrow> Some refs) of
          None \<Rightarrow> None
        | Some refs \<Rightarrow>
           (case quota_max_messages q of
              Some max_messages \<Rightarrow>
                if counter d (vkey (quota_class (CountKey key i))) + 1 > max_messages then None
                else Some (refs @ [CountKey key i])
            | None \<Rightarrow> Some refs))
     else Some refs)"

record 'e queue_quotas =
  sender_quotas :: "'e queue_quota list"
  domain_quotas :: "'e queue_quota list"
  rcpt_quotas :: "'e queue_quota list"

type_synonym 'e quota_item = "'e queue_quota \<times> subject \<times> u64"

definition quota_pairs :: "'e queue_quota list \<Rightarrow> message \<Rightarrow> ('e queue_quota \<times> nat \<times> recipient) list" where
  "quota_pairs qs m = concat (map (\<lambda>q. map (\<lambda>(i, r). (q, i, r)) (enumerate 0 (recipients m))) qs)"

fun domain_items :: "message \<Rightarrow> string list \<Rightarrow> ('e queue_quota \<times> nat \<times> recipient) list \<Rightarrow> 'e quota_item list" where
  "domain_items m seen [] = []"
| "domain_items m seen ((q, i, r) # ps) =
    (if domain_part (address r) \<in> set seen then domain_items m seen ps
     else (q, OfEnvelope (new_envelope m r), push_bit 32 (word_of_nat (i + 1)))
       # domain_items m (domain_part (address r) # seen) ps)"

definition quota_items :: "'e queue_quotas \<Rightarrow> message \<Rightarrow> 'e quota_item list" where
  "quota_items qs m =
    map (\<lambda>q. (q, OfMessage m, 0)) (sender_quotas qs)
    @ domain_items m [] (quota_pairs (domain_quotas qs) m)
    @ map (\<lambda>(q, i, r). (q, OfEnvelope (new_envelope m r), word_of_nat (i + 1))) (quota_pairs (rcpt_quotas qs) m)"

fun check_quotas ::
  "'e limit_env \<Rightarrow> database \<Rightarrow> u64 \<Rightarrow> 'e quota_item list \<Rightarrow> quota_key list \<Rightarrow> quota_key list option" where
  "check_quotas env d size' [] refs = Some refs"
| "check_quotas env d size' ((q, s, i) # items) refs =
    (case check_quota env d q s size' i refs of None \<Rightarrow> None | Some refs \<Rightarrow> check_quotas env d size' items refs)"

definition has_quota :: "'e limit_env \<Rightarrow> 'e queue_quotas \<Rightarrow> database \<Rightarrow> message \<Rightarrow> message option" where
  "has_quota env qs d m =
    map_option (\<lambda>keys. m\<lparr>quota_keys := keys\<rparr>) (check_quotas env d (message_size m) (quota_items qs m) [])"

section \<open>Rate limits\<close>

definition KV_RATE_LIMIT_SMTP :: u8 where "KV_RATE_LIMIT_SMTP = 6"

text \<open>
  \<open>is_allowed\<close>, with its three readings of the clock: the time of the next attempt if the limit is
  reached. An error of the store allows the call; \<open>None\<close> is the panic of \<open>is_rate_allowed\<close>.
\<close>

definition limiter_is_allowed ::
  "'e limit_env \<Rightarrow> u64 \<Rightarrow> u64 \<Rightarrow> u64 \<Rightarrow> 'e queue_rate_limiter \<Rightarrow> envelope \<Rightarrow> database \<Rightarrow> (u64 option \<times> database) option" where
  "limiter_is_allowed env t1 t2 t3 l e d =
    (if limiter_expr l = [] \<or> eval_bool env (limiter_expr l) (OfEnvelope e) = Some True then
       (case is_rate_allowed t1 t2 KV_RATE_LIMIT_SMTP (bytes_of (limiter_new_key env l (OfEnvelope e) ''outbound''))
               (limiter_rate l) False d of
          None \<Rightarrow> None
        | Some (Inl _) \<Rightarrow> Some (None, d)
        | Some (Inr (r, d')) \<Rightarrow> Some (map_option (\<lambda>next_refill. t3 + next_refill) r, d'))
     else Some (None, d))"

section \<open>What is checked\<close>

definition applies :: "'e limit_env \<Rightarrow> 'e quota_item \<Rightarrow> bool" where
  "applies env = (\<lambda>(q, s, i). quota_expr q \<noteq> [] \<and> eval_bool env (quota_expr q) s = Some True)"

definition item_keys :: "'e limit_env \<Rightarrow> 'e quota_item \<Rightarrow> (quota_key \<times> u64) list" where
  "item_keys env = (\<lambda>(q, s, i).
    if applies env (q, s, i) then
      (case quota_max_size q of Some n \<Rightarrow> [(SizeKey (quota_new_key env q s) i, n)] | None \<Rightarrow> [])
      @ (case quota_max_messages q of Some n \<Rightarrow> [(CountKey (quota_new_key env q s) i, n)] | None \<Rightarrow> [])
    else [])"

definition has_room :: "database \<Rightarrow> message \<Rightarrow> quota_key \<times> u64 \<Rightarrow> bool" where
  "has_room d m = (\<lambda>(k, n). used d k + quota_amount m k \<le> n)"

lemma check_quota_keys:
  "check_quota env d q s (message_size m) i refs =
    (if list_all (has_room d m) (item_keys env (q, s, i)) then Some (refs @ map fst (item_keys env (q, s, i))) else None)"
  by (auto simp: check_quota_def item_keys_def applies_def has_room_def used_def Let_def not_less split: option.split)

lemma check_quotas_keys:
  "check_quotas env d (message_size m) items refs =
    (if list_all (has_room d m) (concat (map (item_keys env) items))
     then Some (refs @ map fst (concat (map (item_keys env) items))) else None)"
  by (induction items arbitrary: refs) (auto simp: check_quota_keys split: prod.split)

lemma has_quota_keys:
  "has_quota env qs d m =
    (if list_all (has_room d m) (concat (map (item_keys env) (quota_items qs m)))
     then Some (m\<lparr>quota_keys := map fst (concat (map (item_keys env) (quota_items qs m)))\<rparr>) else None)"
  by (simp add: has_quota_def check_quotas_keys)

section \<open>The recipients' domains\<close>

text \<open>The positions of the first recipient of each domain.\<close>

fun first_of_domain :: "string list \<Rightarrow> nat \<Rightarrow> recipient list \<Rightarrow> nat list" where
  "first_of_domain seen pos [] = []"
| "first_of_domain seen pos (r # rs) =
    (if domain_part (address r) \<in> set seen then first_of_domain seen (pos + 1) rs
     else pos # first_of_domain (domain_part (address r) # seen) (pos + 1) rs)"

lemma first_of_domain_cong: "set seen = set seen' \<Longrightarrow> first_of_domain seen pos rs = first_of_domain seen' pos rs"
proof (induction rs arbitrary: seen seen' pos)
  case (Cons r rs)
  from Cons.prems have "set (domain_part (address r) # seen) = set (domain_part (address r) # seen')" by simp
  from Cons.IH [OF this] Cons.IH [OF Cons.prems] Cons.prems show ?case by simp
qed simp

lemma first_of_domain_ge: "list_all (\<lambda>i. pos \<le> i) (first_of_domain seen pos rs)"
proof (induction rs arbitrary: seen pos)
  case (Cons r rs)
  have "list_all (\<lambda>i. pos \<le> i) (first_of_domain s (pos + 1) rs)" for s
    using Cons.IH [of "pos + 1" s] by (auto simp: list_all_iff)
  then show ?case by simp
qed simp

lemma domain_items_cong: "set seen = set seen' \<Longrightarrow> domain_items m seen ps = domain_items m seen' ps"
proof (induction ps arbitrary: seen seen')
  case (Cons p ps)
  obtain q i r where p: "p = (q, i, r)" by (cases p)
  from Cons.prems have "set (domain_part (address r) # seen) = set (domain_part (address r) # seen')" by simp
  from Cons.IH [OF this] Cons.IH [OF Cons.prems] Cons.prems p show ?case by simp
qed simp

definition domains :: "recipient list \<Rightarrow> string list" where
  "domains rs = map (\<lambda>r. domain_part (address r)) rs"

lemma domain_items_seen: "list_all (\<lambda>(q, i, r). domain_part (address r) \<in> set seen) ps \<Longrightarrow> domain_items m seen ps = []"
  by (induction ps) auto

lemma domain_items_enumerate:
  "domain_items m seen (map (\<lambda>(i, r). (q, i, r)) (enumerate pos rs) @ ps) =
    map (\<lambda>i. (q, OfEnvelope (new_envelope m (rs ! (i - pos))), push_bit 32 (word_of_nat (i + 1)))) (first_of_domain seen pos rs)
    @ domain_items m (domains rs @ seen) ps"
proof (induction rs arbitrary: seen pos)
  case (Cons r rs)
  let ?item = "\<lambda>pos rs i. (q, OfEnvelope (new_envelope m (rs ! (i - pos))), push_bit 32 (word_of_nat (i + 1)) :: u64)"
  have c: "map (?item pos (r # rs)) (first_of_domain s (pos + 1) rs) = map (?item (pos + 1) rs) (first_of_domain s (pos + 1) rs)" for s
    using first_of_domain_ge [of "pos + 1" s rs] by (intro map_cong refl) (auto simp: list_all_iff nth_Cons')
  show ?case
  proof (cases "domain_part (address r) \<in> set seen")
    case True
    have "domain_items m (domains rs @ seen) ps = domain_items m (domains (r # rs) @ seen) ps"
      using True by (intro domain_items_cong) (auto simp: domains_def)
    with True Cons.IH [of seen "pos + 1"] c [of seen] show ?thesis by simp
  next
    case False
    have "domain_items m (domains rs @ domain_part (address r) # seen) ps = domain_items m (domains (r # rs) @ seen) ps"
      by (intro domain_items_cong) (auto simp: domains_def)
    with False Cons.IH [of "domain_part (address r) # seen" "pos + 1"] c [of "domain_part (address r) # seen"] show ?thesis by simp
  qed
qed (simp add: domains_def)

lemma domain_items_first:
  "domain_items m [] (quota_pairs (q # qs) m) =
    map (\<lambda>i. (q, OfEnvelope (new_envelope m (recipients m ! i)), push_bit 32 (word_of_nat (i + 1))))
      (first_of_domain [] 0 (recipients m))"
proof -
  have "list_all (\<lambda>(q, i, r). domain_part (address r) \<in> set (domains (recipients m) @ [])) (quota_pairs qs m)"
    by (auto simp: list_all_iff quota_pairs_def domains_def in_set_enumerate_eq)
  from domain_items_seen [OF this, of m] show ?thesis
    using domain_items_enumerate [of m "[]" q 0 "recipients m" "quota_pairs qs m"] by (simp add: quota_pairs_def)
qed

text \<open>Of the quotas for the domains of the recipients, only the first is ever checked.\<close>

lemma second_domain_quota_ignored:
  "domain_items m [] (quota_pairs (q # qs) m) = domain_items m [] (quota_pairs [q] m)"
  by (simp only: domain_items_first)

section \<open>What is given back\<close>

lemma released_ids_finished:
  assumes "list_all (\<lambda>r. \<not> pending r) rs"
  shows "set (released_ids seen pos rs) =
    (\<lambda>i. word_of_nat (i + 1)) ` {pos..<pos + length rs} \<union> (\<lambda>i. push_bit 32 (word_of_nat (i + 1))) ` set (first_of_domain seen pos rs)"
  using assms
proof (induction rs arbitrary: seen pos)
  case (Cons r rs)
  have "{pos..<pos + length (r # rs)} = insert pos {pos + 1..<pos + 1 + length rs}" by auto
  with Cons.IH [of seen "pos + 1"] Cons.IH [of "domain_part (address r) # seen" "pos + 1"] Cons.prems
    first_of_domain_cong [of "domain_part (address r) # seen" seen "pos + 1" rs]
  show ?case by (auto simp: insert_absorb)
qed simp

lemma item_keys_id: "(k, n) \<in> set (item_keys env (q, s, i)) \<Longrightarrow> quota_id k = i"
  by (auto simp: item_keys_def split: if_splits option.splits)

lemma quota_item_ids:
  "(q, s, i) \<in> set (quota_items qs m) \<Longrightarrow>
   i = 0 \<or> i \<in> (\<lambda>i. word_of_nat (i + 1)) ` {0..<length (recipients m)}
     \<or> i \<in> (\<lambda>i. push_bit 32 (word_of_nat (i + 1))) ` set (first_of_domain [] 0 (recipients m))"
proof -
  have d: "domain_items m [] (quota_pairs ds m) =
      (case ds of [] \<Rightarrow> [] | d # _ \<Rightarrow> map (\<lambda>i. (d, OfEnvelope (new_envelope m (recipients m ! i)), push_bit 32 (word_of_nat (i + 1))))
      (first_of_domain [] 0 (recipients m)))" for ds
    by (cases ds) (simp_all add: domain_items_first, simp add: quota_pairs_def)
  assume "(q, s, i) \<in> set (quota_items qs m)"
  then show ?thesis
    unfolding quota_items_def d
    by (auto simp: quota_pairs_def in_set_enumerate_eq split: list.splits)
qed

section \<open>Properties\<close>

text \<open>What a quota asks of a counter: if it applies to the subject, its counters are within its limits.\<close>

definition within :: "'e limit_env \<Rightarrow> database \<Rightarrow> 'e queue_quota \<Rightarrow> subject \<Rightarrow> bool" where
  "within env d q s \<longleftrightarrow>
    (quota_expr q \<noteq> [] \<and> eval_bool env (quota_expr q) s = Some True \<longrightarrow>
      (case quota_max_size q of Some n \<Rightarrow> used d (SizeKey (quota_new_key env q s) 0) \<le> n | None \<Rightarrow> True)
      \<and> (case quota_max_messages q of Some n \<Rightarrow> used d (CountKey (quota_new_key env q s) 0) \<le> n | None \<Rightarrow> True))"

definition first_in_domain :: "recipient list \<Rightarrow> nat \<Rightarrow> bool" where
  "first_in_domain rs i \<longleftrightarrow> domain_part (address (rs ! i)) \<notin> (\<lambda>r. domain_part (address r)) ` set (take i rs)"

lemma used_id: "used d (SizeKey k i) = used d (SizeKey k 0)" "used d (CountKey k i) = used d (CountKey k 0)"
  by (simp_all add: used_def)

lemma within_item:
  "list_all (\<lambda>(k, n). used d k \<le> n) (item_keys env (q, s, i)) \<longleftrightarrow> within env d q s"
  unfolding item_keys_def applies_def within_def
  by (auto simp: used_id [of _ _ i] split: option.split)

lemma set_first_of_domain:
  "pos + i \<in> set (first_of_domain seen pos rs) \<longleftrightarrow>
    i < length rs \<and> domain_part (address (rs ! i)) \<notin> set seen \<and> first_in_domain rs i"
proof (induction rs arbitrary: seen pos i)
  case (Cons r rs)
  have ge: "pos \<notin> set (first_of_domain s (Suc pos) rs)" for s
    using first_of_domain_ge [of "Suc pos" s rs] by (auto simp: list_all_iff)
  show ?case
  proof (cases i)
    case 0
    then show ?thesis using ge by (simp add: first_in_domain_def)
  next
    case (Suc j)
    have "pos + i \<in> set (first_of_domain s (pos + 1) rs) \<longleftrightarrow> pos + 1 + j \<in> set (first_of_domain s (pos + 1) rs)" for s
      using Suc by simp
    then show ?thesis using Suc Cons.IH [where pos = "pos + 1" and i = j] by (auto simp: first_in_domain_def)
  qed
qed simp

text \<open>The items that a message is checked for are all its quotas, if only one quota is for domains.\<close>

lemma quota_items_within:
  assumes "length (domain_quotas qs) \<le> 1" and "list_all (\<lambda>(k, n). used d k \<le> n) (concat (map (item_keys env) (quota_items qs m)))"
  shows "list_all (\<lambda>q. within env d q (OfMessage m)) (sender_quotas qs)"
    and "list_all (\<lambda>q. list_all (\<lambda>r. within env d q (OfEnvelope (new_envelope m r))) (recipients m)) (rcpt_quotas qs)"
    and "list_all (\<lambda>q. list_all (\<lambda>i. first_in_domain (recipients m) i \<longrightarrow> within env d q (OfEnvelope (new_envelope m (recipients m ! i))))
      [0..<length (recipients m)]) (domain_quotas qs)"
proof -
  have w: "within env d q s" if "(q, s, i) \<in> set (quota_items qs m)" for q s i
    using assms(2) that unfolding within_item [of d env q s i, symmetric] by (auto simp: list_all_iff)
  show "list_all (\<lambda>q. within env d q (OfMessage m)) (sender_quotas qs)"
    using w [where i = 0] by (auto simp: list_all_iff quota_items_def)
  show "list_all (\<lambda>q. list_all (\<lambda>r. within env d q (OfEnvelope (new_envelope m r))) (recipients m)) (rcpt_quotas qs)"
  proof -
    have "(q, OfEnvelope (new_envelope m (recipients m ! i)), word_of_nat (i + 1)) \<in> set (quota_items qs m)"
      if "q \<in> set (rcpt_quotas qs)" "i < length (recipients m)" for q i
      using that by (force simp: quota_items_def quota_pairs_def in_set_enumerate_eq)
    with w show ?thesis by (fastforce simp: list_all_iff in_set_conv_nth)
  qed
  show "list_all (\<lambda>q. list_all (\<lambda>i. first_in_domain (recipients m) i \<longrightarrow> within env d q (OfEnvelope (new_envelope m (recipients m ! i))))
      [0..<length (recipients m)]) (domain_quotas qs)"
  proof (cases "domain_quotas qs")
    case (Cons q qs')
    with assms(1) have q: "domain_quotas qs = [q]" by simp
    have "i \<in> set (first_of_domain [] 0 (recipients m))" if "i < length (recipients m)" "first_in_domain (recipients m) i" for i
      using set_first_of_domain [of 0 i "[]" "recipients m"] that by simp
    then have "(q, OfEnvelope (new_envelope m (recipients m ! i)), push_bit 32 (word_of_nat (i + 1))) \<in> set (quota_items qs m)"
      if "i < length (recipients m)" "first_in_domain (recipients m) i" for i
      using that unfolding quota_items_def q domain_items_first by auto
    then have "within env d q (OfEnvelope (new_envelope m (recipients m ! i)))"
      if "i < length (recipients m)" "first_in_domain (recipients m) i" for i
      using that by (blast intro: w)
    with q show ?thesis by (simp add: list_all_iff)
  qed simp
qed

text \<open>
  C21. Quotas hold: if a message passes the check and is then queued, no quota that applies to it is
  above its limit afterwards: none of the quotas for the sender, none of those for recipients, for any
  recipient, and not the quota for domains, for the first recipient of any domain. This supposes that
  there is at most one quota for domains, since further ones are never checked
  (\<open>second_domain_quota_ignored\<close>), and that no two of the message's quotas share a counter, since each
  is compared with the counter before any is reserved (\<open>shared_counter_exceeds_quota\<close>).
\<close>

theorem quota_limits_hold:
  assumes quota: "has_quota env qs (data st) m = Some (message mw)" and one: "length (domain_quotas qs) \<le> 1"
    and distinct: "distinct (map quota_class (quota_keys (message mw)))"
    and spool: "spool_env_ok senv" "names_ok m" "counters_ok (data st) (message mw)" "message_size m \<noteq> 0"
      "events_of (data st) (queue_id mw) = {}"
    and stored: "archive senv (stamp_message senv source raw (message mw)) \<noteq> None"
      "put_blob senv (generate_hash senv raw) raw (blobs st) \<noteq> None"
  shows "\<exists>st'. queue_message senv now None raw source mw st = (True, st')
    \<and> list_all (\<lambda>q. within env (data st') q (OfMessage m)) (sender_quotas qs)
    \<and> list_all (\<lambda>q. list_all (\<lambda>r. within env (data st') q (OfEnvelope (new_envelope m r))) (recipients m)) (rcpt_quotas qs)
    \<and> list_all (\<lambda>q. list_all (\<lambda>i. first_in_domain (recipients m) i \<longrightarrow>
        within env (data st') q (OfEnvelope (new_envelope m (recipients m ! i)))) [0..<length (recipients m)]) (domain_quotas qs)"
proof -
  let ?items = "concat (map (item_keys env) (quota_items qs m))"
  have room: "list_all (has_room (data st) m) ?items" and mw: "message mw = m\<lparr>quota_keys := map fst ?items\<rparr>"
    using quota by (auto simp: has_quota_keys split: if_splits)
  let ?m = "stamp_message senv source raw (message mw)"
  obtain bs bl where a: "archive senv ?m = Some bs" "put_blob senv (blob_hash ?m) raw (blobs st) = Some bl"
    using stored by auto
  have n: "names_ok (message mw)" using spool(2) mw by (simp add: names_ok_def)
  obtain st' where st': "queue_message senv now None raw source mw st = (True, st')"
    "\<forall>q. used (data st') q = used (data st) q + reserved ?m q"
    using queue_message_effect [OF spool(1) n spool(3) _ refl a(1) a(2) spool(5), where raw_headers = None and raw_message = raw and now = now]
    by auto
  have "used (data st') k \<le> b" if "(k, b) \<in> set ?items" for k b
  proof -
    have "quota_keys ?m = map fst ?items" and d: "distinct (map quota_class (quota_keys ?m))" using mw distinct by simp_all
    then have k: "k \<in> set (quota_keys ?m)" using that by force
    have "filter (\<lambda>x. quota_class x = quota_class k) ks = [k]" if "distinct (map quota_class ks)" "k \<in> set ks" for ks
      using that by (induction ks) (auto simp: filter_empty_conv image_iff)
    then have "reserved ?m k = quota_amount ?m k" using d k by (simp add: reserved_def)
    moreover have "message_size ?m = message_size m" using mw spool(4) by (simp add: stamp_message_def)
    then have "quota_amount ?m k = quota_amount m k" by (cases k) simp_all
    ultimately have "used (data st') k = used (data st) k + quota_amount m k" using st'(2) by simp
    with room that show ?thesis by (auto simp: list_all_iff has_room_def)
  qed
  then have "list_all (\<lambda>(k, n). used (data st') k \<le> n) ?items" by (auto simp: list_all_iff)
  from quota_items_within [OF one this] st'(1) show ?thesis by blast
qed

text \<open>
  Finished messages give their quotas back: once every recipient is done, the keys that a message
  still holds after a save are those of the sender, which the removal of the message gives back.
\<close>

theorem finished_message_keeps_sender_quotas:
  assumes "has_quota env qs d m = Some m'" and "map address rs = map address (recipients m)"
    and "list_all (\<lambda>r. \<not> pending r) rs"
  shows "list_all (\<lambda>k. quota_id k = 0) (quota_keys (released (m'\<lparr>recipients := rs\<rparr>)))"
proof -
  let ?items = "concat (map (item_keys env) (quota_items qs m))"
  have m': "m' = m\<lparr>quota_keys := map fst ?items\<rparr>" using assms(1) by (auto simp: has_quota_keys split: if_splits)
  have l: "length rs = length (recipients m)" using assms(2) by (rule map_eq_imp_length_eq)
  have "first_of_domain s p rs = first_of_domain s p rs'" if "map address rs = map address rs'" for s p and rs rs' :: "recipient list"
    using that
  proof (induction rs arbitrary: rs' s p)
    case (Cons r rs)
    then obtain r' rs'' where "rs' = r' # rs''" by (cases rs') auto
    with Cons show ?case by auto
  qed simp
  then have f: "first_of_domain [] 0 rs = first_of_domain [] 0 (recipients m)" using assms(2) by blast
  have "quota_id k = 0 \<or> quota_id k \<in> set (released_ids [] 0 rs)" if k: "k \<in> fst ` set ?items" for k
  proof -
    from k obtain x where "x \<in> set ?items" "k = fst x" by (rule imageE)
    then have that: "(k, snd x) \<in> set ?items" by (simp only: prod.collapse)
    then obtain item where "item \<in> set (quota_items qs m)" "(k, snd x) \<in> set (item_keys env item)"
      unfolding set_concat set_map by blast
    then obtain q s i where i: "(q, s, i) \<in> set (quota_items qs m)" "(k, snd x) \<in> set (item_keys env (q, s, i))"
      by - (cases item, simp)
    then have "quota_id k = i" by (blast dest: item_keys_id)
    with quota_item_ids [OF i(1)] l show ?thesis
      unfolding released_ids_finished [OF assms(3)] f by auto
  qed
  then show ?thesis unfolding m' released_def done_key_def list_all_iff by (auto simp del: set_concat)
qed

section \<open>Instances\<close>

definition limit_test_env :: "unit limit_env" where
  "limit_test_env = \<lparr>eval_bool = (\<lambda>_ _. Some True), blake3 = (\<lambda>_. ''k''), show_ip = (\<lambda>_. []), ne_bytes = (\<lambda>_. [])\<rparr>"

definition count_quota :: "u64 \<Rightarrow> unit queue_quota" where
  "count_quota n = \<lparr>quota_expr = [()], quota_by = 0, quota_max_size = None, quota_max_messages = Some n\<rparr>"

abbreviation "two_recipients \<equiv> [waiting dq Scheduled, waiting dq Scheduled]"

lemma count_quota_keys [simp]:
  "item_keys limit_test_env (count_quota n, s, i) = [(CountKey ''k'' i, n)]"
  by (simp add: item_keys_def applies_def limit_test_env_def count_quota_def quota_new_key_def)

lemma spool_message_keys [simp]: "(spool_message ks rs)\<lparr>quota_keys := ks'\<rparr> = spool_message ks' rs"
  by (simp add: spool_message_def test_message_def)

theorem quota_limits_hold_witness:
  "\<exists>st'. queue_message (table_env [stamp_message (table_env []) SourceDsn [97] (spool_message [CountKey ''k'' 0] two_recipients)])
      100 None [97] SourceDsn (worker dq False (spool_message [CountKey ''k'' 0] two_recipients)) \<lparr>data = Map.empty, blobs = Map.empty\<rparr> = (True, st')
    \<and> used (data st') (CountKey ''k'' 0) \<le> 5"
proof -
  let ?m = "stamp_message (table_env []) SourceDsn [97] (spool_message [CountKey ''k'' 0] two_recipients)"
  let ?env = "table_env [?m]"
  let ?st = "\<lparr>data = Map.empty, blobs = Map.empty\<rparr>"
  let ?qs = "\<lparr>sender_quotas = [count_quota 5], domain_quotas = [], rcpt_quotas = []\<rparr>"
  have m: "?m = stamp_message ?env SourceDsn [97] (spool_message [CountKey ''k'' 0] two_recipients)" by (simp add: stamp_message_def table_env_def)
  obtain bs where bs: "archive ?env ?m = Some bs" using table_archive_some [of ?m "[?m]"] by auto
  have u: "used Map.empty q = 0" for q by (simp add: used_def counter_def)
  have q: "quota_items ?qs (spool_message [] two_recipients) = [(count_quota 5, OfMessage (spool_message [] two_recipients), 0)]"
    by (simp add: quota_items_def quota_pairs_def)
  have h: "has_quota limit_test_env ?qs (data ?st) (spool_message [] two_recipients) = Some (message (worker dq False (spool_message [CountKey ''k'' 0] two_recipients)))"
    by (simp add: has_quota_keys q has_room_def u)
  have p: "put_blob ?env (generate_hash ?env [97]) [97] (blobs ?st) \<noteq> None" by (simp add: table_env_def)
  have one: "length (domain_quotas ?qs) \<le> 1" by simp
  have r: "distinct (map quota_class (quota_keys (message (worker dq False (spool_message [CountKey ''k'' 0] two_recipients)))))"
    "names_ok (spool_message [] two_recipients)" "message_size (spool_message [] two_recipients) \<noteq> 0"
    "counters_ok (data ?st) (message (worker dq False (spool_message [CountKey ''k'' 0] two_recipients)))"
    "events_of (data ?st) (queue_id (worker dq False (spool_message [CountKey ''k'' 0] two_recipients))) = {}"
    by (simp_all add: counters_ok_def counter_ok_def events_of_def)
  have a: "archive ?env (stamp_message ?env SourceDsn [97] (message (worker dq False (spool_message [CountKey ''k'' 0] two_recipients)))) \<noteq> None"
    using bs m by simp
  have k: "quota_new_key limit_test_env (count_quota 5) s = ''k''" for s by (simp add: limit_test_env_def quota_new_key_def)
  have w: "within limit_test_env d (count_quota 5) s \<longleftrightarrow> used d (CountKey ''k'' 0) \<le> 5" for d s
    unfolding within_def k by (simp add: limit_test_env_def count_quota_def)
  from quota_limits_hold [OF h one r(1) table_env_ok r(2,4,3,5) a p, of 100] show ?thesis by (simp add: w)
qed

theorem finished_message_keeps_sender_quotas_witness:
  "\<exists>m. has_quota limit_test_env \<lparr>sender_quotas = [count_quota 5], domain_quotas = [], rcpt_quotas = [count_quota 5]\<rparr> Map.empty
      (spool_message [] [waiting dq Scheduled]) = Some m
    \<and> quota_keys m = [CountKey ''k'' 0, CountKey ''k'' 1]
    \<and> list_all (\<lambda>k. quota_id k = 0) (quota_keys (released (m\<lparr>recipients := [waiting dq delivered]\<rparr>)))"
proof -
  let ?qs = "\<lparr>sender_quotas = [count_quota 5], domain_quotas = [], rcpt_quotas = [count_quota 5]\<rparr>"
  let ?m = "spool_message [] [waiting dq Scheduled]"
  have u: "used Map.empty q = 0" for q by (simp add: used_def counter_def)
  have h: "has_quota limit_test_env ?qs Map.empty ?m = Some (spool_message [CountKey ''k'' 0, CountKey ''k'' 1] [waiting dq Scheduled])"
    by (simp add: has_quota_keys quota_items_def quota_pairs_def has_room_def u)
  have "map address [waiting dq delivered] = map address (recipients ?m)" by (simp add: waiting_def)
  from finished_message_keeps_sender_quotas [OF h this] h show ?thesis by simp
qed

text \<open>
  Recipients that share a counter are checked one by one against the same count: a quota of one
  message lets a message with two recipients through, which then reserves two.
\<close>

lemma shared_counter_exceeds_quota:
  "\<exists>m. has_quota limit_test_env \<lparr>sender_quotas = [], domain_quotas = [], rcpt_quotas = [count_quota 1]\<rparr> Map.empty
      (spool_message [] two_recipients) = Some m
    \<and> reserved m (CountKey ''k'' 1) = 2"
  by (simp add: has_quota_keys quota_items_def quota_pairs_def has_room_def used_def counter_def reserved_def)

end
