(* ===== verification/Queue_Manager.thy ===== *)
theory Queue_Manager
  imports Smtp_Delivery Store_Lookup "HOL-Library.AList" "HOL-Library.Multiset"
begin

text \<open>
  The queue manager (\<open>crates/smtp/src/queue/manager.rs\<close>) and the operations of the spool that it
  works with (\<open>next_event\<close>, \<open>try_lock_event\<close> and \<open>unlock_event\<close> of \<open>crates/smtp/src/queue/spool.rs\<close>):
  one task that reads the index of events, starts a worker for every message that is due, as many
  as the queues have threads, and is told by the workers how they ended.

  A clock reading \<open>now\<close> is in seconds since the epoch, an \<open>instant\<close> counts the seconds of the
  monotonic clock. \<open>None\<close> is a panic: an \<open>unwrap\<close> of \<open>None\<close> or a counter below zero. The time of the
  last back-pressure warning only limits log lines and is left out.
\<close>

section \<open>State\<close>

type_synonym instant = nat

record queue_stats =
  in_flight :: nat
  max_in_flight :: nat

record locked_message =
  lock_expires :: u64
  lock_revision :: u64

type_synonym lock_key = "u64 \<times> queue_name"

record queue_manager =
  locked :: "(lock_key \<times> locked_message) list"
  locked_revision :: u64
  queue_stats_of :: "queue_name \<Rightarrow> queue_stats option"
  next_refresh :: instant
  is_paused :: bool
  is_closed :: bool

record queued_message =
  msg_due :: u64
  msg_id :: u64
  msg_queue :: queue_name

record queued_messages =
  due_messages :: "queued_message list"
  refresh_at :: u64

datatype queue_event =
  Refresh | WorkerDone u64 queue_name queue_event_status | Paused bool | ReloadSettings | Stop

definition LOCK_EXPIRY :: u64 where "LOCK_EXPIRY = 600"
definition QUEUE_REFRESH :: u64 where "QUEUE_REFRESH = 300"
definition INFINITE_LOCK :: u64 where "INFINITE_LOCK = 31536000"

definition stats_new :: "nat \<Rightarrow> queue_stats" where
  "stats_new threads = \<lparr>in_flight = 0, max_in_flight = threads\<rparr>"

definition has_capacity :: "queue_stats \<Rightarrow> bool" where
  "has_capacity st \<longleftrightarrow> in_flight st < max_in_flight st"

definition manager_new :: "instant \<Rightarrow> queue_manager" where
  "manager_new t = \<lparr>locked = [], locked_revision = 0, queue_stats_of = Map.empty, next_refresh = t + 1,
     is_paused = False, is_closed = False\<rparr>"

text \<open>\<open>virtual_queues\<close> of the configuration and \<open>get_virtual_queue_or_default\<close>: the threads of a queue.\<close>

definition get_virtual_queue_or_default :: "(queue_name \<times> nat) list \<Rightarrow> queue_name \<Rightarrow> nat" where
  "get_virtual_queue_or_default queues name = (case map_of queues name of Some threads \<Rightarrow> threads | None \<Rightarrow> 25)"

section \<open>Reading the index of events\<close>

definition queue_name_of_bytes :: "bytes \<Rightarrow> queue_name option" where
  "queue_name_of_bytes bs = (if length bs = 8 then Some (map (\<lambda>b. char_of (unat b)) bs) else None)"

text \<open>\<open>add_event\<close>: whether the message is taken, and its lock.\<close>

definition lock_for :: "u64 \<Rightarrow> u64 \<Rightarrow> locked_message" where
  "lock_for now revision = \<lparr>lock_expires = now + INFINITE_LOCK, lock_revision = revision\<rparr>"

definition may_start :: "queue_manager \<Rightarrow> queue_name \<Rightarrow> bool" where
  "may_start q name \<longleftrightarrow> (case queue_stats_of q name of Some st \<Rightarrow> has_capacity st | None \<Rightarrow> True)"

definition take_event :: "u64 \<Rightarrow> lock_key \<Rightarrow> queue_manager \<Rightarrow> queued_messages \<Rightarrow> bool \<times> queue_manager \<times> queued_messages" where
  "take_event now key q ev =
    (if may_start q (snd key) then
       (case map_of (locked q) key of
          Some l \<Rightarrow>
            if lock_expires l \<le> now then
              (True, q\<lparr>locked := AList.update key (lock_for now (locked_revision q)) (locked q)\<rparr>, ev)
            else
              (False, q\<lparr>locked := AList.update key (l\<lparr>lock_revision := locked_revision q\<rparr>) (locked q)\<rparr>,
               ev\<lparr>refresh_at := min (lock_expires l) (refresh_at ev)\<rparr>)
        | None \<Rightarrow> (True, q\<lparr>locked := AList.update key (lock_for now (locked_revision q)) (locked q)\<rparr>, ev))
     else (False, q, ev))"

text \<open>
  The iteration over the keys of the events, in their order; a key that can not be read ends it, and
  what was found so far is kept.
\<close>

fun scan_events :: "u64 \<Rightarrow> bytes list \<Rightarrow> queue_manager \<Rightarrow> queued_messages \<Rightarrow> queue_manager \<times> queued_messages" where
  "scan_events now [] q ev = (q, ev)"
| "scan_events now (key # keys) q ev =
    (case deserialize_be_u64 key 0 of
       None \<Rightarrow> (q, ev)
     | Some t \<Rightarrow>
        if t \<le> now then
          (case (deserialize_be_u64 key 8, queue_name_of_bytes (drop 16 key)) of
             (Some qid, Some name) \<Rightarrow>
               (case take_event now (qid, name) q ev of
                  (taken, q, ev) \<Rightarrow>
                    scan_events now keys q
                      (if taken then ev\<lparr>due_messages := due_messages ev @ [\<lparr>msg_due = t, msg_id = qid, msg_queue = name\<rparr>]\<rparr>
                       else ev))
           | _ \<Rightarrow> (q, ev))
        else (q, ev\<lparr>refresh_at := min t (refresh_at ev)\<rparr>))"

text \<open>\<open>keys\<close> is what the store yields between the two bounds.\<close>

definition next_events_due :: "u64 \<Rightarrow> bytes list \<Rightarrow> queue_manager \<Rightarrow> queue_manager \<times> queued_messages" where
  "next_events_due now keys q =
    scan_events now keys (q\<lparr>locked_revision := locked_revision q + 1\<rparr>) \<lparr>due_messages = [], refresh_at = now + QUEUE_REFRESH\<rparr>"

definition scan_bounds :: "u64 \<Rightarrow> bytes \<times> bytes" where
  "scan_bounds now = (be64 0 @ be64 0 @ replicate 8 0, be64 (now + QUEUE_REFRESH) @ be64 (- 1) @ replicate 8 255)"

section \<open>Events and workers\<close>

text \<open>\<open>handle_event\<close>; \<open>jitter\<close> is the random number from 5 to 9 that it draws.\<close>

definition worker_done ::
  "u64 \<Rightarrow> instant \<Rightarrow> u64 \<Rightarrow> u64 \<Rightarrow> queue_name \<Rightarrow> queue_event_status \<Rightarrow> queue_manager \<Rightarrow> (bool \<times> queue_manager) option" where
  "worker_done now t jitter qid name st q =
    (case queue_stats_of q name of
       None \<Rightarrow> None
     | Some stats \<Rightarrow>
        if in_flight stats = 0 then None
        else
          (let stats = stats\<lparr>in_flight := in_flight stats - 1\<rparr>;
               q = q\<lparr>queue_stats_of := (queue_stats_of q)(name \<mapsto> stats)\<rparr> in
           Some (case st of
              EventCompleted \<Rightarrow>
                (let q = q\<lparr>locked := AList.delete (qid, name) (locked q)\<rparr> in (locked q \<noteq> [] \<or> \<not> has_capacity stats, q))
            | EventLocked \<Rightarrow>
                (let expires = LOCK_EXPIRY + jitter;
                     due_in = t + unat expires;
                     q = q\<lparr>next_refresh := min due_in (next_refresh q),
                           locked := AList.update (qid, name)
                             \<lparr>lock_expires = now + expires, lock_revision = locked_revision q\<rparr> (locked q)\<rparr> in
                 (length (locked q) > 1 \<or> \<not> has_capacity stats, q))
            | EventDeferred \<Rightarrow> (True, q\<lparr>locked := AList.delete (qid, name) (locked q)\<rparr>))))"

fun reload_settings :: "(queue_name \<times> nat) list \<Rightarrow> (queue_name \<Rightarrow> queue_stats option) \<Rightarrow> (queue_name \<Rightarrow> queue_stats option)" where
  "reload_settings [] st = st"
| "reload_settings ((name, threads) # qs) st =
    reload_settings qs (st(name \<mapsto> (case st name of Some s \<Rightarrow> s\<lparr>max_in_flight := threads\<rparr> | None \<Rightarrow> stats_new threads)))"

fun handle_event ::
  "(queue_name \<times> nat) list \<Rightarrow> u64 \<Rightarrow> instant \<Rightarrow> u64 \<Rightarrow> queue_event \<Rightarrow> queue_manager \<Rightarrow> (bool \<times> queue_manager) option" where
  "handle_event queues now t jitter (WorkerDone qid name st) q = worker_done now t jitter qid name st q"
| "handle_event queues now t jitter Refresh q = Some (True, q)"
| "handle_event queues now t jitter (Paused p) q = Some (False, q\<lparr>is_paused := p\<rparr>)"
| "handle_event queues now t jitter ReloadSettings q =
    Some (False, q\<lparr>queue_stats_of := reload_settings queues (queue_stats_of q)\<rparr>)"
| "handle_event queues now t jitter Stop q = Some (False, q\<lparr>is_closed := True, is_paused := True\<rparr>)"

fun handle_events ::
  "(queue_name \<times> nat) list \<Rightarrow> u64 \<Rightarrow> instant \<Rightarrow> u64 \<Rightarrow> queue_event list \<Rightarrow> bool \<Rightarrow> queue_manager \<Rightarrow> (bool \<times> queue_manager) option" where
  "handle_events queues now t jitter [] refresh q = Some (refresh, q)"
| "handle_events queues now t jitter (e # es) refresh q =
    (case handle_event queues now t jitter e q of
       None \<Rightarrow> None
     | Some (r, q) \<Rightarrow> handle_events queues now t jitter es (r \<or> refresh) q)"

text \<open>A worker for each message that is due, while its queue has a thread left.\<close>

fun start_workers ::
  "(queue_name \<times> nat) list \<Rightarrow> queued_message list \<Rightarrow> queue_manager \<Rightarrow> queued_message list \<times> queue_manager" where
  "start_workers queues [] q = ([], q)"
| "start_workers queues (m # ms) q =
    (let stats = (case queue_stats_of q (msg_queue m) of
                    Some st \<Rightarrow> st | None \<Rightarrow> stats_new (get_virtual_queue_or_default queues (msg_queue m))) in
     if has_capacity stats then
       (case start_workers queues ms
               (q\<lparr>queue_stats_of := (queue_stats_of q)(msg_queue m \<mapsto> stats\<lparr>in_flight := in_flight stats + 1\<rparr>)\<rparr>) of
          (started, q) \<Rightarrow> (m # started, q))
     else
       start_workers queues ms
         (q\<lparr>queue_stats_of := (queue_stats_of q)(msg_queue m \<mapsto> stats),
            locked := AList.delete (msg_id m, msg_queue m) (locked q)\<rparr>))"

definition drop_stale_locks :: "u64 \<Rightarrow> queue_manager \<Rightarrow> queue_manager" where
  "drop_stale_locks now q =
    q\<lparr>locked := filter (\<lambda>(_, l). lock_expires l > now \<and> lock_revision l = locked_revision q) (locked q)\<rparr>"

text \<open>
  One turn of the loop in \<open>start\<close>: the events that have arrived (none if the wait timed out), then,
  unless the queue is paused, the messages that are due. \<open>shuffle\<close> is the random order in which more
  than three messages are taken.
\<close>

record round_input =
  round_events :: "queue_event list"
  round_now :: u64
  round_end :: u64
  round_time :: instant
  round_jitter :: u64
  round_keys :: "bytes list"
  round_shuffle :: "queued_message list \<Rightarrow> queued_message list"

definition manager_round ::
  "(queue_name \<times> nat) list \<Rightarrow> round_input \<Rightarrow> queue_manager \<Rightarrow> (queued_message list \<times> queue_manager) option" where
  "manager_round queues r q =
    (case handle_events queues (round_now r) (round_time r) (round_jitter r) (round_events r) (round_events r = []) q of
       None \<Rightarrow> None
     | Some (refresh, q) \<Rightarrow>
        Some (if \<not> is_paused q then
          (if refresh \<or> next_refresh q \<le> round_time r then
             (case next_events_due (round_now r) (round_keys r) q of
                (q, ev) \<Rightarrow>
                  (case start_workers queues
                     ((if length (due_messages ev) > 3 then round_shuffle r else id) (due_messages ev)) q of
                     (started, q) \<Rightarrow>
                       (started, (drop_stale_locks (round_end r) q)
                          \<lparr>next_refresh := round_time r + (unat (refresh_at ev) - unat (round_end r))\<rparr>)))
           else ([], q))
         else ([], q\<lparr>next_refresh := round_time r + 86400\<rparr>)))"

section \<open>The lock in the store\<close>

definition KV_LOCK_QUEUE_MESSAGE :: u8 where "KV_LOCK_QUEUE_MESSAGE = 21"

definition lock_id :: "u64 \<Rightarrow> queue_name \<Rightarrow> bytes" where
  "lock_id qid name = be64 qid @ bytes_of name"

definition try_lock_event :: "u64 \<Rightarrow> u64 \<Rightarrow> queue_name \<Rightarrow> database \<Rightarrow> bool \<times> database" where
  "try_lock_event now qid name d =
    (case try_lock now KV_LOCK_QUEUE_MESSAGE (lock_id qid name) LOCK_EXPIRY d of
       Inl _ \<Rightarrow> (False, d) | Inr (ok, d') \<Rightarrow> (ok, d'))"

definition unlock_event :: "u64 \<Rightarrow> queue_name \<Rightarrow> database \<Rightarrow> database" where
  "unlock_event qid name d =
    (case remove_lock KV_LOCK_QUEUE_MESSAGE (lock_id qid name) d of Inl _ \<Rightarrow> d | Inr d' \<Rightarrow> d')"

end
