(* ===== verification/Manager_Properties.thy ===== *)
theory Manager_Properties
  imports Queue_Manager
begin

text \<open>
  What the queue manager guarantees: what a scan of the index takes, that the counters of the queues
  agree with the workers that run, in every state that the manager and its workers can reach, and
  that every long lock has its worker.
\<close>

section \<open>What a scan takes\<close>

abbreviation msg_key :: "queued_message \<Rightarrow> lock_key" where
  "msg_key m \<equiv> (msg_id m, msg_queue m)"

definition event_bytes :: "queued_message \<Rightarrow> bytes" where
  "event_bytes m = be64 (msg_due m) @ be64 (msg_id m) @ bytes_of (msg_queue m)"

text \<open>The keys in the index of events are these.\<close>

lemma event_bytes_key:
  "snd (vkey (event_class (msg_due m) (msg_id m) (msg_queue m))) = event_bytes m"
  by (simp add: vkey_def event_class_def class_serialize_def class_key_def queue_key.simps event_bytes_def)

lemma queue_name_bytes_of [simp]: "length name = 8 \<Longrightarrow> queue_name_of_bytes (bytes_of name) = Some name"
proof -
  have "char_of (unat (word_of_nat (byte c) :: u8)) = c" for c
    by (simp add: unat_of_nat take_bit_nat_eq_self byte_def)
  then show "length name = 8 \<Longrightarrow> ?thesis" by (simp add: queue_name_of_bytes_def bytes_of_def comp_def)
qed

lemma event_bytes_read:
  assumes "length (msg_queue m) = 8"
  shows "deserialize_be_u64 (event_bytes m) 0 = Some (msg_due m)" "deserialize_be_u64 (event_bytes m) 8 = Some (msg_id m)"
    "queue_name_of_bytes (drop 16 (event_bytes m)) = Some (msg_queue m)"
  using deserialize_be(3) [of "[]" 0 "msg_due m" "be64 (msg_id m) @ bytes_of (msg_queue m)"]
    deserialize_be(3) [of "be64 (msg_due m)" 8 "msg_id m" "bytes_of (msg_queue m)"] assms
  by (simp_all add: event_bytes_def)

lemma queued_message_eta: "\<lparr>msg_due = msg_due m, msg_id = msg_id m, msg_queue = msg_queue m\<rparr> = m"
  by simp

definition is_free :: "u64 \<Rightarrow> queue_manager \<Rightarrow> lock_key \<Rightarrow> bool" where
  "is_free now q k \<longleftrightarrow> may_start q (snd k) \<and> (case map_of (locked q) k of Some l \<Rightarrow> lock_expires l \<le> now | None \<Rightarrow> True)"

lemma map_of_update [simp]: "map_of (AList.update k v xs) = (map_of xs)(k \<mapsto> v)"
  by (rule update_conv')

lemma map_of_delete [simp]: "map_of (AList.delete k xs) = (map_of xs)(k := None)"
  by (rule delete_conv')

lemma take_event_takes:
  assumes "take_event now k q ev = (taken, q', ev')" and "now < now + INFINITE_LOCK"
  shows "taken \<longleftrightarrow> is_free now q k" and "due_messages ev' = due_messages ev"
    and "is_free now q' j \<longleftrightarrow> is_free now q j \<and> \<not> (j = k \<and> taken)"
    and "queue_stats_of q' = queue_stats_of q" and "locked_revision q' = locked_revision q"
  using assms
  by (auto simp: take_event_def is_free_def may_start_def lock_for_def split: if_splits option.splits)

lemma scan_events_keys:
  assumes "now < now + INFINITE_LOCK" and "list_all (\<lambda>m. length (msg_queue m) = 8) es" and "sorted (map msg_due es)"
    and "scan_events now (map event_bytes es) q ev = (q', ev')"
  shows "\<exists>ms. due_messages ev' = due_messages ev @ ms \<and> distinct (map msg_key ms)
    \<and> set ms \<subseteq> set es
    \<and> msg_key ` set ms = msg_key ` {m \<in> set es. msg_due m \<le> now \<and> is_free now q (msg_key m)}
    \<and> list_all (\<lambda>m. msg_due m \<le> now) ms"
  using assms(2-)
proof (induction es arbitrary: q ev)
  case (Cons m es)
  have m: "length (msg_queue m) = 8" using Cons.prems(1) by simp
  show ?case
  proof (cases "msg_due m \<le> now")
    case True
    obtain taken q1 ev1 where a: "take_event now (msg_key m) q ev = (taken, q1, ev1)" by (metis prod_cases3)
    let ?ev = "if taken then ev1\<lparr>due_messages := due_messages ev1 @ [m]\<rparr> else ev1"
    have s: "scan_events now (map event_bytes es) q1 ?ev = (q', ev')"
      using Cons.prems(3) a True event_bytes_read [OF m] by (cases taken) (simp_all add: queued_message_eta)
    note t = take_event_takes [OF a assms(1)]
    from Cons.IH [OF _ _ s] Cons.prems(1,2) obtain ms where
      ms: "due_messages ev' = due_messages ?ev @ ms" "distinct (map msg_key ms)" "set ms \<subseteq> set es"
      "msg_key ` set ms = msg_key ` {x \<in> set es. msg_due x \<le> now \<and> is_free now q1 (msg_key x)}"
      "list_all (\<lambda>m. msg_due m \<le> now) ms" by auto
    show ?thesis
    proof (cases taken)
      case True
      have "msg_key m \<notin> msg_key ` set ms" unfolding ms(4) using t(3) [of "msg_key m"] True by auto
      moreover have "msg_key ` set (m # ms) = msg_key ` {x \<in> set (m # es). msg_due x \<le> now \<and> is_free now q (msg_key x)}"
      proof -
        have "msg_key ` set ms = msg_key ` {x \<in> set es. msg_due x \<le> now \<and> is_free now q (msg_key x)} - {msg_key m}"
          unfolding ms(4) using t(3) True by auto
        moreover have "is_free now q (msg_key m)" using t(1) True by simp
        ultimately show ?thesis using \<open>msg_due m \<le> now\<close> by auto
      qed
      ultimately show ?thesis using True ms t(2) \<open>msg_due m \<le> now\<close> by (intro exI [of _ "m # ms"]) auto
    next
      case False
      have "msg_key ` set ms = msg_key ` {x \<in> set (m # es). msg_due x \<le> now \<and> is_free now q (msg_key x)}"
        unfolding ms(4) using t(1,3) False by auto
      with False ms t(2) show ?thesis by (intro exI [of _ ms]) auto
    qed
  next
    case False
    then have "{x \<in> set (m # es). msg_due x \<le> now} = {}" using Cons.prems(2) by fastforce
    then have "{x \<in> set (m # es). msg_due x \<le> now \<and> P x} = {}" for P by blast
    with False Cons.prems(3) event_bytes_read [OF m] show ?thesis by (intro exI [of _ "[]"]) auto
  qed
qed simp

section \<open>The manager and its workers\<close>

datatype stage = Starting | Delivering | Ended queue_event_status

type_synonym running = "(queued_message \<times> stage) multiset"

record queue_system =
  manager :: queue_manager
  running :: running
  clock_reading :: u64

text \<open>The workers whose end is among the events of a round.\<close>

fun consumes :: "queue_event list \<Rightarrow> running \<Rightarrow> running \<Rightarrow> bool" where
  "consumes [] W W' \<longleftrightarrow> W' = W"
| "consumes (WorkerDone qid name st # es) W W' \<longleftrightarrow>
    (\<exists>m. msg_key m = (qid, name) \<and> (m, Ended st) \<in># W \<and> consumes es (W - {#(m, Ended st)#}) W')"
| "consumes (_ # es) W W' \<longleftrightarrow> consumes es W W'"

definition moves :: "stage \<Rightarrow> stage \<Rightarrow> bool" where
  "moves a b \<longleftrightarrow> a = Starting \<and> b \<in> {Delivering, Ended EventLocked, Ended EventCompleted}
    \<or> a = Delivering \<and> b \<in> {Ended EventCompleted, Ended EventDeferred}"

definition round_ok :: "queue_system \<Rightarrow> round_input \<Rightarrow> bool" where
  "round_ok s r \<longleftrightarrow> clock_reading s \<le> round_now r \<and> round_now r \<le> round_end r \<and> unat (round_jitter r) < 10
    \<and> (\<forall>ms. mset (round_shuffle r ms) = mset ms)"

text \<open>
  Each round builds the server anew and reads the queues of the configuration it has then: they may be
  any of \<open>Q\<close> in every round, since the configuration can be reloaded at any time.
\<close>

inductive queue_step :: "(queue_name \<times> nat) list set \<Rightarrow> queue_system \<Rightarrow> queue_system \<Rightarrow> bool" for Q where
  Work: "(m, a) \<in># running s \<Longrightarrow> moves a b \<Longrightarrow>
    queue_step Q s (s\<lparr>running := running s - {#(m, a)#} + {#(m, b)#}\<rparr>)"
| Round: "queues \<in> Q \<Longrightarrow> round_ok s r \<Longrightarrow> consumes (round_events r) (running s) W \<Longrightarrow>
    manager_round queues r (manager s) = Some (started, q) \<Longrightarrow>
    queue_step Q s \<lparr>manager = q, running = W + mset (map (\<lambda>m. (m, Starting)) started), clock_reading = round_end r\<rparr>"

inductive queue_run :: "(queue_name \<times> nat) list set \<Rightarrow> queue_system \<Rightarrow> bool" for Q where
  Launch: "queue_run Q \<lparr>manager = manager_new t, running = {#}, clock_reading = now\<rparr>"
| Next: "queue_run Q s \<Longrightarrow> queue_step Q s s' \<Longrightarrow> queue_run Q s'"

section \<open>The invariant\<close>

definition workers_of :: "queue_name \<Rightarrow> running \<Rightarrow> nat" where
  "workers_of name W = size (filter_mset (\<lambda>(m, _). msg_queue m = name) W)"

text \<open>The most threads that any of the configurations gives a queue.\<close>

definition threads_within :: "(queue_name \<times> nat) list set \<Rightarrow> queue_name \<Rightarrow> nat \<Rightarrow> bool" where
  "threads_within Q name N \<longleftrightarrow> (\<forall>queues \<in> Q. get_virtual_queue_or_default queues name \<le> N)"

definition name_ok :: "(queue_name \<times> nat) list set \<Rightarrow> queue_name \<Rightarrow> queue_stats option \<Rightarrow> nat \<Rightarrow> bool" where
  "name_ok Q name st n \<longleftrightarrow>
    (case st of
       Some st \<Rightarrow> in_flight st = n \<and> (\<forall>N. threads_within Q name N \<longrightarrow> max_in_flight st \<le> N \<and> n \<le> N)
     | None \<Rightarrow> n = 0)"

definition stats_ok :: "(queue_name \<times> nat) list set \<Rightarrow> queue_manager \<Rightarrow> running \<Rightarrow> bool" where
  "stats_ok Q q W \<longleftrightarrow> (\<forall>name. name_ok Q name (queue_stats_of q name) (workers_of name W))"

lemma new_stats_ok: "queues \<in> Q \<Longrightarrow> name_ok Q name (Some (stats_new (get_virtual_queue_or_default queues name))) 0"
  by (simp add: name_ok_def stats_new_def threads_within_def)

lemma stats_ok_update:
  "stats_ok Q q W \<Longrightarrow> queue_stats_of q' = (queue_stats_of q)(n \<mapsto> st) \<Longrightarrow> name_ok Q n (Some st) (workers_of n W') \<Longrightarrow>
   (\<And>n'. n' \<noteq> n \<Longrightarrow> workers_of n' W' = workers_of n' W) \<Longrightarrow> stats_ok Q q' W'"
  by (simp add: stats_ok_def)

lemma stats_ok_same:
  "stats_ok Q q W \<Longrightarrow> queue_stats_of q' = queue_stats_of q \<Longrightarrow> stats_ok Q q' W"
  by (simp add: stats_ok_def)

definition lock_ok :: "(lock_key \<Rightarrow> bool) \<Rightarrow> u64 \<Rightarrow> queue_manager \<Rightarrow> running \<Rightarrow> bool" where
  "lock_ok taken now q W \<longleftrightarrow> distinct (map fst (locked q)) \<and>
    (\<forall>k l. map_of (locked q) k = Some l \<longrightarrow>
       taken k \<or> unat (lock_expires l) \<le> unat now + 609 \<or> (\<exists>m st. (m, st) \<in># W \<and> msg_key m = k))"

lemma workers_of_simps [simp]:
  "workers_of name {#} = 0" "workers_of name (add_mset (m, st) W) = (if msg_queue m = name then 1 else 0) + workers_of name W"
  "workers_of name (W + W') = workers_of name W + workers_of name W'"
  by (simp_all add: workers_of_def)

lemma workers_of_remove: "(m, st) \<in># W \<Longrightarrow> workers_of name W = (if msg_queue m = name then 1 else 0) + workers_of name (W - {#(m, st)#})"
  using insert_DiffM [of "(m, st)" W] workers_of_simps(2) [of name m st "W - {#(m, st)#}"] by simp

text \<open>A worker that has ended is counted, so its end is accounted for without a panic.\<close>

lemma worker_done_stats:
  assumes "stats_ok Q q W" and "(m, e) \<in># W" and "msg_key m = (qid, name)"
  shows "\<exists>r q'. worker_done now t jitter qid name st q = Some (r, q') \<and> stats_ok Q q' (W - {#(m, e)#})"
proof -
  have c: "workers_of n W = (if n = name then 1 else 0) + workers_of n (W - {#(m, e)#})" for n
    using workers_of_remove [OF assms(2), of n] assms(3) by auto
  have k: "name_ok Q name (queue_stats_of q name) (workers_of name W)" using assms(1) by (simp add: stats_ok_def)
  then obtain s where s: "queue_stats_of q name = Some s" "in_flight s = Suc (workers_of name (W - {#(m, e)#}))"
    using c [of name] by (auto simp: name_ok_def split: option.splits)
  let ?s = "s\<lparr>in_flight := in_flight s - 1\<rparr>"
  obtain r q' where w: "worker_done now t jitter qid name st q = Some (r, q')" "queue_stats_of q' = (queue_stats_of q)(name \<mapsto> ?s)"
    using s by (cases st) (auto simp: worker_done_def Let_def)
  have "stats_ok Q q' (W - {#(m, e)#})"
    using k s c [of name] by (intro stats_ok_update [OF assms(1) w(2)]) (auto simp: name_ok_def c dest: Suc_leD)
  with w(1) show ?thesis by blast
qed

lemma reload_settings_lookup:
  "distinct (map fst queues) \<Longrightarrow>
   reload_settings queues st name = (case map_of queues name of
      Some n \<Rightarrow> Some (case st name of Some s \<Rightarrow> s\<lparr>max_in_flight := n\<rparr> | None \<Rightarrow> stats_new n) | None \<Rightarrow> st name)"
proof (induction queues st rule: reload_settings.induct)
  case (2 q n qs st)
  have "map_of qs q = None" using "2.prems" by (auto simp: map_of_eq_None_iff)
  with 2 show ?case by (cases "name = q"; cases "map_of qs name") (simp_all flip: fun_upd_def)
qed simp

lemma reload_stats:
  assumes "queues \<in> Q" and "distinct (map fst queues)" and "stats_ok Q q W"
  shows "stats_ok Q (q\<lparr>queue_stats_of := reload_settings queues (queue_stats_of q)\<rparr>) W"
  unfolding stats_ok_def
proof
  fix n
  have k: "name_ok Q n (queue_stats_of q n) (workers_of n W)" using assms(3) by (simp add: stats_ok_def)
  have "t \<le> N" if "map_of queues n = Some t" "threads_within Q n N" for t N
    using that assms(1) by (auto simp: threads_within_def get_virtual_queue_or_default_def dest!: bspec)
  with k show "name_ok Q n (queue_stats_of (q\<lparr>queue_stats_of := reload_settings queues (queue_stats_of q)\<rparr>) n) (workers_of n W)"
    by (cases "map_of queues n"; cases "queue_stats_of q n")
       (auto simp: name_ok_def reload_settings_lookup [OF assms(2)] stats_new_def)
qed

lemma handle_events_stats:
  assumes "queues \<in> Q" and "distinct (map fst queues)"
  shows "stats_ok Q q W \<Longrightarrow> consumes es W W' \<Longrightarrow>
    \<exists>r q'. handle_events queues now t jitter es refresh q = Some (r, q') \<and> stats_ok Q q' W'"
proof (induction es arbitrary: q W refresh)
  case (Cons e es)
  show ?case
  proof (cases e)
    case (WorkerDone qid name st)
    with Cons.prems(2) obtain m where m: "msg_key m = (qid, name)" "(m, Ended st) \<in># W" "consumes es (W - {#(m, Ended st)#}) W'"
      by auto
    from worker_done_stats [OF Cons.prems(1) m(2,1), of now t jitter st] obtain r q1 where
      q1: "worker_done now t jitter qid name st q = Some (r, q1)" "stats_ok Q q1 (W - {#(m, Ended st)#})" by blast
    from Cons.IH [OF q1(2) m(3)] q1(1) WorkerDone show ?thesis by simp
  next
    case ReloadSettings
    with Cons.IH [OF reload_stats [OF assms Cons.prems(1)]] Cons.prems(2) show ?thesis by simp
  next
    case (Paused p)
    have "stats_ok Q (q\<lparr>is_paused := p\<rparr>) W" by (rule stats_ok_same [OF Cons.prems(1)]) simp
    from Cons.IH [OF this] Cons.prems(2) Paused show ?thesis by simp
  next
    case Stop
    have "stats_ok Q (q\<lparr>is_closed := True, is_paused := True\<rparr>) W" by (rule stats_ok_same [OF Cons.prems(1)]) simp
    from Cons.IH [OF this] Cons.prems(2) Stop show ?thesis by simp
  next
    case Refresh
    with Cons.IH [OF Cons.prems(1)] Cons.prems(2) show ?thesis by simp
  qed
qed simp

lemma start_workers_stats:
  "queues \<in> Q \<Longrightarrow> stats_ok Q q W \<Longrightarrow> start_workers queues ms q = (started, q') \<Longrightarrow>
   stats_ok Q q' (W + mset (map (\<lambda>m. (m, Starting)) started))"
proof (induction ms arbitrary: q W started)
  case (Cons m ms)
  let ?n = "msg_queue m"
  let ?stats = "case queue_stats_of q ?n of Some st \<Rightarrow> st | None \<Rightarrow> stats_new (get_virtual_queue_or_default queues ?n)"
  have s: "name_ok Q ?n (Some ?stats) (workers_of ?n W)"
    using Cons.prems(2) new_stats_ok [OF Cons.prems(1), of ?n]
    by (cases "queue_stats_of q ?n") (auto simp: stats_ok_def name_ok_def dest!: spec [of _ ?n])
  show ?case
  proof (cases "has_capacity ?stats")
    case True
    let ?q = "q\<lparr>queue_stats_of := (queue_stats_of q)(?n \<mapsto> ?stats\<lparr>in_flight := in_flight ?stats + 1\<rparr>)\<rparr>"
    have "stats_ok Q ?q (add_mset (m, Starting) W)"
      using s True by (intro stats_ok_update [OF Cons.prems(2), of _ ?n]) (auto simp: name_ok_def has_capacity_def intro: Suc_leI less_le_trans)
    moreover from Cons.prems(3) True obtain st' where "start_workers queues ms ?q = (st', q')" "started = m # st'"
      by (auto simp: Let_def split: prod.splits)
    ultimately show ?thesis using Cons.IH [OF Cons.prems(1)] by fastforce
  next
    case False
    let ?q = "q\<lparr>queue_stats_of := (queue_stats_of q)(?n \<mapsto> ?stats), locked := AList.delete (msg_key m) (locked q)\<rparr>"
    have "stats_ok Q ?q W" using s by (intro stats_ok_update [OF Cons.prems(2), of _ ?n]) simp_all
    moreover from Cons.prems(3) False have "start_workers queues ms ?q = (started, q')" by (simp add: Let_def)
    ultimately show ?thesis using Cons.IH [OF Cons.prems(1)] by blast
  qed
qed simp

lemma scan_events_stats: "scan_events now keys q ev = (q', ev') \<Longrightarrow> queue_stats_of q' = queue_stats_of q"
proof (induction now keys q ev rule: scan_events.induct)
  case (2 now key keys q ev)
  have a: "queue_stats_of q1 = queue_stats_of q0" if "take_event n k q0 e = (b, q1, e1)" for n k q0 e b q1 e1
    using that by (auto simp: take_event_def split: if_splits option.splits)
  from 2 show ?case by (auto split: option.splits if_splits prod.splits dest: a)
qed simp

lemma manager_round_stats:
  assumes Q: "queues \<in> Q" and "distinct (map fst queues)" and "stats_ok Q q W" and "consumes (round_events r) W W'"
  shows "\<exists>started q'. manager_round queues r q = Some (started, q')
    \<and> stats_ok Q q' (W' + mset (map (\<lambda>m. (m, Starting)) started))"
proof -
  obtain refresh q1 where h: "handle_events queues (round_now r) (round_time r) (round_jitter r) (round_events r) (round_events r = []) q = Some (refresh, q1)"
    "stats_ok Q q1 W'" using handle_events_stats [OF assms] by blast
  show ?thesis
  proof (cases "\<not> is_paused q1 \<and> (refresh \<or> next_refresh q1 \<le> round_time r)")
    case True
    obtain q2 ev where n: "next_events_due (round_now r) (round_keys r) q1 = (q2, ev)" by (metis prod.exhaust)
    let ?ms = "(if length (due_messages ev) > 3 then round_shuffle r else id) (due_messages ev)"
    obtain started q3 where st: "start_workers queues ?ms q2 = (started, q3)" by (metis prod.exhaust)
    have "stats_ok Q q2 W'" using scan_events_stats [OF n [unfolded next_events_due_def]] by (intro stats_ok_same [OF h(2)]) simp
    from start_workers_stats [OF Q this st] have "stats_ok Q q3 (W' + mset (map (\<lambda>m. (m, Starting)) started))" .
    from stats_ok_same [OF this, of "(drop_stale_locks (round_end r) q3)
        \<lparr>next_refresh := round_time r + (unat (refresh_at ev) - unat (round_end r))\<rparr>"]
    show ?thesis using True h(1) n st by (simp add: manager_round_def drop_stale_locks_def)
  next
    case False
    have "stats_ok Q (if is_paused q1 then q1\<lparr>next_refresh := round_time r + 86400\<rparr> else q1) W'"
      by (rule stats_ok_same [OF h(2)]) simp
    with False h(1) show ?thesis by (auto simp: manager_round_def split: if_splits)
  qed
qed

lemma queue_run_stats: "queue_run Q s \<Longrightarrow> \<forall>queues \<in> Q. distinct (map fst queues) \<Longrightarrow> stats_ok Q (manager s) (running s)"
proof (induction rule: queue_run.induct)
  case (Launch t now)
  then show ?case by (simp add: stats_ok_def name_ok_def manager_new_def)
next
  case (Next s s')
  from Next(2) show ?case
  proof cases
    case (Work m a b)
    have "workers_of n (running s') = workers_of n (running s)" for n
      using workers_of_remove [OF Work(2), of n] Work(1) by simp
    moreover have "manager s' = manager s" using Work(1) by simp
    ultimately show ?thesis using Next.IH [OF Next.prems] by (simp add: stats_ok_def)
  next
    case (Round queues r W started q)
    have "distinct (map fst queues)" using Next.prems Round(2) by blast
    from manager_round_stats [OF Round(2) this Next.IH [OF Next.prems] Round(4)] Round show ?thesis by auto
  qed
qed

section \<open>Locks and workers\<close>

lemma unat_add_le: "unat (a + b) \<le> unat a + unat b" for a b :: "'a::len word"
  by (simp add: unat_word_ariths)

lemma lock_okI:
  "distinct (map fst (locked q)) \<Longrightarrow>
   (\<And>k l. map_of (locked q) k = Some l \<Longrightarrow>
      taken k \<or> unat (lock_expires l) \<le> unat now + 609 \<or> (\<exists>m st. (m, st) \<in># W \<and> msg_key m = k)) \<Longrightarrow>
   lock_ok taken now q W"
  by (simp add: lock_ok_def)

lemma lock_okD:
  assumes "lock_ok taken now q W"
  shows "distinct (map fst (locked q))"
    and "map_of (locked q) k = Some l \<Longrightarrow>
      taken k \<or> unat (lock_expires l) \<le> unat now + 609 \<or> (\<exists>m st. (m, st) \<in># W \<and> msg_key m = k)"
  using assms unfolding lock_ok_def by blast+

lemma lock_ok_same:
  "lock_ok taken c q W \<Longrightarrow> c \<le> now \<Longrightarrow> locked q' = locked q \<Longrightarrow> lock_ok taken now q' W"
proof (rule lock_okI)
  assume a: "lock_ok taken c q W" "c \<le> now" "locked q' = locked q"
  show "distinct (map fst (locked q'))" using lock_okD(1) [OF a(1)] a(3) by simp
  fix k l assume "map_of (locked q') k = Some l"
  with a(3) have "map_of (locked q) k = Some l" by simp
  moreover have "unat c \<le> unat now" using a(2) by (simp add: word_le_nat_alt)
  ultimately show "taken k \<or> unat (lock_expires l) \<le> unat now + 609 \<or> (\<exists>m st. (m, st) \<in># W \<and> msg_key m = k)"
    using lock_okD(2) [OF a(1), of k l] by (meson add_right_mono le_trans)
qed

lemma lock_ok_delete:
  assumes "lock_ok taken c q W" and "c \<le> now" and "(m, e) \<in># W" and "msg_key m = k" and "locked q' = AList.delete k (locked q)"
  shows "lock_ok taken now q' (W - {#(m, e)#})"
proof (rule lock_okI)
  show "distinct (map fst (locked q'))" using lock_okD(1) [OF assms(1)] by (simp add: assms(5) distinct_delete)
  fix j l assume "map_of (locked q') j = Some l"
  then have j: "j \<noteq> k" "map_of (locked q) j = Some l" by (auto simp: assms(5) split: if_splits)
  from lock_okD(2) [OF assms(1) j(2)]
  show "taken j \<or> unat (lock_expires l) \<le> unat now + 609 \<or> (\<exists>m' st. (m', st) \<in># W - {#(m, e)#} \<and> msg_key m' = j)"
  proof (elim disjE exE conjE)
    fix m' st assume w: "(m', st) \<in># W" "msg_key m' = j"
    then have "(m', st) \<noteq> (m, e)" using j(1) assms(4) by auto
    then have "(m', st) \<in># W - {#(m, e)#}" using w(1) by (simp add: in_diff_count) (metis count_greater_zero_iff)
    with w(2) show ?thesis by blast
  qed (use assms(2) in \<open>auto simp: word_le_nat_alt\<close>)
qed

lemma lock_ok_update:
  assumes "lock_ok taken c q W" and "c \<le> now" and "(m, e) \<in># W" and "msg_key m = k"
    and "locked q' = AList.update k l (locked q)" and "unat (lock_expires l) \<le> unat now + 609"
  shows "lock_ok taken now q' (W - {#(m, e)#})"
proof (rule lock_okI)
  let ?q = "q\<lparr>locked := AList.delete k (locked q)\<rparr>"
  show "distinct (map fst (locked q'))" using lock_okD(1) [OF assms(1)] by (simp add: assms(5) distinct_update)
  fix j l' assume "map_of (locked q') j = Some l'"
  then have "j = k \<and> l' = l \<or> map_of (locked ?q) j = Some l'" by (auto simp: assms(5) split: if_splits)
  with lock_okD(2) [OF lock_ok_delete [OF assms(1-4), of ?q], of j l'] assms(6)
  show "taken j \<or> unat (lock_expires l') \<le> unat now + 609 \<or> (\<exists>m' st. (m', st) \<in># W - {#(m, e)#} \<and> msg_key m' = j)"
    by auto
qed

lemma worker_done_locks:
  assumes "lock_ok taken c q W" and "c \<le> now" and "unat jitter < 10" and "(m, e) \<in># W" and "msg_key m = (qid, name)"
    and "worker_done now t jitter qid name st q = Some (r, q')"
  shows "lock_ok taken now q' (W - {#(m, e)#})"
proof (cases st)
  case EventLocked
  have "unat (now + (LOCK_EXPIRY + jitter)) \<le> unat now + (unat LOCK_EXPIRY + unat jitter)"
    using unat_add_le [of now "LOCK_EXPIRY + jitter"] unat_add_le [of LOCK_EXPIRY jitter] by linarith
  then have "unat (now + (LOCK_EXPIRY + jitter)) \<le> unat now + 609" using assms(3) by (simp add: LOCK_EXPIRY_def)
  moreover from assms(6) EventLocked have l: "locked q' = AList.update (qid, name)
      \<lparr>lock_expires = now + (LOCK_EXPIRY + jitter), lock_revision = locked_revision q\<rparr> (locked q)"
    by (auto simp: worker_done_def Let_def ac_simps split: option.splits if_splits)
  ultimately show ?thesis by (intro lock_ok_update [OF assms(1,2,4,5) l]) simp
next
  case EventCompleted
  with assms(6) have "locked q' = AList.delete (qid, name) (locked q)"
    by (auto simp: worker_done_def Let_def split: option.splits if_splits)
  then show ?thesis by (rule lock_ok_delete [OF assms(1,2,4,5)])
next
  case EventDeferred
  with assms(6) have "locked q' = AList.delete (qid, name) (locked q)"
    by (auto simp: worker_done_def Let_def split: option.splits if_splits)
  then show ?thesis by (rule lock_ok_delete [OF assms(1,2,4,5)])
qed

lemma handle_events_locks:
  "lock_ok taken c q W \<Longrightarrow> c \<le> now \<Longrightarrow> unat jitter < 10 \<Longrightarrow> consumes es W W' \<Longrightarrow>
   handle_events queues now t jitter es refresh q = Some (r, q') \<Longrightarrow> lock_ok taken now q' W'"
proof (induction es arbitrary: c q W refresh)
  case Nil
  then show ?case using lock_ok_same [OF Nil(1,2)] by simp
next
  case (Cons e es)
  obtain r1 q1 where h: "handle_event queues now t jitter e q = Some (r1, q1)"
    "handle_events queues now t jitter es (r1 \<or> refresh) q1 = Some (r, q')"
    using Cons.prems(5) by (auto split: option.splits)
  show ?case
  proof (cases e)
    case (WorkerDone qid name st)
    with Cons.prems(4) obtain m where m: "msg_key m = (qid, name)" "(m, Ended st) \<in># W" "consumes es (W - {#(m, Ended st)#}) W'"
      by auto
    from h(1) WorkerDone have "worker_done now t jitter qid name st q = Some (r1, q1)" by simp
    from Cons.IH [OF worker_done_locks [OF Cons.prems(1-3) m(2,1) this] _ Cons.prems(3) m(3) h(2)] show ?thesis by simp
  qed (use h Cons.prems Cons.IH [OF lock_ok_same [OF Cons.prems(1,2)] _ Cons.prems(3) _ h(2)] in auto)
qed

lemma lock_ok_mono: "lock_ok taken c q W \<Longrightarrow> (\<And>k. taken k \<Longrightarrow> taken' k) \<Longrightarrow> lock_ok taken' c q W"
  unfolding lock_ok_def by blast

lemma lock_ok_put:
  assumes "lock_ok taken c q W" and "locked q' = AList.update k l (locked q)"
    and "taken k \<or> (\<exists>l'. map_of (locked q) k = Some l' \<and> lock_expires l' = lock_expires l)"
  shows "lock_ok taken c q' W"
proof (rule lock_okI)
  show "distinct (map fst (locked q'))" using lock_okD(1) [OF assms(1)] by (simp add: assms(2) distinct_update)
  fix j l' assume "map_of (locked q') j = Some l'"
  then have "j = k \<and> l' = l \<or> map_of (locked q) j = Some l'" by (auto simp: assms(2) split: if_splits)
  then show "taken j \<or> unat (lock_expires l') \<le> unat c + 609 \<or> (\<exists>m st. (m, st) \<in># W \<and> msg_key m = j)"
    using lock_okD(2) [OF assms(1), of j] assms(3) by auto
qed

lemma take_event_locks:
  assumes "lock_ok taken c q W" and "take_event now k q ev = (b, q', ev')"
  shows "lock_ok (\<lambda>j. taken j \<or> b \<and> j = k) c q' W"
proof -
  have q: "lock_ok (\<lambda>j. taken j \<or> b \<and> j = k) c q W" by (rule lock_ok_mono [OF assms(1)]) simp
  show ?thesis
  proof (cases "may_start q (snd k)")
    case True
    show ?thesis
    proof (cases "map_of (locked q) k")
      case None
      with True assms(2) have b and l: "locked q' = AList.update k (lock_for now (locked_revision q)) (locked q)"
        by (auto simp: take_event_def)
      then show ?thesis by (intro lock_ok_put [OF q l]) simp
    next
      case (Some l)
      show ?thesis
      proof (cases "lock_expires l \<le> now")
        case free: True
        with True Some assms(2) have b and l: "locked q' = AList.update k (lock_for now (locked_revision q)) (locked q)"
          by (auto simp: take_event_def)
        then show ?thesis by (intro lock_ok_put [OF q l]) simp
      next
        case False
        with True Some assms(2) have l: "locked q' = AList.update k (l\<lparr>lock_revision := locked_revision q\<rparr>) (locked q)"
          by (auto simp: take_event_def)
        then show ?thesis using Some by (intro lock_ok_put [OF q l]) simp
      qed
    qed
  next
    case False
    with assms(2) q show ?thesis by (simp add: take_event_def)
  qed
qed

lemma scan_events_locks:
  "lock_ok (\<lambda>k. k \<in> msg_key ` set (due_messages ev)) c q W \<Longrightarrow> scan_events now keys q ev = (q', ev') \<Longrightarrow>
   lock_ok (\<lambda>k. k \<in> msg_key ` set (due_messages ev')) c q' W"
proof (induction keys arbitrary: q ev)
  case (Cons key keys)
  have same: "due_messages e1 = due_messages e0" if "take_event now k q e0 = (b, q1, e1)" for k e0 b q1 e1
    using that by (auto simp: take_event_def split: if_splits option.splits)
  show ?case
  proof (cases "\<exists>t qid name. deserialize_be_u64 key 0 = Some t \<and> t \<le> now \<and> deserialize_be_u64 key 8 = Some qid
      \<and> queue_name_of_bytes (drop 16 key) = Some name")
    case True
    then obtain t qid name where k: "deserialize_be_u64 key 0 = Some t" "t \<le> now" "deserialize_be_u64 key 8 = Some qid"
      "queue_name_of_bytes (drop 16 key) = Some name" by blast
    obtain b q1 ev1 where a: "take_event now (qid, name) q ev = (b, q1, ev1)" by (metis prod_cases3)
    let ?ev = "if b then ev1\<lparr>due_messages := due_messages ev1 @ [\<lparr>msg_due = t, msg_id = qid, msg_queue = name\<rparr>]\<rparr> else ev1"
    have s: "scan_events now keys q1 ?ev = (q', ev')" using Cons.prems(2) k a by simp
    have "lock_ok (\<lambda>k. k \<in> msg_key ` set (due_messages ?ev)) c q1 W"
      by (rule lock_ok_mono [OF take_event_locks [OF Cons.prems(1) a]]) (auto simp: same [OF a])
    from Cons.IH [OF this s] show ?thesis .
  next
    case False
    then have "locked q' = locked q \<and> due_messages ev' = due_messages ev"
      using Cons.prems(2) by (auto split: option.splits if_splits prod.splits)
    then show ?thesis using lock_ok_same [OF Cons.prems(1), of c q'] by simp
  qed
qed simp

lemma start_workers_locks:
  "lock_ok (\<lambda>k. k \<in> msg_key ` set ms) c q W \<Longrightarrow> start_workers queues ms q = (started, q') \<Longrightarrow>
   lock_ok (\<lambda>_. False) c q' (W + mset (map (\<lambda>m. (m, Starting)) started))"
proof (induction ms arbitrary: q W started)
  case (Cons m ms)
  let ?stats = "case queue_stats_of q (msg_queue m) of Some st \<Rightarrow> st
    | None \<Rightarrow> stats_new (get_virtual_queue_or_default queues (msg_queue m))"
  show ?case
  proof (cases "has_capacity ?stats")
    case True
    let ?q = "q\<lparr>queue_stats_of := (queue_stats_of q)(msg_queue m \<mapsto> ?stats\<lparr>in_flight := in_flight ?stats + 1\<rparr>)\<rparr>"
    from Cons.prems(2) True obtain st where st: "start_workers queues ms ?q = (st, q')" "started = m # st"
      by (auto simp: Let_def split: prod.splits)
    have "lock_ok (\<lambda>k. k \<in> msg_key ` set ms) c ?q (add_mset (m, Starting) W)"
    proof (rule lock_okI)
      fix k l assume "map_of (locked ?q) k = Some l"
      then show "k \<in> msg_key ` set ms \<or> unat (lock_expires l) \<le> unat c + 609
          \<or> (\<exists>m' st. (m', st) \<in># add_mset (m, Starting) W \<and> msg_key m' = k)"
        using lock_okD(2) [OF Cons.prems(1), of k l] by auto
    qed (use lock_okD(1) [OF Cons.prems(1)] in simp)
    from Cons.IH [OF this st(1)] st(2) show ?thesis by simp
  next
    case False
    let ?q = "q\<lparr>queue_stats_of := (queue_stats_of q)(msg_queue m \<mapsto> ?stats), locked := AList.delete (msg_key m) (locked q)\<rparr>"
    have "lock_ok (\<lambda>k. k \<in> msg_key ` set ms) c ?q W"
    proof (rule lock_okI)
      fix k l assume "map_of (locked ?q) k = Some l"
      then show "k \<in> msg_key ` set ms \<or> unat (lock_expires l) \<le> unat c + 609 \<or> (\<exists>m' st. (m', st) \<in># W \<and> msg_key m' = k)"
        using lock_okD(2) [OF Cons.prems(1), of k l] by (auto split: if_splits)
    qed (use lock_okD(1) [OF Cons.prems(1)] in \<open>simp add: distinct_delete\<close>)
    moreover from Cons.prems(2) False have "start_workers queues ms ?q = (started, q')" by (simp add: Let_def)
    ultimately show ?thesis using Cons.IH by blast
  qed
qed simp

lemma map_of_filter_distinct:
  "distinct (map fst xs) \<Longrightarrow> map_of (filter P xs) k = Some l \<Longrightarrow> map_of xs k = Some l"
proof -
  assume d: "distinct (map fst xs)" and "map_of (filter P xs) k = Some l"
  then have "(k, l) \<in> set xs" by (auto dest: map_of_SomeD)
  with d show ?thesis by simp
qed

lemma drop_stale_locks_ok:
  "lock_ok taken c q W \<Longrightarrow> lock_ok taken c (drop_stale_locks now q) W"
  unfolding lock_ok_def drop_stale_locks_def
  by (auto simp: distinct_map_filter dest!: map_of_filter_distinct)

lemma manager_round_locks:
  assumes "lock_ok (\<lambda>_. False) (clock_reading s) (manager s) W" and "round_ok s r" and "consumes (round_events r) W W'"
    and "manager_round queues r (manager s) = Some (started, q')"
  shows "lock_ok (\<lambda>_. False) (round_end r) q' (W' + mset (map (\<lambda>m. (m, Starting)) started))"
proof -
  have r: "clock_reading s \<le> round_now r" "round_now r \<le> round_end r" "unat (round_jitter r) < 10"
    "\<And>ms. mset (round_shuffle r ms) = mset ms" using assms(2) by (simp_all add: round_ok_def)
  obtain refresh q1 where h: "handle_events queues (round_now r) (round_time r) (round_jitter r) (round_events r)
      (round_events r = []) (manager s) = Some (refresh, q1)"
    using assms(4) by (auto simp: manager_round_def split: option.splits)
  have q1: "lock_ok (\<lambda>_. False) (round_end r) q1 W'"
    by (rule lock_ok_same [OF handle_events_locks [OF assms(1) r(1,3) assms(3) h] r(2) refl])
  show ?thesis
  proof (cases "\<not> is_paused q1 \<and> (refresh \<or> next_refresh q1 \<le> round_time r)")
    case True
    obtain q2 ev where n: "next_events_due (round_now r) (round_keys r) q1 = (q2, ev)" by (metis prod.exhaust)
    let ?ms = "(if length (due_messages ev) > 3 then round_shuffle r else id) (due_messages ev)"
    obtain st q3 where st: "start_workers queues ?ms q2 = (st, q3)" by (metis prod.exhaust)
    have "lock_ok (\<lambda>k. k \<in> msg_key ` set (due_messages ev)) (round_end r) q2 W'"
      by (rule scan_events_locks [OF _ n [unfolded next_events_due_def]]) (use q1 in \<open>simp add: lock_ok_def\<close>)
    moreover have "set ?ms = set (due_messages ev)" using r(4) [of "due_messages ev"] by (auto dest: mset_eq_setD)
    ultimately have "lock_ok (\<lambda>k. k \<in> msg_key ` set ?ms) (round_end r) q2 W'" by simp
    from start_workers_locks [OF this st] have q3: "lock_ok (\<lambda>_. False) (round_end r) q3 (W' + mset (map (\<lambda>m. (m, Starting)) st))" .
    have "started = st" "locked q' = locked (drop_stale_locks (round_end r) q3)"
      using assms(4) True h n st by (auto simp: manager_round_def)
    then show ?thesis using lock_ok_same [OF drop_stale_locks_ok [OF q3] order_refl] by simp
  next
    case False
    with assms(4) h have "started = []" "locked q' = locked q1" by (auto simp: manager_round_def split: if_splits)
    then show ?thesis using lock_ok_same [OF q1 order_refl, of q'] by simp
  qed
qed

lemma queue_run_locks: "queue_run Q s \<Longrightarrow> lock_ok (\<lambda>_. False) (clock_reading s) (manager s) (running s)"
proof (induction rule: queue_run.induct)
  case (Launch t now)
  then show ?case by (simp add: lock_ok_def manager_new_def)
next
  case (Next s s')
  from Next(2) show ?case
  proof cases
    case (Work m a b)
    show ?thesis
    proof (rule lock_okI)
      fix k l assume "map_of (locked (manager s')) k = Some l"
      then have "map_of (locked (manager s)) k = Some l" using Work(1) by simp
      from lock_okD(2) [OF Next.IH this] show "False \<or> unat (lock_expires l) \<le> unat (clock_reading s') + 609
          \<or> (\<exists>m st. (m, st) \<in># running s' \<and> msg_key m = k)"
      proof (elim disjE exE conjE)
        fix m' st assume w: "(m', st) \<in># running s" "msg_key m' = k"
        show ?thesis
        proof (cases "(m', st) = (m, a)")
          case True
          with w Work(1) show ?thesis by auto
        next
          case False
          with w Work(1) show ?thesis by (auto simp: in_diff_count)
        qed
      qed (use Work(1) in auto)
    qed (use lock_okD(1) [OF Next.IH] Work(1) in simp)
  next
    case (Round queues r W started q)
    from manager_round_locks [OF Next.IH Round(3,4,5)] Round(1) show ?thesis by simp
  qed
qed

section \<open>Properties\<close>

text \<open>
  C37. A scan takes what is due and free: of the events whose time has come, in the order of the index,
  it takes exactly one for every message and queue that is neither locked nor in a queue without
  a free thread, and never the same message of a queue twice.
\<close>

theorem scan_takes_due_and_free:
  assumes "now < now + INFINITE_LOCK" and "list_all (\<lambda>m. length (msg_queue m) = 8) es" and "sorted (map msg_due es)"
  shows "\<exists>q' ev. next_events_due now (map event_bytes es) q = (q', ev) \<and> distinct (map msg_key (due_messages ev))
    \<and> set (due_messages ev) \<subseteq> {m \<in> set es. msg_due m \<le> now}
    \<and> msg_key ` set (due_messages ev) = msg_key ` {m \<in> set es. msg_due m \<le> now \<and> is_free now q (msg_key m)}"
proof -
  let ?q = "q\<lparr>locked_revision := locked_revision q + 1\<rparr>"
  let ?ev = "\<lparr>due_messages = [], refresh_at = now + QUEUE_REFRESH\<rparr>"
  obtain q' ev where s: "scan_events now (map event_bytes es) ?q ?ev = (q', ev)" by (metis prod.exhaust)
  have "is_free now ?q k = is_free now q k" for k by (simp add: is_free_def may_start_def)
  with scan_events_keys [OF assms s] s show ?thesis
    by (intro exI [of _ q'] exI [of _ ev]) (auto simp: next_events_due_def list_all_iff)
qed

text \<open>
  C10. The manager never panics and never overloads a queue: in every state that it and its workers can
  reach while the configuration is reloaded over and over, the next round of the manager succeeds whatever
  workers have ended, because each of them is still counted; and no queue has more workers than the most
  threads that a configuration of the run has given it - so never more than its threads, if they stay what
  they are. (A reload that lowers the threads stops no worker that is running.)
\<close>

theorem manager_never_panics:
  assumes "queue_run Q s" and "\<forall>queues \<in> Q. distinct (map fst queues)" and "queues \<in> Q"
  shows "(\<forall>N. threads_within Q name N \<longrightarrow> workers_of name (running s) \<le> N)
    \<and> (consumes (round_events r) (running s) W \<longrightarrow> manager_round queues r (manager s) \<noteq> None)"
proof -
  have s: "stats_ok Q (manager s) (running s)" by (rule queue_run_stats [OF assms(1,2)])
  then have "name_ok Q name (queue_stats_of (manager s) name) (workers_of name (running s))" by (simp add: stats_ok_def)
  moreover have "distinct (map fst queues)" using assms(2,3) by blast
  from manager_round_stats [OF assms(3) this s] have
    "consumes (round_events r) (running s) W \<Longrightarrow> manager_round queues r (manager s) \<noteq> None" by blast
  ultimately show ?thesis by (auto simp: name_ok_def split: option.splits)
qed

text \<open>
  C30. No message is locked for ever: a lock that lasts longer than the time after which a refused
  worker tries again belongs to a worker that is running, so no message can be left behind.
\<close>

theorem no_orphan_locks:
  assumes "queue_run Q s" and "map_of (locked (manager s)) k = Some l"
    and "unat (lock_expires l) > unat (clock_reading s) + 609"
  shows "\<exists>m st. (m, st) \<in># running s \<and> msg_key m = k"
  using lock_okD(2) [OF queue_run_locks [OF assms(1)] assms(2)] assms(3) by auto

section \<open>A run\<close>

definition event_of :: "u64 \<Rightarrow> queued_message" where
  "event_of i = \<lparr>msg_due = 50, msg_id = i, msg_queue = DEFAULT_QUEUE_NAME\<rparr>"

definition test_round :: "queue_event list \<Rightarrow> u64 list \<Rightarrow> u64 \<Rightarrow> round_input" where
  "test_round es is t = \<lparr>round_events = es, round_now = t, round_end = t, round_time = unat t, round_jitter = 5,
     round_keys = map (\<lambda>i. event_bytes (event_of i)) is, round_shuffle = id\<rparr>"

abbreviation "two_threads \<equiv> [(DEFAULT_QUEUE_NAME, 2 :: nat)]"

definition "manager_1 = manager_round two_threads (test_round [] [1, 2] 100) (manager_new 0)"
definition "manager_2 = Option.bind manager_1 (\<lambda>(_, q). manager_round two_threads (test_round [Refresh] [1, 2] 101) q)"
definition "manager_3 = Option.bind manager_2 (\<lambda>(_, q).
  manager_round two_threads (test_round [WorkerDone 2 DEFAULT_QUEUE_NAME EventCompleted, Refresh] [1] 102) q)"

lemma event_of_read [simp]:
  "deserialize_be_u64 (event_bytes (event_of i)) 0 = Some 50" "deserialize_be_u64 (event_bytes (event_of i)) 8 = Some i"
  "queue_name_of_bytes (drop 16 (event_bytes (event_of i))) = Some DEFAULT_QUEUE_NAME"
  using event_bytes_read [of "event_of i"] by (simp_all add: event_of_def DEFAULT_QUEUE_NAME_def)

lemma event_of_fields [simp]: "msg_queue (event_of i) = DEFAULT_QUEUE_NAME" "msg_id (event_of i) = i" "msg_due (event_of i) = 50"
  by (simp_all add: event_of_def)

lemmas round_defs = manager_round_def test_round_def next_events_due_def take_event_def may_start_def lock_for_def has_capacity_def
  worker_done_def stats_new_def get_virtual_queue_or_default_def drop_stale_locks_def QUEUE_REFRESH_def INFINITE_LOCK_def
  manager_new_def

definition queue_1 :: queue_manager where
  "queue_1 = \<lparr>locked = [((1, DEFAULT_QUEUE_NAME), \<lparr>lock_expires = 31536100, lock_revision = 1\<rparr>),
        ((2, DEFAULT_QUEUE_NAME), \<lparr>lock_expires = 31536100, lock_revision = 1\<rparr>)],
     locked_revision = 1, queue_stats_of = [DEFAULT_QUEUE_NAME \<mapsto> \<lparr>in_flight = 2, max_in_flight = 2\<rparr>],
     next_refresh = 400, is_paused = False, is_closed = False\<rparr>"

definition queue_2 :: queue_manager where
  "queue_2 = queue_1\<lparr>locked := [], locked_revision := 2, next_refresh := 401\<rparr>"

lemma manager_1_runs: "manager_1 = Some ([event_of 1, event_of 2], queue_1)"
  by (simp add: manager_1_def round_defs event_of_def [symmetric] Let_def queue_1_def) (simp add: numeral_2_eq_2)

lemma manager_2_runs: "manager_2 = Some ([], queue_2)"
  by (simp add: manager_2_def manager_1_runs)
    (simp add: round_defs event_of_def [symmetric] Let_def queue_1_def queue_2_def)

lemma manager_3_runs: "\<exists>q. manager_3 = Some ([event_of 1], q)"
  by (simp add: manager_3_def manager_2_runs)
    (simp add: round_defs event_of_def [symmetric] Let_def queue_1_def queue_2_def)

lemma test_round_ok: "clock_reading s \<le> t \<Longrightarrow> round_ok s (test_round es is t)"
  by (simp add: round_ok_def test_round_def)

lemma round_events_test [simp]: "round_events (test_round es is t) = es" "round_end (test_round es is t) = t"
  by (simp_all add: test_round_def)

lemma first_round: "queue_run {two_threads} \<lparr>manager = queue_1, running = {#(event_of 1, Starting), (event_of 2, Starting)#}, clock_reading = 100\<rparr>"
proof -
  let ?s = "\<lparr>manager = manager_new 0, running = {#}, clock_reading = 0\<rparr>"
  have "queue_step {two_threads} ?s \<lparr>manager = queue_1, running = {#(event_of 1, Starting), (event_of 2, Starting)#}, clock_reading = 100\<rparr>"
    using Round [of two_threads "{two_threads}" ?s "test_round [] [1, 2] 100" "{#}" "[event_of 1, event_of 2]" queue_1] manager_1_runs
    by (simp add: test_round_ok manager_1_def)
  from queue_run.Next [OF Launch this] show ?thesis .
qed

theorem scan_takes_due_and_free_witness:
  "\<exists>q' ev. next_events_due 100 [event_bytes (event_of 1), event_bytes (event_of 1), event_bytes (event_of 2)] (manager_new 0) = (q', ev)
    \<and> msg_key ` set (due_messages ev) = {(1, DEFAULT_QUEUE_NAME), (2, DEFAULT_QUEUE_NAME)}"
proof -
  have "is_free 100 (manager_new 0) k" for k by (simp add: is_free_def may_start_def manager_new_def)
  then have "msg_key ` {m \<in> set [event_of 1, event_of 1, event_of 2]. msg_due m \<le> 100 \<and> is_free 100 (manager_new 0) (msg_key m)}
    = msg_key ` {event_of 1, event_of 2}" by (intro arg_cong [where f = "image msg_key"]) auto
  then have "msg_key ` {m \<in> set [event_of 1, event_of 1, event_of 2]. msg_due m \<le> 100 \<and> is_free 100 (manager_new 0) (msg_key m)}
    = {(1, DEFAULT_QUEUE_NAME), (2, DEFAULT_QUEUE_NAME)}" by simp
  moreover have "100 < 100 + INFINITE_LOCK" by (simp add: INFINITE_LOCK_def)
  moreover have "length DEFAULT_QUEUE_NAME = 8" by (simp add: DEFAULT_QUEUE_NAME_def)
  ultimately show ?thesis
    using scan_takes_due_and_free [of 100 "[event_of 1, event_of 1, event_of 2]" "manager_new 0"] by auto
qed

theorem manager_never_panics_witness:
  "\<exists>W. W = {#(event_of 1, Ended EventDeferred), (event_of 2, Starting)#}
    \<and> workers_of DEFAULT_QUEUE_NAME W \<le> 2
    \<and> manager_round two_threads (test_round [WorkerDone 1 DEFAULT_QUEUE_NAME EventDeferred] [] 101) queue_1 \<noteq> None"
proof -
  let ?s = "\<lambda>a. \<lparr>manager = queue_1, running = {#(event_of 1, a), (event_of 2, Starting)#}, clock_reading = 100\<rparr>"
  have "queue_step {two_threads} (?s Starting) (?s Delivering)"
    using Work [of "event_of 1" Starting "?s Starting" Delivering "{two_threads}"] by (simp add: moves_def)
  moreover have "queue_step {two_threads} (?s Delivering) (?s (Ended EventDeferred))"
    using Work [of "event_of 1" Delivering "?s Delivering" "Ended EventDeferred" "{two_threads}"] by (simp add: moves_def)
  ultimately have run: "queue_run {two_threads} (?s (Ended EventDeferred))" using first_round by (blast intro: queue_run.Next)
  have "consumes [WorkerDone 1 DEFAULT_QUEUE_NAME EventDeferred] (running (?s (Ended EventDeferred))) {#(event_of 2, Starting)#}"
    by (auto intro!: exI [of _ "event_of 1"])
  moreover have "threads_within {two_threads} DEFAULT_QUEUE_NAME 2"
    by (simp add: threads_within_def get_virtual_queue_or_default_def)
  ultimately show ?thesis
    using manager_never_panics [OF run _ singletonI, of DEFAULT_QUEUE_NAME "test_round [WorkerDone 1 DEFAULT_QUEUE_NAME EventDeferred] [] 101"]
    by auto
qed

theorem no_orphan_locks_witness:
  "map_of (locked queue_1) (1, DEFAULT_QUEUE_NAME) = Some \<lparr>lock_expires = 31536100, lock_revision = 1\<rparr>
    \<and> (\<exists>m st. (m, st) \<in># {#(event_of 1, Starting), (event_of 2, Starting)#} \<and> msg_key m = (1, DEFAULT_QUEUE_NAME))"
proof -
  have "map_of (locked queue_1) (1, DEFAULT_QUEUE_NAME) = Some \<lparr>lock_expires = 31536100, lock_revision = 1\<rparr>"
    by (simp add: queue_1_def)
  with no_orphan_locks [OF first_round, of "(1, DEFAULT_QUEUE_NAME)"] show ?thesis by simp
qed

text \<open>
  A queue without a free thread is scanned without refreshing the locks of its messages, which are
  then dropped as stale although their workers are running: as soon as a thread is free, the same
  message gets a second worker, and only the lock in the store keeps the two apart.
\<close>

lemma full_queue_starts_worker_twice:
  "\<exists>s. queue_run {two_threads} s \<and> running s = {#(event_of 1, Delivering), (event_of 1, Starting)#}"
proof -
  obtain q3 where q3: "manager_3 = Some ([event_of 1], q3)" using manager_3_runs by auto
  let ?s = "\<lambda>q a b t. \<lparr>manager = q, running = {#(event_of 1, a), (event_of 2, b)#}, clock_reading = t\<rparr>"
  have "queue_step {two_threads} (?s queue_1 Starting Starting 100) (?s queue_1 Delivering Starting 100)"
    using Work [of "event_of 1" Starting "?s queue_1 Starting Starting 100" Delivering "{two_threads}"] by (simp add: moves_def)
  moreover have "queue_step {two_threads} (?s queue_1 Delivering Starting 100) (?s queue_2 Delivering Starting 101)"
    using Round [of two_threads "{two_threads}" "?s queue_1 Delivering Starting 100" "test_round [Refresh] [1, 2] 101"
        "running (?s queue_1 Delivering Starting 100)" "[]" queue_2] manager_2_runs
    by (simp add: test_round_ok manager_2_def manager_1_runs)
  moreover have "queue_step {two_threads} (?s queue_2 Delivering Starting 101) (?s queue_2 Delivering (Ended EventCompleted) 101)"
    using Work [of "event_of 2" Starting "?s queue_2 Delivering Starting 101" "Ended EventCompleted" "{two_threads}"]
    by (simp add: moves_def add_mset_commute)
  ultimately have run: "queue_run {two_threads} (?s queue_2 Delivering (Ended EventCompleted) 101)"
    using first_round by (blast intro: queue_run.Next)
  have "consumes [WorkerDone 2 DEFAULT_QUEUE_NAME EventCompleted, Refresh] (running (?s queue_2 Delivering (Ended EventCompleted) 101))
      {#(event_of 1, Delivering)#}"
    by (auto intro!: exI [of _ "event_of 2"])
  then have "queue_step {two_threads} (?s queue_2 Delivering (Ended EventCompleted) 101)
      \<lparr>manager = q3, running = {#(event_of 1, Delivering), (event_of 1, Starting)#}, clock_reading = 102\<rparr>"
    using Round [of two_threads "{two_threads}" "?s queue_2 Delivering (Ended EventCompleted) 101"
        "test_round [WorkerDone 2 DEFAULT_QUEUE_NAME EventCompleted, Refresh] [1] 102" "{#(event_of 1, Delivering)#}" "[event_of 1]" q3] q3
    by (simp add: test_round_ok manager_3_def manager_2_runs add_mset_commute)
  with run show ?thesis by (intro exI conjI) (rule queue_run.Next, assumption+, simp)
qed

end
