(* ===== verification/Expr_Values.thy ===== *)
theory Expr_Values
  imports Rust_Str
begin

text \<open>
  The values of the expressions of the configuration (\<open>crates/common/src/expr/mod.rs\<close>, \<open>eval.rs\<close>):
  their operators, comparisons and conversions.

  A word holds an \<open>i64\<close>, read as a signed number; a string is a UTF-8 byte string. The type
  \<open>'f\<close> and the record of operations on it stand for the IEEE floating point numbers \<open>f64\<close>, which
  have no theory among the imports. The borrowed and the owned strings of \<open>StringCow\<close> are the
  same value.
\<close>

section \<open>Data\<close>

record 'f floats =
  f_add :: "'f \<Rightarrow> 'f \<Rightarrow> 'f"
  f_sub :: "'f \<Rightarrow> 'f \<Rightarrow> 'f"
  f_mul :: "'f \<Rightarrow> 'f \<Rightarrow> 'f"
  f_div :: "'f \<Rightarrow> 'f \<Rightarrow> 'f"
  f_neg :: "'f \<Rightarrow> 'f"
  f_zero :: 'f
  f_of_int :: "u64 \<Rightarrow> 'f"
  f_to_int :: "'f \<Rightarrow> u64"
  f_to_usize :: "'f \<Rightarrow> u64"
  f_less :: "'f \<Rightarrow> 'f \<Rightarrow> bool"
  f_eq :: "'f \<Rightarrow> 'f \<Rightarrow> bool"
  f_parse :: "string \<Rightarrow> 'f option"
  f_show :: "'f \<Rightarrow> string"

datatype 'f expr_value =
  VString string | VInteger u64 | VFloat 'f | VArray "'f expr_value list"

datatype 'f expr_const = CInteger u64 | CFloat 'f | CString string

datatype binary_op =
  BAdd | BSubtract | BMultiply | BDivide | BAnd | BOr | BXor | BEq | BNe | BLt | BLe | BGt | BGe

datatype unary_op = UNot | UMinus

datatype ordering = Less | Equal | Greater

definition default_value :: "'f expr_value" where
  "default_value = VString []"

fun value_of_const :: "'f expr_const \<Rightarrow> 'f expr_value" where
  "value_of_const (CInteger i) = VInteger i"
| "value_of_const (CFloat f) = VFloat f"
| "value_of_const (CString s) = VString s"

definition value_of_bool :: "bool \<Rightarrow> 'f expr_value" where
  "value_of_bool b = VInteger (if b then 1 else 0)"

section \<open>Integers\<close>

text \<open>The arithmetic of \<open>i64\<close> that saturates, and its text.\<close>

definition saturate :: "int \<Rightarrow> u64" where
  "saturate i = word_of_int (max (- (2 ^ 63)) (min (2 ^ 63 - 1) i))"

definition show_i64 :: "u64 \<Rightarrow> string" where
  "show_i64 w = (if sint w < 0 then CHR ''-'' # show_nat (nat (- sint w)) else show_nat (nat (sint w)))"

text \<open>\<open>str::parse::<i64>\<close>: digits up to the limit of the sign, the number counted without it.\<close>

fun parse_magnitude :: "int \<Rightarrow> int \<Rightarrow> string \<Rightarrow> int option" where
  "parse_magnitude mx acc [] = Some acc"
| "parse_magnitude mx acc (c # cs) =
    (if \<not> is_ascii_digit c then None
     else (let acc = acc * 10 + int (digit_value c) in if acc > mx then None else parse_magnitude mx acc cs))"

definition parse_i64 :: "string \<Rightarrow> u64 option" where
  "parse_i64 s =
    (case s of
       [] \<Rightarrow> None
     | c # cs \<Rightarrow>
        if c = CHR ''-'' then (if cs = [] then None else map_option (\<lambda>n. word_of_int (- n)) (parse_magnitude (2 ^ 63) 0 cs))
        else if c = CHR ''+'' then (if cs = [] then None else map_option word_of_int (parse_magnitude (2 ^ 63 - 1) 0 cs))
        else map_option word_of_int (parse_magnitude (2 ^ 63 - 1) 0 s))"

section \<open>Conversions\<close>

definition parse_number :: "'f floats \<Rightarrow> 'f expr_value \<Rightarrow> 'f expr_value" where
  "parse_number fl v =
    (case v of
       VString s \<Rightarrow>
         if s = [] then VInteger 0
         else (case parse_i64 s of
                 Some n \<Rightarrow> VInteger n
               | None \<Rightarrow> (case f_parse fl s of Some f \<Rightarrow> VFloat f | None \<Rightarrow> VInteger 0))
     | VInteger n \<Rightarrow> VInteger n
     | VFloat f \<Rightarrow> VFloat f
     | VArray l \<Rightarrow> value_of_bool (l = []))"

fun to_bool :: "'f floats \<Rightarrow> 'f expr_value \<Rightarrow> bool" where
  "to_bool fl (VFloat f) = (\<not> f_eq fl f (f_zero fl))"
| "to_bool fl (VInteger n) = (n \<noteq> 0)"
| "to_bool fl (VString s) = (s \<noteq> [])"
| "to_bool fl (VArray a) = (a \<noteq> [])"

text \<open>\<open>Display\<close>, and \<open>into_string\<close>, which differs on arrays.\<close>

fun show_value :: "'f floats \<Rightarrow> 'f expr_value \<Rightarrow> string" where
  "show_value fl (VString s) = s"
| "show_value fl (VInteger n) = show_i64 n"
| "show_value fl (VFloat f) = f_show fl f"
| "show_value fl (VArray []) = []"
| "show_value fl (VArray [v]) = show_value fl v"
| "show_value fl (VArray (v # w # l)) = show_value fl v @ [ch_lf] @ show_value fl (VArray (w # l))"

fun push_item :: "'f floats \<Rightarrow> string \<Rightarrow> 'f expr_value \<Rightarrow> string" where
  "push_item fl s v =
    (let s = (if s \<noteq> [] then s @ [ch_cr, ch_lf] else s) in
     case v of VString t \<Rightarrow> s @ t | VInteger n \<Rightarrow> s @ show_i64 n | VFloat f \<Rightarrow> s @ f_show fl f | VArray _ \<Rightarrow> s)"

fun into_string :: "'f floats \<Rightarrow> 'f expr_value \<Rightarrow> string" where
  "into_string fl (VString s) = s"
| "into_string fl (VInteger n) = show_i64 n"
| "into_string fl (VFloat f) = f_show fl f"
| "into_string fl (VArray l) = foldl (push_item fl) [] l"

fun to_integer :: "'f floats \<Rightarrow> 'f expr_value \<Rightarrow> u64 option" where
  "to_integer fl (VInteger n) = Some n"
| "to_integer fl (VFloat f) = Some (f_to_int fl f)"
| "to_integer fl (VString s) = (if s \<noteq> [] then parse_i64 s else None)"
| "to_integer fl (VArray _) = None"

fun to_usize :: "'f floats \<Rightarrow> 'f expr_value \<Rightarrow> u64 option" where
  "to_usize fl (VInteger n) = Some n"
| "to_usize fl (VFloat f) = Some (f_to_usize fl f)"
| "to_usize fl (VString s) = (if s \<noteq> [] then map_option word_of_nat (parse_uint u64_max s) else None)"
| "to_usize fl (VArray _) = None"

definition value_is_empty :: "'f expr_value \<Rightarrow> bool" where
  "value_is_empty v \<longleftrightarrow> v = VString []"

definition into_array :: "'f expr_value \<Rightarrow> 'f expr_value list" where
  "into_array v = (case v of VArray l \<Rightarrow> l | v \<Rightarrow> if \<not> value_is_empty v then [v] else [])"

section \<open>Comparisons\<close>

text \<open>Two numbers, of which \<open>parse_number\<close> yields nothing else.\<close>

fun number_eq :: "'f floats \<Rightarrow> 'f expr_value \<Rightarrow> 'f expr_value \<Rightarrow> bool" where
  "number_eq fl (VInteger a) (VInteger b) = (a = b)"
| "number_eq fl (VFloat a) (VFloat b) = f_eq fl a b"
| "number_eq fl (VInteger a) (VFloat b) = f_eq fl (f_of_int fl a) b"
| "number_eq fl (VFloat b) (VInteger a) = f_eq fl (f_of_int fl a) b"
| "number_eq fl _ _ = False"

fun value_eq :: "'f floats \<Rightarrow> 'f expr_value \<Rightarrow> 'f expr_value \<Rightarrow> bool"
  and values_eq :: "'f floats \<Rightarrow> 'f expr_value list \<Rightarrow> 'f expr_value list \<Rightarrow> bool" where
  "value_eq fl (VString a) (VString b) = (a = b)"
| "value_eq fl (VArray a) (VArray b) = values_eq fl a b"
| "value_eq fl (VArray _) _ = False"
| "value_eq fl _ (VArray _) = False"
| "value_eq fl a b = number_eq fl (parse_number fl a) (parse_number fl b)"
| "values_eq fl [] [] = True"
| "values_eq fl (a # as) (b # bs) = (value_eq fl a b \<and> values_eq fl as bs)"
| "values_eq fl _ _ = False"

definition float_cmp :: "'f floats \<Rightarrow> 'f \<Rightarrow> 'f \<Rightarrow> ordering option" where
  "float_cmp fl a b =
    (if f_less fl a b then Some Less else if f_eq fl a b then Some Equal else if f_less fl b a then Some Greater else None)"

definition int_cmp :: "int \<Rightarrow> int \<Rightarrow> ordering" where
  "int_cmp a b = (if a < b then Less else if a = b then Equal else Greater)"

fun string_cmp :: "string \<Rightarrow> string \<Rightarrow> ordering" where
  "string_cmp [] [] = Equal"
| "string_cmp [] (_ # _) = Less"
| "string_cmp (_ # _) [] = Greater"
| "string_cmp (a # s) (b # t) = (if byte a < byte b then Less else if a = b then string_cmp s t else Greater)"

fun number_cmp :: "'f floats \<Rightarrow> 'f expr_value \<Rightarrow> 'f expr_value \<Rightarrow> ordering option" where
  "number_cmp fl (VInteger a) (VInteger b) = Some (int_cmp (sint a) (sint b))"
| "number_cmp fl (VFloat a) (VFloat b) = float_cmp fl a b"
| "number_cmp fl (VInteger a) (VFloat b) = float_cmp fl (f_of_int fl a) b"
| "number_cmp fl (VFloat a) (VInteger b) = float_cmp fl a (f_of_int fl b)"
| "number_cmp fl _ _ = None"

fun partial_cmp :: "'f floats \<Rightarrow> 'f expr_value \<Rightarrow> 'f expr_value \<Rightarrow> ordering option"
  and partial_cmps :: "'f floats \<Rightarrow> 'f expr_value list \<Rightarrow> 'f expr_value list \<Rightarrow> ordering option" where
  "partial_cmp fl (VString a) (VString b) = Some (string_cmp a b)"
| "partial_cmp fl (VArray a) (VArray b) = partial_cmps fl a b"
| "partial_cmp fl (VArray _) _ = Some Greater"
| "partial_cmp fl (VString _) (VArray _) = Some Greater"
| "partial_cmp fl _ (VArray _) = Some Less"
| "partial_cmp fl a b = number_cmp fl (parse_number fl a) (parse_number fl b)"
| "partial_cmps fl [] [] = Some Equal"
| "partial_cmps fl [] (_ # _) = Some Less"
| "partial_cmps fl (_ # _) [] = Some Greater"
| "partial_cmps fl (a # as) (b # bs) =
    (case partial_cmp fl a b of Some Equal \<Rightarrow> partial_cmps fl as bs | c \<Rightarrow> c)"

definition value_cmp :: "'f floats \<Rightarrow> 'f expr_value \<Rightarrow> 'f expr_value \<Rightarrow> ordering" where
  "value_cmp fl a b = (case partial_cmp fl a b of Some c \<Rightarrow> c | None \<Rightarrow> Greater)"

section \<open>Operators\<close>

fun op_add :: "'f floats \<Rightarrow> 'f expr_value \<Rightarrow> 'f expr_value \<Rightarrow> 'f expr_value" where
  "op_add fl (VInteger a) (VInteger b) = VInteger (saturate (sint a + sint b))"
| "op_add fl (VFloat a) (VFloat b) = VFloat (f_add fl a b)"
| "op_add fl (VInteger i) (VFloat f) = VFloat (f_add fl (f_of_int fl i) f)"
| "op_add fl (VFloat f) (VInteger i) = VFloat (f_add fl (f_of_int fl i) f)"
| "op_add fl (VArray a) (VArray b) = VArray (a @ b)"
| "op_add fl (VArray a) b = VArray (a @ [b])"
| "op_add fl a (VArray b) = VArray (a # b)"
| "op_add fl (VString a) b = (if a \<noteq> [] then VString (a @ show_value fl b) else b)"
| "op_add fl a (VString b) = (if b \<noteq> [] then VString (show_value fl a @ b) else a)"

text \<open>The operations on two numbers, and on all other pairs of values after conversion.\<close>

fun number_op ::
  "(u64 \<Rightarrow> u64 \<Rightarrow> 'f expr_value) \<Rightarrow> ('f \<Rightarrow> 'f \<Rightarrow> 'f expr_value) \<Rightarrow> 'f floats \<Rightarrow> 'f expr_value \<Rightarrow> 'f expr_value \<Rightarrow> 'f expr_value" where
  "number_op i f fl (VInteger a) (VInteger b) = i a b"
| "number_op i f fl (VFloat a) (VFloat b) = f a b"
| "number_op i f fl (VInteger a) (VFloat b) = f (f_of_int fl a) b"
| "number_op i f fl (VFloat a) (VInteger b) = f a (f_of_int fl b)"
| "number_op i f fl _ _ = VInteger 0"

definition op_subtract :: "'f floats \<Rightarrow> 'f expr_value \<Rightarrow> 'f expr_value \<Rightarrow> 'f expr_value" where
  "op_subtract fl x y =
    (case (x, y) of
       (VArray a, b) \<Rightarrow> VArray (filter (\<lambda>v. \<not> value_eq fl v b) a)
     | (b, VArray a) \<Rightarrow> VArray (filter (\<lambda>v. \<not> value_eq fl v b) a)
     | (a, b) \<Rightarrow> number_op (\<lambda>a b. VInteger (saturate (sint a - sint b))) (\<lambda>a b. VFloat (f_sub fl a b)) fl
         (parse_number fl a) (parse_number fl b))"

definition op_multiply :: "'f floats \<Rightarrow> 'f expr_value \<Rightarrow> 'f expr_value \<Rightarrow> 'f expr_value" where
  "op_multiply fl a b =
    number_op (\<lambda>a b. VInteger (saturate (sint a * sint b))) (\<lambda>a b. VFloat (f_mul fl a b)) fl
      (parse_number fl a) (parse_number fl b)"

definition float_divide :: "'f floats \<Rightarrow> 'f \<Rightarrow> 'f \<Rightarrow> 'f expr_value" where
  "float_divide fl a b = VFloat (if \<not> f_eq fl b (f_zero fl) then f_div fl a b else f_zero fl)"

definition op_divide :: "'f floats \<Rightarrow> 'f expr_value \<Rightarrow> 'f expr_value \<Rightarrow> 'f expr_value" where
  "op_divide fl a b =
    (case (parse_number fl a, parse_number fl b) of
       (VInteger a, VInteger b) \<Rightarrow> VFloat (if b \<noteq> 0 then f_div fl (f_of_int fl a) (f_of_int fl b) else f_zero fl)
     | (VFloat a, VInteger b) \<Rightarrow> VFloat (if b \<noteq> 0 then f_div fl a (f_of_int fl b) else f_zero fl)
     | (VInteger a, VFloat b) \<Rightarrow> float_divide fl (f_of_int fl a) b
     | (VFloat a, VFloat b) \<Rightarrow> float_divide fl a b
     | _ \<Rightarrow> VInteger 0)"

fun apply_binary :: "'f floats \<Rightarrow> binary_op \<Rightarrow> 'f expr_value \<Rightarrow> 'f expr_value \<Rightarrow> 'f expr_value" where
  "apply_binary fl BAdd a b = op_add fl a b"
| "apply_binary fl BSubtract a b = op_subtract fl a b"
| "apply_binary fl BMultiply a b = op_multiply fl a b"
| "apply_binary fl BDivide a b = op_divide fl a b"
| "apply_binary fl BAnd a b = value_of_bool (to_bool fl a \<and> to_bool fl b)"
| "apply_binary fl BOr a b = value_of_bool (to_bool fl a \<or> to_bool fl b)"
| "apply_binary fl BXor a b = value_of_bool (to_bool fl a \<noteq> to_bool fl b)"
| "apply_binary fl BEq a b = value_of_bool (value_eq fl a b)"
| "apply_binary fl BNe a b = value_of_bool (\<not> value_eq fl a b)"
| "apply_binary fl BLt a b = value_of_bool (partial_cmp fl a b = Some Less)"
| "apply_binary fl BLe a b = value_of_bool (partial_cmp fl a b \<in> {Some Less, Some Equal})"
| "apply_binary fl BGt a b = value_of_bool (partial_cmp fl a b = Some Greater)"
| "apply_binary fl BGe a b = value_of_bool (partial_cmp fl a b \<in> {Some Greater, Some Equal})"

definition op_minus :: "'f floats \<Rightarrow> 'f expr_value \<Rightarrow> 'f expr_value" where
  "op_minus fl v = (case parse_number fl v of VInteger n \<Rightarrow> VInteger (- n) | VFloat f \<Rightarrow> VFloat (f_neg fl f) | v \<Rightarrow> v)"

fun apply_unary :: "'f floats \<Rightarrow> unary_op \<Rightarrow> 'f expr_value \<Rightarrow> 'f expr_value" where
  "apply_unary fl UNot v = value_of_bool (\<not> to_bool fl v)"
| "apply_unary fl UMinus v = op_minus fl v"

end
