(* ===== verification/Expr_Parser.thy ===== *)
theory Expr_Parser
  imports Expr_Values
begin

text \<open>
  The parser of expressions (\<open>crates/common/src/expr/parser.rs\<close>): tokens in, a program for the stack
  machine of \<open>eval.rs\<close> out, by the shunting-yard method. The type \<open>'r\<close> stands for the compiled
  regular expressions of the \<open>regex\<close> crate.

  The result is \<open>None\<close> where the source panics (\<open>unwrap\<close> of an empty vector, an index out of range),
  \<open>Inl\<close> an error message and \<open>Inr\<close> a result. The stack of operators has its top first, the
  counts of arguments have the innermost first.
\<close>

section \<open>Tokens and programs\<close>

datatype setting = Hostname | ReportDomain | NodeId | OtherSetting string

definition setting_of :: "string \<Rightarrow> setting" where
  "setting_of s =
    (if s = ''server.hostname'' then Hostname
     else if s = ''report.domain'' then ReportDomain
     else if s = ''cluster.node-id'' then NodeId
     else OtherSetting s)"

datatype ('f, 'r) expr_token =
  TVariable u32 | TGlobal string | TCapture u32 | TFunction string u32 u32 | TConstant "'f expr_const"
  | TSetting setting | TRegex 'r | TBinary binary_op | TUnary unary_op
  | TOpenParen | TCloseParen | TOpenBracket | TCloseBracket | TComma

datatype ('f, 'r) expr_item =
  IVariable u32 | IGlobal string | ISetting setting | ICapture u32 | IConstant "'f expr_const"
  | IBinary binary_op | IUnary unary_op | IRegex 'r | IJmpIf bool u32
  | IFunction u32 u32 | IArrayAccess | IArrayBuild u32

definition ID_ARRAY_ACCESS :: u32 where "ID_ARRAY_ACCESS = - 1"
definition ID_ARRAY_BUILD :: u32 where "ID_ARRAY_BUILD = - 2"

fun precedence :: "binary_op \<Rightarrow> nat" where
  "precedence BMultiply = 7"
| "precedence BDivide = 7"
| "precedence BAdd = 6"
| "precedence BSubtract = 6"
| "precedence BGt = 5"
| "precedence BGe = 5"
| "precedence BLt = 5"
| "precedence BLe = 5"
| "precedence BEq = 4"
| "precedence BNe = 4"
| "precedence BXor = 3"
| "precedence BAnd = 2"
| "precedence BOr = 1"

section \<open>State\<close>

type_synonym ('f, 'r) op_stack = "(('f, 'r) expr_token \<times> nat option) list"

record ('f, 'r) expr_parser =
  expr_output :: "('f, 'r) expr_item list"
  operator_stack :: "('f, 'r) op_stack"
  arg_count :: "int list"

definition parser_new :: "('f, 'r) expr_parser" where
  "parser_new = \<lparr>expr_output = [], operator_stack = [], arg_count = []\<rparr>"

text \<open>One more element for an array that is being built: its count is the second token from the top.\<close>

fun count_item :: "('f, 'r) op_stack \<Rightarrow> ('f, 'r) op_stack" where
  "count_item (x # (TFunction name i n, j) # ops) =
    (if i = ID_ARRAY_BUILD then x # (TFunction name i (n + 1), j) # ops else x # (TFunction name i n, j) # ops)"
| "count_item [(TFunction name i n, j)] = [(TFunction name i (if i = ID_ARRAY_BUILD then n + 1 else n), j)]"
| "count_item ops = ops"

definition inc_arg_count :: "('f, 'r) expr_parser \<Rightarrow> ('f, 'r) expr_parser" where
  "inc_arg_count p =
    (case arg_count p of
       [] \<Rightarrow> p
     | x # xs \<Rightarrow> p\<lparr>arg_count := min (x + 1) (2 ^ 31 - 1) # xs, operator_stack := count_item (operator_stack p)\<rparr>)"

definition dec_arg_count :: "('f, 'r) expr_parser \<Rightarrow> ('f, 'r) expr_parser" where
  "dec_arg_count p =
    (case arg_count p of [] \<Rightarrow> p | x # xs \<Rightarrow> p\<lparr>arg_count := max (x - 1) (- (2 ^ 31)) # xs\<rparr>)"

definition push_output :: "('f, 'r) expr_item \<Rightarrow> ('f, 'r) expr_parser \<Rightarrow> ('f, 'r) expr_parser" where
  "push_output i p = p\<lparr>expr_output := expr_output p @ [i]\<rparr>"

definition push_operator :: "('f, 'r) expr_token \<Rightarrow> nat option \<Rightarrow> ('f, 'r) expr_parser \<Rightarrow> ('f, 'r) expr_parser" where
  "push_operator t j p = p\<lparr>operator_stack := (t, j) # operator_stack p\<rparr>"

definition update_jmp_pos :: "nat option \<Rightarrow> ('f, 'r) expr_item list \<Rightarrow> ('f, 'r) expr_item list option" where
  "update_jmp_pos j out =
    (case j of
       None \<Rightarrow> Some out
     | Some i \<Rightarrow>
        if i < length out then
          Some (case out ! i of IJmpIf val _ \<Rightarrow> out[i := IJmpIf val (word_of_nat (length out - i))] | _ \<Rightarrow> out)
        else None)"

section \<open>The steps\<close>

text \<open>A binary operator leaves the stack for the output; its jump, if any, ends behind it.\<close>

definition output_binary :: "binary_op \<Rightarrow> nat option \<Rightarrow> ('f, 'r) expr_item list \<Rightarrow> ('f, 'r) expr_item list option" where
  "output_binary bop j out = map_option (\<lambda>out. out @ [IBinary bop]) (update_jmp_pos j out)"

fun close_until ::
  "('f, 'r) expr_token \<Rightarrow> ('f, 'r) op_stack \<Rightarrow> ('f, 'r) expr_item list
    \<Rightarrow> (string + ('f, 'r) op_stack \<times> ('f, 'r) expr_item list) option" where
  "close_until expect [] out = Some (Inl ''Mismatched parentheses'')"
| "close_until expect ((t, j) # ops) out =
    (if t = expect then Some (Inr (ops, out))
     else case t of
       TBinary bop \<Rightarrow> (case output_binary bop j out of None \<Rightarrow> None | Some out \<Rightarrow> close_until expect ops out)
     | TUnary uop \<Rightarrow> close_until expect ops (out @ [IUnary uop])
     | _ \<Rightarrow> Some (Inl ''Mismatched parentheses''))"

definition call_item :: "u32 \<Rightarrow> u32 \<Rightarrow> ('f, 'r) expr_item" where
  "call_item i n = (if i = ID_ARRAY_ACCESS then IArrayAccess else if i = ID_ARRAY_BUILD then IArrayBuild n else IFunction i n)"

definition wrong_args :: "string \<Rightarrow> u32 \<Rightarrow> u32 \<Rightarrow> int \<Rightarrow> string" where
  "wrong_args name i n got =
    (if i \<noteq> - 1 then ''Expression function '' @ [ch_quote] @ name @ [ch_quote] @ '' expected '' @ show_nat (unat n) @ '' arguments, got '' @
       (if got < 0 then CHR ''-'' # show_nat (nat (- got)) else show_nat (nat got))
     else ''Missing array index'')"

definition finish_call :: "('f, 'r) expr_parser \<Rightarrow> (string + ('f, 'r) expr_parser) option" where
  "finish_call p =
    (case operator_stack p of
       (TFunction name i n, _) # ops \<Rightarrow>
         (case arg_count p of
            [] \<Rightarrow> None
          | got # args \<Rightarrow>
             if got \<noteq> sint n then Some (Inl (wrong_args name i n got))
             else Some (Inr (push_output (call_item i n) (p\<lparr>operator_stack := ops, arg_count := args\<rparr>))))
     | (TRegex r, _) # ops \<Rightarrow>
         (case arg_count p of
            [] \<Rightarrow> None
          | got # args \<Rightarrow>
             if got \<noteq> 1 then Some (Inl ''Expression function \"matches\" expected 2 arguments'')
             else Some (Inr (push_output (IRegex r) (p\<lparr>operator_stack := ops, arg_count := args\<rparr>))))
     | (TSetting s, _) # ops \<Rightarrow>
         (case arg_count p of
            [] \<Rightarrow> None
          | got # args \<Rightarrow>
             if got \<noteq> 0 then Some (Inl ''Expression function \"config_get\" expected 1 argument'')
             else Some (Inr (push_output (ISetting s) (p\<lparr>operator_stack := ops, arg_count := args\<rparr>))))
     | _ \<Rightarrow> Some (Inr p))"

definition close_group :: "('f, 'r) expr_token \<Rightarrow> ('f, 'r) expr_parser \<Rightarrow> (string + ('f, 'r) expr_parser) option" where
  "close_group t p =
    (case close_until (if t = TCloseParen then TOpenParen else TOpenBracket) (operator_stack p) (expr_output p) of
       None \<Rightarrow> None
     | Some (Inl e) \<Rightarrow> Some (Inl e)
     | Some (Inr (ops, out)) \<Rightarrow> finish_call (p\<lparr>operator_stack := ops, expr_output := out\<rparr>))"

text \<open>The operators that bind at least as strongly as the next one leave the stack.\<close>

fun pop_stronger ::
  "binary_op \<Rightarrow> ('f, 'r) op_stack \<Rightarrow> ('f, 'r) expr_item list \<Rightarrow> (('f, 'r) op_stack \<times> ('f, 'r) expr_item list) option" where
  "pop_stronger bop [] out = Some ([], out)"
| "pop_stronger bop ((t, j) # ops) out =
    (case t of
       TBinary tb \<Rightarrow>
         if precedence bop \<le> precedence tb
         then (case output_binary tb j out of None \<Rightarrow> None | Some out \<Rightarrow> pop_stronger bop ops out)
         else Some ((t, j) # ops, out)
     | TUnary uop \<Rightarrow> pop_stronger bop ops (out @ [IUnary uop])
     | _ \<Rightarrow> Some ((t, j) # ops, out))"

definition push_binary :: "binary_op \<Rightarrow> ('f, 'r) expr_parser \<Rightarrow> (string + ('f, 'r) expr_parser) option" where
  "push_binary bop p =
    (let p = dec_arg_count p in
     case pop_stronger bop (operator_stack p) (expr_output p) of
       None \<Rightarrow> None
     | Some (ops, out) \<Rightarrow>
         let p = p\<lparr>operator_stack := ops, expr_output := out\<rparr> in
         Some (Inr (case bop of
            BAnd \<Rightarrow> push_operator (TBinary bop) (Some (length out)) (push_output (IJmpIf False 0) p)
          | BOr \<Rightarrow> push_operator (TBinary bop) (Some (length out)) (push_output (IJmpIf True 0) p)
          | _ \<Rightarrow> push_operator (TBinary bop) None p)))"

fun pop_argument ::
  "('f, 'r) op_stack \<Rightarrow> ('f, 'r) expr_item list \<Rightarrow> (('f, 'r) op_stack \<times> ('f, 'r) expr_item list) option" where
  "pop_argument [] out = Some ([], out)"
| "pop_argument ((t, j) # ops) out =
    (case t of
       TBinary bop \<Rightarrow> (case output_binary bop j out of None \<Rightarrow> None | Some out \<Rightarrow> pop_argument ops out)
     | TUnary uop \<Rightarrow> pop_argument ops (out @ [IUnary uop])
     | _ \<Rightarrow> Some ((t, j) # ops, out))"

definition open_bracket :: "bool \<Rightarrow> ('f, 'r) expr_parser \<Rightarrow> ('f, 'r) expr_parser" where
  "open_bracket last_is_var p =
    (let (i, n, count, p) =
       (if last_is_var then (ID_ARRAY_ACCESS, 2, 1, p) else (ID_ARRAY_BUILD, 0, 0, inc_arg_count p)) in
     push_operator TOpenBracket None (push_operator (TFunction ''array'' i n) None (p\<lparr>arg_count := count # arg_count p\<rparr>)))"

text \<open>One token: the parser, and whether a bracket that follows is an access to what was read.\<close>

definition parser_step ::
  "bool \<Rightarrow> ('f, 'r) expr_token \<Rightarrow> ('f, 'r) expr_parser \<Rightarrow> (string + bool \<times> ('f, 'r) expr_parser) option" where
  "parser_step last_is_var t p =
    (case t of
       TVariable v \<Rightarrow> Some (Inr (True, push_output (IVariable v) (inc_arg_count p)))
     | TConstant c \<Rightarrow> Some (Inr (False, push_output (IConstant c) (inc_arg_count p)))
     | TGlobal g \<Rightarrow> Some (Inr (False, push_output (IGlobal g) (inc_arg_count p)))
     | TCapture c \<Rightarrow> Some (Inr (False, push_output (ICapture c) (inc_arg_count p)))
     | TUnary uop \<Rightarrow> Some (Inr (False, push_operator t None p))
     | TOpenParen \<Rightarrow> Some (Inr (False, push_operator t None p))
     | TCloseParen \<Rightarrow> map_option (map_sum id (Pair True)) (close_group t p)
     | TCloseBracket \<Rightarrow> map_option (map_sum id (Pair True)) (close_group t p)
     | TBinary bop \<Rightarrow> map_option (map_sum id (Pair False)) (push_binary bop p)
     | TOpenBracket \<Rightarrow> Some (Inr (False, open_bracket last_is_var p))
     | TComma \<Rightarrow>
         map_option (\<lambda>(ops, out). Inr (False, p\<lparr>operator_stack := ops, expr_output := out\<rparr>)) (pop_argument (operator_stack p) (expr_output p))
     | _ \<Rightarrow> (let p = inc_arg_count p in Some (Inr (False, push_operator t None (p\<lparr>arg_count := 0 # arg_count p\<rparr>)))))"

fun parser_steps ::
  "bool \<Rightarrow> ('f, 'r) expr_token list \<Rightarrow> ('f, 'r) expr_parser \<Rightarrow> (string + bool \<times> ('f, 'r) expr_parser) option" where
  "parser_steps b [] p = Some (Inr (b, p))"
| "parser_steps b (t # ts) p =
    (case parser_step b t p of
       None \<Rightarrow> None | Some (Inl e) \<Rightarrow> Some (Inl e) | Some (Inr (b, p)) \<Rightarrow> parser_steps b ts p)"

fun pop_all :: "('f, 'r) op_stack \<Rightarrow> ('f, 'r) expr_item list \<Rightarrow> (string + ('f, 'r) expr_item list) option" where
  "pop_all [] out = Some (Inr out)"
| "pop_all ((t, j) # ops) out =
    (case t of
       TBinary bop \<Rightarrow> (case output_binary bop j out of None \<Rightarrow> None | Some out \<Rightarrow> pop_all ops out)
     | TUnary uop \<Rightarrow> pop_all ops (out @ [IUnary uop])
     | _ \<Rightarrow> Some (Inl ''Invalid token on the operator stack''))"

definition parse_tokens :: "('f, 'r) expr_token list \<Rightarrow> (string + ('f, 'r) expr_item list) option" where
  "parse_tokens ts =
    (case parser_steps False ts parser_new of
       None \<Rightarrow> None | Some (Inl e) \<Rightarrow> Some (Inl e) | Some (Inr (_, p)) \<Rightarrow> pop_all (operator_stack p) (expr_output p))"

end
