(* ===== verification/Expr_Eval.thy ===== *)
theory Expr_Eval
  imports Expr_Parser
begin

text \<open>
  The evaluator of expressions (\<open>crates/common/src/expr/eval.rs\<close>, \<open>if_block.rs\<close>): a stack machine
  with forward jumps. What it calls is a parameter: the variables of the session or message, the
  settings, the regular expressions, and the functions, of which the asynchronous ones read and
  change the state \<open>'w\<close> of the server and can fail.
\<close>

section \<open>State\<close>

record ('f, 'r, 'w) eval_env =
  floats_of :: "'f floats"
  resolve_var :: "u32 \<Rightarrow> 'f expr_value"
  resolve_global :: "string \<Rightarrow> 'f expr_value"
  regex_captures :: "'r \<Rightarrow> string \<Rightarrow> string option list option"
  server_name :: string
  report_domain :: string
  node_id :: u64
  config_get :: "string \<Rightarrow> 'w \<Rightarrow> (string + string option) \<times> 'w"
  sync_functions :: "('f expr_value list \<Rightarrow> 'f expr_value) list"
  eval_fnc :: "u32 \<Rightarrow> 'f expr_value list \<Rightarrow> 'w \<Rightarrow> (string + 'f expr_value) \<times> 'w"

text \<open>The groups of the last regular expression that was tried, and the state of the server.\<close>

type_synonym 'w eval_state = "string list \<times> 'w"

text \<open>\<open>pop().unwrap_or_default()\<close>, once and for the arguments of a function.\<close>

fun pop :: "'f expr_value list \<Rightarrow> 'f expr_value \<times> 'f expr_value list" where
  "pop [] = (default_value, [])"
| "pop (v # st) = (v, st)"

fun pop_args :: "nat \<Rightarrow> 'f expr_value list \<Rightarrow> 'f expr_value list \<Rightarrow> 'f expr_value list \<times> 'f expr_value list" where
  "pop_args 0 args st = (args, st)"
| "pop_args (Suc n) args st = (case pop st of (v, st) \<Rightarrow> pop_args n (v # args) st)"

section \<open>One item\<close>

definition eval_setting :: "('f, 'r, 'w) eval_env \<Rightarrow> setting \<Rightarrow> 'w \<Rightarrow> (string + 'f expr_value) \<times> 'w" where
  "eval_setting env s w =
    (case s of
       Hostname \<Rightarrow> (Inr (VString (server_name env)), w)
     | ReportDomain \<Rightarrow> (Inr (VString (report_domain env)), w)
     | NodeId \<Rightarrow> (Inr (VInteger (node_id env)), w)
     | OtherSetting key \<Rightarrow>
         (case config_get env key w of
            (Inl e, w) \<Rightarrow> (Inl e, w)
          | (Inr v, w) \<Rightarrow> (Inr (VString (case v of Some s \<Rightarrow> s | None \<Rightarrow> [])), w)))"

definition eval_function ::
  "('f, 'r, 'w) eval_env \<Rightarrow> u32 \<Rightarrow> 'f expr_value list \<Rightarrow> 'w \<Rightarrow> (string + 'f expr_value) \<times> 'w" where
  "eval_function env i args w =
    (if unat i < length (sync_functions env) then (Inr ((sync_functions env ! unat i) args), w)
     else eval_fnc env (i - word_of_nat (length (sync_functions env))) args w)"

definition array_access :: "'f floats \<Rightarrow> 'f expr_value \<Rightarrow> 'f expr_value \<Rightarrow> 'f expr_value" where
  "array_access fl arr index =
    (let i = unat (case to_usize fl index of Some i \<Rightarrow> i | None \<Rightarrow> 0); l = into_array arr in
     if i < length l then l ! i else default_value)"

definition eval_regex :: "('f, 'r, 'w) eval_env \<Rightarrow> 'r \<Rightarrow> 'f expr_value \<Rightarrow> 'f expr_value \<times> string list" where
  "eval_regex env r v =
    (let captures = (case regex_captures env r (into_string (floats_of env) v) of
                       None \<Rightarrow> []
                     | Some cs \<Rightarrow> map (\<lambda>c. case c of Some s \<Rightarrow> s | None \<Rightarrow> []) cs) in
     (value_of_bool (captures \<noteq> []), captures))"

definition eval_capture :: "u32 \<Rightarrow> string list \<Rightarrow> 'f expr_value" where
  "eval_capture i captures = VString (if unat i < length captures then captures ! unat i else [])"

definition eval_item ::
  "('f, 'r, 'w) eval_env \<Rightarrow> ('f, 'r) expr_item \<Rightarrow> 'f expr_value list \<Rightarrow> 'w eval_state
    \<Rightarrow> (string + 'f expr_value list) \<times> 'w eval_state" where
  "eval_item env i st s =
    (case i of
       IVariable v \<Rightarrow> (Inr (resolve_var env v # st), s)
     | IGlobal g \<Rightarrow> (Inr (resolve_global env g # st), s)
     | IConstant c \<Rightarrow> (Inr (value_of_const c # st), s)
     | ICapture c \<Rightarrow> (Inr (eval_capture c (fst s) # st), s)
     | ISetting k \<Rightarrow> (case eval_setting env k (snd s) of (r, w) \<Rightarrow> (map_sum id (\<lambda>v. v # st) r, fst s, w))
     | IUnary uop \<Rightarrow> (case pop st of (v, st) \<Rightarrow> (Inr (apply_unary (floats_of env) uop v # st), s))
     | IBinary bop \<Rightarrow>
         (case pop st of (right, st) \<Rightarrow> case pop st of (left, st) \<Rightarrow>
            (Inr (apply_binary (floats_of env) bop left right # st), s))
     | IFunction k n \<Rightarrow>
         (case pop_args (unat n) [] st of (args, st) \<Rightarrow>
          case eval_function env k args (snd s) of (r, w) \<Rightarrow> (map_sum id (\<lambda>v. v # st) r, fst s, w))
     | IJmpIf _ _ \<Rightarrow> (Inr st, s)
     | IArrayAccess \<Rightarrow>
         (case pop st of (index, st) \<Rightarrow> case pop st of (arr, st) \<Rightarrow>
            (Inr (array_access (floats_of env) arr index # st), s))
     | IArrayBuild n \<Rightarrow> (case pop_args (unat n) [] st of (items, st) \<Rightarrow> (Inr (VArray items # st), s))
     | IRegex r \<Rightarrow>
         (case pop st of (v, st) \<Rightarrow> case eval_regex env r v of (res, captures) \<Rightarrow>
            (Inr (res # st), captures, snd s)))"

definition jumps :: "('f, 'r, 'w) eval_env \<Rightarrow> bool \<Rightarrow> 'f expr_value list \<Rightarrow> bool" where
  "jumps env val st \<longleftrightarrow> (case st of [] \<Rightarrow> False | v # _ \<Rightarrow> to_bool (floats_of env) v) = val"

section \<open>Programs\<close>

function eval_items ::
  "('f, 'r, 'w) eval_env \<Rightarrow> ('f, 'r) expr_item list \<Rightarrow> 'f expr_value list \<Rightarrow> 'w eval_state
    \<Rightarrow> (string + 'f expr_value) \<times> 'w eval_state" where
  "eval_items env [] st s = (Inr (fst (pop st)), s)"
| "eval_items env (i # is) st s =
    (case i of
       IJmpIf val pos \<Rightarrow> eval_items env (if jumps env val st then drop (unat pos) is else is) st s
     | _ \<Rightarrow>
        (case eval_item env i st s of
           (Inl e, s) \<Rightarrow> (Inl e, s)
         | (Inr st, s) \<Rightarrow> eval_items env is st s))"
  by pat_completeness auto
termination by (relation "measure (\<lambda>(_, is, _, _). length is)") auto

definition eval_program ::
  "('f, 'r, 'w) eval_env \<Rightarrow> ('f, 'r) expr_item list \<Rightarrow> 'w eval_state \<Rightarrow> (string + 'f expr_value) \<times> 'w eval_state" where
  "eval_program env is s = eval_items env is [] s"

text \<open>
  \<open>IfBlock\<close>: the first condition that holds chooses the expression, and the groups that its regular
  expressions captured can be used there.
\<close>

record ('f, 'r) if_block =
  if_then :: "(('f, 'r) expr_item list \<times> ('f, 'r) expr_item list) list"
  if_default :: "('f, 'r) expr_item list"

fun eval_block ::
  "('f, 'r, 'w) eval_env \<Rightarrow> (('f, 'r) expr_item list \<times> ('f, 'r) expr_item list) list \<Rightarrow> ('f, 'r) expr_item list
    \<Rightarrow> 'w eval_state \<Rightarrow> (string + 'f expr_value) \<times> 'w eval_state" where
  "eval_block env [] dflt s = eval_program env dflt s"
| "eval_block env ((cond, then') # rest) dflt s =
    (case eval_program env cond s of
       (Inl e, s) \<Rightarrow> (Inl e, s)
     | (Inr v, s) \<Rightarrow>
         if to_bool (floats_of env) v then eval_program env then' s else eval_block env rest dflt s)"

text \<open>\<open>eval_if\<close> and \<open>eval_expr\<close>; \<open>conv\<close> is the conversion to the type of the setting.\<close>

definition eval_if ::
  "('f, 'r, 'w) eval_env \<Rightarrow> ('f expr_value \<Rightarrow> 'a option) \<Rightarrow> ('f, 'r) if_block \<Rightarrow> 'w \<Rightarrow> 'a option \<times> 'w" where
  "eval_if env conv b w =
    (if if_default b = [] \<and> if_then b = [] then (None, w)
     else (case eval_block env (if_then b) (if_default b) ([], w) of
             (Inl e, s) \<Rightarrow> (None, snd s)
           | (Inr v, s) \<Rightarrow> (conv v, snd s)))"

definition eval_expr ::
  "('f, 'r, 'w) eval_env \<Rightarrow> ('f expr_value \<Rightarrow> 'a option) \<Rightarrow> ('f, 'r) expr_item list \<Rightarrow> 'w \<Rightarrow> 'a option \<times> 'w" where
  "eval_expr env conv is w =
    (if is = [] then (None, w)
     else (case eval_program env is ([], w) of
             (Inl e, s) \<Rightarrow> (None, snd s)
           | (Inr v, s) \<Rightarrow> (conv v, snd s)))"

end
