(* ===== verification/Expr_Compiler.thy ===== *)
theory Expr_Compiler
  imports Expr_Eval
begin

text \<open>
  What the parser and the evaluator of expressions do together: expressions as trees with a meaning,
  their tokens and their programs, the proof that the parser makes the program of the tokens, and
  that the program computes the meaning.
\<close>

section \<open>The language\<close>

text \<open>Expressions as trees, with their meaning.\<close>

datatype ('f, 'r) exp =
  EVariable u32 | EGlobal string | ECapture u32 | EConstant "'f expr_const" | ESetting setting
  | EUnary unary_op "('f, 'r) exp" | EBinary binary_op "('f, 'r) exp" "('f, 'r) exp"
  | ECall string u32 u32 "('f, 'r) exp list" | EMatches 'r "('f, 'r) exp"
  | EIndex "('f, 'r) exp" "('f, 'r) exp" | EArray "('f, 'r) exp list"

definition decides :: "'f floats \<Rightarrow> binary_op \<Rightarrow> 'f expr_value \<Rightarrow> bool" where
  "decides fl b v \<longleftrightarrow> b = BAnd \<and> \<not> to_bool fl v \<or> b = BOr \<and> to_bool fl v"

abbreviation bind_value ::
  "(string + 'a) \<times> 's \<Rightarrow> ('a \<Rightarrow> 's \<Rightarrow> (string + 'b) \<times> 's) \<Rightarrow> (string + 'b) \<times> 's" where
  "bind_value r f \<equiv> (case r of (Inl e, s) \<Rightarrow> (Inl e, s) | (Inr v, s) \<Rightarrow> f v s)"

fun meaning :: "('f, 'r, 'w) eval_env \<Rightarrow> ('f, 'r) exp \<Rightarrow> 'w eval_state \<Rightarrow> (string + 'f expr_value) \<times> 'w eval_state"
  and meanings :: "('f, 'r, 'w) eval_env \<Rightarrow> ('f, 'r) exp list \<Rightarrow> 'w eval_state \<Rightarrow> (string + 'f expr_value list) \<times> 'w eval_state" where
  "meaning env (EVariable v) s = (Inr (resolve_var env v), s)"
| "meaning env (EGlobal g) s = (Inr (resolve_global env g), s)"
| "meaning env (ECapture c) s = (Inr (eval_capture c (fst s)), s)"
| "meaning env (EConstant c) s = (Inr (value_of_const c), s)"
| "meaning env (ESetting k) s = (case eval_setting env k (snd s) of (r, w) \<Rightarrow> (r, fst s, w))"
| "meaning env (EUnary u e) s = bind_value (meaning env e s) (\<lambda>v s. (Inr (apply_unary (floats_of env) u v), s))"
| "meaning env (EBinary b l r) s =
    bind_value (meaning env l s) (\<lambda>v s.
      if decides (floats_of env) b v then (Inr v, s)
      else bind_value (meaning env r s) (\<lambda>w s. (Inr (apply_binary (floats_of env) b v w), s)))"
| "meaning env (ECall _ i _ es) s =
    bind_value (meanings env es s) (\<lambda>vs s. case eval_function env i vs (snd s) of (r, w) \<Rightarrow> (r, fst s, w))"
| "meaning env (EMatches r e) s =
    bind_value (meaning env e s) (\<lambda>v s. case eval_regex env r v of (res, captures) \<Rightarrow> (Inr res, captures, snd s))"
| "meaning env (EIndex a i) s =
    bind_value (meaning env a s) (\<lambda>arr s. bind_value (meaning env i s) (\<lambda>index s.
      (Inr (array_access (floats_of env) arr index), s)))"
| "meaning env (EArray es) s = bind_value (meanings env es s) (\<lambda>vs s. (Inr (VArray vs), s))"
| "meanings env [] s = (Inr [], s)"
| "meanings env (e # es) s =
    bind_value (meaning env e s) (\<lambda>v s. bind_value (meanings env es s) (\<lambda>vs s. (Inr (v # vs), s)))"

text \<open>Their tokens, with parentheses where the operators need them.\<close>

fun level :: "('f, 'r) exp \<Rightarrow> nat" where
  "level (EUnary _ _) = 8"
| "level (EBinary b _ _) = precedence b"
| "level _ = 9"

text \<open>An index can follow a variable or a closing parenthesis or bracket only.\<close>

fun indexable :: "('f, 'r) exp \<Rightarrow> bool" where
  "indexable (EVariable _) = True"
| "indexable (ESetting _) = True"
| "indexable (ECall _ _ _ _) = True"
| "indexable (EMatches _ _) = True"
| "indexable (EIndex _ _) = True"
| "indexable (EArray _) = True"
| "indexable _ = False"

definition in_parens :: "bool \<Rightarrow> ('f, 'r) expr_token list \<Rightarrow> ('f, 'r) expr_token list" where
  "in_parens b ts = (if b then TOpenParen # ts @ [TCloseParen] else ts)"

fun commas :: "('f, 'r) expr_token list list \<Rightarrow> ('f, 'r) expr_token list" where
  "commas [] = []"
| "commas [ts] = ts"
| "commas (ts # ts' # tss) = ts @ TComma # commas (ts' # tss)"

fun expr_tokens :: "('f, 'r) exp \<Rightarrow> ('f, 'r) expr_token list" where
  "expr_tokens (EVariable v) = [TVariable v]"
| "expr_tokens (EGlobal g) = [TGlobal g]"
| "expr_tokens (ECapture c) = [TCapture c]"
| "expr_tokens (EConstant c) = [TConstant c]"
| "expr_tokens (ESetting k) = [TSetting k, TOpenParen, TCloseParen]"
| "expr_tokens (EUnary u e) = TUnary u # in_parens (level e < 8) (expr_tokens e)"
| "expr_tokens (EBinary b l r) =
    in_parens (level l < precedence b) (expr_tokens l) @ TBinary b # in_parens (level r \<le> precedence b) (expr_tokens r)"
| "expr_tokens (ECall name i n es) = TFunction name i n # TOpenParen # commas (map expr_tokens es) @ [TCloseParen]"
| "expr_tokens (EMatches r e) = TRegex r # TOpenParen # expr_tokens e @ [TCloseParen]"
| "expr_tokens (EIndex a i) = in_parens (\<not> indexable a) (expr_tokens a) @ TOpenBracket # expr_tokens i @ [TCloseBracket]"
| "expr_tokens (EArray es) = TOpenBracket # commas (map expr_tokens es) @ [TCloseBracket]"

text \<open>
  What the parser takes: calls have the arguments that the function wants, and the items of an array
  do not begin with a parenthesis or a unary operator, because these are not counted as items.
\<close>

fun starts_plain :: "('f, 'r) exp \<Rightarrow> bool" where
  "starts_plain (EUnary _ _) = False"
| "starts_plain (EBinary b l _) = (precedence b \<le> level l \<and> starts_plain l)"
| "starts_plain (EIndex a _) = (indexable a \<and> starts_plain a)"
| "starts_plain _ = True"

fun well_formed :: "('f, 'r) exp \<Rightarrow> bool" where
  "well_formed (EUnary _ e) = well_formed e"
| "well_formed (EBinary _ l r) = (well_formed l \<and> well_formed r)"
| "well_formed (ECall _ i n es) =
    (list_all well_formed es \<and> i \<noteq> ID_ARRAY_ACCESS \<and> i \<noteq> ID_ARRAY_BUILD \<and> unat n = length es \<and> length es < 2 ^ 31)"
| "well_formed (EMatches _ e) = well_formed e"
| "well_formed (EIndex a i) = (well_formed a \<and> well_formed i)"
| "well_formed (EArray es) = (list_all well_formed es \<and> list_all starts_plain es \<and> length es < 2 ^ 31)"
| "well_formed _ = True"

text \<open>And their programs.\<close>

fun jump_over :: "binary_op \<Rightarrow> ('f, 'r) expr_item list \<Rightarrow> ('f, 'r) expr_item list" where
  "jump_over BAnd is = [IJmpIf False (word_of_nat (Suc (length is)))]"
| "jump_over BOr is = [IJmpIf True (word_of_nat (Suc (length is)))]"
| "jump_over _ is = []"

fun code :: "('f, 'r) exp \<Rightarrow> ('f, 'r) expr_item list" where
  "code (EVariable v) = [IVariable v]"
| "code (EGlobal g) = [IGlobal g]"
| "code (ECapture c) = [ICapture c]"
| "code (EConstant c) = [IConstant c]"
| "code (ESetting k) = [ISetting k]"
| "code (EUnary u e) = code e @ [IUnary u]"
| "code (EBinary b l r) = code l @ jump_over b (code r) @ code r @ [IBinary b]"
| "code (ECall _ i n es) = concat (map code es) @ [IFunction i n]"
| "code (EMatches r e) = code e @ [IRegex r]"
| "code (EIndex a i) = code a @ code i @ [IArrayAccess]"
| "code (EArray es) = concat (map code es) @ [IArrayBuild (word_of_nat (length es))]"

section \<open>The parser compiles\<close>

text \<open>The operators that wait on the stack, and what they leave in the output.\<close>

fun flush :: "('f, 'r) op_stack \<Rightarrow> ('f, 'r) expr_item list \<Rightarrow> ('f, 'r) expr_item list option" where
  "flush [] out = Some out"
| "flush ((TBinary b, j) # ops) out = (case output_binary b j out of None \<Rightarrow> None | Some out \<Rightarrow> flush ops out)"
| "flush ((TUnary u, j) # ops) out = flush ops (out @ [IUnary u])"
| "flush _ out = None"

lemma flush_append: "flush (ops @ ops') out = Option.bind (flush ops out) (flush ops')"
  by (induction ops out rule: flush.induct) (auto split: option.splits)

lemma close_until_flush:
  "flush pend out = Some out' \<Longrightarrow> expect = TOpenParen \<or> expect = TOpenBracket \<Longrightarrow>
   close_until expect (pend @ ops) out = close_until expect ops out'"
  by (induction pend out rule: flush.induct) (auto split: option.splits)

lemma pop_argument_flush: "flush pend out = Some out' \<Longrightarrow> pop_argument (pend @ ops) out = pop_argument ops out'"
  by (induction pend out rule: flush.induct) (auto split: option.splits)

lemma pop_all_flush: "flush pend out = Some out' \<Longrightarrow> pop_all (pend @ ops) out = pop_all ops out'"
  by (induction pend out rule: flush.induct) (auto split: option.splits)

fun waits :: "nat \<Rightarrow> ('f, 'r) expr_token \<times> nat option \<Rightarrow> bool" where
  "waits n (TBinary b, _) = (n \<le> precedence b)"
| "waits n (TUnary _, _) = (n \<le> 8)"
| "waits _ _ = False"

lemma waits_mono: "waits n x \<Longrightarrow> m \<le> n \<Longrightarrow> waits m x"
  by (induction n x rule: waits.induct) auto

lemma precedence_bounds [simp]: "precedence b \<le> 7" "0 < precedence b" "\<not> 8 \<le> precedence b" "\<not> 9 \<le> precedence b"
  by (cases b; simp)+

lemma waits_9 [simp]: "\<not> waits 9 x"
  by (cases "(9 :: nat, x)" rule: waits.cases) simp_all

lemma pop_stronger_flush:
  "flush pend out = Some out' \<Longrightarrow> list_all (waits (precedence b)) pend \<Longrightarrow>
   pop_stronger b (pend @ ops) out = pop_stronger b ops out'"
  by (induction pend out rule: flush.induct) (auto split: option.splits)

text \<open>What may be on the top of the stack where an expression of a level begins.\<close>

fun begins :: "nat \<Rightarrow> ('f, 'r) op_stack \<Rightarrow> bool" where
  "begins n [] = True"
| "begins n ((TBinary b, _) # _) = (precedence b < n)"
| "begins n ((TUnary _, _) # _) = (8 \<le> n)"
| "begins n ((TOpenParen, _) # _) = True"
| "begins n ((TOpenBracket, _) # _) = True"
| "begins n _ = False"

lemma begins_mono: "begins m ops \<Longrightarrow> m \<le> n \<Longrightarrow> begins n ops"
  by (induction m ops rule: begins.induct) auto

lemma pop_stronger_begins: "begins (precedence b) ops \<Longrightarrow> pop_stronger b ops out = Some (ops, out)"
  by (cases "(precedence b, ops)" rule: begins.cases) auto

lemma begins_head: "begins n (x # ops) = begins n [x]"
  by (cases "(n, x # ops)" rule: begins.cases) auto

lemma begins_count [simp]: "begins n (count_item ops) = begins n ops"
  by (induction ops rule: count_item.induct) (simp_all add: begins_head [of n _ "_ # _"])

lemma count_item_push [simp]:
  "begins n ops \<Longrightarrow> count_item ((TBinary b, j) # ops) = (TBinary b, j) # ops"
  "begins n ops \<Longrightarrow> count_item ((TUnary u, j) # ops) = (TUnary u, j) # ops"
  "begins n ops \<Longrightarrow> count_item ((TOpenParen, j) # ops) = (TOpenParen, j) # ops"
  by (cases "(n, ops)" rule: begins.cases; simp)+

abbreviation at_parser :: "('f, 'r) expr_item list \<Rightarrow> ('f, 'r) op_stack \<Rightarrow> int list \<Rightarrow> ('f, 'r) expr_parser" where
  "at_parser out ops args \<equiv> \<lparr>expr_output = out, operator_stack = ops, arg_count = args\<rparr>"

fun bump :: "int list \<Rightarrow> int list" where
  "bump [] = []"
| "bump (x # xs) = (x + 1) # xs"

fun room :: "int list \<Rightarrow> bool" where
  "room [] = True"
| "room (x # xs) = (0 \<le> x \<and> x < 2 ^ 31 - 1)"

definition counted :: "bool \<Rightarrow> ('f, 'r) op_stack \<Rightarrow> int list \<Rightarrow> ('f, 'r) op_stack" where
  "counted plain ops args = (if plain \<and> args \<noteq> [] then count_item ops else ops)"

lemma counted_simps [simp]: "counted False ops args = ops" "counted plain ops [] = ops"
  "counted True ops (x # xs) = count_item ops"
  by (simp_all add: counted_def)

lemma begins_counted [simp]: "begins n (counted b ops args) = begins n ops"
  by (simp add: counted_def)

lemma counted_push [simp]:
  "begins n ops \<Longrightarrow> counted p ((TBinary b, j) # ops) args = (TBinary b, j) # ops"
  "begins n ops \<Longrightarrow> counted p ((TUnary u, j) # ops) args = (TUnary u, j) # ops"
  "begins n ops \<Longrightarrow> counted p ((TOpenParen, j) # ops) args = (TOpenParen, j) # ops"
  by (simp_all add: counted_def)

lemma inc_arg_count_at [simp]:
  "room args \<Longrightarrow> inc_arg_count (at_parser out ops args) = at_parser out (counted True ops args) (bump args)"
  by (cases args) (simp_all add: inc_arg_count_def)

lemma dec_arg_count_at [simp]: "room args \<Longrightarrow> dec_arg_count (at_parser out ops (bump args)) = at_parser out ops args"
  by (cases args) (simp_all add: dec_arg_count_def)

lemma push_at [simp]:
  "push_output i (at_parser out ops args) = at_parser (out @ [i]) ops args"
  "push_operator t j (at_parser out ops args) = at_parser out ((t, j) # ops) args"
  by (simp_all add: push_output_def push_operator_def)

lemma open_bracket_at [simp]:
  "open_bracket True (at_parser out ops args) =
    at_parser out ((TOpenBracket, None) # (TFunction ''array'' ID_ARRAY_ACCESS 2, None) # ops) (1 # args)"
  "room args \<Longrightarrow> open_bracket False (at_parser out ops args) =
    at_parser out ((TOpenBracket, None) # (TFunction ''array'' ID_ARRAY_BUILD 0, None) # counted True ops args) (0 # bump args)"
  by (simp_all add: open_bracket_def)

lemma finish_call_begins [simp]: "begins n ops \<Longrightarrow> finish_call (at_parser out ops args) = Some (Inr (at_parser out ops args))"
  by (cases "(n, ops)" rule: begins.cases) (simp_all add: finish_call_def)

lemma close_group_flush:
  "flush pend out = Some out' \<Longrightarrow>
   close_group TCloseParen (at_parser out (pend @ (TOpenParen, None) # ops) args) = finish_call (at_parser out' ops args)"
  "flush pend out = Some out' \<Longrightarrow>
   close_group TCloseBracket (at_parser out (pend @ (TOpenBracket, None) # ops) args) = finish_call (at_parser out' ops args)"
  by (simp_all add: close_group_def close_until_flush)

text \<open>What the parser does with the tokens of one expression.\<close>

definition compiles :: "('f, 'r) exp \<Rightarrow> bool" where
  "compiles e \<longleftrightarrow>
    (\<forall>out ops args ts. begins (level e) ops \<longrightarrow> room args \<longrightarrow>
      (\<exists>b pend out'.
        parser_steps False (expr_tokens e @ ts) (at_parser out ops args) =
          parser_steps b ts (at_parser out' (pend @ counted (starts_plain e) ops args) (bump args))
        \<and> flush pend out' = Some (out @ code e) \<and> list_all (waits (level e)) pend \<and> (indexable e \<longrightarrow> b)))"

lemma compilesE:
  assumes "compiles e" and "begins (level e) ops" and "room args"
  obtains b pend out' where
    "parser_steps False (expr_tokens e @ ts) (at_parser out ops args) =
      parser_steps b ts (at_parser out' (pend @ counted (starts_plain e) ops args) (bump args))"
    "flush pend out' = Some (out @ code e)" "list_all (waits (level e)) pend" "indexable e \<longrightarrow> b"
  using assms unfolding compiles_def by blast

lemma compiles_atom:
  assumes "level e = 9" and "starts_plain e"
    and "\<And>out ops args ts. begins 9 ops \<Longrightarrow> room args \<Longrightarrow>
      parser_steps False (expr_tokens e @ ts) (at_parser out ops args) =
        parser_steps (indexable e) ts (at_parser (out @ code e) (counted True ops args) (bump args))"
  shows "compiles e"
  unfolding compiles_def
  by (intro allI impI, rule exI [of _ "indexable e"], rule exI [of _ "[]"], rule exI [of _ "_ @ code e"])
    (simp add: assms)

lemma compiles_paren:
  assumes "compiles e" and "begins n ops" and "room args"
  shows "parser_steps False (TOpenParen # expr_tokens e @ TCloseParen # ts) (at_parser out ops args) =
    parser_steps True ts (at_parser (out @ code e) ops (bump args))"
proof -
  have "begins (level e) ((TOpenParen, None) # ops)" by simp
  then obtain b pend out' where
    s: "parser_steps False (expr_tokens e @ TCloseParen # ts) (at_parser out ((TOpenParen, None) # ops) args) =
      parser_steps b (TCloseParen # ts) (at_parser out' (pend @ counted (starts_plain e) ((TOpenParen, None) # ops) args) (bump args))"
    and f: "flush pend out' = Some (out @ code e)"
    using compilesE [OF assms(1) _ assms(3)] by blast
  have "parser_steps False (TOpenParen # expr_tokens e @ TCloseParen # ts) (at_parser out ops args) =
      parser_steps b (TCloseParen # ts) (at_parser out' (pend @ (TOpenParen, None) # ops) (bump args))"
    using s assms(2) by (simp add: parser_step_def)
  with f assms(2) show ?thesis by (simp add: parser_step_def close_group_flush)
qed

lemma compiles_operand:
  assumes "compiles e" and "begins n ops" and "room args" and "\<not> c \<Longrightarrow> begins (level e) ops"
  obtains b pend out' where
    "parser_steps False (in_parens c (expr_tokens e) @ ts) (at_parser out ops args) =
      parser_steps b ts (at_parser out' (pend @ counted (\<not> c \<and> starts_plain e) ops args) (bump args))"
    "flush pend out' = Some (out @ code e)" "list_all (waits (if c then 9 else level e)) pend" "c \<or> indexable e \<longrightarrow> b"
proof (cases c)
  case True
  with compiles_paren [OF assms(1-3), of ts out] that [of True "out @ code e" "[]"] show thesis by (simp add: in_parens_def)
next
  case False
  obtain b pend out' where
    "parser_steps False (expr_tokens e @ ts) (at_parser out ops args) =
      parser_steps b ts (at_parser out' (pend @ counted (starts_plain e) ops args) (bump args))"
    "flush pend out' = Some (out @ code e)" "list_all (waits (level e)) pend" "indexable e \<longrightarrow> b"
    using compilesE [OF assms(1) assms(4) [OF False] assms(3)] by blast
  with False that [of b out' pend] show thesis by (simp add: in_parens_def)
qed

text \<open>The arguments of a call and the items of an array.\<close>

definition group :: "('f, 'r) expr_token \<Rightarrow> string \<Rightarrow> u32 \<Rightarrow> u32 \<Rightarrow> ('f, 'r) op_stack \<Rightarrow> ('f, 'r) op_stack" where
  "group t name i n ops = (t, None) # (TFunction name i n, None) # ops"

lemma counted_group:
  "counted plain (group t name i n ops) (x # xs) = group t name i (if plain \<and> i = ID_ARRAY_BUILD then n + 1 else n) ops"
  by (simp add: group_def counted_def)

lemma begins_group: "t = TOpenParen \<or> t = TOpenBracket \<Longrightarrow> begins m (group t name i n ops)"
  by (auto simp: group_def)

lemma pop_argument_group: "t = TOpenParen \<or> t = TOpenBracket \<Longrightarrow> pop_argument (group t name i n ops) out = Some (group t name i n ops, out)"
  by (auto simp: group_def)

lemma compiles_list:
  assumes "list_all compiles es" and "i = ID_ARRAY_BUILD \<Longrightarrow> list_all starts_plain es"
    and "t = TOpenParen \<or> t = TOpenBracket" and "0 \<le> c" and "c + int (length es) < 2 ^ 31"
  shows "\<exists>b pend out'. parser_steps False (commas (map expr_tokens es) @ ts) (at_parser out (group t name i n ops) (c # args)) =
      parser_steps b ts (at_parser out'
        (pend @ group t name i (if i = ID_ARRAY_BUILD then n + word_of_nat (length es) else n) ops) ((c + int (length es)) # args))
    \<and> flush pend out' = Some (out @ concat (map code es))"
  using assms
proof (induction es arbitrary: out n c rule: induct_list012)
  case 1
  show ?case by (rule exI [of _ False], rule exI [of _ "[]"], rule exI [of _ out]) simp
next
  case (2 e)
  have "compiles e" and "room (c # args)" using "2.prems" by simp_all
  then obtain b pend out' where
    "parser_steps False (expr_tokens e @ ts) (at_parser out (group t name i n ops) (c # args)) =
      parser_steps b ts (at_parser out' (pend @ counted (starts_plain e) (group t name i n ops) (c # args)) (bump (c # args)))"
    "flush pend out' = Some (out @ code e)"
    using compilesE [of e "group t name i n ops" "c # args"] begins_group [OF assms(3)] by metis
  with "2.prems"(2) show ?case
    by (intro exI [of _ b] exI [of _ pend] exI [of _ out']) (auto simp: counted_group)
next
  case (3 e e' es)
  let ?n = "if i = ID_ARRAY_BUILD then n + 1 else n"
  have "compiles e" and "room (c # args)" using "3.prems" by simp_all
  then obtain b pend out' where
    s: "parser_steps False (expr_tokens e @ TComma # commas (map expr_tokens (e' # es)) @ ts) (at_parser out (group t name i n ops) (c # args)) =
      parser_steps b (TComma # commas (map expr_tokens (e' # es)) @ ts)
        (at_parser out' (pend @ counted (starts_plain e) (group t name i n ops) (c # args)) (bump (c # args)))"
    and f: "flush pend out' = Some (out @ code e)"
    using compilesE [of e "group t name i n ops" "c # args"] begins_group [OF assms(3)] by metis
  have "counted (starts_plain e) (group t name i n ops) (c # args) = group t name i ?n ops"
    using "3.prems"(2) by (auto simp: counted_group)
  with s f have s1: "parser_steps False (commas (map expr_tokens (e # e' # es)) @ ts) (at_parser out (group t name i n ops) (c # args)) =
      parser_steps False (commas (map expr_tokens (e' # es)) @ ts) (at_parser (out @ code e) (group t name i ?n ops) ((c + 1) # args))"
    by (simp add: parser_step_def pop_argument_flush pop_argument_group [OF assms(3)])
  have "list_all compiles (e' # es)" "i = ID_ARRAY_BUILD \<Longrightarrow> list_all starts_plain (e' # es)"
    "0 \<le> c + 1" "c + 1 + int (length (e' # es)) < 2 ^ 31"
    using "3.prems" by simp_all
  from "3.IH"(2) [OF this(1,2) assms(3) this(3,4), of "out @ code e" ?n] obtain b2 pend2 out2 where
    s2: "parser_steps False (commas (map expr_tokens (e' # es)) @ ts) (at_parser (out @ code e) (group t name i ?n ops) ((c + 1) # args)) =
      parser_steps b2 ts (at_parser out2
        (pend2 @ group t name i (if i = ID_ARRAY_BUILD then ?n + word_of_nat (length (e' # es)) else ?n) ops)
        ((c + 1 + int (length (e' # es))) # args))"
    and f2: "flush pend2 out2 = Some ((out @ code e) @ concat (map code (e' # es)))" by blast
  have eqs: "(if i = ID_ARRAY_BUILD then ?n + word_of_nat (length (e' # es)) else ?n) =
      (if i = ID_ARRAY_BUILD then n + word_of_nat (length (e # e' # es)) else n)"
    "c + 1 + int (length (e' # es)) = c + int (length (e # e' # es))"
    "(out @ code e) @ concat (map code (e' # es)) = out @ concat (map code (e # e' # es))" by simp_all
  show ?case by (rule exI [of _ b2], rule exI [of _ pend2], rule exI [of _ out2]) (simp only: s1 s2 f2 eqs simp_thms)
qed

lemma sint_small_args: "unat (n :: u32) < 2 ^ 31 \<Longrightarrow> sint n = int (unat n)"
proof -
  assume "unat n < 2 ^ 31"
  then have "uint n < 2 ^ 31" by (metis of_nat_less_iff of_nat_numeral of_nat_power uint_nat)
  moreover have "- (2 ^ 31) \<le> uint n" by (rule order.trans [OF _ uint_ge_0]) simp
  ultimately have "sint n = uint n" by (simp add: sint_uint signed_take_bit_int_eq_self)
  then show ?thesis by simp
qed

lemma list_all_waits: "list_all (waits n) pend \<Longrightarrow> m \<le> n \<Longrightarrow> list_all (waits m) pend"
  by (auto simp: list_all_iff intro: waits_mono)

lemma word_of_nat_args: "k < 2 ^ 31 \<Longrightarrow> sint (word_of_nat k :: u32) = int k"
  by (subst sint_small_args) (simp_all add: unat_of_nat take_bit_nat_eq_self)

lemma array_ids [simp]: "ID_ARRAY_ACCESS \<noteq> ID_ARRAY_BUILD" "ID_ARRAY_BUILD \<noteq> ID_ARRAY_ACCESS"
  by (simp_all add: ID_ARRAY_ACCESS_def ID_ARRAY_BUILD_def)

lemma finish_call_function:
  "got = sint n \<Longrightarrow> finish_call (at_parser out ((TFunction name i n, j) # ops) (got # args)) =
    Some (Inr (at_parser (out @ [call_item i n]) ops args))"
  by (simp add: finish_call_def)

lemma update_jmp_pos_at: "update_jmp_pos (Some (length out)) (out @ IJmpIf v p # code') = Some (out @ IJmpIf v (word_of_nat (Suc (length code'))) # code')"
  by (simp add: update_jmp_pos_def nth_append list_update_append)

lemma output_binary_jump:
  assumes "j = (if b = BAnd \<or> b = BOr then Some (length out) else None)"
  shows "output_binary b j (out @ (if b = BAnd then [IJmpIf False 0] else if b = BOr then [IJmpIf True 0] else []) @ c) =
    Some (out @ jump_over b c @ c @ [IBinary b])"
  using assms update_jmp_pos_at [of out] by (cases b) (simp_all add: output_binary_def update_jmp_pos_def)

lemma push_binary_at:
  assumes "room args" and "flush pend out' = Some out" and "list_all (waits (precedence b)) pend" and "begins (precedence b) ops"
  shows "push_binary b (at_parser out' (pend @ ops) (bump args)) =
    Some (Inr (at_parser (out @ (if b = BAnd then [IJmpIf False 0] else if b = BOr then [IJmpIf True 0] else []))
      ((TBinary b, if b = BAnd \<or> b = BOr then Some (length out) else None) # ops) args))"
  using assms by (cases b) (simp_all add: push_binary_def pop_stronger_flush pop_stronger_begins)

lemma compiles_unary:
  assumes "compiles e"
  shows "compiles (EUnary u e :: ('f, 'r) exp)"
  unfolding compiles_def
proof (intro allI impI)
  fix out :: "('f, 'r) expr_item list" and ops :: "('f, 'r) op_stack" and args ts
  assume a: "begins (level (EUnary u e)) ops" "room args"
  have "begins 9 ((TUnary u, None) # ops)" "\<not> level e < 8 \<Longrightarrow> begins (level e) ((TUnary u, None) # ops)" by simp_all
  from compiles_operand [OF assms this(1) a(2) this(2)] obtain b pend out' where
    s: "parser_steps False (in_parens (level e < 8) (expr_tokens e) @ ts) (at_parser out ((TUnary u, None) # ops) args) =
      parser_steps b ts (at_parser out' (pend @ counted (\<not> level e < 8 \<and> starts_plain e) ((TUnary u, None) # ops) args) (bump args))"
    and f: "flush pend out' = Some (out @ code e)" and w: "list_all (waits (if level e < 8 then 9 else level e)) pend" by blast
  from w have "list_all (waits 8) pend" by (rule list_all_waits) simp
  with s f a(1) show "\<exists>b pend out'.
        parser_steps False (expr_tokens (EUnary u e) @ ts) (at_parser out ops args) =
          parser_steps b ts (at_parser out' (pend @ counted (starts_plain (EUnary u e)) ops args) (bump args))
        \<and> flush pend out' = Some (out @ code (EUnary u e)) \<and> list_all (waits (level (EUnary u e))) pend
        \<and> (indexable (EUnary u e) \<longrightarrow> b)"
    by (intro exI [of _ b] exI [of _ "pend @ [(TUnary u, None)]"] exI [of _ out'])
      (simp add: parser_step_def flush_append)
qed

lemma compiles_binary:
  assumes "compiles l" and "compiles r"
  shows "compiles (EBinary b l r :: ('f, 'r) exp)"
  unfolding compiles_def
proof (intro allI impI)
  fix out :: "('f, 'r) expr_item list" and ops :: "('f, 'r) op_stack" and args ts
  assume a: "begins (level (EBinary b l r)) ops" "room args"
  let ?cl = "level l < precedence b" and ?cr = "level r \<le> precedence b"
  let ?ops = "counted (\<not> ?cl \<and> starts_plain l) ops args"
  let ?j = "if b = BAnd \<or> b = BOr then Some (length (out @ code l)) else None"
  let ?out = "(out @ code l) @ (if b = BAnd then [IJmpIf False 0] else if b = BOr then [IJmpIf True 0] else [])"
  let ?rest = "in_parens ?cr (expr_tokens r) @ ts"
  have o: "begins (precedence b) ?ops" using a(1) by simp
  have "\<not> ?cl \<Longrightarrow> begins (level l) ops" using a(1) by (auto elim: begins_mono)
  from compiles_operand [OF assms(1) a(1,2) this, where ts = "TBinary b # ?rest"] obtain b1 pend1 out1 where
    s1: "parser_steps False (in_parens ?cl (expr_tokens l) @ TBinary b # ?rest) (at_parser out ops args) =
      parser_steps b1 (TBinary b # ?rest) (at_parser out1 (pend1 @ ?ops) (bump args))"
    and f1: "flush pend1 out1 = Some (out @ code l)" and w1: "list_all (waits (if ?cl then 9 else level l)) pend1" by blast
  from w1 have "list_all (waits (precedence b)) pend1" by (rule list_all_waits) (simp add: le_less_trans [THEN less_imp_le] order.trans [OF precedence_bounds(1)])
  from push_binary_at [OF a(2) f1 this o]
  have s2: "parser_steps b1 (TBinary b # ?rest) (at_parser out1 (pend1 @ ?ops) (bump args)) =
      parser_steps False ?rest (at_parser ?out ((TBinary b, ?j) # ?ops) args)" by (simp add: parser_step_def)
  have "begins 9 ((TBinary b, ?j) # ?ops)" "\<not> ?cr \<Longrightarrow> begins (level r) ((TBinary b, ?j) # ?ops)"
    using precedence_bounds(1) [of b] by (auto simp del: precedence_bounds)
  from compiles_operand [OF assms(2) this(1) a(2) this(2), where ts = ts and out = ?out, unfolded counted_push(1) [OF o]] obtain b2 pend2 out2 where
    s3: "parser_steps False ?rest (at_parser ?out ((TBinary b, ?j) # ?ops) args) =
      parser_steps b2 ts (at_parser out2 (pend2 @ (TBinary b, ?j) # ?ops) (bump args))"
    and f3: "flush pend2 out2 = Some (?out @ code r)" and w2: "list_all (waits (if ?cr then 9 else level r)) pend2" by blast
  from w2 have "list_all (waits (precedence b)) pend2" by (rule list_all_waits) (simp add: le_less_trans [THEN less_imp_le] order.trans [OF precedence_bounds(1)])
  moreover have "flush (pend2 @ [(TBinary b, ?j)]) out2 = Some (out @ code (EBinary b l r))"
    using f3 output_binary_jump [of ?j b "out @ code l" "code r"] by (simp add: flush_append)
  moreover have "(\<not> ?cl \<and> starts_plain l) = starts_plain (EBinary b l r)" by auto
  ultimately show "\<exists>b' pend out'.
        parser_steps False (expr_tokens (EBinary b l r) @ ts) (at_parser out ops args) =
          parser_steps b' ts (at_parser out' (pend @ counted (starts_plain (EBinary b l r)) ops args) (bump args))
        \<and> flush pend out' = Some (out @ code (EBinary b l r)) \<and> list_all (waits (level (EBinary b l r))) pend
        \<and> (indexable (EBinary b l r) \<longrightarrow> b')"
    using s1 s2 s3 by (intro exI [of _ b2] exI [of _ "pend2 @ [(TBinary b, ?j)]"] exI [of _ out2]) simp
qed

lemma compiles_call:
  assumes "list_all compiles es" and "i \<noteq> ID_ARRAY_ACCESS" "i \<noteq> ID_ARRAY_BUILD" and "unat n = length es" and "length es < 2 ^ 31"
  shows "compiles (ECall name i n es :: ('f, 'r) exp)"
proof (rule compiles_atom)
  fix out :: "('f, 'r) expr_item list" and ops :: "('f, 'r) op_stack" and args ts
  assume a: "begins 9 ops" "room args"
  let ?ops = "counted True ops args"
  obtain b pend out' where
    s: "parser_steps False (commas (map expr_tokens es) @ TCloseParen # ts) (at_parser out (group TOpenParen name i n ?ops) (0 # bump args)) =
      parser_steps b (TCloseParen # ts) (at_parser out' (pend @ group TOpenParen name i n ?ops) (int (length es) # bump args))"
    and f: "flush pend out' = Some (out @ concat (map code es))"
    using compiles_list [OF assms(1), of i TOpenParen 0 "TCloseParen # ts" out name n ?ops "bump args"] assms(3,5) by auto
  have "int (length es) = sint n" using assms(4,5) by (simp add: sint_small_args)
  then have "parser_steps b (TCloseParen # ts) (at_parser out' (pend @ group TOpenParen name i n ?ops) (int (length es) # bump args)) =
      parser_steps True ts (at_parser (out @ code (ECall name i n es)) ?ops (bump args))"
    using f assms(2,3) by (simp add: parser_step_def group_def close_group_flush finish_call_function call_item_def)
  moreover have "parser_steps False (expr_tokens (ECall name i n es) @ ts) (at_parser out ops args) =
      parser_steps False (commas (map expr_tokens es) @ TCloseParen # ts) (at_parser out (group TOpenParen name i n ?ops) (0 # bump args))"
    using a by (simp add: parser_step_def group_def)
  ultimately show "parser_steps False (expr_tokens (ECall name i n es) @ ts) (at_parser out ops args) =
        parser_steps (indexable (ECall name i n es)) ts (at_parser (out @ code (ECall name i n es)) (counted True ops args) (bump args))"
    using s by auto
qed simp_all

lemma compiles_array:
  assumes "list_all compiles es" and "list_all starts_plain es" and "length es < 2 ^ 31"
  shows "compiles (EArray es :: ('f, 'r) exp)"
proof (rule compiles_atom)
  fix out :: "('f, 'r) expr_item list" and ops :: "('f, 'r) op_stack" and args ts
  assume a: "begins 9 ops" "room args"
  let ?ops = "counted True ops args" and ?n = "word_of_nat (length es) :: u32"
  obtain b pend out' where
    s: "parser_steps False (commas (map expr_tokens es) @ TCloseBracket # ts)
          (at_parser out (group TOpenBracket ''array'' ID_ARRAY_BUILD 0 ?ops) (0 # bump args)) =
      parser_steps b (TCloseBracket # ts)
        (at_parser out' (pend @ group TOpenBracket ''array'' ID_ARRAY_BUILD ?n ?ops) (int (length es) # bump args))"
    and f: "flush pend out' = Some (out @ concat (map code es))"
    using compiles_list [OF assms(1), of ID_ARRAY_BUILD TOpenBracket 0 "TCloseBracket # ts" out "''array''" 0 ?ops "bump args"]
      assms(2,3) by auto
  have "int (length es) = sint ?n" using assms(3) by (simp add: word_of_nat_args)
  then have "parser_steps b (TCloseBracket # ts)
        (at_parser out' (pend @ group TOpenBracket ''array'' ID_ARRAY_BUILD ?n ?ops) (int (length es) # bump args)) =
      parser_steps True ts (at_parser (out @ code (EArray es)) ?ops (bump args))"
    using f by (simp add: parser_step_def group_def close_group_flush finish_call_function call_item_def)
  moreover have "parser_steps False (expr_tokens (EArray es) @ ts) (at_parser out ops args) =
      parser_steps False (commas (map expr_tokens es) @ TCloseBracket # ts)
        (at_parser out (group TOpenBracket ''array'' ID_ARRAY_BUILD 0 ?ops) (0 # bump args))"
    using a by (simp add: parser_step_def group_def)
  ultimately show "parser_steps False (expr_tokens (EArray es) @ ts) (at_parser out ops args) =
        parser_steps (indexable (EArray es)) ts (at_parser (out @ code (EArray es)) (counted True ops args) (bump args))"
    using s by auto
qed simp_all

lemma compiles_matches:
  assumes "compiles e"
  shows "compiles (EMatches r e :: ('f, 'r) exp)"
proof (rule compiles_atom)
  fix out :: "('f, 'r) expr_item list" and ops :: "('f, 'r) op_stack" and args ts
  assume a: "begins 9 ops" "room args"
  let ?ops = "(TOpenParen, None) # (TRegex r, None) # counted True ops args"
  have "begins (level e) ?ops" "room (0 # bump args)" by simp_all
  from compilesE [OF assms this] obtain b pend out' where
    s: "parser_steps False (expr_tokens e @ TCloseParen # ts) (at_parser out ?ops (0 # bump args)) =
      parser_steps b (TCloseParen # ts) (at_parser out' (pend @ counted (starts_plain e) ?ops (0 # bump args)) (bump (0 # bump args)))"
    and f: "flush pend out' = Some (out @ code e)" by blast
  have c: "counted (starts_plain e) ?ops (0 # bump args) = ?ops" by (simp add: counted_def)
  have "parser_steps b (TCloseParen # ts) (at_parser out' (pend @ ?ops) (1 # bump args)) =
      parser_steps True ts (at_parser (out @ code (EMatches r e)) (counted True ops args) (bump args))"
    using f by (simp add: parser_step_def close_group_flush) (simp add: finish_call_def)
  moreover have "parser_steps False (expr_tokens (EMatches r e) @ ts) (at_parser out ops args) =
      parser_steps False (expr_tokens e @ TCloseParen # ts) (at_parser out ?ops (0 # bump args))"
    using a by (simp add: parser_step_def)
  ultimately show "parser_steps False (expr_tokens (EMatches r e) @ ts) (at_parser out ops args) =
        parser_steps (indexable (EMatches r e)) ts (at_parser (out @ code (EMatches r e)) (counted True ops args) (bump args))"
    using s unfolding c by auto
qed simp_all

lemma compiles_index:
  assumes "compiles a" and "compiles i"
  shows "compiles (EIndex a i :: ('f, 'r) exp)"
  unfolding compiles_def
proof (intro allI impI)
  fix out :: "('f, 'r) expr_item list" and ops :: "('f, 'r) op_stack" and args ts
  assume p: "begins (level (EIndex a i)) ops" "room args"
  let ?ops = "counted (indexable a \<and> starts_plain a) ops args"
  let ?in = "(TOpenBracket, None) # (TFunction ''array'' ID_ARRAY_ACCESS 2, None) # ?ops"
  let ?rest = "TOpenBracket # expr_tokens i @ TCloseBracket # ts"
  have l: "indexable a \<Longrightarrow> level a = 9" by (cases a) simp_all
  then have n: "\<not> \<not> indexable a \<Longrightarrow> begins (level a) ops" using p(1) by simp
  obtain b1 pend1 out1 where
    s1: "parser_steps False (in_parens (\<not> indexable a) (expr_tokens a) @ ?rest) (at_parser out ops args) =
      parser_steps b1 ?rest (at_parser out1 (pend1 @ ?ops) (bump args))"
    and f1: "flush pend1 out1 = Some (out @ code a)" and w1: "list_all (waits (if \<not> indexable a then 9 else level a)) pend1"
    and b1: "\<not> indexable a \<or> indexable a \<longrightarrow> b1"
    by (rule compiles_operand [OF assms(1) p n, where c = "\<not> indexable a" and ts = ?rest and out = out, unfolded not_not])
  from w1 l have "pend1 = []" by (cases pend1) (auto split: if_splits)
  with f1 b1 have s2: "parser_steps b1 ?rest (at_parser out1 (pend1 @ ?ops) (bump args)) =
      parser_steps False (expr_tokens i @ TCloseBracket # ts) (at_parser (out @ code a) ?in (1 # bump args))"
    by (simp add: parser_step_def)
  have "begins (level i) ?in" "room (1 # bump args)" by simp_all
  from compilesE [OF assms(2) this] obtain b2 pend2 out2 where
    s3: "parser_steps False (expr_tokens i @ TCloseBracket # ts) (at_parser (out @ code a) ?in (1 # bump args)) =
      parser_steps b2 (TCloseBracket # ts) (at_parser out2 (pend2 @ counted (starts_plain i) ?in (1 # bump args)) (bump (1 # bump args)))"
    and f2: "flush pend2 out2 = Some ((out @ code a) @ code i)" by blast
  have c: "counted (starts_plain i) ?in (1 # bump args) = ?in" by (simp add: counted_def)
  have s4: "parser_steps b2 (TCloseBracket # ts) (at_parser out2 (pend2 @ ?in) (2 # bump args)) =
      parser_steps True ts (at_parser (out @ code (EIndex a i)) ?ops (bump args))"
    using f2 by (simp add: parser_step_def close_group_flush finish_call_function call_item_def)
  show "\<exists>b pend out'.
        parser_steps False (expr_tokens (EIndex a i) @ ts) (at_parser out ops args) =
          parser_steps b ts (at_parser out' (pend @ counted (starts_plain (EIndex a i)) ops args) (bump args))
        \<and> flush pend out' = Some (out @ code (EIndex a i)) \<and> list_all (waits (level (EIndex a i))) pend
        \<and> (indexable (EIndex a i) \<longrightarrow> b)"
    using s1 s2 s3 s4 unfolding c by (intro exI [of _ True] exI [of _ "[]"] exI [of _ "out @ code (EIndex a i)"]) simp
qed

lemma compiles_leaf:
  "compiles (EVariable v)" "compiles (EGlobal g)" "compiles (ECapture k)" "compiles (EConstant c)" "compiles (ESetting s)"
  by (rule compiles_atom; simp add: parser_step_def close_group_def finish_call_def)+

lemma well_formed_compiles: "well_formed e \<Longrightarrow> compiles e"
  by (induction e) (auto simp: compiles_leaf compiles_unary compiles_binary compiles_matches compiles_index list_all_iff
      intro!: compiles_call compiles_array)

lemma parse_expr_tokens:
  assumes "well_formed e"
  shows "parse_tokens (expr_tokens e) = Some (Inr (code e))"
proof -
  have "begins (level e) []" and "room []" by simp_all
  from compilesE [OF well_formed_compiles [OF assms] this, of "[]" "[]"] obtain b pend out' where
    "parser_steps False (expr_tokens e @ []) (at_parser [] [] []) = parser_steps b [] (at_parser out' (pend @ counted (starts_plain e) [] []) (bump []))"
    and f: "flush pend out' = Some ([] @ code e)" by blast
  then have "parser_steps False (expr_tokens e) parser_new = Some (Inr (b, at_parser out' pend []))" by (simp add: parser_new_def)
  with pop_all_flush [OF f, of "[]"] show ?thesis by (simp add: parse_tokens_def)
qed

section \<open>The programs compute\<close>

definition continue_with ::
  "(string + 'v) \<times> 's \<Rightarrow> ('v \<Rightarrow> 's \<Rightarrow> (string + 'f expr_value) \<times> 's) \<Rightarrow> (string + 'f expr_value) \<times> 's" where
  "continue_with r k = bind_value r k"

lemma continue_with_simps [simp]:
  "continue_with (Inl e, s) k = (Inl e, s)" "continue_with (Inr v, s) k = k v s"
  by (simp_all add: continue_with_def)

fun is_jump :: "('f, 'r) expr_item \<Rightarrow> bool" where
  "is_jump (IJmpIf _ _) = True"
| "is_jump _ = False"

lemma eval_items_plain:
  "\<not> is_jump i \<Longrightarrow>
   eval_items env (i # is) st s = continue_with (eval_item env i st s) (eval_items env is)"
  by (cases i) (simp_all add: continue_with_def)

lemma pop_args_append: "pop_args (length vs) args (rev vs @ st) = (vs @ args, st)"
  by (induction vs arbitrary: args rule: rev_induct) simp_all

lemma pop_args_rev: "n = length vs \<Longrightarrow> pop_args n [] (rev vs @ st) = (vs, st)"
  by (simp add: pop_args_append)

text \<open>A program that leaves the value of an expression on the stack, if it is not too long for its jumps.\<close>

definition computes :: "('f, 'r, 'w) eval_env \<Rightarrow> ('f, 'r) exp \<Rightarrow> bool" where
  "computes env e \<longleftrightarrow>
    (\<forall>is st s. eval_items env (code e @ is) st s = continue_with (meaning env e s) (\<lambda>v s. eval_items env is (v # st) s))"

lemma computesD:
  "computes env e \<Longrightarrow> eval_items env (code e @ is) st s = continue_with (meaning env e s) (\<lambda>v s. eval_items env is (v # st) s)"
  unfolding computes_def by blast

lemma computes_list:
  assumes "list_all (computes env) es"
  shows "eval_items env (concat (map code es) @ is) st s = continue_with (meanings env es s) (\<lambda>vs s. eval_items env is (rev vs @ st) s)"
  using assms
proof (induction es arbitrary: st s)
  case (Cons e es)
  then show ?case
    by (cases "meaning env e s"; cases "fst (meaning env e s)"; cases "meanings env es (snd (meaning env e s))";
        cases "fst (meanings env es (snd (meaning env e s)))") (simp_all add: computesD)
qed simp

lemma meanings_length: "meanings env es s = (Inr vs, s') \<Longrightarrow> length vs = length es"
proof (induction es arbitrary: s vs)
  case (Cons e es)
  then show ?case by (auto split: prod.splits sum.splits)
qed simp

lemma computes_binary:
  assumes "computes env l" and "computes env r" and "length (code r) < 2 ^ 32 - 1"
  shows "computes env (EBinary b l r)"
  unfolding computes_def
proof (intro allI)
  fix "is" st s
  obtain v s1 where l: "meaning env l s = (v, s1)" by (cases "meaning env l s")
  show "eval_items env (code (EBinary b l r) @ is) st s =
    continue_with (meaning env (EBinary b l r) s) (\<lambda>v s. eval_items env is (v # st) s)"
  proof (cases v)
    case (Inl e)
    with l show ?thesis by (simp add: computesD [OF assms(1)])
  next
    case (Inr v1)
    obtain w s2 where r: "meaning env r s1 = (w, s2)" by (cases "meaning env r s1")
    have u: "unat (word_of_nat (Suc (length (code r))) :: u32) = Suc (length (code r))"
      using assms(3) by (simp add: unat_of_nat take_bit_nat_eq_self del: of_nat_Suc)
    from l Inr r u show ?thesis
      by (cases b; cases w)
        (simp_all add: computesD [OF assms(1)] computesD [OF assms(2)] eval_items_plain eval_item_def jumps_def decides_def
          del: of_nat_Suc)
  qed
qed

lemma code_computes: "well_formed e \<Longrightarrow> length (code e) < 2 ^ 32 \<Longrightarrow> computes env e"
proof (induction e)
  case (EUnary u e)
  then have e: "computes env e" by simp
  show ?case unfolding computes_def
  proof (intro allI)
    fix "is" st s
    show "eval_items env (code (EUnary u e) @ is) st s =
        continue_with (meaning env (EUnary u e) s) (\<lambda>v s. eval_items env is (v # st) s)"
      by (cases "meaning env e s"; cases "fst (meaning env e s)") (simp_all add: computesD [OF e] eval_items_plain eval_item_def)
  qed
next
  case (EBinary b l r)
  then show ?case by (intro computes_binary) auto
next
  case (ECall name i n es)
  then have es: "list_all (computes env) es"
    by (auto simp: list_all_iff dest!: split_list)
  have n: "unat n = length es" using ECall.prems by simp
  show ?case unfolding computes_def
  proof (intro allI)
    fix "is" st s
    show "eval_items env (code (ECall name i n es) @ is) st s =
        continue_with (meaning env (ECall name i n es) s) (\<lambda>v s. eval_items env is (v # st) s)"
    proof -
      obtain r s1 where Pair: "meanings env es s = (r, s1)" by (cases "meanings env es s")
      show ?thesis
      proof (cases r)
        case (Inl e)
        with Pair show ?thesis by (simp add: computes_list [OF es])
      next
        case (Inr vs)
        with Pair meanings_length [of env es s vs s1] n show ?thesis
          by (cases "eval_function env i vs (snd s1)"; cases "fst (eval_function env i vs (snd s1))")
            (simp_all add: computes_list [OF es] eval_items_plain eval_item_def pop_args_rev)
      qed
    qed
  qed
next
  case (EArray es)
  then have es: "list_all (computes env) es" by (auto simp: list_all_iff dest!: split_list)
  have n: "unat (word_of_nat (length es) :: u32) = length es"
    using EArray.prems by (simp add: unat_of_nat take_bit_nat_eq_self)
  show ?case unfolding computes_def
  proof (intro allI)
    fix "is" st s
    show "eval_items env (code (EArray es) @ is) st s =
        continue_with (meaning env (EArray es) s) (\<lambda>v s. eval_items env is (v # st) s)"
    proof -
      obtain r s1 where "meanings env es s = (r, s1)" by (cases "meanings env es s")
      then show ?thesis using meanings_length [of env es s _ s1] n
        by (cases r) (simp_all add: computes_list [OF es] eval_items_plain eval_item_def pop_args_rev)
    qed
  qed
next
  case (EMatches r e)
  then have e: "computes env e" by simp
  show ?case unfolding computes_def
  proof (intro allI)
    fix "is" st s
    show "eval_items env (code (EMatches r e) @ is) st s =
        continue_with (meaning env (EMatches r e) s) (\<lambda>v s. eval_items env is (v # st) s)"
      by (cases "meaning env e s"; cases "fst (meaning env e s)")
        (simp_all add: computesD [OF e] eval_items_plain eval_item_def split: prod.split)
  qed
next
  case (EIndex a i)
  then have a: "computes env a" and i: "computes env i" by simp_all
  show ?case unfolding computes_def
  proof (intro allI)
    fix "is" st s
    obtain v s1 where v: "meaning env a s = (v, s1)" by (cases "meaning env a s")
    show "eval_items env (code (EIndex a i) @ is) st s =
        continue_with (meaning env (EIndex a i) s) (\<lambda>v s. eval_items env is (v # st) s)"
      using v by (cases v; cases "meaning env i s1"; cases "fst (meaning env i s1)")
        (simp_all add: computesD [OF a] computesD [OF i] eval_items_plain eval_item_def)
  qed
next
  case (ESetting k)
  show ?case unfolding computes_def
  proof (intro allI)
    fix "is" st s
    show "eval_items env (code (ESetting k) @ is) st s =
        continue_with (meaning env (ESetting k) s) (\<lambda>v s. eval_items env is (v # st) s)"
      by (cases "eval_setting env k (snd s)"; cases "fst (eval_setting env k (snd s))")
        (simp_all add: eval_items_plain eval_item_def)
  qed
qed (simp_all add: computes_def eval_items_plain eval_item_def)

lemma program_computes:
  assumes "well_formed e" and "length (code e) < 2 ^ 32"
  shows "eval_program env (code e) s = meaning env e s"
  using computesD [OF code_computes [OF assms], of env "[]" "[]" s]
  by (cases "meaning env e s"; cases "fst (meaning env e s)") (simp_all add: eval_program_def)

end
