(* ===== verification/Expr_Tokenizer.thy ===== *)
theory Expr_Tokenizer
  imports Expr_Eval
begin

text \<open>
  The tokenizer of expressions (\<open>crates/common/src/expr/tokenizer.rs\<close>) and the whole way from the
  text of a setting to its program. The characters are bytes. The constructor of the \<open>regex\<close>
  crate and the texts that \<open>{:?}\<close> prints in messages are parameters.
\<close>

section \<open>Names\<close>

definition FUNCTIONS :: "(string \<times> u32) list" where
  "FUNCTIONS =
    [(''count'', 1), (''sort'', 2), (''dedup'', 1), (''winnow'', 1), (''is_intersect'', 2), (''is_email'', 1),
     (''email_part'', 2), (''is_empty'', 1), (''is_number'', 1), (''is_ip_addr'', 1), (''is_ipv4_addr'', 1),
     (''is_ipv6_addr'', 1), (''ip_reverse_name'', 1), (''trim'', 1), (''trim_end'', 1), (''trim_start'', 1),
     (''len'', 1), (''to_lowercase'', 1), (''to_uppercase'', 1), (''is_uppercase'', 1), (''is_lowercase'', 1),
     (''has_digits'', 1), (''count_spaces'', 1), (''count_uppercase'', 1), (''count_lowercase'', 1),
     (''count_chars'', 1), (''contains'', 2), (''contains_ignore_case'', 2), (''eq_ignore_case'', 2),
     (''starts_with'', 2), (''ends_with'', 2), (''lines'', 1), (''substring'', 3), (''strip_prefix'', 2),
     (''strip_suffix'', 2), (''split'', 2), (''rsplit'', 2), (''split_once'', 2), (''rsplit_once'', 2),
     (''split_n'', 3), (''split_words'', 1), (''hash'', 2), (''if_then'', 3)]"

definition ASYNC_FUNCTIONS :: "(string \<times> u32 \<times> u32) list" where
  "ASYNC_FUNCTIONS =
    [(''is_local_domain'', 0, 2), (''is_local_address'', 1, 2), (''key_get'', 2, 2), (''key_exists'', 3, 2),
     (''key_set'', 4, 3), (''counter_incr'', 5, 3), (''counter_get'', 6, 2), (''dns_query'', 8, 2), (''sql_query'', 7, 3)]"

fun function_index :: "string \<Rightarrow> u32 \<Rightarrow> (string \<times> u32) list \<Rightarrow> (u32 \<times> u32) option" where
  "function_index s i [] = None"
| "function_index s i ((name, n) # fs) = (if name = s then Some (i, n) else function_index s (i + 1) fs)"

text \<open>\<open>Duration::parse_value\<close>, in milliseconds.\<close>

fun duration_unit :: "string \<Rightarrow> u64 option" where
  "duration_unit u =
    (if u = ''d'' then Some 86400000 else if u = ''h'' then Some 3600000 else if u = ''m'' then Some 60000
     else if u = ''s'' then Some 1000 else if u = ''ms'' \<or> u = [] then Some 1 else None)"

definition parse_duration :: "string \<Rightarrow> u64 option" where
  "parse_duration s =
    (case duration_unit (map to_ascii_lowercase (filter (\<lambda>c. \<not> is_ascii_digit c \<and> \<not> is_ascii_whitespace c) s)) of
       None \<Rightarrow> None
     | Some m \<Rightarrow>
        (case parse_uint u64_max (filter is_ascii_digit s) of
           Some n \<Rightarrow> if n > 0 then Some (word_of_nat n * m) else None
         | None \<Rightarrow> None))"

section \<open>State\<close>

record ('f, 'r) token_env =
  token_floats :: "'f floats"
  token_map :: "string \<Rightarrow> ('f, 'r) expr_token option"
  regex_new :: "string \<Rightarrow> string + 'r"
  debug_str :: "string \<Rightarrow> string"
  debug_char :: "char \<Rightarrow> string"

record ('f, 'r) tokenizer =
  chars_left :: string
  tok_buf :: string
  depth :: nat
  next_token :: "('f, 'r) expr_token list"
  has_number :: bool
  has_dot :: bool
  has_alpha :: bool
  is_start :: bool
  is_eof :: bool

definition tokenizer_new :: "string \<Rightarrow> ('f, 'r) tokenizer" where
  "tokenizer_new s = \<lparr>chars_left = s, tok_buf = [], depth = 0, next_token = [], has_number = False, has_dot = False,
     has_alpha = False, is_start = True, is_eof = False\<rparr>"

section \<open>Words\<close>

definition parse_global :: "string \<Rightarrow> ('f, 'r) expr_token" where
  "parse_global s =
    (if list_all is_ascii_digit s then
       (case parse_u32 s of Some n \<Rightarrow> TCapture (word_of_nat n) | None \<Rightarrow> TGlobal s)
     else TGlobal s)"

definition parse_name :: "('f, 'r) token_env \<Rightarrow> string \<Rightarrow> string + ('f, 'r) expr_token" where
  "parse_name env s =
    (if take 1 s = ''$'' \<and> tl s \<noteq> [] then Inr (parse_global (tl s))
     else case function_index s 0 FUNCTIONS of
       Some (i, n) \<Rightarrow> Inr (TFunction s i n)
     | None \<Rightarrow>
        (case map_of ASYNC_FUNCTIONS s of
           Some (i, n) \<Rightarrow> Inr (TFunction s (i + word_of_nat (length FUNCTIONS)) n)
         | None \<Rightarrow>
            (case token_map env s of
               Some t \<Rightarrow> Inr t
             | None \<Rightarrow>
                (case parse_duration s of
                   Some ms \<Rightarrow> Inr (TConstant (CInteger ms))
                 | None \<Rightarrow> Inl (''Invalid variable or constant '' @ debug_str env s)))))"

definition parse_word :: "('f, 'r) token_env \<Rightarrow> bool \<Rightarrow> bool \<Rightarrow> bool \<Rightarrow> string \<Rightarrow> string + ('f, 'r) expr_token" where
  "parse_word env number dot alpha s =
    (if number \<and> \<not> alpha then
       (if dot then
          (case f_parse (token_floats env) s of
             Some f \<Rightarrow> Inr (TConstant (CFloat f)) | None \<Rightarrow> Inl (''Invalid float value '' @ s))
        else
          (case parse_i64 s of
             Some i \<Rightarrow> Inr (TConstant (CInteger i)) | None \<Rightarrow> Inl (''Invalid integer value '' @ s)))
     else if \<not> number \<and> \<not> dot \<and> s = ''true'' then Inr (TConstant (CInteger 1))
     else if \<not> number \<and> \<not> dot \<and> s = ''false'' then Inr (TConstant (CInteger 0))
     else parse_name env s)"

definition parse_buf :: "('f, 'r) token_env \<Rightarrow> ('f, 'r) tokenizer \<Rightarrow> string + ('f, 'r) expr_token \<times> ('f, 'r) tokenizer" where
  "parse_buf env s =
    (let s' = s\<lparr>tok_buf := [], has_number := False, has_dot := False, has_alpha := False\<rparr> in
     map_sum id (\<lambda>t. (t, s')) (parse_word env (has_number s) (has_dot s) (has_alpha s) (tok_buf s)))"

section \<open>Strings\<close>

fun find_char :: "('f, 'r) token_env \<Rightarrow> string \<Rightarrow> string \<Rightarrow> string + char \<times> string" where
  "find_char env wanted [] = Inl ''Unexpected end of expression''"
| "find_char env wanted (ch # cs) =
    (if is_ascii_whitespace ch then find_char env wanted cs
     else if ch \<in> set wanted then Inr (ch, cs)
     else Inl (''Expected '' @ debug_char env (hd wanted) @ '', found invalid character '' @ debug_char env ch))"

fun scan_string :: "char \<Rightarrow> char \<Rightarrow> string \<Rightarrow> string \<Rightarrow> (string \<times> string) option" where
  "scan_string stop prev acc [] = None"
| "scan_string stop prev acc (ch # cs) =
    (if prev \<noteq> ch_backslash then
       (if ch \<noteq> stop then scan_string stop ch (acc @ [ch]) cs else Some (acc, cs))
     else
       scan_string stop ch
         (acc @ [if ch = CHR ''n'' then ch_lf else if ch = CHR ''r'' then ch_cr else if ch = CHR ''t'' then ch_tab else ch]) cs)"

definition parse_string :: "char \<Rightarrow> string \<Rightarrow> string + string \<times> string" where
  "parse_string stop cs =
    (case scan_string stop (CHR 0x00) [] cs of
       None \<Rightarrow> Inl ''Unterminated string''
     | Some (s, rest) \<Rightarrow> if utf8_valid s then Inr (s, rest) else Inl ''Invalid UTF-8'')"

section \<open>The next token\<close>

text \<open>The operator or bracket of a character, with what is left; a space is no token.\<close>

definition second :: "char \<Rightarrow> string \<Rightarrow> 'a \<Rightarrow> 'a \<Rightarrow> 'a \<times> string" where
  "second c cs two one = (case cs of d # ds \<Rightarrow> if d = c then (two, ds) else (one, cs) | [] \<Rightarrow> (one, cs))"

definition equals_token :: "string \<Rightarrow> binary_op \<times> string" where
  "equals_token cs =
    (case cs of
       [] \<Rightarrow> (BEq, [])
     | c # cs \<Rightarrow> (if c = CHR ''>'' then BGe else if c = CHR ''<'' then BLe else BEq, cs))"

datatype ('f, 'r) punct = Punct "('f, 'r) expr_token" string nat | Blank | Bad string

definition punct_token ::
  "('f, 'r) token_env \<Rightarrow> bool \<Rightarrow> nat \<Rightarrow> char \<Rightarrow> string \<Rightarrow> ('f, 'r) punct" where
  "punct_token env start d ch cs =
    (if ch = CHR ''&'' then Punct (TBinary BAnd) (snd (second CHR ''&'' cs () ())) d
     else if ch = CHR ''|'' then Punct (TBinary BOr) (snd (second CHR ''|'' cs () ())) d
     else if ch = CHR ''!'' then (case second CHR ''='' cs (TBinary BNe) (TUnary UNot) of (t, cs) \<Rightarrow> Punct t cs d)
     else if ch = CHR ''^'' then Punct (TBinary BXor) cs d
     else if ch = CHR ''('' then Punct TOpenParen cs (d + 1)
     else if ch = CHR '')'' then (if d = 0 then Bad ''Unmatched close parenthesis'' else Punct TCloseParen cs (d - 1))
     else if ch = CHR ''+'' then Punct (TBinary BAdd) cs d
     else if ch = CHR ''*'' then Punct (TBinary BMultiply) cs d
     else if ch = CHR ''/'' then Punct (TBinary BDivide) cs d
     else if ch = CHR ''-'' then Punct (if start then TUnary UMinus else TBinary BSubtract) cs d
     else if ch = CHR ''='' then (case equals_token cs of (b, cs) \<Rightarrow> Punct (TBinary b) cs d)
     else if ch = CHR ''>'' then (case second CHR ''='' cs BGe BGt of (b, cs) \<Rightarrow> Punct (TBinary b) cs d)
     else if ch = CHR ''<'' then (case second CHR ''='' cs BLe BLt of (b, cs) \<Rightarrow> Punct (TBinary b) cs d)
     else if ch = CHR '','' then Punct TComma cs d
     else if ch = CHR ''['' then Punct TOpenBracket cs d
     else if ch = CHR '']'' then Punct TCloseBracket cs d
     else if ch = ch_space \<or> ch = ch_cr \<or> ch = ch_lf then Blank
     else if ch = ch_quote \<or> ch = CHR 0x27 then
       (case parse_string ch cs of Inl e \<Rightarrow> Bad e | Inr (s, cs) \<Rightarrow> Punct (TConstant (CString s)) cs d)
     else Bad (''Invalid character '' @ debug_char env ch))"

definition starts_operand :: "('f, 'r) expr_token \<Rightarrow> bool" where
  "starts_operand t \<longleftrightarrow> (case t of TOpenParen \<Rightarrow> True | TComma \<Rightarrow> True | TBinary _ \<Rightarrow> True | _ \<Rightarrow> False)"

text \<open>What ends a word: the token before the character, the character and what is left.\<close>

definition end_word ::
  "('f, 'r) token_env \<Rightarrow> char \<Rightarrow> string \<Rightarrow> ('f, 'r) tokenizer
    \<Rightarrow> string + ('f, 'r) expr_token option \<times> char \<times> string \<times> ('f, 'r) tokenizer" where
  "end_word env ch cs s =
    (if ch = CHR ''('' \<and> tok_buf s = ''matches'' then
       (case find_char env [ch_quote, CHR 0x27] cs of
          Inl e \<Rightarrow> Inl e
        | Inr (stop, cs) \<Rightarrow>
           (case parse_string stop cs of
              Inl e \<Rightarrow> Inl e
            | Inr (re, cs) \<Rightarrow>
               (case regex_new env re of
                  Inl e \<Rightarrow> Inl (''Invalid regular expression '' @ debug_str env re @ '': '' @ e)
                | Inr r \<Rightarrow>
                   (case find_char env '','' cs of
                      Inl e \<Rightarrow> Inl e
                    | Inr (_, cs) \<Rightarrow> Inr (Some (TRegex r), CHR ''('', cs, s\<lparr>tok_buf := [], has_alpha := False\<rparr>)))))
     else if ch = CHR ''('' \<and> tok_buf s = ''config_get'' then
       (case find_char env [ch_quote, CHR 0x27] cs of
          Inl e \<Rightarrow> Inl e
        | Inr (stop, cs) \<Rightarrow>
           (case parse_string stop cs of
              Inl e \<Rightarrow> Inl e
            | Inr (k, cs) \<Rightarrow> Inr (Some (TSetting (setting_of k)), CHR ''('', cs, s\<lparr>tok_buf := [], has_alpha := False\<rparr>)))
     else if tok_buf s \<noteq> [] then
       (case parse_buf env (s\<lparr>is_start := False\<rparr>) of Inl e \<Rightarrow> Inl e | Inr (t, s) \<Rightarrow> Inr (Some t, ch, cs, s))
     else Inr (None, ch, cs, s))"

definition word_char :: "string \<Rightarrow> char \<Rightarrow> bool" where
  "word_char buf ch \<longleftrightarrow>
    is_ascii_uppercase ch \<or> is_ascii_lowercase ch \<or> ch = CHR ''_'' \<or> ch = CHR ''$'' \<or> is_ascii_digit ch \<or> ch = CHR ''.''
    \<or> ch \<noteq> CHR 0x7D \<and>
      (ch = CHR ''-'' \<and> buf \<noteq> [] \<and> last buf = CHR ''['' \<or> ch = CHR '':'' \<and> CHR ''.'' \<in> set buf
       \<or> ch = CHR '']'' \<and> CHR ''['' \<in> set buf \<or> ch = CHR ''*'' \<and> buf \<noteq> [] \<and> (last buf = CHR ''['' \<or> last buf = CHR ''.''))"

definition push_char :: "char \<Rightarrow> ('f, 'r) tokenizer \<Rightarrow> ('f, 'r) tokenizer" where
  "push_char ch s =
    s\<lparr>tok_buf := tok_buf s @ [ch],
      has_alpha := has_alpha s \<or> is_ascii_uppercase ch \<or> is_ascii_lowercase ch \<or> ch = CHR ''_'' \<or> ch = CHR ''$'',
      has_number := has_number s \<or> is_ascii_digit ch, has_dot := has_dot s \<or> ch = CHR ''.''\<rparr>"

definition end_of_input ::
  "('f, 'r) token_env \<Rightarrow> ('f, 'r) tokenizer \<Rightarrow> string + ('f, 'r) expr_token option \<times> ('f, 'r) tokenizer" where
  "end_of_input env s =
    (if depth s > 0 then Inl ''Unmatched open parenthesis''
     else if tok_buf s \<noteq> [] then map_sum id (\<lambda>(t, s). (Some t, s)) (parse_buf env s)
     else Inr (None, s))"

text \<open>The loop over the characters, which are taken out of the state for it.\<close>

fun read_token ::
  "('f, 'r) token_env \<Rightarrow> string \<Rightarrow> ('f, 'r) tokenizer \<Rightarrow> string + ('f, 'r) expr_token option \<times> ('f, 'r) tokenizer" where
  "read_token env [] s = end_of_input env (s\<lparr>chars_left := []\<rparr>)"
| "read_token env (ch # cs) s =
    (if word_char (tok_buf s) ch then read_token env cs (push_char ch s)
     else if ch = CHR 0x7D then end_of_input env (s\<lparr>chars_left := cs, is_eof := True\<rparr>)
     else
       (case end_word env ch cs s of
          Inl e \<Rightarrow> Inl e
        | Inr (prev, ch', cs', s') \<Rightarrow>
           (case punct_token env (is_start s') (depth s') ch' cs' of
              Bad e \<Rightarrow> Inl e
            | Blank \<Rightarrow>
               (case prev of Some t \<Rightarrow> Inr (Some t, s'\<lparr>chars_left := cs'\<rparr>) | None \<Rightarrow> read_token env cs s')
            | Punct t rest d \<Rightarrow>
               (let s'' = s'\<lparr>chars_left := rest, depth := d, is_start := starts_operand t\<rparr> in
                case prev of
                  Some p \<Rightarrow> Inr (Some p, s''\<lparr>next_token := t # next_token s''\<rparr>)
                | None \<Rightarrow> Inr (Some t, s'')))))"

definition next_expr_token ::
  "('f, 'r) token_env \<Rightarrow> ('f, 'r) tokenizer \<Rightarrow> string + ('f, 'r) expr_token option \<times> ('f, 'r) tokenizer" where
  "next_expr_token env s =
    (case next_token s of
       t # ts \<Rightarrow> Inr (Some t, s\<lparr>next_token := ts\<rparr>)
     | [] \<Rightarrow> if is_eof s then Inr (None, s) else read_token env (chars_left s) (s\<lparr>chars_left := []\<rparr>))"

section \<open>All tokens\<close>

definition tokenizer_size :: "('f, 'r) tokenizer \<Rightarrow> nat" where
  "tokenizer_size s = 2 * length (chars_left s) + length (next_token s) + (if tok_buf s = [] then 0 else 1)"

lemma find_char_shorter: "find_char env w cs = Inr (c, rest) \<Longrightarrow> length rest < length cs"
  by (induction env w cs rule: find_char.induct) (auto split: if_splits)

lemma scan_string_shorter: "scan_string stop prev acc cs = Some (b, rest) \<Longrightarrow> length rest < length cs"
  by (induction stop prev acc cs rule: scan_string.induct) (auto split: if_splits)

lemma parse_string_shorter: "parse_string stop cs = Inr (b, rest) \<Longrightarrow> length rest < length cs"
  using scan_string_shorter by (auto simp: parse_string_def split: option.splits if_splits)

lemma second_shorter: "length (snd (second c cs a b)) \<le> length cs"
  by (simp add: second_def split: list.split)

lemma equals_token_shorter: "length (snd (equals_token cs)) \<le> length cs"
  by (simp add: equals_token_def split: list.split)

fun leaves_at_most :: "nat \<Rightarrow> ('f, 'r) punct \<Rightarrow> bool" where
  "leaves_at_most n (Punct _ rest _) = (length rest \<le> n)"
| "leaves_at_most n _ = True"

lemma leaves_if: "leaves_at_most n x \<Longrightarrow> leaves_at_most n y \<Longrightarrow> leaves_at_most n (if b then x else y)"
  by simp

lemma punct_token_leaves: "leaves_at_most (length cs) (punct_token env st d ch cs)"
  unfolding punct_token_def split_def
  by (intro leaves_if)
    (auto simp: second_shorter equals_token_shorter split: sum.split dest!: parse_string_shorter)

lemma punct_token_shorter: "punct_token env st d ch cs = Punct t rest d' \<Longrightarrow> length rest \<le> length cs"
  using punct_token_leaves [of cs env st d ch] by simp

lemma parse_buf_size: "parse_buf env s = Inr (t, s') \<Longrightarrow> tok_buf s' = [] \<and> next_token s' = next_token s \<and> chars_left s' = chars_left s"
  by (auto simp: parse_buf_def Let_def split: sum.splits) (cases "parse_word env (has_number s) (has_dot s) (has_alpha s) (tok_buf s)"; auto)+

lemma end_word_size:
  assumes "end_word env ch cs s = Inr (prev, ch', cs', s')"
  shows "tok_buf s' = [] \<and> next_token s' = next_token s \<and> length cs' \<le> length cs"
  using assms unfolding end_word_def
  by (auto split: if_splits sum.splits dest!: find_char_shorter parse_string_shorter parse_buf_size)

lemma end_of_input_size:
  assumes "end_of_input env s = Inr (Some t, s')" and "next_token s = []"
  shows "tokenizer_size s' < tokenizer_size s"
proof -
  from assms(1) have "parse_buf env s = Inr (t, s')" and "tok_buf s \<noteq> []"
    by (cases "parse_buf env s"; auto simp: end_of_input_def split: if_splits)+
  with parse_buf_size [of env s t s'] assms(2) show ?thesis by (simp add: tokenizer_size_def)
qed

lemma read_token_size:
  assumes "read_token env cs s = Inr (Some t, s')" and "next_token s = []"
  shows "tokenizer_size s' < 2 * length cs + (if tok_buf s = [] then 0 else 1)"
  using assms
proof (induction env cs s rule: read_token.induct)
  case (1 env s)
  with end_of_input_size [of env "s\<lparr>chars_left := []\<rparr>" t s'] show ?case by (simp add: tokenizer_size_def)
next
  case (2 env ch cs s)
  show ?case
  proof (cases "word_char (tok_buf s) ch")
    case True
    with "2.IH"(1) "2.prems" show ?thesis by (simp add: push_char_def)
  next
    case word: False
    show ?thesis
    proof (cases "ch = CHR 0x7D")
      case True
      with word "2.prems" end_of_input_size [of env "s\<lparr>chars_left := cs, is_eof := True\<rparr>" t s'] show ?thesis
        by (simp add: tokenizer_size_def)
    next
      case False
      with word "2.prems"(1) obtain prev ch' cs' s1 where e: "end_word env ch cs s = Inr (prev, ch', cs', s1)"
        by (auto split: sum.splits)
      note size = end_word_size [OF e]
      show ?thesis
      proof (cases "punct_token env (is_start s1) (depth s1) ch' cs'")
        case (Punct p rest d)
        with punct_token_shorter [OF Punct] word False e size "2.prems" show ?thesis
          by (auto simp: tokenizer_size_def Let_def split: option.splits)
      next
        case Blank
        show ?thesis
        proof (cases prev)
          case None
          with word False e Blank "2.prems"(1) have "read_token env cs s1 = Inr (Some t, s')" by simp
          with "2.IH"(2) [OF word False e refl refl refl Blank None] size "2.prems"(2) show ?thesis by simp
        next
          case (Some p)
          with word False e Blank size "2.prems" show ?thesis by (auto simp: tokenizer_size_def)
        qed
      next
        case (Bad x)
        with word False e "2.prems"(1) show ?thesis by simp
      qed
    qed
  qed
qed

lemma next_expr_token_size: "next_expr_token env s = Inr (Some t, s') \<Longrightarrow> tokenizer_size s' < tokenizer_size s"
  using read_token_size [of env "chars_left s" "s\<lparr>chars_left := []\<rparr>" t s']
  by (auto simp: next_expr_token_def tokenizer_size_def split: list.splits if_splits)

text \<open>The tokens up to the end or the first error.\<close>

function all_tokens :: "('f, 'r) token_env \<Rightarrow> ('f, 'r) tokenizer \<Rightarrow> ('f, 'r) expr_token list \<times> string option" where
  "all_tokens env s =
    (case next_expr_token env s of
       Inl e \<Rightarrow> ([], Some e)
     | Inr (None, _) \<Rightarrow> ([], None)
     | Inr (Some t, s) \<Rightarrow> (case all_tokens env s of (ts, e) \<Rightarrow> (t # ts, e)))"
  by pat_completeness auto
termination by (relation "measure (\<lambda>(_, s). tokenizer_size s)") (auto dest: next_expr_token_size)

declare all_tokens.simps [simp del]

text \<open>\<open>ExpressionParser::parse\<close>, which asks for one token after the other.\<close>

definition parse_expression :: "('f, 'r) token_env \<Rightarrow> string \<Rightarrow> (string + ('f, 'r) expr_item list) option" where
  "parse_expression env text =
    (case all_tokens env (tokenizer_new text) of (ts, err) \<Rightarrow>
       case parser_steps False ts parser_new of
         None \<Rightarrow> None
       | Some (Inl e) \<Rightarrow> Some (Inl e)
       | Some (Inr (_, p)) \<Rightarrow>
           (case err of Some e \<Rightarrow> Some (Inl e) | None \<Rightarrow> pop_all (operator_stack p) (expr_output p)))"

lemma parse_expression_tokens: "all_tokens env (tokenizer_new text) = (ts, None) \<Longrightarrow> parse_expression env text = parse_tokens ts"
  by (simp add: parse_expression_def parse_tokens_def split: option.split sum.split)

end
