(* ===== verification/Expr_Properties.thy ===== *)
theory Expr_Properties
  imports Expr_Compiler Expr_Tokenizer
begin

text \<open>
  What holds for every setting: the parser handles all texts, the tokenizer reads back what was
  written, programs are well typed, and a setting means what it says. The last section runs the
  model on small settings, where some do not.
\<close>

section \<open>Every token list is handled\<close>

definition is_call :: "('f, 'r) expr_token \<Rightarrow> bool" where
  "is_call t \<longleftrightarrow> (case t of TFunction _ _ _ \<Rightarrow> True | TRegex _ \<Rightarrow> True | TSetting _ \<Rightarrow> True | _ \<Rightarrow> False)"

lemma is_call_simps [simp]:
  "is_call (TFunction n i k)" "is_call (TRegex r)" "is_call (TSetting s)" "\<not> is_call TOpenParen" "\<not> is_call TOpenBracket"
  "\<not> is_call (TBinary b)" "\<not> is_call (TUnary u)"
  by (simp_all add: is_call_def)

text \<open>No jump of a program leaves it, and the jumps that are still open are in the output.\<close>

definition jumps_inside :: "('f, 'r) expr_item list \<Rightarrow> bool" where
  "jumps_inside is \<longleftrightarrow> (\<forall>i < length is. case is ! i of IJmpIf _ pos \<Rightarrow> i + unat pos < length is | _ \<Rightarrow> True)"

definition open_jumps :: "('f, 'r) op_stack \<Rightarrow> nat \<Rightarrow> bool" where
  "open_jumps ops n \<longleftrightarrow> list_all (\<lambda>(_, j). case j of Some i \<Rightarrow> i < n | None \<Rightarrow> True) ops"

lemma open_jumps_simps [simp]: "open_jumps [] n"
  "open_jumps ((t, j) # ops) n \<longleftrightarrow> (case j of Some i \<Rightarrow> i < n | None \<Rightarrow> True) \<and> open_jumps ops n"
  by (simp_all add: open_jumps_def)

lemma open_jumps_mono: "open_jumps ops n \<Longrightarrow> n \<le> m \<Longrightarrow> open_jumps ops m"
  by (auto simp: open_jumps_def list_all_iff split: option.splits)

lemma jumps_inside_push:
  assumes "jumps_inside out" and "\<not> is_jump i \<or> (\<exists>v. i = IJmpIf v 0)"
  shows "jumps_inside (out @ [i])"
  unfolding jumps_inside_def
proof (intro allI impI)
  fix k
  assume "k < length (out @ [i])"
  then consider "k < length out" | "k = length out" by fastforce
  then show "case (out @ [i]) ! k of IJmpIf _ pos \<Rightarrow> k + unat pos < length (out @ [i]) | _ \<Rightarrow> True"
  proof cases
    case 1
    with assms(1) show ?thesis by (auto simp: jumps_inside_def nth_append split: expr_item.splits)
  next
    case 2
    with assms(2) show ?thesis by (cases i) auto
  qed
qed

lemma output_binary_total:
  assumes "jumps_inside out" and "case j of Some i \<Rightarrow> i < length out | None \<Rightarrow> True"
  shows "\<exists>out'. output_binary b j out = Some out' \<and> jumps_inside out' \<and> length out' = Suc (length out)"
proof (cases j)
  case None
  with jumps_inside_push [OF assms(1), of "IBinary b"] show ?thesis by (simp add: output_binary_def update_jmp_pos_def)
next
  case (Some i)
  then have i: "i < length out" using assms(2) by simp
  have le: "unat (word_of_nat (length out - i) :: u32) \<le> length out - i"
    by (simp add: unat_of_nat take_bit_nat_less_eq_self)
  obtain out' where o: "update_jmp_pos j out = Some out'" "length out' = length out"
    "\<forall>k < length out. out' ! k = out ! k \<or> k = i \<and> (\<exists>v. out' ! k = IJmpIf v (word_of_nat (length out - i)))"
    using Some i by (cases "out ! i") (auto simp: update_jmp_pos_def nth_list_update)
  have "jumps_inside (out' @ [IBinary b])"
    unfolding jumps_inside_def
  proof (intro allI impI)
    fix k
    assume "k < length (out' @ [IBinary b])"
    then consider "k < length out" | "k = length out" using o(2) by fastforce
    then show "case (out' @ [IBinary b]) ! k of IJmpIf _ pos \<Rightarrow> k + unat pos < length (out' @ [IBinary b]) | _ \<Rightarrow> True"
    proof cases
      case 1
      with o(3) consider "out' ! k = out ! k" | "k = i" "\<exists>v. out' ! k = IJmpIf v (word_of_nat (length out - i))" by blast
      then show ?thesis
      proof cases
        case 1
        with \<open>k < length out\<close> o(2) assms(1) show ?thesis by (auto simp: jumps_inside_def nth_append split: expr_item.splits)
      next
        case 2
        with le i o(2) show ?thesis by (auto simp: nth_append)
      qed
    qed (simp add: nth_append o(2))
  qed
  with o show ?thesis by (simp add: output_binary_def)
qed

text \<open>The brackets on the stack.\<close>

definition brackets :: "('f, 'r) op_stack \<Rightarrow> ('f, 'r) expr_token list" where
  "brackets ops = filter (\<lambda>t. t = TOpenParen \<or> t = TOpenBracket) (map fst ops)"

definition calls :: "('f, 'r) op_stack \<Rightarrow> nat" where
  "calls ops = length (filter is_call (map fst ops))"

lemma brackets_simps [simp]: "brackets [] = []"
  "brackets ((t, j) # ops) = (if t = TOpenParen \<or> t = TOpenBracket then t # brackets ops else brackets ops)"
  by (simp_all add: brackets_def)

lemma calls_simps [simp]: "calls [] = 0" "calls ((t, j) # ops) = (if is_call t then Suc (calls ops) else calls ops)"
  by (simp_all add: calls_def)

lemma count_item_same [simp]: "brackets (count_item ops) = brackets ops" "calls (count_item ops) = calls ops"
  "open_jumps (count_item ops) n = open_jumps ops n"
  by (induction ops rule: count_item.induct) auto

lemma close_until_total:
  assumes "jumps_inside out" and "open_jumps ops (length out)" and "expect = TOpenParen \<or> expect = TOpenBracket"
  shows "(\<exists>e. close_until expect ops out = Some (Inl e)) \<or>
    (\<exists>ops' out'. close_until expect ops out = Some (Inr (ops', out')) \<and> jumps_inside out' \<and> open_jumps ops' (length out')
      \<and> calls ops' = calls ops \<and> brackets ops = expect # brackets ops')"
  using assms
proof (induction expect ops out rule: close_until.induct)
  case (2 expect t j ops out)
  show ?case
  proof (cases "t = expect")
    case False
    note ne = this
    show ?thesis
    proof (cases t)
      case (TBinary b)
      obtain out' where o: "output_binary b j out = Some out'" "jumps_inside out'" "length out' = Suc (length out)"
        using output_binary_total [of out j b] "2.prems" by auto
      have "open_jumps ops (length out')" using "2.prems"(2) o(3) by (auto elim: open_jumps_mono)
      with "2.IH"(1) [OF False TBinary o(1) o(2)] TBinary o(1) "2.prems"(3) show ?thesis by auto
    next
      case (TUnary u)
      have "jumps_inside (out @ [IUnary u])" "open_jumps ops (length (out @ [IUnary u]))"
        using "2.prems"(1,2) by (auto intro: jumps_inside_push elim: open_jumps_mono)
      with "2.IH"(2) [OF False TUnary this] TUnary "2.prems"(3) show ?thesis by auto
    qed (use False in auto)
  qed (use "2.prems" in auto)
qed auto

lemma pop_stronger_total:
  assumes "jumps_inside out" and "open_jumps ops (length out)"
  shows "\<exists>ops' out'. pop_stronger b ops out = Some (ops', out') \<and> jumps_inside out' \<and> open_jumps ops' (length out')
    \<and> calls ops' = calls ops \<and> brackets ops' = brackets ops"
  using assms
proof (induction b ops out rule: pop_stronger.induct)
  case (2 b t j ops out)
  show ?case
  proof (cases t)
    case (TBinary tb)
    obtain out' where o: "output_binary tb j out = Some out'" "jumps_inside out'" "length out' = Suc (length out)"
      using output_binary_total [of out j tb] "2.prems" by auto
    have "open_jumps ops (length out')" using "2.prems"(2) o(3) by (auto elim: open_jumps_mono)
    with "2.IH"(1) [OF TBinary _ o(1) o(2)] TBinary o(1) "2.prems" show ?thesis by auto
  next
    case (TUnary u)
    have "jumps_inside (out @ [IUnary u])" "open_jumps ops (length (out @ [IUnary u]))"
      using "2.prems" by (auto intro: jumps_inside_push elim: open_jumps_mono)
    from "2.IH"(2) [OF TUnary this] TUnary show ?thesis by auto
  qed (use "2.prems" in auto)
qed auto

lemma pop_argument_total:
  assumes "jumps_inside out" and "open_jumps ops (length out)"
  shows "\<exists>ops' out'. pop_argument ops out = Some (ops', out') \<and> jumps_inside out' \<and> open_jumps ops' (length out')
    \<and> calls ops' = calls ops \<and> brackets ops' = brackets ops"
  using assms
proof (induction ops out rule: pop_argument.induct)
  case (2 t j ops out)
  show ?case
  proof (cases t)
    case (TBinary b)
    obtain out' where o: "output_binary b j out = Some out'" "jumps_inside out'" "length out' = Suc (length out)"
      using output_binary_total [of out j b] "2.prems" by auto
    have "open_jumps ops (length out')" using "2.prems"(2) o(3) by (auto elim: open_jumps_mono)
    with "2.IH"(1) [OF TBinary o(1) o(2)] TBinary o(1) show ?thesis by auto
  next
    case (TUnary u)
    have "jumps_inside (out @ [IUnary u])" "open_jumps ops (length (out @ [IUnary u]))"
      using "2.prems" by (auto intro: jumps_inside_push elim: open_jumps_mono)
    from "2.IH"(2) [OF TUnary this] TUnary show ?thesis by auto
  qed (use "2.prems" in auto)
qed auto

lemma pop_all_total:
  assumes "jumps_inside out" and "open_jumps ops (length out)"
  shows "(\<exists>e. pop_all ops out = Some (Inl e)) \<or>
    (\<exists>out'. pop_all ops out = Some (Inr out') \<and> jumps_inside out' \<and> brackets ops = [])"
  using assms
proof (induction ops out rule: pop_all.induct)
  case (2 t j ops out)
  show ?case
  proof (cases t)
    case (TBinary b)
    obtain out' where o: "output_binary b j out = Some out'" "jumps_inside out'" "length out' = Suc (length out)"
      using output_binary_total [of out j b] "2.prems" by auto
    have "open_jumps ops (length out')" using "2.prems"(2) o(3) by (auto elim: open_jumps_mono)
    with "2.IH"(1) [OF TBinary o(1) o(2)] TBinary o(1) show ?thesis by auto
  next
    case (TUnary u)
    have "jumps_inside (out @ [IUnary u])" "open_jumps ops (length (out @ [IUnary u]))"
      using "2.prems" by (auto intro: jumps_inside_push elim: open_jumps_mono)
    from "2.IH"(2) [OF TUnary this] TUnary show ?thesis by auto
  qed (use "2.prems" in auto)
qed auto

definition parser_ok :: "('f, 'r) expr_parser \<Rightarrow> bool" where
  "parser_ok p \<longleftrightarrow> jumps_inside (expr_output p) \<and> open_jumps (operator_stack p) (length (expr_output p))
    \<and> length (arg_count p) = calls (operator_stack p)"

abbreviation parser_brackets :: "('f, 'r) expr_parser \<Rightarrow> ('f, 'r) expr_token list" where
  "parser_brackets p \<equiv> brackets (operator_stack p)"

lemma parser_ok_new: "parser_ok parser_new"
  by (simp add: parser_ok_def parser_new_def jumps_inside_def)

lemma parser_ok_inc [simp]: "parser_ok (inc_arg_count p) = parser_ok p" "parser_brackets (inc_arg_count p) = parser_brackets p"
  by (auto simp: parser_ok_def inc_arg_count_def split: list.split)

lemma parser_ok_dec [simp]: "parser_ok (dec_arg_count p) = parser_ok p" "parser_brackets (dec_arg_count p) = parser_brackets p"
  by (auto simp: parser_ok_def dec_arg_count_def split: list.split)

lemma parser_ok_output: "parser_ok p \<Longrightarrow> \<not> is_jump i \<or> (\<exists>v. i = IJmpIf v 0) \<Longrightarrow> parser_ok (push_output i p)"
  by (auto simp: parser_ok_def push_output_def intro: jumps_inside_push elim: open_jumps_mono)

lemma push_output_brackets [simp]: "parser_brackets (push_output i p) = parser_brackets p"
  by (simp add: push_output_def)

lemma parser_ok_operator:
  "parser_ok p \<Longrightarrow> \<not> is_call t \<Longrightarrow> parser_ok (push_operator t None p)"
  "parser_ok p \<Longrightarrow> is_call t \<Longrightarrow> parser_ok (push_operator t None (p\<lparr>arg_count := 0 # arg_count p\<rparr>))"
  by (auto simp: parser_ok_def push_operator_def)

lemma push_operator_brackets [simp]:
  "parser_brackets (push_operator t j p) = (if t = TOpenParen \<or> t = TOpenBracket then t # parser_brackets p else parser_brackets p)"
  "parser_brackets (p\<lparr>arg_count := a\<rparr>) = parser_brackets p"
  by (simp_all add: push_operator_def)

lemma finish_call_total:
  assumes "parser_ok p"
  shows "(\<exists>e. finish_call p = Some (Inl e)) \<or>
    (\<exists>p'. finish_call p = Some (Inr p') \<and> parser_ok p' \<and> parser_brackets p' = parser_brackets p)"
proof (cases "operator_stack p")
  case (Cons x ops)
  obtain t j where x: "x = (t, j)" by (cases x)
  show ?thesis
  proof (cases "is_call t")
    case False
    with assms Cons x show ?thesis by (cases t) (simp_all add: finish_call_def is_call_def)
  next
    case True
    with assms Cons x obtain got args where a: "arg_count p = got # args" "length args = calls ops"
      by (cases "arg_count p") (auto simp: parser_ok_def)
    let ?p = "p\<lparr>operator_stack := ops, arg_count := args\<rparr>"
    have "parser_ok ?p" using assms a(2) Cons x by (simp add: parser_ok_def)
    then have "parser_ok (push_output i ?p)" if "\<not> is_jump i" for i using that by (blast intro: parser_ok_output)
    moreover have "\<not> is_jump (call_item i n)" for i n by (simp add: call_item_def)
    ultimately show ?thesis using True Cons x a(1) by (cases t) (auto simp: finish_call_def is_call_def)
  qed
qed (use assms in \<open>simp add: finish_call_def\<close>)

lemma close_group_total:
  assumes "parser_ok p" and "t = TCloseParen \<or> t = TCloseBracket"
  shows "(\<exists>e. close_group t p = Some (Inl e)) \<or>
    (\<exists>p'. close_group t p = Some (Inr p') \<and> parser_ok p'
      \<and> parser_brackets p = (if t = TCloseParen then TOpenParen else TOpenBracket) # parser_brackets p')"
proof -
  let ?x = "if t = TCloseParen then TOpenParen else TOpenBracket"
  consider e where "close_until ?x (operator_stack p) (expr_output p) = Some (Inl e)"
    | ops' out' where "close_until ?x (operator_stack p) (expr_output p) = Some (Inr (ops', out'))" "jumps_inside out'"
      "open_jumps ops' (length out')" "calls ops' = calls (operator_stack p)" "parser_brackets p = ?x # brackets ops'"
    using close_until_total [of "expr_output p" "operator_stack p" ?x] assms by (auto simp: parser_ok_def split: if_splits)
  then show ?thesis
  proof cases
    case 1
    then show ?thesis by (simp add: close_group_def)
  next
    case 2
    then have "parser_ok (p\<lparr>operator_stack := ops', expr_output := out'\<rparr>)" using assms(1) by (simp add: parser_ok_def)
    from finish_call_total [OF this] 2 show ?thesis by (auto simp: close_group_def)
  qed
qed

lemma push_binary_total:
  assumes "parser_ok p"
  shows "\<exists>p'. push_binary b p = Some (Inr p') \<and> parser_ok p' \<and> parser_brackets p' = parser_brackets p"
proof -
  let ?p = "dec_arg_count p"
  have p: "parser_ok ?p" using assms by simp
  then obtain ops' out' where s: "pop_stronger b (operator_stack ?p) (expr_output ?p) = Some (ops', out')" "jumps_inside out'"
    "open_jumps ops' (length out')" "calls ops' = calls (operator_stack ?p)" "brackets ops' = parser_brackets ?p"
    using pop_stronger_total [of "expr_output ?p" "operator_stack ?p" b] by (auto simp: parser_ok_def)
  have "open_jumps ops' (Suc (length out'))" using s(3) by (rule open_jumps_mono) simp
  moreover have "jumps_inside (out' @ [IJmpIf v 0])" for v using s(2) by (rule jumps_inside_push) simp
  ultimately show ?thesis using s p
    by (cases b) (auto simp: push_binary_def parser_ok_def push_operator_def push_output_def Let_def)
qed

text \<open>The brackets of a token list, where each closing one has its opening one.\<close>

fun balanced :: "('f, 'r) expr_token list \<Rightarrow> ('f, 'r) expr_token list \<Rightarrow> bool" where
  "balanced st [] = (st = [])"
| "balanced st (t # ts) =
    (case t of
       TOpenParen \<Rightarrow> balanced (TOpenParen # st) ts
     | TOpenBracket \<Rightarrow> balanced (TOpenBracket # st) ts
     | TCloseParen \<Rightarrow> (case st of TOpenParen # st \<Rightarrow> balanced st ts | _ \<Rightarrow> False)
     | TCloseBracket \<Rightarrow> (case st of TOpenBracket # st \<Rightarrow> balanced st ts | _ \<Rightarrow> False)
     | _ \<Rightarrow> balanced st ts)"

lemma parser_step_total:
  assumes "parser_ok p"
  shows "(\<exists>e. parser_step l t p = Some (Inl e)) \<or>
    (\<exists>b p'. parser_step l t p = Some (Inr (b, p')) \<and> parser_ok p'
      \<and> (balanced (parser_brackets p') ts \<longrightarrow> balanced (parser_brackets p) (t # ts)))"
proof (cases t)
  case TCloseParen
  with close_group_total [OF assms, of t] show ?thesis by (auto simp: parser_step_def)
next
  case TCloseBracket
  with close_group_total [OF assms, of t] show ?thesis by (auto simp: parser_step_def)
next
  case (TBinary b)
  with push_binary_total [OF assms, of b] show ?thesis by (auto simp: parser_step_def)
next
  case TComma
  with pop_argument_total [of "expr_output p" "operator_stack p"] assms show ?thesis
    by (auto simp: parser_step_def parser_ok_def)
next
  case TOpenBracket
  have "parser_ok (if l then p else inc_arg_count p)" using assms by simp
  with TOpenBracket show ?thesis
    by (auto simp: parser_step_def open_bracket_def push_operator_def parser_ok_def split: if_splits)
qed (use assms parser_ok_inc(1) [of p] in
    \<open>auto simp: parser_step_def Let_def intro!: parser_ok_output parser_ok_operator\<close>)

lemma parser_steps_total:
  assumes "parser_ok p"
  shows "(\<exists>e. parser_steps l ts p = Some (Inl e)) \<or>
    (\<exists>b p'. parser_steps l ts p = Some (Inr (b, p')) \<and> parser_ok p'
      \<and> (parser_brackets p' = [] \<longrightarrow> balanced (parser_brackets p) ts))"
  using assms
proof (induction ts arbitrary: l p)
  case (Cons t ts)
  from parser_step_total [OF Cons.prems, of l t ts] show ?case
  proof
    assume "\<exists>b p'. parser_step l t p = Some (Inr (b, p')) \<and> parser_ok p'
      \<and> (balanced (parser_brackets p') ts \<longrightarrow> balanced (parser_brackets p) (t # ts))"
    then obtain b p' where s: "parser_step l t p = Some (Inr (b, p'))" "parser_ok p'"
      "balanced (parser_brackets p') ts \<longrightarrow> balanced (parser_brackets p) (t # ts)" by blast
    from Cons.IH [OF s(2), of b] s show ?thesis by (auto simp del: balanced.simps(2))
  qed auto
qed auto

lemma parse_tokens_total:
  "\<exists>r. parse_tokens ts = Some r
    \<and> (case r of Inl e \<Rightarrow> True | Inr is \<Rightarrow> balanced [] ts \<and> jumps_inside is)"
proof -
  from parser_steps_total [OF parser_ok_new, of False ts] show ?thesis
  proof
    assume "\<exists>b p'. parser_steps False ts parser_new = Some (Inr (b, p')) \<and> parser_ok p'
      \<and> (parser_brackets p' = [] \<longrightarrow> balanced (parser_brackets (parser_new :: ('a, 'b) expr_parser)) ts)"
    then obtain b p' where s: "parser_steps False ts parser_new = Some (Inr (b, p'))" "parser_ok p'"
      "parser_brackets p' = [] \<longrightarrow> balanced [] ts" by (auto simp: parser_new_def)
    from pop_all_total [of "expr_output p'" "operator_stack p'"] s show ?thesis
      by (auto simp: parse_tokens_def parser_ok_def)
  qed (auto simp: parse_tokens_def)
qed

section \<open>Reading back what was written\<close>

text \<open>The pieces that an expression is written with: a word, an operator or bracket, a string, and
  the beginnings of \<open>matches(\<close> and \<open>config_get(\<close>.\<close>

datatype lexeme = LWord string | LPunct string | LString char string | LRegex char string | LSetting char string

fun lexeme_text :: "lexeme \<Rightarrow> string" where
  "lexeme_text (LWord s) = s"
| "lexeme_text (LPunct s) = s"
| "lexeme_text (LString q s) = q # s @ [q]"
| "lexeme_text (LRegex q s) = ''matches('' @ q # s @ q # '',''"
| "lexeme_text (LSetting q s) = ''config_get('' @ q # s @ [q]"

definition written :: "lexeme list \<Rightarrow> string" where
  "written ls = concat (map (\<lambda>l. lexeme_text l @ [ch_space]) ls)"

definition letter :: "char \<Rightarrow> bool" where
  "letter c \<longleftrightarrow> is_ascii_uppercase c \<or> is_ascii_lowercase c \<or> c = CHR ''_'' \<or> c = CHR ''$''"

definition plain_char :: "char \<Rightarrow> bool" where
  "plain_char c \<longleftrightarrow> letter c \<or> is_ascii_digit c \<or> c = CHR ''.''"

definition plain_string :: "char \<Rightarrow> string \<Rightarrow> bool" where
  "plain_string q s \<longleftrightarrow> (q = ch_quote \<or> q = CHR 0x27) \<and> q \<notin> set s \<and> ch_backslash \<notin> set s \<and> utf8_valid s"

definition operators :: "bool \<Rightarrow> (string \<times> ('f, 'r) expr_token) list" where
  "operators start =
    [(''&&'', TBinary BAnd), (''&'', TBinary BAnd), (''||'', TBinary BOr), (''|'', TBinary BOr), (''!'', TUnary UNot),
     (''!='', TBinary BNe), (''^'', TBinary BXor), (''('', TOpenParen), ('')'', TCloseParen), (''+'', TBinary BAdd),
     (''*'', TBinary BMultiply), (''/'', TBinary BDivide), (''-'', if start then TUnary UMinus else TBinary BSubtract),
     (''=='', TBinary BEq), (''>='', TBinary BGe), (''<='', TBinary BLe), (''=>'', TBinary BGe), (''=<'', TBinary BLe),
     (''>'', TBinary BGt), (''<'', TBinary BLt), ('','', TComma), (''['', TOpenBracket), ('']'', TCloseBracket)]"

text \<open>The tokens of a piece, and whether a minus sign after it is the sign of an operand.\<close>

fun lexeme_tokens :: "('f, 'r) token_env \<Rightarrow> bool \<Rightarrow> lexeme \<Rightarrow> (('f, 'r) expr_token list \<times> bool) option" where
  "lexeme_tokens env start (LWord s) =
    (if s \<noteq> [] \<and> list_all plain_char s then
       (case parse_word env (list_ex is_ascii_digit s) (list_ex (\<lambda>c. c = CHR ''.'') s) (list_ex letter s) s of
          Inr t \<Rightarrow> if t = TOpenParen \<or> t = TCloseParen then None else Some ([t], False)
        | Inl _ \<Rightarrow> None)
     else None)"
| "lexeme_tokens env start (LPunct s) = map_option (\<lambda>t. ([t], starts_operand t)) (map_of (operators start) s)"
| "lexeme_tokens env start (LString q s) = (if plain_string q s then Some ([TConstant (CString s)], False) else None)"
| "lexeme_tokens env start (LRegex q s) =
    (if plain_string q s then (case regex_new env s of Inr r \<Rightarrow> Some ([TRegex r, TOpenParen], True) | Inl _ \<Rightarrow> None) else None)"
| "lexeme_tokens env start (LSetting q s) = (if plain_string q s then Some ([TSetting (setting_of s), TOpenParen], True) else None)"

fun lexemes_tokens :: "('f, 'r) token_env \<Rightarrow> bool \<Rightarrow> lexeme list \<Rightarrow> ('f, 'r) expr_token list option" where
  "lexemes_tokens env start [] = Some []"
| "lexemes_tokens env start (l # ls) =
    (case lexeme_tokens env start l of
       None \<Rightarrow> None
     | Some (ts, start) \<Rightarrow> map_option (\<lambda>ts'. ts @ ts') (lexemes_tokens env start ls))"

fun parens_match :: "nat \<Rightarrow> ('f, 'r) expr_token list \<Rightarrow> bool" where
  "parens_match d [] = (d = 0)"
| "parens_match d (t # ts) =
    (case t of TOpenParen \<Rightarrow> parens_match (d + 1) ts | TCloseParen \<Rightarrow> d > 0 \<and> parens_match (d - 1) ts | _ \<Rightarrow> parens_match d ts)"

abbreviation tok_at :: "string \<Rightarrow> nat \<Rightarrow> bool \<Rightarrow> ('f, 'r) expr_token list \<Rightarrow> ('f, 'r) tokenizer" where
  "tok_at cs d start ts \<equiv> \<lparr>chars_left = cs, tok_buf = [], depth = d, next_token = ts, has_number = False, has_dot = False,
     has_alpha = False, is_start = start, is_eof = False\<rparr>"

lemma plain_char_word: "plain_char c \<Longrightarrow> word_char buf c"
  by (auto simp: plain_char_def word_char_def letter_def)

lemma read_word:
  "list_all plain_char s \<Longrightarrow> read_token env (s @ cs) st = read_token env cs (fold push_char s st)"
  by (induction s arbitrary: st) (simp_all add: plain_char_word)

lemma fold_push_char:
  "fold push_char s st = st\<lparr>tok_buf := tok_buf st @ s, has_alpha := has_alpha st \<or> list_ex letter s,
     has_number := has_number st \<or> list_ex is_ascii_digit s, has_dot := has_dot st \<or> list_ex (\<lambda>c. c = CHR ''.'') s\<rparr>"
  by (induction s arbitrary: st) (auto simp: push_char_def letter_def)

lemma scan_plain:
  "q \<notin> set s \<Longrightarrow> ch_backslash \<notin> set s \<Longrightarrow> prev \<noteq> ch_backslash \<Longrightarrow> scan_string q prev acc (s @ q # cs) = Some (acc @ s, cs)"
proof (induction s arbitrary: prev acc)
  case (Cons a s)
  then have "a \<noteq> q" "a \<noteq> ch_backslash" "q \<notin> set s" "ch_backslash \<notin> set s" by auto
  with Cons.IH [of a "acc @ [a]"] Cons.prems(3) show ?case by simp
qed simp

lemma parse_plain_string: "plain_string q s \<Longrightarrow> parse_string q (s @ q # cs) = Inr (s, cs)"
  by (simp add: plain_string_def parse_string_def scan_plain)

lemma not_word_chars [simp]: "\<not> word_char buf ch_space" "\<not> word_char [] CHR 0x27" "\<not> word_char [] ch_quote" "\<not> word_char buf CHR ''(''"
  by (simp_all add: word_char_def is_ascii_uppercase_def is_ascii_lowercase_def is_ascii_digit_def byte_def)

abbreviation blank_at :: "nat \<Rightarrow> bool \<Rightarrow> ('f, 'r) tokenizer" where
  "blank_at d start \<equiv> tok_at [] d start []"

lemma read_blank: "read_token env (ch_space # cs) (blank_at d start) = read_token env cs (blank_at d start)"
  by (simp add: end_word_def punct_token_def)

lemma next_at [simp]:
  "next_expr_token env (tok_at cs d start []) = read_token env cs (blank_at d start)"
  "next_expr_token env (tok_at cs d start (t # ts)) = Inr (Some t, tok_at cs d start ts)"
  by (simp_all add: next_expr_token_def)

lemma all_tokens_blank: "all_tokens env (tok_at (ch_space # cs) d start []) = all_tokens env (tok_at cs d start [])"
  by (subst (1 2) all_tokens.simps) (simp only: next_at read_blank)

lemma all_tokens_end: "all_tokens env (tok_at [] 0 start []) = ([], None)"
  by (subst all_tokens.simps) (simp add: end_of_input_def)

lemma all_tokens_word:
  assumes "lexeme_tokens env start (LWord s) = Some (ts, start')"
  shows "all_tokens env (tok_at (s @ ch_space # cs) d start []) =
    (case all_tokens env (tok_at cs d start' []) of (ts', e) \<Rightarrow> (ts @ ts', e))"
proof -
  obtain t where s: "s \<noteq> []" "list_all plain_char s" and t: "ts = [t]" "start' = False"
    and w: "parse_word env (list_ex is_ascii_digit s) (list_ex (\<lambda>c. c = CHR ''.'') s) (list_ex letter s) s = Inr t"
    using assms by (auto split: if_splits sum.splits)
  have "read_token env (s @ ch_space # cs) (blank_at d start) = Inr (Some t, tok_at cs d False [])"
    using s(1) w by (simp add: read_word [OF s(2)] fold_push_char end_word_def parse_buf_def punct_token_def)
  then show ?thesis by (subst all_tokens.simps) (simp only: next_at, simp add: t)
qed

lemma all_tokens_punct:
  assumes "lexeme_tokens env start (LPunct s) = Some (ts, start')" and "parens_match d (ts @ ts')"
  shows "\<exists>d'. parens_match d' ts' \<and> all_tokens env (tok_at (s @ ch_space # cs) d start []) =
    (case all_tokens env (tok_at cs d' start' []) of (ts', e) \<Rightarrow> (ts @ ts', e))"
proof -
  obtain t where t: "map_of (operators start) s = Some t" "ts = [t]" "start' = starts_operand t"
    using assms(1) by auto
  let ?d = "case t of TOpenParen \<Rightarrow> d + 1 | TCloseParen \<Rightarrow> d - 1 | _ \<Rightarrow> d"
  from map_of_SomeD [OF t(1)] assms(2) t(2)
  have "read_token env (s @ ch_space # cs) (blank_at d start) = Inr (Some t, tok_at (ch_space # cs) ?d (starts_operand t) [])
    \<and> parens_match ?d ts'"
    by (cases start) (auto simp: operators_def end_word_def punct_token_def second_def equals_token_def word_char_def
        is_ascii_uppercase_def is_ascii_lowercase_def is_ascii_digit_def byte_def)
  then show ?thesis using t
    by (intro exI [of _ ?d] conjI) (simp, subst all_tokens.simps, simp only: next_at, simp add: all_tokens_blank)
qed


lemma all_tokens_string:
  assumes "lexeme_tokens env start (LString q s) = Some (ts, start')"
  shows "all_tokens env (tok_at (q # s @ q # ch_space # cs) d start []) =
    (case all_tokens env (tok_at cs d start' []) of (ts', e) \<Rightarrow> (ts @ ts', e))"
proof -
  have s: "plain_string q s" and t: "ts = [TConstant (CString s)]" "start' = False"
    using assms by (auto split: if_splits)
  then have q: "q = ch_quote \<or> q = CHR 0x27" by (simp add: plain_string_def)
  have "read_token env (q # s @ q # ch_space # cs) (blank_at d start) =
      Inr (Some (TConstant (CString s)), tok_at (ch_space # cs) d False [])"
    using q s by (elim disjE; simp add: end_word_def punct_token_def parse_plain_string starts_operand_def)
  then show ?thesis using t by (subst all_tokens.simps) (simp only: next_at, simp add: all_tokens_blank)
qed

lemma word_matches: "list_all plain_char ''matches''" "list_all plain_char ''config_get''"
  by (simp_all add: plain_char_def letter_def is_ascii_lowercase_def byte_def)

lemma punct_paren: "punct_token env st d CHR ''('' cs = Punct TOpenParen cs (Suc d)"
  by (simp add: punct_token_def)

lemma all_tokens_call:
  assumes "read_token env cs (blank_at d start) = Inr (Some t, tok_at (ch_space # cs') (Suc d) True [TOpenParen])"
  shows "all_tokens env (tok_at cs d start []) =
    (case all_tokens env (tok_at cs' (Suc d) True []) of (ts', e) \<Rightarrow> ([t, TOpenParen] @ ts', e))"
proof -
  have "all_tokens env (tok_at (ch_space # cs') (Suc d) True [TOpenParen]) =
      (case all_tokens env (tok_at cs' (Suc d) True []) of (ts', e) \<Rightarrow> (TOpenParen # ts', e))"
    by (subst all_tokens.simps) (simp only: next_at, simp add: all_tokens_blank)
  then show ?thesis using assms by (subst all_tokens.simps) (simp only: next_at, simp split: prod.split)
qed

lemma find_plain:
  "q = ch_quote \<or> q = CHR 0x27 \<Longrightarrow> find_char env [ch_quote, CHR 0x27] (q # cs) = Inr (q, cs)"
  "find_char env '','' (CHR '','' # cs) = Inr (CHR '','', cs)"
  by (auto simp: is_ascii_whitespace_def)

lemma all_tokens_regex:
  assumes "lexeme_tokens env start (LRegex q s) = Some (ts, start')"
  shows "all_tokens env (tok_at (''matches('' @ q # s @ q # '','' @ ch_space # cs) d start []) =
    (case all_tokens env (tok_at cs (Suc d) start' []) of (ts', e) \<Rightarrow> (ts @ ts', e))"
proof -
  obtain r where s: "plain_string q s" and r: "regex_new env s = Inr r" and t: "ts = [TRegex r, TOpenParen]" "start' = True"
    using assms by (auto split: if_splits sum.splits)
  then have q: "q = ch_quote \<or> q = CHR 0x27" by (simp add: plain_string_def)
  have "read_token env (''matches'' @ CHR ''('' # q # s @ q # CHR '','' # ch_space # cs) (blank_at d start) =
      Inr (Some (TRegex r), tok_at (ch_space # cs) (Suc d) True [TOpenParen])"
    by (simp only: read_word [OF word_matches(1)] fold_push_char)
      (simp add: end_word_def find_plain(1) [OF q] find_plain(2) parse_plain_string [OF s] r punct_paren starts_operand_def list_ex_iff
        letter_def is_ascii_digit_def byte_def del: find_char.simps)
  from all_tokens_call [OF this] t show ?thesis by simp
qed

lemma all_tokens_setting:
  assumes "lexeme_tokens env start (LSetting q s) = Some (ts, start')"
  shows "all_tokens env (tok_at (''config_get('' @ q # s @ q # ch_space # cs) d start []) =
    (case all_tokens env (tok_at cs (Suc d) start' []) of (ts', e) \<Rightarrow> (ts @ ts', e))"
proof -
  have s: "plain_string q s" and t: "ts = [TSetting (setting_of s), TOpenParen]" "start' = True"
    using assms by (auto split: if_splits sum.splits)
  then have q: "q = ch_quote \<or> q = CHR 0x27" by (simp add: plain_string_def)
  have "read_token env (''config_get'' @ CHR ''('' # q # s @ q # ch_space # cs) (blank_at d start) =
      Inr (Some (TSetting (setting_of s)), tok_at (ch_space # cs) (Suc d) True [TOpenParen])"
    by (simp only: read_word [OF word_matches(2)] fold_push_char)
      (simp add: end_word_def find_plain(1) [OF q] find_plain(2) parse_plain_string [OF s] punct_paren starts_operand_def list_ex_iff
        letter_def is_ascii_digit_def byte_def del: find_char.simps)
  from all_tokens_call [OF this] t show ?thesis by simp
qed

lemma all_tokens_lexeme:
  assumes "lexeme_tokens env start l = Some (ts, start')" and "parens_match d (ts @ ts')"
  shows "\<exists>d'. parens_match d' ts' \<and> all_tokens env (tok_at (lexeme_text l @ ch_space # cs) d start []) =
    (case all_tokens env (tok_at cs d' start' []) of (ts', e) \<Rightarrow> (ts @ ts', e))"
proof (cases l)
  case (LWord s)
  then obtain t where "ts = [t]" "t \<noteq> TOpenParen" "t \<noteq> TCloseParen"
    using assms(1) by (auto split: if_splits sum.splits)
  with assms(2) have "parens_match d ts'" by (cases t) auto
  with all_tokens_word [of env start s ts start' cs d] assms(1) LWord show ?thesis by auto
next
  case (LPunct s)
  with all_tokens_punct [of env start s ts start' d ts' cs] assms show ?thesis by simp
next
  case (LString q s)
  then have "parens_match d ts'" using assms by (auto split: if_splits)
  with all_tokens_string [of env start q s ts start' cs d] assms(1) LString show ?thesis by auto
next
  case (LRegex q s)
  then have "parens_match (Suc d) ts'" using assms by (auto split: if_splits sum.splits)
  with all_tokens_regex [of env start q s ts start' cs d] assms(1) LRegex show ?thesis by auto
next
  case (LSetting q s)
  then have "parens_match (Suc d) ts'" using assms by (auto split: if_splits)
  with all_tokens_setting [of env start q s ts start' cs d] assms(1) LSetting show ?thesis by auto
qed


lemma all_tokens_written:
  "lexemes_tokens env start ls = Some ts \<Longrightarrow> parens_match d ts \<Longrightarrow> all_tokens env (tok_at (written ls) d start []) = (ts, None)"
proof (induction ls arbitrary: start ts d)
  case Nil
  then show ?case by (simp add: written_def all_tokens_end)
next
  case (Cons l ls)
  then obtain ts1 start' ts2 where l: "lexeme_tokens env start l = Some (ts1, start')" and
    ls: "lexemes_tokens env start' ls = Some ts2" and ts: "ts = ts1 @ ts2"
    by (auto split: option.splits)
  have "written (l # ls) = lexeme_text l @ ch_space # written ls" by (simp add: written_def)
  with all_tokens_lexeme [OF l, of d ts2 "written ls"] Cons.IH [OF ls] Cons.prems(2) ts show ?case by auto
qed

lemma written_tokens:
  "lexemes_tokens env True ls = Some ts \<Longrightarrow> parens_match 0 ts \<Longrightarrow> all_tokens env (tokenizer_new (written ls)) = (ts, None)"
  using all_tokens_written [of env True ls ts 0] by (simp add: tokenizer_new_def)

text \<open>
  C38. The tokenizer reads back what was written: names, numbers, operators, brackets, quoted strings and
  the beginnings of calls, separated by spaces, are read as the tokens that they stand for, the
  minus sign by its place.
\<close>

theorem tokens_read_back:
  assumes "lexemes_tokens env True ls = Some ts" and "parens_match 0 ts"
  shows "all_tokens env (tokenizer_new (written ls)) = (ts, None)"
  by (rule written_tokens [OF assms])

section \<open>Types\<close>

text \<open>How many values an item takes from the stack, and the programs that end with one value.\<close>

fun takes :: "('f, 'r) expr_item \<Rightarrow> nat" where
  "takes (IUnary _) = 1"
| "takes (IBinary _) = 2"
| "takes (IRegex _) = 1"
| "takes (IFunction _ n) = unat n"
| "takes IArrayAccess = 2"
| "takes (IArrayBuild n) = unat n"
| "takes _ = 0"

function typed :: "('f, 'r) expr_item list \<Rightarrow> nat \<Rightarrow> bool" where
  "typed [] n = (n = 1)"
| "typed (i # is) n =
    (case i of
       IJmpIf _ pos \<Rightarrow> 0 < n \<and> typed is n \<and> typed (drop (unat pos) is) n
     | _ \<Rightarrow> takes i \<le> n \<and> typed is (Suc (n - takes i)))"
  by pat_completeness auto
termination by (relation "measure (\<lambda>(is, _). length is)") auto

lemma typed_plain: "\<not> is_jump i \<Longrightarrow> typed (i # is) n \<longleftrightarrow> takes i \<le> n \<and> typed is (Suc (n - takes i))"
  by (cases i) simp_all

lemma typed_codes:
  assumes "\<And>e is n. e \<in> set es \<Longrightarrow> typed is (Suc n) \<Longrightarrow> typed (code e @ is) n"
  shows "typed is (n + length es) \<Longrightarrow> typed (concat (map code es) @ is) n"
  using assms
proof (induction es arbitrary: n)
  case (Cons e es)
  from Cons.IH [of "Suc n"] Cons.prems show ?case by simp
qed simp

lemma code_typed: "well_formed e \<Longrightarrow> length (code e) < 2 ^ 32 \<Longrightarrow> typed is (Suc n) \<Longrightarrow> typed (code e @ is) n"
proof (induction e arbitrary: "is" n)
  case (EBinary b l r)
  have r: "typed (code r @ IBinary b # is) (Suc n)" using EBinary by simp
  have u: "unat (word_of_nat (Suc (length (code r))) :: u32) = Suc (length (code r))"
    using EBinary.prems(2) by (simp add: unat_of_nat take_bit_nat_eq_self del: of_nat_Suc)
  have "typed (jump_over b (code r) @ code r @ IBinary b # is) (Suc n)"
    using r u EBinary.prems(3) by (cases b) (simp_all del: of_nat_Suc)
  with EBinary show ?case by simp
next
  case (ECall name i k es)
  have "typed (concat (map code es) @ IFunction i k # is) n"
  proof (rule typed_codes)
    show "typed (code e @ is') m" if "e \<in> set es" "typed is' (Suc m)" for e is' m
      using ECall.IH [OF that(1) _ _ that(2)] ECall.prems(1,2) that(1) by (auto simp: list_all_iff dest!: split_list)
  qed (use ECall.prems in simp)
  then show ?case by simp
next
  case (EArray es)
  have "unat (word_of_nat (length es) :: u32) = length es" using EArray.prems by (simp add: unat_of_nat take_bit_nat_eq_self)
  moreover have "typed (concat (map code es) @ IArrayBuild (word_of_nat (length es)) # is) n"
  proof (rule typed_codes)
    show "typed (code e @ is') m" if "e \<in> set es" "typed is' (Suc m)" for e is' m
      using EArray.IH [OF that(1) _ _ that(2)] EArray.prems(1,2) that(1) by (auto simp: list_all_iff dest!: split_list)
  qed (use EArray.prems calculation in simp)
  ultimately show ?case by simp
qed (simp_all add: typed_plain)

lemma pop_args_append_rest:
  "n \<le> length st \<Longrightarrow> pop_args n args (st @ rest) = (fst (pop_args n args st), snd (pop_args n args st) @ rest)
    \<and> length (snd (pop_args n args st)) = length st - n"
proof (induction n arbitrary: args st)
  case (Suc n)
  then show ?case by (cases st) auto
qed simp

text \<open>One item of a typed program finds its values, and leaves what is below them.\<close>

lemma map_sum_eq:
  "map_sum id f r = Inl e \<longleftrightarrow> r = Inl e" "map_sum id f r = Inr y \<longleftrightarrow> (\<exists>v. r = Inr v \<and> y = f v)"
  by (cases r; auto)+

lemma eval_item_typed:
  assumes "takes i \<le> length st" and "\<not> is_jump i"
  shows "eval_item env i (st @ rest) s = (case eval_item env i st s of (r, s') \<Rightarrow> (map_sum id (\<lambda>st'. st' @ rest) r, s'))
    \<and> (case eval_item env i st s of (Inr st', _) \<Rightarrow> length st' = Suc (length st - takes i) | _ \<Rightarrow> True)"
proof (cases "takes i \<le> 2 \<and> (\<forall>k n. i \<noteq> IFunction k n) \<and> (\<forall>n. i \<noteq> IArrayBuild n)")
  case True
  then show ?thesis using assms
    by (cases i; cases st; cases "tl st"; auto simp: eval_item_def map_sum_eq split: prod.splits sum.splits)
next
  case False
  then show ?thesis using assms pop_args_append_rest [of "takes i" st "[]" rest]
    by (cases i) (auto simp: eval_item_def map_sum_eq split: prod.splits sum.splits)
qed

lemma typed_sound:
  "typed is (length st) \<Longrightarrow> eval_items env is (st @ rest) s = eval_items env is st s"
proof (induction "is" arbitrary: st s rule: length_induct)
  case (1 "is")
  show ?case
  proof (cases "is")
    case Nil
    with 1 show ?thesis by (cases st) auto
  next
    case (Cons i is')
    show ?thesis
    proof (cases "is_jump i")
      case True
      then obtain v p where i: "i = IJmpIf v p" by (cases i) auto
      let ?is = "if jumps env v st then drop (unat p) is' else is'"
      have "jumps env v (st @ rest) = jumps env v st" using "1.prems" Cons i by (cases st) (auto simp: jumps_def)
      moreover have "length ?is < length is" "typed ?is (length st)" using "1.prems" Cons i by auto
      moreover from this "1.IH" have "eval_items env ?is (st @ rest) s = eval_items env ?is st s" by blast
      ultimately show ?thesis using Cons i by simp
    next
      case False
      obtain r s' where r: "eval_item env i st s = (r, s')" by (cases "eval_item env i st s")
      have t: "takes i \<le> length st" "typed is' (Suc (length st - takes i))" using "1.prems" Cons typed_plain [OF False] by simp_all
      note e = eval_item_typed [OF t(1) False, of env rest s]
      show ?thesis
      proof (cases r)
        case (Inl x)
        with e r False Cons show ?thesis by (simp add: eval_items_plain del: eval_items.simps)
      next
        case (Inr st')
        with e r t(2) have "typed is' (length st')" by simp
        moreover have "length is' < length is" using Cons by simp
        ultimately have "eval_items env is' (st' @ rest) s' = eval_items env is' st' s'" using "1.IH" by blast
        with Cons e r Inr False show ?thesis by (simp add: eval_items_plain del: eval_items.simps)
      qed
    qed
  qed
qed

text \<open>
  C27. Programs are well typed: the program of an expression takes no more values from the stack than it
  has put there, on every path through its jumps, and leaves one; therefore the values that an
  empty stack would stand in for are never used and nothing below the program is read.
\<close>

theorem programs_well_typed:
  assumes "well_formed e" and "length (code e) < 2 ^ 32"
  shows "\<exists>is. parse_tokens (expr_tokens e) = Some (Inr is) \<and> typed is 0
    \<and> (\<forall>rest s. eval_items env is rest s = eval_program env is s)"
proof -
  have "typed (code e) 0" using code_typed [OF assms, of "[]" 0] by simp
  moreover from this have "eval_items env (code e) rest s = eval_program env (code e) s" for rest s
    using typed_sound [of "code e" "[]" env rest s] by (simp add: eval_program_def)
  ultimately show ?thesis using parse_expr_tokens [OF assms(1)] by blast
qed

section \<open>Settings\<close>

lemma balanced_parens: "balanced st ts \<Longrightarrow> parens_match (length (filter (\<lambda>t. t = TOpenParen) st)) ts"
proof (induction st ts rule: balanced.induct)
  case (2 st t ts)
  then show ?case by (cases t) (auto split: list.splits expr_token.splits)
qed simp

lemma parse_expression_total:
  "\<exists>r. parse_expression env text = Some r
    \<and> (case r of Inl e \<Rightarrow> True
       | Inr is \<Rightarrow> (case all_tokens env (tokenizer_new text) of (ts, err) \<Rightarrow> err = None \<and> balanced [] ts) \<and> jumps_inside is)"
proof -
  obtain ts err where t: "all_tokens env (tokenizer_new text) = (ts, err)" by (cases "all_tokens env (tokenizer_new text)")
  show ?thesis
  proof (cases err)
    case None
    with t parse_tokens_total [of ts] show ?thesis by (auto simp: parse_expression_tokens split: sum.splits)
  next
    case (Some e)
    from parser_steps_total [OF parser_ok_new, of False ts] show ?thesis
      using t Some by (auto simp: parse_expression_def)
  qed
qed

text \<open>
  C17. Every setting is handled: whatever its text is, parsing ends without a panic; if it succeeds, the
  text was read to its end, its parentheses and brackets match, and no jump of the program leaves
  it, so that every program ends; all other texts are errors.
\<close>

theorem settings_parse_or_fail:
  "\<exists>r. parse_expression env text = Some r
    \<and> (case r of Inl e \<Rightarrow> True
       | Inr is \<Rightarrow> (case all_tokens env (tokenizer_new text) of (ts, err) \<Rightarrow> err = None \<and> balanced [] ts) \<and> jumps_inside is)"
  by (rule parse_expression_total)

text \<open>
  C8. A setting means what it says: the text of an expression, with parentheses only where the
  precedence of the operators needs them, is compiled to a program that computes the value of the
  expression, with the effects on the server and the captured groups in order, operators that are
  decided by their left side skipping the right side, and the errors of the functions.
\<close>

theorem settings_mean_what_they_say:
  assumes "well_formed e" and "length (code e) < 2 ^ 32" and "lexemes_tokens tenv True ls = Some (expr_tokens e)"
  shows "\<exists>is. parse_expression tenv (written ls) = Some (Inr is) \<and> (\<forall>s. eval_program env is s = meaning env e s)"
proof -
  have p: "parse_tokens (expr_tokens e) = Some (Inr (code e))" by (rule parse_expr_tokens [OF assms(1)])
  with parse_tokens_total [of "expr_tokens e"] have "balanced [] (expr_tokens e)" by auto
  then have "all_tokens tenv (tokenizer_new (written ls)) = (expr_tokens e, None)"
    using written_tokens [OF assms(3)] balanced_parens by fastforce
  with p program_computes [OF assms(1,2)] show ?thesis by (auto simp: parse_expression_tokens)
qed

section \<open>Examples\<close>

definition no_floats :: "unit floats" where
  "no_floats = \<lparr>f_add = (\<lambda>_ _. ()), f_sub = (\<lambda>_ _. ()), f_mul = (\<lambda>_ _. ()), f_div = (\<lambda>_ _. ()), f_neg = (\<lambda>_. ()), f_zero = (),
     f_of_int = (\<lambda>_. ()), f_to_int = (\<lambda>_. 0), f_to_usize = (\<lambda>_. 0), f_less = (\<lambda>_ _. False), f_eq = (\<lambda>_ _. True),
     f_parse = (\<lambda>_. None), f_show = (\<lambda>_. [])\<rparr>"

definition example_names :: "(unit, unit) token_env" where
  "example_names = \<lparr>token_floats = no_floats, token_map = [''rcpt_domain'' \<mapsto> TVariable 1, ''priority'' \<mapsto> TVariable 12],
     regex_new = (\<lambda>_. Inr ()), debug_str = id, debug_char = (\<lambda>c. [c])\<rparr>"

definition example_env :: "(unit, unit, unit) eval_env" where
  "example_env = \<lparr>floats_of = no_floats, resolve_var = (\<lambda>v. if v = 12 then VInteger 3 else VString ''x''), resolve_global = (\<lambda>_. VInteger 0),
     regex_captures = (\<lambda>_ _. None), server_name = [], report_domain = [], node_id = 0, config_get = (\<lambda>_ w. (Inr None, w)),
     sync_functions = [], eval_fnc = (\<lambda>_ _ w. (Inl [], w))\<rparr>"

definition run_setting :: "string \<Rightarrow> unit expr_value option" where
  "run_setting text =
    (case parse_expression example_names text of
       Some (Inr is) \<Rightarrow> (case eval_program example_env is ([], ()) of (Inr v, _) \<Rightarrow> Some v | _ \<Rightarrow> None) | _ \<Rightarrow> None)"

definition example :: "(unit, unit) exp" where
  "example = EBinary BAnd
    (EBinary BLe (EBinary BMultiply (EBinary BAdd (EVariable 12) (EConstant (CInteger 1))) (EUnary UMinus (EConstant (CInteger 2))))
      (EUnary UMinus (EConstant (CInteger 8))))
    (EBinary BEq (EVariable 1) (EConstant (CString ''x'')))"

definition example_text :: "lexeme list" where
  "example_text = [LPunct ''('', LWord ''priority'', LPunct ''+'', LWord ''1'', LPunct '')'', LPunct ''*'', LPunct ''-'', LWord ''2'',
     LPunct ''<='', LPunct ''-'', LWord ''8'', LPunct ''&&'', LWord ''rcpt_domain'', LPunct ''=='', LString ch_quote ''x'']"

lemma example_short: "length (code example) < 2 ^ 32"
  by (simp add: example_def)

lemma example_facts:
  "well_formed example" "lexemes_tokens example_names True example_text = Some (expr_tokens example)"
  "parens_match 0 (expr_tokens example)" "meaning example_env example ([], ()) = (Inr (VInteger 1), [], ())"
  by code_simp+

theorem tokens_read_back_witness:
  "all_tokens example_names (tokenizer_new (written example_text)) = (expr_tokens example, None)"
  using tokens_read_back [OF example_facts(2,3)] .

theorem programs_well_typed_witness:
  "\<exists>is. parse_tokens (expr_tokens example) = Some (Inr is) \<and> typed is 0
    \<and> eval_items example_env is [VInteger 7] ([], ()) = eval_program example_env is ([], ())"
  using programs_well_typed [OF example_facts(1) example_short, of example_env] by blast

theorem settings_mean_what_they_say_witness:
  "\<exists>is. parse_expression example_names (written example_text) = Some (Inr is)
    \<and> eval_program example_env is ([], ()) = (Inr (VInteger 1), [], ())"
  using settings_mean_what_they_say [OF example_facts(1) example_short example_facts(2), of example_env] example_facts(4) by auto

text \<open>
  A minus sign after an opening bracket is taken for the operator, and what follows it is not counted:
  the array is empty. An item that begins with a parenthesis or a unary operator is refused.
\<close>

lemma negative_item_lost: "run_setting ''[-1]'' = Some (VArray [])" "run_setting ''[0-1]'' = Some (VArray [VInteger (- 1)])"
  by code_simp+

lemma item_in_parens_refused:
  "parse_expression example_names ''[(1)]'' = Some (Inl (''Expression function '' @ [ch_quote] @ ''array'' @ [ch_quote] @ '' expected 0 arguments, got 1''))"
  by code_simp

text \<open>A single equals sign takes the next character with it, and a sign after a sign is an operator.\<close>

lemma equals_swallows: "run_setting ''1=1'' = Some (VInteger 0)" "run_setting ''1==1'' = Some (VInteger 1)"
  by code_simp+

lemma double_minus: "run_setting ''--1'' = Some (VInteger (- 1))"
  by code_simp

text \<open>An escape sequence leaves its backslash in the string.\<close>

lemma escape_keeps_backslash:
  "run_setting (CHR 0x27 # ''a'' @ [ch_backslash] @ ''n'' @ [CHR 0x27]) = Some (VString (''a'' @ [ch_backslash, ch_lf]))"
  by code_simp

text \<open>As a number, an array that is empty is one and another one is zero, although as a condition it holds.\<close>

lemma array_as_number:
  "parse_number fl (VArray []) = VInteger 1" "v \<noteq> [] \<Longrightarrow> parse_number fl (VArray v) = VInteger 0 \<and> to_bool fl (VArray v)"
  by (simp_all add: parse_number_def value_of_bool_def)

end
