(* ===== verification/Expr_Functions.thy ===== *)
theory Expr_Functions
  imports Expr_Tokenizer
begin

text \<open>
  The functions of expressions that need no server (\<open>crates/common/src/expr/functions/array.rs\<close>,
  \<open>misc.rs\<close>, \<open>email.rs\<close>, \<open>text.rs\<close>), in the order of the table in \<open>mod.rs\<close>, called with as many
  arguments as the table says. The tables of Unicode, the parser of addresses, the order that an
  unstable sort gives to equal items, reverse names and hashes are parameters.
\<close>

record 'f text_env =
  text_floats :: "'f floats"
  is_alphabetic :: "string \<Rightarrow> bool"
  is_uppercase :: "string \<Rightarrow> bool"
  is_lowercase :: "string \<Rightarrow> bool"
  is_alphanumeric :: "string \<Rightarrow> bool"
  str_to_lowercase :: "string \<Rightarrow> string"
  str_to_uppercase :: "string \<Rightarrow> string"
  parse_ip :: "string \<Rightarrow> bool option"
  reverse_name :: "string \<Rightarrow> string"
  sort_by :: "('f expr_value \<Rightarrow> 'f expr_value \<Rightarrow> ordering) \<Rightarrow> 'f expr_value list \<Rightarrow> 'f expr_value list"
  hex_hash :: "string \<Rightarrow> string \<Rightarrow> string"

section \<open>Strings\<close>

text \<open>The characters of a valid UTF-8 string, each as its bytes.\<close>

definition char_len :: "char \<Rightarrow> nat" where
  "char_len a = (if byte a < 0x80 then 1 else if byte a < 0xE0 then 2 else if byte a < 0xF0 then 3 else 4)"

lemma char_len_pos [simp]: "0 < char_len a"
  by (simp add: char_len_def)

function str_chars :: "string \<Rightarrow> string list" where
  "str_chars [] = []"
| "str_chars (a # s) = take (char_len a) (a # s) # str_chars (drop (char_len a) (a # s))"
  by pat_completeness auto
termination by (relation "measure length") (auto simp: char_len_def)

definition is_white :: "string \<Rightarrow> bool" where
  "is_white c \<longleftrightarrow>
    (case c of [a] \<Rightarrow> white_space_1 a | [a, b] \<Rightarrow> white_space_2 a b | [a, b, d] \<Rightarrow> white_space_3 a b d | _ \<Rightarrow> False)"

definition trim_end :: "string \<Rightarrow> string" where
  "trim_end s = rev (trim_rev (rev s))"

definition starts_with :: "string \<Rightarrow> string \<Rightarrow> bool" where
  "starts_with p s \<longleftrightarrow> take (length p) s = p"

fun str_contains :: "string \<Rightarrow> string \<Rightarrow> bool" where
  "str_contains p [] = (p = [])"
| "str_contains p (c # s) = (starts_with p (c # s) \<or> str_contains p s)"

text \<open>The first and the last occurrence of a pattern.\<close>

fun str_split_once :: "string \<Rightarrow> string \<Rightarrow> (string \<times> string) option" where
  "str_split_once p [] = (if p = [] then Some ([], []) else None)"
| "str_split_once p (c # s) =
    (if starts_with p (c # s) then Some ([], drop (length p) (c # s))
     else map_option (\<lambda>(a, b). (c # a, b)) (str_split_once p s))"

definition str_rsplit_once :: "string \<Rightarrow> string \<Rightarrow> (string \<times> string) option" where
  "str_rsplit_once p s = map_option (\<lambda>(a, b). (rev b, rev a)) (str_split_once (rev p) (rev s))"

lemma starts_with_parts: "starts_with p s \<Longrightarrow> s = p @ drop (length p) s"
  unfolding starts_with_def by (metis append_take_drop_id)

lemma str_split_once_parts: "str_split_once p s = Some (a, b) \<Longrightarrow> s = a @ p @ b"
proof (induction p s arbitrary: a b rule: str_split_once.induct)
  case (2 p c s)
  show ?case
  proof (cases "starts_with p (c # s)")
    case True
    then have "a = []" "b = drop (length p) (c # s)" using "2.prems" by auto
    then show ?thesis using starts_with_parts [OF True] by simp
  next
    case False
    then show ?thesis using 2 by auto
  qed
qed (simp split: if_splits)

lemma str_split_once_shorter: "str_split_once p s = Some (a, b) \<Longrightarrow> p \<noteq> [] \<Longrightarrow> length b < length s"
  by (auto dest!: str_split_once_parts)

function str_split_at :: "string \<Rightarrow> string \<Rightarrow> string list" where
  "str_split_at p s =
    (if p = [] then [s] else case str_split_once p s of None \<Rightarrow> [s] | Some (a, b) \<Rightarrow> a # str_split_at p b)"
  by pat_completeness auto
termination by (relation "measure (length \<circ> snd)") (auto dest: str_split_once_shorter)

declare str_split_at.simps [simp del]

text \<open>\<open>split\<close> at an empty pattern yields the characters between two empty strings.\<close>

definition str_split :: "string \<Rightarrow> string \<Rightarrow> string list" where
  "str_split p s = (if p = [] then [] # str_chars s @ [[]] else str_split_at p s)"

definition str_rsplit :: "string \<Rightarrow> string \<Rightarrow> string list" where
  "str_rsplit p s = (if p = [] then rev (str_split p s) else map rev (str_split_at (rev p) (rev s)))"

fun split_n :: "string \<Rightarrow> nat \<Rightarrow> string \<Rightarrow> string list" where
  "split_n p 0 s = [s]"
| "split_n p (Suc n) s = (case str_split_once p s of Some (a, b) \<Rightarrow> a # split_n p n b | None \<Rightarrow> [s])"

fun split_words_acc :: "string \<Rightarrow> string list \<Rightarrow> string list" where
  "split_words_acc w [] = (if w = [] then [] else [w])"
| "split_words_acc w (c # cs) =
    (if is_white c then (if w = [] then split_words_acc [] cs else w # split_words_acc [] cs)
     else split_words_acc (w @ c) cs)"

definition split_whitespace :: "string \<Rightarrow> string list" where
  "split_whitespace s = split_words_acc [] (str_chars s)"

text \<open>\<open>lines\<close>: the last line may have no end, and a carriage return belongs to the end.\<close>

definition strip_cr :: "string \<Rightarrow> string" where
  "strip_cr l = (if l \<noteq> [] \<and> last l = ch_cr then butlast l else l)"

definition str_lines :: "string \<Rightarrow> string list" where
  "str_lines s =
    (let ls = str_split_at [ch_lf] s in
     map strip_cr (butlast ls) @ (if last ls = [] then [] else [last ls]))"

section \<open>Arrays\<close>

definition transform :: "'f floats \<Rightarrow> (string \<Rightarrow> 'f expr_value) \<Rightarrow> 'f expr_value \<Rightarrow> 'f expr_value" where
  "transform fl f v =
    (case v of
       VString s \<Rightarrow> f s
     | VArray l \<Rightarrow> VArray (map (\<lambda>v. f (into_string fl v)) l)
     | v \<Rightarrow> f (into_string fl v))"

definition value_of_nat :: "nat \<Rightarrow> 'f expr_value" where
  "value_of_nat n = VInteger (word_of_nat n)"

definition fn_count :: "'f expr_value list \<Rightarrow> 'f expr_value" where
  "fn_count v =
    value_of_nat (case v ! 0 of VArray a \<Rightarrow> length a | v \<Rightarrow> if \<not> value_is_empty v then 1 else 0)"

definition fn_sort :: "'f text_env \<Rightarrow> 'f expr_value list \<Rightarrow> 'f expr_value" where
  "fn_sort env v =
    (let fl = text_floats env; arr = into_array (v ! 0) in
     VArray (if to_bool fl (v ! 1) then sort_by env (\<lambda>a b. value_cmp fl b a) arr else sort_by env (value_cmp fl) arr))"

definition fn_dedup :: "'f text_env \<Rightarrow> 'f expr_value list \<Rightarrow> 'f expr_value" where
  "fn_dedup env v =
    VArray (fold (\<lambda>x r. if list_ex (\<lambda>y. value_eq (text_floats env) y x) r then r else r @ [x]) (into_array (v ! 0)) [])"

definition array_contains :: "'f floats \<Rightarrow> 'f expr_value list \<Rightarrow> 'f expr_value \<Rightarrow> bool" where
  "array_contains fl a x \<longleftrightarrow> list_ex (\<lambda>y. value_eq fl y x) a"

definition fn_is_intersect :: "'f text_env \<Rightarrow> 'f expr_value list \<Rightarrow> 'f expr_value" where
  "fn_is_intersect env v =
    value_of_bool
      (case (v ! 0, v ! 1) of
         (VArray a, VArray b) \<Rightarrow> list_ex (array_contains (text_floats env) b) a
       | (VArray a, x) \<Rightarrow> array_contains (text_floats env) a x
       | (x, VArray a) \<Rightarrow> array_contains (text_floats env) a x
       | _ \<Rightarrow> False)"

definition fn_winnow :: "'f expr_value list \<Rightarrow> 'f expr_value" where
  "fn_winnow v = (case v ! 0 of VArray a \<Rightarrow> VArray (filter (\<lambda>x. \<not> value_is_empty x) a) | v \<Rightarrow> v)"

section \<open>Addresses\<close>

record email_scan =
  last_ch :: char
  in_quote :: bool
  at_count :: nat
  dot_count :: nat
  lp_len :: nat
  value_len :: nat

definition atext :: "char \<Rightarrow> bool" where
  "atext c \<longleftrightarrow> is_ascii_alphanumeric c \<or> c \<in> set ''!#$%&*+-/=?^_`{|}~'' \<or> c = CHR 0x27 \<or> 0x7F \<le> byte c"

definition email_step :: "char \<Rightarrow> email_scan \<Rightarrow> email_scan option" where
  "email_step c e =
    (if atext c then Some (e\<lparr>value_len := value_len e + 1, last_ch := c\<rparr>)
     else if c = CHR ''.'' \<and> \<not> in_quote e then
       (if last_ch e \<noteq> CHR ''.'' \<and> last_ch e \<noteq> CHR ''@'' \<and> value_len e \<noteq> 0
        then Some (e\<lparr>value_len := value_len e + 1, dot_count := (if at_count e = 1 then dot_count e + 1 else dot_count e), last_ch := c\<rparr>)
        else None)
     else if c = CHR ''@'' \<and> \<not> in_quote e then
       Some (e\<lparr>at_count := at_count e + 1, lp_len := value_len e, value_len := 0, last_ch := c\<rparr>)
     else if c \<in> set ''>:, '' \<and> in_quote e then Some (e\<lparr>value_len := value_len e + 1, last_ch := c\<rparr>)
     else if c = ch_quote \<and> (\<not> in_quote e \<or> last_ch e \<noteq> ch_backslash) then Some (e\<lparr>in_quote := \<not> in_quote e, last_ch := c\<rparr>)
     else if c = ch_backslash \<and> in_quote e \<and> last_ch e \<noteq> ch_backslash then Some (e\<lparr>last_ch := c\<rparr>)
     else if \<not> in_quote e then None
     else Some (e\<lparr>last_ch := c\<rparr>))"

fun email_scan_all :: "string \<Rightarrow> email_scan \<Rightarrow> email_scan option" where
  "email_scan_all [] e = Some e"
| "email_scan_all (c # cs) e = (case email_step c e of None \<Rightarrow> None | Some e \<Rightarrow> email_scan_all cs e)"

definition email_start :: email_scan where
  "email_start = \<lparr>last_ch = CHR 0x00, in_quote = False, at_count = 0, dot_count = 0, lp_len = 0, value_len = 0\<rparr>"

definition is_email :: "string \<Rightarrow> bool" where
  "is_email s \<longleftrightarrow>
    (case email_scan_all s email_start of
       None \<Rightarrow> False | Some e \<Rightarrow> at_count e = 1 \<and> dot_count e > 0 \<and> lp_len e > 0 \<and> value_len e > 0)"

definition fn_is_email :: "'f text_env \<Rightarrow> 'f expr_value list \<Rightarrow> 'f expr_value" where
  "fn_is_email env v = value_of_bool (is_email (into_string (text_floats env) (v ! 0)))"

definition email_part :: "string \<Rightarrow> string \<Rightarrow> string" where
  "email_part part s =
    (case str_rsplit_once ''@'' s of
       None \<Rightarrow> []
     | Some (u, d) \<Rightarrow> if part = ''local'' then trim u else if part = ''domain'' then trim d else [])"

definition fn_email_part :: "'f text_env \<Rightarrow> 'f expr_value list \<Rightarrow> 'f expr_value" where
  "fn_email_part env v =
    transform (text_floats env) (\<lambda>s. VString (email_part (into_string (text_floats env) (v ! 1)) s)) (v ! 0)"

section \<open>Miscellaneous\<close>

definition fn_is_empty :: "'f expr_value list \<Rightarrow> 'f expr_value" where
  "fn_is_empty v = value_of_bool (case v ! 0 of VString s \<Rightarrow> s = [] | VArray a \<Rightarrow> a = [] | _ \<Rightarrow> False)"

definition fn_is_number :: "'f expr_value list \<Rightarrow> 'f expr_value" where
  "fn_is_number v = value_of_bool (case v ! 0 of VInteger _ \<Rightarrow> True | VFloat _ \<Rightarrow> True | _ \<Rightarrow> False)"

definition fn_is_ip :: "'f text_env \<Rightarrow> (bool \<Rightarrow> bool) \<Rightarrow> 'f expr_value list \<Rightarrow> 'f expr_value" where
  "fn_is_ip env ok v =
    value_of_bool (case parse_ip env (into_string (text_floats env) (v ! 0)) of Some v4 \<Rightarrow> ok v4 | None \<Rightarrow> False)"

definition fn_ip_reverse_name :: "'f text_env \<Rightarrow> 'f expr_value list \<Rightarrow> 'f expr_value" where
  "fn_ip_reverse_name env v =
    (let s = into_string (text_floats env) (v ! 0) in
     VString (case parse_ip env s of Some _ \<Rightarrow> reverse_name env s | None \<Rightarrow> []))"

definition fn_if_then :: "'f text_env \<Rightarrow> 'f expr_value list \<Rightarrow> 'f expr_value" where
  "fn_if_then env v = (if to_bool (text_floats env) (v ! 0) then v ! 1 else v ! 2)"

section \<open>Text\<close>

definition on_text :: "'f text_env \<Rightarrow> (string \<Rightarrow> 'f expr_value) \<Rightarrow> 'f expr_value list \<Rightarrow> 'f expr_value" where
  "on_text env f v = transform (text_floats env) f (v ! 0)"

definition arg :: "'f text_env \<Rightarrow> 'f expr_value list \<Rightarrow> nat \<Rightarrow> string" where
  "arg env v i = into_string (text_floats env) (v ! i)"

definition fn_trim :: "'f text_env \<Rightarrow> 'f expr_value list \<Rightarrow> 'f expr_value" where
  "fn_trim env = on_text env (\<lambda>s. VString (trim s))"

definition fn_trim_end :: "'f text_env \<Rightarrow> 'f expr_value list \<Rightarrow> 'f expr_value" where
  "fn_trim_end env = on_text env (\<lambda>s. VString (trim_end s))"

definition fn_trim_start :: "'f text_env \<Rightarrow> 'f expr_value list \<Rightarrow> 'f expr_value" where
  "fn_trim_start env = on_text env (\<lambda>s. VString (trim_start s))"

definition fn_len :: "'f text_env \<Rightarrow> 'f expr_value list \<Rightarrow> 'f expr_value" where
  "fn_len env v = value_of_nat (case v ! 0 of VArray a \<Rightarrow> length a | _ \<Rightarrow> length (arg env v 0))"

definition fn_to_lowercase :: "'f text_env \<Rightarrow> 'f expr_value list \<Rightarrow> 'f expr_value" where
  "fn_to_lowercase env = on_text env (\<lambda>s. VString (str_to_lowercase env s))"

definition fn_to_uppercase :: "'f text_env \<Rightarrow> 'f expr_value list \<Rightarrow> 'f expr_value" where
  "fn_to_uppercase env = on_text env (\<lambda>s. VString (str_to_uppercase env s))"

definition fn_is_uppercase :: "'f text_env \<Rightarrow> 'f expr_value list \<Rightarrow> 'f expr_value" where
  "fn_is_uppercase env = on_text env (\<lambda>s. value_of_bool (list_all (is_uppercase env) (filter (is_alphabetic env) (str_chars s))))"

definition fn_is_lowercase :: "'f text_env \<Rightarrow> 'f expr_value list \<Rightarrow> 'f expr_value" where
  "fn_is_lowercase env = on_text env (\<lambda>s. value_of_bool (list_all (is_lowercase env) (filter (is_alphabetic env) (str_chars s))))"

definition fn_has_digits :: "'f text_env \<Rightarrow> 'f expr_value list \<Rightarrow> 'f expr_value" where
  "fn_has_digits env = on_text env (\<lambda>s. value_of_bool (list_ex is_ascii_digit s))"

definition fn_split_words :: "'f text_env \<Rightarrow> 'f expr_value list \<Rightarrow> 'f expr_value" where
  "fn_split_words env v =
    VArray (map VString (filter (\<lambda>w. list_all (is_alphanumeric env) (str_chars w)) (split_whitespace (arg env v 0))))"

definition count_chars_where :: "(string \<Rightarrow> bool) \<Rightarrow> string \<Rightarrow> 'f expr_value" where
  "count_chars_where P s = value_of_nat (length (filter P (str_chars s)))"

definition fn_count_spaces :: "'f text_env \<Rightarrow> 'f expr_value list \<Rightarrow> 'f expr_value" where
  "fn_count_spaces env v = count_chars_where is_white (arg env v 0)"

definition fn_count_uppercase :: "'f text_env \<Rightarrow> 'f expr_value list \<Rightarrow> 'f expr_value" where
  "fn_count_uppercase env v = count_chars_where (\<lambda>c. is_alphabetic env c \<and> is_uppercase env c) (arg env v 0)"

definition fn_count_lowercase :: "'f text_env \<Rightarrow> 'f expr_value list \<Rightarrow> 'f expr_value" where
  "fn_count_lowercase env v = count_chars_where (\<lambda>c. is_alphabetic env c \<and> is_lowercase env c) (arg env v 0)"

definition fn_count_chars :: "'f text_env \<Rightarrow> 'f expr_value list \<Rightarrow> 'f expr_value" where
  "fn_count_chars env v = count_chars_where (\<lambda>_. True) (arg env v 0)"

definition fn_eq_ignore_case :: "'f text_env \<Rightarrow> 'f expr_value list \<Rightarrow> 'f expr_value" where
  "fn_eq_ignore_case env v = value_of_bool (eq_ignore_ascii_case (arg env v 0) (arg env v 1))"

definition fn_contains :: "'f text_env \<Rightarrow> 'f expr_value list \<Rightarrow> 'f expr_value" where
  "fn_contains env v =
    value_of_bool
      (case v ! 0 of VArray a \<Rightarrow> array_contains (text_floats env) a (v ! 1) | _ \<Rightarrow> str_contains (arg env v 1) (arg env v 0))"

definition fn_contains_ignore_case :: "'f text_env \<Rightarrow> 'f expr_value list \<Rightarrow> 'f expr_value" where
  "fn_contains_ignore_case env v =
    (let needle = arg env v 1 in
     value_of_bool
       (case v ! 0 of
          VString s \<Rightarrow> str_contains (str_to_lowercase env needle) (str_to_lowercase env s)
        | VArray a \<Rightarrow> list_ex (\<lambda>x. case x of VString s \<Rightarrow> eq_ignore_ascii_case s needle | _ \<Rightarrow> False) a
        | _ \<Rightarrow> str_contains needle (arg env v 0)))"

definition fn_starts_with :: "'f text_env \<Rightarrow> 'f expr_value list \<Rightarrow> 'f expr_value" where
  "fn_starts_with env v = value_of_bool (starts_with (arg env v 1) (arg env v 0))"

definition fn_ends_with :: "'f text_env \<Rightarrow> 'f expr_value list \<Rightarrow> 'f expr_value" where
  "fn_ends_with env v = value_of_bool (ends_with (arg env v 1) (arg env v 0))"

definition fn_lines :: "'f expr_value list \<Rightarrow> 'f expr_value" where
  "fn_lines v = (case v ! 0 of VString s \<Rightarrow> VArray (map VString (str_lines s)) | v \<Rightarrow> v)"

definition usize_arg :: "'f text_env \<Rightarrow> 'f expr_value \<Rightarrow> nat" where
  "usize_arg env v = (case to_usize (text_floats env) v of Some n \<Rightarrow> unat n | None \<Rightarrow> 0)"

definition fn_substring :: "'f text_env \<Rightarrow> 'f expr_value list \<Rightarrow> 'f expr_value" where
  "fn_substring env v =
    VString (concat (take (usize_arg env (v ! 2)) (drop (usize_arg env (v ! 1)) (str_chars (arg env v 0)))))"

definition string_or_empty :: "string option \<Rightarrow> 'f expr_value" where
  "string_or_empty o' = (case o' of Some s \<Rightarrow> VString s | None \<Rightarrow> default_value)"

definition fn_strip_prefix :: "'f text_env \<Rightarrow> 'f expr_value list \<Rightarrow> 'f expr_value" where
  "fn_strip_prefix env v = on_text env (\<lambda>s. string_or_empty (strip_prefix (arg env v 1) s)) v"

definition fn_strip_suffix :: "'f text_env \<Rightarrow> 'f expr_value list \<Rightarrow> 'f expr_value" where
  "fn_strip_suffix env v = on_text env (\<lambda>s. string_or_empty (strip_suffix (arg env v 1) s)) v"

definition fn_split :: "'f text_env \<Rightarrow> 'f expr_value list \<Rightarrow> 'f expr_value" where
  "fn_split env v = VArray (map VString (str_split (arg env v 1) (arg env v 0)))"

definition fn_rsplit :: "'f text_env \<Rightarrow> 'f expr_value list \<Rightarrow> 'f expr_value" where
  "fn_rsplit env v = VArray (map VString (str_rsplit (arg env v 1) (arg env v 0)))"

definition fn_split_n :: "'f text_env \<Rightarrow> 'f expr_value list \<Rightarrow> 'f expr_value" where
  "fn_split_n env v =
    VArray (map VString (split_n (arg env v 1)
      (unat (case to_integer (text_floats env) (v ! 2) of Some n \<Rightarrow> n | None \<Rightarrow> 0)) (arg env v 0)))"

definition two_parts :: "(string \<times> string) option \<Rightarrow> 'f expr_value" where
  "two_parts o' = (case o' of Some (a, b) \<Rightarrow> VArray [VString a, VString b] | None \<Rightarrow> default_value)"

definition fn_split_once :: "'f text_env \<Rightarrow> 'f expr_value list \<Rightarrow> 'f expr_value" where
  "fn_split_once env v = two_parts (str_split_once (arg env v 1) (arg env v 0))"

definition fn_rsplit_once :: "'f text_env \<Rightarrow> 'f expr_value list \<Rightarrow> 'f expr_value" where
  "fn_rsplit_once env v = two_parts (str_rsplit_once (arg env v 1) (arg env v 0))"

definition fn_hash :: "'f text_env \<Rightarrow> 'f expr_value list \<Rightarrow> 'f expr_value" where
  "fn_hash env v =
    (let algo = arg env v 1 in
     if algo = ''md5'' \<or> algo = ''sha1'' \<or> algo = ''sha256'' \<or> algo = ''sha512'' then VString (hex_hash env algo (arg env v 0))
     else default_value)"

section \<open>The table\<close>

definition function_table :: "'f text_env \<Rightarrow> (string \<times> ('f expr_value list \<Rightarrow> 'f expr_value)) list" where
  "function_table env =
    [(''count'', fn_count), (''sort'', fn_sort env), (''dedup'', fn_dedup env), (''winnow'', fn_winnow),
     (''is_intersect'', fn_is_intersect env), (''is_email'', fn_is_email env), (''email_part'', fn_email_part env),
     (''is_empty'', fn_is_empty), (''is_number'', fn_is_number), (''is_ip_addr'', fn_is_ip env (\<lambda>_. True)),
     (''is_ipv4_addr'', fn_is_ip env (\<lambda>v4. v4)), (''is_ipv6_addr'', fn_is_ip env (\<lambda>v4. \<not> v4)),
     (''ip_reverse_name'', fn_ip_reverse_name env), (''trim'', fn_trim env), (''trim_end'', fn_trim_end env),
     (''trim_start'', fn_trim_start env), (''len'', fn_len env), (''to_lowercase'', fn_to_lowercase env),
     (''to_uppercase'', fn_to_uppercase env), (''is_uppercase'', fn_is_uppercase env), (''is_lowercase'', fn_is_lowercase env),
     (''has_digits'', fn_has_digits env), (''count_spaces'', fn_count_spaces env), (''count_uppercase'', fn_count_uppercase env),
     (''count_lowercase'', fn_count_lowercase env), (''count_chars'', fn_count_chars env), (''contains'', fn_contains env),
     (''contains_ignore_case'', fn_contains_ignore_case env), (''eq_ignore_case'', fn_eq_ignore_case env),
     (''starts_with'', fn_starts_with env), (''ends_with'', fn_ends_with env), (''lines'', fn_lines),
     (''substring'', fn_substring env), (''strip_prefix'', fn_strip_prefix env), (''strip_suffix'', fn_strip_suffix env),
     (''split'', fn_split env), (''rsplit'', fn_rsplit env), (''split_once'', fn_split_once env),
     (''rsplit_once'', fn_rsplit_once env), (''split_n'', fn_split_n env), (''split_words'', fn_split_words env),
     (''hash'', fn_hash env), (''if_then'', fn_if_then env)]"

text \<open>The names that the tokenizer numbers are those of the table.\<close>

lemma function_table_names: "map fst (function_table env) = map fst FUNCTIONS"
  by (simp add: function_table_def FUNCTIONS_def)

section \<open>Splitting\<close>

lemma str_split_at_joined: "concat (map (\<lambda>s. s @ p) (butlast (str_split_at p s))) @ last (str_split_at p s) = s \<and> str_split_at p s \<noteq> []"
proof (induction p s rule: str_split_at.induct)
  case (1 p s)
  show ?case
  proof (cases "p = [] \<or> str_split_once p s = None")
    case True
    then show ?thesis by (subst (1 2 3) str_split_at.simps) auto
  next
    case False
    then obtain a b where s: "str_split_once p s = Some (a, b)" "p \<noteq> []" by auto
    then have "str_split_at p s = a # str_split_at p b" by (subst str_split_at.simps) simp
    with "1.IH" [OF s(2) s(1) refl] str_split_once_parts [OF s(1)] show ?thesis by auto
  qed
qed

text \<open>
  Splitting loses nothing: the parts that \<open>split\<close> yields, put together again with the separator, are
  the text that was split.
\<close>

theorem split_join:
  assumes "p \<noteq> []"
  shows "concat (map (\<lambda>s. s @ p) (butlast (str_split p s))) @ last (str_split p s) = s"
  using str_split_at_joined [of p s] assms by (simp add: str_split_def)

theorem split_join_witness:
  "concat (map (\<lambda>s. s @ '', '') (butlast (str_split '', '' ''a, b,c''))) @ last (str_split '', '' ''a, b,c'') = ''a, b,c''"
  by (rule split_join) simp

text \<open>The flag of \<open>sort\<close> that asks for the ascending order yields the descending one.\<close>

lemma sort_flag_reversed:
  "fn_sort env [VArray l, VInteger 1] = VArray (sort_by env (\<lambda>a b. value_cmp (text_floats env) b a) l)"
  by (simp add: fn_sort_def into_array_def)

end
