(* ===== verification/Smtp_Settings.thy ===== *)
theory Smtp_Settings
  imports Expr_Functions
begin

text \<open>
  The settings of an SMTP session (\<open>crates/common/src/config/smtp/session.rs\<close>): their names, the
  expressions that they have by default, how those are compiled (\<open>IfBlock::new\<close> and the builders of
  \<open>TokenMap\<close>), and how a value becomes a switch, a number, a duration, a rate or a set of mechanisms
  (\<open>crates/common/src/expr/mod.rs\<close>, \<open>eval.rs\<close>).
\<close>

section \<open>Variables and constants\<close>

definition VARIABLES_MAP :: "(string \<times> u32) list" where
  "VARIABLES_MAP =
    [(''rcpt'', 0), (''rcpt_domain'', 1), (''sender'', 2), (''sender_domain'', 3), (''mx'', 4), (''helo_domain'', 5),
     (''authenticated_as'', 6), (''listener'', 7), (''remote_ip'', 8), (''local_ip'', 10), (''priority'', 12),
     (''local_port'', 11), (''remote_port'', 9), (''protocol'', 13), (''is_tls'', 14), (''recipients'', 15),
     (''retry_num'', 16), (''notify_num'', 17), (''expires_in'', 18), (''last_status'', 19), (''last_error'', 20),
     (''url'', 21), (''url_path'', 22), (''headers'', 23), (''method'', 24), (''asn'', 25), (''country'', 26),
     (''received_via_port'', 27), (''received_from_ip'', 28), (''queue_name'', 29), (''source'', 30), (''size'', 31),
     (''queue_age'', 32)]"

type_synonym ('f, 'r) names = "string \<Rightarrow> ('f, 'r) expr_token option"

definition with_variables :: "u32 list \<Rightarrow> ('f, 'r) names \<Rightarrow> ('f, 'r) names" where
  "with_variables vars m = fold (\<lambda>(name, i) m. if i \<in> set vars then m(name \<mapsto> TVariable i) else m) VARIABLES_MAP m"

definition with_all_variables :: "('f, 'r) names \<Rightarrow> ('f, 'r) names" where
  "with_all_variables =
    with_variables [0, 1, 2, 3, 4, 5, 6, 7, 8, 9, 10, 11, 12, 13, 14, 16, 17, 18, 19, 20, 29, 32, 25, 26, 28, 27, 30, 31]"

definition with_variables_map :: "(string \<times> u32) list \<Rightarrow> ('f, 'r) names \<Rightarrow> ('f, 'r) names" where
  "with_variables_map vars m = fold (\<lambda>(name, i) m. m(name \<mapsto> TVariable i)) vars m"

definition add_constant :: "string \<Rightarrow> 'f expr_const \<Rightarrow> ('f, 'r) names \<Rightarrow> ('f, 'r) names" where
  "add_constant name c m = m(name \<mapsto> TConstant c)"

definition set_constants :: "(string \<times> 'f expr_const) list \<Rightarrow> ('f, 'r) names \<Rightarrow> ('f, 'r) names" where
  "set_constants cs m = fold (\<lambda>(name, c) m. m(name \<mapsto> TConstant c)) cs m"

text \<open>The numbers of the mechanisms come from the \<open>smtp-proto\<close> package.\<close>

record mechanism_bits =
  MECH_LOGIN :: u64
  MECH_PLAIN :: u64
  MECH_XOAUTH2 :: u64
  MECH_OAUTHBEARER :: u64

definition mechanism_constants :: "mechanism_bits \<Rightarrow> ('f, 'r) names \<Rightarrow> ('f, 'r) names" where
  "mechanism_constants b m =
    add_constant ''oauthbearer'' (CInteger (MECH_OAUTHBEARER b))
      (add_constant ''xoauth2'' (CInteger (MECH_XOAUTH2 b))
        (add_constant ''plain'' (CInteger (MECH_PLAIN b)) (add_constant ''login'' (CInteger (MECH_LOGIN b)) m)))"

datatype mt_priority = Mixer | Stanag4406 | Nsep

fun const_of_mt_priority :: "mt_priority \<Rightarrow> 'f expr_const" where
  "const_of_mt_priority Mixer = CInteger 2"
| "const_of_mt_priority Stanag4406 = CInteger 3"
| "const_of_mt_priority Nsep = CInteger 4"

definition mt_priority_constants :: "('f, 'r) names \<Rightarrow> ('f, 'r) names" where
  "mt_priority_constants m =
    add_constant ''nsep'' (const_of_mt_priority Nsep)
      (add_constant ''stanag4406'' (const_of_mt_priority Stanag4406) (add_constant ''mixer'' (const_of_mt_priority Mixer) m))"

section \<open>Blocks\<close>

text \<open>\<open>IfBlock::new\<close>: \<open>None\<close> is the panic of \<open>unwrap\<close> on a text that does not parse.\<close>

definition parse_unwrap :: "('f, 'r) token_env \<Rightarrow> string \<Rightarrow> ('f, 'r) expr_item list option" where
  "parse_unwrap env s = (case parse_expression env s of Some (Inr is) \<Rightarrow> Some is | _ \<Rightarrow> None)"

fun parse_conditions ::
  "('f, 'r) token_env \<Rightarrow> (string \<times> string) list \<Rightarrow> (('f, 'r) expr_item list \<times> ('f, 'r) expr_item list) list option" where
  "parse_conditions env [] = Some []"
| "parse_conditions env ((c, t) # cs) =
    (case parse_unwrap env c of
       None \<Rightarrow> None
     | Some c \<Rightarrow>
        (case parse_unwrap env t of
           None \<Rightarrow> None | Some t \<Rightarrow> map_option (\<lambda>cs. (c, t) # cs) (parse_conditions env cs)))"

definition if_block_new ::
  "('f, 'r) token_env \<Rightarrow> (('f, 'r) names \<Rightarrow> ('f, 'r) names) \<Rightarrow> (string \<times> string) list \<Rightarrow> string \<Rightarrow> ('f, 'r) if_block option" where
  "if_block_new env constants if_thens dflt =
    (let env = env\<lparr>token_map := constants (with_all_variables (\<lambda>_. None))\<rparr> in
     case parse_conditions env if_thens of
       None \<Rightarrow> None
     | Some cs \<Rightarrow> map_option (\<lambda>d. \<lparr>if_then = cs, if_default = d\<rparr>) (parse_unwrap env dflt))"

definition if_block_empty :: "('f, 'r) if_block" where
  "if_block_empty = \<lparr>if_then = [], if_default = []\<rparr>"

definition if_block_is_empty :: "('f, 'r) if_block \<Rightarrow> bool" where
  "if_block_is_empty b \<longleftrightarrow> if_default b = [] \<and> if_then b = []"

section \<open>Values of settings\<close>

definition conv_bool :: "'f floats \<Rightarrow> 'f expr_value \<Rightarrow> bool option" where
  "conv_bool fl v = Some (to_bool fl v)"

definition conv_string :: "'f expr_value \<Rightarrow> string option" where
  "conv_string v = (case v of VString s \<Rightarrow> Some s | _ \<Rightarrow> None)"

text \<open>Durations in milliseconds.\<close>

definition conv_duration :: "'f floats \<Rightarrow> 'f expr_value \<Rightarrow> u64 option" where
  "conv_duration fl v =
    (case v of
       VInteger i \<Rightarrow> if 0 <s i then Some i else None
     | VFloat f \<Rightarrow> if f_less fl (f_zero fl) f then Some (f_to_usize fl f) else None
     | VString s \<Rightarrow> if s \<noteq> [] then parse_duration s else None
     | VArray _ \<Rightarrow> None)"

definition as_secs :: "u64 \<Rightarrow> u64" where
  "as_secs ms = ms div 1000"

definition conv_rate :: "'f floats \<Rightarrow> 'f expr_value \<Rightarrow> (u64 \<times> u64) option" where
  "conv_rate fl v =
    (case v of
       VArray [a, b] \<Rightarrow>
         (case to_integer fl a of
            None \<Rightarrow> None
          | Some n \<Rightarrow>
             (case to_integer fl b of
                None \<Rightarrow> None | Some p \<Rightarrow> if 0 <s n \<and> 0 <s p then Some (n, p) else None))
     | _ \<Rightarrow> None)"

fun mechanism_or :: "'f expr_value list \<Rightarrow> u64 \<Rightarrow> u64 option" where
  "mechanism_or [] m = Some m"
| "mechanism_or (VInteger i # vs) m = mechanism_or vs (m OR i)"
| "mechanism_or (_ # vs) m = None"

definition conv_mechanism :: "'f expr_value \<Rightarrow> u64 option" where
  "conv_mechanism v = (case v of VInteger i \<Rightarrow> Some i | VArray vs \<Rightarrow> mechanism_or vs 0 | _ \<Rightarrow> None)"

definition parse_mt_priority :: "string \<Rightarrow> mt_priority option" where
  "parse_mt_priority s =
    (let s = map to_ascii_lowercase s in
     if s = ''mixer'' then Some Mixer else if s = ''stanag4406'' then Some Stanag4406 else if s = ''nsep'' then Some Nsep else None)"

definition conv_mt_priority :: "'f expr_value \<Rightarrow> mt_priority option" where
  "conv_mt_priority v =
    (case v of
       VInteger i \<Rightarrow> if i = 2 then Some Mixer else if i = 3 then Some Stanag4406 else if i = 4 then Some Nsep else None
     | VString s \<Rightarrow> parse_mt_priority s
     | _ \<Rightarrow> None)"

datatype verify_strategy = Relaxed | Strict | VerifyDisable

definition verifies :: "verify_strategy \<Rightarrow> bool" where
  "verifies v \<longleftrightarrow> v = Strict \<or> v = Relaxed"

definition is_strict :: "verify_strategy \<Rightarrow> bool" where
  "is_strict v \<longleftrightarrow> v = Strict"

definition conv_verify_strategy :: "'f expr_value \<Rightarrow> verify_strategy option" where
  "conv_verify_strategy v =
    (case v of
       VInteger i \<Rightarrow> if i = 2 then Some Relaxed else if i = 3 then Some Strict else if i = 4 then Some VerifyDisable else None
     | _ \<Rightarrow> None)"

definition verify_constants :: "('f, 'r) names \<Rightarrow> ('f, 'r) names" where
  "verify_constants m =
    add_constant ''none'' (CInteger 4) (add_constant ''never'' (CInteger 4) (add_constant ''disabled'' (CInteger 4)
      (add_constant ''disable'' (CInteger 4) (add_constant ''strict'' (CInteger 3) (add_constant ''relaxed'' (CInteger 2) m)))))"

section \<open>The settings and their defaults\<close>

datatype session_setting =
    SessionTimeout | SessionDuration | TransferLimit | ConnectHostname | ConnectScript | ConnectGreeting
  | EhloScript | EhloRequire | EhloRejectNonFqdn | AuthDirectory | AuthMechanisms | AuthRequire
  | AuthMustMatchSender | AuthErrorsMax | AuthErrorsWait | MailScript | MailRewrite | MailIsAllowed
  | RcptScript | RcptRelay | RcptDirectory | RcptRewrite | RcptErrorsMax | RcptErrorsWait | RcptMaxRecipients
  | DataScript | DataSpamFilter | DataMaxMessages | DataMaxMessageSize | DataMaxReceivedHeaders
  | DataAddReceived | DataAddReceivedSpf | DataAddReturnPath | DataAddAuthResults | DataAddMessageId
  | DataAddDate | ExtPipelining | ExtChunking | ExtRequiretls | ExtDsn | ExtVrfy | ExtExpn | ExtNoSoliciting
  | ExtFutureRelease | ExtDeliverBy | ExtMtPriority

datatype mail_auth_setting =
    DkimVerify | DkimSign | ArcVerify | ArcSeal | SpfVerifyEhlo | SpfVerifyMailFrom | DmarcVerify
  | IprevVerify

text \<open>The type that the source gives to a block decides which constants its expressions can name.\<close>

datatype constant_type = UnitConstants | MechanismConstants | MtPriorityConstants | VerifyConstants

fun constants_of :: "mechanism_bits \<Rightarrow> constant_type \<Rightarrow> ('f, 'r) names \<Rightarrow> ('f, 'r) names" where
  "constants_of b UnitConstants = id"
| "constants_of b MechanismConstants = mechanism_constants b"
| "constants_of b MtPriorityConstants = mt_priority_constants"
| "constants_of b VerifyConstants = verify_constants"

type_synonym default_text = "constant_type \<times> (string \<times> string) list \<times> string"

text \<open>\<open>Default\<close> of \<open>SessionConfig\<close> and of \<open>MailAuthConfig\<close>, without \<open>test_mode\<close>.\<close>

fun session_default :: "session_setting \<Rightarrow> default_text option" where
  "session_default SessionTimeout = Some (UnitConstants, [], ''5m'')"
| "session_default SessionDuration = Some (UnitConstants, [], ''10m'')"
| "session_default TransferLimit = Some (UnitConstants, [], ''262144000'')"
| "session_default ConnectHostname = Some (UnitConstants, [], ''config_get('' @ [CHR 0x27] @ ''server.hostname'' @ [CHR 0x27] @ '')'')"
| "session_default ConnectScript = None"
| "session_default ConnectGreeting = Some (UnitConstants, [], ''config_get('' @ [CHR 0x27] @ ''server.hostname'' @ [CHR 0x27] @ '') + '' @ [CHR 0x27] @ '' Stalwart ESMTP at your service'' @ [CHR 0x27])"
| "session_default EhloScript = None"
| "session_default EhloRequire = Some (UnitConstants, [], ''true'')"
| "session_default EhloRejectNonFqdn = Some (UnitConstants, [(''local_port == 25'', ''true'')], ''false'')"
| "session_default AuthDirectory = Some (UnitConstants, [(''local_port != 25'', [CHR 0x27] @ ''*'' @ [CHR 0x27])], ''false'')"
| "session_default AuthMechanisms = Some (MechanismConstants, [(''local_port != 25 && is_tls'', ''[plain, login, oauthbearer, xoauth2]''), (''local_port != 25'', ''[oauthbearer, xoauth2]'')], ''false'')"
| "session_default AuthRequire = Some (UnitConstants, [(''local_port != 25'', ''true'')], ''false'')"
| "session_default AuthMustMatchSender = Some (UnitConstants, [], ''true'')"
| "session_default AuthErrorsMax = Some (UnitConstants, [], ''3'')"
| "session_default AuthErrorsWait = Some (UnitConstants, [], ''5s'')"
| "session_default MailScript = None"
| "session_default MailRewrite = None"
| "session_default MailIsAllowed = Some (UnitConstants, [], ''!is_empty(authenticated_as) || !key_exists('' @ [CHR 0x27] @ ''blocked-domains'' @ [CHR 0x27] @ '', sender_domain)'')"
| "session_default RcptScript = None"
| "session_default RcptRelay = Some (UnitConstants, [(''!is_empty(authenticated_as)'', ''true'')], ''false'')"
| "session_default RcptDirectory = Some (UnitConstants, [], [CHR 0x27] @ ''*'' @ [CHR 0x27])"
| "session_default RcptRewrite = None"
| "session_default RcptErrorsMax = Some (UnitConstants, [], ''5'')"
| "session_default RcptErrorsWait = Some (UnitConstants, [], ''5s'')"
| "session_default RcptMaxRecipients = Some (UnitConstants, [], ''100'')"
| "session_default DataScript = None"
| "session_default DataSpamFilter = Some (UnitConstants, [], ''true'')"
| "session_default DataMaxMessages = Some (UnitConstants, [], ''10'')"
| "session_default DataMaxMessageSize = Some (UnitConstants, [], ''104857600'')"
| "session_default DataMaxReceivedHeaders = Some (UnitConstants, [], ''50'')"
| "session_default DataAddReceived = Some (UnitConstants, [(''local_port == 25'', ''true'')], ''false'')"
| "session_default DataAddReceivedSpf = Some (UnitConstants, [(''local_port == 25'', ''true'')], ''false'')"
| "session_default DataAddReturnPath = Some (UnitConstants, [(''local_port == 25'', ''true'')], ''false'')"
| "session_default DataAddAuthResults = Some (UnitConstants, [(''local_port == 25'', ''true'')], ''false'')"
| "session_default DataAddMessageId = Some (UnitConstants, [(''local_port == 25'', ''true'')], ''false'')"
| "session_default DataAddDate = Some (UnitConstants, [(''local_port == 25'', ''true'')], ''false'')"
| "session_default ExtPipelining = Some (UnitConstants, [], ''true'')"
| "session_default ExtChunking = Some (UnitConstants, [], ''true'')"
| "session_default ExtRequiretls = Some (UnitConstants, [], ''true'')"
| "session_default ExtDsn = Some (UnitConstants, [(''!is_empty(authenticated_as)'', ''true'')], ''false'')"
| "session_default ExtVrfy = Some (UnitConstants, [(''!is_empty(authenticated_as)'', ''true'')], ''false'')"
| "session_default ExtExpn = Some (UnitConstants, [(''!is_empty(authenticated_as)'', ''true'')], ''false'')"
| "session_default ExtNoSoliciting = Some (UnitConstants, [], [CHR 0x27] @ [CHR 0x27])"
| "session_default ExtFutureRelease = Some (UnitConstants, [(''!is_empty(authenticated_as)'', ''7d'')], ''false'')"
| "session_default ExtDeliverBy = Some (UnitConstants, [(''!is_empty(authenticated_as)'', ''15d'')], ''false'')"
| "session_default ExtMtPriority = Some (MtPriorityConstants, [(''!is_empty(authenticated_as)'', ''mixer'')], ''false'')"

fun mail_auth_default :: "mail_auth_setting \<Rightarrow> default_text option" where
  "mail_auth_default DkimVerify = Some (VerifyConstants, [], ''relaxed'')"
| "mail_auth_default DkimSign = Some (UnitConstants, [(''is_local_domain('' @ [CHR 0x27] @ ''*'' @ [CHR 0x27] @ '', sender_domain)'', ''['' @ [CHR 0x27] @ ''rsa-'' @ [CHR 0x27] @ '' + sender_domain, '' @ [CHR 0x27] @ ''ed25519-'' @ [CHR 0x27] @ '' + sender_domain]'')], ''false'')"
| "mail_auth_default ArcVerify = Some (VerifyConstants, [], ''relaxed'')"
| "mail_auth_default ArcSeal = Some (UnitConstants, [], [CHR 0x27] @ ''rsa-'' @ [CHR 0x27] @ '' + config_get('' @ [CHR 0x27] @ ''report.domain'' @ [CHR 0x27] @ '')'')"
| "mail_auth_default SpfVerifyEhlo = Some (VerifyConstants, [(''local_port == 25'', ''relaxed'')], ''disable'')"
| "mail_auth_default SpfVerifyMailFrom = Some (VerifyConstants, [(''local_port == 25'', ''relaxed'')], ''disable'')"
| "mail_auth_default DmarcVerify = Some (VerifyConstants, [(''local_port == 25'', ''relaxed'')], ''disable'')"
| "mail_auth_default IprevVerify = Some (VerifyConstants, [(''local_port == 25'', ''relaxed'')], ''disable'')"

definition default_block :: "('f, 'r) token_env \<Rightarrow> mechanism_bits \<Rightarrow> default_text option \<Rightarrow> ('f, 'r) if_block option" where
  "default_block env b t =
    (case t of None \<Rightarrow> Some if_block_empty | Some (c, conds, dflt) \<Rightarrow> if_block_new env (constants_of b c) conds dflt)"

end
