(* ===== verification/Inbound_State.thy ===== *)
theory Inbound_State
  imports Smtp_Settings Queue_Limits
begin

text \<open>
  The state of an inbound SMTP or LMTP session (\<open>crates/smtp/src/core/mod.rs\<close>), the server around it
  as far as a session uses it, the variables of its expressions (\<open>crates/smtp/src/inbound/session.rs\<close>),
  its parameters (\<open>crates/smtp/src/core/params.rs\<close>), the rate limits of inbound mail
  (\<open>crates/smtp/src/core/throttle.rs\<close>) and the addresses of recipients
  (\<open>crates/common/src/addresses.rs\<close>).

  What a session asks of others is a field of \<open>inbound_env\<close>: DNS and mail authentication, scripts,
  milters and hooks, directories, the clock, the hash of keys. Each may read and change the state of
  the server, of which the lookup store and the spool are modelled.
\<close>

section \<open>Addresses and accounts\<close>

record session_address =
  addr :: string
  addr_lcase :: string
  addr_domain :: string
  addr_flags :: u64
  addr_dsn :: "string option"

text \<open>\<open>PartialEq\<close> and \<open>Ord\<close> of \<open>SessionAddress\<close>.\<close>

definition same_address :: "session_address \<Rightarrow> session_address \<Rightarrow> bool" where
  "same_address a b \<longleftrightarrow> addr_lcase a = addr_lcase b"

definition address_le :: "session_address \<Rightarrow> session_address \<Rightarrow> bool" where
  "address_le a b \<longleftrightarrow>
    (case string_cmp (addr_domain a) (addr_domain b) of
       Equal \<Rightarrow> string_cmp (addr_lcase a) (addr_lcase b) \<noteq> Greater | c \<Rightarrow> c = Less)"

definition session_address_new :: "(string \<Rightarrow> string) \<Rightarrow> string \<Rightarrow> session_address" where
  "session_address_new lowercase a =
    \<lparr>addr = a, addr_lcase = lowercase a, addr_domain = domain_part (lowercase a), addr_flags = 0, addr_dsn = None\<rparr>"

record access_token =
  token_name :: string
  token_emails :: "string list"

section \<open>State\<close>

datatype server_protocol = ProtoSmtp | ProtoLmtp

fun protocol_str :: "server_protocol \<Rightarrow> string" where
  "protocol_str ProtoSmtp = ''smtp''"
| "protocol_str ProtoLmtp = ''lmtp''"

datatype spf_result = SpfPass | SpfFail | SpfSoftFail | SpfNeutral | SpfTempError | SpfPermError | SpfNone

record spf_output =
  spf_result :: spf_result
  spf_report_address :: "string option"

datatype iprev_result = IprevPass | IprevFail | IprevTempError | IprevPermError | IprevNone

record iprev_output =
  iprev_result :: iprev_result
  iprev_ptr :: "string list option"

record session_params =
  timeout :: u64
  ehlo_require :: bool
  ehlo_reject_non_fqdn :: bool
  auth_directory :: "nat option"
  auth_require :: bool
  auth_errors_max :: u64
  auth_errors_wait :: u64
  rcpt_errors_max :: u64
  rcpt_errors_wait :: u64
  rcpt_max :: u64
  rcpt_dsn :: bool
  can_expn :: bool
  can_vrfy :: bool
  max_message_size :: u64
  verify_iprev :: verify_strategy
  verify_spf_ehlo :: verify_strategy
  verify_spf_mail :: verify_strategy

record session =
  session_hostname :: string
  instance_id :: string
  protocol :: server_protocol
  has_tls :: bool
  is_tls :: bool
  local_ip_str :: string
  remote_ip_str :: string
  local_port :: u64
  remote_port :: u64
  remote_ip :: ip_addr
  asn :: "(u64 \<times> string option) option"
  country :: "string option"
  helo :: string
  mail_from :: "session_address option"
  rcpt_to :: "session_address list"
  rcpt_errors :: u64
  rcpt_oks :: u64
  message_data :: string
  authenticated :: "access_token option"
  auth_errors :: u64
  mail_priority :: int
  delivery_by :: u64
  future_release :: u64
  valid_until :: u64
  bytes_left :: u64
  messages_sent :: u64
  iprev :: "iprev_output option"
  spf_ehlo :: "spf_output option"
  spf_mail_from :: "spf_output option"
  params :: session_params

definition default_params :: session_params where
  "default_params =
    \<lparr>timeout = 0, ehlo_require = False, ehlo_reject_non_fqdn = False, auth_directory = None, auth_require = False,
     auth_errors_max = 0, auth_errors_wait = 0, rcpt_errors_max = 0, rcpt_errors_wait = 0, rcpt_max = 0, rcpt_dsn = False,
     can_expn = False, can_vrfy = False, max_message_size = 0, verify_iprev = Relaxed, verify_spf_ehlo = Relaxed,
     verify_spf_mail = Relaxed\<rparr>"

record connection =
  conn_instance :: string
  conn_protocol :: server_protocol
  conn_has_tls :: bool
  conn_is_tls :: bool
  conn_local_ip :: string
  conn_remote_ip :: string
  conn_local_port :: u64
  conn_remote_port :: u64
  conn_ip :: ip_addr
  conn_asn :: "(u64 \<times> string option) option"
  conn_country :: "string option"

definition session_new :: "connection \<Rightarrow> u64 \<Rightarrow> session" where
  "session_new c now =
    \<lparr>session_hostname = [], instance_id = conn_instance c, protocol = conn_protocol c, has_tls = conn_has_tls c,
     is_tls = conn_is_tls c, local_ip_str = conn_local_ip c, remote_ip_str = conn_remote_ip c,
     local_port = conn_local_port c, remote_port = conn_remote_port c, remote_ip = conn_ip c, asn = conn_asn c,
     country = conn_country c, helo = [], mail_from = None, rcpt_to = [], rcpt_errors = 0, rcpt_oks = 0,
     message_data = [], authenticated = None, auth_errors = 0, mail_priority = 0, delivery_by = 0, future_release = 0,
     valid_until = now, bytes_left = 0, messages_sent = 0, iprev = None, spf_ehlo = None, spf_mail_from = None,
     params = default_params\<rparr>"

definition reset_session :: "session \<Rightarrow> session" where
  "reset_session s =
    s\<lparr>mail_from := None, spf_mail_from := None, rcpt_to := [], message_data := [], mail_priority := 0, delivery_by := 0,
      future_release := 0, rcpt_oks := 0\<rparr>"

definition authenticated_as :: "session \<Rightarrow> string option" where
  "authenticated_as s =
    map_option (\<lambda>t. if token_name t \<noteq> [] then token_name t else ''unavailable'') (authenticated s)"

definition is_authenticated :: "session \<Rightarrow> bool" where
  "is_authenticated s \<longleftrightarrow> authenticated s \<noteq> None"

definition authenticated_emails :: "session \<Rightarrow> string list" where
  "authenticated_emails s = (case authenticated s of Some t \<Rightarrow> token_emails t | None \<Rightarrow> [])"

section \<open>Variables\<close>

definition show_int :: "int \<Rightarrow> string" where
  "show_int i = (if i < 0 then CHR ''-'' # show_nat (nat (- i)) else show_nat (nat i))"

definition session_variable :: "session \<Rightarrow> u32 \<Rightarrow> 'f expr_value" where
  "session_variable s v =
    (if v = 0 then VString (if rcpt_to s = [] then [] else addr_lcase (last (rcpt_to s)))
     else if v = 1 then VString (if rcpt_to s = [] then [] else addr_domain (last (rcpt_to s)))
     else if v = 15 then VArray (map (\<lambda>r. VString (addr_lcase r)) (rcpt_to s))
     else if v = 2 then VString (case mail_from s of Some m \<Rightarrow> addr_lcase m | None \<Rightarrow> [])
     else if v = 3 then VString (case mail_from s of Some m \<Rightarrow> addr_domain m | None \<Rightarrow> [])
     else if v = 5 then VString (helo s)
     else if v = 6 then VString (case authenticated_as s of Some a \<Rightarrow> a | None \<Rightarrow> [])
     else if v = 7 then VString (instance_id s)
     else if v = 8 then VString (remote_ip_str s)
     else if v = 9 then VInteger (remote_port s)
     else if v = 10 then VString (local_ip_str s)
     else if v = 11 then VInteger (local_port s)
     else if v = 14 then value_of_bool (is_tls s)
     else if v = 12 then VString (show_int (mail_priority s))
     else if v = 13 then VString (protocol_str (protocol s))
     else if v = 25 then VInteger (case asn s of Some (i, _) \<Rightarrow> i | None \<Rightarrow> 0)
     else if v = 26 then VString (case country s of Some c \<Rightarrow> c | None \<Rightarrow> [])
     else default_value)"

text \<open>The variables in the keys of rate limits, by the numbers of \<open>mod.rs\<close>.\<close>

fun variable_number :: "variable \<Rightarrow> u32" where
  "variable_number V_RECIPIENT = 0"
| "variable_number V_RECIPIENT_DOMAIN = 1"
| "variable_number V_SENDER = 2"
| "variable_number V_SENDER_DOMAIN = 3"
| "variable_number V_MX = 4"
| "variable_number V_HELO_DOMAIN = 5"
| "variable_number V_AUTHENTICATED_AS = 6"
| "variable_number V_LISTENER = 7"
| "variable_number V_REMOTE_IP = 8"
| "variable_number V_LOCAL_IP = 10"

section \<open>The server\<close>

record 'x world =
  lookup_store :: database
  mail_spool :: spool_state
  outside :: 'x

datatype address_mapping_kind = MapEnable | MapDisable | MapCustom

datatype rcpt_type = RcptMailbox | RcptList "string list" | RcptInvalid

datatype script_modification = ScriptAddHeader string string | ScriptSetEnvelope string string

datatype script_result =
  ScriptAccept "script_modification list" | ScriptReplace string "script_modification list" | ScriptReject string | ScriptDiscard

record filter_response =
  filter_message :: string
  filter_disconnect :: bool

datatype modification =
    ChangeFrom string string
  | AddRcpt string string
  | DeleteRcpt string
  | ReplaceBody bytes
  | AddHeader string string
  | InsertHeader u32 string string
  | ChangeHeader u32 string string
  | Quarantine string

datatype stage = StageConnect | StageEhlo | StageAuth | StageMail | StageRcpt | StageData

text \<open>The answer to EHLO, which \<open>EhloResponse::write\<close> of the \<open>smtp-proto\<close> package writes.\<close>

datatype capability =
  EXT_ENHANCED_STATUS_CODES | EXT_8BIT_MIME | EXT_BINARY_MIME | EXT_SMTP_UTF8 | EXT_START_TLS | EXT_PIPELINING
  | EXT_CHUNKING | EXT_EXPN | EXT_VRFY | EXT_REQUIRE_TLS | EXT_DSN | EXT_AUTH | EXT_FUTURE_RELEASE | EXT_DELIVER_BY
  | EXT_MT_PRIORITY | EXT_SIZE | EXT_NO_SOLICITING

record ehlo_response =
  capabilities :: "capability list"
  auth_mechanisms :: u64
  future_release_interval :: u64
  future_release_datetime :: u64
  ehlo_deliver_by :: u64
  ehlo_mt_priority :: "mt_priority option"
  ehlo_size :: u64
  no_soliciting :: "string option"

datatype credentials = CredPlain string string | CredOAuthBearer string

datatype auth_failure = AuthFailed | TokenExpired | MissingTotp | Unauthorized | SecurityFailure | OtherFailure

record ('f, 'r, 'x) inbound_env =
  core_env :: "('f, 'r, 'x world) eval_env"
  session_config :: "session_setting \<Rightarrow> ('f, 'r) if_block"
  mail_auth_config :: "mail_auth_setting \<Rightarrow> ('f, 'r) if_block"
  spf_report_send :: "('f, 'r) if_block"
  subaddressing :: "address_mapping_kind \<times> ('f, 'r) if_block"
  catch_all :: "address_mapping_kind \<times> ('f, 'r) if_block"
  limiters_rcpt :: "('f, 'r) expr_item queue_rate_limiter list"
  limiters_sender :: "('f, 'r) expr_item queue_rate_limiter list"
  limiters_remote :: "('f, 'r) expr_item queue_rate_limiter list"
  grey_list_expiry :: "u64 option"
  hash_key :: "bytes \<Rightarrow> string"
  lowercase :: "string \<Rightarrow> string"
  read_clock :: "'x world \<Rightarrow> u64 \<times> 'x world"
  read_instant :: "'x world \<Rightarrow> u64 \<times> 'x world"
  get_directory :: "string \<Rightarrow> nat option"
  storage_directory :: nat
  dir_is_local_domain :: "nat \<Rightarrow> string \<Rightarrow> 'x world \<Rightarrow> bool option \<times> 'x world"
  dir_rcpt :: "nat \<Rightarrow> string \<Rightarrow> 'x world \<Rightarrow> rcpt_type option \<times> 'x world"
  dir_vrfy :: "nat \<Rightarrow> string \<Rightarrow> 'x world \<Rightarrow> (bool + string list) \<times> 'x world"
  dir_expn :: "nat \<Rightarrow> string \<Rightarrow> 'x world \<Rightarrow> (bool + string list) \<times> 'x world"
  server_authenticate :: "nat \<Rightarrow> credentials \<Rightarrow> session \<Rightarrow> 'x world \<Rightarrow> (auth_failure + access_token) \<times> 'x world"
  base64_decode :: "string \<Rightarrow> string option"
  has_script :: "string \<Rightarrow> bool"
  run_script :: "string \<Rightarrow> stage \<Rightarrow> session \<Rightarrow> 'x world \<Rightarrow> script_result \<times> 'x world"
  apply_envelope :: "string \<Rightarrow> string \<Rightarrow> session \<Rightarrow> session"
  run_milters :: "stage \<Rightarrow> string option \<Rightarrow> session \<Rightarrow> 'x world \<Rightarrow> (filter_response + modification list) \<times> 'x world"
  run_mta_hooks :: "stage \<Rightarrow> string option \<Rightarrow> session \<Rightarrow> 'x world \<Rightarrow> (filter_response + modification list) \<times> 'x world"
  stage_in_use :: "stage \<Rightarrow> bool"
  dns_iprev :: "session \<Rightarrow> 'x world \<Rightarrow> iprev_output \<times> 'x world"
  dns_spf_ehlo :: "session \<Rightarrow> 'x world \<Rightarrow> spf_output \<times> 'x world"
  dns_check_host :: "string \<Rightarrow> string \<Rightarrow> session \<Rightarrow> 'x world \<Rightarrow> spf_output \<times> 'x world"
  show_spf :: "spf_result \<Rightarrow> string"
  send_spf_report :: "string \<Rightarrow> u64 \<times> u64 \<Rightarrow> bool \<Rightarrow> spf_output \<Rightarrow> session \<Rightarrow> 'x world \<Rightarrow> 'x world"
  rcpt_fail2ban :: "string \<Rightarrow> session \<Rightarrow> 'x world \<Rightarrow> bool option \<times> 'x world"
  scanner_fail2ban :: "session \<Rightarrow> 'x world \<Rightarrow> bool option \<times> 'x world"
  valid_labels :: "string \<Rightarrow> bool"
  write_ehlo :: "string \<Rightarrow> ehlo_response \<Rightarrow> string"
  bytes_into_string :: "string \<Rightarrow> string"
  max_line_length :: nat
  mail_flags :: "u64 \<times> u64 \<times> u64"
  dsn_flags :: dsn_env
  mech_bits :: mechanism_bits

type_synonym 'x sess = "session \<times> 'x world"

section \<open>Settings\<close>

definition session_eval_env :: "('f, 'r, 'x) inbound_env \<Rightarrow> session \<Rightarrow> ('f, 'r, 'x world) eval_env" where
  "session_eval_env env s = (core_env env)\<lparr>resolve_var := session_variable s, resolve_global := (\<lambda>_. VInteger 0)\<rparr>"

abbreviation fl_of :: "('f, 'r, 'x) inbound_env \<Rightarrow> 'f floats" where
  "fl_of env \<equiv> floats_of (core_env env)"

definition eval_session ::
  "('f, 'r, 'x) inbound_env \<Rightarrow> ('f expr_value \<Rightarrow> 'a option) \<Rightarrow> session_setting \<Rightarrow> 'x sess \<Rightarrow> 'a option \<times> 'x world" where
  "eval_session env conv k x = eval_if (session_eval_env env (fst x)) conv (session_config env k) (snd x)"

definition eval_auth ::
  "('f, 'r, 'x) inbound_env \<Rightarrow> ('f expr_value \<Rightarrow> 'a option) \<Rightarrow> mail_auth_setting \<Rightarrow> 'x sess \<Rightarrow> 'a option \<times> 'x world" where
  "eval_auth env conv k x = eval_if (session_eval_env env (fst x)) conv (mail_auth_config env k) (snd x)"

text \<open>\<open>unwrap_or\<close>, and the conversions to the types of the fields.\<close>

definition or_else :: "'a \<Rightarrow> 'a option \<times> 'w \<Rightarrow> 'a \<times> 'w" where
  "or_else d r = (case r of (Some a, w) \<Rightarrow> (a, w) | (None, w) \<Rightarrow> (d, w))"

definition eval_bool_or :: "('f, 'r, 'x) inbound_env \<Rightarrow> session_setting \<Rightarrow> bool \<Rightarrow> 'x sess \<Rightarrow> bool \<times> 'x world" where
  "eval_bool_or env k d x = or_else d (eval_session env (conv_bool (fl_of env)) k x)"

definition eval_usize_or :: "('f, 'r, 'x) inbound_env \<Rightarrow> session_setting \<Rightarrow> u64 \<Rightarrow> 'x sess \<Rightarrow> u64 \<times> 'x world" where
  "eval_usize_or env k d x = or_else d (eval_session env (to_usize (fl_of env)) k x)"

definition eval_duration_or :: "('f, 'r, 'x) inbound_env \<Rightarrow> session_setting \<Rightarrow> u64 \<Rightarrow> 'x sess \<Rightarrow> u64 \<times> 'x world" where
  "eval_duration_or env k d x = or_else d (eval_session env (conv_duration (fl_of env)) k x)"

definition eval_verify_or :: "('f, 'r, 'x) inbound_env \<Rightarrow> mail_auth_setting \<Rightarrow> 'x sess \<Rightarrow> verify_strategy \<times> 'x world" where
  "eval_verify_or env k x = or_else Relaxed (eval_auth env conv_verify_strategy k x)"

definition eval_string :: "('f, 'r, 'x) inbound_env \<Rightarrow> session_setting \<Rightarrow> 'x sess \<Rightarrow> string option \<times> 'x world" where
  "eval_string env k x = eval_session env conv_string k x"

definition eval_directory :: "('f, 'r, 'x) inbound_env \<Rightarrow> session_setting \<Rightarrow> 'x sess \<Rightarrow> nat option \<times> 'x world" where
  "eval_directory env k x = (case eval_string env k x of (r, w) \<Rightarrow> (Option.bind r (get_directory env), w))"

definition eval_script :: "('f, 'r, 'x) inbound_env \<Rightarrow> session_setting \<Rightarrow> 'x sess \<Rightarrow> string option \<times> 'x world" where
  "eval_script env k x =
    (case eval_string env k x of (Some n, w) \<Rightarrow> (if has_script env n then Some n else None, w) | (None, w) \<Rightarrow> (None, w))"

section \<open>Parameters\<close>

text \<open>One parameter after the other, each evaluated in the session as it is by then.\<close>

definition set_param :: "('x sess \<Rightarrow> 'a \<times> 'x world) \<Rightarrow> ('a \<Rightarrow> session \<Rightarrow> session) \<Rightarrow> 'x sess \<Rightarrow> 'x sess" where
  "set_param eval upd x = (case eval x of (a, w) \<Rightarrow> (upd a (fst x), w))"

abbreviation upd_params :: "(session_params \<Rightarrow> session_params) \<Rightarrow> session \<Rightarrow> session" where
  "upd_params f s \<equiv> s\<lparr>params := f (params s)\<rparr>"

definition eval_post_auth_params :: "('f, 'r, 'x) inbound_env \<Rightarrow> 'x sess \<Rightarrow> 'x sess" where
  "eval_post_auth_params env x =
    fold (\<lambda>f x. f x)
      [set_param (eval_bool_or env ExtExpn False) (\<lambda>b. upd_params (can_expn_update (\<lambda>_. b))),
       set_param (eval_bool_or env ExtVrfy False) (\<lambda>b. upd_params (can_vrfy_update (\<lambda>_. b)))] x"

definition eval_session_params :: "('f, 'r, 'x) inbound_env \<Rightarrow> 'x sess \<Rightarrow> 'x sess" where
  "eval_session_params env x =
    eval_post_auth_params env (fold (\<lambda>f x. f x)
      [set_param (eval_usize_or env TransferLimit 262144000) (\<lambda>n s. s\<lparr>bytes_left := n\<rparr>),
       set_param (eval_duration_or env SessionDuration 900000) (\<lambda>n s. s\<lparr>valid_until := valid_until s + n\<rparr>),
       set_param (eval_duration_or env SessionTimeout 300000) (\<lambda>n. upd_params (timeout_update (\<lambda>_. n))),
       set_param (eval_verify_or env SpfVerifyEhlo) (\<lambda>v. upd_params (verify_spf_ehlo_update (\<lambda>_. v))),
       set_param (eval_verify_or env SpfVerifyMailFrom) (\<lambda>v. upd_params (verify_spf_mail_update (\<lambda>_. v))),
       set_param (eval_verify_or env IprevVerify) (\<lambda>v. upd_params (verify_iprev_update (\<lambda>_. v))),
       set_param (eval_bool_or env EhloRequire True) (\<lambda>b. upd_params (ehlo_require_update (\<lambda>_. b))),
       set_param (eval_bool_or env EhloRejectNonFqdn True) (\<lambda>b. upd_params (ehlo_reject_non_fqdn_update (\<lambda>_. b))),
       set_param (eval_directory env AuthDirectory) (\<lambda>d. upd_params (auth_directory_update (\<lambda>_. d))),
       set_param (eval_bool_or env AuthRequire False) (\<lambda>b. upd_params (auth_require_update (\<lambda>_. b))),
       set_param (eval_usize_or env AuthErrorsMax 3) (\<lambda>n. upd_params (auth_errors_max_update (\<lambda>_. n))),
       set_param (eval_duration_or env AuthErrorsWait 30000) (\<lambda>n. upd_params (auth_errors_wait_update (\<lambda>_. n)))] x)"

definition eval_rcpt_params :: "('f, 'r, 'x) inbound_env \<Rightarrow> 'x sess \<Rightarrow> 'x sess" where
  "eval_rcpt_params env x =
    fold (\<lambda>f x. f x)
      [set_param (eval_usize_or env RcptErrorsMax 10) (\<lambda>n. upd_params (rcpt_errors_max_update (\<lambda>_. n))),
       set_param (eval_duration_or env RcptErrorsWait 30000) (\<lambda>n. upd_params (rcpt_errors_wait_update (\<lambda>_. n))),
       set_param (eval_usize_or env RcptMaxRecipients 100) (\<lambda>n. upd_params (rcpt_max_update (\<lambda>_. n))),
       set_param (eval_bool_or env ExtDsn True) (\<lambda>b. upd_params (rcpt_dsn_update (\<lambda>_. b))),
       set_param (eval_usize_or env DataMaxMessageSize 26214400) (\<lambda>n. upd_params (max_message_size_update (\<lambda>_. n)))] x"

end
