(* ===== verification/Inbound_Limits.thy ===== *)
theory Inbound_Limits
  imports Inbound_State
begin

text \<open>Rate limits of inbound mail, and what an address stands for.\<close>

section \<open>Rate limits\<close>

definition session_key :: "('f, 'r, 'x) inbound_env \<Rightarrow> ('f, 'r) expr_item queue_rate_limiter \<Rightarrow> session \<Rightarrow> string" where
  "session_key env l s =
    limiter_key (hash_key env) l (\<lambda>v. into_string (fl_of env) (session_variable s (variable_number v))) ''inbound''"

definition limiter_applies :: "('f, 'r, 'x) inbound_env \<Rightarrow> ('f, 'r) expr_item queue_rate_limiter \<Rightarrow> 'x sess \<Rightarrow> bool \<times> 'x world" where
  "limiter_applies env l x =
    (if limiter_expr l = [] then (True, snd x)
     else or_else False (eval_expr (session_eval_env env (fst x)) (conv_bool (fl_of env)) (limiter_expr l) (snd x)))"

text \<open>A limit by the domain of a recipient counts the first recipient of each domain.\<close>

definition domain_seen :: "session \<Rightarrow> bool" where
  "domain_seen s =
    (let d = (if rcpt_to s = [] then [] else addr_domain (last (rcpt_to s))) in
     length (filter (\<lambda>r. addr_domain r = d) (rcpt_to s)) > 1)"

text \<open>\<open>None\<close> is the panic of \<open>is_rate_allowed\<close> at a period of zero.\<close>

definition take_rate :: "('f, 'r, 'x) inbound_env \<Rightarrow> bytes \<Rightarrow> rate \<Rightarrow> 'x world \<Rightarrow> (bool \<times> 'x world) option" where
  "take_rate env key rt w =
    (case read_clock env w of (t1, w) \<Rightarrow>
     case read_clock env w of (t2, w) \<Rightarrow>
       (case is_rate_allowed t1 t2 KV_RATE_LIMIT_SMTP key rt False (lookup_store w) of
          None \<Rightarrow> None
        | Some (Inl _) \<Rightarrow> Some (True, w)
        | Some (Inr (r, d)) \<Rightarrow> Some (r = None, w\<lparr>lookup_store := d\<rparr>)))"

fun check_limiters ::
  "('f, 'r, 'x) inbound_env \<Rightarrow> ('f, 'r) expr_item queue_rate_limiter list \<Rightarrow> 'x sess \<Rightarrow> (bool \<times> 'x world) option" where
  "check_limiters env [] x = Some (True, snd x)"
| "check_limiters env (l # ls) (s, w) =
    (case limiter_applies env l (s, w) of
       (False, w) \<Rightarrow> check_limiters env ls (s, w)
     | (True, w) \<Rightarrow>
        if limiter_by l AND THROTTLE_RCPT_DOMAIN \<noteq> 0 \<and> domain_seen s then check_limiters env ls (s, w)
        else
          (case take_rate env (bytes_of (session_key env l s)) (limiter_rate l) w of
             None \<Rightarrow> None
           | Some (False, w) \<Rightarrow> Some (False, w)
           | Some (True, w) \<Rightarrow> check_limiters env ls (s, w)))"

definition session_is_allowed :: "('f, 'r, 'x) inbound_env \<Rightarrow> 'x sess \<Rightarrow> (bool \<times> 'x world) option" where
  "session_is_allowed env x =
    check_limiters env
      (if rcpt_to (fst x) \<noteq> [] then limiters_rcpt env
       else if mail_from (fst x) \<noteq> None then limiters_sender env else limiters_remote env) x"

section \<open>What an address stands for\<close>

definition address_eval_env :: "('f, 'r, 'x) inbound_env \<Rightarrow> string \<Rightarrow> ('f, 'r, 'x world) eval_env" where
  "address_eval_env env a = (core_env env)\<lparr>resolve_var := (\<lambda>_. VString a), resolve_global := (\<lambda>_. VInteger 0)\<rparr>"

definition to_subaddress :: "('f, 'r, 'x) inbound_env \<Rightarrow> string \<Rightarrow> 'x world \<Rightarrow> string \<times> 'x world" where
  "to_subaddress env a w =
    (case fst (subaddressing env) of
       MapEnable \<Rightarrow>
         ((case rsplit_once (CHR ''@'') a of
             None \<Rightarrow> a
           | Some (l, d) \<Rightarrow> (case split_once (CHR ''+'') l of Some (l, _) \<Rightarrow> l @ ''@'' @ d | None \<Rightarrow> a)), w)
     | MapCustom \<Rightarrow> or_else a (eval_if (address_eval_env env a) conv_string (snd (subaddressing env)) w)
     | MapDisable \<Rightarrow> (a, w))"

definition to_catch_all :: "('f, 'r, 'x) inbound_env \<Rightarrow> string \<Rightarrow> 'x world \<Rightarrow> string option \<times> 'x world" where
  "to_catch_all env a w =
    (case fst (catch_all env) of
       MapEnable \<Rightarrow> (map_option (\<lambda>(_, d). CHR ''@'' # d) (rsplit_once (CHR ''@'') a), w)
     | MapCustom \<Rightarrow> eval_if (address_eval_env env a) conv_string (snd (catch_all env)) w
     | MapDisable \<Rightarrow> (None, w))"

text \<open>\<open>Server::rcpt\<close>: the address without its tag, then the catch-all address; \<open>None\<close> is an error.\<close>

fun rcpt_attempts ::
  "('f, 'r, 'x) inbound_env \<Rightarrow> nat \<Rightarrow> string \<Rightarrow> nat \<Rightarrow> string \<Rightarrow> 'x world \<Rightarrow> rcpt_type option \<times> 'x world" where
  "rcpt_attempts env dir email 0 a w = (Some RcptInvalid, w)"
| "rcpt_attempts env dir email (Suc n) a w =
    (case dir_rcpt env dir a w of
       (None, w) \<Rightarrow> (None, w)
     | (Some t, w) \<Rightarrow>
        if t \<noteq> RcptInvalid then (Some t, w)
        else (case to_catch_all env email w of
                (Some a, w) \<Rightarrow> rcpt_attempts env dir email n a w
              | (None, w) \<Rightarrow> (Some RcptInvalid, w)))"

definition server_rcpt :: "('f, 'r, 'x) inbound_env \<Rightarrow> nat \<Rightarrow> string \<Rightarrow> 'x world \<Rightarrow> rcpt_type option \<times> 'x world" where
  "server_rcpt env dir email w =
    (case to_subaddress env email w of (a, w) \<Rightarrow> rcpt_attempts env dir email 2 a w)"

definition server_vrfy :: "('f, 'r, 'x) inbound_env \<Rightarrow> nat \<Rightarrow> string \<Rightarrow> 'x world \<Rightarrow> (bool + string list) \<times> 'x world" where
  "server_vrfy env dir email w = (case to_subaddress env email w of (a, w) \<Rightarrow> dir_vrfy env dir a w)"

definition server_expn :: "('f, 'r, 'x) inbound_env \<Rightarrow> nat \<Rightarrow> string \<Rightarrow> 'x world \<Rightarrow> (bool + string list) \<times> 'x world" where
  "server_expn env dir email w = (case to_subaddress env email w of (a, w) \<Rightarrow> dir_expn env dir a w)"

section \<open>Credentials\<close>

text \<open>\<open>crates/common/src/auth/sasl.rs\<close>\<close>

fun plain_parts :: "nat \<Rightarrow> string \<Rightarrow> string \<Rightarrow> string \<Rightarrow> string \<times> string" where
  "plain_parts n user secret [] = (user, secret)"
| "plain_parts n user secret (c # cs) =
    (if c \<noteq> CHR 0x00 then plain_parts n (if n = 1 then user @ [c] else user) (if n = 2 then secret @ [c] else secret) cs
     else plain_parts (n + 1) user secret cs)"

definition sasl_decode_challenge_plain :: "string \<Rightarrow> credentials option" where
  "sasl_decode_challenge_plain challenge =
    (case plain_parts 0 [] [] challenge of (user, secret) \<Rightarrow>
       if utf8_valid user \<and> utf8_valid secret \<and> user \<noteq> [] \<and> secret \<noteq> [] then Some (CredPlain user secret) else None)"

definition bearer_prefix :: string where
  "bearer_prefix = ''auth=Bearer ''"

text \<open>The parts between the separators, of which the first that begins with the scheme is the token.\<close>

fun bearer_scan :: "string \<Rightarrow> nat \<Rightarrow> nat \<Rightarrow> string \<Rightarrow> string option" where
  "bearer_scan bytes start pos [] = None"
| "bearer_scan bytes start pos (c # cs) =
    (let sep = (c = CHR 0x01) in
     if sep \<or> pos = length bytes - 1 then
       (if start + 12 \<le> length bytes \<and> eq_ignore_ascii_case (take 12 (drop start bytes)) bearer_prefix then
          (let end' = (if sep then pos else length bytes) in
           if start + 12 \<le> end' \<and> utf8_valid (take (end' - (start + 12)) (drop (start + 12) bytes))
           then Some (take (end' - (start + 12)) (drop (start + 12) bytes)) else None)
        else bearer_scan bytes (pos + 1) (pos + 1) cs)
     else bearer_scan bytes start (pos + 1) cs)"

definition sasl_decode_challenge_oauth :: "string \<Rightarrow> credentials option" where
  "sasl_decode_challenge_oauth bytes = map_option CredOAuthBearer (bearer_scan bytes 0 0 bytes)"

end
