(* ===== verification/Inbound_Ehlo.thy ===== *)
theory Inbound_Ehlo
  imports Inbound_Limits
begin

text \<open>
  The commands of an SMTP session that come before the message: EHLO
  (\<open>crates/smtp/src/inbound/ehlo.rs\<close>), AUTH (\<open>auth.rs\<close>), MAIL (\<open>mail.rs\<close>), RCPT (\<open>rcpt.rs\<close>), VRFY and
  EXPN (\<open>vrfy.rs\<close>). A handler is a list of phases; the first that has an outcome ends it.

  Waiting after an error and the events for the log are left out. A failure to write to the client ends
  the session wherever it happens and is not modelled.
\<close>

section \<open>Outcomes\<close>

datatype outcome = Reply string | HangUp string | Disconnect | Panics

type_synonym 'x phase = "'x sess \<Rightarrow> outcome option \<times> 'x sess"

fun run_phases :: "'x phase list \<Rightarrow> 'x phase" where
  "run_phases [] x = (None, x)"
| "run_phases (p # ps) x = (case p x of (None, x) \<Rightarrow> run_phases ps x | (Some r, x) \<Rightarrow> (Some r, x))"

definition crlf :: "string \<Rightarrow> string" where
  "crlf s = s @ [ch_cr, ch_lf]"

abbreviation reply :: "string \<Rightarrow> 'x sess \<Rightarrow> outcome option \<times> 'x sess" where
  "reply text x \<equiv> (Some (Reply (crlf text)), x)"

definition drop_sender :: "session \<Rightarrow> session" where
  "drop_sender s = s\<lparr>mail_from := None\<rparr>"

text \<open>Refuses the command and forgets the sender.\<close>

abbreviation refuse :: "string \<Rightarrow> 'x sess \<Rightarrow> outcome option \<times> 'x sess" where
  "refuse text x \<equiv> reply text (drop_sender (fst x), snd x)"

text \<open>Milters and hooks of a stage; \<open>undo\<close> is what the handler takes back if one of them refuses.\<close>

definition run_filters :: "('f, 'r, 'x) inbound_env \<Rightarrow> stage \<Rightarrow> (session \<Rightarrow> session) \<Rightarrow> 'x phase" where
  "run_filters env st undo x =
    (case run_milters env st None (fst x) (snd x) of
       (Inl m, w) \<Rightarrow> (Some (Reply (filter_message m)), undo (fst x), w)
     | (Inr _, w) \<Rightarrow>
        (case run_mta_hooks env st None (fst x) w of
           (Inl m, w) \<Rightarrow> (Some (Reply (filter_message m)), undo (fst x), w)
         | (Inr _, w) \<Rightarrow> (None, fst x, w)))"

section \<open>SPF\<close>

definition spf_verdict :: "('f, 'r, 'x) inbound_env \<Rightarrow> spf_output \<Rightarrow> bool \<Rightarrow> string option" where
  "spf_verdict env o' strict =
    (if spf_result o' = SpfPass \<or> \<not> strict then None
     else if spf_result o' = SpfTempError then Some ''451 4.7.24 Temporary SPF validation error.''
     else Some (''550 5.7.23 SPF validation failed, status: '' @ show_spf env (spf_result o') @ ''.''))"

definition report_spf :: "('f, 'r, 'x) inbound_env \<Rightarrow> spf_output \<Rightarrow> bool \<Rightarrow> 'x sess \<Rightarrow> 'x world" where
  "report_spf env o' refused x =
    (case eval_if (session_eval_env env (fst x)) (conv_rate (fl_of env)) (spf_report_send env) (snd x) of
       (rt, w) \<Rightarrow>
         (case (spf_report_address o', rt) of
            (Some rcpt, Some rt) \<Rightarrow>
              (case dir_is_local_domain env (storage_directory env) (domain_part rcpt) w of
                 (local, w) \<Rightarrow> if local = Some True then w else send_spf_report env rcpt rt refused o' (fst x) w)
          | _ \<Rightarrow> w))"

definition handle_spf :: "('f, 'r, 'x) inbound_env \<Rightarrow> spf_output \<Rightarrow> bool \<Rightarrow> 'x sess \<Rightarrow> string option \<times> 'x world" where
  "handle_spf env o' strict x =
    (let v = spf_verdict env o' strict in (v, report_spf env o' (v \<noteq> None) x))"

section \<open>EHLO\<close>

definition ehlo_spf :: "('f, 'r, 'x) inbound_env \<Rightarrow> string \<Rightarrow> 'x phase" where
  "ehlo_spf env prev x =
    (if verifies (verify_spf_ehlo (params (fst x))) then
       (case dns_spf_ehlo env (fst x) (snd x) of (o', w) \<Rightarrow>
        case handle_spf env o' (is_strict (verify_spf_ehlo (params (fst x)))) (fst x, w) of
          (None, w) \<Rightarrow> (None, (fst x)\<lparr>spf_ehlo := Some o'\<rparr>, w)
        | (Some text, w) \<Rightarrow> reply text ((fst x)\<lparr>mail_from := None, helo := prev\<rparr>, w))
     else (None, x))"

definition undo_ehlo :: "string \<Rightarrow> session \<Rightarrow> session" where
  "undo_ehlo prev s = s\<lparr>mail_from := None, helo := prev, spf_ehlo := None\<rparr>"

definition ehlo_script :: "('f, 'r, 'x) inbound_env \<Rightarrow> string \<Rightarrow> 'x phase" where
  "ehlo_script env prev x =
    (case eval_script env EhloScript x of
       (None, w) \<Rightarrow> (None, fst x, w)
     | (Some n, w) \<Rightarrow>
        (case run_script env n StageEhlo (fst x) w of
           (ScriptReject m, w) \<Rightarrow> (Some (Reply m), undo_ehlo prev (fst x), w)
         | (_, w) \<Rightarrow> (None, fst x, w)))"

definition ehlo_domain :: "('f, 'r, 'x) inbound_env \<Rightarrow> string \<Rightarrow> 'x phase" where
  "ehlo_domain env domain x =
    (let prev = helo (fst x) in
     if domain = prev then (None, x)
     else if ehlo_reject_non_fqdn (params (fst x)) \<and> \<not> valid_labels env domain then reply ''550 5.5.0 Invalid EHLO domain.'' x
     else
       run_phases [ehlo_spf env prev, ehlo_script env prev, run_filters env StageEhlo (undo_ehlo prev)]
         ((fst x)\<lparr>helo := domain\<rparr>, snd x))"

definition add_capability :: "bool \<Rightarrow> capability \<Rightarrow> ehlo_response \<Rightarrow> ehlo_response" where
  "add_capability b c r = (if b then r\<lparr>capabilities := capabilities r @ [c]\<rparr> else r)"

definition first_capabilities :: "session \<Rightarrow> ehlo_response" where
  "first_capabilities s =
    add_capability (\<not> is_tls s \<and> has_tls s) EXT_START_TLS
      \<lparr>capabilities = [EXT_ENHANCED_STATUS_CODES, EXT_8BIT_MIME, EXT_BINARY_MIME, EXT_SMTP_UTF8], auth_mechanisms = 0,
       future_release_interval = 0, future_release_datetime = 0, ehlo_deliver_by = 0, ehlo_mt_priority = None,
       ehlo_size = 0, no_soliciting = None\<rparr>"

definition bool_capability ::
  "('f, 'r, 'x) inbound_env \<Rightarrow> session_setting \<Rightarrow> bool \<Rightarrow> capability \<Rightarrow> session \<Rightarrow> ehlo_response \<times> 'x world \<Rightarrow> ehlo_response \<times> 'x world" where
  "bool_capability env k d c s = (\<lambda>(r, w). case eval_bool_or env k d (s, w) of (b, w) \<Rightarrow> (add_capability b c r, w))"

definition auth_capability :: "('f, 'r, 'x) inbound_env \<Rightarrow> session \<Rightarrow> ehlo_response \<times> 'x world \<Rightarrow> ehlo_response \<times> 'x world" where
  "auth_capability env s = (\<lambda>(r, w).
    if is_authenticated s then (r, w)
    else
      (case or_else 0 (eval_session env conv_mechanism AuthMechanisms (s, w)) of
         (m, w) \<Rightarrow> (add_capability (m \<noteq> 0) EXT_AUTH (r\<lparr>auth_mechanisms := m\<rparr>), w)))"

definition release_capability :: "('f, 'r, 'x) inbound_env \<Rightarrow> session \<Rightarrow> ehlo_response \<times> 'x world \<Rightarrow> ehlo_response \<times> 'x world" where
  "release_capability env s = (\<lambda>(r, w).
    case eval_session env (conv_duration (fl_of env)) ExtFutureRelease (s, w) of
      (None, w) \<Rightarrow> (r, w)
    | (Some d, w) \<Rightarrow>
       (case read_clock env w of (now, w) \<Rightarrow>
         (add_capability True EXT_FUTURE_RELEASE
            (r\<lparr>future_release_interval := as_secs d, future_release_datetime := now + as_secs d\<rparr>), w)))"

definition deliver_capability :: "('f, 'r, 'x) inbound_env \<Rightarrow> session \<Rightarrow> ehlo_response \<times> 'x world \<Rightarrow> ehlo_response \<times> 'x world" where
  "deliver_capability env s = (\<lambda>(r, w).
    case eval_session env (conv_duration (fl_of env)) ExtDeliverBy (s, w) of
      (None, w) \<Rightarrow> (r, w)
    | (Some d, w) \<Rightarrow> (add_capability True EXT_DELIVER_BY (r\<lparr>ehlo_deliver_by := as_secs d\<rparr>), w))"

definition priority_capability :: "('f, 'r, 'x) inbound_env \<Rightarrow> session \<Rightarrow> ehlo_response \<times> 'x world \<Rightarrow> ehlo_response \<times> 'x world" where
  "priority_capability env s = (\<lambda>(r, w).
    case eval_session env conv_mt_priority ExtMtPriority (s, w) of
      (None, w) \<Rightarrow> (r, w)
    | (Some p, w) \<Rightarrow> (add_capability True EXT_MT_PRIORITY (r\<lparr>ehlo_mt_priority := Some p\<rparr>), w))"

definition size_capability :: "('f, 'r, 'x) inbound_env \<Rightarrow> session \<Rightarrow> ehlo_response \<times> 'x world \<Rightarrow> ehlo_response \<times> 'x world" where
  "size_capability env s = (\<lambda>(r, w).
    case eval_usize_or env DataMaxMessageSize 26214400 (s, w) of
      (n, w) \<Rightarrow> (add_capability (n > 0) EXT_SIZE (r\<lparr>ehlo_size := n\<rparr>), w))"

definition soliciting_capability :: "('f, 'r, 'x) inbound_env \<Rightarrow> session \<Rightarrow> ehlo_response \<times> 'x world \<Rightarrow> ehlo_response \<times> 'x world" where
  "soliciting_capability env s = (\<lambda>(r, w).
    case eval_string env ExtNoSoliciting (s, w) of
      (None, w) \<Rightarrow> (r, w)
    | (Some v, w) \<Rightarrow>
       (add_capability True EXT_NO_SOLICITING (r\<lparr>no_soliciting := (if v \<noteq> [] then Some v else None)\<rparr>), w))"

definition ehlo_response_of :: "('f, 'r, 'x) inbound_env \<Rightarrow> 'x sess \<Rightarrow> ehlo_response \<times> 'x world" where
  "ehlo_response_of env x =
    fold (\<lambda>f r. f (fst x) r)
      [bool_capability env ExtPipelining True EXT_PIPELINING, bool_capability env ExtChunking True EXT_CHUNKING,
       bool_capability env ExtExpn False EXT_EXPN, bool_capability env ExtVrfy False EXT_VRFY,
       bool_capability env ExtRequiretls True EXT_REQUIRE_TLS, bool_capability env ExtDsn False EXT_DSN,
       auth_capability env, release_capability env, deliver_capability env, priority_capability env,
       size_capability env, soliciting_capability env]
      (first_capabilities (fst x), snd x)"

definition ehlo_answer :: "('f, 'r, 'x) inbound_env \<Rightarrow> bool \<Rightarrow> 'x phase" where
  "ehlo_answer env extended x =
    (let s = (if mail_from (fst x) \<noteq> None then reset_session (fst x) else fst x) in
     if \<not> extended then reply (''250 '' @ session_hostname s @ '' you had me at HELO'') (s, snd x)
     else
       (case ehlo_response_of env (s, snd x) of
          (r, w) \<Rightarrow> (Some (Reply (write_ehlo env (session_hostname s) r)), s, w)))"

definition handle_ehlo :: "('f, 'r, 'x) inbound_env \<Rightarrow> string \<Rightarrow> bool \<Rightarrow> 'x phase" where
  "handle_ehlo env domain extended = run_phases [ehlo_domain env domain, ehlo_answer env extended]"

end
