(* ===== verification/Inbound_Mail.thy ===== *)
theory Inbound_Mail
  imports Inbound_Ehlo
begin

text \<open>The MAIL command (\<open>crates/smtp/src/inbound/mail.rs\<close>), in the order of its checks.\<close>

record mail_request =
  from_address :: string
  from_flags :: u64
  from_env_id :: "string option"
  from_by :: u64
  from_mt_priority :: int
  from_size :: u64
  from_hold_for :: u64
  from_hold_until :: u64

text \<open>The flags \<open>MAIL_REQUIRETLS\<close>, \<open>MAIL_BY_NOTIFY\<close> and \<open>MAIL_BY_RETURN\<close> of the \<open>smtp-proto\<close> package.\<close>

abbreviation MAIL_REQUIRETLS :: "('f, 'r, 'x) inbound_env \<Rightarrow> u64" where "MAIL_REQUIRETLS env \<equiv> fst (mail_flags env)"
abbreviation MAIL_BY_NOTIFY :: "('f, 'r, 'x) inbound_env \<Rightarrow> u64" where "MAIL_BY_NOTIFY env \<equiv> fst (snd (mail_flags env))"
abbreviation MAIL_BY_RETURN :: "('f, 'r, 'x) inbound_env \<Rightarrow> u64" where "MAIL_BY_RETURN env \<equiv> snd (snd (mail_flags env))"

definition mail_guards :: "('f, 'r, 'x) inbound_env \<Rightarrow> 'x phase" where
  "mail_guards env x =
    (let s = fst x; p = params s in
     if helo s = [] \<and> (ehlo_require p \<or> verifies (verify_spf_ehlo p) \<or> verifies (verify_spf_mail p))
     then reply ''503 5.5.1 Polite people say EHLO first.'' x
     else if mail_from s \<noteq> None then reply ''503 5.5.1 Multiple MAIL commands not allowed.'' x
     else if auth_require p \<and> \<not> is_authenticated s then reply ''503 5.5.1 You must authenticate first.'' x
     else if iprev s = None \<and> verifies (verify_iprev p) then
       (case dns_iprev env s (snd x) of (i, w) \<Rightarrow> (None, s\<lparr>iprev := Some i\<rparr>, w))
     else (None, x))"

definition mail_reverse_dns :: "'x phase" where
  "mail_reverse_dns x =
    (let s = fst x; res = map_option iprev_result (iprev s) in
     if is_strict (verify_iprev (params s)) \<and> res \<noteq> Some IprevPass then
       (if res = Some IprevTempError then reply ''451 4.7.25 Temporary error validating reverse DNS.'' x
        else reply ''550 5.7.25 Reverse DNS validation failed.'' x)
     else (None, x))"

definition sender_of :: "('f, 'r, 'x) inbound_env \<Rightarrow> mail_request \<Rightarrow> session_address" where
  "sender_of env from =
    (let lcase = (if from_address from \<noteq> [] then lowercase env (from_address from) else []) in
     \<lparr>addr = from_address from, addr_lcase = lcase, addr_domain = (if from_address from \<noteq> [] then domain_part lcase else []),
      addr_flags = from_flags from, addr_dsn = from_env_id from\<rparr>)"

definition mail_set_sender :: "('f, 'r, 'x) inbound_env \<Rightarrow> mail_request \<Rightarrow> 'x phase" where
  "mail_set_sender env from x =
    (case eval_bool_or env MailIsAllowed True ((fst x)\<lparr>mail_from := Some (sender_of env from)\<rparr>, snd x) of
       (allowed, w) \<Rightarrow>
         if allowed then (None, (fst x)\<lparr>mail_from := Some (sender_of env from)\<rparr>, w)
         else refuse ''550 5.7.1 Sender address not allowed.'' (fst x, w))"

fun apply_script_envelope :: "('f, 'r, 'x) inbound_env \<Rightarrow> script_modification \<Rightarrow> session \<Rightarrow> session" where
  "apply_script_envelope env (ScriptSetEnvelope name value) s = apply_envelope env name value s"
| "apply_script_envelope env (ScriptAddHeader _ _) s = s"

definition apply_envelopes :: "('f, 'r, 'x) inbound_env \<Rightarrow> script_modification list \<Rightarrow> session \<Rightarrow> session" where
  "apply_envelopes env mods s = fold (apply_script_envelope env) mods s"

definition mail_script :: "('f, 'r, 'x) inbound_env \<Rightarrow> 'x phase" where
  "mail_script env x =
    (case eval_script env MailScript x of
       (None, w) \<Rightarrow> (None, fst x, w)
     | (Some n, w) \<Rightarrow>
        (case run_script env n StageMail (fst x) w of
           (ScriptAccept mods, w) \<Rightarrow> (None, apply_envelopes env mods (fst x), w)
         | (ScriptReject m, w) \<Rightarrow> (Some (Reply m), drop_sender (fst x), w)
         | (_, w) \<Rightarrow> (None, fst x, w)))"

definition rewrite_sender :: "('f, 'r, 'x) inbound_env \<Rightarrow> string \<Rightarrow> session_address \<Rightarrow> session_address" where
  "rewrite_sender env a m =
    (if CHR ''@'' \<in> set a then m\<lparr>addr_lcase := lowercase env a, addr_domain := domain_part (lowercase env a), addr := a\<rparr>
     else if a = [] then m\<lparr>addr_lcase := [], addr_domain := [], addr := []\<rparr> else m)"

definition mail_rewrite :: "('f, 'r, 'x) inbound_env \<Rightarrow> 'x phase" where
  "mail_rewrite env x =
    (case eval_string env MailRewrite x of
       (None, w) \<Rightarrow> (None, fst x, w)
     | (Some a, w) \<Rightarrow>
        (case mail_from (fst x) of
           None \<Rightarrow> (Some Panics, fst x, w)
         | Some m \<Rightarrow> (None, (fst x)\<lparr>mail_from := Some (rewrite_sender env a m)\<rparr>, w)))"

text \<open>Whether an account may send from an address; an address that begins with \<open>@\<close> stands for its domain.\<close>

definition may_send_from :: "string \<Rightarrow> string list \<Rightarrow> string \<Rightarrow> bool" where
  "may_send_from name emails a \<longleftrightarrow>
    name = a \<or> list_ex (\<lambda>e. e = a \<or> take 1 e = ''@'' \<and> ends_with e a) emails"

definition mail_match_sender :: "('f, 'r, 'x) inbound_env \<Rightarrow> 'x phase" where
  "mail_match_sender env x =
    (case authenticated_as (fst x) of
       None \<Rightarrow> (None, x)
     | Some name \<Rightarrow>
        (case eval_bool_or env AuthMustMatchSender True x of
           (False, w) \<Rightarrow> (None, fst x, w)
         | (True, w) \<Rightarrow>
            (case mail_from (fst x) of
               None \<Rightarrow> (Some Panics, fst x, w)
             | Some m \<Rightarrow>
                if may_send_from name (authenticated_emails (fst x)) (addr_lcase m) then (None, fst x, w)
                else refuse ''501 5.5.4 You are not allowed to send from this address.'' (fst x, w))))"

section \<open>Parameters of the command\<close>

definition mail_requiretls :: "('f, 'r, 'x) inbound_env \<Rightarrow> mail_request \<Rightarrow> 'x phase" where
  "mail_requiretls env from x =
    (if from_flags from AND MAIL_REQUIRETLS env \<noteq> 0 then
       (case eval_bool_or env ExtRequiretls False x of
          (True, w) \<Rightarrow> (None, fst x, w)
        | (False, w) \<Rightarrow> refuse ''501 5.5.4 REQUIRETLS has been disabled.'' (fst x, w))
     else (None, x))"

text \<open>\<open>checked_abs().unwrap_or(0)\<close> of an \<open>i64\<close>.\<close>

definition abs_or_zero :: "u64 \<Rightarrow> u64" where
  "abs_or_zero n = (if n = 0x8000000000000000 then 0 else if n <s 0 then - n else n)"

definition mail_deliver_by :: "('f, 'r, 'x) inbound_env \<Rightarrow> mail_request \<Rightarrow> 'x phase" where
  "mail_deliver_by env from x =
    (if from_flags from AND (MAIL_BY_NOTIFY env OR MAIL_BY_RETURN env) \<noteq> 0 then
       (case eval_session env (conv_duration (fl_of env)) ExtDeliverBy x of
          (Some d, w) \<Rightarrow>
            if abs_or_zero (from_by from) \<le> as_secs d \<and> (0 <s from_by from \<or> from_flags from AND MAIL_BY_NOTIFY env \<noteq> 0)
            then (None, (fst x)\<lparr>delivery_by := from_by from\<rparr>, w)
            else refuse (''501 5.5.4 BY parameter exceeds maximum of '' @ show_nat (unat (as_secs d)) @ '' seconds.'') (fst x, w)
        | (None, w) \<Rightarrow> refuse ''501 5.5.4 DELIVERBY extension has been disabled.'' (fst x, w))
     else (None, x))"

definition mail_mt_priority :: "('f, 'r, 'x) inbound_env \<Rightarrow> mail_request \<Rightarrow> 'x phase" where
  "mail_mt_priority env from x =
    (if from_mt_priority from \<noteq> 0 then
       (case eval_session env conv_mt_priority ExtMtPriority x of
          (Some _, w) \<Rightarrow>
            if - 6 \<le> from_mt_priority from \<and> from_mt_priority from < 6
            then (None, (fst x)\<lparr>mail_priority := from_mt_priority from\<rparr>, w)
            else refuse ''501 5.5.4 Invalid priority value.'' (fst x, w)
        | (None, w) \<Rightarrow> refuse ''501 5.5.4 MT-PRIORITY extension has been disabled.'' (fst x, w))
     else (None, x))"

definition mail_size :: "('f, 'r, 'x) inbound_env \<Rightarrow> mail_request \<Rightarrow> 'x phase" where
  "mail_size env from x =
    (if from_size from > 0 then
       (case eval_usize_or env DataMaxMessageSize 26214400 x of
          (n, w) \<Rightarrow>
            if from_size from > n then refuse ''552 5.3.4 Message too big for system.'' (fst x, w) else (None, fst x, w))
     else (None, x))"

definition hold_time :: "('f, 'r, 'x) inbound_env \<Rightarrow> mail_request \<Rightarrow> 'x world \<Rightarrow> u64 \<times> 'x world" where
  "hold_time env from w =
    (if from_hold_for from \<noteq> 0 then (from_hold_for from, w)
     else (case read_clock env w of (now, w) \<Rightarrow>
             (if from_hold_until from < now then 0 else from_hold_until from - now, w)))"

definition mail_hold :: "('f, 'r, 'x) inbound_env \<Rightarrow> mail_request \<Rightarrow> 'x phase" where
  "mail_hold env from x =
    (if from_hold_for from \<noteq> 0 \<or> from_hold_until from \<noteq> 0 then
       (case eval_session env (conv_duration (fl_of env)) ExtFutureRelease x of
          (Some d, w) \<Rightarrow>
            (case hold_time env from w of
               (t, w) \<Rightarrow>
                 if t \<le> as_secs d then (None, (fst x)\<lparr>future_release := t\<rparr>, w)
                 else refuse (''501 5.5.4 Requested hold time exceeds maximum of '' @ show_nat (unat (as_secs d)) @ '' seconds.'') (fst x, w))
        | (None, w) \<Rightarrow> refuse ''501 5.5.4 FUTURERELEASE extension has been disabled.'' (fst x, w))
     else (None, x))"

definition mail_dsn :: "('f, 'r, 'x) inbound_env \<Rightarrow> mail_request \<Rightarrow> 'x phase" where
  "mail_dsn env from x =
    (if from_env_id from \<noteq> None then
       (case eval_bool_or env ExtDsn False x of
          (True, w) \<Rightarrow> (None, fst x, w)
        | (False, w) \<Rightarrow> refuse ''501 5.5.4 DSN extension has been disabled.'' (fst x, w))
     else (None, x))"

section \<open>The end of the command\<close>

definition mail_throttle :: "('f, 'r, 'x) inbound_env \<Rightarrow> 'x phase" where
  "mail_throttle env x =
    (case session_is_allowed env x of
       None \<Rightarrow> (Some Panics, x)
     | Some (True, w) \<Rightarrow> (None, fst x, w)
     | Some (False, w) \<Rightarrow> refuse ''452 4.4.5 Rate limit exceeded, try again later.'' (fst x, w))"

definition mail_spf :: "('f, 'r, 'x) inbound_env \<Rightarrow> 'x phase" where
  "mail_spf env x =
    (if verifies (verify_spf_mail (params (fst x))) then
       (case mail_from (fst x) of
          None \<Rightarrow> (Some Panics, x)
        | Some m \<Rightarrow>
           (case (if addr m \<noteq> [] then dns_check_host env (addr_domain m) (addr_lcase m) (fst x) (snd x)
                  else dns_check_host env (helo (fst x)) (''postmaster@'' @ helo (fst x)) (fst x) (snd x)) of
              (o', w) \<Rightarrow>
                (case handle_spf env o' (is_strict (verify_spf_mail (params (fst x)))) (fst x, w) of
                   (None, w) \<Rightarrow> (None, (fst x)\<lparr>spf_mail_from := Some o'\<rparr>, w)
                 | (Some text, w) \<Rightarrow> refuse text (fst x, w))))
     else (None, x))"

definition mail_accept :: "('f, 'r, 'x) inbound_env \<Rightarrow> 'x phase" where
  "mail_accept env x = reply ''250 2.1.0 OK'' (eval_rcpt_params env x)"

definition handle_mail_from :: "('f, 'r, 'x) inbound_env \<Rightarrow> mail_request \<Rightarrow> 'x phase" where
  "handle_mail_from env from =
    run_phases
      [mail_guards env, mail_reverse_dns, mail_set_sender env from, mail_script env, run_filters env StageMail drop_sender,
       mail_rewrite env, mail_match_sender env, mail_requiretls env from, mail_deliver_by env from, mail_mt_priority env from,
       mail_size env from, mail_hold env from, mail_dsn env from, mail_throttle env, mail_spf env, mail_accept env]"

end
