(* ===== verification/Inbound_Rcpt.thy ===== *)
theory Inbound_Rcpt
  imports Inbound_Mail
begin

text \<open>The RCPT command (\<open>crates/smtp/src/inbound/rcpt.rs\<close>).\<close>

record rcpt_request =
  to_address :: string
  to_flags :: u64
  to_orcpt :: "string option"

definition drop_last_rcpt :: "session \<Rightarrow> session" where
  "drop_last_rcpt s = s\<lparr>rcpt_to := butlast (rcpt_to s)\<rparr>"

abbreviation count_ok :: "session \<Rightarrow> session" where
  "count_ok s \<equiv> s\<lparr>rcpt_oks := rcpt_oks s + 1\<rparr>"

definition rcpt_guards :: "('f, 'r, 'x) inbound_env \<Rightarrow> rcpt_request \<Rightarrow> 'x phase" where
  "rcpt_guards env to x =
    (let s = fst x; f = dsn_flags env in
     if mail_from s = None then reply ''503 5.5.1 MAIL is required first.'' x
     else if length (rcpt_to s) \<ge> unat (rcpt_max (params s)) then reply ''455 4.5.3 Too many recipients.'' x
     else if (to_flags to AND (RCPT_NOTIFY_DELAY f OR RCPT_NOTIFY_NEVER f OR RCPT_NOTIFY_SUCCESS f OR RCPT_NOTIFY_FAILURE f) \<noteq> 0
              \<or> to_orcpt to \<noteq> None) \<and> \<not> rcpt_dsn (params s)
     then reply ''501 5.5.4 DSN extension has been disabled.'' x
     else (None, x))"

definition rcpt_of :: "('f, 'r, 'x) inbound_env \<Rightarrow> rcpt_request \<Rightarrow> session_address" where
  "rcpt_of env to =
    \<lparr>addr = to_address to, addr_lcase = lowercase env (to_address to), addr_domain = domain_part (lowercase env (to_address to)),
     addr_flags = to_flags to, addr_dsn = to_orcpt to\<rparr>"

definition rcpt_push :: "('f, 'r, 'x) inbound_env \<Rightarrow> rcpt_request \<Rightarrow> 'x phase" where
  "rcpt_push env to x =
    (if list_ex (same_address (rcpt_of env to)) (rcpt_to (fst x)) then reply ''250 2.1.5 OK'' (count_ok (fst x), snd x)
     else (None, (fst x)\<lparr>rcpt_to := rcpt_to (fst x) @ [rcpt_of env to]\<rparr>, snd x))"

section \<open>Filters and rewriting\<close>

definition rcpt_script :: "('f, 'r, 'x) inbound_env \<Rightarrow> string option \<Rightarrow> 'x phase" where
  "rcpt_script env script x =
    (case script of
       None \<Rightarrow> (None, x)
     | Some n \<Rightarrow>
        (case run_script env n StageRcpt (fst x) (snd x) of
           (ScriptAccept mods, w) \<Rightarrow> (None, apply_envelopes env mods (fst x), w)
         | (ScriptReject m, w) \<Rightarrow> (Some (Reply m), drop_last_rcpt (fst x), w)
         | (_, w) \<Rightarrow> (None, fst x, w)))"

definition set_last :: "('a \<Rightarrow> 'a) \<Rightarrow> 'a list \<Rightarrow> 'a list" where
  "set_last f xs = butlast xs @ [f (last xs)]"

definition rewrite_rcpt :: "('f, 'r, 'x) inbound_env \<Rightarrow> string \<Rightarrow> session_address \<Rightarrow> session_address" where
  "rewrite_rcpt env a r =
    (if CHR ''@'' \<in> set a then r\<lparr>addr_lcase := lowercase env a, addr_domain := domain_part (lowercase env a), addr := a\<rparr> else r)"

definition rcpt_rewrite :: "('f, 'r, 'x) inbound_env \<Rightarrow> 'x phase" where
  "rcpt_rewrite env x =
    (case eval_string env RcptRewrite x of
       (None, w) \<Rightarrow> (None, fst x, w)
     | (Some a, w) \<Rightarrow>
        if rcpt_to (fst x) = [] then (Some Panics, fst x, w)
        else (None, (fst x)\<lparr>rcpt_to := set_last (rewrite_rcpt env a) (rcpt_to (fst x))\<rparr>, w))"

definition rcpt_duplicate :: "'x phase" where
  "rcpt_duplicate x =
    (let rs = rcpt_to (fst x) in
     if rs = [] then (Some Panics, x)
     else if length (filter (\<lambda>r. same_address r (last rs)) rs) > 1
     then reply ''250 2.1.5 OK'' (count_ok (drop_last_rcpt (fst x)), snd x)
     else (None, x))"

definition rcpt_filters :: "('f, 'r, 'x) inbound_env \<Rightarrow> 'x phase" where
  "rcpt_filters env x =
    (case eval_script env RcptScript x of
       (script, w) \<Rightarrow>
         if script \<noteq> None \<or> \<not> if_block_is_empty (session_config env RcptRewrite) \<or> stage_in_use env StageRcpt
         then run_phases [rcpt_script env script, run_filters env StageRcpt drop_last_rcpt, rcpt_rewrite env, rcpt_duplicate] (fst x, w)
         else (None, fst x, w))"

section \<open>Is it a mailbox here, or may it be relayed\<close>

definition rcpt_error :: "('f, 'r, 'x) inbound_env \<Rightarrow> string \<Rightarrow> 'x sess \<Rightarrow> outcome \<times> 'x sess" where
  "rcpt_error env text x =
    (let s = fst x; n = rcpt_errors s + 1 in
     case rcpt_fail2ban env (addr_lcase (last (rcpt_to s))) s (snd x) of
       (_, w) \<Rightarrow>
         ((if n \<ge> rcpt_errors_max (params s) then HangUp (crlf ''451 4.3.0 Too many errors, disconnecting.'') else Reply (crlf text)),
          drop_last_rcpt (s\<lparr>rcpt_errors := n\<rparr>), w))"

definition rcpt_relay :: "('f, 'r, 'x) inbound_env \<Rightarrow> 'x sess \<Rightarrow> (outcome + string list option) \<times> 'x sess" where
  "rcpt_relay env x =
    (case eval_bool_or env RcptRelay False x of
       (True, w) \<Rightarrow> (Inr None, fst x, w)
     | (False, w) \<Rightarrow> (case rcpt_error env ''550 5.1.2 Relay not allowed.'' (fst x, w) of (r, x) \<Rightarrow> (Inl r, x)))"

abbreviation unverifiable :: "'x sess \<Rightarrow> (outcome + string list option) \<times> 'x sess" where
  "unverifiable x \<equiv>
    (Inl (Reply (crlf ''451 4.4.3 Unable to verify address at this time.'')), drop_last_rcpt (fst x), snd x)"

text \<open>The members of the list if the address is one.\<close>

definition rcpt_verify :: "('f, 'r, 'x) inbound_env \<Rightarrow> 'x sess \<Rightarrow> (outcome + string list option) \<times> 'x sess" where
  "rcpt_verify env x =
    (let s = fst x; r = last (rcpt_to s) in
     if rcpt_to s = [] then (Inl Panics, x)
     else case eval_directory env RcptDirectory x of
       (None, w) \<Rightarrow> rcpt_relay env (s, w)
     | (Some d, w) \<Rightarrow>
        (case dir_is_local_domain env d (addr_domain r) w of
           (None, w) \<Rightarrow> unverifiable (s, w)
         | (Some False, w) \<Rightarrow> rcpt_relay env (s, w)
         | (Some True, w) \<Rightarrow>
            (case server_rcpt env d (addr_lcase r) w of
               (None, w) \<Rightarrow> unverifiable (s, w)
             | (Some RcptMailbox, w) \<Rightarrow> (Inr None, s, w)
             | (Some (RcptList members), w) \<Rightarrow> (Inr (Some members), s, w)
             | (Some RcptInvalid, w) \<Rightarrow>
                (case rcpt_error env ''550 5.1.2 Mailbox does not exist.'' (s, w) of (r, x) \<Rightarrow> (Inl r, x)))))"

section \<open>Rate limit and grey list\<close>

definition KV_GREYLIST :: u8 where "KV_GREYLIST = 16"

definition greylist_key :: "session \<Rightarrow> bytes" where
  "greylist_key s =
    KV_GREYLIST # bytes_of (case mail_from s of Some m \<Rightarrow> addr_lcase m | None \<Rightarrow> []) @ bytes_of (addr_lcase (last (rcpt_to s)))"

definition rcpt_greylist :: "('f, 'r, 'x) inbound_env \<Rightarrow> 'x phase" where
  "rcpt_greylist env x =
    (case grey_list_expiry env of
       None \<Rightarrow> (None, x)
     | Some lifetime \<Rightarrow>
        if authenticated (fst x) \<noteq> None then (None, x)
        else if mail_from (fst x) = None \<or> rcpt_to (fst x) = [] then (Some Panics, x)
        else
          (case read_clock env (snd x) of
             (t1, w) \<Rightarrow>
               (case key_exists t1 (greylist_key (fst x)) (lookup_store w) of
                  Inl _ \<Rightarrow> (None, fst x, w)
                | Inr True \<Rightarrow> (None, fst x, w)
                | Inr False \<Rightarrow>
                   (case read_clock env w of
                      (t2, w) \<Rightarrow>
                        (case key_set t2 (expires_in lifetime (key_value_new (greylist_key (fst x)) [])) (lookup_store w) of
                           Inl _ \<Rightarrow> (None, fst x, w)
                         | Inr d \<Rightarrow>
                            reply ''452 4.2.2 Greylisted, please try again in a few moments.''
                              (drop_last_rcpt (fst x), w\<lparr>lookup_store := d\<rparr>))))))"

definition rcpt_throttle :: "('f, 'r, 'x) inbound_env \<Rightarrow> 'x phase" where
  "rcpt_throttle env x =
    (case session_is_allowed env x of
       None \<Rightarrow> (Some Panics, x)
     | Some (True, w) \<Rightarrow> rcpt_greylist env (fst x, w)
     | Some (False, w) \<Rightarrow> reply ''452 4.4.5 Rate limit exceeded, try again later.'' (drop_last_rcpt (fst x), w))"

section \<open>Lists\<close>

text \<open>The members of a list take the place of its address and are reported to it.\<close>

definition add_member :: "('f, 'r, 'x) inbound_env \<Rightarrow> session_address \<Rightarrow> string \<Rightarrow> session_address list \<Rightarrow> session_address list" where
  "add_member env list_addr member rs =
    (let m = session_address_new (lowercase env) member in
     if \<not> list_ex (same_address m) rs \<and> addr_lcase m \<noteq> addr_lcase list_addr
     then rs @ [m\<lparr>addr_dsn := Some (''rfc822;'' @ addr_lcase list_addr), addr_flags := addr_flags list_addr\<rparr>]
     else rs)"

definition expand_list :: "('f, 'r, 'x) inbound_env \<Rightarrow> string list \<Rightarrow> session_address list \<Rightarrow> session_address list" where
  "expand_list env members rs = fold (add_member env (last rs)) members (butlast rs)"

definition rcpt_accept :: "('f, 'r, 'x) inbound_env \<Rightarrow> string list option \<Rightarrow> 'x phase" where
  "rcpt_accept env members x =
    (let s = fst x;
         s = (case members of None \<Rightarrow> s | Some ms \<Rightarrow> s\<lparr>rcpt_to := expand_list env ms (rcpt_to s)\<rparr>) in
     reply ''250 2.1.5 OK'' (count_ok s, snd x))"

definition rcpt_admit :: "('f, 'r, 'x) inbound_env \<Rightarrow> 'x phase" where
  "rcpt_admit env x =
    (case rcpt_verify env x of
       (Inl r, x) \<Rightarrow> (Some r, x)
     | (Inr members, x) \<Rightarrow> run_phases [rcpt_throttle env, rcpt_accept env members] x)"

definition handle_rcpt_to :: "('f, 'r, 'x) inbound_env \<Rightarrow> rcpt_request \<Rightarrow> 'x phase" where
  "handle_rcpt_to env to = run_phases [rcpt_guards env to, rcpt_push env to, rcpt_filters env, rcpt_admit env]"

end
