(* ===== verification/Inbound_Auth.thy ===== *)
theory Inbound_Auth
  imports Inbound_Rcpt
begin

text \<open>
  The AUTH command (\<open>crates/smtp/src/inbound/auth.rs\<close>) and the inquiries VRFY and EXPN
  (\<open>crates/smtp/src/inbound/vrfy.rs\<close>).
\<close>

section \<open>AUTH\<close>

record sasl_token =
  sasl_mechanism :: u64
  sasl_credentials :: credentials

definition sasl_token_from_mechanism :: "mechanism_bits \<Rightarrow> u64 \<Rightarrow> sasl_token option" where
  "sasl_token_from_mechanism b m =
    (if m = MECH_PLAIN b \<or> m = MECH_LOGIN b then Some \<lparr>sasl_mechanism = m, sasl_credentials = CredPlain [] []\<rparr>
     else if m = MECH_OAUTHBEARER b \<or> m = MECH_XOAUTH2 b then Some \<lparr>sasl_mechanism = m, sasl_credentials = CredOAuthBearer []\<rparr>
     else None)"

definition auth_error :: "string \<Rightarrow> 'x sess \<Rightarrow> outcome \<times> 'x sess" where
  "auth_error text x =
    (let s = fst x; n = auth_errors s + 1 in
     ((if n < auth_errors_max (params s) then Reply (crlf text)
       else HangUp (crlf text @ crlf ''455 4.3.0 Too many authentication errors, disconnecting.'')),
      s\<lparr>auth_errors := n\<rparr>, snd x))"

definition try_authenticate :: "('f, 'r, 'x) inbound_env \<Rightarrow> credentials \<Rightarrow> 'x sess \<Rightarrow> outcome \<times> 'x sess" where
  "try_authenticate env c x =
    (case auth_directory (params (fst x)) of
       None \<Rightarrow> (Reply (crlf ''454 4.7.0 Temporary authentication failure''), x)
     | Some d \<Rightarrow>
        (case server_authenticate env d c (fst x) (snd x) of
           (Inr token, w) \<Rightarrow>
             (Reply (crlf ''235 2.7.0 Authentication succeeded.''),
              eval_post_auth_params env ((fst x)\<lparr>authenticated := Some token\<rparr>, w))
         | (Inl e, w) \<Rightarrow>
            (case e of
               AuthFailed \<Rightarrow> auth_error ''535 5.7.8 Authentication credentials invalid.'' (fst x, w)
             | TokenExpired \<Rightarrow> auth_error ''535 5.7.8 OAuth token expired.'' (fst x, w)
             | MissingTotp \<Rightarrow>
                auth_error (''334 5.7.8 Missing TOTP token, try with '' @ [CHR 0x27] @ ''secret$totp_code'' @ [CHR 0x27] @ ''.'') (fst x, w)
             | Unauthorized \<Rightarrow> (Reply (crlf ''550 5.7.1 Your account is not authorized to use this service.''), fst x, w)
             | SecurityFailure \<Rightarrow> (Disconnect, fst x, w)
             | OtherFailure \<Rightarrow> (Reply (crlf ''454 4.7.0 Temporary authentication failure''), fst x, w))))"

text \<open>
  One response of the client: \<open>Inl\<close> is the next challenge with what is known so far, after which the
  exchange goes on; \<open>Inr\<close> ends it.
\<close>

definition sasl_empty :: "('f, 'r, 'x) inbound_env \<Rightarrow> sasl_token \<Rightarrow> string option" where
  "sasl_empty env t =
    (let b = mech_bits env; m = sasl_mechanism t in
     if m = MECH_PLAIN b \<or> m = MECH_XOAUTH2 b \<or> m = MECH_OAUTHBEARER b then Some ''334 Go ahead.''
     else if m = MECH_LOGIN b \<and> sasl_credentials t = CredPlain [] [] then Some ''334 VXNlcm5hbWU6''
     else None)"

abbreviation invalid_challenge :: "'x sess \<Rightarrow> (string \<times> sasl_token + outcome) \<times> 'x sess" where
  "invalid_challenge x \<equiv> (case auth_error ''500 5.5.6 Invalid challenge.'' x of (r, x) \<Rightarrow> (Inr r, x))"

definition authenticate_with ::
  "('f, 'r, 'x) inbound_env \<Rightarrow> credentials option \<Rightarrow> 'x sess \<Rightarrow> (string \<times> sasl_token + outcome) \<times> 'x sess" where
  "authenticate_with env c x =
    (case c of None \<Rightarrow> invalid_challenge x | Some c \<Rightarrow> (case try_authenticate env c x of (r, x) \<Rightarrow> (Inr r, x)))"

definition sasl_login ::
  "('f, 'r, 'x) inbound_env \<Rightarrow> sasl_token \<Rightarrow> string \<Rightarrow> 'x sess \<Rightarrow> (string \<times> sasl_token + outcome) \<times> 'x sess" where
  "sasl_login env t resp x =
    (case sasl_credentials t of
       CredPlain user secret \<Rightarrow>
         if user = [] then (Inl (''334 UGFzc3dvcmQ6'', t\<lparr>sasl_credentials := CredPlain (bytes_into_string env resp) secret\<rparr>), x)
         else authenticate_with env (Some (CredPlain user (bytes_into_string env resp))) x
     | CredOAuthBearer _ \<Rightarrow> invalid_challenge x)"

definition handle_sasl_response ::
  "('f, 'r, 'x) inbound_env \<Rightarrow> sasl_token \<Rightarrow> string \<Rightarrow> 'x sess \<Rightarrow> (string \<times> sasl_token + outcome) \<times> 'x sess" where
  "handle_sasl_response env t line x =
    (if line = [] then (case sasl_empty env t of Some prompt \<Rightarrow> (Inl (prompt, t), x) | None \<Rightarrow> invalid_challenge x)
     else case base64_decode env line of
       None \<Rightarrow> invalid_challenge x
     | Some resp \<Rightarrow>
        (let b = mech_bits env; m = sasl_mechanism t in
         if m = MECH_PLAIN b then authenticate_with env (sasl_decode_challenge_plain resp) x
         else if m = MECH_LOGIN b then sasl_login env t resp x
         else if m = MECH_OAUTHBEARER b \<or> m = MECH_XOAUTH2 b then authenticate_with env (sasl_decode_challenge_oauth resp) x
         else invalid_challenge x))"

section \<open>VRFY and EXPN\<close>

fun inquiry_lines :: "string list \<Rightarrow> string" where
  "inquiry_lines [] = []"
| "inquiry_lines [v] = crlf (''250 '' @ v)"
| "inquiry_lines (v # vs) = crlf (''250-'' @ v) @ inquiry_lines vs"

definition answer_inquiry :: "string \<Rightarrow> string \<Rightarrow> (bool + string list) \<Rightarrow> outcome" where
  "answer_inquiry not_found unable r =
    (case r of
       Inr vs \<Rightarrow> if vs \<noteq> [] then Reply (inquiry_lines vs) else Reply (crlf not_found)
     | Inl not_supported \<Rightarrow> Reply (crlf (if \<not> not_supported then unable else not_found)))"

definition handle_vrfy :: "('f, 'r, 'x) inbound_env \<Rightarrow> string \<Rightarrow> 'x phase" where
  "handle_vrfy env a x =
    (case eval_directory env RcptDirectory x of
       (None, w) \<Rightarrow> reply ''252 2.5.1 VRFY is disabled.'' (fst x, w)
     | (Some d, w) \<Rightarrow>
        if can_vrfy (params (fst x)) then
          (case server_vrfy env d (lowercase env a) w of
             (r, w) \<Rightarrow>
               (Some (answer_inquiry ''550 5.1.2 Address not found.'' ''252 2.4.3 Unable to verify address at this time.'' r), fst x, w))
        else reply ''252 2.5.1 VRFY is disabled.'' (fst x, w))"

definition handle_expn :: "('f, 'r, 'x) inbound_env \<Rightarrow> string \<Rightarrow> 'x phase" where
  "handle_expn env a x =
    (case eval_directory env RcptDirectory x of
       (None, w) \<Rightarrow> reply ''252 2.5.1 EXPN is disabled.'' (fst x, w)
     | (Some d, w) \<Rightarrow>
        if can_expn (params (fst x)) then
          (case server_expn env d (lowercase env a) w of
             (r, w) \<Rightarrow>
               (Some (answer_inquiry ''550 5.1.2 Mailing list not found.'' ''252 2.4.3 Unable to expand mailing list at this time.'' r), fst x, w))
        else reply ''252 2.5.1 EXPN is disabled.'' (fst x, w))"

end
