(* ===== verification/Inbound_Edits.thy ===== *)
theory Inbound_Edits
  imports Inbound_Auth
begin

text \<open>
  What milters and hooks may change in a message (\<open>apply_milter_modifications\<close> in
  \<open>crates/smtp/src/inbound/milter/message.rs\<close>): the envelope, the header and the body. The parser of
  headers and that of the parameters of MAIL and RCPT come from packages.
\<close>

record edit_env =
  edit_lowercase :: "string \<Rightarrow> string"
  mail_parameters :: "string \<Rightarrow> (u64 \<times> string option) option"
  rcpt_parameters :: "string \<Rightarrow> (u64 \<times> string option) option"
  raw_parsed_headers :: "string \<Rightarrow> (string \<times> string) list"
  raw_headers :: "string \<Rightarrow> string"
  raw_body :: "string \<Rightarrow> string"

definition strip_brackets :: "string \<Rightarrow> string" where
  "strip_brackets a =
    (let a = trim a in
     case a of
       [] \<Rightarrow> a
     | c # rest \<Rightarrow>
        if c = CHR ''<'' then (case rsplit_once (CHR ''>'') rest of Some (a, _) \<Rightarrow> trim a | None \<Rightarrow> trim rest) else a)"

section \<open>The envelope\<close>

definition envelope_address :: "edit_env \<Rightarrow> (string \<Rightarrow> (u64 \<times> string option) option) \<Rightarrow> string \<Rightarrow> string \<Rightarrow> session_address" where
  "envelope_address env parse a args =
    (let m = session_address_new (edit_lowercase env) (strip_brackets a) in
     if args = [] then m
     else case parse (args @ [ch_lf]) of Some (f, d) \<Rightarrow> m\<lparr>addr_flags := f, addr_dsn := d\<rparr> | None \<Rightarrow> m)"

fun edit_envelope :: "edit_env \<Rightarrow> modification \<Rightarrow> session \<Rightarrow> session" where
  "edit_envelope env (ChangeFrom a args) s = s\<lparr>mail_from := Some (envelope_address env (mail_parameters env) a args)\<rparr>"
| "edit_envelope env (AddRcpt a args) s =
    (if CHR ''@'' \<in> set (strip_brackets a) then
       (let r = envelope_address env (rcpt_parameters env) a args in
        if list_ex (same_address r) (rcpt_to s) then s else s\<lparr>rcpt_to := rcpt_to s @ [r]\<rparr>)
     else s)"
| "edit_envelope env (DeleteRcpt a) s = s\<lparr>rcpt_to := filter (\<lambda>r. addr_lcase r \<noteq> strip_brackets a) (rcpt_to s)\<rparr>"
| "edit_envelope env _ s = s"

section \<open>Header and body\<close>

text \<open>A change of the header: position, name, value, and whether it replaces a field.\<close>

type_synonym header_change = "nat \<times> string \<times> string \<times> bool"

definition has_header :: "edit_env \<Rightarrow> string \<Rightarrow> string \<Rightarrow> bool" where
  "has_header env raw name \<longleftrightarrow> list_ex (\<lambda>(n, _). eq_ignore_ascii_case n name) (raw_parsed_headers env raw)"

fun header_change_of :: "edit_env \<Rightarrow> string \<Rightarrow> modification \<Rightarrow> (header_change \<times> bool) option" where
  "header_change_of env raw (AddHeader n v) = Some ((0, n, v, False), False)"
| "header_change_of env raw (InsertHeader i n v) = Some ((unat i, n, v, False), True)"
| "header_change_of env raw (ChangeHeader i n v) =
    (if v = [] \<or> has_header env raw n then Some ((unat i, n, v, True), True) else Some ((0, n, v, False), False))"
| "header_change_of env raw (Quarantine reason) = Some ((0, ''X-Quarantine'', reason, False), False)"
| "header_change_of env raw _ = None"

fun body_change :: "modification \<Rightarrow> string" where
  "body_change (ReplaceBody bs) = map (\<lambda>b. char_of (unat b)) bs"
| "body_change _ = []"

text \<open>The \<open>n\<close>-th field of a name, counted from one, is replaced or, by an empty value, removed.\<close>

fun replace_header :: "nat \<Rightarrow> string \<Rightarrow> string \<Rightarrow> (string \<times> string) list \<Rightarrow> (string \<times> string) list" where
  "replace_header n name v [] = []"
| "replace_header n name v ((h, w) # hs) =
    (if eq_ignore_ascii_case h name then
       (if n = 1 then (if v \<noteq> [] then (h, v) # hs else hs)
        else (h, w) # replace_header (n - 1) name v hs)
     else (h, w) # replace_header n name v hs)"

text \<open>The position of the \<open>n\<close>-th field of a name, of the last one if there are fewer, else zero.\<close>

fun header_position :: "nat \<Rightarrow> string \<Rightarrow> nat \<Rightarrow> nat \<Rightarrow> (string \<times> string) list \<Rightarrow> nat" where
  "header_position n name pos found [] = found"
| "header_position n name pos found ((h, _) # hs) =
    (if eq_ignore_ascii_case h name then
       (if n = 1 then pos else header_position (n - 1) name (pos + 1) pos hs)
     else header_position n name (pos + 1) found hs)"

fun change_header :: "header_change \<Rightarrow> (string \<times> string) list \<Rightarrow> (string \<times> string) list" where
  "change_header (i, name, v, True) hs = (if i = 0 then hs else replace_header i name v hs)"
| "change_header (i, name, v, False) hs =
    (let p = (if i > 0 then header_position i name 0 0 hs else 0) in take p hs @ (name, v) # drop p hs)"

definition end_line :: "string \<Rightarrow> string" where
  "end_line v = (if v \<noteq> [] \<and> last v = ch_lf then v else crlf v)"

definition write_field :: "string \<times> string \<Rightarrow> string" where
  "write_field = (\<lambda>(h, v).
    h @ (if v \<noteq> [] \<and> is_ascii_whitespace (hd v) then '':'' else '': '') @ end_line v)"

definition edit_message :: "edit_env \<Rightarrow> string \<Rightarrow> modification list \<Rightarrow> string option" where
  "edit_message env raw mods =
    (let changes = List.map_filter (header_change_of env raw) mods;
         body = concat (map body_change mods);
         new_body = (if body \<noteq> [] then body else raw_body env raw) in
     if changes = [] then (if body \<noteq> [] then Some (raw_headers env raw @ body) else None)
     else if list_ex snd changes then
       Some (concat (map write_field (fold change_header (map fst changes) (raw_parsed_headers env raw)))
         @ [ch_cr, ch_lf] @ new_body)
     else
       Some (concat (map (\<lambda>((_, h, v, _), _). h @ '': '' @ end_line v) changes) @ raw_headers env raw @ new_body))"

definition apply_milter_modifications :: "edit_env \<Rightarrow> modification list \<Rightarrow> string \<Rightarrow> session \<Rightarrow> string option \<times> session" where
  "apply_milter_modifications env mods raw s = (edit_message env raw mods, fold (edit_envelope env) mods s)"

end
