(* ===== verification/Inbound_Checks.thy ===== *)
theory Inbound_Checks
  imports Inbound_Edits
begin

text \<open>
  The message of a transaction (\<open>crates/smtp/src/inbound/data.rs\<close>): checks, authentication, the filters,
  the recipients as they are queued, and the queue itself.

  The checks are phases again; besides the session they pass on what is known about the message. Mail
  authentication, the parser of messages, the spam filter and the text of the headers that the
  \<open>mail-auth\<close> package writes are parameters.
\<close>

section \<open>Results of mail authentication\<close>

datatype auth_result = ResPass | ResNeutral | ResFail | ResPermError | ResTempError | ResNone

datatype dmarc_policy = PolicyNone | PolicyQuarantine | PolicyReject | PolicyUnspecified

record dkim_output =
  dkim_result :: auth_result
  failure_report_addr :: "string option"

record arc_output =
  arc_result :: auth_result
  can_be_sealed :: bool

record dmarc_output =
  dmarc_spf_result :: auth_result
  dmarc_dkim_result :: auth_result
  dmarc_policy :: dmarc_policy
  requested_reports :: bool

datatype address_match = MatchStart string | MatchEnd string | MatchEquals string

datatype spam_action = SpamAllow string "bool list" "bool option" | SpamDiscard | SpamReject | SpamDisabled

record message_facts =
  raw_message :: string
  dmarc_strategy :: verify_strategy
  dkim_outputs :: "dkim_output list"
  arc_found :: "arc_output option"
  arc_sealer :: "string option"
  dmarc_result :: "auth_result option"
  found_policy :: "dmarc_policy option"
  auth_header :: string
  new_headers :: string
  new_id :: u64
  spam_training :: "bool option"
  modifications :: "modification list"
  edited :: "string option"

record ('f, 'r, 'x) data_env =
  inbound :: "('f, 'r, 'x) inbound_env"
  edits :: edit_env
  queue_env :: spool_env
  quota_env :: "('f, 'r) expr_item limit_env"
  queue_quotas_of :: "('f, 'r) expr_item queue_quotas"
  parses :: "string \<Rightarrow> bool"
  received_headers_count :: "string \<Rightarrow> u64"
  has_date_header :: "string \<Rightarrow> bool"
  has_message_id_header :: "string \<Rightarrow> bool"
  dkim_report_send :: "('f, 'r) if_block"
  dns_dkim :: "string \<Rightarrow> 'x world \<Rightarrow> dkim_output list \<times> 'x world"
  send_dkim_report :: "string \<Rightarrow> u64 \<times> u64 \<Rightarrow> bool \<Rightarrow> dkim_output \<Rightarrow> session \<Rightarrow> 'x world \<Rightarrow> 'x world"
  get_arc_sealer :: "string \<Rightarrow> bool"
  dns_arc :: "string \<Rightarrow> 'x world \<Rightarrow> arc_output \<times> 'x world"
  dns_dmarc :: "string \<Rightarrow> string \<Rightarrow> dkim_output list \<Rightarrow> spf_output \<Rightarrow> 'x world \<Rightarrow> dmarc_output \<times> 'x world"
  auth_results_text :: "session \<Rightarrow> dkim_output list \<Rightarrow> dmarc_output option \<Rightarrow> string"
  send_dmarc_report :: "bool \<Rightarrow> dmarc_output \<Rightarrow> message_facts \<Rightarrow> session \<Rightarrow> 'x world \<Rightarrow> 'x world"
  report_addresses :: "address_match list"
  forward_reports :: bool
  analyze_report :: "string \<Rightarrow> 'x world \<Rightarrow> 'x world"
  generate_queue_id :: "'x world \<Rightarrow> u64 \<times> 'x world"
  tls_version_and_cipher :: "session \<Rightarrow> string \<times> string"
  date_header :: "'x world \<Rightarrow> string \<times> 'x world"
  message_id_header :: "string \<Rightarrow> 'x world \<Rightarrow> string \<times> 'x world"
  received_spf_text :: "session \<Rightarrow> spf_output \<Rightarrow> string"
  arc_seal :: "string \<Rightarrow> message_facts \<Rightarrow> session \<Rightarrow> string option"
  spam_enabled :: bool
  spam_filter_classify :: "message_facts \<Rightarrow> session \<Rightarrow> 'x world \<Rightarrow> spam_action \<times> 'x world"
  run_data_script :: "string \<Rightarrow> message_facts \<Rightarrow> session \<Rightarrow> 'x world \<Rightarrow> script_result \<times> 'x world"
  dkim_sign :: "string \<Rightarrow> string \<Rightarrow> string \<Rightarrow> string option"
  show_hex :: "u64 \<Rightarrow> string"
  show_hex_upper :: "u64 \<Rightarrow> string"

type_synonym 'x data_phase = "message_facts \<Rightarrow> 'x sess \<Rightarrow> (outcome + message_facts) \<times> 'x sess"

fun run_data_phases :: "'x data_phase list \<Rightarrow> 'x data_phase" where
  "run_data_phases [] m x = (Inr m, x)"
| "run_data_phases (p # ps) m x = (case p m x of (Inr m, x) \<Rightarrow> run_data_phases ps m x | (Inl r, x) \<Rightarrow> (Inl r, x))"

abbreviation data_reply :: "string \<Rightarrow> 'x sess \<Rightarrow> (outcome + message_facts) \<times> 'x sess" where
  "data_reply text x \<equiv> (Inl (Reply (crlf text)), x)"

abbreviation accepted_text :: string where
  "accepted_text \<equiv> ''250 2.0.0 Message queued for delivery.''"

abbreviation count_message :: "session \<Rightarrow> session" where
  "count_message s \<equiv> s\<lparr>messages_sent := messages_sent s + 1\<rparr>"

section \<open>Checks\<close>

definition data_loop_check :: "('f, 'r, 'x) data_env \<Rightarrow> 'x data_phase" where
  "data_loop_check env m x =
    (if \<not> parses env (raw_message m) then data_reply ''550 5.7.7 Failed to parse message.'' x
     else case eval_usize_or (inbound env) DataMaxReceivedHeaders 50 x of
       (n, w) \<Rightarrow>
         if received_headers_count env (raw_message m) > n
         then data_reply ''450 4.4.6 Too many Received headers. Possible loop detected.'' (fst x, w)
         else (Inr m, fst x, w))"

definition report_dkim :: "('f, 'r, 'x) data_env \<Rightarrow> bool \<Rightarrow> dkim_output list \<Rightarrow> 'x sess \<Rightarrow> 'x world" where
  "report_dkim env refused outs x =
    (case eval_if (session_eval_env (inbound env) (fst x)) (conv_rate (fl_of (inbound env))) (dkim_report_send env) (snd x) of
       (None, w) \<Rightarrow> w
     | (Some rt, w) \<Rightarrow>
        fold (\<lambda>o' w. case failure_report_addr o' of Some a \<Rightarrow> send_dkim_report env a rt refused o' (fst x) w | None \<Rightarrow> w) outs w)"

definition data_dkim :: "('f, 'r, 'x) data_env \<Rightarrow> 'x data_phase" where
  "data_dkim env m x =
    (case eval_verify_or (inbound env) DkimVerify x of (dkim, w) \<Rightarrow>
     case eval_verify_or (inbound env) DmarcVerify (fst x, w) of (dmarc, w) \<Rightarrow>
       let m = m\<lparr>dmarc_strategy := dmarc\<rparr> in
       if verifies dkim \<or> verifies dmarc then
         (case dns_dkim env (raw_message m) w of (outs, w) \<Rightarrow>
            let refused = is_strict dkim \<and> \<not> list_ex (\<lambda>o'. dkim_result o' = ResPass) outs;
                w = report_dkim env refused outs (fst x, w) in
            if refused then
              (if list_ex (\<lambda>o'. dkim_result o' = ResTempError) outs
               then data_reply ''451 4.7.20 No passing DKIM signatures found.'' (fst x, w)
               else data_reply ''550 5.7.20 No passing DKIM signatures found.'' (fst x, w))
            else (Inr (m\<lparr>dkim_outputs := outs\<rparr>), fst x, w))
       else (Inr m, fst x, w))"

definition data_arc :: "('f, 'r, 'x) data_env \<Rightarrow> 'x data_phase" where
  "data_arc env m x =
    (case eval_verify_or (inbound env) ArcVerify x of (arc, w) \<Rightarrow>
     case eval_auth (inbound env) conv_string ArcSeal (fst x, w) of (name, w) \<Rightarrow>
       let sealer = (case name of Some n \<Rightarrow> if get_arc_sealer env n then Some n else None | None \<Rightarrow> None);
           m = m\<lparr>arc_sealer := sealer\<rparr> in
       if verifies arc \<or> sealer \<noteq> None then
         (case dns_arc env (raw_message m) w of (out, w) \<Rightarrow>
            if is_strict arc \<and> arc_result out \<noteq> ResPass \<and> arc_result out \<noteq> ResNone then
              (if arc_result out = ResTempError then data_reply ''451 4.7.29 ARC validation failed.'' (fst x, w)
               else data_reply ''550 5.7.29 ARC validation failed.'' (fst x, w))
            else (Inr (m\<lparr>arc_found := Some out\<rparr>), fst x, w))
       else (Inr m, fst x, w))"

definition matches_address :: "address_match \<Rightarrow> string \<Rightarrow> bool" where
  "matches_address am a \<longleftrightarrow>
    (case am of MatchStart p \<Rightarrow> starts_with p a | MatchEnd p \<Rightarrow> ends_with p a | MatchEquals v \<Rightarrow> a = v)"

definition is_report :: "('f, 'r, 'x) data_env \<Rightarrow> session \<Rightarrow> bool" where
  "is_report env s \<longleftrightarrow> list_ex (\<lambda>am. list_ex (\<lambda>r. matches_address am (addr_lcase r)) (rcpt_to s)) (report_addresses env)"

definition dmarc_result_of :: "dmarc_output \<Rightarrow> auth_result" where
  "dmarc_result_of d =
    (if dmarc_spf_result d = ResPass \<or> dmarc_dkim_result d = ResPass then ResPass
     else if dmarc_spf_result d \<noteq> ResNone then dmarc_spf_result d
     else if dmarc_dkim_result d \<noteq> ResNone then dmarc_dkim_result d else ResNone)"

text \<open>The source unwraps the sender here and panics if there is none.\<close>

definition data_dmarc :: "('f, 'r, 'x) data_env \<Rightarrow> 'x data_phase" where
  "data_dmarc env m x =
    (case mail_from (fst x) of
       None \<Rightarrow> (Inl Panics, x)
     | Some from \<Rightarrow>
     case spf_mail_from (fst x) of
       Some spf \<Rightarrow>
         let dmarc = dmarc_strategy m in
         if verifies dmarc then
           (case dns_dmarc env (raw_message m) (if addr_domain from \<noteq> [] then addr_domain from else helo (fst x))
                   (dkim_outputs m) spf (snd x) of (d, w) \<Rightarrow>
              let pass = (dmarc_result_of d = ResPass);
                  refused = (is_strict dmarc \<and> dmarc_policy d = PolicyReject \<and> \<not> pass);
                  temp_fail = (refused \<and> dmarc_spf_result d = ResTempError \<or> dmarc_dkim_result d = ResTempError);
                  m = m\<lparr>auth_header := auth_results_text env (fst x) (dkim_outputs m) (Some d),
                        dmarc_result := Some (dmarc_result_of d), found_policy := Some (dmarc_policy d)\<rparr>;
                  w = (if requested_reports d \<and> \<not> is_report env (fst x) then send_dmarc_report env refused d m (fst x) w else w) in
              if refused then
                (if temp_fail then data_reply ''451 4.7.1 Email temporarily rejected per DMARC policy.'' (fst x, w)
                 else data_reply ''550 5.7.1 Email rejected per DMARC policy.'' (fst x, w))
              else (Inr m, fst x, w))
         else (Inr (m\<lparr>auth_header := auth_results_text env (fst x) (dkim_outputs m) None\<rparr>), x)
     | None \<Rightarrow> (Inr (m\<lparr>auth_header := auth_results_text env (fst x) (dkim_outputs m) None\<rparr>), x))"

definition data_report :: "('f, 'r, 'x) data_env \<Rightarrow> 'x data_phase" where
  "data_report env m x =
    (if is_report env (fst x) then
       (let w = analyze_report env (raw_message m) (snd x) in
        if \<not> forward_reports env then data_reply accepted_text (count_message (fst x), w) else (Inr m, fst x, w))
     else (Inr m, x))"

section \<open>Headers\<close>

definition add_header :: "string \<Rightarrow> message_facts \<Rightarrow> message_facts" where
  "add_header h m = m\<lparr>new_headers := new_headers m @ h\<rparr>"

definition ptr_name :: "session \<Rightarrow> string" where
  "ptr_name s =
    (case iprev s of
       None \<Rightarrow> ''unknown''
     | Some i \<Rightarrow>
        (case iprev_ptr i of
           Some (p # _) \<Rightarrow> if p \<noteq> [] \<and> last p = CHR ''.'' then butlast p else p
         | _ \<Rightarrow> ''unknown''))"

definition geo_text :: "session \<Rightarrow> string" where
  "geo_text s =
    (if asn s = None \<and> country s = None then []
     else '' ('' @
       (case asn s of
          None \<Rightarrow> []
        | Some (i, name) \<Rightarrow> ''AS'' @ show_nat (unat i) @ (case name of Some n \<Rightarrow> '' '' @ n | None \<Rightarrow> [])) @
       (case country s of None \<Rightarrow> [] | Some c \<Rightarrow> (if asn s \<noteq> None then '', '' else []) @ c) @ '')'')"

definition received_text :: "('f, 'r, 'x) data_env \<Rightarrow> u64 \<Rightarrow> string \<Rightarrow> session \<Rightarrow> string" where
  "received_text env qid date s =
    (let line = [ch_cr, ch_lf, ch_tab] in
     ''Received: from '' @ helo s @ '' ('' @ ptr_name s @ '' ['' @ remote_ip_str s @ '']'' @ geo_text s @ '')'' @ line @
     (if is_tls s then
        (case tls_version_and_cipher env s of (v, c) \<Rightarrow> ''(using '' @ v @ '' with cipher '' @ c @ '')'' @ line)
      else []) @
     ''by '' @ session_hostname s @ '' (Stalwart SMTP) with '' @
     (if is_tls s then (if \<not> is_authenticated s then ''ESMTPS'' else ''ESMTPSA'')
      else if \<not> is_authenticated s then ''ESMTP'' else ''ESMTPA'') @
     '' id '' @ show_hex_upper env qid @ '';'' @ line @ crlf date)"

text \<open>Adds a header if a setting says so; the header may need the clock.\<close>

definition optional_header ::
  "('f, 'r, 'x) data_env \<Rightarrow> session_setting \<Rightarrow> (message_facts \<Rightarrow> 'x sess \<Rightarrow> string \<times> 'x world) \<Rightarrow> 'x data_phase" where
  "optional_header env k h m x =
    (case eval_bool_or (inbound env) k True x of
       (False, w) \<Rightarrow> (Inr m, fst x, w)
     | (True, w) \<Rightarrow> (case h m (fst x, w) of (t, w) \<Rightarrow> (Inr (add_header t m), fst x, w)))"

definition data_queue_id :: "('f, 'r, 'x) data_env \<Rightarrow> 'x data_phase" where
  "data_queue_id env m x = (case generate_queue_id env (snd x) of (i, w) \<Rightarrow> (Inr (m\<lparr>new_id := i\<rparr>), fst x, w))"

definition data_received :: "('f, 'r, 'x) data_env \<Rightarrow> 'x data_phase" where
  "data_received env =
    optional_header env DataAddReceived
      (\<lambda>m x. case date_header env (snd x) of (date, w) \<Rightarrow> (received_text env (new_id m) date (fst x), w))"

definition data_auth_results :: "('f, 'r, 'x) data_env \<Rightarrow> 'x data_phase" where
  "data_auth_results env = optional_header env DataAddAuthResults (\<lambda>m x. (auth_header m, snd x))"

definition data_received_spf :: "('f, 'r, 'x) data_env \<Rightarrow> 'x data_phase" where
  "data_received_spf env m x =
    (case spf_mail_from (fst x) of
       None \<Rightarrow> (Inr m, x)
     | Some o' \<Rightarrow> optional_header env DataAddReceivedSpf (\<lambda>m x. (received_spf_text env (fst x) o', snd x)) m x)"

definition data_arc_seal :: "('f, 'r, 'x) data_env \<Rightarrow> 'x data_phase" where
  "data_arc_seal env m x =
    (case (arc_sealer m, arc_found m) of
       (Some name, Some out) \<Rightarrow>
         if dkim_outputs m \<noteq> [] \<and> can_be_sealed out then
           (case arc_seal env name m (fst x) of Some h \<Rightarrow> (Inr (add_header h m), x) | None \<Rightarrow> (Inr m, x))
         else (Inr m, x)
     | _ \<Rightarrow> (Inr m, x))"

section \<open>Filters\<close>

text \<open>\<open>zip\<close> of the verdicts with the recipients.\<close>

fun mark_spam :: "bool list \<Rightarrow> session_address list \<Rightarrow> session_address list" where
  "mark_spam (b # bs) (r # rs) = (if b then r\<lparr>addr_flags := addr_flags r OR RCPT_SPAM_PAYLOAD\<rparr> else r) # mark_spam bs rs"
| "mark_spam _ rs = rs"

text \<open>\<open>spam_classify\<close> does not look at mail of authenticated sessions.\<close>

definition spam_classify :: "('f, 'r, 'x) data_env \<Rightarrow> message_facts \<Rightarrow> 'x sess \<Rightarrow> spam_action \<times> 'x world" where
  "spam_classify env m x =
    (if \<not> is_authenticated (fst x) then spam_filter_classify env m (fst x) (snd x) else (SpamDisabled, snd x))"

definition data_spam :: "('f, 'r, 'x) data_env \<Rightarrow> 'x data_phase" where
  "data_spam env m x =
    (if \<not> spam_enabled env then (Inr m, x)
     else case eval_bool_or (inbound env) DataSpamFilter True x of
       (False, w) \<Rightarrow> (Inr m, fst x, w)
     | (True, w) \<Rightarrow>
        (case spam_classify env m (fst x, w) of
           (SpamAllow headers results train, w) \<Rightarrow>
             (Inr ((add_header headers m)\<lparr>spam_training := train\<rparr>), (fst x)\<lparr>rcpt_to := mark_spam results (rcpt_to (fst x))\<rparr>, w)
         | (SpamDiscard, w) \<Rightarrow> data_reply accepted_text (count_message (fst x), w)
         | (SpamReject, w) \<Rightarrow>
             data_reply ''550 5.7.1 Message rejected due to excessive spam score.'' (count_message (fst x), w)
         | (SpamDisabled, w) \<Rightarrow> (Inr m, fst x, w)))"

fun replaces_body :: "modification \<Rightarrow> bool" where
  "replaces_body (ReplaceBody _) = True"
| "replaces_body _ = False"

text \<open>An empty answer of a filter ends the connection.\<close>

definition filter_outcome :: "filter_response \<Rightarrow> outcome" where
  "filter_outcome r = (if filter_message r = [] then Disconnect else Reply (filter_message r))"

definition data_filters :: "('f, 'r, 'x) data_env \<Rightarrow> 'x data_phase" where
  "data_filters env m x =
    (case run_milters (inbound env) StageData (Some (raw_message m)) (fst x) (snd x) of
       (Inl r, w) \<Rightarrow> (Inl (filter_outcome r), fst x, w)
     | (Inr ms, w) \<Rightarrow>
        (case run_mta_hooks (inbound env) StageData (Some (raw_message m)) (fst x) w of
           (Inl r, w) \<Rightarrow> (Inl (filter_outcome r), fst x, w)
         | (Inr hs, w) \<Rightarrow>
            (let ms = (if hs \<noteq> [] then filter (\<lambda>c. \<not> replaces_body c) ms @ hs else ms) in
             if ms = [] then (Inr m, fst x, w)
             else
               (case apply_milter_modifications (edits env) ms (raw_message m) (fst x) of
                  (e, s) \<Rightarrow> (Inr (m\<lparr>modifications := ms, edited := e\<rparr>), s, w)))))"

fun script_header :: "script_modification \<Rightarrow> message_facts \<Rightarrow> message_facts" where
  "script_header (ScriptAddHeader n v) m = add_header (n @ '': '' @ end_line v) m"
| "script_header (ScriptSetEnvelope _ _) m = m"

definition apply_script :: "('f, 'r, 'x) data_env \<Rightarrow> script_modification list \<Rightarrow> 'x data_phase" where
  "apply_script env mods m x = (Inr (fold script_header mods m), apply_envelopes (inbound env) mods (fst x), snd x)"

definition data_script :: "('f, 'r, 'x) data_env \<Rightarrow> 'x data_phase" where
  "data_script env m x =
    (case eval_script (inbound env) DataScript x of
       (None, w) \<Rightarrow> (Inr m, fst x, w)
     | (Some n, w) \<Rightarrow>
        (case run_data_script env n m (fst x) w of
           (ScriptAccept mods, w) \<Rightarrow> apply_script env mods m (fst x, w)
         | (ScriptReplace text mods, w) \<Rightarrow> apply_script env mods (m\<lparr>edited := Some text\<rparr>) (fst x, w)
         | (ScriptReject text, w) \<Rightarrow> (Inl (if text = [] then Disconnect else Reply text), fst x, w)
         | (ScriptDiscard, w) \<Rightarrow> data_reply accepted_text (fst x, w)))"

end
