(* ===== verification/Inbound_Queue.thy ===== *)
theory Inbound_Queue
  imports Inbound_Checks
begin

text \<open>
  How a transaction becomes a queued message (\<open>build_message\<close> and the end of \<open>queue_message\<close> in
  \<open>crates/smtp/src/inbound/data.rs\<close>).
\<close>

section \<open>Recipients\<close>

text \<open>\<open>sort_unstable\<close>: the addresses of a transaction differ, so that the order is fixed by them.\<close>

fun insert_address :: "session_address \<Rightarrow> session_address list \<Rightarrow> session_address list" where
  "insert_address a [] = [a]"
| "insert_address a (b # bs) = (if address_le a b then a # b # bs else b # insert_address a bs)"

definition sort_addresses :: "session_address list \<Rightarrow> session_address list" where
  "sort_addresses as = foldr insert_address as []"

definition notify_flags :: "dsn_env \<Rightarrow> u64 \<Rightarrow> u64" where
  "notify_flags f fs =
    (if fs AND (RCPT_NOTIFY_DELAY f OR RCPT_NOTIFY_FAILURE f OR RCPT_NOTIFY_SUCCESS f OR RCPT_NOTIFY_NEVER f) \<noteq> 0 then fs
     else fs OR RCPT_NOTIFY_DELAY f OR RCPT_NOTIFY_FAILURE f)"

text \<open>
  When the sender is first told of a delay, and when the message expires, by the limit of the command
  (\<open>delivery_by\<close>, an \<open>i64\<close>) and the strategy of the queue.
\<close>

definition first_notify :: "queue_strategy \<Rightarrow> u64" where
  "first_notify q = (case strategy_notify q of t # _ \<Rightarrow> t | [] \<Rightarrow> 86400)"

definition notify_by :: "u64 \<Rightarrow> queue_strategy \<Rightarrow> u64 \<times> queue_expiry" where
  "notify_by by' q =
    (case strategy_expiry q of
       Ttl t \<Rightarrow>
         ((if 0 <s by' then (if t > by' then by' else first_notify q)
           else (if t > - by' then t - (- by') else first_notify q)), Ttl t)
     | Attempts _ \<Rightarrow> (first_notify q, Ttl (if by' <s 0 then - by' else by')))"

definition notify_and_expiry :: "bool \<Rightarrow> u64 \<Rightarrow> u64 \<Rightarrow> u64 \<Rightarrow> queue_strategy \<Rightarrow> u32 schedule \<times> queue_expiry" where
  "notify_and_expiry by_return by' hold now q =
    (if by' = 0 then
       (schedule_later now (hold + first_notify q),
        case strategy_expiry q of Ttl t \<Rightarrow> Ttl (hold + t) | Attempts n \<Rightarrow> Attempts n)
     else if by_return then (schedule_later now (hold + first_notify q), Ttl by')
     else
       (case notify_by by' q of
          (t, e) \<Rightarrow>
            ((schedule_later now (hold + t))\<lparr>inner := word_of_nat (max (length (strategy_notify q)) 1 - 1)\<rparr>, e)))"

definition queue_of :: "dsn_env \<Rightarrow> message \<Rightarrow> recipient \<Rightarrow> queue_strategy" where
  "queue_of env m r = get_queue_or_default env (case queue_expr env m r of Some n \<Rightarrow> n | None \<Rightarrow> ''default'')"

text \<open>One recipient: two readings of the clock, for the next attempt and for the notification.\<close>

definition build_recipient ::
  "('f, 'r, 'x) data_env \<Rightarrow> session \<Rightarrow> session_address \<Rightarrow> message \<times> 'x world \<Rightarrow> message \<times> 'x world" where
  "build_recipient env s a = (\<lambda>(m, w).
    case read_clock (inbound env) w of (t1, w) \<Rightarrow>
    case read_clock (inbound env) w of (t2, w) \<Rightarrow>
      let f = dsn (queue_env env);
          r = (recipient_new (lower_domain (queue_env env)) t1 (addr a))\<lparr>flags := notify_flags f (addr_flags a), orcpt := addr_dsn a\<rparr>;
          q = queue_of f (m\<lparr>recipients := recipients m @ [r]\<rparr>) r;
          ne = notify_and_expiry (message_flags m AND MAIL_BY_RETURN (inbound env) \<noteq> 0) (delivery_by s) (future_release s) t2 q
      in (m\<lparr>recipients := recipients m @
              [r\<lparr>retry := (if future_release s = 0 then schedule_now t1 else schedule_later t1 (future_release s)),
                 notify := fst ne, expires := snd ne, queue := virtual_queue q\<rparr>]\<rparr>, w))"

definition build_message ::
  "('f, 'r, 'x) data_env \<Rightarrow> u64 \<Rightarrow> session_address \<Rightarrow> session_address list \<Rightarrow> 'x sess \<Rightarrow> message_wrapper \<times> 'x world" where
  "build_message env qid from rcpts x =
    (case read_clock (inbound env) (snd x) of
       (now, w) \<Rightarrow>
         let m = \<lparr>created = now, blob_hash = replicate 32 (CHR 0x00), return_path = lower_domain (queue_env env) (addr from),
                  recipients = [], message_flags = addr_flags from, env_id = addr_dsn from, priority = mail_priority (fst x),
                  message_size = 0, quota_keys = [], received_from_ip = remote_ip (fst x),
                  received_via_port = ucast (local_port (fst x))\<rparr> in
         (case fold (build_recipient env (fst x)) (sort_addresses rcpts) (m, w) of
            (m, w) \<Rightarrow>
              (\<lparr>queue_id = qid, queue_name = DEFAULT_QUEUE_NAME, is_multi_queue = False, span_id = 0, message = m\<rparr>, w)))"

section \<open>The last headers and the signatures\<close>

definition header_unless ::
  "(string \<Rightarrow> bool) \<Rightarrow> 'x data_phase \<Rightarrow> 'x data_phase" where
  "header_unless has p m x = (if has (raw_message m) then (Inr m, x) else p m x)"

definition data_date :: "('f, 'r, 'x) data_env \<Rightarrow> 'x data_phase" where
  "data_date env =
    header_unless (has_date_header env)
      (optional_header env DataAddDate (\<lambda>m x. case date_header env (snd x) of (d, w) \<Rightarrow> (''Date: '' @ crlf d, w)))"

definition data_message_id :: "('f, 'r, 'x) data_env \<Rightarrow> 'x data_phase" where
  "data_message_id env =
    header_unless (has_message_id_header env)
      (optional_header env DataAddMessageId
        (\<lambda>m x. case message_id_header env (session_hostname (fst x)) (snd x) of (i, w) \<Rightarrow> (''Message-ID: '' @ crlf i, w)))"

definition final_text :: "message_facts \<Rightarrow> string" where
  "final_text m = (case edited m of Some t \<Rightarrow> t | None \<Rightarrow> raw_message m)"

definition conv_strings :: "'f expr_value \<Rightarrow> string list option" where
  "conv_strings v = those (map conv_string (into_array v))"

definition sign_with :: "('f, 'r, 'x) data_env \<Rightarrow> string \<Rightarrow> message_facts \<Rightarrow> message_facts" where
  "sign_with env name m =
    (case dkim_sign env name (new_headers m) (final_text m) of Some h \<Rightarrow> add_header h m | None \<Rightarrow> m)"

definition data_sign :: "('f, 'r, 'x) data_env \<Rightarrow> 'x data_phase" where
  "data_sign env m x =
    (case or_else [] (eval_auth (inbound env) conv_strings DkimSign x) of
       (names, w) \<Rightarrow> (Inr (fold (sign_with env) names m), fst x, w))"

section \<open>Queueing\<close>

definition message_source_of :: "message_facts \<Rightarrow> session \<Rightarrow> message_source" where
  "message_source_of m s =
    (if \<not> is_authenticated s then SourceUnauthenticated (dmarc_result m = Some ResPass) (spam_training m) else SourceAuthenticated)"

definition put_in_queue :: "('f, 'r, 'x) data_env \<Rightarrow> message_facts \<Rightarrow> message_wrapper \<Rightarrow> 'x sess \<Rightarrow> outcome \<times> 'x sess" where
  "put_in_queue env m mw x =
    (let mw = mw\<lparr>message := (message mw)\<lparr>message_size := word_of_nat (length (final_text m) + length (new_headers m))\<rparr>\<rparr> in
     case has_quota (quota_env env) (queue_quotas_of env) (data (mail_spool (snd x))) (message mw) of
       None \<Rightarrow> (Reply (crlf ''452 4.3.1 Mail system full, try again later.''), x)
     | Some msg \<Rightarrow>
        (case read_clock (inbound env) (snd x) of
           (now, w) \<Rightarrow>
             (case queue_message (queue_env env) now (Some (bytes_of (new_headers m))) (bytes_of (final_text m))
                     (message_source_of m (fst x)) (mw\<lparr>message := msg\<rparr>) (mail_spool w) of
                (True, st) \<Rightarrow>
                  (Reply (crlf (''250 2.0.0 Message queued with id '' @ show_hex env (queue_id mw) @ ''.'')),
                   count_message (fst x), w\<lparr>mail_spool := st\<rparr>)
              | (False, st) \<Rightarrow>
                  (Reply (crlf ''451 4.3.5 Unable to accept message at this time.''), fst x, w\<lparr>mail_spool := st\<rparr>))))"

definition data_queue :: "('f, 'r, 'x) data_env \<Rightarrow> 'x data_phase" where
  "data_queue env m x =
    (case mail_from (fst x) of
       None \<Rightarrow> (Inl Panics, x)
     | Some from \<Rightarrow>
        (case build_message env (new_id m) from (rcpt_to (fst x)) x of
           (mw, w) \<Rightarrow>
             (let s = (fst x)\<lparr>rcpt_to := []\<rparr> in
              case run_data_phases
                [optional_header env DataAddReturnPath (\<lambda>m x. (''Return-Path: <'' @ return_path (message mw) @ crlf ''>'', snd x)),
                 data_date env, data_message_id env, data_sign env] m (s, w) of
                (Inl r, x) \<Rightarrow> (Inl r, x)
              | (Inr m, x) \<Rightarrow> (case put_in_queue env m mw x of (r, x) \<Rightarrow> (Inl r, x)))))"

definition facts_of :: "string \<Rightarrow> message_facts" where
  "facts_of raw =
    \<lparr>raw_message = raw, dmarc_strategy = Relaxed, dkim_outputs = [], arc_found = None, arc_sealer = None, dmarc_result = None,
     found_policy = None, auth_header = [], new_headers = [], new_id = 0, spam_training = None, modifications = [], edited = None\<rparr>"

text \<open>\<open>queue_message\<close> of the session: the text is taken out of the session first.\<close>

definition session_queue_message :: "('f, 'r, 'x) data_env \<Rightarrow> 'x sess \<Rightarrow> outcome \<times> 'x sess" where
  "session_queue_message env x =
    (case run_data_phases
       [data_loop_check env, data_dkim env, data_arc env, data_dmarc env, data_report env, data_queue_id env,
        data_received env, data_auth_results env, data_received_spf env, data_arc_seal env, data_spam env,
        data_filters env, data_script env, data_queue env]
       (facts_of (message_data (fst x))) ((fst x)\<lparr>message_data := []\<rparr>, snd x) of
       (Inl r, x) \<Rightarrow> (r, x)
     | (Inr m, x) \<Rightarrow> (Disconnect, x))"

text \<open>\<open>can_send_data\<close>: \<open>None\<close> allows it.\<close>

definition can_send_data :: "('f, 'r, 'x) data_env \<Rightarrow> 'x phase" where
  "can_send_data env x =
    (if rcpt_to (fst x) \<noteq> [] then
       (case eval_usize_or (inbound env) DataMaxMessages 10 x of
          (n, w) \<Rightarrow>
            if messages_sent (fst x) < n then (None, fst x, w)
            else reply ''452 4.4.5 Maximum number of messages per session exceeded.'' (fst x, w))
     else reply ''503 5.5.1 RCPT is required first.'' x)"

end
