(* ===== verification/Inbound_Loop.thy ===== *)
theory Inbound_Loop
  imports Inbound_Queue "HOL-Library.While_Combinator"
begin

text \<open>
  The command loop of a session (\<open>ingest\<close> in \<open>crates/smtp/src/inbound/session.rs\<close>) and the life of a
  connection (\<open>crates/smtp/src/inbound/spawn.rs\<close>).

  The receivers that find requests, messages and lines in the bytes of the client come from the
  \<open>smtp-proto\<close> package: their states and functions are fields of \<open>proto_env\<close>. A receiver consumes a part
  of the bytes and says whether it is done. What the server writes is a list, one item per call.
\<close>

section \<open>Requests\<close>

datatype request =
    RqEhlo string
  | RqHelo string
  | RqLhlo string
  | RqMail mail_request
  | RqRcpt rcpt_request
  | RqData
  | RqBdat u64 bool
  | RqAuth u64 string
  | RqNoop
  | RqVrfy string
  | RqExpn string
  | RqHelp
  | RqEtrn
  | RqAtrn
  | RqBurl
  | RqStartTls
  | RqRset
  | RqQuit

datatype request_error =
    NeedsMoreData
  | UnknownCommand
  | InvalidResponse
  | InvalidSenderAddress
  | InvalidRecipientAddress
  | SyntaxError string
  | InvalidParameter string
  | UnsupportedParameter string
  | ResponseTooLong

record 'p proto_env =
  new_request :: 'p
  request_ingest :: "'p \<Rightarrow> string \<Rightarrow> (request_error + request) \<times> 'p \<times> string"
  new_data :: 'p
  data_ingest :: "'p \<Rightarrow> string \<Rightarrow> string \<Rightarrow> bool \<times> 'p \<times> string \<times> string"
  new_bdat :: "u64 \<Rightarrow> 'p"
  bdat_ingest :: "'p \<Rightarrow> string \<Rightarrow> string \<Rightarrow> bool \<times> 'p \<times> string \<times> string"
  new_line :: 'p
  line_ingest :: "'p \<Rightarrow> string \<Rightarrow> bool \<times> 'p \<times> string"
  line_buf :: "'p \<Rightarrow> string"
  clear_buf :: "'p \<Rightarrow> 'p"
  new_dummy_bdat :: "u64 \<Rightarrow> 'p"
  new_dummy_data :: "'p \<Rightarrow> 'p"
  dummy_data_ingest :: "'p \<Rightarrow> string \<Rightarrow> bool \<times> 'p \<times> string"
  new_dummy_line :: 'p
  dummy_line_ingest :: "'p \<Rightarrow> string \<Rightarrow> bool \<times> 'p \<times> string"
  debug_string :: "string \<Rightarrow> string"

text \<open>\<open>State\<close>; a \<open>BdatReceiver\<close> also knows whether its chunk is the last.\<close>

datatype 'p receiver_state =
    StRequest 'p
  | StBdat 'p bool
  | StData 'p
  | StSasl 'p sasl_token
  | StDataTooLarge 'p
  | StRequestTooLarge 'p

abbreviation default_state :: "'p proto_env \<Rightarrow> 'p receiver_state" where
  "default_state pe \<equiv> StRequest (new_request pe)"

text \<open>
  After a step the loop goes on, waits for more bytes (\<open>Ok(true)\<close>), hands the connection over to TLS
  (\<open>Ok(false)\<close>), ends the connection (\<open>Err\<close>) or panics.
\<close>

datatype 'p next_step =
    GoOn "'p receiver_state"
  | Await "'p receiver_state"
  | UpgradeTls
  | Closes
  | Crashes

type_synonym ('p, 'x) step_result = "'p next_step \<times> string list \<times> 'x sess"

fun outcome_step :: "'p receiver_state \<Rightarrow> outcome \<Rightarrow> 'x sess \<Rightarrow> ('p, 'x) step_result" where
  "outcome_step st (Reply t) x = (GoOn st, [t], x)"
| "outcome_step st (HangUp t) x = (Closes, [t], x)"
| "outcome_step st Disconnect x = (Closes, [], x)"
| "outcome_step st Panics x = (Crashes, [], x)"

definition handler_step :: "'p receiver_state \<Rightarrow> outcome option \<times> 'x sess \<Rightarrow> ('p, 'x) step_result" where
  "handler_step st r = (case r of (Some out, x) \<Rightarrow> outcome_step st out x | (None, x) \<Rightarrow> (GoOn st, [], x))"

abbreviation says :: "'p receiver_state \<Rightarrow> string \<Rightarrow> 'x sess \<Rightarrow> ('p, 'x) step_result" where
  "says st text x \<equiv> (GoOn st, [crlf text], x)"

section \<open>Commands\<close>

definition data_command :: "'p proto_env \<Rightarrow> ('f, 'r, 'x) data_env \<Rightarrow> 'p receiver_state \<Rightarrow> 'x sess \<Rightarrow> ('p, 'x) step_result" where
  "data_command pe env st x =
    (case can_send_data env x of
       (Some out, x) \<Rightarrow> outcome_step st out x
     | (None, x) \<Rightarrow>
        (GoOn (StData (new_data pe)), [crlf ''354 Start mail input; end with <CRLF>.<CRLF>''],
         (fst x)\<lparr>message_data := []\<rparr>, snd x))"

text \<open>The sum of the sizes wraps; a buffer of more than \<open>isize::MAX\<close> bytes is a panic.\<close>

definition bdat_command :: "'p proto_env \<Rightarrow> u64 \<Rightarrow> bool \<Rightarrow> 'x sess \<Rightarrow> ('p, 'x) step_result" where
  "bdat_command pe sz fin x =
    (let have = length (message_data (fst x)) in
     if sz + word_of_nat have < max_message_size (params (fst x)) then
       (if unat sz + have \<le> 9223372036854775807 then (GoOn (StBdat (new_bdat pe sz) fin), [], x) else (Crashes, [], x))
     else (GoOn (StDataTooLarge (new_dummy_bdat pe sz)), [], x))"

definition sasl_step ::
  "('p \<Rightarrow> 'p) \<Rightarrow> 'p \<Rightarrow> 'p receiver_state \<Rightarrow> (string \<times> sasl_token + outcome) \<times> 'x sess \<Rightarrow> ('p, 'x) step_result" where
  "sasl_step f p st r =
    (case r of
       (Inl (prompt, t), x) \<Rightarrow> (GoOn (StSasl (f p) t), [crlf prompt], x)
     | (Inr out, x) \<Rightarrow> outcome_step st out x)"

definition auth_command ::
  "'p proto_env \<Rightarrow> ('f, 'r, 'x) inbound_env \<Rightarrow> u64 \<Rightarrow> string \<Rightarrow> 'p receiver_state \<Rightarrow> 'x sess \<Rightarrow> ('p, 'x) step_result" where
  "auth_command pe env mech initial st x =
    (case or_else 0 (eval_session env conv_mechanism AuthMechanisms x) of
       (m, w) \<Rightarrow>
         if m = 0 \<or> auth_directory (params (fst x)) = None then says st ''503 5.5.1 AUTH not allowed.'' (fst x, w)
         else if is_authenticated (fst x) then says st ''503 5.5.1 Already authenticated.'' (fst x, w)
         else
           (case sasl_token_from_mechanism (mech_bits env) (mech AND m) of
              Some t \<Rightarrow> sasl_step id (new_line pe) st (handle_sasl_response env t initial (fst x, w))
            | None \<Rightarrow> says st ''554 5.7.8 Authentication mechanism not supported.'' (fst x, w)))"

definition starttls_command :: "'p receiver_state \<Rightarrow> 'x sess \<Rightarrow> ('p, 'x) step_result" where
  "starttls_command st x =
    (if is_tls (fst x) then says st ''504 5.7.4 Already in TLS mode.'' x
     else if has_tls (fst x) then (UpgradeTls, [crlf ''220 2.0.0 Ready to start TLS.''], x)
     else says st ''502 5.7.0 TLS not available.'' x)"

definition quit_command :: "'x sess \<Rightarrow> ('p, 'x) step_result" where
  "quit_command x = (Closes, [crlf ''221 2.0.0 Bye.''], x)"

fun handle_request ::
  "'p proto_env \<Rightarrow> ('f, 'r, 'x) data_env \<Rightarrow> 'p receiver_state \<Rightarrow> request \<Rightarrow> 'x sess \<Rightarrow> ('p, 'x) step_result" where
  "handle_request pe env st (RqRcpt to) x = handler_step st (handle_rcpt_to (inbound env) to x)"
| "handle_request pe env st (RqMail from) x = handler_step st (handle_mail_from (inbound env) from x)"
| "handle_request pe env st (RqEhlo host) x =
    (if protocol (fst x) = ProtoSmtp then handler_step st (handle_ehlo (inbound env) host True x)
     else says st ''500 5.5.1 Invalid command.'' x)"
| "handle_request pe env st RqData x = data_command pe env st x"
| "handle_request pe env st (RqBdat sz fin) x = bdat_command pe sz fin x"
| "handle_request pe env st (RqAuth mech initial) x = auth_command pe (inbound env) mech initial st x"
| "handle_request pe env st RqNoop x = says st ''250 2.0.0 OK'' x"
| "handle_request pe env st (RqVrfy a) x = handler_step st (handle_vrfy (inbound env) a x)"
| "handle_request pe env st (RqExpn a) x = handler_step st (handle_expn (inbound env) a x)"
| "handle_request pe env st RqStartTls x = starttls_command st x"
| "handle_request pe env st RqRset x = says st ''250 2.0.0 OK'' (reset_session (fst x), snd x)"
| "handle_request pe env st RqQuit x = quit_command x"
| "handle_request pe env st RqHelp x = says st ''250 2.0.0 Help can be found at https://stalw.art'' x"
| "handle_request pe env st (RqHelo host) x =
    (if protocol (fst x) = ProtoSmtp then handler_step st (handle_ehlo (inbound env) host False x)
     else says st ''500 5.5.1 Invalid command: LHLO expected.'' x)"
| "handle_request pe env st (RqLhlo host) x =
    (if protocol (fst x) = ProtoLmtp then handler_step st (handle_ehlo (inbound env) host True x)
     else says st ''502 5.5.1 Invalid command: EHLO expected.'' x)"
| "handle_request pe env st RqEtrn x = says st ''502 5.5.1 Command not implemented.'' x"
| "handle_request pe env st RqAtrn x = says st ''502 5.5.1 Command not implemented.'' x"
| "handle_request pe env st RqBurl x = says st ''502 5.5.1 Command not implemented.'' x"

definition invalid_command :: "('f, 'r, 'x) data_env \<Rightarrow> 'p receiver_state \<Rightarrow> 'x sess \<Rightarrow> ('p, 'x) step_result" where
  "invalid_command env st x =
    (if is_authenticated (fst x) then says st ''500 5.5.1 Invalid command.'' x
     else
       (case scanner_fail2ban (inbound env) (fst x) (snd x) of
          (Some True, w) \<Rightarrow> (Closes, [], fst x, w)
        | (_, w) \<Rightarrow> says st ''500 5.5.1 Invalid command.'' (fst x, w)))"

fun handle_error ::
  "'p proto_env \<Rightarrow> ('f, 'r, 'x) data_env \<Rightarrow> 'p receiver_state \<Rightarrow> request_error \<Rightarrow> 'x sess \<Rightarrow> ('p, 'x) step_result" where
  "handle_error pe env st NeedsMoreData x = (Await st, [], x)"
| "handle_error pe env st UnknownCommand x = invalid_command env st x"
| "handle_error pe env st InvalidResponse x = invalid_command env st x"
| "handle_error pe env st InvalidSenderAddress x =
    says st (''501 5.1.8 Bad sender'' @ [CHR 0x27] @ ''s system address.'') x"
| "handle_error pe env st InvalidRecipientAddress x = says st ''501 5.1.3 Bad destination mailbox address syntax.'' x"
| "handle_error pe env st (SyntaxError syntax) x =
    (if \<not> ehlo_reject_non_fqdn (params (fst x)) \<and> starts_with ''EHLO '' syntax
     then handler_step st (handle_ehlo (inbound env) ''null'' True x)
     else says st (''501 5.5.2 Syntax error, expected: '' @ syntax) x)"
| "handle_error pe env st (InvalidParameter p) x = says st (''501 5.5.4 Invalid parameter '' @ debug_string pe p @ ''.'') x"
| "handle_error pe env st (UnsupportedParameter p) x =
    says st (''504 5.5.4 Unsupported parameter '' @ debug_string pe p @ ''.'') x"
| "handle_error pe env st ResponseTooLong x = (GoOn (StRequestTooLarge (new_dummy_line pe)), [], x)"

section \<open>The loop\<close>

text \<open>How often a message is answered: once, with LMTP for each recipient that was accepted.\<close>

definition answer_count :: "session \<Rightarrow> nat" where
  "answer_count s = (if protocol s = ProtoSmtp then 1 else unat (rcpt_oks s))"

definition message_end :: "'p proto_env \<Rightarrow> ('f, 'r, 'x) data_env \<Rightarrow> 'x sess \<Rightarrow> ('p, 'x) step_result" where
  "message_end pe env x =
    (case session_queue_message env x of
       (Reply t, x) \<Rightarrow> (GoOn (default_state pe), replicate (answer_count (fst x)) t, reset_session (fst x), snd x)
     | (Panics, x) \<Rightarrow> (Crashes, [], x)
     | (_, x) \<Rightarrow> (Closes, [], x))"

definition set_message :: "string \<Rightarrow> 'x sess \<Rightarrow> 'x sess" where
  "set_message m x = ((fst x)\<lparr>message_data := m\<rparr>, snd x)"

definition chunk_end :: "'p proto_env \<Rightarrow> ('f, 'r, 'x) data_env \<Rightarrow> bool \<Rightarrow> 'x sess \<Rightarrow> ('p, 'x) step_result" where
  "chunk_end pe env fin x =
    (case can_send_data env x of
       (Some out, x) \<Rightarrow> outcome_step (default_state pe) out (set_message [] x)
     | (None, x) \<Rightarrow> if fin then message_end pe env x else says (default_state pe) ''250 2.6.0 Chunk accepted.'' x)"

definition line_end :: "'p proto_env \<Rightarrow> ('f, 'r, 'x) data_env \<Rightarrow> 'p \<Rightarrow> sasl_token \<Rightarrow> 'x sess \<Rightarrow> ('p, 'x) step_result" where
  "line_end pe env p t x =
    (if length (line_buf pe p) < max_line_length (inbound env)
     then sasl_step (clear_buf pe) p (default_state pe) (handle_sasl_response (inbound env) t (line_buf pe p) x)
     else (case auth_error ''500 5.5.6 Authentication Exchange line is too long.'' x of
             (out, x) \<Rightarrow> outcome_step (default_state pe) out x))"

text \<open>One turn of the loop, on what is left of \<open>n\<close> bytes.\<close>

fun ingest_step ::
  "'p proto_env \<Rightarrow> ('f, 'r, 'x) data_env \<Rightarrow> nat \<Rightarrow> 'p receiver_state \<Rightarrow> string \<Rightarrow> 'x sess \<Rightarrow> ('p, 'x) step_result \<times> string" where
  "ingest_step pe env n (StRequest p) bs x =
    (case request_ingest pe p bs of
       (Inr rq, p, bs) \<Rightarrow> (handle_request pe env (StRequest p) rq x, bs)
     | (Inl e, p, bs) \<Rightarrow> (handle_error pe env (StRequest p) e x, bs))"
| "ingest_step pe env n (StData p) bs x =
    (if length (message_data (fst x)) + n < unat (max_message_size (params (fst x))) then
       (case data_ingest pe p bs (message_data (fst x)) of
          (True, p, m, bs) \<Rightarrow> (message_end pe env (set_message m x), bs)
        | (False, p, m, bs) \<Rightarrow> ((Await (StData p), [], set_message m x), bs))
     else ((GoOn (StDataTooLarge (new_dummy_data pe p)), [], x), bs))"
| "ingest_step pe env n (StBdat p fin) bs x =
    (case bdat_ingest pe p bs (message_data (fst x)) of
       (True, p, m, bs) \<Rightarrow> (chunk_end pe env fin (set_message m x), bs)
     | (False, p, m, bs) \<Rightarrow> ((Await (StBdat p fin), [], set_message m x), bs))"
| "ingest_step pe env n (StSasl p t) bs x =
    (case line_ingest pe p bs of
       (True, p, bs) \<Rightarrow> (line_end pe env p t x, bs)
     | (False, p, bs) \<Rightarrow> ((Await (StSasl p t), [], x), bs))"
| "ingest_step pe env n (StDataTooLarge p) bs x =
    (case dummy_data_ingest pe p bs of
       (True, p, bs) \<Rightarrow> (says (default_state pe) ''552 5.3.4 Message too big for system.'' (set_message [] x), bs)
     | (False, p, bs) \<Rightarrow> ((Await (StDataTooLarge p), [], x), bs))"
| "ingest_step pe env n (StRequestTooLarge p) bs x =
    (case dummy_line_ingest pe p bs of
       (True, p, bs) \<Rightarrow> (says (default_state pe) ''554 5.3.4 Line is too long.'' x, bs)
     | (False, p, bs) \<Rightarrow> ((Await (StRequestTooLarge p), [], x), bs))"

text \<open>The loop ends when a step does not go on; \<open>None\<close> is a loop that never ends.\<close>

fun goes_on :: "('p, 'x) step_result \<times> string \<Rightarrow> bool" where
  "goes_on ((GoOn st, out, x), bs) = True"
| "goes_on _ = False"

fun turn ::
  "'p proto_env \<Rightarrow> ('f, 'r, 'x) data_env \<Rightarrow> nat \<Rightarrow> ('p, 'x) step_result \<times> string \<Rightarrow> ('p, 'x) step_result \<times> string" where
  "turn pe env n ((GoOn st, out, x), bs) =
    (case ingest_step pe env n st bs x of ((r, out', y), bs') \<Rightarrow> ((r, out @ out', y), bs'))"
| "turn pe env n r = r"

definition ingest ::
  "'p proto_env \<Rightarrow> ('f, 'r, 'x) data_env \<Rightarrow> 'p receiver_state \<Rightarrow> string \<Rightarrow> 'x sess \<Rightarrow> ('p, 'x) step_result option" where
  "ingest pe env st bytes x =
    map_option fst (while_option goes_on (turn pe env (length bytes)) ((GoOn st, [], x), bytes))"

section \<open>Connections\<close>

datatype conn_event = EvRead string | EvReadError | EvTimeout | EvShutdown

datatype 'p conn_next = ConnOpen "'p receiver_state" | ConnUpgrade | ConnEnded | ConnPanics

fun conn_next_of :: "'p next_step \<Rightarrow> 'p conn_next" where
  "conn_next_of (GoOn st) = ConnOpen st"
| "conn_next_of (Await st) = ConnOpen st"
| "conn_next_of UpgradeTls = ConnUpgrade"
| "conn_next_of Closes = ConnEnded"
| "conn_next_of Crashes = ConnPanics"

abbreviation farewell :: "string \<Rightarrow> string \<Rightarrow> 'x sess \<Rightarrow> 'p conn_next \<times> string list \<times> 'x sess" where
  "farewell c text x \<equiv> (ConnEnded, [crlf (c @ '' '' @ session_hostname (fst x) @ '' '' @ text)], x)"

text \<open>A read of no bytes is the end of the stream.\<close>

definition conn_read ::
  "'p proto_env \<Rightarrow> ('f, 'r, 'x) data_env \<Rightarrow> (session \<Rightarrow> 'x world \<Rightarrow> 'x world) \<Rightarrow> 'p receiver_state \<Rightarrow> string \<Rightarrow> 'x sess
    \<Rightarrow> ('p conn_next \<times> string list \<times> 'x sess) option" where
  "conn_read pe env loiter st bytes x =
    (if bytes = [] then Some (ConnEnded, [], x)
     else case read_instant (inbound env) (snd x) of
       (now, w) \<Rightarrow>
         let s = fst x in
         if now < valid_until s \<and> length bytes \<le> unat (bytes_left s) then
           map_option (\<lambda>(r, o', x). (conn_next_of r, o', x))
             (ingest pe env st bytes (s\<lparr>bytes_left := bytes_left s - word_of_nat (length bytes)\<rparr>, w))
         else if length bytes > unat (bytes_left s) then
           Some (farewell ''452 4.7.28'' ''Session exceeded transfer quota.'' (s, w))
         else Some (farewell ''421 4.3.2'' ''Session open for too long.'' (s, loiter s w)))"

fun conn_step ::
  "'p proto_env \<Rightarrow> ('f, 'r, 'x) data_env \<Rightarrow> (session \<Rightarrow> 'x world \<Rightarrow> 'x world) \<Rightarrow> 'p receiver_state \<Rightarrow> conn_event \<Rightarrow> 'x sess
    \<Rightarrow> ('p conn_next \<times> string list \<times> 'x sess) option" where
  "conn_step pe env loiter st (EvRead bytes) x = conn_read pe env loiter st bytes x"
| "conn_step pe env loiter st EvReadError x = Some (ConnEnded, [], x)"
| "conn_step pe env loiter st EvTimeout x = Some (farewell ''221 2.0.0'' ''Disconnecting inactive client.'' x)"
| "conn_step pe env loiter st EvShutdown x = Some (farewell ''421 4.3.0'' ''Server shutting down.'' x)"

text \<open>\<open>handle_conn\<close> over the events of a connection.\<close>

fun handle_conn ::
  "'p proto_env \<Rightarrow> ('f, 'r, 'x) data_env \<Rightarrow> (session \<Rightarrow> 'x world \<Rightarrow> 'x world) \<Rightarrow> 'p receiver_state \<Rightarrow> conn_event list \<Rightarrow> 'x sess
    \<Rightarrow> ('p conn_next \<times> string list \<times> 'x sess) option" where
  "handle_conn pe env loiter st [] x = Some (ConnOpen st, [], x)"
| "handle_conn pe env loiter st (ev # evs) x =
    (case conn_step pe env loiter st ev x of
       Some (ConnOpen st, out, x) \<Rightarrow>
         map_option (\<lambda>(r, out', x). (r, out @ out', x)) (handle_conn pe env loiter st evs x)
     | r \<Rightarrow> r)"

section \<open>The start of a connection\<close>

definition connect_script :: "('f, 'r, 'x) inbound_env \<Rightarrow> 'x phase" where
  "connect_script env x =
    (case eval_script env ConnectScript x of
       (None, w) \<Rightarrow> (None, fst x, w)
     | (Some n, w) \<Rightarrow>
        (case run_script env n StageConnect (fst x) w of
           (ScriptReject m, w) \<Rightarrow> (Some (HangUp m), fst x, w)
         | (_, w) \<Rightarrow> (None, fst x, w)))"

definition hang_up :: "outcome option \<times> 'x sess \<Rightarrow> outcome option \<times> 'x sess" where
  "hang_up r = (case r of (Some (Reply m), x) \<Rightarrow> (Some (HangUp m), x) | _ \<Rightarrow> r)"

definition connect_filters :: "('f, 'r, 'x) inbound_env \<Rightarrow> 'x phase" where
  "connect_filters env x = hang_up (run_filters env StageConnect id x)"

definition connect_hostname :: "('f, 'r, 'x) inbound_env \<Rightarrow> 'x phase" where
  "connect_hostname env x =
    (case or_else [] (eval_string env ConnectHostname x) of
       (h, w) \<Rightarrow> (None, (fst x)\<lparr>session_hostname := (if h = [] then ''localhost'' else h)\<rparr>, w))"

definition connect_greeting :: "('f, 'r, 'x) inbound_env \<Rightarrow> 'x phase" where
  "connect_greeting env x =
    (case or_else [] (eval_string env ConnectGreeting x) of
       (g, w) \<Rightarrow> reply (if g \<noteq> [] then ''220 '' @ g else ''220 Stalwart ESMTP at your service.'') (fst x, w))"

text \<open>A greeting is the answer \<open>Reply\<close>; a refusal hangs up.\<close>

definition init_conn :: "('f, 'r, 'x) inbound_env \<Rightarrow> 'x phase" where
  "init_conn env x =
    run_phases [connect_script env, connect_filters env, connect_hostname env, connect_greeting env] (eval_session_params env x)"

definition session_into_tls :: "session \<Rightarrow> session" where
  "session_into_tls s = s\<lparr>is_tls := True\<rparr>"

text \<open>
  The life of a connection: the events before and, if the client asks for TLS and \<open>tls_ok\<close> is the result
  of the handshake, those after it. The state of the receiver, which the loop has reset, is kept.
\<close>

definition serve_greeted ::
  "'p proto_env \<Rightarrow> ('f, 'r, 'x) data_env \<Rightarrow> (session \<Rightarrow> 'x world \<Rightarrow> 'x world) \<Rightarrow> conn_event list \<Rightarrow> bool \<Rightarrow> conn_event list \<Rightarrow> 'x sess
    \<Rightarrow> ('p conn_next \<times> string list \<times> 'x sess) option" where
  "serve_greeted pe env loiter before tls_ok after x =
    (case handle_conn pe env loiter (default_state pe) before x of
       Some (ConnUpgrade, out, x) \<Rightarrow>
         if has_tls (fst x) \<and> tls_ok then
           map_option (\<lambda>(r, out', x). (r, out @ out', x))
             (handle_conn pe env loiter (default_state pe) after (session_into_tls (fst x), snd x))
         else Some (ConnEnded, out, x)
     | r \<Rightarrow> r)"

definition handle_session ::
  "'p proto_env \<Rightarrow> ('f, 'r, 'x) data_env \<Rightarrow> (session \<Rightarrow> 'x world \<Rightarrow> 'x world) \<Rightarrow> connection \<Rightarrow> conn_event list \<Rightarrow> bool \<Rightarrow> conn_event list
    \<Rightarrow> 'x world \<Rightarrow> ('p conn_next \<times> string list \<times> 'x sess) option" where
  "handle_session pe env loiter c before tls_ok after w =
    (case read_instant (inbound env) w of
       (now, w) \<Rightarrow>
         (case session_is_allowed (inbound env) (session_new c now, w) of
            None \<Rightarrow> Some (ConnPanics, [], session_new c now, w)
          | Some (False, w) \<Rightarrow> Some (ConnEnded, [], session_new c now, w)
          | Some (True, w) \<Rightarrow>
             (case init_conn (inbound env) (session_new c now, w) of
                (Some (Reply greeting), x) \<Rightarrow>
                  map_option (\<lambda>(r, out, x). (r, greeting # out, x)) (serve_greeted pe env loiter before tls_ok after x)
              | (Some (HangUp t), x) \<Rightarrow> Some (ConnEnded, [t], x)
              | (_, x) \<Rightarrow> Some (ConnEnded, [], x))))"

end
