(* ===== verification/Inbound_Invariants.thy ===== *)
theory Inbound_Invariants
  imports Inbound_Loop
begin

text \<open>
  How invariants of a session are carried through its handlers and through the life of a connection.

  \<open>phase_ok P p Q R\<close> is a Hoare triple for a phase with two postconditions: \<open>Q\<close> where the handler goes
  on, \<open>R\<close> where the phase has answered and the session goes on. The locale \<open>step_invariant\<close> is the contract of one turn of the
  command loop; what it shows of connections is used for every invariant of the following theories.
\<close>

section \<open>Phases\<close>

definition phase_ok :: "(session \<Rightarrow> bool) \<Rightarrow> 'x phase \<Rightarrow> (session \<Rightarrow> bool) \<Rightarrow> (session \<Rightarrow> bool) \<Rightarrow> bool" where
  "phase_ok P p Q R \<longleftrightarrow>
    (\<forall>x. P (fst x) \<longrightarrow>
      (case fst (p x) of
         None \<Rightarrow> Q (fst (snd (p x))) | Some (Reply _) \<Rightarrow> R (fst (snd (p x))) | Some _ \<Rightarrow> True))"

lemma phase_okI:
  fixes p :: "'x phase"
  assumes go: "\<And>s w y. P s \<Longrightarrow> p (s, w) = (None, y) \<Longrightarrow> Q (fst y)"
    and answer: "\<And>s w t y. P s \<Longrightarrow> p (s, w) = (Some (Reply t), y) \<Longrightarrow> R (fst y)"
  shows "phase_ok P p Q R"
  unfolding phase_ok_def
proof (intro allI impI)
  fix x :: "'x sess" assume P: "P (fst x)"
  obtain r y where e: "p x = (r, y)" by (cases "p x")
  then show "case fst (p x) of None \<Rightarrow> Q (fst (snd (p x))) | Some (Reply _) \<Rightarrow> R (fst (snd (p x))) | Some _ \<Rightarrow> True"
    using go [OF P, of "snd x" y] answer [OF P, of "snd x" _ y] by (auto split: option.split outcome.split)
qed

lemma phase_okD:
  "phase_ok P p Q R \<Longrightarrow> P (fst x) \<Longrightarrow>
    (case fst (p x) of None \<Rightarrow> Q (fst (snd (p x))) | Some (Reply _) \<Rightarrow> R (fst (snd (p x))) | Some _ \<Rightarrow> True)"
  unfolding phase_ok_def by blast

text \<open>An answer after which the session goes on.\<close>

definition kept :: "(session \<Rightarrow> bool) \<Rightarrow> outcome option \<times> 'x sess \<Rightarrow> bool" where
  "kept I r = (case r of (None, y) \<Rightarrow> I (fst y) | (Some (Reply _), y) \<Rightarrow> I (fst y) | _ \<Rightarrow> True)"

lemma keptI: "I (fst (snd r)) \<Longrightarrow> kept I r"
  by (auto simp: kept_def split: prod.splits option.splits outcome.splits)

lemma phase_kept: "phase_ok I p Q I \<Longrightarrow> (\<And>s. Q s \<Longrightarrow> I s) \<Longrightarrow> I (fst x) \<Longrightarrow> kept I (p x)"
  by (drule (1) phase_okD, cases "p x") (auto simp: kept_def split: option.splits outcome.splits)

lemma run_phases_step: "run_phases (p # ps) x = (if fst (p x) = None then run_phases ps (snd (p x)) else p x)"
  by (cases "p x") (auto split: option.split)

lemma phase_ok_go: "phase_ok P p Q R \<Longrightarrow> P s \<Longrightarrow> p (s, w) = (None, y) \<Longrightarrow> Q (fst y)"
  using phase_okD [of P p Q R "(s, w)"] by simp

lemma phase_ok_reply: "phase_ok P p Q R \<Longrightarrow> P s \<Longrightarrow> p (s, w) = (Some (Reply t), y) \<Longrightarrow> R (fst y)"
  using phase_okD [of P p Q R "(s, w)"] by simp

lemma phases_nil: "phase_ok P (run_phases []) P R"
  by (simp add: phase_ok_def)

lemma phases_cons:
  assumes "phase_ok P p Q R" "phase_ok Q (run_phases ps) S R"
  shows "phase_ok P (run_phases (p # ps)) S R"
  unfolding phase_ok_def
proof (intro allI impI)
  fix x :: "'a sess" assume P: "P (fst x)"
  note a = assms [unfolded phase_ok_def]
  show "case fst (run_phases (p # ps) x) of
      None \<Rightarrow> S (fst (snd (run_phases (p # ps) x))) | Some (Reply _) \<Rightarrow> R (fst (snd (run_phases (p # ps) x))) | Some _ \<Rightarrow> True"
    unfolding run_phases_step using a(1) [rule_format, OF P] a(2) [rule_format, of "snd (p x)"]
    by (auto split: option.splits)
qed

lemma phases_all: "list_all (\<lambda>p. phase_ok I p I I) ps \<Longrightarrow> phase_ok I (run_phases ps) I I"
  by (induction ps) (auto intro: phases_nil phases_cons)

section \<open>The command loop\<close>

text \<open>
  The contract of a turn of the loop: \<open>J\<close> is the invariant of the loop, over the length of the buffer, the
  receiver, what is left of the bytes and the session; \<open>K\<close> is that of the connection between two reads.
\<close>

locale step_invariant =
  fixes pe :: "'p proto_env" and env :: "('f, 'r, 'x) data_env"
    and J :: "nat \<Rightarrow> 'p receiver_state \<Rightarrow> string \<Rightarrow> session \<Rightarrow> bool"
    and K :: "'p receiver_state \<Rightarrow> session \<Rightarrow> bool"
  assumes go_on: "J n st bs (fst x) \<Longrightarrow> ingest_step pe env n st bs x = ((GoOn st', out, y), bs') \<Longrightarrow> J n st' bs' (fst y)"
    and await: "J n st bs (fst x) \<Longrightarrow> ingest_step pe env n st bs x = ((Await st', out, y), bs') \<Longrightarrow> K st' (fst y)"
    and upgrade: "J n st bs (fst x) \<Longrightarrow> ingest_step pe env n st bs x = ((UpgradeTls, out, y), bs') \<Longrightarrow>
      K (default_state pe) (session_into_tls (fst y))"
    and reads: "K st s \<Longrightarrow> J (length bytes) st bytes (s\<lparr>bytes_left := b\<rparr>)"
begin

definition open_ok :: "nat \<Rightarrow> ('p, 'x) step_result \<times> string \<Rightarrow> bool" where
  "open_ok n r =
    (case r of
       ((GoOn st, out, y), bs) \<Rightarrow> J n st bs (fst y) | ((Await st, out, y), bs) \<Rightarrow> K st (fst y)
     | ((UpgradeTls, out, y), bs) \<Rightarrow> K (default_state pe) (session_into_tls (fst y)) | _ \<Rightarrow> True)"

lemma step_open: "J n st bs (fst x) \<Longrightarrow> open_ok n (ingest_step pe env n st bs x)"
proof -
  assume J: "J n st bs (fst x)"
  obtain r out y bs' where e: "ingest_step pe env n st bs x = ((r, out, y), bs')" by (metis prod.exhaust)
  show ?thesis
    unfolding e open_ok_def using go_on [OF J] await [OF J] upgrade [OF J] e by (cases r) simp_all
qed

lemma turn_open: "goes_on r \<Longrightarrow> open_ok n r \<Longrightarrow> open_ok n (turn pe env n r)"
proof (induction r rule: goes_on.induct)
  case (1 st out x bs)
  then have "open_ok n (ingest_step pe env n st bs x)" by (intro step_open) (simp add: open_ok_def)
  then show ?case by (auto simp: open_ok_def split: prod.splits next_step.splits)
qed auto

lemma ingest_open:
  assumes "ingest pe env st bytes x = Some r" "J (length bytes) st bytes (fst x)"
  shows "\<exists>bs. open_ok (length bytes) (r, bs) \<and> \<not> goes_on (r, bs)"
proof -
  obtain bs where w: "while_option goes_on (turn pe env (length bytes)) ((GoOn st, [], x), bytes) = Some (r, bs)"
    using assms(1) by (auto simp: ingest_def)
  have "open_ok (length bytes) (r, bs)"
    by (rule while_option_rule [OF _ w]) (use assms(2) turn_open in \<open>auto simp: open_ok_def\<close>)
  with while_option_stop [OF w] show ?thesis by blast
qed

text \<open>What holds of a connection that is open or is handed over to TLS.\<close>

definition conn_ok :: "'p conn_next \<times> string list \<times> 'x sess \<Rightarrow> bool" where
  "conn_ok r =
    (case r of
       (ConnOpen st, out, y) \<Rightarrow> K st (fst y) | (ConnUpgrade, out, y) \<Rightarrow> K (default_state pe) (session_into_tls (fst y)) | _ \<Rightarrow> True)"

lemma conn_read_ok:
  assumes "conn_read pe env loiter st bytes x = Some r" "K st (fst x)"
  shows "conn_ok r"
proof -
  have j: "J (length bytes) st bytes (fst ((fst x)\<lparr>bytes_left := b\<rparr>, w))" for b w using reads assms(2) by simp
  show ?thesis
    using assms(1) unfolding conn_read_def
    by (auto simp: Let_def conn_ok_def open_ok_def dest!: ingest_open [OF _ j] split: if_splits prod.splits next_step.splits)
qed

lemma conn_step_ok: "conn_step pe env loiter st ev x = Some r \<Longrightarrow> K st (fst x) \<Longrightarrow> conn_ok r"
  by (cases ev) (auto intro: conn_read_ok, auto simp: conn_ok_def)

lemma handle_conn_ok: "handle_conn pe env loiter st evs x = Some r \<Longrightarrow> K st (fst x) \<Longrightarrow> conn_ok r"
proof (induction evs arbitrary: st x r)
  case Nil
  then show ?case by (auto simp: conn_ok_def)
next
  case (Cons ev evs)
  then show ?case
    using conn_step_ok [of loiter st ev x]
    by (fastforce simp: conn_ok_def split: option.splits prod.splits conn_next.splits)
qed

lemma handle_conn_upgrade:
  "handle_conn pe env loiter st evs x = Some (ConnUpgrade, out, y) \<Longrightarrow> K st (fst x) \<Longrightarrow> K (default_state pe) (session_into_tls (fst y))"
  using handle_conn_ok by (fastforce simp: conn_ok_def)

lemma serve_ok:
  assumes "serve_greeted pe env loiter before tls_ok after x = Some (ConnOpen st, out, y)" "K (default_state pe) (fst x)"
  shows "K st (fst y)"
  using assms unfolding serve_greeted_def
  by (auto simp: conn_ok_def dest: handle_conn_ok dest!: handle_conn_upgrade split: option.splits prod.splits conn_next.splits if_splits)

end

text \<open>A session that is open has been greeted.\<close>

lemma session_opened:
  assumes "handle_session pe env loiter c before tls_ok after w = Some (ConnOpen st, out, x)"
  obtains now w' greeting y out' where "init_conn (inbound env) (session_new c now, w') = (Some (Reply greeting), y)"
    and "serve_greeted pe env loiter before tls_ok after y = Some (ConnOpen st, out', x)" "out = greeting # out'"
  using assms unfolding handle_session_def
  by (auto split: prod.splits option.splits bool.splits outcome.splits)

section \<open>Invariants of the session alone\<close>

lemma can_send_same [simp]: "fst (snd (can_send_data env x)) = fst x"
  by (auto simp: can_send_data_def split: prod.splits)

lemma vrfy_same [simp]: "fst (snd (handle_vrfy env a x)) = fst x"
  by (auto simp: handle_vrfy_def split: prod.splits option.splits)

lemma expn_same [simp]: "fst (snd (handle_expn env a x)) = fst x"
  by (auto simp: handle_expn_def split: prod.splits option.splits)

locale session_invariant =
  fixes pe :: "'p proto_env" and env :: "('f, 'r, 'x) data_env" and I :: "session \<Rightarrow> bool"
  assumes ehlo: "I (fst x) \<Longrightarrow> kept I (handle_ehlo (inbound env) host extended x)"
    and mail: "I (fst x) \<Longrightarrow> kept I (handle_mail_from (inbound env) from x)"
    and rcpt: "I (fst x) \<Longrightarrow> kept I (handle_rcpt_to (inbound env) to x)"
    and sasl_next: "I (fst x) \<Longrightarrow> handle_sasl_response (inbound env) t line x = (Inl r, y) \<Longrightarrow> I (fst y)"
    and sasl_end: "I (fst x) \<Longrightarrow> handle_sasl_response (inbound env) t line x = (Inr out, y) \<Longrightarrow> kept I (Some out, y)"
    and auth_fails: "I (fst x) \<Longrightarrow> auth_error text x = (out, y) \<Longrightarrow> kept I (Some out, y)"
    and message: "I (fst x) \<Longrightarrow> session_queue_message env x = (Reply answer, y) \<Longrightarrow> I (reset_session (fst y))"
    and reset: "I s \<Longrightarrow> I (reset_session s)"
    and new_text: "I s \<Longrightarrow> I (s\<lparr>message_data := m\<rparr>)"
    and bytes: "I s \<Longrightarrow> I (s\<lparr>bytes_left := b\<rparr>)"
    and tls: "I s \<Longrightarrow> I (session_into_tls s)"
begin

definition step_ok :: "('p, 'x) step_result \<Rightarrow> bool" where
  "step_ok r = (case r of (GoOn _, _, y) \<Rightarrow> I (fst y) | (Await _, _, y) \<Rightarrow> I (fst y) | (UpgradeTls, _, y) \<Rightarrow> I (fst y) | _ \<Rightarrow> True)"

lemma step_ok_simps [simp]:
  "step_ok (GoOn st, out, y) = I (fst y)" "step_ok (Await st, out, y) = I (fst y)" "step_ok (UpgradeTls, out, y) = I (fst y)"
  "step_ok (Closes, out, y)" "step_ok (Crashes, out, y)"
  by (simp_all add: step_ok_def)

lemma outcome_ok: "kept I (Some out, y) \<Longrightarrow> step_ok (outcome_step st out y)"
  by (cases out) (auto simp: kept_def)

lemma handler_ok: "kept I r \<Longrightarrow> step_ok (handler_step st r)"
  unfolding handler_step_def by (cases r; cases "fst r") (auto intro: outcome_ok, auto simp: kept_def)

lemma sasl_ok: "I (fst x) \<Longrightarrow> step_ok (sasl_step f p st (handle_sasl_response (inbound env) t line x))"
  unfolding sasl_step_def
  by (auto dest: sasl_next sasl_end intro!: outcome_ok split: prod.split sum.split)

lemma auth_ok: "I (fst x) \<Longrightarrow> step_ok (auth_command pe (inbound env) mech initial st x)"
  unfolding auth_command_def by (auto intro: sasl_ok split: prod.split option.split)

lemma data_ok: "I (fst x) \<Longrightarrow> step_ok (data_command pe env st x)"
  unfolding data_command_def using can_send_same [of env x]
  by (auto intro!: outcome_ok keptI new_text simp del: can_send_same split: prod.split option.split)

lemma bdat_ok: "I (fst x) \<Longrightarrow> step_ok (bdat_command pe sz fin x)"
  by (simp add: bdat_command_def Let_def)

lemma vrfy_kept: "I (fst x) \<Longrightarrow> kept I (handle_vrfy (inbound env) a x)"
  by (simp add: keptI)

lemma expn_kept: "I (fst x) \<Longrightarrow> kept I (handle_expn (inbound env) a x)"
  by (simp add: keptI)

lemma request_ok: "I (fst x) \<Longrightarrow> step_ok (handle_request pe env st rq x)"
  by (cases rq)
    (simp_all add: handler_ok ehlo mail rcpt vrfy_kept expn_kept data_ok bdat_ok auth_ok starttls_command_def quit_command_def reset)

lemma invalid_ok: "I (fst x) \<Longrightarrow> step_ok (invalid_command env st x)"
  by (auto simp: invalid_command_def split: prod.split option.split bool.split)

lemma error_ok: "I (fst x) \<Longrightarrow> step_ok (handle_error pe env st e x)"
  by (cases e) (simp_all add: invalid_ok handler_ok ehlo)

lemma message_ok: "I (fst x) \<Longrightarrow> step_ok (message_end pe env x)"
  unfolding message_end_def by (auto dest: message split: prod.split outcome.split)

lemma chunk_ok: "I (fst x) \<Longrightarrow> step_ok (chunk_end pe env fin x)"
  unfolding chunk_end_def using can_send_same [of env x]
  by (auto intro!: outcome_ok keptI message_ok simp: set_message_def new_text simp del: can_send_same split: prod.split option.split)

lemma line_ok: "I (fst x) \<Longrightarrow> step_ok (line_end pe env p t x)"
  unfolding line_end_def by (auto intro: sasl_ok outcome_ok auth_fails split: prod.split)

lemma step_invariant_kept: "I (fst x) \<Longrightarrow> step_ok (fst (ingest_step pe env n st bs x))"
  by (cases st) (auto simp: request_ok error_ok message_ok chunk_ok line_ok set_message_def new_text split: prod.split sum.split bool.split)

lemma step_goes_on: "I (fst x) \<Longrightarrow> ingest_step pe env n st bs x = ((GoOn st', out, y), bs') \<Longrightarrow> I (fst y)"
  using step_invariant_kept [of x n st bs] by simp

lemma step_awaits: "I (fst x) \<Longrightarrow> ingest_step pe env n st bs x = ((Await st', out, y), bs') \<Longrightarrow> I (fst y)"
  using step_invariant_kept [of x n st bs] by simp

lemma step_upgrades: "I (fst x) \<Longrightarrow> ingest_step pe env n st bs x = ((UpgradeTls, out, y), bs') \<Longrightarrow> I (session_into_tls (fst y))"
  using step_invariant_kept [of x n st bs] tls by simp

end

sublocale session_invariant \<subseteq> step_invariant pe env "\<lambda>_ _ _. I" "\<lambda>_. I"
  by unfold_locales (fact step_goes_on step_awaits step_upgrades bytes)+

end
