(* ===== verification/Inbound_Relay.thy ===== *)
theory Inbound_Relay
  imports Inbound_Invariants
begin

text \<open>
  Who may send to whom: without authentication, every recipient of an open session is an address of a
  local domain or a member of a local list, for as long as the relay setting asks for authentication.
\<close>

section \<open>The contract of the server\<close>

definition allowed :: "(string \<Rightarrow> bool) \<Rightarrow> (string \<Rightarrow> bool) \<Rightarrow> session_address \<Rightarrow> bool" where
  "allowed local listed r \<longleftrightarrow> local (addr_domain r) \<or> listed (addr_lcase r)"

text \<open>
  Only local domains are called local, the members of lists are listed, the relay setting is false without
  authentication. Scripts set no recipient but the last one, to whatever they like at the stage of RCPT; at
  the stage of MAIL, when there is none of this transaction yet, they set none.
\<close>

definition relay_contract :: "('f, 'r, 'x) inbound_env \<Rightarrow> (string \<Rightarrow> bool) \<Rightarrow> (string \<Rightarrow> bool) \<Rightarrow> bool" where
  "relay_contract env local listed \<longleftrightarrow>
    (\<forall>d dom w. fst (dir_is_local_domain env d dom w) = Some True \<longrightarrow> local dom) \<and>
    (\<forall>d a w ms. fst (dir_rcpt env d a w) = Some (RcptList ms) \<longrightarrow> (\<forall>m \<in> set ms. listed (lowercase env m))) \<and>
    (\<forall>s w. \<not> is_authenticated s \<longrightarrow> \<not> fst (eval_bool_or env RcptRelay False (s, w))) \<and>
    (\<forall>n v s. authenticated (apply_envelope env n v s) = authenticated s \<and>
       length (rcpt_to (apply_envelope env n v s)) = length (rcpt_to s) \<and>
       butlast (rcpt_to (apply_envelope env n v s)) = butlast (rcpt_to s)) \<and>
    (\<forall>name s w mods w' n v t. run_script env name StageMail s w = (ScriptAccept mods, w') \<longrightarrow>
       ScriptSetEnvelope n v \<in> set mods \<longrightarrow> rcpt_to (apply_envelope env n v t) = rcpt_to t)"

definition relay_safe :: "(string \<Rightarrow> bool) \<Rightarrow> (string \<Rightarrow> bool) \<Rightarrow> session \<Rightarrow> bool" where
  "relay_safe local listed s \<longleftrightarrow> is_authenticated s \<or> list_all (allowed local listed) (rcpt_to s)"

text \<open>The last recipient is not admitted yet.\<close>

definition rcpt_pending :: "(string \<Rightarrow> bool) \<Rightarrow> (string \<Rightarrow> bool) \<Rightarrow> session \<Rightarrow> bool" where
  "rcpt_pending local listed s \<longleftrightarrow>
    rcpt_to s \<noteq> [] \<and> (is_authenticated s \<or> list_all (allowed local listed) (butlast (rcpt_to s)))"

lemma list_all_last: "xs \<noteq> [] \<Longrightarrow> list_all P xs = (list_all P (butlast xs) \<and> P (last xs))"
  by (induction xs) auto

lemmas relay_safe_unfold = relay_safe_def is_authenticated_def

lemma relay_safe_sender [simp]: "relay_safe local listed (s\<lparr>mail_from := m\<rparr>) = relay_safe local listed s"
  by (simp add: relay_safe_unfold)

lemma pending_dropped: "rcpt_pending local listed s \<Longrightarrow> relay_safe local listed (drop_last_rcpt s)"
  by (auto simp: rcpt_pending_def relay_safe_def drop_last_rcpt_def is_authenticated_def)

lemma reset_safe: "relay_safe local listed (reset_session s)"
  by (simp add: relay_safe_def reset_session_def)

section \<open>Scripts\<close>

definition envelope_kept :: "session \<Rightarrow> session \<Rightarrow> bool" where
  "envelope_kept s s' \<longleftrightarrow>
    authenticated s' = authenticated s \<and> length (rcpt_to s') = length (rcpt_to s) \<and> butlast (rcpt_to s') = butlast (rcpt_to s)"

lemma envelopes_kept:
  assumes "relay_contract env local listed"
  shows "envelope_kept s (apply_envelopes env mods s)"
proof -
  have one: "envelope_kept s (apply_script_envelope env m s)" for m s
    using assms by (cases m) (auto simp: envelope_kept_def relay_contract_def)
  show ?thesis
    unfolding apply_envelopes_def
  proof (induction mods arbitrary: s)
    case (Cons m mods)
    from one [of s m] Cons [of "apply_script_envelope env m s"] show ?case by (auto simp: envelope_kept_def)
  qed (simp add: envelope_kept_def)
qed

lemma envelope_kept_pending: "envelope_kept s s' \<Longrightarrow> rcpt_pending local listed s \<Longrightarrow> rcpt_pending local listed s'"
  by (auto simp: envelope_kept_def rcpt_pending_def is_authenticated_def)

lemma mail_recipients_kept:
  assumes c: "relay_contract env local listed" and r: "run_script env name StageMail s w = (ScriptAccept mods, w')"
  shows "rcpt_to (apply_envelopes env mods t) = rcpt_to t"
proof -
  have one: "rcpt_to (apply_script_envelope env m t) = rcpt_to t" if "m \<in> set mods" for m t
  proof (cases m)
    case (ScriptSetEnvelope n v)
    have "\<forall>name s w mods w' n v t. run_script env name StageMail s w = (ScriptAccept mods, w') \<longrightarrow>
       ScriptSetEnvelope n v \<in> set mods \<longrightarrow> rcpt_to (apply_envelope env n v t) = rcpt_to t"
      using c unfolding relay_contract_def by (elim conjE)
    from this [rule_format, OF r, of n v t] that ScriptSetEnvelope show ?thesis by simp
  qed simp
  have "rcpt_to (fold (apply_script_envelope env) ms t) = rcpt_to t" if "set ms \<subseteq> set mods" for ms
    using that by (induction ms arbitrary: t) (simp_all add: one)
  then show ?thesis by (simp add: apply_envelopes_def)
qed

lemma mail_envelope_safe:
  assumes "relay_contract env local listed" and "run_script env name StageMail s w = (ScriptAccept mods, w')"
  shows "relay_safe local listed (apply_envelopes env mods t) = relay_safe local listed t"
  using mail_recipients_kept [OF assms, of t] envelopes_kept [OF assms(1), of t mods]
  by (simp add: relay_safe_def is_authenticated_def envelope_kept_def)

section \<open>EHLO, MAIL and AUTH keep the recipients\<close>

abbreviation keeps_safe :: "(string \<Rightarrow> bool) \<Rightarrow> (string \<Rightarrow> bool) \<Rightarrow> 'x phase \<Rightarrow> bool" where
  "keeps_safe local listed p \<equiv> phase_ok (relay_safe local listed) p (relay_safe local listed) (relay_safe local listed)"

definition rcpt_same :: "'x phase \<Rightarrow> bool" where
  "rcpt_same p \<longleftrightarrow>
    (\<forall>x. authenticated (fst (snd (p x))) = authenticated (fst x) \<and> rcpt_to (fst (snd (p x))) = rcpt_to (fst x))"

lemma rcpt_sameI:
  fixes p :: "'x phase"
  assumes "\<And>s w. authenticated (fst (snd (p (s, w)))) = authenticated s \<and> rcpt_to (fst (snd (p (s, w)))) = rcpt_to s"
  shows "rcpt_same p"
  unfolding rcpt_same_def
proof
  fix x :: "'x sess"
  show "authenticated (fst (snd (p x))) = authenticated (fst x) \<and> rcpt_to (fst (snd (p x))) = rcpt_to (fst x)"
    using assms [of "fst x" "snd x"] by simp
qed

lemma rcpt_sameD:
  assumes "rcpt_same p"
  shows "authenticated (fst (snd (p x))) = authenticated (fst x)" "rcpt_to (fst (snd (p x))) = rcpt_to (fst x)"
  using assms unfolding rcpt_same_def by blast+

lemma rcpt_same_phases: "list_all rcpt_same ps \<Longrightarrow> rcpt_same (run_phases ps)"
proof (induction ps)
  case (Cons p ps)
  then have "rcpt_same p" "rcpt_same (run_phases ps)" by simp_all
  then show ?case unfolding run_phases_step by (intro rcpt_sameI) (simp add: rcpt_sameD)
qed (simp add: rcpt_same_def)

lemma rcpt_same_safe: "rcpt_same p \<Longrightarrow> keeps_safe local listed p"
  using rcpt_sameD [of p] by (intro phase_okI) (metis fst_conv snd_conv relay_safe_unfold)+

lemma filters_same:
  assumes "\<And>s. authenticated (undo s) = authenticated s \<and> rcpt_to (undo s) = rcpt_to s"
  shows "rcpt_same (run_filters env st undo)"
  using assms by (intro rcpt_sameI) (simp add: run_filters_def split: prod.split sum.split)

lemma ehlo_domain_keeps:
  fixes env :: "('f, 'r, 'x) inbound_env"
  shows "rcpt_same (ehlo_domain env domain)"
proof (rule rcpt_sameI)
  fix s :: session and w :: "'x world"
  have "rcpt_same (ehlo_spf env (helo s))"
    by (rule rcpt_sameI) (simp add: ehlo_spf_def split: prod.split option.split)
  moreover have "rcpt_same (ehlo_script env (helo s))"
    by (rule rcpt_sameI) (simp add: ehlo_script_def undo_ehlo_def split: prod.split option.split script_result.split)
  ultimately have "rcpt_same (run_phases [ehlo_spf env (helo s), ehlo_script env (helo s), run_filters env StageEhlo (undo_ehlo (helo s))])"
    by (intro rcpt_same_phases) (simp add: filters_same undo_ehlo_def)
  then show "authenticated (fst (snd (ehlo_domain env domain (s, w)))) = authenticated s
    \<and> rcpt_to (fst (snd (ehlo_domain env domain (s, w)))) = rcpt_to s"
    by (simp add: ehlo_domain_def Let_def rcpt_sameD del: run_phases.simps)
qed

lemma ehlo_keeps: "keeps_safe local listed (handle_ehlo env domain extended)"
proof -
  have "keeps_safe local listed (ehlo_answer env extended)"
    by (rule phase_okI) (auto simp: ehlo_answer_def Let_def reset_safe split: if_splits prod.splits)
  then show ?thesis unfolding handle_ehlo_def by (intro phases_all) (simp add: ehlo_domain_keeps rcpt_same_safe)
qed

text \<open>The parameters of a session are not among what the invariants are about.\<close>

lemma set_param_same:
  assumes "\<And>a s. authenticated (upd a s) = authenticated s \<and> rcpt_to (upd a s) = rcpt_to s"
  shows "authenticated (fst (set_param e upd x)) = authenticated (fst x) \<and> rcpt_to (fst (set_param e upd x)) = rcpt_to (fst x)"
  using assms by (simp add: set_param_def split: prod.split)

lemma rcpt_params_same [simp]:
  "authenticated (fst (eval_rcpt_params env x)) = authenticated (fst x)"
  "rcpt_to (fst (eval_rcpt_params env x)) = rcpt_to (fst x)"
  by (simp_all add: eval_rcpt_params_def set_param_same)

lemma auth_params_same [simp]:
  "authenticated (fst (eval_post_auth_params env x)) = authenticated (fst x)"
  "rcpt_to (fst (eval_post_auth_params env x)) = rcpt_to (fst x)"
  by (simp_all add: eval_post_auth_params_def set_param_same)

lemma session_params_same [simp]:
  "authenticated (fst (eval_session_params env x)) = authenticated (fst x)"
  "rcpt_to (fst (eval_session_params env x)) = rcpt_to (fst x)"
  by (simp_all add: eval_session_params_def set_param_same)

lemmas mail_phases =
  mail_guards_def mail_reverse_dns_def mail_set_sender_def mail_rewrite_def mail_match_sender_def mail_requiretls_def
  mail_deliver_by_def mail_mt_priority_def mail_size_def mail_hold_def mail_dsn_def mail_throttle_def mail_spf_def
  mail_accept_def drop_sender_def

lemma mail_script_keeps:
  assumes "relay_contract env local listed"
  shows "keeps_safe local listed (mail_script env)"
proof -
  show ?thesis
    by (rule phase_okI)
      (auto simp: mail_script_def drop_sender_def mail_envelope_safe [OF assms] split: prod.splits option.splits script_result.splits)
qed

lemma mail_first_phases: "rcpt_same (mail_guards env)" "rcpt_same mail_reverse_dns" "rcpt_same (mail_set_sender env rq)"
  by (rule rcpt_sameI,
      simp add: mail_guards_def mail_reverse_dns_def mail_set_sender_def drop_sender_def Let_def split: prod.split option.split)+

lemma mail_sender_phases: "rcpt_same (mail_rewrite env)" "rcpt_same (mail_match_sender env)"
  by (rule rcpt_sameI, simp add: mail_rewrite_def mail_match_sender_def drop_sender_def split: prod.split option.split bool.split)+

lemma mail_parameter_phases:
  "rcpt_same (mail_requiretls env from)" "rcpt_same (mail_deliver_by env from)" "rcpt_same (mail_mt_priority env from)"
  "rcpt_same (mail_size env from)" "rcpt_same (mail_hold env from)" "rcpt_same (mail_dsn env from)"
  by (rule rcpt_sameI,
      simp add: mail_requiretls_def mail_deliver_by_def mail_mt_priority_def mail_size_def mail_hold_def mail_dsn_def
        drop_sender_def Let_def split: prod.split option.split bool.split)+

lemma mail_last_phases: "rcpt_same (mail_throttle env)" "rcpt_same (mail_spf env)" "rcpt_same (mail_accept env)"
  by (rule rcpt_sameI, simp add: mail_throttle_def mail_spf_def mail_accept_def drop_sender_def split: prod.split option.split bool.split)+

lemma mail_keeps:
  assumes "relay_contract env local listed"
  shows "keeps_safe local listed (handle_mail_from env from)"
  unfolding handle_mail_from_def
  by (rule phases_all)
    (simp add: rcpt_same_safe mail_script_keeps [OF assms] filters_same drop_sender_def
      mail_first_phases mail_sender_phases mail_parameter_phases mail_last_phases)


lemma hang_up_same: "snd (hang_up r) = snd r"
  by (simp add: hang_up_def split: prod.split option.split outcome.split)

lemma init_conn_same [simp]:
  "authenticated (fst (snd (init_conn env x))) = authenticated (fst x)"
  "rcpt_to (fst (snd (init_conn env x))) = rcpt_to (fst x)"
proof -
  have "rcpt_same (connect_script env)"
    by (rule rcpt_sameI) (simp add: connect_script_def split: prod.split option.split script_result.split)
  moreover have "rcpt_same (connect_filters env)"
    using rcpt_sameD [OF filters_same [of id env StageConnect]] by (intro rcpt_sameI) (simp add: connect_filters_def hang_up_same)
  moreover have "rcpt_same (connect_hostname env)" "rcpt_same (connect_greeting env)"
    by (rule rcpt_sameI, simp add: connect_hostname_def connect_greeting_def split: prod.split)+
  ultimately have "rcpt_same (run_phases [connect_script env, connect_filters env, connect_hostname env, connect_greeting env])"
    by (intro rcpt_same_phases) simp
  from rcpt_sameD [OF this] show
    "authenticated (fst (snd (init_conn env x))) = authenticated (fst x)" "rcpt_to (fst (snd (init_conn env x))) = rcpt_to (fst x)"
    unfolding init_conn_def by (simp_all del: run_phases.simps)
qed

section \<open>RCPT admits only what is allowed\<close>

abbreviation settles :: "(string \<Rightarrow> bool) \<Rightarrow> (string \<Rightarrow> bool) \<Rightarrow> 'x phase \<Rightarrow> bool" where
  "settles local listed p \<equiv> phase_ok (rcpt_pending local listed) p (rcpt_pending local listed) (relay_safe local listed)"

lemma pending_same:
  assumes "rcpt_pending local listed s" "authenticated s' = authenticated s" "rcpt_to s' = rcpt_to s"
  shows "rcpt_pending local listed s'"
  using assms by (simp add: rcpt_pending_def is_authenticated_def)

lemma rcpt_guards_keep: "keeps_safe local listed (rcpt_guards env to)"
  by (rule rcpt_same_safe, rule rcpt_sameI) (simp add: rcpt_guards_def Let_def)

lemma rcpt_push_pending:
  "phase_ok (relay_safe local listed) (rcpt_push env to) (rcpt_pending local listed) (relay_safe local listed)"
  by (rule phase_okI) (auto simp: rcpt_push_def rcpt_pending_def relay_safe_unfold split: if_splits)

lemma rcpt_script_settles:
  assumes "relay_contract env local listed"
  shows "settles local listed (rcpt_script env script)"
proof -
  note k = envelope_kept_pending [OF envelopes_kept [OF assms]]
  show ?thesis
    by (rule phase_okI) (auto simp: rcpt_script_def k pending_dropped split: prod.splits option.splits script_result.splits)
qed

lemma rcpt_run_filters_settle: "settles local listed (run_filters env StageRcpt drop_last_rcpt)"
  by (rule phase_okI) (auto simp: run_filters_def pending_dropped split: prod.splits sum.splits)

lemma rcpt_rewrite_settles: "settles local listed (rcpt_rewrite env)"
  by (rule phase_okI)
    (auto simp: rcpt_rewrite_def rcpt_pending_def is_authenticated_def set_last_def split: prod.splits option.splits if_splits)

lemma rcpt_duplicate_settles: "settles local listed rcpt_duplicate"
proof (rule phase_okI)
  fix s and w :: "'b world" and out y
  assume p: "rcpt_pending local listed s"
  then have n: "rcpt_to s \<noteq> []" by (simp add: rcpt_pending_def)
  { assume "rcpt_duplicate (s, w) = (None, y)"
    with p n show "rcpt_pending local listed (fst y)" by (auto simp: rcpt_duplicate_def Let_def split: if_splits) }
  { assume "rcpt_duplicate (s, w) = (Some out, y)"
    with pending_dropped [OF p] n show "relay_safe local listed (fst y)"
      by (auto simp: rcpt_duplicate_def Let_def relay_safe_unfold split: if_splits) }
qed

lemma rcpt_filters_settle:
  assumes "relay_contract env local listed"
  shows "settles local listed (rcpt_filters env)"
proof -
  have "settles local listed (run_phases [rcpt_script env script, run_filters env StageRcpt drop_last_rcpt, rcpt_rewrite env, rcpt_duplicate])" for script
    by (intro phases_cons [OF rcpt_script_settles [OF assms]] phases_cons [OF rcpt_run_filters_settle]
        phases_cons [OF rcpt_rewrite_settles] phases_cons [OF rcpt_duplicate_settles] phases_nil)
  note p = phase_ok_go [OF this] phase_ok_reply [OF this]
  show ?thesis
    by (intro phase_okI) (auto dest: p simp: rcpt_filters_def simp del: run_phases.simps split: prod.splits if_splits)
qed

lemma rcpt_error_safe: "rcpt_pending local listed (fst x) \<Longrightarrow> relay_safe local listed (fst (snd (rcpt_error env t x)))"
proof -
  assume p: "rcpt_pending local listed (fst x)"
  have "rcpt_pending local listed ((fst x)\<lparr>rcpt_errors := n\<rparr>)" for n by (rule pending_same [OF p]) simp_all
  from pending_dropped [OF this] show ?thesis by (auto simp: rcpt_error_def Let_def split: prod.split)
qed

text \<open>What \<open>rcpt_verify\<close> answers for: an allowed recipient, or a list with its members.\<close>

definition rcpt_verified :: "('f, 'r, 'x) inbound_env \<Rightarrow> (string \<Rightarrow> bool) \<Rightarrow> (string \<Rightarrow> bool) \<Rightarrow> string list option \<Rightarrow> session \<Rightarrow> bool" where
  "rcpt_verified env local listed members s \<longleftrightarrow>
    rcpt_pending local listed s \<and>
    (case members of
       None \<Rightarrow> relay_safe local listed s
     | Some ms \<Rightarrow> (\<forall>m \<in> set ms. listed (lowercase env m)))"

lemma rcpt_relay_ok:
  assumes c: "relay_contract env local listed" and p: "rcpt_pending local listed (fst x)"
  shows "case rcpt_relay env x of
      (Inl r, y) \<Rightarrow> relay_safe local listed (fst y)
    | (Inr members, y) \<Rightarrow> rcpt_verified env local listed members (fst y)"
proof -
  obtain b w where e: "eval_bool_or env RcptRelay False x = (b, w)" by (cases "eval_bool_or env RcptRelay False x")
  show ?thesis
  proof (cases b)
    case True
    with e have "fst (eval_bool_or env RcptRelay False (fst x, snd x))" by simp
    with c have "is_authenticated (fst x)" unfolding relay_contract_def by blast
    then show ?thesis using e True p by (simp add: rcpt_relay_def rcpt_verified_def relay_safe_def)
  next
    case False
    have "relay_safe local listed (fst (snd (rcpt_error env t (fst x, w))))" for t
      using rcpt_error_safe [of local listed "(fst x, w)"] p by simp
    then show ?thesis using e False by (simp add: rcpt_relay_def split: prod.split) (metis fst_conv snd_conv)
  qed
qed

lemma attempts_listed:
  assumes "relay_contract env local listed"
  shows "rcpt_attempts env d email n a w = (Some (RcptList ms), w') \<Longrightarrow> m \<in> set ms \<Longrightarrow> listed (lowercase env m)"
proof (induction n arbitrary: a w)
  case (Suc n)
  have "dir_rcpt env d a w = (Some (RcptList ms), w') \<Longrightarrow> listed (lowercase env m)"
    using assms Suc.prems(2) unfolding relay_contract_def by (metis fst_conv)
  then show ?case using Suc by (auto split: prod.splits option.splits if_splits)
qed simp

lemma server_rcpt_listed:
  assumes "relay_contract env local listed"
  shows "server_rcpt env d a w = (Some (RcptList ms), w') \<Longrightarrow> m \<in> set ms \<Longrightarrow> listed (lowercase env m)"
  unfolding server_rcpt_def by (auto split: prod.splits dest: attempts_listed [OF assms])

lemma rcpt_verify_ok:
  assumes c: "relay_contract env local listed" and p: "rcpt_pending local listed (fst x)"
  shows "case rcpt_verify env x of
      (Inl r, y) \<Rightarrow> relay_safe local listed (fst y)
    | (Inr members, y) \<Rightarrow> rcpt_verified env local listed members (fst y)"
proof -
  have n: "rcpt_to (fst x) \<noteq> []" using p by (simp add: rcpt_pending_def)
  have relay: "case rcpt_relay env (fst x, w) of
      (Inl r, y) \<Rightarrow> relay_safe local listed (fst y)
    | (Inr members, y) \<Rightarrow> rcpt_verified env local listed members (fst y)" for w
    using rcpt_relay_ok [OF c, of "(fst x, w)"] p by simp
  have err: "relay_safe local listed (fst (snd (rcpt_error env t (fst x, w))))" for t w
    using rcpt_error_safe [of local listed "(fst x, w)"] p by simp
  have loc: "dir_is_local_domain env d dom w = (Some True, w') \<Longrightarrow> local dom" for d dom w w'
    using c unfolding relay_contract_def by (metis fst_conv)
  have mailbox: "local (addr_domain (last (rcpt_to (fst x)))) \<Longrightarrow> relay_safe local listed (fst x)"
    using p n by (auto simp: rcpt_pending_def relay_safe_def list_all_last allowed_def)
  have drop: "relay_safe local listed (drop_last_rcpt (fst x))" by (rule pending_dropped [OF p])
  show ?thesis
  proof (cases "eval_directory env RcptDirectory x")
    case (Pair d w)
    show ?thesis
    proof (cases d)
      case None
      then show ?thesis using n relay Pair by (simp add: rcpt_verify_def)
    next
      case (Some d)
      obtain l w' where l: "dir_is_local_domain env d (addr_domain (last (rcpt_to (fst x)))) w = (l, w')" by fastforce
      show ?thesis
      proof (cases "l = Some True")
        case False
        then show ?thesis
          using n relay [of w'] Pair Some l drop by (cases l) (auto simp: rcpt_verify_def Let_def)
      next
        case True
        then have ok: "relay_safe local listed (fst x)" using loc l mailbox by blast
        obtain t w'' where t: "server_rcpt env d (addr_lcase (last (rcpt_to (fst x)))) w' = (t, w'')" by fastforce
        have m: "rcpt_verified env local listed (Some ms) (fst x)" if "t = Some (RcptList ms)" for ms
          using server_rcpt_listed [OF c] t that p by (auto simp: rcpt_verified_def)
        show ?thesis
          using n Pair Some l True t ok m drop err [of "''550 5.1.2 Mailbox does not exist.''" w''] p
          by (cases t) (auto simp: rcpt_verify_def rcpt_verified_def Let_def split: rcpt_type.split prod.split)
      qed
    qed
  qed
qed


lemma greylist_settles: "settles local listed (rcpt_greylist env)"
  by (rule phase_okI)
    (auto simp: rcpt_greylist_def rcpt_pending_def intro: pending_dropped split: prod.splits option.splits if_splits sum.splits bool.splits)

lemma greylist_goes_on: "rcpt_greylist env x = (None, y) \<Longrightarrow> fst y = fst x"
  by (auto simp: rcpt_greylist_def split: prod.splits option.splits sum.splits bool.splits if_splits)

lemma throttle_goes_on: "rcpt_throttle env x = (None, y) \<Longrightarrow> fst y = fst x"
  by (auto simp: rcpt_throttle_def dest: greylist_goes_on split: prod.splits option.splits bool.splits)

lemma throttle_answers:
  assumes "rcpt_pending local listed s" "rcpt_throttle env (s, w) = (Some (Reply t), y)"
  shows "relay_safe local listed (fst y)"
  using assms phase_ok_reply [OF greylist_settles [of local listed env] assms(1)] pending_dropped [OF assms(1)]
  by (auto simp: rcpt_throttle_def split: prod.splits option.splits bool.splits)

lemma member_allowed:
  "listed (lowercase env m) \<Longrightarrow> list_all (allowed local listed) rs \<Longrightarrow> list_all (allowed local listed) (add_member env a m rs)"
  by (auto simp: add_member_def Let_def allowed_def session_address_new_def)

lemma members_allowed:
  "\<forall>m \<in> set ms. listed (lowercase env m) \<Longrightarrow> list_all (allowed local listed) rs \<Longrightarrow>
    list_all (allowed local listed) (fold (add_member env a) ms rs)"
  by (induction ms arbitrary: rs) (simp_all add: member_allowed)

lemma accept_safe:
  assumes "rcpt_verified env local listed members (fst x)"
  shows "relay_safe local listed (fst (snd (rcpt_accept env members x)))"
proof (cases members)
  case None
  then show ?thesis using assms by (simp add: rcpt_accept_def rcpt_verified_def relay_safe_unfold Let_def)
next
  case (Some ms)
  then have "is_authenticated (fst x) \<or> list_all (allowed local listed) (expand_list env ms (rcpt_to (fst x)))"
    using assms members_allowed [of ms listed env local "butlast (rcpt_to (fst x))" "last (rcpt_to (fst x))"]
    by (auto simp: rcpt_verified_def rcpt_pending_def expand_list_def)
  then show ?thesis using Some by (simp add: rcpt_accept_def relay_safe_unfold Let_def)
qed

lemma admit_settles:
  assumes "relay_contract env local listed"
  shows "phase_ok (rcpt_pending local listed) (rcpt_admit env) (relay_safe local listed) (relay_safe local listed)"
proof (rule phase_okI)
  fix s w t y
  assume "rcpt_pending local listed s"
  then have v: "case rcpt_verify env (s, w) of
      (Inl r, y) \<Rightarrow> relay_safe local listed (fst y)
    | (Inr members, y) \<Rightarrow> rcpt_verified env local listed members (fst y)"
    using rcpt_verify_ok [OF assms, of "(s, w)"] by simp
  have accept: "rcpt_accept env ms z = (r, y) \<Longrightarrow> rcpt_verified env local listed ms (fst z) \<Longrightarrow> relay_safe local listed (fst y)" for ms z r y
    using accept_safe [of env local listed ms z] by simp
  have pending: "rcpt_verified env local listed ms z \<Longrightarrow> rcpt_pending local listed z" for ms z by (simp add: rcpt_verified_def)
  { assume "rcpt_admit env (s, w) = (None, y)"
    with v show "relay_safe local listed (fst y)"
      by (auto simp: rcpt_admit_def rcpt_accept_def Let_def split: prod.splits sum.splits option.splits) }
  { assume a: "rcpt_admit env (s, w) = (Some (Reply t), y)"
    show "relay_safe local listed (fst y)"
    proof -
      obtain r z where Pair: "rcpt_verify env (s, w) = (r, z)" by (cases "rcpt_verify env (s, w)")
      show ?thesis
      proof (cases r)
        case (Inl out)
        then show ?thesis using a v Pair by (simp add: rcpt_admit_def)
      next
        case (Inr members)
        then have m: "rcpt_verified env local listed members (fst z)" using v Pair by simp
        obtain q z' where q: "rcpt_throttle env z = (q, z')" by (cases "rcpt_throttle env z")
        show ?thesis
        proof (cases q)
          case None
          then show ?thesis using a Pair Inr q m accept [of members z'] throttle_goes_on [of env z z']
            by (auto simp: rcpt_admit_def split: prod.splits option.splits)
        next
          case (Some out)
          then show ?thesis using a Pair Inr q throttle_answers [OF pending [OF m], of env "snd z" t y] by (simp add: rcpt_admit_def)
        qed
      qed
    qed }
qed

lemma rcpt_keeps:
  assumes "relay_contract env local listed"
  shows "keeps_safe local listed (handle_rcpt_to env to)"
  unfolding handle_rcpt_to_def
  by (intro phases_cons [OF rcpt_guards_keep] phases_cons [OF rcpt_push_pending] phases_cons [OF rcpt_filters_settle [OF assms]]
      phases_cons [OF admit_settles [OF assms]] phases_nil)

section \<open>AUTH\<close>

definition auth_grows :: "session \<Rightarrow> session \<Rightarrow> bool" where
  "auth_grows s s' \<longleftrightarrow> rcpt_to s' = rcpt_to s \<and> (authenticated s' = authenticated s \<or> authenticated s' \<noteq> None)"

lemma auth_grows_safe: "auth_grows s s' \<Longrightarrow> relay_safe local listed s \<Longrightarrow> relay_safe local listed s'"
  by (auto simp: auth_grows_def relay_safe_unfold)

lemma auth_error_grows: "auth_grows (fst x) (fst (snd (auth_error t x)))"
  by (simp add: auth_error_def auth_grows_def Let_def)

lemma try_authenticate_grows: "auth_grows (fst x) (fst (snd (try_authenticate env c x)))"
  using auth_error_grows [of "(fst x, _)"]
  by (auto simp: try_authenticate_def auth_grows_def auth_error_def Let_def split: option.split prod.split sum.split auth_failure.split)

lemma authenticate_with_grows: "auth_grows (fst x) (fst (snd (authenticate_with env c x)))"
  using try_authenticate_grows [of x env] auth_error_grows [of x]
  by (auto simp: authenticate_with_def split: option.split prod.split) (metis fst_conv snd_conv)+

lemma sasl_grows: "auth_grows (fst x) (fst (snd (handle_sasl_response env t line x)))"
proof -
  have same: "auth_grows s s" for s by (simp add: auth_grows_def)
  have inv: "auth_grows (fst x) (fst (snd (invalid_challenge x)))"
    using auth_error_grows [of x] by (auto split: prod.split) (metis fst_conv snd_conv)
  have login: "auth_grows (fst x) (fst (snd (sasl_login env t r x)))" for r
    by (auto simp: sasl_login_def same authenticate_with_grows inv simp del: split_paired_All split: credentials.split)
  show ?thesis
    by (simp add: handle_sasl_response_def Let_def login authenticate_with_grows inv same split: option.split)
qed

interpretation relay: session_invariant pe env
  "\<lambda>s. relay_contract (inbound env) local listed \<longrightarrow> relay_safe local listed s"
  for pe env local listed
proof (unfold_locales, goal_cases)
  case (1 x host extended)
  then show ?case
    by (cases "relay_contract (inbound env) local listed") (auto intro: phase_kept [OF ehlo_keeps] keptI)
next
  case (2 x rq)
  then show ?case by (cases "relay_contract (inbound env) local listed") (auto intro: phase_kept [OF mail_keeps] keptI)
next
  case (3 x rq)
  then show ?case by (cases "relay_contract (inbound env) local listed") (auto intro: phase_kept [OF rcpt_keeps] keptI)
next
  case (4 x t line r y)
  then show ?case using sasl_grows [of x "inbound env" t line] auth_grows_safe by auto
next
  case (5 x t line out y)
  then show ?case using sasl_grows [of x "inbound env" t line] auth_grows_safe by (intro keptI) auto
next
  case (6 x t out y)
  then show ?case using auth_error_grows [of x t] auth_grows_safe by (intro keptI) auto
qed (simp_all add: reset_safe, simp_all add: relay_safe_unfold session_into_tls_def)


end
