(* ===== verification/Inbound_Frames.thy ===== *)
theory Inbound_Frames
  imports Inbound_Relay
begin

text \<open>
  Bounds of a session: the loop ends, the text of a message stays within the configured size, and a
  connection that is open has seen fewer failed logins than its limit.
\<close>

section \<open>The loop ends\<close>

text \<open>
  What the receivers of the \<open>smtp-proto\<close> package do: they return a part of the bytes they were given, and
  the receivers of requests and of lines take at least one byte for what they find.
\<close>

definition receivers_progress :: "'p proto_env \<Rightarrow> bool" where
  "receivers_progress pe \<longleftrightarrow>
    (\<forall>p bs r p' bs'. request_ingest pe p bs = (r, p', bs') \<longrightarrow> r \<noteq> Inl NeedsMoreData \<longrightarrow> length bs' < length bs) \<and>
    (\<forall>p bs m d p' m' bs'. data_ingest pe p bs m = (d, p', m', bs') \<longrightarrow> length bs' \<le> length bs) \<and>
    (\<forall>p bs m d p' m' bs'. bdat_ingest pe p bs m = (d, p', m', bs') \<longrightarrow> length bs' \<le> length bs) \<and>
    (\<forall>p bs p' bs'. line_ingest pe p bs = (True, p', bs') \<longrightarrow> length bs' < length bs) \<and>
    (\<forall>p bs d p' bs'. dummy_data_ingest pe p bs = (d, p', bs') \<longrightarrow> length bs' \<le> length bs) \<and>
    (\<forall>p bs d p' bs'. dummy_line_ingest pe p bs = (d, p', bs') \<longrightarrow> length bs' \<le> length bs)"

fun state_rank :: "'p receiver_state \<Rightarrow> nat" where
  "state_rank (StRequest _) = 0"
| "state_rank (StSasl _ _) = 0"
| "state_rank (StData _) = 2"
| "state_rank _ = 1"

lemma state_rank_le: "state_rank st \<le> 2"
  by (cases st) simp_all

fun turn_measure :: "('p, 'x) step_result \<times> string \<Rightarrow> nat" where
  "turn_measure ((GoOn st, out, x), bs) = Suc (3 * length bs + state_rank st)"
| "turn_measure _ = 0"

text \<open>After a message, a chunk or a line the receiver is the one of requests or of a login.\<close>

lemma outcome_rank: "outcome_step st out x = (GoOn st', o', y) \<Longrightarrow> st' = st"
  by (cases out) auto

lemma message_end_rank: "message_end pe env x = (GoOn st', out, y) \<Longrightarrow> state_rank st' = 0"
  by (auto simp: message_end_def split: prod.splits outcome.splits)

lemma chunk_end_rank: "chunk_end pe env fin x = (GoOn st', out, y) \<Longrightarrow> state_rank st' = 0"
  by (auto simp: chunk_end_def dest: outcome_rank message_end_rank split: prod.splits option.splits if_splits)

lemma line_end_rank: "line_end pe env p t x = (GoOn st', out, y) \<Longrightarrow> state_rank st' = 0"
  by (auto simp: line_end_def sasl_step_def dest: outcome_rank split: prod.splits sum.splits if_splits)

lemma step_progress:
  assumes "receivers_progress pe" "ingest_step pe env n st bs x = ((GoOn st', out, y), bs')"
  shows "3 * length bs' + state_rank st' < 3 * length bs + state_rank st"
proof (cases st)
  case (StRequest p)
  obtain r p' bs2 where r: "request_ingest pe p bs = (r, p', bs2)" by (metis prod_cases3)
  have "length bs2 < length bs" if "r \<noteq> Inl NeedsMoreData" using assms(1) r that unfolding receivers_progress_def by metis
  moreover have "bs' = bs2" "r \<noteq> Inl NeedsMoreData" using StRequest r assms(2) by (auto split: sum.splits)
  ultimately have "length bs' < length bs" by simp
  then show ?thesis using StRequest state_rank_le [of st'] by simp
next
  case (StSasl p t)
  then obtain p' where l: "line_ingest pe p bs = (True, p', bs')" "line_end pe env p' t x = (GoOn st', out, y)"
    using assms(2) by (auto split: prod.splits bool.splits)
  then have "length bs' < length bs" using assms(1) unfolding receivers_progress_def by metis
  then show ?thesis using line_end_rank [OF l(2)] by simp
next
  case (StData p)
  obtain d p' m bs2 where r: "data_ingest pe p bs (message_data (fst x)) = (d, p', m, bs2)" by (metis prod_cases4)
  then have "length bs2 \<le> length bs" using assms(1) unfolding receivers_progress_def by metis
  then show ?thesis using assms(2) StData r by (auto dest!: message_end_rank split: if_splits bool.splits)
next
  case (StBdat p fin)
  obtain d p' m bs2 where r: "bdat_ingest pe p bs (message_data (fst x)) = (d, p', m, bs2)" by (metis prod_cases4)
  then have "length bs2 \<le> length bs" using assms(1) unfolding receivers_progress_def by metis
  then show ?thesis using assms(2) StBdat r by (auto dest!: chunk_end_rank split: bool.splits)
next
  case (StDataTooLarge p)
  obtain d p' bs2 where r: "dummy_data_ingest pe p bs = (d, p', bs2)" by (metis prod_cases3)
  then have "length bs2 \<le> length bs" using assms(1) unfolding receivers_progress_def by metis
  then show ?thesis using assms(2) StDataTooLarge r by (auto split: bool.splits)
next
  case (StRequestTooLarge p)
  obtain d p' bs2 where r: "dummy_line_ingest pe p bs = (d, p', bs2)" by (metis prod_cases3)
  then have "length bs2 \<le> length bs" using assms(1) unfolding receivers_progress_def by metis
  then show ?thesis using assms(2) StRequestTooLarge r by (auto split: bool.splits)
qed

lemma turn_progress:
  assumes "receivers_progress pe"
  shows "goes_on r \<Longrightarrow> turn_measure (turn pe env n r) < turn_measure r"
proof (induction r rule: goes_on.induct)
  case (1 st out x bs)
  obtain r o' y bs' where e: "ingest_step pe env n st bs x = ((r, o', y), bs')" by (metis prod.exhaust)
  then show ?case using step_progress [OF assms, of env n st bs x] by (cases r) auto
qed simp_all

lemma ingest_ends:
  assumes "receivers_progress pe"
  shows "ingest pe env st bytes x \<noteq> None"
proof -
  have "\<exists>t. while_option goes_on (turn pe env (length bytes)) ((GoOn st, [], x), bytes) = Some t"
    by (rule measure_while_option_Some [where P = "\<lambda>_. True" and f = turn_measure]) (simp_all add: turn_progress [OF assms])
  then show ?thesis by (auto simp: ingest_def)
qed

lemma conn_step_ends: "receivers_progress pe \<Longrightarrow> conn_step pe env loiter st ev x \<noteq> None"
  by (cases ev) (simp_all add: conn_read_def Let_def ingest_ends del: not_None_eq split: prod.split)

lemma handle_conn_ends: "receivers_progress pe \<Longrightarrow> handle_conn pe env loiter st evs x \<noteq> None"
proof (induction evs arbitrary: st x)
  case (Cons ev evs)
  then show ?case using conn_step_ends [of pe env loiter st ev x]
    by (cases "conn_step pe env loiter st ev x") (simp_all del: not_None_eq split: prod.split conn_next.split)
qed simp

lemma serve_ends: "receivers_progress pe \<Longrightarrow> serve_greeted pe env loiter before tls_ok after x \<noteq> None"
  using handle_conn_ends [of pe env loiter "default_state pe" before x]
  by (cases "handle_conn pe env loiter (default_state pe) before x")
    (simp_all add: serve_greeted_def handle_conn_ends del: not_None_eq split: prod.split conn_next.split)

text \<open>
  C5. The server never hangs on what a client sends: for every sequence of reads, whatever the bytes, every
  loop over them ends, if the receivers take a byte for every request and every line they return.
\<close>

theorem sessions_never_hang:
  assumes "receivers_progress pe"
  shows "\<exists>r. handle_session pe env loiter c before tls_ok after w = Some r"
proof -
  have "handle_session pe env loiter c before tls_ok after w \<noteq> None"
    unfolding handle_session_def
    by (simp add: serve_ends [OF assms] del: not_None_eq split: prod.split option.split bool.split outcome.split)
  then show ?thesis by blast
qed


section \<open>What the handlers leave alone\<close>

text \<open>
  The commands before the message never lengthen its text, count failed logins or move their limit, and
  keep the size limit below any bound of its setting. A script edits the envelope only.
\<close>

definition session_frame :: "u64 \<Rightarrow> session \<Rightarrow> session \<Rightarrow> bool" where
  "session_frame M s s' \<longleftrightarrow>
    (message_data s' = message_data s \<or> message_data s' = []) \<and> auth_errors s' = auth_errors s \<and>
    auth_errors_max (params s') = auth_errors_max (params s) \<and>
    (max_message_size (params s) \<le> M \<longrightarrow> max_message_size (params s') \<le> M)"

definition phase_frame :: "u64 \<Rightarrow> 'x phase \<Rightarrow> bool" where
  "phase_frame M p \<longleftrightarrow> (\<forall>x. session_frame M (fst x) (fst (snd (p x))))"

definition scripts_edit_envelope :: "('f, 'r, 'x) inbound_env \<Rightarrow> bool" where
  "scripts_edit_envelope env \<longleftrightarrow>
    (\<forall>n v s. \<exists>m rs. apply_envelope env n v s = s\<lparr>mail_from := m, rcpt_to := rs\<rparr>)"

definition size_setting_le :: "('f, 'r, 'x) inbound_env \<Rightarrow> u64 \<Rightarrow> bool" where
  "size_setting_le env M \<longleftrightarrow> (\<forall>x. fst (eval_usize_or env DataMaxMessageSize 26214400 x) \<le> M)"

lemma frame_refl [simp]: "session_frame M s s"
  by (simp add: session_frame_def)

lemma frame_trans: "session_frame M s s' \<Longrightarrow> session_frame M s' s'' \<Longrightarrow> session_frame M s s''"
  by (auto simp: session_frame_def)

lemma phase_frameI:
  fixes p :: "'x phase"
  assumes "\<And>s w. session_frame M s (fst (snd (p (s, w))))"
  shows "phase_frame M p"
  unfolding phase_frame_def
proof
  fix x :: "'x sess"
  show "session_frame M (fst x) (fst (snd (p x)))" using assms [of "fst x" "snd x"] by simp
qed

lemma phase_frameD: "phase_frame M p \<Longrightarrow> session_frame M (fst x) (fst (snd (p x)))"
  unfolding phase_frame_def by blast

lemma frame_phases: "list_all (phase_frame M) ps \<Longrightarrow> phase_frame M (run_phases ps)"
proof (induction ps)
  case (Cons p ps)
  then have p: "phase_frame M p" and ps: "phase_frame M (run_phases ps)" by simp_all
  have "session_frame M (fst x) (fst (snd (run_phases ps (snd (p x)))))" for x
    by (rule frame_trans [OF phase_frameD [OF p] phase_frameD [OF ps]])
  then show ?case using phase_frameD [OF p] unfolding run_phases_step phase_frame_def by (simp del: split_paired_All)
qed (simp add: phase_frame_def)

lemma frame_update [simp]:
  "session_frame M s (s\<lparr>mail_from := m\<rparr>)" "session_frame M s (s\<lparr>rcpt_to := rs\<rparr>)" "session_frame M s (s\<lparr>helo := h\<rparr>)"
  "session_frame M s (s\<lparr>iprev := i\<rparr>)" "session_frame M s (s\<lparr>spf_ehlo := o'\<rparr>)" "session_frame M s (s\<lparr>spf_mail_from := o'\<rparr>)"
  "session_frame M s (s\<lparr>delivery_by := n\<rparr>)" "session_frame M s (s\<lparr>mail_priority := z\<rparr>)" "session_frame M s (s\<lparr>future_release := n\<rparr>)"
  "session_frame M s (s\<lparr>rcpt_errors := n\<rparr>)" "session_frame M s (s\<lparr>rcpt_oks := n\<rparr>)"
  "session_frame M s (drop_sender s)" "session_frame M s (drop_last_rcpt s)" "session_frame M s (undo_ehlo prev s)"
  "session_frame M s (reset_session s)" "session_frame M s (s\<lparr>mail_from := m, helo := h\<rparr>)"
  by (simp_all add: session_frame_def drop_sender_def drop_last_rcpt_def undo_ehlo_def reset_session_def)

lemma frame_filters: "(\<And>s. session_frame M s (undo s)) \<Longrightarrow> phase_frame M (run_filters env st undo)"
  by (rule phase_frameI) (simp add: run_filters_def split: prod.split sum.split)

lemma frame_envelopes:
  assumes "scripts_edit_envelope env"
  shows "session_frame M s (apply_envelopes env mods s)"
proof -
  have one: "session_frame M s (apply_script_envelope env m s)" for m s
  proof (cases m)
    case (ScriptSetEnvelope n v)
    obtain f rs where "apply_envelope env n v s = s\<lparr>mail_from := f, rcpt_to := rs\<rparr>"
      using assms unfolding scripts_edit_envelope_def by blast
    then show ?thesis using ScriptSetEnvelope by (simp add: session_frame_def)
  qed simp
  show ?thesis
    unfolding apply_envelopes_def by (induction mods arbitrary: s) (auto intro: frame_trans one)
qed

lemma frame_ehlo: "phase_frame M (handle_ehlo env domain extended)"
proof -
  have d: "phase_frame M (run_phases [ehlo_spf env prev, ehlo_script env prev, run_filters env StageEhlo (undo_ehlo prev)])" for prev
    by (rule frame_phases, simp only: list.pred_inject, intro conjI TrueI; (rule frame_filters phase_frameI)?)
      (simp_all add: ehlo_spf_def ehlo_script_def split: prod.split option.split script_result.split)
  have "phase_frame M (ehlo_domain env domain)"
  proof (rule phase_frameI)
    fix s w
    have "session_frame M s (fst (snd (run_phases [ehlo_spf env (helo s), ehlo_script env (helo s),
        run_filters env StageEhlo (undo_ehlo (helo s))] (s\<lparr>helo := domain\<rparr>, w))))"
      using phase_frameD [OF d, of "(s\<lparr>helo := domain\<rparr>, w)"] frame_trans [OF frame_update(3)] by (metis fst_conv)
    then show "session_frame M s (fst (snd (ehlo_domain env domain (s, w))))"
      by (simp add: ehlo_domain_def Let_def del: run_phases.simps)
  qed
  moreover have "phase_frame M (ehlo_answer env extended)"
    by (rule phase_frameI) (auto simp: ehlo_answer_def Let_def split: prod.split)
  ultimately show ?thesis unfolding handle_ehlo_def by (intro frame_phases) simp
qed


lemma frame_mail_first: "phase_frame M (mail_guards env)" "phase_frame M mail_reverse_dns" "phase_frame M (mail_set_sender env rq)"
  by (rule phase_frameI, simp add: mail_guards_def mail_reverse_dns_def mail_set_sender_def Let_def split: prod.split option.split)+

lemma frame_mail_script: "scripts_edit_envelope env \<Longrightarrow> phase_frame M (mail_script env)"
  by (rule phase_frameI) (simp add: mail_script_def frame_envelopes split: prod.split option.split script_result.split)

lemma frame_mail_sender: "phase_frame M (mail_rewrite env)" "phase_frame M (mail_match_sender env)"
  by (rule phase_frameI, simp add: mail_rewrite_def mail_match_sender_def split: prod.split option.split bool.split)+

lemma frame_mail_parameters:
  "phase_frame M (mail_requiretls env rq)" "phase_frame M (mail_deliver_by env rq)" "phase_frame M (mail_mt_priority env rq)"
  "phase_frame M (mail_size env rq)" "phase_frame M (mail_hold env rq)" "phase_frame M (mail_dsn env rq)"
  by (rule phase_frameI,
      simp add: mail_requiretls_def mail_deliver_by_def mail_mt_priority_def mail_size_def mail_hold_def mail_dsn_def
        Let_def split: prod.split option.split bool.split)+

lemma frame_mail_last: "phase_frame M (mail_throttle env)" "phase_frame M (mail_spf env)"
  by (rule phase_frameI, simp add: mail_throttle_def mail_spf_def split: prod.split option.split bool.split)+

lemma frame_set_param:
  assumes "\<And>a s. auth_errors_max (params (upd a s)) = auth_errors_max (params s) \<and> message_data (upd a s) = message_data s
      \<and> auth_errors (upd a s) = auth_errors s \<and> max_message_size (params (upd a s)) = max_message_size (params s)"
  shows "session_frame M (fst x) (fst (set_param e upd x))"
  using assms by (simp add: set_param_def session_frame_def split: prod.split)

lemma frame_rcpt_params:
  assumes "size_setting_le env M"
  shows "session_frame M (fst x) (fst (eval_rcpt_params env x))"
proof -
  have s: "session_frame M (fst x) (fst (set_param (eval_usize_or env DataMaxMessageSize 26214400) (\<lambda>n. upd_params (max_message_size_update (\<lambda>_. n))) x))"
    for x
  proof -
    have "fst (eval_usize_or env DataMaxMessageSize 26214400 x) \<le> M" using assms unfolding size_setting_le_def by blast
    then show ?thesis
      by (cases "eval_usize_or env DataMaxMessageSize 26214400 x") (simp add: set_param_def session_frame_def)
  qed
  show ?thesis
    unfolding eval_rcpt_params_def by (simp, intro frame_trans [OF _ s] frame_trans [OF _ frame_set_param] frame_set_param) simp_all
qed

lemma frame_auth_params: "session_frame M (fst x) (fst (eval_post_auth_params env x))"
  unfolding eval_post_auth_params_def by (simp, intro frame_trans [OF _ frame_set_param] frame_set_param) simp_all

lemma frame_mail:
  assumes "scripts_edit_envelope env" "size_setting_le env M"
  shows "phase_frame M (handle_mail_from env rq)"
proof -
  have "phase_frame M (mail_accept env)"
    by (rule phase_frameI) (use frame_rcpt_params [OF assms(2)] in \<open>simp add: mail_accept_def\<close>, metis fst_conv)
  then show ?thesis
    unfolding handle_mail_from_def
    by (intro frame_phases)
      (simp add: frame_mail_first frame_mail_script [OF assms(1)] frame_filters frame_mail_sender frame_mail_parameters frame_mail_last)
qed

lemma frame_rcpt_first: "phase_frame M (rcpt_guards env rq)" "phase_frame M (rcpt_push env rq)"
  by (rule phase_frameI, simp add: rcpt_guards_def rcpt_push_def Let_def)+

lemma frame_rcpt_filters:
  assumes "scripts_edit_envelope env"
  shows "phase_frame M (rcpt_filters env)"
proof -
  have "phase_frame M (rcpt_script env script)" for script
    by (rule phase_frameI)
      (simp add: rcpt_script_def frame_envelopes [OF assms] split: prod.split option.split script_result.split)
  moreover have "phase_frame M (rcpt_rewrite env)"
    by (rule phase_frameI) (simp add: rcpt_rewrite_def split: prod.split option.split)
  moreover have "phase_frame M rcpt_duplicate"
    by (rule phase_frameI) (simp add: rcpt_duplicate_def Let_def, simp add: session_frame_def drop_last_rcpt_def)
  ultimately have r: "phase_frame M (run_phases [rcpt_script env script, run_filters env StageRcpt drop_last_rcpt, rcpt_rewrite env, rcpt_duplicate])"
    for script by (intro frame_phases) (simp add: frame_filters)
  show ?thesis
    by (rule phase_frameI) (use phase_frameD [OF r] in \<open>simp add: rcpt_filters_def del: run_phases.simps split: prod.split\<close>, metis fst_conv)
qed

lemma frame_rcpt_admit:
  fixes env :: "('f, 'r, 'x) inbound_env"
  shows "phase_frame M (rcpt_admit env)"
proof -
  have "phase_frame M (rcpt_greylist env)"
    by (rule phase_frameI) (simp add: rcpt_greylist_def split: prod.split option.split sum.split bool.split)
  then have t: "phase_frame M (rcpt_throttle env)"
    by (intro phase_frameI) (use phase_frameD [of M "rcpt_greylist env"] in \<open>simp add: rcpt_throttle_def split: prod.split option.split bool.split\<close>, metis fst_conv)
  have a: "phase_frame M (rcpt_accept env ms)" for ms
    by (rule phase_frameI) (simp add: rcpt_accept_def Let_def session_frame_def split: option.split)
  have e: "session_frame M (fst x) (fst (snd (rcpt_error env t x)))" for t and x :: "'x sess"
    by (simp add: rcpt_error_def session_frame_def drop_last_rcpt_def Let_def split: prod.split)
  have "session_frame M s (fst (snd (rcpt_relay env (s, w))))" for s w
    using e by (simp add: rcpt_relay_def split: prod.split bool.split) (metis fst_conv snd_conv)
  then have v: "session_frame M (fst x) (fst (snd (rcpt_verify env x)))" for x
    using e by (simp add: rcpt_verify_def Let_def split: prod.split option.split bool.split rcpt_type.split) (metis fst_conv snd_conv)
  show ?thesis
  proof (rule phase_frameI)
    fix s w
    obtain r y where vy: "rcpt_verify env (s, w) = (r, y)" by (cases "rcpt_verify env (s, w)")
    with v [of "(s, w)"] have "session_frame M s (fst y)" by simp
    moreover have "session_frame M (fst y) (fst (snd (run_phases [rcpt_throttle env, rcpt_accept env ms] y)))" for ms
      by (rule phase_frameD, rule frame_phases) (simp add: t a)
    ultimately show "session_frame M s (fst (snd (rcpt_admit env (s, w))))"
      using vy by (simp add: rcpt_admit_def del: run_phases.simps split: sum.split) (meson frame_trans)
  qed
qed

lemma frame_rcpt: "scripts_edit_envelope env \<Longrightarrow> phase_frame M (handle_rcpt_to env rq)"
  unfolding handle_rcpt_to_def
  by (intro frame_phases) (simp add: frame_rcpt_first frame_rcpt_filters frame_rcpt_admit)

end
