(* ===== verification/Inbound_Bounds.thy ===== *)
theory Inbound_Bounds
  imports Inbound_Frames
begin

text \<open>
  The bounds themselves: how large the text of a message gets, and how many logins may fail.
\<close>

section \<open>The message leaves alone what the commands do\<close>

definition data_frame :: "u64 \<Rightarrow> 'x data_phase \<Rightarrow> bool" where
  "data_frame M p \<longleftrightarrow> (\<forall>m x. session_frame M (fst x) (fst (snd (p m x))))"

lemma data_frameI:
  fixes p :: "'x data_phase"
  assumes "\<And>m s w. session_frame M s (fst (snd (p m (s, w))))"
  shows "data_frame M p"
  unfolding data_frame_def
proof (intro allI)
  fix m and x :: "'x sess"
  show "session_frame M (fst x) (fst (snd (p m x)))" using assms [of "fst x" m "snd x"] by simp
qed

lemma data_frameD: "data_frame M p \<Longrightarrow> session_frame M (fst x) (fst (snd (p m x)))"
  unfolding data_frame_def by blast

lemma run_data_step: "run_data_phases (p # ps) m x =
    (case fst (p m x) of Inl r \<Rightarrow> (Inl r, snd (p m x)) | Inr m' \<Rightarrow> run_data_phases ps m' (snd (p m x)))"
  by (cases "p m x") (simp split: sum.split)

lemma frame_data_phases: "list_all (data_frame M) ps \<Longrightarrow> data_frame M (run_data_phases ps)"
proof (induction ps)
  case (Cons p ps)
  then have p: "data_frame M p" and ps: "data_frame M (run_data_phases ps)" by simp_all
  have "session_frame M (fst x) (fst (snd (run_data_phases ps m' (snd (p m x)))))" for m m' x
    by (rule frame_trans [OF data_frameD [OF p] data_frameD [OF ps]])
  then show ?case using data_frameD [OF p] unfolding run_data_step data_frame_def by (simp del: split_paired_All split: sum.split)
qed (simp add: data_frame_def)

lemma frame_count [simp]: "session_frame M s (count_message s)"
  by (simp add: session_frame_def)

lemma frame_text [simp]: "session_frame M s (s\<lparr>message_data := []\<rparr>)"
  by (simp add: session_frame_def)

lemma frame_optional: "data_frame M (optional_header env k h)"
  by (rule data_frameI) (simp add: optional_header_def split: prod.split bool.split)

lemma frame_checks: "data_frame M (data_loop_check env)" "data_frame M (data_dkim env)" "data_frame M (data_arc env)"
    "data_frame M (data_report env)" "data_frame M (data_queue_id env)" "data_frame M (data_arc_seal env)" "data_frame M (data_sign env)"
  by (rule data_frameI,
      simp add: data_loop_check_def data_dkim_def data_arc_def data_report_def data_queue_id_def data_arc_seal_def data_sign_def
        Let_def split: prod.split option.split)+

lemma frame_dmarc: "data_frame M (data_dmarc env)"
  by (rule data_frameI) (simp add: data_dmarc_def Let_def split: prod.split option.split)

lemma frame_headers: "data_frame M (data_received env)" "data_frame M (data_auth_results env)" "data_frame M (data_date env)"
    "data_frame M (data_message_id env)" "data_frame M (data_received_spf env)"
  using frame_optional [of M env]
  by (auto simp: data_received_def data_auth_results_def data_date_def data_message_id_def header_unless_def data_received_spf_def
      data_frame_def split: option.split)

lemma frame_spam: "data_frame M (data_spam env)"
  by (rule data_frameI) (simp add: data_spam_def split: prod.split bool.split spam_action.split)

lemma frame_edit: "session_frame M s (edit_envelope env c s)"
  by (cases c) (simp_all add: Let_def)

lemma frame_edits: "session_frame M s (fold (edit_envelope env) cs s)"
  by (induction cs arbitrary: s) (auto intro: frame_trans frame_edit)

lemma frame_data_filters: "data_frame M (data_filters env)"
  by (rule data_frameI)
    (simp add: data_filters_def apply_milter_modifications_def Let_def frame_edits split: prod.split sum.split)

lemma frame_data_script:
  assumes "scripts_edit_envelope (inbound env)"
  shows "data_frame M (data_script env)"
  by (rule data_frameI)
    (simp add: data_script_def apply_script_def frame_envelopes [OF assms] split: prod.split option.split script_result.split)

lemma frame_put: "session_frame M (fst x) (fst (snd (put_in_queue env m mw x)))"
  by (simp add: put_in_queue_def Let_def split: prod.split option.split bool.split)

lemma frame_data_queue: "data_frame M (data_queue env)"
proof (rule data_frameI)
  fix m s w
  have h: "data_frame M (run_data_phases [optional_header env DataAddReturnPath h, data_date env, data_message_id env, data_sign env])" for h
    by (intro frame_data_phases) (simp add: frame_optional frame_headers frame_checks)
  have q: "session_frame M s (fst (snd (run_data_phases [optional_header env DataAddReturnPath h, data_date env, data_message_id env, data_sign env]
      m (s\<lparr>rcpt_to := []\<rparr>, w'))))" for h w'
    using frame_trans [OF frame_update(2) data_frameD [OF h, of "(s\<lparr>rcpt_to := []\<rparr>, w')", simplified fst_conv]] .
  have p: "session_frame M s (fst y) \<Longrightarrow> session_frame M s (fst (snd (put_in_queue env m' mw y)))" for m' mw y
    using frame_trans frame_put by blast
  show "session_frame M s (fst (snd (data_queue env m (s, w))))"
    using q p by (simp add: data_queue_def Let_def del: run_data_phases.simps split: option.split prod.split sum.split) (metis fst_conv snd_conv)
qed

lemma frame_message:
  assumes "scripts_edit_envelope (inbound env)"
  shows "session_frame M (fst x) (fst (snd (session_queue_message env x)))"
proof -
  have "data_frame M (run_data_phases [data_loop_check env, data_dkim env, data_arc env, data_dmarc env, data_report env, data_queue_id env,
        data_received env, data_auth_results env, data_received_spf env, data_arc_seal env, data_spam env,
        data_filters env, data_script env, data_queue env])"
    by (intro frame_data_phases)
      (simp add: frame_checks frame_dmarc frame_headers frame_spam frame_data_filters frame_data_script [OF assms] frame_data_queue)
  from frame_trans [OF frame_text data_frameD [OF this, of "((fst x)\<lparr>message_data := []\<rparr>, snd x)", simplified fst_conv]]
  show ?thesis unfolding session_queue_message_def
    by (simp del: run_data_phases.simps split: prod.split sum.split) (metis snd_conv fst_conv)
qed


section \<open>Logins\<close>

text \<open>A login may also change the parameters that depend on the account.\<close>

definition login_frame :: "session \<Rightarrow> session \<Rightarrow> bool" where
  "login_frame s s' \<longleftrightarrow>
    message_data s' = message_data s \<and> auth_errors_max (params s') = auth_errors_max (params s) \<and>
    max_message_size (params s') = max_message_size (params s)"

lemma login_frame_auth_error: "login_frame (fst x) (fst (snd (auth_error t x)))"
  by (simp add: auth_error_def login_frame_def Let_def)

lemma set_param_field: "(\<And>a s. f (upd a s) = f s) \<Longrightarrow> f (fst (set_param e upd x)) = f (fst x)"
  by (simp add: set_param_def split: prod.split)

lemma auth_params_fields:
  "message_data (fst (eval_post_auth_params env x)) = message_data (fst x)"
  "auth_errors (fst (eval_post_auth_params env x)) = auth_errors (fst x)"
  "auth_errors_max (params (fst (eval_post_auth_params env x))) = auth_errors_max (params (fst x))"
  "max_message_size (params (fst (eval_post_auth_params env x))) = max_message_size (params (fst x))"
  by (simp_all add: eval_post_auth_params_def set_param_field [where f = message_data] set_param_field [where f = auth_errors]
      set_param_field [where f = "\<lambda>s. auth_errors_max (params s)"] set_param_field [where f = "\<lambda>s. max_message_size (params s)"])

definition logins_ok :: "session \<Rightarrow> bool" where
  "logins_ok s \<longleftrightarrow> auth_errors s = 0 \<or> auth_errors s < auth_errors_max (params s)"

text \<open>What a response to the server's challenge does: the session is framed, and if it goes on, the logins are.\<close>

definition login_ok :: "session \<Rightarrow> (string \<times> sasl_token + outcome) \<times> 'x sess \<Rightarrow> bool" where
  "login_ok s r \<longleftrightarrow>
    login_frame s (fst (snd r)) \<and> (logins_ok s \<longrightarrow> (\<exists>t. fst r = Inr (HangUp t)) \<or> logins_ok (fst (snd r)))"

lemma auth_error_ok: "login_ok (fst x) (case auth_error t x of (r, y) \<Rightarrow> (Inr r, y))"
  by (simp add: auth_error_def login_ok_def login_frame_def logins_ok_def Let_def)

lemma login_same: "login_ok s (r, s, w)"
  by (simp add: login_ok_def login_frame_def)

lemma try_authenticate_ok: "login_ok (fst x) (case try_authenticate env c x of (r, y) \<Rightarrow> (Inr r, y))"
proof -
  have e: "login_ok (fst x) (case auth_error t (fst x, w) of (r, y) \<Rightarrow> (Inr r, y))" for t w
    using auth_error_ok [of "(fst x, w)"] by simp
  have a: "login_ok (fst x) (Inr r, eval_post_auth_params env ((fst x)\<lparr>authenticated := Some t\<rparr>, w))" for r t w
    by (simp add: login_ok_def login_frame_def logins_ok_def auth_params_fields)
  show ?thesis
  proof (cases "auth_directory (params (fst x))")
    case None
    then show ?thesis using login_same [of "fst x" _ "snd x"] by (simp add: try_authenticate_def)
  next
    case (Some d)
    obtain r w where r: "server_authenticate env d c (fst x) (snd x) = (r, w)" by (cases "server_authenticate env d c (fst x) (snd x)")
    show ?thesis
    proof (cases r)
      case (Inl f)
      then show ?thesis using Some r by (cases f) (simp_all add: try_authenticate_def e login_same)
    qed (use Some r a in \<open>simp add: try_authenticate_def\<close>)
  qed
qed

lemma authenticate_with_ok: "login_ok (fst x) (authenticate_with env c x)"
  using try_authenticate_ok [of x env] auth_error_ok [of x] by (simp add: authenticate_with_def split: option.split)

lemma sasl_login_ok: "login_ok (fst x) (sasl_login env t resp x)"
  using authenticate_with_ok [of x env] auth_error_ok [of x] login_same [of "fst x" _ "snd x"]
  by (simp add: sasl_login_def split: credentials.split)

lemma sasl_response_ok: "login_ok (fst x) (handle_sasl_response env t line x)"
  using authenticate_with_ok [of x env] auth_error_ok [of x] sasl_login_ok [of x env t] login_same [of "fst x" _ "snd x"]
  by (simp add: handle_sasl_response_def Let_def split: option.split)

lemma frame_logins: "session_frame M s s' \<Longrightarrow> logins_ok s \<Longrightarrow> logins_ok s'"
  by (simp add: session_frame_def logins_ok_def)

interpretation logins: session_invariant pe env "\<lambda>s. scripts_edit_envelope (inbound env) \<longrightarrow> logins_ok s"
  for pe env
proof (unfold_locales, goal_cases)
  case (1 x host extended)
  then show ?case using phase_frameD [OF frame_ehlo [of 0], of x] frame_logins by (intro keptI) blast
next
  case (2 x rq)
  have "scripts_edit_envelope (inbound env) \<Longrightarrow> session_frame (- 1) (fst x) (fst (snd (handle_mail_from (inbound env) rq x)))"
    by (rule phase_frameD, rule frame_mail) (simp_all add: size_setting_le_def)
  with 2 show ?case using frame_logins by (intro keptI) blast
next
  case (3 x rq)
  then show ?case using phase_frameD [OF frame_rcpt [of "inbound env" 0], of x] frame_logins by (intro keptI) blast
next
  case (4 x t line r y)
  then show ?case using sasl_response_ok [of x "inbound env" t line] by (auto simp: login_ok_def)
next
  case (5 x t line out y)
  then show ?case using sasl_response_ok [of x "inbound env" t line] by (cases out) (auto simp: login_ok_def kept_def)
next
  case (6 x t out y)
  then show ?case using auth_error_ok [of x t] by (cases out) (auto simp: login_ok_def kept_def)
next
  case (7 x t y)
  then show ?case using frame_message [of env 0 x] frame_logins by (simp add: logins_ok_def reset_session_def) (metis fst_conv snd_conv)
qed (simp_all add: logins_ok_def reset_session_def session_into_tls_def)

lemma init_conn_frame: "session_frame M (fst (eval_session_params env x)) (fst (snd (init_conn env x)))"
proof -
  have "phase_frame M (connect_script env)"
    by (rule phase_frameI) (simp add: connect_script_def split: prod.split option.split script_result.split)
  moreover have "phase_frame M (connect_filters env)"
    using phase_frameD [OF frame_filters [of M id env StageConnect]]
    by (intro phase_frameI) (simp add: connect_filters_def hang_up_same, metis fst_conv)
  moreover have "phase_frame M (connect_hostname env)" "phase_frame M (connect_greeting env)"
    by (rule phase_frameI, simp add: connect_hostname_def connect_greeting_def session_frame_def split: prod.split)+
  ultimately have "phase_frame M (run_phases [connect_script env, connect_filters env, connect_hostname env, connect_greeting env])"
    by (intro frame_phases) simp
  from phase_frameD [OF this, of "eval_session_params env x"] show ?thesis unfolding init_conn_def .
qed

lemma init_conn_logins: "auth_errors (fst (snd (init_conn env x))) = auth_errors (fst x)"
  using init_conn_frame [of 0 env x]
  by (simp add: session_frame_def eval_session_params_def auth_params_fields set_param_field [where f = auth_errors])

text \<open>
  C4. A connection that is still open has seen fewer failed logins than the limit of the session: with each
  failure the counter grows, and the failure that reaches the limit ends the connection.
\<close>

theorem failed_logins_bounded:
  assumes "scripts_edit_envelope (inbound env)"
    and "handle_session pe env loiter c before tls_ok after w = Some (ConnOpen st, out, x)"
  shows "auth_errors (fst x) = 0 \<or> auth_errors (fst x) < auth_errors_max (params (fst x))"
proof -
  obtain now w' greeting y out' where i: "init_conn (inbound env) (session_new c now, w') = (Some (Reply greeting), y)"
    and o': "serve_greeted pe env loiter before tls_ok after y = Some (ConnOpen st, out', x)"
    by (rule session_opened [OF assms(2)])
  have "logins_ok (fst y)"
    using i init_conn_logins [of "inbound env" "(session_new c now, w')"] by (simp add: logins_ok_def session_new_def)
  then show ?thesis using assms(1) logins.serve_ok [OF o'] by (simp add: logins_ok_def)
qed


section \<open>The text of a message\<close>

text \<open>
  What the receivers do with the text: that of DATA appends at most the bytes it takes, that of BDAT at most
  what is left of its chunk.
\<close>

definition receivers_append :: "'p proto_env \<Rightarrow> ('p \<Rightarrow> nat) \<Rightarrow> bool" where
  "receivers_append pe left \<longleftrightarrow>
    (\<forall>n. left (new_bdat pe n) \<le> unat n) \<and>
    (\<forall>p bs m d p' m' bs'. bdat_ingest pe p bs m = (d, p', m', bs') \<longrightarrow> length m' + left p' \<le> length m + left p) \<and>
    (\<forall>p bs m d p' m' bs'. data_ingest pe p bs m = (d, p', m', bs') \<longrightarrow> length m' \<le> length m + length bs)"

definition text_fits :: "u64 \<Rightarrow> session \<Rightarrow> bool" where
  "text_fits M s \<longleftrightarrow> max_message_size (params s) \<le> M \<and> length (message_data s) \<le> unat M"

fun chunk_fits :: "('p \<Rightarrow> nat) \<Rightarrow> u64 \<Rightarrow> 'p receiver_state \<Rightarrow> session \<Rightarrow> bool" where
  "chunk_fits left M (StBdat p fin) s = (length (message_data s) + left p \<le> unat M)"
| "chunk_fits left M _ s = True"

definition step_fits :: "('p \<Rightarrow> nat) \<Rightarrow> u64 \<Rightarrow> ('p, 'x) step_result \<Rightarrow> bool" where
  "step_fits left M r =
    (case r of
       (GoOn st, _, y) \<Rightarrow> text_fits M (fst y) \<and> chunk_fits left M st (fst y)
     | (Await st, _, y) \<Rightarrow> text_fits M (fst y) \<and> chunk_fits left M st (fst y)
     | (UpgradeTls, _, y) \<Rightarrow> text_fits M (fst y) | _ \<Rightarrow> True)"

lemma step_fits_simps [simp]:
  "step_fits left M (GoOn st, out, y) = (text_fits M (fst y) \<and> chunk_fits left M st (fst y))"
  "step_fits left M (Await st, out, y) = (text_fits M (fst y) \<and> chunk_fits left M st (fst y))"
  "step_fits left M (UpgradeTls, out, y) = text_fits M (fst y)"
  "step_fits left M (Closes, out, y)" "step_fits left M (Crashes, out, y)"
  by (simp_all add: step_fits_def)

lemma frame_fits: "session_frame M s s' \<Longrightarrow> text_fits M s \<Longrightarrow> text_fits M s'"
  by (auto simp: session_frame_def text_fits_def)

lemma login_fits: "login_ok s r \<Longrightarrow> text_fits M s \<Longrightarrow> text_fits M (fst (snd r))"
  by (simp add: login_ok_def login_frame_def text_fits_def)

lemma fits_dropped [simp]: "text_fits M s \<Longrightarrow> text_fits M (s\<lparr>message_data := []\<rparr>)" "text_fits M s \<Longrightarrow> text_fits M (reset_session s)"
  by (simp_all add: text_fits_def reset_session_def)

lemma outcome_fits: "text_fits M (fst y) \<Longrightarrow> chunk_fits left M st (fst y) \<Longrightarrow> step_fits left M (outcome_step st out y)"
  by (cases out) simp_all

lemma handler_fits:
  assumes "phase_frame M p" "text_fits M (fst x)"
  shows "step_fits left M (handler_step (StRequest q) (p x))"
proof -
  have "text_fits M (fst (snd (p x)))" by (rule frame_fits [OF phase_frameD [OF assms(1)] assms(2)])
  then show ?thesis by (cases "p x") (auto simp: handler_step_def outcome_fits split: option.split)
qed

lemma sasl_fits:
  assumes "text_fits M (fst x)"
  shows "step_fits left M (sasl_step f p (StRequest q) (handle_sasl_response env t line x))"
proof -
  have "text_fits M (fst (snd (handle_sasl_response env t line x)))" by (rule login_fits [OF sasl_response_ok assms])
  then show ?thesis by (auto simp: sasl_step_def outcome_fits split: prod.split sum.split)
qed

lemma auth_fits: "text_fits M (fst x) \<Longrightarrow> step_fits left M (auth_command pe env mech initial (StRequest q) x)"
  unfolding auth_command_def by (auto intro: sasl_fits split: prod.split option.split)

lemma data_fits: "text_fits M (fst x) \<Longrightarrow> step_fits left M (data_command pe env (StRequest q) x)"
  unfolding data_command_def using can_send_same [of env x]
  by (auto intro!: outcome_fits simp del: can_send_same split: prod.split option.split)

lemma bdat_fits:
  assumes "receivers_append pe left" "text_fits M (fst x)"
  shows "step_fits left M (bdat_command pe sz fin x)"
proof -
  let ?have = "length (message_data (fst x))"
  have "?have + left (new_bdat pe sz) \<le> unat M"
    if less: "sz + word_of_nat ?have < max_message_size (params (fst x))" and small: "unat sz + ?have \<le> 9223372036854775807"
  proof -
    have "unat (sz + word_of_nat ?have) = unat sz + ?have"
      using small by (simp add: unat_word_ariths unat_of_nat)
    then have "unat sz + ?have < unat M" using less assms(2) by (simp add: text_fits_def word_less_nat_alt word_le_nat_alt)
    moreover have "left (new_bdat pe sz) \<le> unat sz" using assms(1) by (simp add: receivers_append_def)
    ultimately show ?thesis by simp
  qed
  then show ?thesis using assms(2) by (simp add: bdat_command_def Let_def)
qed

lemma request_fits:
  assumes "receivers_append pe left" "scripts_edit_envelope (inbound env)" "size_setting_le (inbound env) M" "text_fits M (fst x)"
  shows "step_fits left M (handle_request pe env (StRequest q) rq x)"
proof -
  have v: "phase_frame M (handle_vrfy (inbound env) a)" "phase_frame M (handle_expn (inbound env) a)" for a
    by (rule phase_frameI, simp)+
  show ?thesis
    using assms(4)
    by (cases rq)
      (simp_all add: handler_fits frame_ehlo frame_mail [OF assms(2,3)] frame_rcpt [OF assms(2)] v data_fits bdat_fits [OF assms(1)]
        auth_fits starttls_command_def quit_command_def)
qed

lemma error_fits: "text_fits M (fst x) \<Longrightarrow> step_fits left M (handle_error pe env (StRequest q) e x)"
  by (cases e) (auto simp: invalid_command_def handler_fits frame_ehlo split: prod.split option.split bool.split)

lemma message_fits:
  assumes "scripts_edit_envelope (inbound env)" "text_fits M (fst x)"
  shows "step_fits left M (message_end pe env x)"
proof -
  have "text_fits M (fst (snd (session_queue_message env x)))" by (rule frame_fits [OF frame_message [OF assms(1)] assms(2)])
  then show ?thesis by (auto simp: message_end_def split: prod.split outcome.split)
qed

lemma chunk_end_fits:
  assumes "scripts_edit_envelope (inbound env)" "text_fits M (fst x)"
  shows "step_fits left M (chunk_end pe env fin x)"
  unfolding chunk_end_def using can_send_same [of env x] assms
  by (auto intro!: outcome_fits message_fits simp: set_message_def simp del: can_send_same split: prod.split option.split)

lemma line_fits:
  assumes "text_fits M (fst x)"
  shows "step_fits left M (line_end pe env p t x)"
proof -
  have "text_fits M (fst (snd (auth_error e x)))" for e using assms by (simp add: auth_error_def text_fits_def Let_def)
  then have "auth_error e x = (out, y) \<Longrightarrow> text_fits M (fst y)" for e out y by (metis snd_conv)
  then show ?thesis
    unfolding line_end_def using assms by (auto intro!: sasl_fits outcome_fits split: prod.split)
qed

lemma step_fits_kept:
  assumes "receivers_append pe left" "scripts_edit_envelope (inbound env)" "size_setting_le (inbound env) M"
    and "text_fits M (fst x)" "chunk_fits left M st (fst x)" "length bs \<le> n"
  shows "step_fits left M (fst (ingest_step pe env n st bs x))"
proof (cases st)
  case (StRequest p)
  then show ?thesis
    by (auto simp: request_fits [OF assms(1-4)] error_fits [OF assms(4)] split: prod.split sum.split)
next
  case (StData p)
  obtain d p' m bs2 where r: "data_ingest pe p bs (message_data (fst x)) = (d, p', m, bs2)" by (metis prod_cases4)
  have "length m \<le> length (message_data (fst x)) + length bs" using assms(1) r unfolding receivers_append_def by metis
  then have "text_fits M (fst (set_message m x))"
    if "length (message_data (fst x)) + n < unat (max_message_size (params (fst x)))"
    using that assms(4,6) by (simp add: set_message_def text_fits_def word_le_nat_alt)
  then show ?thesis
    using StData r assms(4) by (auto simp: message_fits [OF assms(2)] split: bool.split)
next
  case (StBdat p fin)
  obtain d p' m bs2 where r: "bdat_ingest pe p bs (message_data (fst x)) = (d, p', m, bs2)" by (metis prod_cases4)
  have "length m + left p' \<le> length (message_data (fst x)) + left p" using assms(1) r unfolding receivers_append_def by metis
  then have "text_fits M (fst (set_message m x))" "chunk_fits left M (StBdat p' fin) (fst (set_message m x))"
    using assms(4,5) StBdat by (simp_all add: set_message_def text_fits_def)
  then show ?thesis using StBdat r by (auto simp: chunk_end_fits [OF assms(2)] split: bool.split)
qed (use assms(4) in \<open>auto simp: line_fits set_message_def split: prod.split bool.split\<close>)

text \<open>The contract of the bounds; \<open>M\<close> is a bound of the setting of the message size.\<close>

definition size_contract :: "'p proto_env \<Rightarrow> ('f, 'r, 'x) data_env \<Rightarrow> ('p \<Rightarrow> nat) \<Rightarrow> u64 \<Rightarrow> bool" where
  "size_contract pe env left M \<longleftrightarrow>
    receivers_progress pe \<and> receivers_append pe left \<and> scripts_edit_envelope (inbound env) \<and> size_setting_le (inbound env) M"

interpretation texts: step_invariant pe env
  "\<lambda>n st bs s. size_contract pe env left M \<longrightarrow> text_fits M s \<and> chunk_fits left M st s \<and> length bs \<le> n"
  "\<lambda>st s. size_contract pe env left M \<longrightarrow> text_fits M s \<and> chunk_fits left M st s"
  for pe env left M
proof (unfold_locales, goal_cases)
  case (1 n st bs x st' out y bs')
  have "length bs' \<le> length bs" if "receivers_progress pe"
    using step_progress [OF that 1(2)] state_rank_le [of st] by simp
  then show ?case using 1 step_fits_kept [of pe left env M x st bs n] by (auto simp: size_contract_def)
next
  case (2 n st bs x st' out y bs')
  then show ?case using step_fits_kept [of pe left env M x st bs n] by (auto simp: size_contract_def)
next
  case (3 n st bs x out y bs')
  then show ?case using step_fits_kept [of pe left env M x st bs n] by (auto simp: size_contract_def session_into_tls_def text_fits_def)
next
  case (4 st s bytes b)
  then show ?case by (cases st) (auto simp: text_fits_def)
qed

lemma init_conn_text:
  "message_data (fst x) = [] \<Longrightarrow> message_data (fst (snd (init_conn env x))) = []"
  "max_message_size (params (fst x)) \<le> M \<Longrightarrow> max_message_size (params (fst (snd (init_conn env x)))) \<le> M"
  using init_conn_frame [of M env x]
  by (auto simp: session_frame_def eval_session_params_def auth_params_fields set_param_field [where f = message_data]
      set_param_field [where f = "\<lambda>s. max_message_size (params s)"])

text \<open>
  C2. Whatever a client sends, with DATA or in chunks, the server never holds more of a message than the
  configured size allows.
\<close>

theorem message_size_bounded:
  assumes "size_contract pe env left M"
    and "handle_session pe env loiter c before tls_ok after w = Some (ConnOpen st, out, x)"
  shows "length (message_data (fst x)) \<le> unat M"
proof -
  obtain now w' greeting y out' where i: "init_conn (inbound env) (session_new c now, w') = (Some (Reply greeting), y)"
    and o': "serve_greeted pe env loiter before tls_ok after y = Some (ConnOpen st, out', x)"
    by (rule session_opened [OF assms(2)])
  have "text_fits M (fst y)"
    using i init_conn_text [where env = "inbound env" and x = "(session_new c now, w')"]
    by (simp add: text_fits_def session_new_def default_params_def)
  then show ?thesis using assms(1) texts.serve_ok [OF o', of left M] by (simp add: text_fits_def)
qed

end
