(* ===== verification/Inbound_Demo.thy ===== *)
theory Inbound_Demo
  imports Inbound_Bounds Spool_Properties Expr_Properties
begin

text \<open>
  A server on which the theorems about sessions are applied: one local domain with a mailbox and a list,
  the settings at their defaults where the theorems speak of them, and receivers that take a script of
  requests, one byte each.
\<close>

section \<open>The default of the relay setting\<close>

definition relay_block :: "('f, 'r) if_block" where
  "relay_block =
    \<lparr>if_then = [([IVariable 6, IFunction 7 1, IUnary UNot], [IConstant (CInteger 1)])], if_default = [IConstant (CInteger 0)]\<rparr>"

definition demo_bits :: mechanism_bits where
  "demo_bits = \<lparr>MECH_LOGIN = 1, MECH_PLAIN = 2, MECH_XOAUTH2 = 4, MECH_OAUTHBEARER = 8\<rparr>"

lemma relay_default: "default_block example_names demo_bits (session_default RcptRelay) = Some relay_block"
  by code_simp

text \<open>The default allows relaying exactly to those who have authenticated.\<close>

lemma relay_block_asks:
  assumes "session_config env RcptRelay = relay_block" "sync_functions (core_env env) = map snd (function_table te)"
  shows "eval_bool_or env RcptRelay d (s, w) = (is_authenticated s, w)"
proof -
  have "(7 :: nat) < length (sync_functions (core_env env))" "sync_functions (core_env env) ! 7 = fn_is_empty"
    using assms(2) by (simp_all add: function_table_def)
  then show ?thesis
    unfolding eval_bool_or_def eval_session_def eval_if_def assms(1) relay_block_def
    by (cases "authenticated s")
      (simp_all add: session_eval_env_def session_variable_def authenticated_as_def is_authenticated_def eval_program_def
        eval_item_def eval_function_def fn_is_empty_def value_of_bool_def conv_bool_def or_else_def)
qed

section \<open>A server\<close>

definition const_block :: "unit expr_const \<Rightarrow> (unit, unit) if_block" where
  "const_block c = \<lparr>if_then = [], if_default = [IConstant c]\<rparr>"

fun demo_settings :: "session_setting \<Rightarrow> (unit, unit) if_block" where
  "demo_settings RcptRelay = relay_block"
| "demo_settings RcptDirectory = const_block (CString ''*'')"
| "demo_settings EhloRequire = const_block (CInteger 0)"
| "demo_settings _ = if_block_empty"

definition demo_text :: "unit text_env" where
  "demo_text =
    \<lparr>text_floats = no_floats, is_alphabetic = (\<lambda>_. False), is_uppercase = (\<lambda>_. False), is_lowercase = (\<lambda>_. False),
     is_alphanumeric = (\<lambda>_. False), str_to_lowercase = id, str_to_uppercase = id, parse_ip = (\<lambda>_. None), reverse_name = id,
     sort_by = (\<lambda>_. id), hex_hash = (\<lambda>_. id)\<rparr>"

definition demo_core :: "(unit, unit, unit world) eval_env" where
  "demo_core =
    \<lparr>floats_of = no_floats, resolve_var = (\<lambda>_. VInteger 0), resolve_global = (\<lambda>_. VInteger 0), regex_captures = (\<lambda>_ _. None),
     server_name = [], report_domain = [], node_id = 0, config_get = (\<lambda>_ w. (Inr None, w)),
     sync_functions = map snd (function_table demo_text), eval_fnc = (\<lambda>_ _ w. (Inl [], w))\<rparr>"

fun demo_rcpt :: "string \<Rightarrow> rcpt_type" where
  "demo_rcpt a = (if a = ''me@here'' then RcptMailbox else if a = ''all@here'' then RcptList [''me@here'', ''you@there''] else RcptInvalid)"

text \<open>A script sets the last recipient.\<close>

definition demo_envelope :: "string \<Rightarrow> string \<Rightarrow> session \<Rightarrow> session" where
  "demo_envelope n v s =
    (if n = ''to'' \<and> rcpt_to s \<noteq> []
     then s\<lparr>rcpt_to := butlast (rcpt_to s) @ [(last (rcpt_to s))\<lparr>addr := v, addr_lcase := v, addr_domain := domain_part v\<rparr>]\<rparr>
     else s)"

definition demo_inbound :: "(unit, unit, unit) inbound_env" where
  "demo_inbound =
    \<lparr>core_env = demo_core, session_config = demo_settings, mail_auth_config = (\<lambda>_. const_block (CInteger 4)),
     spf_report_send = if_block_empty, subaddressing = (MapDisable, if_block_empty), catch_all = (MapDisable, if_block_empty),
     limiters_rcpt = [], limiters_sender = [], limiters_remote = [], grey_list_expiry = None, hash_key = (\<lambda>_. []), lowercase = id,
     read_clock = (\<lambda>w. (1000, w)), read_instant = (\<lambda>w. (1000, w)), get_directory = (\<lambda>_. Some 0), storage_directory = 0,
     dir_is_local_domain = (\<lambda>_ d w. (Some (d = ''here''), w)), dir_rcpt = (\<lambda>_ a w. (Some (demo_rcpt a), w)),
     dir_vrfy = (\<lambda>_ _ w. (Inl True, w)), dir_expn = (\<lambda>_ _ w. (Inl True, w)),
     server_authenticate = (\<lambda>_ _ _ w. (Inl AuthFailed, w)), base64_decode = (\<lambda>_. None), has_script = (\<lambda>_. False),
     run_script = (\<lambda>_ st _ w. (if st = StageRcpt then ScriptAccept [ScriptSetEnvelope ''to'' ''archive@there''] else ScriptDiscard, w)),
     apply_envelope = demo_envelope, run_milters = (\<lambda>_ _ _ w. (Inr [], w)),
     run_mta_hooks = (\<lambda>_ _ _ w. (Inr [], w)), stage_in_use = (\<lambda>_. False),
     dns_iprev = (\<lambda>_ w. (\<lparr>iprev_result = IprevNone, iprev_ptr = None\<rparr>, w)),
     dns_spf_ehlo = (\<lambda>_ w. (\<lparr>spf_result = SpfNone, spf_report_address = None\<rparr>, w)),
     dns_check_host = (\<lambda>_ _ _ w. (\<lparr>spf_result = SpfNone, spf_report_address = None\<rparr>, w)), show_spf = (\<lambda>_. []),
     send_spf_report = (\<lambda>_ _ _ _ _ w. w), rcpt_fail2ban = (\<lambda>_ _ w. (Some False, w)), scanner_fail2ban = (\<lambda>_ w. (Some False, w)),
     valid_labels = (\<lambda>_. True), write_ehlo = (\<lambda>h _. h), bytes_into_string = id, max_line_length = 2048,
     mail_flags = (1, 2, 4), dsn_flags = test_env, mech_bits = demo_bits\<rparr>"

lemma demo_contract: "relay_contract demo_inbound (\<lambda>d. d = ''here'') (\<lambda>a. a = ''me@here'' \<or> a = ''you@there'')"
proof -
  have r: "fst (eval_bool_or demo_inbound RcptRelay False (s, w)) = is_authenticated s" for s w
    by (subst relay_block_asks [of _ demo_text]) (simp_all add: demo_inbound_def demo_core_def)
  show ?thesis
    unfolding relay_contract_def r by (auto simp: demo_inbound_def demo_envelope_def split: if_splits)
qed

definition demo_data :: "(unit, unit, unit) data_env" where
  "demo_data =
    \<lparr>inbound = demo_inbound,
     edits = \<lparr>edit_lowercase = id, mail_parameters = (\<lambda>_. None), rcpt_parameters = (\<lambda>_. None), raw_parsed_headers = (\<lambda>_. []),
       raw_headers = (\<lambda>_. []), raw_body = id\<rparr>,
     queue_env = spool_test_env,
     quota_env = \<lparr>eval_bool = (\<lambda>_ _. None), blake3 = (\<lambda>_. []), show_ip = (\<lambda>_. []), ne_bytes = (\<lambda>_. [])\<rparr>,
     queue_quotas_of = \<lparr>sender_quotas = [], domain_quotas = [], rcpt_quotas = []\<rparr>,
     parses = (\<lambda>_. True), received_headers_count = (\<lambda>_. 0), has_date_header = (\<lambda>_. True), has_message_id_header = (\<lambda>_. True),
     dkim_report_send = if_block_empty, dns_dkim = (\<lambda>_ w. ([], w)), send_dkim_report = (\<lambda>_ _ _ _ _ w. w),
     get_arc_sealer = (\<lambda>_. False), dns_arc = (\<lambda>_ w. (\<lparr>arc_result = ResNone, can_be_sealed = False\<rparr>, w)),
     dns_dmarc = (\<lambda>_ _ _ _ w. (\<lparr>dmarc_spf_result = ResNone, dmarc_dkim_result = ResNone, dmarc_policy = PolicyNone,
       requested_reports = False\<rparr>, w)),
     auth_results_text = (\<lambda>_ _ _. []), send_dmarc_report = (\<lambda>_ _ _ _ w. w), report_addresses = [], forward_reports = False,
     analyze_report = (\<lambda>_ w. w), generate_queue_id = (\<lambda>w. (7, w)), tls_version_and_cipher = (\<lambda>_. ([], [])),
     date_header = (\<lambda>w. ([], w)), message_id_header = (\<lambda>_ w. ([], w)), received_spf_text = (\<lambda>_ _. []),
     arc_seal = (\<lambda>_ _ _. None), spam_enabled = False, spam_filter_classify = (\<lambda>_ _ w. (SpamDisabled, w)),
     run_data_script = (\<lambda>_ _ _ w. (ScriptDiscard, w)), dkim_sign = (\<lambda>_ _ _. None), show_hex = (\<lambda>_. ''7''),
     show_hex_upper = (\<lambda>_. ''7'')\<rparr>"

section \<open>A client\<close>

definition demo_receivers :: "request list \<Rightarrow> request list proto_env" where
  "demo_receivers rqs =
    \<lparr>new_request = rqs,
     request_ingest = (\<lambda>rqs bs. case (rqs, bs) of (rq # rqs, b # bs) \<Rightarrow> (Inr rq, rqs, bs) | _ \<Rightarrow> (Inl NeedsMoreData, rqs, [])),
     new_data = [], data_ingest = (\<lambda>p bs m. (False, p, m @ bs, [])), new_bdat = (\<lambda>_. []),
     bdat_ingest = (\<lambda>p bs m. (True, p, m, bs)), new_line = [], line_ingest = (\<lambda>p bs. (bs \<noteq> [], p, [])), line_buf = (\<lambda>_. []),
     clear_buf = id, new_dummy_bdat = (\<lambda>_. []), new_dummy_data = id, dummy_data_ingest = (\<lambda>p bs. (True, p, [])),
     new_dummy_line = [], dummy_line_ingest = (\<lambda>p bs. (True, p, [])), debug_string = id\<rparr>"

definition demo_client :: connection where
  "demo_client =
    \<lparr>conn_instance = ''smtp'', conn_protocol = ProtoSmtp, conn_has_tls = False, conn_is_tls = False, conn_local_ip = [],
     conn_remote_ip = [], conn_local_port = 25, conn_remote_port = 5000, conn_ip = V4 1, conn_asn = None, conn_country = None\<rparr>"

definition demo_world :: "unit world" where
  "demo_world = \<lparr>lookup_store = (\<lambda>_. None), mail_spool = \<lparr>data = (\<lambda>_. None), blobs = (\<lambda>_. None)\<rparr>, outside = ()\<rparr>"

lemma demo_settings_off [simp]:
  "k \<noteq> RcptRelay \<Longrightarrow> k \<noteq> RcptDirectory \<Longrightarrow> k \<noteq> EhloRequire \<Longrightarrow> eval_session demo_inbound conv k x = (None, snd x)"
  by (cases k) (simp_all add: eval_session_def demo_inbound_def eval_if_def if_block_empty_def)

lemma demo_settings_on [simp]:
  "eval_session demo_inbound conv RcptDirectory x = (conv (VString ''*''), snd x)"
  "eval_session demo_inbound conv EhloRequire x = (conv (VInteger 0), snd x)"
  "eval_auth demo_inbound conv' k' x = (conv' (VInteger 4), snd x)"
  "eval_bool_or demo_inbound RcptRelay d (s, w) = (is_authenticated s, w)"
  by (simp_all add: eval_session_def eval_auth_def demo_inbound_def eval_if_def if_block_empty_def const_block_def eval_program_def
      eval_item_def) (subst relay_block_asks [of _ demo_text], simp_all add: demo_core_def)

lemma demo_fields [simp]:
  "run_milters demo_inbound st m s w = (Inr [], w)" "run_mta_hooks demo_inbound st m s w = (Inr [], w)"
  "read_clock demo_inbound w = (1000, w)" "read_instant demo_inbound w = (1000, w)" "get_directory demo_inbound d = Some 0"
  "limiters_rcpt demo_inbound = []" "limiters_sender demo_inbound = []" "limiters_remote demo_inbound = []"
  "grey_list_expiry demo_inbound = None" "stage_in_use demo_inbound st = False" "lowercase demo_inbound a = a"
  "dir_is_local_domain demo_inbound n d w = (Some (d = ''here''), w)" "dir_rcpt demo_inbound n a w = (Some (demo_rcpt a), w)"
  "to_subaddress demo_inbound a w = (a, w)" "to_catch_all demo_inbound a w = (None, w)"
  "rcpt_fail2ban demo_inbound a s w = (Some False, w)" "fl_of demo_inbound = no_floats"
  "dns_iprev demo_inbound s w = (\<lparr>iprev_result = IprevNone, iprev_ptr = None\<rparr>, w)"
  "dns_check_host demo_inbound a b s w = (\<lparr>spf_result = SpfNone, spf_report_address = None\<rparr>, w)"
  "session_config demo_inbound RcptRewrite = if_block_empty" "dsn_flags demo_inbound = test_env"
  "spf_report_send demo_inbound = if_block_empty"
  by (simp_all add: demo_inbound_def demo_core_def to_subaddress_def to_catch_all_def)

definition demo_params :: session_params where
  "demo_params =
    \<lparr>timeout = 300000, ehlo_require = False, ehlo_reject_non_fqdn = True, auth_directory = None, auth_require = False,
     auth_errors_max = 3, auth_errors_wait = 30000, rcpt_errors_max = 0, rcpt_errors_wait = 0, rcpt_max = 0, rcpt_dsn = False,
     can_expn = False, can_vrfy = False, max_message_size = 0, verify_iprev = VerifyDisable, verify_spf_ehlo = VerifyDisable,
     verify_spf_mail = VerifyDisable\<rparr>"

definition demo_session :: session where
  "demo_session = (session_new demo_client 1000)\<lparr>session_hostname := ''localhost'', bytes_left := 262143993, valid_until := 901000,
     params := demo_params\<rparr>"

definition greeted_session :: session where
  "greeted_session = demo_session\<lparr>bytes_left := 262144000\<rparr>"

lemma demo_start:
  "init_conn demo_inbound (session_new demo_client 1000, demo_world)
    = (Some (Reply (crlf ''220 Stalwart ESMTP at your service.'')), greeted_session, demo_world)"
  by (simp add: greeted_session_def init_conn_def connect_script_def connect_filters_def connect_hostname_def connect_greeting_def hang_up_def run_filters_def
    eval_script_def eval_string_def or_else_def eval_session_params_def eval_post_auth_params_def set_param_def demo_session_def
    eval_bool_or_def eval_usize_or_def eval_duration_or_def eval_verify_or_def eval_directory_def conv_bool_def conv_verify_strategy_def demo_params_def session_new_def default_params_def)


lemma demo_core_simps [simp]:
  "inbound demo_data = demo_inbound" "new_request (demo_receivers rqs) = rqs"
  "request_ingest (demo_receivers rqs') (rq # rqs) (b # bs) = (Inr rq, rqs, bs)"
  "request_ingest (demo_receivers rqs') [] bs = (Inl NeedsMoreData, [], [])"
  "data_ingest (demo_receivers rqs') p bs m = (False, p, m @ bs, [])"
  by (simp_all add: demo_data_def demo_receivers_def)

definition plain_mail :: "string \<Rightarrow> mail_request" where
  "plain_mail a = \<lparr>from_address = a, from_flags = 0, from_env_id = None, from_by = 0, from_mt_priority = 0, from_size = 0,
      from_hold_for = 0, from_hold_until = 0\<rparr>"

definition after_mail :: "string \<Rightarrow> session" where
  "after_mail a =
    demo_session\<lparr>mail_from := Some (sender_of demo_inbound (plain_mail a)),
      params := demo_params\<lparr>rcpt_errors_max := 10, rcpt_errors_wait := 30000, rcpt_max := 100, rcpt_dsn := True, max_message_size := 26214400\<rparr>\<rparr>"

lemmas demo_evals = eval_bool_or_def eval_usize_or_def eval_duration_or_def eval_script_def eval_string_def or_else_def

lemma demo_directory [simp]: "eval_directory demo_inbound RcptDirectory x = (Some 0, snd x)"
  by (simp add: eval_directory_def eval_string_def conv_string_def)

lemma demo_params_simps [simp]:
  "verifies VerifyDisable = False" "is_strict VerifyDisable = False" "verify_iprev demo_params = VerifyDisable"
  "verify_spf_ehlo demo_params = VerifyDisable" "verify_spf_mail demo_params = VerifyDisable" "ehlo_require demo_params = False"
  "auth_require demo_params = False"
  by (simp_all add: demo_params_def verifies_def is_strict_def)

lemma demo_session_simps [simp]:
  "params demo_session = demo_params" "mail_from demo_session = None" "authenticated demo_session = None" "rcpt_to demo_session = []"
  "helo demo_session = []" "is_authenticated demo_session = False" "authenticated_as demo_session = None"
  by (simp_all add: demo_session_def session_new_def is_authenticated_def authenticated_as_def)

lemma demo_mail_phases:
  "mail_guards demo_inbound (demo_session, w) = (None, demo_session, w)"
  "mail_reverse_dns (demo_session, w) = (None, demo_session, w)"
  "mail_set_sender demo_inbound (plain_mail a) (demo_session, w) = (None, demo_session\<lparr>mail_from := Some (sender_of demo_inbound (plain_mail a))\<rparr>, w)"
  "mail_script demo_inbound x = (None, x)" "run_filters demo_inbound st undo x = (None, x)" "mail_rewrite demo_inbound x = (None, x)"
  "authenticated (fst x) = None \<Longrightarrow> mail_match_sender demo_inbound x = (None, x)"
  "mail_requiretls demo_inbound (plain_mail a) x = (None, x)" "mail_deliver_by demo_inbound (plain_mail a) x = (None, x)"
  "mail_mt_priority demo_inbound (plain_mail a) x = (None, x)" "mail_size demo_inbound (plain_mail a) x = (None, x)"
  "mail_hold demo_inbound (plain_mail a) x = (None, x)" "mail_dsn demo_inbound (plain_mail a) x = (None, x)"
  "mail_throttle demo_inbound x = (None, x)" "verify_spf_mail (params (fst x)) = VerifyDisable \<Longrightarrow> mail_spf demo_inbound x = (None, x)"
  by (simp_all add: mail_guards_def mail_reverse_dns_def mail_set_sender_def mail_script_def run_filters_def mail_rewrite_def
    mail_match_sender_def mail_requiretls_def mail_deliver_by_def mail_mt_priority_def mail_size_def mail_hold_def mail_dsn_def
    mail_throttle_def mail_spf_def demo_evals plain_mail_def session_is_allowed_def authenticated_as_def)

lemma demo_mail:
  "handle_mail_from demo_inbound (plain_mail a) (demo_session, w) = (Some (Reply (crlf ''250 2.1.0 OK'')), after_mail a, w)"
proof -
  have "mail_accept demo_inbound (demo_session\<lparr>mail_from := Some (sender_of demo_inbound (plain_mail a))\<rparr>, w)
      = (Some (Reply (crlf ''250 2.1.0 OK'')), after_mail a, w)"
    by (simp add: mail_accept_def eval_rcpt_params_def set_param_def demo_evals after_mail_def demo_params_def)
  then show ?thesis by (simp add: handle_mail_from_def demo_mail_phases)
qed


definition plain_rcpt :: "string \<Rightarrow> rcpt_request" where
  "plain_rcpt a = \<lparr>to_address = a, to_flags = 0, to_orcpt = None\<rparr>"

definition here :: session_address where
  "here = rcpt_of demo_inbound (plain_rcpt ''me@here'')"

definition after_rcpt :: "string \<Rightarrow> session" where
  "after_rcpt a = (after_mail a)\<lparr>rcpt_to := [here], rcpt_oks := 1\<rparr>"

lemma demo_rcpt_simps [simp]:
  "rcpt_to (after_mail a) = []" "mail_from (after_mail a) \<noteq> None" "rcpt_max (params (after_mail a)) = 100" "authenticated (after_mail a) = None"
  "rcpt_dsn (params (after_mail a)) = True" "rcpt_errors (after_mail a) = 0" "rcpt_errors_max (params (after_mail a)) = 10" "rcpt_oks (after_mail a) = 0"
  by (simp_all add: after_mail_def demo_session_def session_new_def)

lemma demo_rcpt_here:
  "handle_rcpt_to demo_inbound (plain_rcpt ''me@here'') (after_mail a, w) = (Some (Reply (crlf ''250 2.1.5 OK'')), after_rcpt a, w)"
proof -
  have "rcpt_guards demo_inbound (plain_rcpt ''me@here'') (after_mail a, w) = (None, after_mail a, w)"
    by (simp add: rcpt_guards_def plain_rcpt_def)
  moreover have "rcpt_push demo_inbound (plain_rcpt ''me@here'') (after_mail a, w) = (None, (after_mail a)\<lparr>rcpt_to := [here]\<rparr>, w)"
    by (simp add: rcpt_push_def here_def)
  moreover have "rcpt_filters demo_inbound x = (None, x)" for x
    by (simp add: rcpt_filters_def demo_evals if_block_is_empty_def if_block_empty_def)
  moreover have "addr_domain here = ''here''" "addr_lcase here = ''me@here''"
    by (simp add: here_def rcpt_of_def plain_rcpt_def domain_part_def, code_simp?)+
  moreover have "rcpt_admit demo_inbound ((after_mail a)\<lparr>rcpt_to := [here]\<rparr>, w) = (Some (Reply (crlf ''250 2.1.5 OK'')), after_rcpt a, w)"
    using calculation(4,5)
    by (simp add: rcpt_admit_def rcpt_verify_def server_rcpt_def numeral_2_eq_2 rcpt_throttle_def
        session_is_allowed_def rcpt_greylist_def rcpt_accept_def after_rcpt_def)
  ultimately show ?thesis by (simp add: handle_rcpt_to_def)
qed


lemma demo_rcpt_there:
  "handle_rcpt_to demo_inbound (plain_rcpt ''you@there'') (after_rcpt a, w)
    = (Some (Reply (crlf ''550 5.1.2 Relay not allowed.'')), (after_rcpt a)\<lparr>rcpt_errors := 1\<rparr>, w)"
proof -
  let ?r = "rcpt_of demo_inbound (plain_rcpt ''you@there'')"
  have lists: "addr_lcase here = ''me@here''" "addr_lcase ?r = ''you@there''"
    by (simp_all add: here_def rcpt_of_def plain_rcpt_def)
  have few: "\<not> (10 :: u64) \<le> 1" by (simp add: word_le_nat_alt)
  have d: "addr_domain ?r = ''there''" by (simp add: rcpt_of_def plain_rcpt_def domain_part_def) code_simp?
  have s: "rcpt_to (after_rcpt a) = [here]" "authenticated (after_rcpt a) = None" "mail_from (after_rcpt a) \<noteq> None"
    "rcpt_max (params (after_rcpt a)) = 100" "rcpt_errors (after_rcpt a) = 0" "rcpt_errors_max (params (after_rcpt a)) = 10"
    "rcpt_dsn (params (after_rcpt a))"
    by (simp_all add: after_rcpt_def)
  have "rcpt_guards demo_inbound (plain_rcpt ''you@there'') (after_rcpt a, w) = (None, after_rcpt a, w)"
    using s by (simp add: rcpt_guards_def plain_rcpt_def Let_def)
  moreover have "rcpt_push demo_inbound (plain_rcpt ''you@there'') (after_rcpt a, w) = (None, (after_rcpt a)\<lparr>rcpt_to := [here, ?r]\<rparr>, w)"
    using s lists by (simp add: rcpt_push_def same_address_def)
  moreover have "rcpt_filters demo_inbound x = (None, x)" for x
    by (simp add: rcpt_filters_def demo_evals if_block_is_empty_def if_block_empty_def)
  moreover have "rcpt_admit demo_inbound ((after_rcpt a)\<lparr>rcpt_to := [here, ?r]\<rparr>, w)
      = (Some (Reply (crlf ''550 5.1.2 Relay not allowed.'')), (after_rcpt a)\<lparr>rcpt_to := [here], rcpt_errors := 1\<rparr>, w)"
    using s lists d few
    by (simp add: rcpt_admit_def rcpt_verify_def rcpt_relay_def rcpt_error_def is_authenticated_def drop_last_rcpt_def Let_def)
  moreover have "(after_rcpt a)\<lparr>rcpt_to := [here], rcpt_errors := 1\<rparr> = (after_rcpt a)\<lparr>rcpt_errors := 1\<rparr>"
    by (simp add: after_rcpt_def)
  ultimately show ?thesis by (simp add: handle_rcpt_to_def)
qed

text \<open>A sender, a recipient here, a recipient elsewhere, and the beginning of the message.\<close>

definition demo_script :: "request list" where
  "demo_script = [RqMail (plain_mail ''you@there''), RqRcpt (plain_rcpt ''me@here''), RqRcpt (plain_rcpt ''you@there''), RqData]"

definition demo_end :: session where
  "demo_end = (after_rcpt ''you@there'')\<lparr>rcpt_errors := 1, message_data := ''efg''\<rparr>"

lemma while_option_stop: "\<not> b s \<Longrightarrow> while_option b c s = Some s"
  by (simp add: while_option_unfold)

lemma while_option_go: "b s \<Longrightarrow> while_option b c s = while_option b c (c s)"
  by (simp add: while_option_unfold)

lemma demo_data_command:
  "data_command (demo_receivers rqs) demo_data st ((after_rcpt a)\<lparr>rcpt_errors := 1\<rparr>, w)
    = (GoOn (StData []), [crlf ''354 Start mail input; end with <CRLF>.<CRLF>''], (after_rcpt a)\<lparr>rcpt_errors := 1, message_data := []\<rparr>, w)"
  by (simp add: data_command_def can_send_data_def eval_usize_or_def or_else_def after_rcpt_def after_mail_def demo_session_def session_new_def
      demo_receivers_def)

lemma demo_size: "max_message_size (params (after_rcpt a)) = 26214400"
  by (simp add: after_rcpt_def after_mail_def)

lemma demo_ingest:
  "ingest (demo_receivers demo_script) demo_data (StRequest demo_script) ''abcdefg'' (demo_session, w) =
    Some (Await (StData []), [crlf ''250 2.1.0 OK'', crlf ''250 2.1.5 OK'', crlf ''550 5.1.2 Relay not allowed.'',
      crlf ''354 Start mail input; end with <CRLF>.<CRLF>''], demo_end, w)"
  by (simp add: ingest_def demo_script_def while_option_go while_option_stop handler_step_def demo_mail demo_rcpt_here demo_rcpt_there demo_end_def
      demo_data_command set_message_def demo_size)


lemma demo_session_open:
  "handle_session (demo_receivers demo_script) demo_data (\<lambda>_ w. w) demo_client [EvRead ''abcdefg''] False [] demo_world =
    Some (ConnOpen (StData []),
      [crlf ''220 Stalwart ESMTP at your service.'', crlf ''250 2.1.0 OK'', crlf ''250 2.1.5 OK'', crlf ''550 5.1.2 Relay not allowed.'',
      crlf ''354 Start mail input; end with <CRLF>.<CRLF>''],
      demo_end, demo_world)"
proof -
  have valid: "valid_until greeted_session = 901000" "bytes_left greeted_session = 262144000"
    "greeted_session\<lparr>bytes_left := 262143993\<rparr> = demo_session"
    by (simp_all add: greeted_session_def demo_session_def)
  have "serve_greeted (demo_receivers demo_script) demo_data (\<lambda>_ w. w) [EvRead ''abcdefg''] False [] (greeted_session, demo_world) =
    Some (ConnOpen (StData []), [crlf ''250 2.1.0 OK'', crlf ''250 2.1.5 OK'', crlf ''550 5.1.2 Relay not allowed.'',
      crlf ''354 Start mail input; end with <CRLF>.<CRLF>''], demo_end, demo_world)"
    by (simp add: serve_greeted_def conn_read_def valid demo_ingest)
  then show ?thesis
    by (simp add: handle_session_def session_is_allowed_def demo_start session_new_def [of demo_client, symmetric])
qed

section \<open>The theorems at this session\<close>


lemma demo_progress: "receivers_progress (demo_receivers rqs)"
  by (auto simp: receivers_progress_def demo_receivers_def split: list.splits)

lemma demo_scripts: "scripts_edit_envelope demo_inbound"
proof -
  have "\<exists>m rs. demo_envelope n v s = s\<lparr>mail_from := m, rcpt_to := rs\<rparr>" for n v s
  proof (cases "n = ''to'' \<and> rcpt_to s \<noteq> []")
    case True
    then have "demo_envelope n v s = s\<lparr>mail_from := mail_from s,
        rcpt_to := butlast (rcpt_to s) @ [(last (rcpt_to s))\<lparr>addr := v, addr_lcase := v, addr_domain := domain_part v\<rparr>]\<rparr>"
      by (simp add: demo_envelope_def)
    then show ?thesis by blast
  next
    case False
    then have "demo_envelope n v s = s\<lparr>mail_from := mail_from s, rcpt_to := rcpt_to s\<rparr>" by (simp add: demo_envelope_def)
    then show ?thesis by blast
  qed
  then show ?thesis unfolding scripts_edit_envelope_def by (simp add: demo_inbound_def)
qed

lemma demo_size_contract: "size_contract (demo_receivers rqs) demo_data (\<lambda>_. 0) 26214400"
  by (auto simp: size_contract_def demo_progress demo_scripts receivers_append_def size_setting_le_def eval_usize_or_def or_else_def)
    (auto simp: demo_receivers_def)

theorem sessions_never_hang_witness:
  "\<exists>r. handle_session (demo_receivers demo_script) demo_data (\<lambda>_ w. w) demo_client [EvRead ''abcdefg'', EvTimeout] False [] demo_world = Some r"
  using sessions_never_hang [OF demo_progress] .

theorem failed_logins_bounded_witness:
  "auth_errors demo_end = 0 \<or> auth_errors demo_end < auth_errors_max (params demo_end)"
  using failed_logins_bounded [OF _ demo_session_open] demo_scripts by simp

theorem message_size_bounded_witness: "message_data demo_end = ''efg'' \<and> length (message_data demo_end) \<le> unat (26214400 :: u64)"
  using message_size_bounded [OF demo_size_contract demo_session_open] by (simp add: demo_end_def)

end
