(* ===== verification/Inbound_Accept.thy ===== *)
theory Inbound_Accept
  imports Inbound_Demo "HOL-Library.Multiset"
begin

text \<open>
  What an accepted command means: the sender that an account may use, the recipients of the message that is
  built, and what is in the spool when the client is told that the message is queued.
\<close>

section \<open>The sender of an account\<close>

definition sender_checked :: "access_token option \<Rightarrow> session \<Rightarrow> bool" where
  "sender_checked a s \<longleftrightarrow>
    (\<forall>m t. mail_from s = Some m \<longrightarrow> a = Some t \<longrightarrow>
      may_send_from (if token_name t \<noteq> [] then token_name t else ''unavailable'') (token_emails t) (addr_lcase m))"

definition sender_is :: "(session_address option \<Rightarrow> bool) \<Rightarrow> access_token option \<Rightarrow> session \<Rightarrow> bool" where
  "sender_is P a s \<longleftrightarrow> authenticated s = a \<and> P (mail_from s)"

abbreviation no_sender where "no_sender \<equiv> sender_is (\<lambda>m. m = None)"

abbreviation any_sender where "any_sender \<equiv> sender_is (\<lambda>_. True)"

lemma checked_none: "mail_from s = None \<Longrightarrow> sender_checked a s"
  by (simp add: sender_checked_def)

lemma before_match:
  "phase_ok (no_sender a) (mail_guards env) (no_sender a) (sender_checked a)"
  "phase_ok (no_sender a) mail_reverse_dns (no_sender a) (sender_checked a)"
  "phase_ok (no_sender a) (mail_set_sender env rq) (any_sender a) (sender_checked a)"
  "phase_ok (any_sender a) (run_filters env StageMail drop_sender) (any_sender a) (sender_checked a)"
  "phase_ok (any_sender a) (mail_rewrite env) (any_sender a) (sender_checked a)"
  by (rule phase_okI;
      auto simp: mail_guards_def mail_reverse_dns_def mail_set_sender_def run_filters_def mail_rewrite_def sender_is_def
        drop_sender_def checked_none Let_def split: prod.splits sum.splits option.splits if_splits)+

lemma script_before_match:
  assumes "scripts_edit_envelope env"
  shows "phase_ok (any_sender a) (mail_script env) (any_sender a) (sender_checked a)"
proof -
  have one: "authenticated (apply_script_envelope env m s) = authenticated s" for m s
  proof (cases m)
    case (ScriptSetEnvelope n v)
    obtain f rs where "apply_envelope env n v s = s\<lparr>mail_from := f, rcpt_to := rs\<rparr>"
      using assms unfolding scripts_edit_envelope_def by blast
    then show ?thesis using ScriptSetEnvelope by simp
  qed simp
  have "authenticated (apply_envelopes env mods s) = authenticated s" for mods s
    unfolding apply_envelopes_def by (induction mods arbitrary: s) (simp_all add: one)
  then show ?thesis
    by (intro phase_okI)
      (auto simp: mail_script_def sender_is_def drop_sender_def checked_none split: prod.splits option.splits script_result.splits)
qed

lemma match_checks:
  assumes "\<And>x. fst (eval_bool_or env AuthMustMatchSender True x)"
  shows "phase_ok (any_sender a) (mail_match_sender env) (sender_checked a) (sender_checked a)"
proof (rule phase_okI)
  fix s w t y
  assume a: "any_sender a s"
  { assume "mail_match_sender env (s, w) = (None, y)"
    then show "sender_checked a (fst y)"
      using a assms [of "(s, w)"]
      by (auto simp: mail_match_sender_def sender_is_def sender_checked_def authenticated_as_def authenticated_emails_def
          split: prod.splits option.splits bool.splits if_splits) }
  { assume "mail_match_sender env (s, w) = (Some (Reply t), y)"
    then show "sender_checked a (fst y)"
      using a assms [of "(s, w)"]
      by (auto simp: mail_match_sender_def drop_sender_def checked_none split: prod.splits option.splits bool.splits if_splits) }
qed

lemma sender_checked_simps [simp]:
  "sender_checked a (s\<lparr>spf_mail_from := o'\<rparr>) = sender_checked a s" "sender_checked a (s\<lparr>delivery_by := n\<rparr>) = sender_checked a s"
  "sender_checked a (s\<lparr>mail_priority := z\<rparr>) = sender_checked a s" "sender_checked a (s\<lparr>future_release := n\<rparr>) = sender_checked a s"
  by (simp_all add: sender_checked_def)

lemma rcpt_params_sender: "mail_from (fst (eval_rcpt_params env x)) = mail_from (fst x)"
  by (simp add: eval_rcpt_params_def set_param_field [where f = mail_from])

lemma after_match:
  "phase_ok (sender_checked a) (mail_requiretls env rq) (sender_checked a) (sender_checked a)"
  "phase_ok (sender_checked a) (mail_deliver_by env rq) (sender_checked a) (sender_checked a)"
  "phase_ok (sender_checked a) (mail_mt_priority env rq) (sender_checked a) (sender_checked a)"
  "phase_ok (sender_checked a) (mail_size env rq) (sender_checked a) (sender_checked a)"
  "phase_ok (sender_checked a) (mail_hold env rq) (sender_checked a) (sender_checked a)"
  "phase_ok (sender_checked a) (mail_dsn env rq) (sender_checked a) (sender_checked a)"
  "phase_ok (sender_checked a) (mail_throttle env) (sender_checked a) (sender_checked a)"
  "phase_ok (sender_checked a) (mail_spf env) (sender_checked a) (sender_checked a)"
  by (rule phase_okI;
      auto simp: mail_requiretls_def mail_deliver_by_def mail_mt_priority_def mail_size_def mail_hold_def mail_dsn_def
        mail_throttle_def mail_spf_def drop_sender_def checked_none Let_def
        split: prod.splits option.splits bool.splits if_splits)+

lemma accept_checked: "phase_ok (sender_checked a) (mail_accept env) (sender_checked a) (sender_checked a)"
  by (rule phase_okI) (auto simp: mail_accept_def sender_checked_def rcpt_params_sender)

text \<open>
  C6. Where the sender must match the account, a MAIL command of an account leaves the transaction with a
  sender only if it is the account's name, one of its addresses, or in a domain that is its.
\<close>

theorem account_sender_checked:
  assumes "scripts_edit_envelope env" "\<And>x. fst (eval_bool_or env AuthMustMatchSender True x)"
    and "handle_mail_from env rq x = (Some (Reply answer), y)" "mail_from (fst x) = None"
    and "authenticated (fst x) = Some t" "token_name t \<noteq> []" "mail_from (fst y) = Some m"
  shows "may_send_from (token_name t) (token_emails t) (addr_lcase m)"
proof -
  let ?a = "Some t"
  have "phase_ok (no_sender ?a) (handle_mail_from env rq) (sender_checked ?a) (sender_checked ?a)"
    unfolding handle_mail_from_def
    by (intro phases_cons [OF before_match(1)] phases_cons [OF before_match(2)] phases_cons [OF before_match(3)]
        phases_cons [OF script_before_match [OF assms(1)]] phases_cons [OF before_match(4)] phases_cons [OF before_match(5)]
        phases_cons [OF match_checks [OF assms(2)]] phases_cons [OF after_match(1)] phases_cons [OF after_match(2)]
        phases_cons [OF after_match(3)] phases_cons [OF after_match(4)] phases_cons [OF after_match(5)] phases_cons [OF after_match(6)]
        phases_cons [OF after_match(7)] phases_cons [OF after_match(8)] phases_cons [OF accept_checked] phases_nil)
  from phase_ok_reply [OF this, of "fst x" "snd x" answer y] have "sender_checked ?a (fst y)"
    using assms(3-5) by (simp add: sender_is_def)
  then show ?thesis using assms(6,7) by (simp add: sender_checked_def)
qed


section \<open>The message that is built\<close>

lemma insert_address_mset [simp]: "mset (insert_address a as) = add_mset a (mset as)"
  by (induction as) auto

lemma sort_addresses_mset [simp]: "mset (sort_addresses as) = mset as"
  unfolding sort_addresses_def by (induction as) simp_all

text \<open>Bytewise by domain, then by address.\<close>

definition in_domain_order :: "session_address \<Rightarrow> session_address \<Rightarrow> bool" where
  "in_domain_order a b \<longleftrightarrow>
    ord_class.lexordp (map byte (addr_domain a)) (map byte (addr_domain b)) \<or>
    addr_domain a = addr_domain b \<and> ord_class.lexordp_eq (map byte (addr_lcase a)) (map byte (addr_lcase b))"

lemma byte_eq: "byte a = byte b \<longleftrightarrow> a = b"
  by (simp add: byte_def)

lemma string_cmp_less: "string_cmp s t = Less \<longleftrightarrow> ord_class.lexordp (map byte s) (map byte t)"
proof (induction s t rule: string_cmp.induct)
  case (4 a s b t)
  then show ?case by (cases rule: linorder_cases [of "byte a" "byte b"]) (auto simp: byte_eq)
qed simp_all

lemma string_cmp_equal: "string_cmp s t = Equal \<longleftrightarrow> s = t"
proof (induction s t rule: string_cmp.induct)
  case (4 a s b t)
  then show ?case by (cases rule: linorder_cases [of "byte a" "byte b"]) (auto simp: byte_eq)
qed simp_all

lemma string_cmp_greater: "string_cmp s t \<noteq> Greater \<longleftrightarrow> ord_class.lexordp_eq (map byte s) (map byte t)"
proof (induction s t rule: string_cmp.induct)
  case (4 a s b t)
  then show ?case by (cases rule: linorder_cases [of "byte a" "byte b"]) (auto simp: byte_eq)
qed simp_all

lemma address_le_order: "address_le a b \<longleftrightarrow> in_domain_order a b"
  using string_cmp_less [of "addr_domain a" "addr_domain b"] string_cmp_equal [of "addr_domain a" "addr_domain b"]
  by (cases "string_cmp (addr_domain a) (addr_domain b)")
    (auto simp: address_le_def in_domain_order_def string_cmp_greater lexordp_irreflexive')

lemma order_trans: "in_domain_order a b \<Longrightarrow> in_domain_order b c \<Longrightarrow> in_domain_order a c"
  by (auto simp: in_domain_order_def intro: lexordp_trans lexordp_eq_trans)

lemma order_total: "\<not> in_domain_order a b \<Longrightarrow> in_domain_order b a"
  using lexordp_linear [of "map byte (addr_domain a)" "map byte (addr_domain b)"] lexordp_eq_linear
  by (auto simp: in_domain_order_def inj_map_eq_map byte_eq inj_def)

lemma insert_address_set [simp]: "set (insert_address a as) = insert a (set as)"
  by (induction as) auto

lemma insert_address_sorted: "sorted_wrt in_domain_order as \<Longrightarrow> sorted_wrt in_domain_order (insert_address a as)"
  by (induction as) (auto simp: address_le_order intro: order_trans order_total)

lemma sort_addresses_sorted: "sorted_wrt in_domain_order (sort_addresses as)"
  unfolding sort_addresses_def by (induction as) (simp_all add: insert_address_sorted)

text \<open>A recipient as the standard wants it for an address: without NOTIFY it is told of delays and failures.\<close>

definition asks_for_reports :: "dsn_env \<Rightarrow> u64 \<Rightarrow> bool" where
  "asks_for_reports f fs \<longleftrightarrow>
    (\<exists>n. bit fs n \<and>
      (bit (RCPT_NOTIFY_SUCCESS f) n \<or> bit (RCPT_NOTIFY_FAILURE f) n \<or> bit (RCPT_NOTIFY_DELAY f) n \<or> bit (RCPT_NOTIFY_NEVER f) n))"

definition queued_as :: "dsn_env \<Rightarrow> (string \<Rightarrow> string) \<Rightarrow> session_address \<Rightarrow> recipient \<Rightarrow> bool" where
  "queued_as f lower a r \<longleftrightarrow>
    address r = lower (addr a) \<and> orcpt r = addr_dsn a \<and> status r = Scheduled \<and>
    (\<forall>n. bit (flags r) n \<longleftrightarrow>
      bit (addr_flags a) n \<or>
      \<not> asks_for_reports f (addr_flags a) \<and> (bit (RCPT_NOTIFY_DELAY f) n \<or> bit (RCPT_NOTIFY_FAILURE f) n))"

lemma asks_for_reports_test:
  "asks_for_reports f fs \<longleftrightarrow>
    fs AND (RCPT_NOTIFY_DELAY f OR RCPT_NOTIFY_FAILURE f OR RCPT_NOTIFY_SUCCESS f OR RCPT_NOTIFY_NEVER f) \<noteq> 0"
proof -
  have "n < 64" if "bit fs n" for n using bit_imp_le_length [OF that] by simp
  then show ?thesis by (auto simp: asks_for_reports_def bit_eq_iff bit_simps)
qed

text \<open>A recipient as it is queued for an address.\<close>

definition queued_for :: "dsn_env \<Rightarrow> (string \<Rightarrow> string) \<Rightarrow> session_address \<Rightarrow> recipient \<Rightarrow> bool" where
  "queued_for f lower a r \<longleftrightarrow>
    address r = lower (addr a) \<and> orcpt r = addr_dsn a \<and> flags r = notify_flags f (addr_flags a) \<and> status r = Scheduled"

lemma queued_for_as: "queued_for f lower a r \<Longrightarrow> queued_as f lower a r"
  by (auto simp: queued_for_def queued_as_def asks_for_reports_test notify_flags_def bit_simps)

lemma build_recipient_adds:
  assumes "build_recipient env s a (m, w) = (m', w')"
  shows "\<exists>r. recipients m' = recipients m @ [r] \<and> queued_for (dsn (queue_env env)) (lower_domain (queue_env env)) a r \<and>
    m' = m\<lparr>recipients := recipients m'\<rparr>"
  using assms by (auto simp: build_recipient_def Let_def queued_for_def recipient_new_def split: prod.splits)

lemma build_recipients_add:
  assumes "fold (build_recipient env s) as (m, w) = (m', w')"
  shows "\<exists>rs. recipients m' = recipients m @ rs \<and>
    list_all2 (queued_for (dsn (queue_env env)) (lower_domain (queue_env env))) as rs \<and> m' = m\<lparr>recipients := recipients m'\<rparr>"
  using assms
proof (induction as arbitrary: m w)
  case (Cons a as)
  obtain m1 w1 where b: "build_recipient env s a (m, w) = (m1, w1)" by (cases "build_recipient env s a (m, w)")
  then obtain r where r: "recipients m1 = recipients m @ [r]" "queued_for (dsn (queue_env env)) (lower_domain (queue_env env)) a r"
    "m1 = m\<lparr>recipients := recipients m1\<rparr>" using build_recipient_adds by blast
  obtain rs where rs: "recipients m' = recipients m1 @ rs" "list_all2 (queued_for (dsn (queue_env env)) (lower_domain (queue_env env))) as rs"
    "m' = m1\<lparr>recipients := recipients m'\<rparr>" using Cons b by fastforce
  have "m' = m\<lparr>recipients := recipients m'\<rparr>" by (subst rs(3), subst r(3)) simp
  then show ?case using r(1,2) rs(1,2) by (intro exI [of _ "r # rs"]) simp
qed simp

text \<open>
  C7. The message of a transaction has one waiting recipient for each address of it, and they are in the
  order of their domains; each has the options of its RCPT command, with notifications of delay and failure
  exactly where it asked for none; sender, options, priority and origin are those of the session.
\<close>

theorem message_has_the_recipients:
  assumes "build_message env qid from rcpts x = (mw, w)"
  shows "queue_id mw = qid \<and> return_path (message mw) = lower_domain (queue_env env) (addr from) \<and>
    message_flags (message mw) = addr_flags from \<and> env_id (message mw) = addr_dsn from \<and>
    priority (message mw) = mail_priority (fst x) \<and> received_from_ip (message mw) = remote_ip (fst x) \<and>
    (\<exists>rs. mset rs = mset rcpts \<and> sorted_wrt in_domain_order rs \<and>
      list_all2 (queued_as (dsn (queue_env env)) (lower_domain (queue_env env))) rs (recipients (message mw)))"
proof -
  let ?f = "dsn (queue_env env)" and ?l = "lower_domain (queue_env env)"
  obtain now w1 where c: "read_clock (inbound env) (snd x) = (now, w1)" by (cases "read_clock (inbound env) (snd x)")
  define m0 where "m0 =
    \<lparr>created = now, blob_hash = replicate 32 (CHR 0x00), return_path = ?l (addr from),
     recipients = [], message_flags = addr_flags from, env_id = addr_dsn from, priority = mail_priority (fst x),
     message_size = 0, quota_keys = [], received_from_ip = remote_ip (fst x), received_via_port = ucast (local_port (fst x))\<rparr>"
  obtain m1 w2 where f: "fold (build_recipient env (fst x)) (sort_addresses rcpts) (m0, w1) = (m1, w2)"
    by (cases "fold (build_recipient env (fst x)) (sort_addresses rcpts) (m0, w1)")
  have mw: "mw = \<lparr>queue_id = qid, queue_name = DEFAULT_QUEUE_NAME, is_multi_queue = False, span_id = 0, message = m1\<rparr>"
    using assms(1) f by (simp add: build_message_def c m0_def)
  obtain rs where rs: "recipients m1 = rs" "list_all2 (queued_for ?f ?l) (sort_addresses rcpts) rs" "m1 = m0\<lparr>recipients := rs\<rparr>"
    using build_recipients_add [OF f] by (auto simp: m0_def)
  have "list_all2 (queued_as ?f ?l) (sort_addresses rcpts) rs"
    using rs(2) by (rule list_all2_mono) (rule queued_for_as)
  then show ?thesis using rs sort_addresses_sorted sort_addresses_mset unfolding mw rs(3)
    by (auto simp: m0_def simp del: sort_addresses_mset intro!: exI [of _ "sort_addresses rcpts"])
qed


section \<open>What is in the spool when the message is accepted\<close>

text \<open>
  C3. When the client is told that the message is queued, the message is in the spool under the id of the
  answer, with the recipients it was built with and its text as it was signed, and its events are in the
  index: nothing the server has promised to deliver is in memory only.
\<close>

theorem queued_reply_is_durable:
  assumes env: "spool_env_ok (queue_env env)" and clock: "\<And>w. mail_spool (snd (read_clock (inbound env) w)) = mail_spool w"
    and names: "names_ok (message mw)" and counters: "\<And>k. counter_ok (data (mail_spool (snd x))) (vkey (quota_class k))"
    and fresh: "events_of (data (mail_spool (snd x))) (queue_id mw) = {}"
    and run: "put_in_queue env m mw x = (Reply answer, y)" "take 3 answer = ''250''"
  shows "\<exists>q. spooled (queue_env env) (data (mail_spool (snd y))) (queue_id mw) = Some q \<and>
    recipients q = recipients (message mw) \<and> return_path q = return_path (message mw) \<and>
    blobs (mail_spool (snd y)) (blob_hash q) = Some (bytes_of (new_headers m) @ bytes_of (final_text m)) \<and>
    events_of (data (mail_spool (snd y))) (queue_id mw) = {(name, t). next_event q (Some name) = Some t}"
proof -
  let ?mw = "mw\<lparr>message := (message mw)\<lparr>message_size := word_of_nat (length (final_text m) + length (new_headers m))\<rparr>\<rparr>"
  obtain msg where msg: "has_quota (quota_env env) (queue_quotas_of env) (data (mail_spool (snd x))) (message ?mw) = Some msg"
    using run by (auto simp: put_in_queue_def crlf_def Let_def split: option.splits)
  then obtain ks where ks: "msg = (message ?mw)\<lparr>quota_keys := ks\<rparr>" by (auto simp: has_quota_keys split: if_splits)
  obtain now w where w: "read_clock (inbound env) (snd x) = (now, w)" by (cases "read_clock (inbound env) (snd x)")
  then have sp: "mail_spool w = mail_spool (snd x)" using clock [of "snd x"] by simp
  let ?raw = "bytes_of (new_headers m) @ bytes_of (final_text m)"
  let ?src = "message_source_of m (fst x)"
  define mq where "mq = ?mw\<lparr>message := msg\<rparr>"
  define q where "q = stamp_message (queue_env env) ?src ?raw (message mq)"
  have mq: "message mq = msg" "queue_id mq = queue_id mw" by (simp_all add: mq_def)
  obtain st where st: "queue_message (queue_env env) now (Some (bytes_of (new_headers m))) (bytes_of (final_text m)) ?src
      mq (mail_spool (snd x)) = (True, st)" "mail_spool (snd y) = st"
    using run msg by (auto simp: put_in_queue_def crlf_def Let_def w sp mq_def split: prod.splits bool.splits)
  obtain bs bl where b: "archive (queue_env env) q = Some bs" "put_blob (queue_env env) (blob_hash q) ?raw (blobs (mail_spool (snd x))) = Some bl"
    using st(1) by (auto simp: queue_message_def Let_def q_def split: option.splits)
  have n: "names_ok (message mq)" "counters_ok (data (mail_spool (snd x))) (message mq)"
    using names counters by (simp_all add: mq ks names_ok_def counters_ok_def)
  have raw: "?raw = (case Some (bytes_of (new_headers m)) of Some h \<Rightarrow> h @ bytes_of (final_text m) | None \<Rightarrow> bytes_of (final_text m))"
    by simp
  have "events_of (data (mail_spool (snd x))) (queue_id mq) = {}" using fresh by (simp add: mq)
  from queue_message_effect [OF env n raw q_def b this, of now] st
  have "spooled (queue_env env) (data (mail_spool (snd y))) (queue_id mq) = Some q \<and>
      events_of (data (mail_spool (snd y))) (queue_id mq) = {(name, t). next_event q (Some name) = Some t} \<and>
      blobs (mail_spool (snd y)) (blob_hash q) = Some ?raw"
    by auto
  moreover have "recipients q = recipients (message mw)" "return_path q = return_path (message mw)"
    by (simp_all add: q_def mq ks stamp_message_def)
  ultimately show ?thesis by (auto simp: mq)
qed

section \<open>Corners of the session\<close>

text \<open>
  A greeting that a script or a filter refuses takes the sender of the transaction and leaves its recipients;
  the recipients are enough for DATA, which then unwraps the missing sender.
\<close>

lemma refused_greeting_keeps_recipients: "mail_from (undo_ehlo prev s) = None \<and> rcpt_to (undo_ehlo prev s) = rcpt_to s"
  by (simp add: undo_ehlo_def)

lemma data_without_sender_panics: "mail_from (fst x) = None \<Longrightarrow> data_dmarc env m x = (Inl Panics, x)"
  by (simp add: data_dmarc_def)

text \<open>The options that a refused MAIL command has set stay for the next sender.\<close>

lemma refused_mail_keeps_options:
  "delivery_by (drop_sender s) = delivery_by s \<and> mail_priority (drop_sender s) = mail_priority s \<and> future_release (drop_sender s) = future_release s"
  by (simp add: drop_sender_def)

text \<open>A login in the middle of a transaction keeps a sender that was never compared with the account.\<close>

lemma login_keeps_sender:
  assumes "server_authenticate env d c (fst x) (snd x) = (Inr t, w)" "auth_directory (params (fst x)) = Some d"
  shows "mail_from (fst (snd (try_authenticate env c x))) = mail_from (fst x)"
  using assms by (simp add: try_authenticate_def eval_post_auth_params_def set_param_field [where f = mail_from])

text \<open>Failures other than wrong credentials can be repeated without end.\<close>

lemma other_failures_not_counted:
  assumes "server_authenticate env d c (fst x) (snd x) = (Inl e, w)" "auth_directory (params (fst x)) = Some d"
    and "e = Unauthorized \<or> e = OtherFailure"
  shows "fst (snd (try_authenticate env c x)) = fst x"
  using assms by (auto simp: try_authenticate_def)

text \<open>A chunk whose size wraps the sum passes the limit, and the buffer for it cannot be had.\<close>

lemma huge_chunk_panics:
  assumes "message_data s = ''a''" "0 < max_message_size (params s)"
  shows "bdat_command pe 0xFFFFFFFFFFFFFFFF fin (s, w) = (Crashes, [], s, w)"
proof -
  have wraps: "(18446744073709551616 :: u64) = 0" by transfer simp
  show ?thesis using assms by (simp add: bdat_command_def wraps)
qed

text \<open>The limits of BY and MT-PRIORITY.\<close>

lemma least_delivery_time_passes: "abs_or_zero 0x8000000000000000 = 0"
  by (simp add: abs_or_zero_def)

lemma highest_priority_refused:
  assumes "from_mt_priority rq = 6" "eval_session env conv_mt_priority ExtMtPriority x = (Some p, w)"
  shows "fst (mail_mt_priority env rq x) = Some (Reply (crlf ''501 5.5.4 Invalid priority value.''))"
  using assms by (simp add: mail_mt_priority_def)

section \<open>The theorems at the demo server\<close>

definition my_token :: access_token where
  "my_token = \<lparr>token_name = ''me'', token_emails = [''me@here'']\<rparr>"

definition my_session :: session where
  "my_session = demo_session\<lparr>authenticated := Some my_token\<rparr>"

lemma my_sender [simp]: "addr_lcase (sender_of demo_inbound (plain_mail a)) = a"
  by (simp add: sender_of_def plain_mail_def)

lemma may_send: "may_send_from ''me'' [''me@here''] ''me@here''"
  by (simp add: may_send_from_def)

lemma my_mail_phases:
  "mail_guards demo_inbound (my_session, w) = (None, my_session, w)"
  "mail_reverse_dns (my_session, w) = (None, my_session, w)"
  "mail_set_sender demo_inbound (plain_mail a) (my_session, w) = (None, my_session\<lparr>mail_from := Some (sender_of demo_inbound (plain_mail a))\<rparr>, w)"
  by (simp_all add: my_session_def mail_guards_def mail_reverse_dns_def mail_set_sender_def demo_evals plain_mail_def authenticated_as_def)

lemma my_match:
  "mail_match_sender demo_inbound (my_session\<lparr>mail_from := Some (sender_of demo_inbound (plain_mail ''me@here''))\<rparr>, w)
    = (None, my_session\<lparr>mail_from := Some (sender_of demo_inbound (plain_mail ''me@here''))\<rparr>, w)"
  by (simp add: my_session_def my_token_def mail_match_sender_def demo_evals authenticated_as_def authenticated_emails_def may_send)

definition after_my_mail :: session where
  "after_my_mail =
    my_session\<lparr>mail_from := Some (sender_of demo_inbound (plain_mail ''me@here'')),
      params := demo_params\<lparr>rcpt_errors_max := 10, rcpt_errors_wait := 30000, rcpt_max := 100, rcpt_dsn := True, max_message_size := 26214400\<rparr>\<rparr>"

lemma my_mail:
  "handle_mail_from demo_inbound (plain_mail ''me@here'') (my_session, w) = (Some (Reply (crlf ''250 2.1.0 OK'')), after_my_mail, w)"
proof -
  have "mail_accept demo_inbound (my_session\<lparr>mail_from := Some (sender_of demo_inbound (plain_mail ''me@here''))\<rparr>, w)
      = (Some (Reply (crlf ''250 2.1.0 OK'')), after_my_mail, w)"
    by (simp add: mail_accept_def eval_rcpt_params_def set_param_def demo_evals after_my_mail_def demo_params_def my_session_def)
  moreover have "verify_spf_mail (params my_session) = VerifyDisable" by (simp add: my_session_def)
  ultimately show ?thesis by (simp add: handle_mail_from_def demo_mail_phases my_mail_phases my_match)
qed

theorem account_sender_checked_witness: "may_send_from ''me'' [''me@here''] ''me@here''"
  using account_sender_checked [OF demo_scripts _ my_mail [of demo_world], of my_token "sender_of demo_inbound (plain_mail ''me@here'')"]
  by (simp add: demo_evals my_session_def after_my_mail_def) (simp add: my_token_def)

theorem message_has_the_recipients_witness:
  "map address (recipients (message (fst (build_message demo_data 7 here [here] (demo_session, demo_world))))) = [''me@here'']"
proof -
  obtain mw w where b: "build_message demo_data 7 here [here] (demo_session, demo_world) = (mw, w)"
    by (cases "build_message demo_data 7 here [here] (demo_session, demo_world)")
  have "addr here = ''me@here''" "lower_domain (queue_env demo_data) = id"
    by (simp_all add: here_def rcpt_of_def plain_rcpt_def demo_data_def spool_test_env_def table_env_def id_def)
  then show ?thesis
    using message_has_the_recipients [OF b] b by (auto simp: queued_as_def list_all2_Cons1)
qed

definition demo_facts :: message_facts where
  "demo_facts = (facts_of ''b'')\<lparr>new_headers := ''a''\<rparr>"

definition demo_wrapper :: message_wrapper where
  "demo_wrapper = worker dq False waiting_message"

definition accepted_message :: message where
  "accepted_message =
    stamp_message (table_env []) (SourceUnauthenticated False None) [97, 98] (waiting_message\<lparr>message_size := 2, quota_keys := []\<rparr>)"

definition spooling_data :: "(unit, unit, unit) data_env" where
  "spooling_data = demo_data\<lparr>queue_env := table_env [accepted_message]\<rparr>"

lemma demo_bytes [simp]: "bytes_of ''a'' = [97]" "bytes_of ''b'' = [98]"
  by code_simp+

lemma spooling_accepts:
  "\<exists>y. put_in_queue spooling_data demo_facts demo_wrapper (demo_session, demo_world)
    = (Reply (crlf ''250 2.0.0 Message queued with id 7.''), y)"
proof -
  let ?mw = "demo_wrapper\<lparr>message := waiting_message\<lparr>message_size := 2, quota_keys := []\<rparr>\<rparr>"
  have f: "new_headers demo_facts = ''a''" "final_text demo_facts = ''b''" "message_source_of demo_facts demo_session = SourceUnauthenticated False None"
    by (simp_all add: demo_facts_def facts_of_def final_text_def message_source_of_def)
  have q: "queue_env spooling_data = table_env [accepted_message]" "inbound spooling_data = demo_inbound" "show_hex spooling_data = (\<lambda>_. ''7'')"
    "queue_quotas_of spooling_data = \<lparr>sender_quotas = [], domain_quotas = [], rcpt_quotas = []\<rparr>"
    by (simp_all add: spooling_data_def demo_data_def)
  have has: "has_quota (quota_env spooling_data) \<lparr>sender_quotas = [], domain_quotas = [], rcpt_quotas = []\<rparr> d m = Some (m\<lparr>quota_keys := []\<rparr>)" for d m
    by (simp add: has_quota_keys quota_items_def quota_pairs_def)
  have m: "accepted_message = stamp_message (table_env [accepted_message]) (SourceUnauthenticated False None) [97, 98] (message ?mw)"
    by (simp add: accepted_message_def stamp_message_def table_env_def demo_wrapper_def)
  obtain bs where bs: "archive (table_env [accepted_message]) accepted_message = Some bs"
    using table_archive_some [of accepted_message "[accepted_message]"] by auto
  have pre: "names_ok (message ?mw)" "counters_ok (data (mail_spool demo_world)) (message ?mw)"
    "events_of (data (mail_spool demo_world)) (queue_id ?mw) = {}"
    by (simp_all add: demo_world_def counters_ok_def events_of_def names_ok_def)
  have blob: "put_blob (table_env [accepted_message]) (blob_hash accepted_message) [97, 98] (blobs (mail_spool demo_world))
      = Some ((blobs (mail_spool demo_world))(blob_hash accepted_message \<mapsto> [97, 98]))"
    by (simp add: table_env_def)
  have raw: "[97, 98] = (case Some [97 :: u8] of Some h \<Rightarrow> h @ [98] | None \<Rightarrow> [98])" by simp
  obtain st where "queue_message (table_env [accepted_message]) 1000 (Some [97]) [98] (SourceUnauthenticated False None) ?mw
      (mail_spool demo_world) = (True, st)"
    using queue_message_effect [OF table_env_ok pre(1,2) raw m bs blob pre(3), of 1000] by blast
  moreover have "message demo_wrapper = waiting_message" "bytes_of ''a'' = [97]" "bytes_of ''b'' = [98]"
    by (simp_all add: demo_wrapper_def worker_def)
  ultimately show ?thesis
    by (simp add: put_in_queue_def f q has Let_def)
qed

theorem queued_reply_is_durable_witness:
  "\<exists>(st :: spool_state) q. spooled (table_env [accepted_message]) (data st) 7 = Some q \<and> recipients q = recipients waiting_message \<and>
    blobs st (blob_hash q) = Some [97, 98]"
proof -
  obtain y where y: "put_in_queue spooling_data demo_facts demo_wrapper (demo_session, demo_world)
      = (Reply (crlf ''250 2.0.0 Message queued with id 7.''), y)"
    using spooling_accepts by blast
  have q: "queue_env spooling_data = table_env [accepted_message]" "inbound spooling_data = demo_inbound" "queue_id demo_wrapper = 7"
    "message demo_wrapper = waiting_message" "new_headers demo_facts = ''a''" "final_text demo_facts = ''b''"
    by (simp_all add: spooling_data_def demo_wrapper_def worker_def demo_facts_def final_text_def facts_of_def)
  have pre: "names_ok (message demo_wrapper)" "counter_ok (data (mail_spool demo_world)) (vkey (quota_class k))"
    "events_of (data (mail_spool demo_world)) 7 = {}" "bytes_of ''a'' @ bytes_of ''b'' = [97, 98]" for k
    by (simp_all add: demo_world_def counter_ok_def events_of_def q)
  obtain s where "spooled (table_env [accepted_message]) (data (mail_spool (snd y))) 7 = Some s"
    "recipients s = recipients waiting_message" "blobs (mail_spool (snd y)) (blob_hash s) = Some [97, 98]"
    using queued_reply_is_durable [OF _ _ pre(1) _ _ y, unfolded q fst_conv snd_conv pre(4)] table_env_ok [of "[accepted_message]"] pre(2,3)
    by (auto simp: crlf_def simp del: spool_simps)
  then show ?thesis by (intro exI [of _ "mail_spool (snd y)"] exI [of _ s]) (intro conjI)
qed

end
