(* ===== verification/Pop3_Parser.thy ===== *)
theory Pop3_Parser
  imports Prelude
begin

text \<open>
  The requests of POP3 (\<open>crates/pop3/src/protocol/mod.rs\<close>, \<open>request.rs\<close>): the commands, the parser that
  takes one byte after the other, and what its results do not depend on.
\<close>

section \<open>Commands\<close>

datatype ('t, 'm) pop_command =
    PopUser 't
  | PopPass 't
  | PopApop 't 't
  | PopQuit
  | PopStat
  | PopList "u32 option"
  | PopRetr u32
  | PopDele u32
  | PopDeleMany "u32 list"
  | PopNoop
  | PopRset
  | PopTop u32 u32
  | PopUidl "u32 option"
  | PopCapa
  | PopStls
  | PopUtf8
  | PopAuth 'm "'t list"

datatype pop_mechanism =
    MechPlain | MechCramMd5 | MechDigestMd5 | MechScramSha1 | MechScramSha256 | MechApop | MechNtlm | MechGssapi
  | MechAnonymous | MechExternal | MechOAuthBearer | MechXOauth2

datatype pop_error = PopNeedsMoreData | PopParse string

type_synonym pop_request = "(string, pop_mechanism) pop_command"

type_synonym pop_partial = "(string, string) pop_command"

text \<open>The buffer of a command holds its bytes so far; the source keeps four bytes and a length.\<close>

datatype pop_state = PopInit | PopCommand string | PopArgument pop_partial nat bool | PopError string

definition POP_MAX_ARG_LEN :: nat where "POP_MAX_ARG_LEN = 256"

fun pop_mechanism_str :: "pop_mechanism \<Rightarrow> string" where
  "pop_mechanism_str MechPlain = ''PLAIN''"
| "pop_mechanism_str MechCramMd5 = ''CRAM-MD5''"
| "pop_mechanism_str MechDigestMd5 = ''DIGEST-MD5''"
| "pop_mechanism_str MechScramSha1 = ''SCRAM-SHA-1''"
| "pop_mechanism_str MechScramSha256 = ''SCRAM-SHA-256''"
| "pop_mechanism_str MechApop = ''APOP''"
| "pop_mechanism_str MechNtlm = ''NTLM''"
| "pop_mechanism_str MechGssapi = ''GSSAPI''"
| "pop_mechanism_str MechAnonymous = ''ANONYMOUS''"
| "pop_mechanism_str MechExternal = ''EXTERNAL''"
| "pop_mechanism_str MechOAuthBearer = ''OAUTHBEARER''"
| "pop_mechanism_str MechXOauth2 = ''XOAUTH2''"

text \<open>\<open>lossy\<close> is \<open>String::from_utf8_lossy\<close>, which only the text of the error depends on.\<close>

definition pop_mechanism_parse :: "(string \<Rightarrow> string) \<Rightarrow> string \<Rightarrow> pop_error + pop_mechanism" where
  "pop_mechanism_parse lossy v =
    (if eq_ignore_ascii_case v ''PLAIN'' then Inr MechPlain
     else if eq_ignore_ascii_case v ''CRAM-MD5'' then Inr MechCramMd5
     else if eq_ignore_ascii_case v ''DIGEST-MD5'' then Inr MechDigestMd5
     else if eq_ignore_ascii_case v ''SCRAM-SHA-1'' then Inr MechScramSha1
     else if eq_ignore_ascii_case v ''SCRAM-SHA-256'' then Inr MechScramSha256
     else if eq_ignore_ascii_case v ''APOP'' then Inr MechApop
     else if eq_ignore_ascii_case v ''NTLM'' then Inr MechNtlm
     else if eq_ignore_ascii_case v ''GSSAPI'' then Inr MechGssapi
     else if eq_ignore_ascii_case v ''ANONYMOUS'' then Inr MechAnonymous
     else if eq_ignore_ascii_case v ''EXTERNAL'' then Inr MechExternal
     else if eq_ignore_ascii_case v ''OAUTHBEARER'' then Inr MechOAuthBearer
     else if eq_ignore_ascii_case v ''XOAUTH2'' then Inr MechXOauth2
     else Inl (PopParse (''Unsupported mechanism '' @ [CHR 0x27] @ lossy v @ [CHR 0x27] @ ''.'')))"

section \<open>Words and arguments\<close>

definition pop_command_of :: "string \<Rightarrow> string + pop_partial" where
  "pop_command_of w =
    (if w = ''user'' then Inr (PopUser [])
     else if w = ''uidl'' then Inr (PopUidl None)
     else if w = ''utf8'' then Inr PopUtf8
     else if w = ''pass'' then Inr (PopPass [])
     else if w = ''apop'' then Inr (PopApop [] [])
     else if w = ''auth'' then Inr (PopAuth [] [])
     else if w = ''quit'' then Inr PopQuit
     else if w = ''list'' then Inr (PopList None)
     else if w = ''retr'' then Inr (PopRetr 0)
     else if w = ''rset'' then Inr PopRset
     else if w = ''dele'' then Inr (PopDele 0)
     else if w = ''noop'' then Inr PopNoop
     else if w = ''top'' then Inr (PopTop 0 0)
     else if w = ''capa'' then Inr PopCapa
     else if w = ''stls'' then Inr PopStls
     else if w = ''stat'' then Inr PopStat
     else Inl ''Invalid command'')"

definition add_digit :: "u32 \<Rightarrow> char \<Rightarrow> string + u32" where
  "add_digit n b =
    (if is_ascii_digit b then
       (let v = unat n * 10 + (byte b - 48) in
        if v \<le> u32_max then Inr (word_of_nat v) else Inl ''Numeric argument out of range'')
     else Inl ''Invalid digit'')"

definition push_last :: "char \<Rightarrow> string list \<Rightarrow> string list" where
  "push_last b ps = butlast ps @ [last ps @ [b]]"

fun update_argument :: "pop_partial \<Rightarrow> nat \<Rightarrow> char \<Rightarrow> string + pop_partial" where
  "update_argument (PopUser name) n b =
    (if n = 1 \<and> length name < POP_MAX_ARG_LEN then Inr (PopUser (name @ [b])) else Inl ''Too many arguments'')"
| "update_argument (PopPass s) n b =
    (if n = 1 \<and> length s < POP_MAX_ARG_LEN then Inr (PopPass (s @ [b])) else Inl ''Too many arguments'')"
| "update_argument (PopApop name digest) n b =
    (if n \<le> 2 \<and> length name < POP_MAX_ARG_LEN \<and> length digest < POP_MAX_ARG_LEN
     then Inr (if n = 1 then PopApop (name @ [b]) digest else PopApop name (digest @ [b]))
     else Inl ''Too many arguments'')"
| "update_argument (PopList msg) n b =
    (if n = 1 then map_sum id (\<lambda>m. PopList (Some m)) (add_digit (case msg of Some m \<Rightarrow> m | None \<Rightarrow> 0) b)
     else Inl ''Too many arguments'')"
| "update_argument (PopRetr msg) n b = (if n = 1 then map_sum id PopRetr (add_digit msg b) else Inl ''Too many arguments'')"
| "update_argument (PopDele msg) n b = (if n = 1 then map_sum id PopDele (add_digit msg b) else Inl ''Too many arguments'')"
| "update_argument (PopTop msg k) n b =
    (if n \<le> 2 then
       (if n = 1 then map_sum id (\<lambda>m. PopTop m k) (add_digit msg b) else map_sum id (PopTop msg) (add_digit k b))
     else Inl ''Too many arguments'')"
| "update_argument (PopUidl msg) n b =
    (if n = 1 then map_sum id (\<lambda>m. PopUidl (Some m)) (add_digit (case msg of Some m \<Rightarrow> m | None \<Rightarrow> 0) b)
     else Inl ''Too many arguments'')"
| "update_argument (PopAuth mech ps) n b =
    (if n \<le> 4 \<and> length mech < 64 \<and> sum_list (map length ps) < POP_MAX_ARG_LEN * 4 then
       Inr (if n = 1 then PopAuth (mech @ [b]) ps
            else PopAuth mech (push_last b (if length ps < n - 1 then ps @ [[]] else ps)))
     else Inl ''Too many arguments'')"
| "update_argument _ n b = Inl ''Too many arguments''"

definition pop_into_string :: "string \<Rightarrow> pop_error + string" where
  "pop_into_string s = (if utf8_valid s then Inr s else Inl (PopParse ''Invalid UTF-8''))"

fun pop_into_strings :: "string list \<Rightarrow> pop_error + string list" where
  "pop_into_strings [] = Inr []"
| "pop_into_strings (s # ss) =
    (case pop_into_string s of Inl e \<Rightarrow> Inl e | Inr s \<Rightarrow> map_sum id (Cons s) (pop_into_strings ss))"

fun pop_finalize :: "(string \<Rightarrow> string) \<Rightarrow> pop_partial \<Rightarrow> nat \<Rightarrow> pop_error + pop_request" where
  "pop_finalize l (PopUser name) n =
    (if n = 1 then map_sum id PopUser (pop_into_string name) else Inl (PopParse ''Missing arguments''))"
| "pop_finalize l (PopPass s) n =
    (if n = 1 then map_sum id PopPass (pop_into_string s) else Inl (PopParse ''Missing arguments''))"
| "pop_finalize l (PopApop name digest) n =
    (if n = 2 then
       (case pop_into_string name of
          Inl e \<Rightarrow> Inl e | Inr name \<Rightarrow> map_sum id (PopApop name) (pop_into_string digest))
     else Inl (PopParse ''Missing arguments''))"
| "pop_finalize l PopQuit n = Inr PopQuit"
| "pop_finalize l PopStat n = Inr PopStat"
| "pop_finalize l (PopList msg) n = Inr (PopList msg)"
| "pop_finalize l (PopRetr msg) n = (if n = 1 then Inr (PopRetr msg) else Inl (PopParse ''Missing arguments''))"
| "pop_finalize l (PopDele msg) n = (if n = 1 then Inr (PopDele msg) else Inl (PopParse ''Missing arguments''))"
| "pop_finalize l PopNoop n = Inr PopNoop"
| "pop_finalize l PopRset n = Inr PopRset"
| "pop_finalize l (PopTop msg k) n = (if n = 2 then Inr (PopTop msg k) else Inl (PopParse ''Missing arguments''))"
| "pop_finalize l (PopUidl msg) n = Inr (PopUidl msg)"
| "pop_finalize l PopCapa n = Inr PopCapa"
| "pop_finalize l PopStls n = Inr PopStls"
| "pop_finalize l PopUtf8 n = Inr PopUtf8"
| "pop_finalize l (PopAuth mech ps) n =
    (if 1 \<le> n then
       (case pop_mechanism_parse l mech of Inl e \<Rightarrow> Inl e | Inr m \<Rightarrow> map_sum id (PopAuth m) (pop_into_strings ps))
     else Inl (PopParse ''Missing arguments''))"
| "pop_finalize l (PopDeleMany msgs) n = Inl (PopParse ''Missing arguments'')"

section \<open>The parser\<close>

text \<open>One byte: the next state, and a result if the source returns here.\<close>

definition step_word :: "(string \<Rightarrow> string) \<Rightarrow> string \<Rightarrow> char \<Rightarrow> pop_state \<times> (pop_error + pop_request) option" where
  "step_word l buf b =
    (if (is_ascii_lowercase b \<or> b = CHR ''8'') \<and> length buf < 4 then (PopCommand (buf @ [b]), None)
     else if is_ascii_uppercase b \<and> length buf < 4 then (PopCommand (buf @ [to_ascii_lowercase b]), None)
     else if (b = ch_space \<or> b = ch_tab) \<and> (length buf = 4 \<or> length buf = 3) then
       (case pop_command_of buf of Inr c \<Rightarrow> (PopArgument c 0 True, None) | Inl e \<Rightarrow> (PopError e, None))
     else if b = ch_cr then (PopCommand buf, None)
     else if b = ch_lf \<and> (length buf = 4 \<or> length buf = 3) then
       (case pop_command_of buf of Inr c \<Rightarrow> (PopInit, Some (pop_finalize l c 0)) | Inl e \<Rightarrow> (PopInit, Some (Inl (PopParse e))))
     else (PopError ''Invalid command'', None))"

fun pop_step :: "(string \<Rightarrow> string) \<Rightarrow> pop_state \<Rightarrow> char \<Rightarrow> pop_state \<times> (pop_error + pop_request) option" where
  "pop_step l PopInit b =
    (if b = ch_space \<or> b = ch_tab \<or> b = ch_cr \<or> b = ch_lf then (PopInit, None)
     else if is_ascii_lowercase b then (PopCommand [b], None)
     else if is_ascii_uppercase b then (PopCommand [to_ascii_lowercase b], None)
     else (PopError ''Invalid command'', None))"
| "pop_step l (PopCommand buf) b = step_word l buf b"
| "pop_step l (PopArgument c n sp) b =
    (if b = ch_space \<or> b = ch_tab then (PopArgument c n True, None)
     else if b = ch_cr then (PopArgument c n sp, None)
     else if b = ch_lf then (PopInit, Some (pop_finalize l c n))
     else
       (let n = (if sp then n + 1 else n) in
        case update_argument c n b of Inr c \<Rightarrow> (PopArgument c n False, None) | Inl e \<Rightarrow> (PopError e, None)))"
| "pop_step l (PopError e) b = (if b = ch_lf then (PopInit, Some (Inl (PopParse e))) else (PopError e, None))"

fun pop_parse :: "(string \<Rightarrow> string) \<Rightarrow> pop_state \<Rightarrow> string \<Rightarrow> (pop_error + pop_request) \<times> pop_state \<times> string" where
  "pop_parse l st [] = (Inl PopNeedsMoreData, st, [])"
| "pop_parse l st (b # bs) =
    (case pop_step l st b of (st, None) \<Rightarrow> pop_parse l st bs | (st, Some r) \<Rightarrow> (r, st, bs))"

section \<open>All requests of an input\<close>

lemma pop_parse_shorter: "pop_parse l st bs = (r, st', bs') \<Longrightarrow> r \<noteq> Inl PopNeedsMoreData \<Longrightarrow> length bs' < length bs"
  by (induction bs arbitrary: st) (auto split: prod.splits option.splits intro: less_SucI)

lemma pop_finalize_error: "pop_finalize l c n = Inl e \<Longrightarrow> e \<noteq> PopNeedsMoreData"
proof -
  have s: "pop_into_string s = Inl e \<Longrightarrow> e \<noteq> PopNeedsMoreData" for s and e
    by (auto simp: pop_into_string_def split: if_splits)
  then have ss: "pop_into_strings ps = Inl e \<Longrightarrow> e \<noteq> PopNeedsMoreData" for ps and e
    by (induction ps) (auto split: sum.splits simp: map_sum_def)
  have m: "pop_mechanism_parse l v = Inl e \<Longrightarrow> e \<noteq> PopNeedsMoreData" for v and e
    by (auto simp: pop_mechanism_parse_def split: if_splits)
  show "pop_finalize l c n = Inl e \<Longrightarrow> e \<noteq> PopNeedsMoreData"
    using s ss m by (cases c) (auto split: if_splits sum.splits simp: map_sum_def)
qed

lemma pop_step_error: "pop_step l st b = (st', Some r) \<Longrightarrow> r \<noteq> Inl PopNeedsMoreData \<and> st' = PopInit"
  using pop_finalize_error
  by (cases st) (auto simp: step_word_def Let_def split: if_splits sum.splits)

lemma pop_parse_more: "pop_parse l st bs = (Inl PopNeedsMoreData, st', bs') \<Longrightarrow> bs' = []"
  by (induction bs arbitrary: st) (auto split: prod.splits option.splits dest: pop_step_error)

text \<open>The loop of \<open>Session::ingest\<close> over the parser: every request and every error of the input.\<close>

function pop_requests :: "(string \<Rightarrow> string) \<Rightarrow> pop_state \<Rightarrow> string \<Rightarrow> (string + pop_request) list \<times> pop_state" where
  "pop_requests l st bs =
    (case pop_parse l st bs of
       (Inl PopNeedsMoreData, st, bs) \<Rightarrow> ([], st)
     | (Inl (PopParse e), st, bs) \<Rightarrow> (case pop_requests l st bs of (rs, st) \<Rightarrow> (Inl e # rs, st))
     | (Inr rq, st, bs) \<Rightarrow> (case pop_requests l st bs of (rs, st) \<Rightarrow> (Inr rq # rs, st)))"
  by pat_completeness auto
termination
  by (relation "measure (\<lambda>(l, st, bs). length bs)") (auto dest: pop_parse_shorter [OF sym])

declare pop_requests.simps [simp del]

lemma pop_requests_Nil [simp]: "pop_requests l st [] = ([], st)"
  by (simp add: pop_requests.simps)

lemma pop_requests_Cons:
  "pop_requests l st (b # bs) =
    (case pop_step l st b of
       (st, None) \<Rightarrow> pop_requests l st bs
     | (st, Some (Inr rq)) \<Rightarrow> apfst (Cons (Inr rq)) (pop_requests l st bs)
     | (st, Some (Inl (PopParse e))) \<Rightarrow> apfst (Cons (Inl e)) (pop_requests l st bs)
     | (st, Some (Inl PopNeedsMoreData)) \<Rightarrow> ([], st))"
proof -
  obtain st' r where s: "pop_step l st b = (st', r)" by (cases "pop_step l st b")
  then show ?thesis
    by (subst pop_requests.simps)
      (auto simp: pop_requests.simps [of l st' bs] apfst_def map_prod_def split: option.splits sum.splits pop_error.splits prod.splits)
qed

lemma pop_requests_append:
  "pop_requests l st (as @ bs) =
    (case pop_requests l st as of (rs, st) \<Rightarrow> apfst ((@) rs) (pop_requests l st bs))"
proof (induction as arbitrary: st)
  case (Cons b as)
  obtain st' r where s: "pop_step l st b = (st', r)" by (cases "pop_step l st b")
  have "r \<noteq> Some (Inl PopNeedsMoreData)" using pop_step_error [of l st b st'] s by (cases r) auto
  then show ?case using Cons s
    by (auto simp: pop_requests_Cons prod_eq_iff split: option.splits sum.splits pop_error.splits prod.splits)
qed (simp add: apfst_def map_prod_def split: prod.split)

end
