(* ===== verification/Pop3_Session.thy ===== *)
theory Pop3_Session
  imports Pop3_Parser Inbound_Limits
begin

text \<open>
  Sessions of POP3 (\<open>crates/pop3/src/client.rs\<close>, \<open>session.rs\<close>, \<open>mailbox.rs\<close>, \<open>op/\<close>,
  \<open>protocol/response.rs\<close>): the mailbox that a login takes, the commands on it, and the connection.
\<close>

section \<open>Errors\<close>

text \<open>
  The errors of \<open>trc\<close> as far as a session tells them apart (\<open>crates/trc/src/event/mod.rs\<close>);
  \<open>EvOther\<close> carries the message of its kind.
\<close>

datatype event_kind =
    EvPop3 | EvAuthFailed | EvAuthTooManyAttempts | EvAuthMissingTotp | EvAuthOther | EvConcurrentRequest
  | EvTooManyRequests | EvSecurity | EvNetwork | EvOther string

record trc_error =
  trc_kind :: event_kind
  trc_details :: "string option"

fun event_message :: "event_kind \<Rightarrow> string" where
  "event_message EvPop3 = ''POP3 error''"
| "event_message EvAuthFailed = ''Authentication failed''"
| "event_message EvAuthTooManyAttempts = ''Too many authentication attempts''"
| "event_message EvAuthMissingTotp =
    ''A TOTP code is required to authenticate this account. Try authenticating again using '' @ [CHR 0x27] @ ''secret$totp_token'' @ [CHR 0x27] @ ''.''"
| "event_message EvAuthOther = ''Authentication error''"
| "event_message EvConcurrentRequest = ''Too many concurrent requests''"
| "event_message EvTooManyRequests = ''Too many requests''"
| "event_message EvSecurity = ''Insufficient permissions''"
| "event_message EvNetwork = ''Network error''"
| "event_message (EvOther m) = m"

definition must_disconnect :: "trc_error \<Rightarrow> bool" where
  "must_disconnect e \<longleftrightarrow>
    trc_kind e \<in> {EvNetwork, EvAuthTooManyAttempts, EvConcurrentRequest, EvTooManyRequests, EvSecurity}"

definition should_write_err :: "trc_error \<Rightarrow> bool" where
  "should_write_err e \<longleftrightarrow> trc_kind e \<notin> {EvNetwork, EvSecurity}"

abbreviation pop_failure :: "string \<Rightarrow> trc_error" where
  "pop_failure text \<equiv> \<lparr>trc_kind = EvPop3, trc_details = Some text\<rparr>"

section \<open>Responses\<close>

definition pop_line :: "string \<Rightarrow> string" where
  "pop_line t = t @ [ch_cr, ch_lf]"

definition pop_ok :: "string \<Rightarrow> string" where
  "pop_ok t = pop_line (''+OK '' @ t)"

definition pop_err :: "string \<Rightarrow> string" where
  "pop_err t = pop_line (''-ERR '' @ t)"

definition error_response :: "trc_error \<Rightarrow> string" where
  "error_response e = pop_err (case trc_details e of Some d \<Rightarrow> d | None \<Rightarrow> event_message (trc_kind e))"

fun numbered_lines :: "nat \<Rightarrow> string list \<Rightarrow> string" where
  "numbered_lines n [] = []"
| "numbered_lines n (v # vs) = pop_line (show_nat n @ '' '' @ v) @ numbered_lines (n + 1) vs"

definition pop_list_response :: "string list \<Rightarrow> string" where
  "pop_list_response vs = pop_ok (show_nat (length vs) @ '' messages'') @ numbered_lines 1 vs @ pop_line ''.''"

text \<open>The transparency procedure: what is written for the bytes, and the last of them.\<close>

fun pop_transparent :: "nat \<Rightarrow> nat \<Rightarrow> char \<Rightarrow> string \<Rightarrow> string \<times> char" where
  "pop_transparent lines cnt prev [] = ([], prev)"
| "pop_transparent lines cnt prev (b # bs) =
    (let w = (if b = ch_lf \<and> prev \<noteq> ch_cr then [ch_cr] else []) @ (if b = CHR ''.'' \<and> prev = ch_lf then ''.'' else []) @ [b] in
     if 0 < lines \<and> b = ch_lf then
       (if cnt + 1 = lines then (w, b) else apfst ((@) w) (pop_transparent lines (cnt + 1) b bs))
     else apfst ((@) w) (pop_transparent lines cnt b bs))"

definition pop_message_response :: "string \<Rightarrow> u32 \<Rightarrow> string" where
  "pop_message_response bytes lines =
    (case pop_transparent (unat lines) 0 (CHR 0x00) bytes of
       (w, prev) \<Rightarrow>
         pop_ok (show_nat (length bytes) @ '' octets'') @ w @ (if prev \<noteq> ch_lf then [ch_cr, ch_lf] else []) @ pop_line ''.'')"

definition pop_capability_response :: "pop_mechanism list \<Rightarrow> bool \<Rightarrow> string" where
  "pop_capability_response mechs stls =
    pop_ok ''Capability list follows'' @
    (if mechs \<noteq> [] then
       (if MechPlain \<in> set mechs then pop_line ''USER'' else []) @
       pop_line (''SASL'' @ concat (map (\<lambda>m. '' '' @ pop_mechanism_str m) mechs))
     else []) @
    (if stls then pop_line ''STLS'' else []) @
    concat (map pop_line
      [''TOP'', ''RESP-CODES'', ''PIPELINING'', ''EXPIRE NEVER'', ''UIDL'', ''UTF8'', ''IMPLEMENTATION Stalwart Server'']) @
    pop_line ''.''"

section \<open>Mailboxes\<close>

record pop_message =
  pm_id :: u32
  pm_uid :: u32
  pm_size :: u32
  pm_deleted :: bool

record pop_mailbox =
  pb_messages :: "pop_message list"
  pb_account_id :: u32
  pb_uid_validity :: u32
  pb_total :: u32
  pb_size :: u32

definition pop_mailbox_default :: pop_mailbox where
  "pop_mailbox_default = \<lparr>pb_messages = [], pb_account_id = 0, pb_uid_validity = 0, pb_total = 0, pb_size = 0\<rparr>"

text \<open>What the cache of an account holds: its messages with the mailboxes they are in, and the inbox.\<close>

record cached_message =
  cm_document_id :: u32
  cm_size :: u32
  cm_mailboxes :: "(u32 \<times> u32) list"

record message_cache =
  cache_items :: "cached_message list"
  cache_inbox_validity :: "u32 option"

definition INBOX_ID :: u32 where "INBOX_ID = 0"

definition inbox_entry :: "cached_message \<Rightarrow> (u32 \<times> u32 \<times> u32) option" where
  "inbox_entry m =
    map_option (\<lambda>(_, uid). (uid, cm_document_id m, cm_size m)) (find (\<lambda>(mailbox, _). mailbox = INBOX_ID) (cm_mailboxes m))"

text \<open>A \<open>BTreeMap\<close>: sorted by key, a later value takes the place of an earlier one.\<close>

fun insert_uid :: "u32 \<times> 'v \<Rightarrow> (u32 \<times> 'v) list \<Rightarrow> (u32 \<times> 'v) list" where
  "insert_uid (k, v) [] = [(k, v)]"
| "insert_uid (k, v) ((k', v') # m) =
    (if k < k' then (k, v) # (k', v') # m else if k = k' then (k, v) # m else (k', v') # insert_uid (k, v) m)"

definition mailbox_of_cache :: "u32 \<Rightarrow> message_cache \<Rightarrow> pop_mailbox" where
  "mailbox_of_cache account c =
    (if cache_items c = [] then pop_mailbox_default
     else
       (let m = fold insert_uid (List.map_filter inbox_entry (cache_items c)) [] in
        \<lparr>pb_messages = map (\<lambda>(uid, id, sz). \<lparr>pm_id = id, pm_uid = uid, pm_size = sz, pm_deleted = False\<rparr>) m,
         pb_account_id = account, pb_uid_validity = (case cache_inbox_validity c of Some v \<Rightarrow> v | None \<Rightarrow> 0),
         pb_total = word_of_nat (length m), pb_size = sum_list (map (\<lambda>(_, _, sz). sz) m)\<rparr>))"

section \<open>Sessions\<close>

datatype pop_permission = Pop3Authenticate | Pop3List | Pop3Uidl | Pop3Stat | Pop3Retr | Pop3Dele

record pop_token =
  pt_primary_id :: u32
  pt_permission :: "pop_permission \<Rightarrow> bool"

text \<open>The flag says whether the session holds a slot of the concurrency limit of its account.\<close>

datatype pop_login = PopNotAuthenticated u32 "string option" | PopAuthenticated pop_mailbox pop_token bool

record pop_session =
  pop_receiver :: pop_state
  pop_login_state :: pop_login
  pop_is_tls :: bool

datatype limiter_result = LimiterAllowed | LimiterForbidden | LimiterDisabled

record 'x pop_world =
  pop_lookup :: database
  pop_outside :: 'x

record 'x pop_env =
  from_utf8_lossy :: "string \<Rightarrow> string"
  allow_plain_auth :: bool
  imap_rate_requests :: "rate option"
  max_auth_failures :: u32
  pop_clock :: "'x pop_world \<Rightarrow> u64 \<times> 'x pop_world"
  pop_scanner_ban :: "'x pop_world \<Rightarrow> bool option \<times> 'x pop_world"
  pop_authenticate :: "credentials \<Rightarrow> 'x pop_world \<Rightarrow> (trc_error + pop_token) \<times> 'x pop_world"
  imap_request_allowed :: "pop_token \<Rightarrow> 'x pop_world \<Rightarrow> limiter_result \<times> 'x pop_world"
  cached_messages :: "u32 \<Rightarrow> 'x pop_world \<Rightarrow> (trc_error + message_cache) \<times> 'x pop_world"
  message_metadata :: "u32 \<Rightarrow> u32 \<Rightarrow> 'x pop_world \<Rightarrow> (trc_error + (string \<times> nat \<times> string) option) \<times> 'x pop_world"
  message_blob :: "string \<Rightarrow> 'x pop_world \<Rightarrow> (trc_error + string option) \<times> 'x pop_world"
  emails_delete :: "u32 \<Rightarrow> u32 list \<Rightarrow> 'x pop_world \<Rightarrow> (trc_error + bool) \<times> 'x pop_world"
  pop_base64_decode :: "string \<Rightarrow> string option"
  permission_name :: "pop_permission \<Rightarrow> string"

type_synonym 'x pop_sess = "pop_session \<times> 'x pop_world"

text \<open>A command answers and the session goes on, ends, or goes over to TLS; or it fails, or panics.\<close>

datatype pop_result = PopContinue | PopClose | PopUpgradeTls

datatype pop_answer = PopSays string pop_result | PopFails trc_error | PopPanics

definition assert_permission :: "'x pop_env \<Rightarrow> pop_token \<Rightarrow> pop_permission \<Rightarrow> trc_error option" where
  "assert_permission env t p =
    (if pt_permission t p then None else Some \<lparr>trc_kind = EvSecurity, trc_details = Some (permission_name env p)\<rparr>)"

text \<open>Commands on the mailbox: the source takes the state to be \<open>Authenticated\<close> and panics if it is not.\<close>

definition with_mailbox ::
  "'x pop_env \<Rightarrow> pop_permission \<Rightarrow> (pop_mailbox \<Rightarrow> 'x pop_sess \<Rightarrow> pop_answer \<times> 'x pop_sess) \<Rightarrow> 'x pop_sess \<Rightarrow> pop_answer \<times> 'x pop_sess" where
  "with_mailbox env p f x =
    (case pop_login_state (fst x) of
       PopNotAuthenticated _ _ \<Rightarrow> (PopPanics, x)
     | PopAuthenticated m t _ \<Rightarrow> (case assert_permission env t p of Some e \<Rightarrow> (PopFails e, x) | None \<Rightarrow> f m x))"

text \<open>\<open>saturating_sub(1)\<close>: the numbers 0 and 1 both are the first message.\<close>

definition message_index :: "u32 \<Rightarrow> nat" where
  "message_index msg = unat msg - 1"

definition message_at :: "pop_mailbox \<Rightarrow> u32 \<Rightarrow> pop_message option" where
  "message_at m msg = (if message_index msg < length (pb_messages m) then Some (pb_messages m ! message_index msg) else None)"

definition show_u32 :: "u32 \<Rightarrow> string" where
  "show_u32 n = show_nat (unat n)"

abbreviation ok_answer :: "string \<Rightarrow> 'x pop_sess \<Rightarrow> pop_answer \<times> 'x pop_sess" where
  "ok_answer t x \<equiv> (PopSays (pop_ok t) PopContinue, x)"

definition handle_list :: "'x pop_env \<Rightarrow> u32 option \<Rightarrow> 'x pop_sess \<Rightarrow> pop_answer \<times> 'x pop_sess" where
  "handle_list env msg = with_mailbox env Pop3List (\<lambda>m x.
    case msg of
      Some n \<Rightarrow>
        (case message_at m n of
           Some r \<Rightarrow> ok_answer (show_u32 n @ '' '' @ show_u32 (pm_size r)) x
         | None \<Rightarrow> (PopFails (pop_failure ''No such message.''), x))
    | None \<Rightarrow> (PopSays (pop_list_response (map (\<lambda>r. show_u32 (pm_size r)) (pb_messages m))) PopContinue, x))"

definition unique_id :: "pop_mailbox \<Rightarrow> pop_message \<Rightarrow> string" where
  "unique_id m r = show_u32 (pb_uid_validity m) @ show_u32 (pm_uid r)"

definition handle_uidl :: "'x pop_env \<Rightarrow> u32 option \<Rightarrow> 'x pop_sess \<Rightarrow> pop_answer \<times> 'x pop_sess" where
  "handle_uidl env msg = with_mailbox env Pop3Uidl (\<lambda>m x.
    case msg of
      Some n \<Rightarrow>
        (case message_at m n of
           Some r \<Rightarrow> ok_answer (show_u32 n @ '' '' @ unique_id m r) x
         | None \<Rightarrow> (PopFails (pop_failure ''No such message.''), x))
    | None \<Rightarrow> (PopSays (pop_list_response (map (unique_id m) (pb_messages m))) PopContinue, x))"

definition handle_stat :: "'x pop_env \<Rightarrow> 'x pop_sess \<Rightarrow> pop_answer \<times> 'x pop_sess" where
  "handle_stat env = with_mailbox env Pop3Stat (\<lambda>m. ok_answer (show_u32 (pb_total m) @ '' '' @ show_u32 (pb_size m)))"

definition handle_fetch :: "'x pop_env \<Rightarrow> u32 \<Rightarrow> u32 option \<Rightarrow> 'x pop_sess \<Rightarrow> pop_answer \<times> 'x pop_sess" where
  "handle_fetch env msg lines = with_mailbox env Pop3Retr (\<lambda>m (s, w).
    let gone = pop_failure ''Failed to fetch message. Perhaps another session deleted it?'' in
    case message_at m msg of
      None \<Rightarrow> (PopFails (pop_failure ''No such message.''), s, w)
    | Some r \<Rightarrow>
       (case message_metadata env (pb_account_id m) (pm_id r) w of
          (Inl e, w) \<Rightarrow> (PopFails e, s, w)
        | (Inr None, w) \<Rightarrow> (PopFails gone, s, w)
        | (Inr (Some (raw_headers, body_offset, hash)), w) \<Rightarrow>
           (case message_blob env hash w of
              (Inl e, w) \<Rightarrow> (PopFails e, s, w)
            | (Inr None, w) \<Rightarrow> (PopFails gone, s, w)
            | (Inr (Some bytes), w) \<Rightarrow>
               (PopSays (pop_message_response (raw_headers @ drop body_offset bytes) (case lines of Some n \<Rightarrow> n | None \<Rightarrow> 0)) PopContinue, s, w))))"

definition set_messages :: "pop_message list \<Rightarrow> pop_session \<Rightarrow> pop_session" where
  "set_messages ms s =
    (case pop_login_state s of
       PopAuthenticated m t f \<Rightarrow> s\<lparr>pop_login_state := PopAuthenticated (m\<lparr>pb_messages := ms\<rparr>) t f\<rparr>
     | PopNotAuthenticated _ _ \<Rightarrow> s)"

fun mark_deleted :: "u32 list \<Rightarrow> pop_message list \<Rightarrow> string \<times> pop_message list" where
  "mark_deleted [] ms = ([], ms)"
| "mark_deleted (n # ns) ms =
    (let i = message_index n in
     if i < length ms then
       (if \<not> pm_deleted (ms ! i) then
          apfst ((@) (pop_ok (''message '' @ show_u32 n @ '' deleted''))) (mark_deleted ns (ms[i := (ms ! i)\<lparr>pm_deleted := True\<rparr>]))
        else apfst ((@) (pop_err (''message '' @ show_u32 n @ '' already deleted''))) (mark_deleted ns ms))
     else apfst ((@) (pop_err ''no such message'')) (mark_deleted ns ms))"

definition handle_dele :: "'x pop_env \<Rightarrow> u32 list \<Rightarrow> 'x pop_sess \<Rightarrow> pop_answer \<times> 'x pop_sess" where
  "handle_dele env msgs = with_mailbox env Pop3Dele (\<lambda>m (s, w).
    case mark_deleted msgs (pb_messages m) of (out, ms) \<Rightarrow> (PopSays out PopContinue, set_messages ms s, w))"

text \<open>RSET asks for no permission.\<close>

definition handle_rset :: "'x pop_sess \<Rightarrow> pop_answer \<times> 'x pop_sess" where
  "handle_rset x =
    (case pop_login_state (fst x) of
       PopNotAuthenticated _ _ \<Rightarrow> (PopPanics, x)
     | PopAuthenticated m _ _ \<Rightarrow>
        ok_answer (show_nat (length (filter pm_deleted (pb_messages m))) @ '' messages undeleted'')
          (set_messages (map (\<lambda>r. r\<lparr>pm_deleted := False\<rparr>) (pb_messages m)) (fst x), snd x))"

definition handle_quit :: "'x pop_env \<Rightarrow> 'x pop_sess \<Rightarrow> pop_answer \<times> 'x pop_sess" where
  "handle_quit env = (\<lambda>(s, w).
    case pop_login_state s of
      PopNotAuthenticated _ _ \<Rightarrow> (PopSays (pop_ok ''Stalwart POP3 bids you farewell.'') PopClose, s, w)
    | PopAuthenticated m _ _ \<Rightarrow>
       (let deleted = remdups (map pm_id (filter pm_deleted (pb_messages m))) in
        if deleted = [] then (PopSays (pop_ok ''Stalwart POP3 bids you farewell (no messages deleted).'') PopClose, s, w)
        else
          (case emails_delete env (pb_account_id m) deleted w of
             (Inl e, w) \<Rightarrow> (PopFails e, s, w)
           | (Inr True, w) \<Rightarrow>
              (PopSays (pop_ok (''Stalwart POP3 bids you farewell ('' @ show_nat (length deleted) @ '' messages deleted).'')) PopClose, s, w)
           | (Inr False, w) \<Rightarrow> (PopSays (pop_err ''Some messages could not be deleted'') PopClose, s, w))))"

definition handle_capa :: "'x pop_env \<Rightarrow> 'x pop_sess \<Rightarrow> pop_answer \<times> 'x pop_sess" where
  "handle_capa env x =
    (PopSays
       (pop_capability_response
          (if pop_is_tls (fst x) \<or> allow_plain_auth env then [MechPlain, MechOAuthBearer, MechXOauth2] else [MechOAuthBearer, MechXOauth2])
          (\<not> pop_is_tls (fst x)))
       PopContinue, x)"

section \<open>Logins\<close>

definition fetch_mailbox :: "'x pop_env \<Rightarrow> u32 \<Rightarrow> 'x pop_world \<Rightarrow> (trc_error + pop_mailbox) \<times> 'x pop_world" where
  "fetch_mailbox env account w = (case cached_messages env account w of (r, w) \<Rightarrow> (map_sum id (mailbox_of_cache account) r, w))"

definition login_failed :: "'x pop_env \<Rightarrow> trc_error \<Rightarrow> pop_session \<Rightarrow> trc_error \<times> pop_session" where
  "login_failed env e s =
    (if trc_kind e = EvAuthFailed then
       (case pop_login_state s of
          PopNotAuthenticated n user \<Rightarrow>
            if n < max_auth_failures env then (e, s\<lparr>pop_login_state := PopNotAuthenticated (n + 1) user\<rparr>)
            else (\<lparr>trc_kind = EvAuthTooManyAttempts, trc_details = None\<rparr>, s)
        | PopAuthenticated _ _ _ \<Rightarrow> (\<lparr>trc_kind = EvAuthTooManyAttempts, trc_details = None\<rparr>, s))
     else (e, s))"

definition handle_auth :: "'x pop_env \<Rightarrow> credentials \<Rightarrow> 'x pop_sess \<Rightarrow> pop_answer \<times> 'x pop_sess" where
  "handle_auth env c = (\<lambda>(s, w).
    case pop_authenticate env c w of
      (Inl e, w) \<Rightarrow> (case login_failed env e s of (e, s) \<Rightarrow> (PopFails e, s, w))
    | (Inr t, w) \<Rightarrow>
       (case assert_permission env t Pop3Authenticate of
          Some e \<Rightarrow> (PopFails e, s, w)
        | None \<Rightarrow>
           (case imap_request_allowed env t w of
              (LimiterForbidden, w) \<Rightarrow> (PopFails \<lparr>trc_kind = EvConcurrentRequest, trc_details = None\<rparr>, s, w)
            | (l, w) \<Rightarrow>
               (case fetch_mailbox env (pt_primary_id t) w of
                  (Inl e, w) \<Rightarrow> (PopFails e, s, w)
                | (Inr m, w) \<Rightarrow>
                   ok_answer ''Authentication successful'' (s\<lparr>pop_login_state := PopAuthenticated m t (l = LimiterAllowed)\<rparr>, w)))))"

text \<open>Without parameters the parser is set to take the next line as the parameter of the command.\<close>

definition handle_sasl :: "'x pop_env \<Rightarrow> pop_mechanism \<Rightarrow> string list \<Rightarrow> 'x pop_sess \<Rightarrow> pop_answer \<times> 'x pop_sess" where
  "handle_sasl env mech ps x =
    (if mech = MechPlain \<or> mech = MechOAuthBearer \<or> mech = MechXOauth2 then
       (if ps \<noteq> [] then
          (case Option.bind (pop_base64_decode env (last ps))
                  (\<lambda>c. if mech = MechPlain then sasl_decode_challenge_plain c else sasl_decode_challenge_oauth c) of
             None \<Rightarrow> (PopFails \<lparr>trc_kind = EvAuthOther, trc_details = Some ''Invalid SASL challenge''\<rparr>, x)
           | Some c \<Rightarrow> handle_auth env c x)
        else
          (PopSays (pop_line ''+'') PopContinue,
           (fst x)\<lparr>pop_receiver := PopArgument (PopAuth (pop_mechanism_str mech) []) 1 True\<rparr>, snd x))
     else (PopFails \<lparr>trc_kind = EvAuthOther, trc_details = Some ''Authentication mechanism not supported.''\<rparr>, x))"

section \<open>Which commands are allowed\<close>

definition KV_RATE_LIMIT_IMAP :: u8 where "KV_RATE_LIMIT_IMAP = 10"

datatype pop_validity = PopValid | PopInvalid trc_error | PopValidationPanics

fun store_error_message :: "store_error \<Rightarrow> string" where
  "store_error_message AssertValueFailed = ''Another process has modified the value''"
| "store_error_message DataCorruption = ''Data corruption''"
| "store_error_message NotFound = ''Not found''"
| "store_error_message UnexpectedError = ''Unexpected error''"
| "store_error_message _ = ''Store error''"

definition rate_check :: "'x pop_env \<Rightarrow> u32 \<Rightarrow> 'x pop_world \<Rightarrow> pop_validity \<times> 'x pop_world" where
  "rate_check env account w =
    (case imap_rate_requests env of
       None \<Rightarrow> (PopValid, w)
     | Some rt \<Rightarrow>
        (case pop_clock env w of
           (now, w) \<Rightarrow>
             (case is_rate_allowed now now KV_RATE_LIMIT_IMAP (be32 account) rt True (pop_lookup w) of
                None \<Rightarrow> (PopValidationPanics, w)
              | Some (Inl e) \<Rightarrow> (PopInvalid \<lparr>trc_kind = EvOther (store_error_message e), trc_details = None\<rparr>, w)
              | Some (Inr (None, d)) \<Rightarrow> (PopValid, w\<lparr>pop_lookup := d\<rparr>)
              | Some (Inr (Some _, d)) \<Rightarrow> (PopInvalid \<lparr>trc_kind = EvTooManyRequests, trc_details = None\<rparr>, w\<lparr>pop_lookup := d\<rparr>))))"

definition plain_login_check :: "'x pop_env \<Rightarrow> bool \<Rightarrow> pop_session \<Rightarrow> pop_validity" where
  "plain_login_check env is_pass s =
    (case pop_login_state s of
       PopNotAuthenticated _ user \<Rightarrow>
         if pop_is_tls s \<or> allow_plain_auth env then
           (if \<not> is_pass \<or> user \<noteq> None then PopValid else PopInvalid (pop_failure ''Username was not provided.''))
         else PopInvalid (pop_failure ''Cannot authenticate over plain-text.'')
     | PopAuthenticated _ _ _ \<Rightarrow> PopInvalid (pop_failure ''Already authenticated.''))"

definition mailbox_check :: "'x pop_env \<Rightarrow> 'x pop_sess \<Rightarrow> pop_validity \<times> 'x pop_world" where
  "mailbox_check env x =
    (case pop_login_state (fst x) of
       PopAuthenticated m _ _ \<Rightarrow> rate_check env (pb_account_id m) (snd x)
     | PopNotAuthenticated _ _ \<Rightarrow> (PopInvalid (pop_failure ''Not authenticated.''), snd x))"

fun validate_request :: "'x pop_env \<Rightarrow> pop_request \<Rightarrow> 'x pop_sess \<Rightarrow> pop_validity \<times> 'x pop_world" where
  "validate_request env PopCapa x = (PopValid, snd x)"
| "validate_request env PopQuit x = (PopValid, snd x)"
| "validate_request env PopNoop x = (PopValid, snd x)"
| "validate_request env (PopUser _) x = (plain_login_check env False (fst x), snd x)"
| "validate_request env (PopPass _) x = (plain_login_check env True (fst x), snd x)"
| "validate_request env (PopApop _ _) x = (plain_login_check env False (fst x), snd x)"
| "validate_request env (PopAuth mech _) x =
    (if mech = MechPlain then (plain_login_check env False (fst x), snd x)
     else (case pop_login_state (fst x) of
             PopNotAuthenticated _ _ \<Rightarrow> (PopValid, snd x)
           | PopAuthenticated _ _ _ \<Rightarrow> (PopInvalid (pop_failure ''Already authenticated.''), snd x)))"
| "validate_request env PopStls x =
    (if \<not> pop_is_tls (fst x) then (PopValid, snd x) else (PopInvalid (pop_failure ''Already in TLS mode.''), snd x))"
| "validate_request env (PopList _) x = mailbox_check env x"
| "validate_request env (PopRetr _) x = mailbox_check env x"
| "validate_request env (PopDele _) x = mailbox_check env x"
| "validate_request env (PopDeleMany _) x = mailbox_check env x"
| "validate_request env (PopTop _ _) x = mailbox_check env x"
| "validate_request env (PopUidl _) x = mailbox_check env x"
| "validate_request env PopUtf8 x = mailbox_check env x"
| "validate_request env PopStat x = mailbox_check env x"
| "validate_request env PopRset x = mailbox_check env x"

section \<open>Requests\<close>

fun pop_execute :: "'x pop_env \<Rightarrow> pop_request \<Rightarrow> 'x pop_sess \<Rightarrow> pop_answer \<times> 'x pop_sess" where
  "pop_execute env (PopUser name) (s, w) =
    (case pop_login_state s of
       PopNotAuthenticated n _ \<Rightarrow> ok_answer (name @ '' is a valid mailbox'') (s\<lparr>pop_login_state := PopNotAuthenticated n (Some name)\<rparr>, w)
     | PopAuthenticated _ _ _ \<Rightarrow> (PopPanics, s, w))"
| "pop_execute env (PopPass secret) (s, w) =
    (case pop_login_state s of
       PopNotAuthenticated n (Some user) \<Rightarrow>
         handle_auth env (CredPlain user secret) (s\<lparr>pop_login_state := PopNotAuthenticated n None\<rparr>, w)
     | _ \<Rightarrow> (PopPanics, s, w))"
| "pop_execute env PopQuit x = handle_quit env x"
| "pop_execute env PopStat x = handle_stat env x"
| "pop_execute env (PopList msg) x = handle_list env msg x"
| "pop_execute env (PopRetr msg) x = handle_fetch env msg None x"
| "pop_execute env (PopDele msg) x = handle_dele env [msg] x"
| "pop_execute env (PopDeleMany msgs) x = handle_dele env msgs x"
| "pop_execute env (PopTop msg n) x = handle_fetch env msg (Some n) x"
| "pop_execute env (PopUidl msg) x = handle_uidl env msg x"
| "pop_execute env PopNoop x = ok_answer ''NOOP'' x"
| "pop_execute env PopRset x = handle_rset x"
| "pop_execute env PopCapa x = handle_capa env x"
| "pop_execute env PopStls x = (PopSays (pop_ok ''Begin TLS negotiation now'') PopUpgradeTls, x)"
| "pop_execute env PopUtf8 x = ok_answer ''UTF8 enabled'' x"
| "pop_execute env (PopAuth mech ps) x = handle_sasl env mech ps x"
| "pop_execute env (PopApop _ _) x = (PopFails (pop_failure ''APOP not supported.''), x)"

text \<open>DELE commands that follow each other become one; the list is kept with its last request first.\<close>

fun group_request :: "(string + pop_request) list \<Rightarrow> pop_request \<Rightarrow> (string + pop_request) list" where
  "group_request (Inr (PopDeleMany msgs) # rs) (PopDele msg) = Inr (PopDeleMany (msgs @ [msg])) # rs"
| "group_request (Inr (PopDele other) # rs) (PopDele msg) = Inr (PopDeleMany [other, msg]) # rs"
| "group_request rs rq = Inr rq # rs"

text \<open>\<open>None\<close>: the client is banned for what it sends before a login, and the session ends.\<close>

fun pop_collect ::
  "'x pop_env \<Rightarrow> bool \<Rightarrow> (string + pop_request) list \<Rightarrow> (string + pop_request) list \<Rightarrow> 'x pop_world
    \<Rightarrow> (string + pop_request) list option \<times> 'x pop_world" where
  "pop_collect env unauth acc [] w = (Some (rev acc), w)"
| "pop_collect env unauth acc (Inr rq # rs) w = pop_collect env unauth (group_request acc rq) rs w"
| "pop_collect env unauth acc (Inl e # rs) w =
    (if unauth then
       (case pop_scanner_ban env w of
          (Some True, w) \<Rightarrow> (None, w)
        | (_, w) \<Rightarrow> pop_collect env unauth (Inl e # acc) rs w)
     else pop_collect env unauth (Inl e # acc) rs w)"

definition pop_request_answer :: "'x pop_env \<Rightarrow> string + pop_request \<Rightarrow> 'x pop_sess \<Rightarrow> pop_answer \<times> 'x pop_sess" where
  "pop_request_answer env rq x =
    (case rq of
       Inl e \<Rightarrow> (PopFails (pop_failure e), x)
     | Inr c \<Rightarrow>
        (case validate_request env c x of
           (PopValid, w) \<Rightarrow> pop_execute env c (fst x, w)
         | (PopInvalid e, w) \<Rightarrow> (PopFails e, fst x, w)
         | (PopValidationPanics, w) \<Rightarrow> (PopPanics, fst x, w)))"

text \<open>What happens next to the connection, and what has been written.\<close>

datatype pop_next = PopGoesOn | PopEnds | PopTls | PopCrashes

fun pop_run :: "'x pop_env \<Rightarrow> (string + pop_request) list \<Rightarrow> 'x pop_sess \<Rightarrow> pop_next \<times> string list \<times> 'x pop_sess" where
  "pop_run env [] x = (PopGoesOn, [], x)"
| "pop_run env (rq # rqs) x =
    (case pop_request_answer env rq x of
       (PopSays t PopContinue, x) \<Rightarrow> (case pop_run env rqs x of (r, out, x) \<Rightarrow> (r, t # out, x))
     | (PopSays t PopClose, x) \<Rightarrow> (PopEnds, [t], x)
     | (PopSays t PopUpgradeTls, x) \<Rightarrow> (PopTls, [t], x)
     | (PopPanics, x) \<Rightarrow> (PopCrashes, [], x)
     | (PopFails e, x) \<Rightarrow>
        (let t = (if should_write_err e then [error_response e] else []) in
         if must_disconnect e then (PopEnds, t, x) else (case pop_run env rqs x of (r, out, x) \<Rightarrow> (r, t @ out, x))))"

definition is_unauthenticated :: "pop_session \<Rightarrow> bool" where
  "is_unauthenticated s = (case pop_login_state s of PopNotAuthenticated _ _ \<Rightarrow> True | PopAuthenticated _ _ _ \<Rightarrow> False)"

definition pop_ingest :: "'x pop_env \<Rightarrow> string \<Rightarrow> 'x pop_sess \<Rightarrow> pop_next \<times> string list \<times> 'x pop_sess" where
  "pop_ingest env bytes = (\<lambda>(s, w).
    case pop_requests (from_utf8_lossy env) (pop_receiver s) bytes of
      (rqs, st) \<Rightarrow>
        (case pop_collect env (is_unauthenticated s) [] rqs w of
           (None, w) \<Rightarrow> (PopEnds, [], s, w)
         | (Some rqs, w) \<Rightarrow> pop_run env rqs (s\<lparr>pop_receiver := st\<rparr>, w)))"

section \<open>Connections\<close>

datatype pop_event = PopRead string | PopReadError | PopTimeout | PopShutdown

fun pop_conn_step :: "'x pop_env \<Rightarrow> pop_event \<Rightarrow> 'x pop_sess \<Rightarrow> pop_next \<times> string list \<times> 'x pop_sess" where
  "pop_conn_step env (PopRead bytes) x = (if bytes = [] then (PopEnds, [], x) else pop_ingest env bytes x)"
| "pop_conn_step env PopReadError x = (PopEnds, [], x)"
| "pop_conn_step env PopTimeout x = (PopEnds, [pop_err ''Connection timed out.''], x)"
| "pop_conn_step env PopShutdown x = (PopEnds, [pop_line ''* BYE Server shutting down.''], x)"

text \<open>The events of a connection until it ends or changes to TLS; those after that are given back.\<close>

fun pop_handle_conn ::
  "'x pop_env \<Rightarrow> pop_event list \<Rightarrow> 'x pop_sess \<Rightarrow> pop_next \<times> string list \<times> 'x pop_sess \<times> pop_event list" where
  "pop_handle_conn env [] x = (PopGoesOn, [], x, [])"
| "pop_handle_conn env (ev # evs) x =
    (case pop_conn_step env ev x of
       (PopGoesOn, out, x) \<Rightarrow> (case pop_handle_conn env evs x of (r, out', x, evs) \<Rightarrow> (r, out @ out', x, evs))
     | (r, out, x) \<Rightarrow> (r, out, x, evs))"

definition pop_session_new :: "bool \<Rightarrow> pop_session" where
  "pop_session_new tls = \<lparr>pop_receiver = PopInit, pop_login_state = PopNotAuthenticated 0 None, pop_is_tls = tls\<rparr>"

definition pop_into_tls :: "pop_session \<Rightarrow> pop_session" where
  "pop_into_tls s = s\<lparr>pop_is_tls := True\<rparr>"

text \<open>\<open>SessionManager::handle\<close>; the handshake of the upgrade is the last argument.\<close>

definition pop_handle ::
  "'x pop_env \<Rightarrow> bool \<Rightarrow> bool \<Rightarrow> pop_event list \<Rightarrow> bool \<Rightarrow> 'x pop_world \<Rightarrow> pop_next \<times> string list \<times> 'x pop_sess" where
  "pop_handle env tls acceptor_tls evs handshake w =
    (case pop_handle_conn env evs (pop_session_new tls, w) of
       (PopTls, out, x, evs) \<Rightarrow>
         if acceptor_tls \<and> handshake then
           (case pop_handle_conn env evs (pop_into_tls (fst x), snd x) of
              (r, out', x, _) \<Rightarrow> (if r = PopTls then PopEnds else r, pop_line ''+OK Stalwart POP3 at your service.'' # out @ out', x))
         else (PopEnds, pop_line ''+OK Stalwart POP3 at your service.'' # out, x)
     | (r, out, x, _) \<Rightarrow> (r, pop_line ''+OK Stalwart POP3 at your service.'' # out, x))"

end
