(* ===== verification/Pop3_Properties.thy ===== *)
theory Pop3_Properties
  imports Pop3_Session Smtp_Client
begin

text \<open>
  What sessions of POP3 guarantee: they never panic, the numbers of messages stay what they are from the
  login to the end, only QUIT removes messages and only those marked, logins can not be tried without end, and
  messages are read back as they were written.
\<close>

section \<open>From requests to connections\<close>

definition ends_session :: "pop_answer \<Rightarrow> bool" where
  "ends_session a =
    (case a of PopSays t r \<Rightarrow> r = PopClose | PopFails e \<Rightarrow> must_disconnect e | PopPanics \<Rightarrow> True)"

text \<open>
  What requests establish holds between the beginning and the end of a connection: \<open>R\<close> is kept by requests
  after which the session goes on, by the parser, by the check for scanners and by the change to TLS; \<open>E\<close>
  is what any request may do, the last one included.
\<close>

locale pop_progress =
  fixes env :: "'x pop_env" and R E :: "'x pop_sess \<Rightarrow> 'x pop_sess \<Rightarrow> bool"
  assumes same: "R x x"
    and trans: "R x y \<Longrightarrow> R y z \<Longrightarrow> R x z"
    and final: "R x y \<Longrightarrow> E x y"
    and after: "R x y \<Longrightarrow> E y z \<Longrightarrow> E x z"
    and request: "pop_request_answer env rq x = (a, y) \<Longrightarrow> \<not> ends_session a \<Longrightarrow> R x y"
    and last_request: "pop_request_answer env rq x = (a, y) \<Longrightarrow> E x y"
    and receiver: "R (s, w) (s\<lparr>pop_receiver := st\<rparr>, w)"
    and scanner: "pop_scanner_ban env w = (b, w') \<Longrightarrow> R (s, w) (s, w')"
    and tls: "R (s, w) (pop_into_tls s, w)"
begin

lemma run: "pop_run env rqs x = (r, out, y) \<Longrightarrow> (r = PopGoesOn \<or> r = PopTls \<longrightarrow> R x y) \<and> E x y"
proof (induction rqs arbitrary: x r out)
  case (Cons rq rqs)
  obtain a x1 where a: "pop_request_answer env rq x = (a, x1)" by (cases "pop_request_answer env rq x")
  have "y = x1 \<and> (r = PopGoesOn \<or> r = PopTls \<longrightarrow> \<not> ends_session a) \<or>
      \<not> ends_session a \<and> (\<exists>out. pop_run env rqs x1 = (r, out, y))"
    using Cons.prems a
    by (auto simp: Let_def ends_session_def split: pop_answer.splits pop_result.splits if_splits prod.splits)
  then show ?case using request [OF a] last_request [OF a] Cons.IH trans after by blast
qed (simp add: same final)

lemma collect: "pop_collect env u acc rqs w = (r, w') \<Longrightarrow> R (s, w) (s, w')"
proof (induction rqs arbitrary: acc w)
  case (Cons rq rqs)
  show ?case
  proof (cases rq)
    case (Inl e)
    obtain b w1 where b: "pop_scanner_ban env w = (b, w1)" by (cases "pop_scanner_ban env w")
    have "w' = w1 \<or> (\<exists>acc. pop_collect env u acc rqs w1 = (r, w')) \<or> (\<exists>acc. pop_collect env u acc rqs w = (r, w'))"
      using Cons.prems Inl b by (auto split: if_splits option.splits bool.splits)
    then show ?thesis using Cons.IH scanner [OF b] trans same by blast
  next
    case (Inr c)
    then show ?thesis using Cons by simp
  qed
qed (simp add: same)

lemma ingest: "pop_ingest env bytes x = (r, out, y) \<Longrightarrow> (r = PopGoesOn \<or> r = PopTls \<longrightarrow> R x y) \<and> E x y"
proof -
  assume i: "pop_ingest env bytes x = (r, out, y)"
  obtain s w where x: "x = (s, w)" by (cases x)
  obtain rqs st where p: "pop_requests (from_utf8_lossy env) (pop_receiver s) bytes = (rqs, st)"
    by (cases "pop_requests (from_utf8_lossy env) (pop_receiver s) bytes")
  obtain c w1 where c: "pop_collect env (is_unauthenticated s) [] rqs w = (c, w1)"
    by (cases "pop_collect env (is_unauthenticated s) [] rqs w")
  have w1: "R (s, w) (s, w1)" by (rule collect [OF c])
  show ?thesis
  proof (cases c)
    case None
    with i c p have "r = PopEnds" "y = (s, w1)" by (auto simp: pop_ingest_def x)
    with w1 final show ?thesis unfolding x by auto
  next
    case (Some rqs')
    with i c p have "pop_run env rqs' (s\<lparr>pop_receiver := st\<rparr>, w1) = (r, out, y)" by (auto simp: pop_ingest_def x)
    from run [OF this] show ?thesis unfolding x using trans [OF w1 receiver] after [OF trans [OF w1 receiver]] trans by blast
  qed
qed

lemma conn_step: "pop_conn_step env ev x = (r, out, y) \<Longrightarrow> (r = PopGoesOn \<or> r = PopTls \<longrightarrow> R x y) \<and> E x y"
  using same final by (cases ev) (auto split: if_splits dest: ingest)

lemma conn: "pop_handle_conn env evs x = (r, out, y, rest) \<Longrightarrow> (r = PopGoesOn \<or> r = PopTls \<longrightarrow> R x y) \<and> E x y"
proof (induction evs arbitrary: x r out)
  case (Cons ev evs)
  obtain r1 out1 x1 where s: "pop_conn_step env ev x = (r1, out1, x1)" by (cases "pop_conn_step env ev x")
  have "r1 = r \<and> y = x1 \<or> r1 = PopGoesOn \<and> (\<exists>out. pop_handle_conn env evs x1 = (r, out, y, rest))"
    using Cons.prems s by (cases r1) (auto split: prod.splits)
  then show ?case using conn_step [OF s] Cons.IH trans after by blast
qed (simp add: same final)

lemma handle: "pop_handle env tls acceptor evs hs w = (r, out, y) \<Longrightarrow> E (pop_session_new tls, w) y"
proof -
  assume h: "pop_handle env tls acceptor evs hs w = (r, out, y)"
  obtain r1 out1 x1 rest where c: "pop_handle_conn env evs (pop_session_new tls, w) = (r1, out1, x1, rest)"
    by (cases "pop_handle_conn env evs (pop_session_new tls, w)")
  have "y = x1 \<or> r1 = PopTls \<and> (\<exists>r out rest'. pop_handle_conn env rest (pop_into_tls (fst x1), snd x1) = (r, out, y, rest'))"
    using h c by (cases r1) (auto simp: pop_handle_def split: if_splits prod.splits)
  moreover have "R x1 (pop_into_tls (fst x1), snd x1)" using tls [of "fst x1" "snd x1"] by simp
  ultimately show ?thesis using conn [OF c] conn trans after by blast
qed

end

text \<open>A relation that every request keeps.\<close>

locale pop_relation =
  fixes env :: "'x pop_env" and R :: "'x pop_sess \<Rightarrow> 'x pop_sess \<Rightarrow> bool"
  assumes same: "R x x"
    and trans: "R x y \<Longrightarrow> R y z \<Longrightarrow> R x z"
    and request: "pop_request_answer env rq x = (a, y) \<Longrightarrow> R x y"
    and receiver: "R (s, w) (s\<lparr>pop_receiver := st\<rparr>, w)"
    and scanner: "pop_scanner_ban env w = (b, w') \<Longrightarrow> R (s, w) (s, w')"
    and tls: "R (s, w) (pop_into_tls s, w)"

sublocale pop_relation \<subseteq> rel: pop_progress env R R
  by unfold_locales (use same trans request receiver scanner tls in blast)+

section \<open>The mailbox of a session\<close>

definition message_core :: "pop_message \<Rightarrow> u32 \<times> u32 \<times> u32" where
  "message_core r = (pm_id r, pm_uid r, pm_size r)"

definition same_maildrop :: "pop_mailbox \<Rightarrow> pop_mailbox \<Rightarrow> bool" where
  "same_maildrop m m' \<longleftrightarrow>
    map message_core (pb_messages m') = map message_core (pb_messages m) \<and> pb_account_id m' = pb_account_id m \<and>
    pb_uid_validity m' = pb_uid_validity m \<and> pb_total m' = pb_total m \<and> pb_size m' = pb_size m"

definition keeps_maildrop :: "'x pop_sess \<Rightarrow> 'x pop_sess \<Rightarrow> bool" where
  "keeps_maildrop x y \<longleftrightarrow>
    (\<forall>m t f. pop_login_state (fst x) = PopAuthenticated m t f \<longrightarrow>
      (\<exists>m'. pop_login_state (fst y) = PopAuthenticated m' t f \<and> same_maildrop m m'))"

lemma maildrop_refl [simp]: "same_maildrop m m"
  by (simp add: same_maildrop_def)

lemma keeps_same: "pop_login_state (fst y) = pop_login_state (fst x) \<Longrightarrow> keeps_maildrop x y"
  by (simp add: keeps_maildrop_def)

lemma keeps_trans: "keeps_maildrop x y \<Longrightarrow> keeps_maildrop y z \<Longrightarrow> keeps_maildrop x z"
  by (fastforce simp: keeps_maildrop_def same_maildrop_def)

lemma mark_deleted_core: "map message_core (snd (mark_deleted ns ms)) = map message_core ms"
proof (induction ns arbitrary: ms)
  case (Cons n ns)
  have "map message_core (ms[i := (ms ! i)\<lparr>pm_deleted := True\<rparr>]) = map message_core ms" if "i < length ms" for i
    using that by (simp add: map_update message_core_def list_update_same_conv [THEN iffD2] nth_map)
  then show ?case using Cons by (simp add: Let_def apfst_def map_prod_def split: prod.splits) (metis snd_conv)+
qed simp

lemma set_messages_keeps:
  assumes "pop_login_state s = PopAuthenticated m t f" "map message_core ms = map message_core (pb_messages m)"
  shows "keeps_maildrop (s, w) (set_messages ms s, w')"
  using assms by (simp add: keeps_maildrop_def set_messages_def same_maildrop_def)

text \<open>The handlers that do not touch the state of the login.\<close>

lemma readers_keep_login:
  "handle_list env msg x = (a, y) \<Longrightarrow> pop_login_state (fst y) = pop_login_state (fst x)"
  "handle_uidl env msg x = (a, y) \<Longrightarrow> pop_login_state (fst y) = pop_login_state (fst x)"
  "handle_stat env x = (a, y) \<Longrightarrow> pop_login_state (fst y) = pop_login_state (fst x)"
  "handle_fetch env n lines x = (a, y) \<Longrightarrow> pop_login_state (fst y) = pop_login_state (fst x)"
  "handle_quit env x = (a, y) \<Longrightarrow> pop_login_state (fst y) = pop_login_state (fst x)"
  by (auto simp: handle_list_def handle_uidl_def handle_stat_def handle_fetch_def handle_quit_def with_mailbox_def Let_def
      split: pop_login.splits option.splits prod.splits sum.splits if_splits bool.splits)

section \<open>Messages\<close>

text \<open>What the client gets of a message: every line ends with CRLF, the last one too.\<close>

fun crlf_lines :: "char \<Rightarrow> string \<Rightarrow> string" where
  "crlf_lines prev [] = (if prev = ch_lf then [] else crlf)"
| "crlf_lines prev (b # s) = (if b = ch_lf \<and> prev \<noteq> ch_cr then [ch_cr] else []) @ [b] @ crlf_lines b s"

definition transparent_text :: "char \<Rightarrow> string \<Rightarrow> string" where
  "transparent_text prev s =
    (case pop_transparent 0 0 prev s of (w, l) \<Rightarrow> w @ (if l \<noteq> ch_lf then [ch_cr, ch_lf] else []))"

lemma transparent_text_Nil: "transparent_text prev [] = (if prev = ch_lf then [] else crlf)"
  by (simp add: transparent_text_def)

lemma transparent_text_Cons:
  "transparent_text prev (b # s) =
    (if b = ch_lf \<and> prev \<noteq> ch_cr then [ch_cr] else []) @ (if b = CHR ''.'' \<and> prev = ch_lf then ''.'' else []) @ [b]
      @ transparent_text b s"
  by (simp add: transparent_text_def Let_def apfst_def map_prod_def split: prod.splits)

lemma transparent_head: "take 1 s \<noteq> [ch_lf] \<Longrightarrow> take 1 (transparent_text ch_cr s @ x) \<noteq> [ch_lf]"
  by (cases s) (auto simp: transparent_text_Nil transparent_text_Cons)

lemma receive_transparent:
  "(prev = ch_cr \<longrightarrow> take 1 s \<noteq> [ch_lf]) \<Longrightarrow>
    receive_data (prev = ch_lf) (transparent_text prev s @ ''.'' @ crlf @ rest) = Some (crlf_lines prev s, rest)"
proof (induction "length s" arbitrary: prev s rule: less_induct)
  case less
  show ?case
  proof (cases s)
    case Nil
    then show ?thesis by (auto simp: transparent_text_Nil)
  next
    case (Cons b s')
    consider "b = ch_lf" | s'' where "b = ch_cr" "s' = ch_lf # s''" | "b = ch_cr" "take 1 s' \<noteq> [ch_lf]" | "b \<noteq> ch_lf" "b \<noteq> ch_cr"
      by (cases s') auto
    then show ?thesis
    proof cases
      case 1
      with less.prems Cons have "prev \<noteq> ch_cr" by auto
      with 1 Cons less.hyps [of s' ch_lf] show ?thesis by (simp add: transparent_text_Cons)
    next
      case 2
      with Cons less.hyps [of s'' ch_lf] show ?thesis by (simp add: transparent_text_Cons)
    next
      case 3
      with Cons less.hyps [of s' ch_cr] transparent_head [OF 3(2), of "''.'' @ crlf @ rest"] show ?thesis
        by (simp add: transparent_text_Cons)
    next
      case 4
      with Cons less.hyps [of s' b] show ?thesis by (auto simp: transparent_text_Cons)
    qed
  qed
qed

lemma receive_data_bol: "take 1 w \<noteq> ''.'' \<Longrightarrow> receive_data True w = receive_data False w"
  by (cases w) auto

text \<open>
  A message is received as it was sent: the answer to RETR is a line of success and a text that a
  receiver of the standard reads to its end as the message, its lines ending with CRLF, and stops there, if
  the message does not begin with a dot.
\<close>

theorem pop_message_read_back:
  assumes "take 1 bytes \<noteq> ''.''"
  shows "\<exists>w. pop_message_response bytes 0 @ rest = pop_ok (show_nat (length bytes) @ '' octets'') @ w \<and>
    receive_data True w = Some (crlf_lines (CHR 0x00) bytes, rest)"
proof (intro exI conjI)
  let ?w = "transparent_text (CHR 0x00) bytes @ ''.'' @ crlf @ rest"
  show "pop_message_response bytes 0 @ rest = pop_ok (show_nat (length bytes) @ '' octets'') @ ?w"
    by (simp add: pop_message_response_def transparent_text_def pop_line_def split: prod.splits)
  have "take 1 ?w \<noteq> ''.''"
    using assms by (cases bytes) (auto simp: transparent_text_Nil transparent_text_Cons)
  then have "receive_data True ?w = receive_data False ?w" by (rule receive_data_bol)
  then show "receive_data True ?w = Some (crlf_lines (CHR 0x00) bytes, rest)"
    using receive_transparent [of "CHR 0x00" bytes rest] by simp
qed

theorem pop_message_read_back_witness:
  "\<exists>w. pop_message_response (''a'' @ [ch_lf] @ ''.b'') 0 @ ''+OK'' = pop_ok (show_nat 4 @ '' octets'') @ w \<and>
    receive_data True w = Some (''a'' @ crlf @ ''.b'' @ crlf, ''+OK'')"
  using pop_message_read_back [of "''a'' @ [ch_lf] @ ''.b''" "''+OK''"] by (simp add: numeral_eq_Suc)

text \<open>A dot at the very beginning is not doubled: such a message is cut off there.\<close>

lemma leading_dot_not_stuffed:
  "\<exists>w. pop_message_response (''.'' @ crlf @ ''text'') 0 = pop_ok (show_nat 7 @ '' octets'') @ w \<and>
    receive_data True w = Some ([], ''text'' @ crlf @ ''.'' @ crlf)"
  by (rule exI [of _ "''.'' @ crlf @ ''text'' @ crlf @ ''.'' @ crlf"])
    (simp add: pop_message_response_def Let_def apfst_def map_prod_def pop_line_def numeral_eq_Suc)

text \<open>TOP counts the lines of the header too.\<close>

lemma top_counts_header_lines:
  "pop_message_response (''A: b'' @ crlf @ crlf @ ''text'' @ crlf) 1 =
    pop_ok (show_nat 14 @ '' octets'') @ ''A: b'' @ crlf @ ''.'' @ crlf"
  by (simp add: pop_message_response_def Let_def apfst_def map_prod_def pop_line_def numeral_eq_Suc)

section \<open>The numbers of messages\<close>

lemma not_logged_in_keeps: "is_unauthenticated (fst x) \<Longrightarrow> keeps_maildrop x y"
  by (auto simp: keeps_maildrop_def is_unauthenticated_def)

lemma login_only_before:
  "validate_request env (PopUser u) x = (PopValid, w) \<Longrightarrow> is_unauthenticated (fst x)"
  "validate_request env (PopPass p) x = (PopValid, w) \<Longrightarrow> is_unauthenticated (fst x)"
  "validate_request env (PopAuth m ps) x = (PopValid, w) \<Longrightarrow> is_unauthenticated (fst x)"
  by (auto simp: plain_login_check_def is_unauthenticated_def split: pop_login.splits if_splits)

lemma mailbox_only_after:
  assumes "validate_request env c x = (PopValid, w)"
    and "(case c of PopList _ \<Rightarrow> True | PopRetr _ \<Rightarrow> True | PopDele _ \<Rightarrow> True | PopDeleMany _ \<Rightarrow> True | PopTop _ _ \<Rightarrow> True
          | PopUidl _ \<Rightarrow> True | PopStat \<Rightarrow> True | PopRset \<Rightarrow> True | PopUtf8 \<Rightarrow> True | _ \<Rightarrow> False)"
  shows "\<exists>m t f. pop_login_state (fst x) = PopAuthenticated m t f"
  using assms by (cases c) (auto simp: mailbox_check_def split: pop_login.splits)

lemma handle_dele_keeps: "handle_dele env ns x = (a, y) \<Longrightarrow> keeps_maildrop x y"
proof -
  assume h: "handle_dele env ns x = (a, y)"
  obtain s w where x: "x = (s, w)" by (cases x)
  show ?thesis
  proof (cases "pop_login_state s")
    case (PopNotAuthenticated n u)
    then show ?thesis by (simp add: keeps_maildrop_def x)
  next
    case (PopAuthenticated m t f)
    show ?thesis
    proof (cases "assert_permission env t Pop3Dele")
      case None
      obtain out ms where d: "mark_deleted ns (pb_messages m) = (out, ms)" by (cases "mark_deleted ns (pb_messages m)")
      from h None PopAuthenticated d have y: "y = (set_messages ms s, w)" by (auto simp: handle_dele_def with_mailbox_def x)
      show ?thesis unfolding x y using PopAuthenticated mark_deleted_core [of ns "pb_messages m"] d
        by (intro set_messages_keeps) auto
    next
      case (Some e)
      with h PopAuthenticated have "y = x" by (auto simp: handle_dele_def with_mailbox_def x)
      then show ?thesis by (simp add: keeps_same)
    qed
  qed
qed

lemma handle_rset_keeps: "handle_rset x = (a, y) \<Longrightarrow> keeps_maildrop x y"
proof -
  assume h: "handle_rset x = (a, y)"
  show ?thesis
  proof (cases "pop_login_state (fst x)")
    case (PopNotAuthenticated n u)
    then show ?thesis by (simp add: keeps_maildrop_def)
  next
    case (PopAuthenticated m t f)
    with h have y: "y = (set_messages (map (\<lambda>r. r\<lparr>pm_deleted := False\<rparr>) (pb_messages m)) (fst x), snd x)"
      by (auto simp: handle_rset_def)
    have "keeps_maildrop (fst x, snd x) y" unfolding y using PopAuthenticated
      by (intro set_messages_keeps) (auto simp: message_core_def comp_def)
    then show ?thesis by simp
  qed
qed

lemma execute_keeps:
  assumes v: "validate_request env c x = (PopValid, w)" and e: "pop_execute env c (fst x, w) = (a, y)"
  shows "keeps_maildrop (fst x, w) y"
proof (cases c)
  case (PopUser u)
  then show ?thesis using v login_only_before(1) [of env u x w] by (simp add: not_logged_in_keeps)
next
  case (PopPass p)
  then show ?thesis using v login_only_before(2) [of env p x w] by (simp add: not_logged_in_keeps)
next
  case (PopAuth m ps)
  then show ?thesis using v login_only_before(3) [of env m ps x w] by (simp add: not_logged_in_keeps)
next
  case PopRset
  then show ?thesis using e handle_rset_keeps by simp
next
  case (PopDele n)
  then show ?thesis using e handle_dele_keeps by simp
next
  case (PopDeleMany ns)
  then show ?thesis using e handle_dele_keeps by simp
qed (use e in \<open>auto simp: handle_capa_def dest!: readers_keep_login intro!: keeps_same\<close>)

lemma request_keeps_maildrop: "pop_request_answer env rq x = (a, y) \<Longrightarrow> keeps_maildrop x y"
proof (cases rq)
  case (Inr c)
  assume r: "pop_request_answer env rq x = (a, y)"
  obtain v w where v: "validate_request env c x = (v, w)" by (cases "validate_request env c x")
  have k: "keeps_maildrop (fst x, w) z \<Longrightarrow> keeps_maildrop x z" for z by (simp add: keeps_maildrop_def)
  show ?thesis
  proof (cases v)
    case PopValid
    with r Inr v have "pop_execute env c (fst x, w) = (a, y)" by (simp add: pop_request_answer_def)
    with execute_keeps v PopValid k show ?thesis by blast
  qed (use r Inr v in \<open>auto simp: pop_request_answer_def intro: keeps_same\<close>)
qed (auto simp: pop_request_answer_def intro: keeps_same)

interpretation maildrop: pop_relation env keeps_maildrop for env :: "'x pop_env"
  by unfold_locales
    (auto intro: keeps_same keeps_trans request_keeps_maildrop simp: pop_into_tls_def)

section \<open>No panics\<close>

lemma with_mailbox_no_panic:
  assumes "pop_login_state (fst x) = PopAuthenticated m t f" and "\<And>x a y. g m x = (a, y) \<Longrightarrow> a \<noteq> PopPanics"
  shows "with_mailbox env p g x = (a, y) \<Longrightarrow> a \<noteq> PopPanics"
  using assms by (auto simp: with_mailbox_def split: option.splits)

lemma readers_no_panic:
  assumes "pop_login_state (fst x) = PopAuthenticated m t f"
  shows "handle_list env msg x = (a, y) \<Longrightarrow> a \<noteq> PopPanics"
    and "handle_uidl env msg x = (a, y) \<Longrightarrow> a \<noteq> PopPanics"
    and "handle_stat env x = (a, y) \<Longrightarrow> a \<noteq> PopPanics"
    and "handle_fetch env n lines x = (a, y) \<Longrightarrow> a \<noteq> PopPanics"
    and "handle_dele env ns x = (a, y) \<Longrightarrow> a \<noteq> PopPanics"
    and "handle_rset x = (a, y) \<Longrightarrow> a \<noteq> PopPanics"
  unfolding handle_list_def handle_uidl_def handle_stat_def handle_fetch_def handle_dele_def
  by (erule with_mailbox_no_panic [OF assms, rotated];
      auto simp: Let_def handle_rset_def assms split: option.splits prod.splits sum.splits)+
    (auto simp: handle_rset_def assms)

lemma handle_auth_no_panic: "handle_auth env c x = (a, y) \<Longrightarrow> a \<noteq> PopPanics"
  by (cases x) (auto simp: handle_auth_def split: prod.splits sum.splits option.splits limiter_result.splits)

lemma handle_quit_no_panic: "handle_quit env x = (a, y) \<Longrightarrow> a \<noteq> PopPanics"
  by (cases x) (auto simp: handle_quit_def Let_def split: prod.splits sum.splits pop_login.splits bool.splits if_splits)

lemma handle_sasl_no_panic: "handle_sasl env m ps x = (a, y) \<Longrightarrow> a \<noteq> PopPanics"
  by (auto simp: handle_sasl_def split: option.splits if_splits dest: handle_auth_no_panic)

lemma execute_no_panic:
  assumes v: "validate_request env c x = (PopValid, w)" and e: "pop_execute env c (fst x, w) = (a, y)"
  shows "a \<noteq> PopPanics"
proof -
  consider n u where "pop_login_state (fst x) = PopNotAuthenticated n u" | m t f where "pop_login_state (fst x) = PopAuthenticated m t f"
    by (cases "pop_login_state (fst x)")
  then show ?thesis
  proof cases
    case 1
    with v e show ?thesis
      by (cases c) (auto simp: plain_login_check_def mailbox_check_def handle_capa_def
          dest: handle_auth_no_panic handle_quit_no_panic handle_sasl_no_panic split: if_splits option.splits)
  next
    case 2
    then have "pop_login_state (fst (fst x, w)) = PopAuthenticated m t f" by simp
    note readers_no_panic [OF this]
    with v e 2 show ?thesis
      by (cases c) (auto simp: plain_login_check_def handle_capa_def dest: handle_quit_no_panic split: if_splits)
  qed
qed

definition rate_period_set :: "'x pop_env \<Rightarrow> bool" where
  "rate_period_set env = (case imap_rate_requests env of Some rt \<Rightarrow> period rt \<noteq> 0 | None \<Rightarrow> True)"

lemma rate_check_no_panic: "rate_period_set env \<Longrightarrow> rate_check env i w = (v, w') \<Longrightarrow> v \<noteq> PopValidationPanics"
  by (auto simp: rate_check_def rate_period_set_def is_rate_allowed_def Let_def
      split: option.splits prod.splits sum.splits if_splits)

lemma mailbox_check_no_panic: "rate_period_set env \<Longrightarrow> mailbox_check env x = (v, w) \<Longrightarrow> v \<noteq> PopValidationPanics"
  by (auto simp: mailbox_check_def dest: rate_check_no_panic split: pop_login.splits)

lemma plain_login_no_panic: "plain_login_check env b s \<noteq> PopValidationPanics"
  by (simp add: plain_login_check_def split: pop_login.split)

lemma validate_no_panic: "rate_period_set env \<Longrightarrow> validate_request env c x = (v, w) \<Longrightarrow> v \<noteq> PopValidationPanics"
  using plain_login_no_panic
  by (cases c) (auto dest: mailbox_check_no_panic split: pop_login.splits if_splits)

lemma request_no_panic:
  assumes "rate_period_set env" and r: "pop_request_answer env rq x = (a, y)"
  shows "a \<noteq> PopPanics"
proof (cases rq)
  case (Inr c)
  obtain v w where v: "validate_request env c x = (v, w)" by (cases "validate_request env c x")
  with validate_no_panic [OF assms(1) v] execute_no_panic [of env c x w a y] r Inr show ?thesis
    by (cases v) (auto simp: pop_request_answer_def)
qed (use r in \<open>auto simp: pop_request_answer_def\<close>)

lemma run_no_panic: "rate_period_set env \<Longrightarrow> pop_run env rqs x = (r, out, y) \<Longrightarrow> r \<noteq> PopCrashes"
proof (induction rqs arbitrary: x out)
  case (Cons rq rqs)
  obtain a x1 where a: "pop_request_answer env rq x = (a, x1)" by (cases "pop_request_answer env rq x")
  from request_no_panic [OF Cons.prems(1) a] have "r = PopEnds \<or> r = PopTls \<or> (\<exists>out. pop_run env rqs x1 = (r, out, y))"
    using Cons.prems(2) a by (auto simp: Let_def split: pop_answer.splits pop_result.splits if_splits prod.splits)
  with Cons.IH [OF Cons.prems(1)] show ?case by blast
qed simp

lemma conn_step_no_panic: "rate_period_set env \<Longrightarrow> pop_conn_step env ev x = (r, out, y) \<Longrightarrow> r \<noteq> PopCrashes"
  using run_no_panic [of env]
  by (cases ev; cases x) (auto simp: pop_ingest_def split: if_splits prod.splits option.splits)

lemma conn_no_panic: "rate_period_set env \<Longrightarrow> pop_handle_conn env evs x = (r, out, y, rest) \<Longrightarrow> r \<noteq> PopCrashes"
proof (induction evs arbitrary: x out)
  case (Cons ev evs)
  obtain r1 out1 x1 where s: "pop_conn_step env ev x = (r1, out1, x1)" by (cases "pop_conn_step env ev x")
  with conn_step_no_panic [OF Cons.prems(1) s] Cons show ?case by (cases r1) (auto split: prod.splits)
qed simp

text \<open>
  C39. A session never panics: whatever the client sends, in whatever pieces and in whatever order of
  commands, and whatever the parts around it answer, a connection never runs into one of the places where
  the handlers take the state of the session for granted, if the period of the limit of requests is not zero.
\<close>

theorem pop_never_panics:
  assumes "rate_period_set env" and "pop_handle env tls acceptor evs handshake w = (r, out, x)"
  shows "r \<noteq> PopCrashes"
proof -
  obtain r1 out1 x1 rest where c: "pop_handle_conn env evs (pop_session_new tls, w) = (r1, out1, x1, rest)"
    by (cases "pop_handle_conn env evs (pop_session_new tls, w)")
  from assms(2) c have "r = r1 \<or> r = PopEnds \<or>
      (\<exists>out rest'. pop_handle_conn env rest (pop_into_tls (fst x1), snd x1) = (r, out, x, rest'))"
    by (cases r1) (auto simp: pop_handle_def split: if_splits prod.splits)
  with conn_no_panic [OF assms(1)] c show ?thesis by blast
qed

section \<open>Failed logins\<close>

text \<open>\<open>fails\<close> counts the logins that the directory has refused; nothing else changes it.\<close>

definition counts_failures :: "'x pop_env \<Rightarrow> ('x pop_world \<Rightarrow> nat) \<Rightarrow> bool" where
  "counts_failures env fails \<longleftrightarrow>
    (\<forall>c w r w'. pop_authenticate env c w = (r, w') \<longrightarrow>
      fails w' = fails w + (case r of Inl e \<Rightarrow> if trc_kind e = EvAuthFailed then 1 else 0 | Inr _ \<Rightarrow> 0)) \<and>
    (\<forall>w r w'. pop_clock env w = (r, w') \<longrightarrow> fails w' = fails w) \<and>
    (\<forall>w r w'. pop_scanner_ban env w = (r, w') \<longrightarrow> fails w' = fails w) \<and>
    (\<forall>t w r w'. imap_request_allowed env t w = (r, w') \<longrightarrow> fails w' = fails w) \<and>
    (\<forall>i w r w'. cached_messages env i w = (r, w') \<longrightarrow> fails w' = fails w) \<and>
    (\<forall>i k w r w'. message_metadata env i k w = (r, w') \<longrightarrow> fails w' = fails w) \<and>
    (\<forall>k w r w'. message_blob env k w = (r, w') \<longrightarrow> fails w' = fails w) \<and>
    (\<forall>i k w r w'. emails_delete env i k w = (r, w') \<longrightarrow> fails w' = fails w) \<and>
    (\<forall>w d. fails (w\<lparr>pop_lookup := d\<rparr>) = fails w)"

definition logins_left :: "'x pop_env \<Rightarrow> pop_session \<Rightarrow> nat" where
  "logins_left env s =
    (case pop_login_state s of
       PopNotAuthenticated n _ \<Rightarrow> unat (max_auth_failures env) + 1 - unat n | PopAuthenticated _ _ _ \<Rightarrow> 0)"

definition within_logins :: "'x pop_env \<Rightarrow> pop_session \<Rightarrow> bool" where
  "within_logins env s =
    (case pop_login_state s of PopNotAuthenticated n _ \<Rightarrow> n \<le> max_auth_failures env | PopAuthenticated _ _ _ \<Rightarrow> True)"

definition spends_logins :: "'x pop_env \<Rightarrow> ('x pop_world \<Rightarrow> nat) \<Rightarrow> 'x pop_sess \<Rightarrow> 'x pop_sess \<Rightarrow> bool" where
  "spends_logins env fails x y \<longleftrightarrow>
    (within_logins env (fst x) \<longrightarrow>
      within_logins env (fst y) \<and> fails (snd y) + logins_left env (fst y) \<le> fails (snd x) + logins_left env (fst x))"

definition bounds_logins :: "'x pop_env \<Rightarrow> ('x pop_world \<Rightarrow> nat) \<Rightarrow> 'x pop_sess \<Rightarrow> 'x pop_sess \<Rightarrow> bool" where
  "bounds_logins env fails x y \<longleftrightarrow>
    (within_logins env (fst x) \<longrightarrow> fails (snd y) \<le> fails (snd x) + logins_left env (fst x))"

lemma spends_same:
  "pop_login_state (fst y) = pop_login_state (fst x) \<Longrightarrow> fails (snd y) = fails (snd x) \<Longrightarrow> spends_logins env fails x y"
  by (simp add: spends_logins_def within_logins_def logins_left_def)

lemma spends_bounds: "spends_logins env fails x y \<Longrightarrow> bounds_logins env fails x y"
  by (auto simp: spends_logins_def bounds_logins_def)


lemma next_login: "n < m \<Longrightarrow> n + 1 \<le> m \<and> unat (n + 1) = unat n + 1" for n m :: u32
proof -
  assume "n < m"
  then have lt: "unat n < unat m" by (simp add: word_less_nat_alt)
  have "unat m < 4294967296" using unsigned_less [of m] by simp
  with lt have "unat (n + 1) = unat n + 1" by (simp add: unat_word_ariths)
  with lt show ?thesis by (simp add: word_le_nat_alt)
qed

lemma counts_failuresD:
  assumes "counts_failures env fails"
  shows "pop_authenticate env c w = (r, w') \<Longrightarrow>
      fails w' = fails w + (case r of Inl e \<Rightarrow> if trc_kind e = EvAuthFailed then 1 else 0 | Inr _ \<Rightarrow> 0)"
    and "pop_clock env w = (n, w') \<Longrightarrow> fails w' = fails w"
    and "pop_scanner_ban env w = (b, w') \<Longrightarrow> fails w' = fails w"
    and "imap_request_allowed env t w = (l, w') \<Longrightarrow> fails w' = fails w"
    and "cached_messages env i w = (cm, w') \<Longrightarrow> fails w' = fails w"
    and "message_metadata env i k w = (md, w') \<Longrightarrow> fails w' = fails w"
    and "message_blob env h w = (bl, w') \<Longrightarrow> fails w' = fails w"
    and "emails_delete env i ns w = (dl, w') \<Longrightarrow> fails w' = fails w"
    and "fails (w\<lparr>pop_lookup := d\<rparr>) = fails w"
  using assms unfolding counts_failures_def by (simp_all split: sum.split)

lemma login_failed_spends:
  assumes l: "login_failed env e s = (e', s')" and "is_unauthenticated s" and "within_logins env s"
    and f: "fails w' = fails w + (if trc_kind e = EvAuthFailed then 1 else 0)"
  shows "bounds_logins env fails (s, w) (s', w') \<and> (\<not> must_disconnect e' \<longrightarrow> spends_logins env fails (s, w) (s', w'))"
proof (cases "trc_kind e = EvAuthFailed")
  case True
  from assms(2) obtain n u where n: "pop_login_state s = PopNotAuthenticated n u"
    by (auto simp: is_unauthenticated_def split: pop_login.splits)
  show ?thesis
  proof (cases "n < max_auth_failures env")
    case less: True
    with l n True have "s' = s\<lparr>pop_login_state := PopNotAuthenticated (n + 1) u\<rparr>" by (auto simp: login_failed_def)
    moreover from less have "unat n < unat (max_auth_failures env)" by (simp add: word_less_nat_alt)
    ultimately show ?thesis using next_login [OF less] n True f
      by (auto simp: spends_logins_def bounds_logins_def within_logins_def logins_left_def)
  next
    case False
    with l n True have "s' = s" "must_disconnect e'" by (auto simp: login_failed_def must_disconnect_def)
    moreover have "n = max_auth_failures env" using assms(3) n False by (simp add: within_logins_def)
    ultimately show ?thesis using n True f by (auto simp: bounds_logins_def logins_left_def)
  qed
next
  case False
  with l f have "s' = s" "fails w' = fails w" by (auto simp: login_failed_def)
  then show ?thesis by (simp add: spends_same spends_bounds)
qed

lemma handle_auth_spends:
  assumes c: "counts_failures env fails" and h: "handle_auth env cr (s, w) = (a, s', w')"
    and u: "is_unauthenticated s" and i: "within_logins env s"
  shows "bounds_logins env fails (s, w) (s', w') \<and> (\<not> ends_session a \<longrightarrow> spends_logins env fails (s, w) (s', w'))"
proof -
  note D = counts_failuresD [OF c]
  obtain r w1 where r: "pop_authenticate env cr w = (r, w1)" by (cases "pop_authenticate env cr w")
  show ?thesis
  proof (cases r)
    case (Inl e)
    obtain e' s1 where f: "login_failed env e s = (e', s1)" by (cases "login_failed env e s")
    with h r Inl have "a = PopFails e'" "s' = s1" "w' = w1" by (auto simp: handle_auth_def)
    with login_failed_spends [OF f u i, of fails w1 w] D(1) [OF r] Inl show ?thesis by (simp add: ends_session_def)
  next
    case (Inr t)
    with D(1) [OF r] have w1: "fails w1 = fails w" by simp
    have "fails w' = fails w \<and> (s' = s \<or> (\<exists>m f. s' = s\<lparr>pop_login_state := PopAuthenticated m t f\<rparr>))"
      using h r Inr w1
      by (auto simp: handle_auth_def fetch_mailbox_def D(4,5)
          split: option.splits prod.splits limiter_result.splits sum.splits)
    then have "spends_logins env fails (s, w) (s', w')"
      by (auto simp: spends_logins_def within_logins_def logins_left_def)
    then show ?thesis by (simp add: spends_bounds)
  qed
qed


lemma readers_keep_failures:
  assumes "counts_failures env fails"
  shows "handle_list env msg x = (a, y) \<Longrightarrow> fails (snd y) = fails (snd x)"
    and "handle_uidl env msg x = (a, y) \<Longrightarrow> fails (snd y) = fails (snd x)"
    and "handle_stat env x = (a, y) \<Longrightarrow> fails (snd y) = fails (snd x)"
    and "handle_fetch env n lines x = (a, y) \<Longrightarrow> fails (snd y) = fails (snd x)"
    and "handle_quit env x = (a, y) \<Longrightarrow> fails (snd y) = fails (snd x)"
  by (auto simp: handle_list_def handle_uidl_def handle_stat_def handle_fetch_def handle_quit_def with_mailbox_def Let_def
      counts_failuresD(6-8) [OF assms]
      split: pop_login.splits option.splits prod.splits sum.splits if_splits bool.splits)

lemma markers_keep_failures:
  "handle_dele env ns x = (a, y) \<Longrightarrow> snd y = snd x"
  "handle_rset x = (a, y) \<Longrightarrow> snd y = snd x"
  by (auto simp: handle_dele_def handle_rset_def with_mailbox_def split: pop_login.splits option.splits prod.splits)

lemma logged_in_spends:
  assumes "keeps_maildrop x y" and "\<not> is_unauthenticated (fst x)" and "fails (snd y) = fails (snd x)"
  shows "spends_logins env fails x y"
  using assms by (auto simp: keeps_maildrop_def is_unauthenticated_def spends_logins_def within_logins_def logins_left_def
      split: pop_login.splits)

lemma with_mailbox_unauthenticated:
  "is_unauthenticated (fst x) \<Longrightarrow> with_mailbox env p f x = (PopPanics, x)"
  by (simp add: with_mailbox_def is_unauthenticated_def split: pop_login.splits)

lemma rate_check_failures:
  assumes "counts_failures env fails"
  shows "rate_check env i w = (v, w') \<Longrightarrow> fails w' = fails w"
  by (auto simp: rate_check_def counts_failuresD(2,9) [OF assms] split: option.splits prod.splits sum.splits)

lemma validate_failures:
  assumes "counts_failures env fails"
  shows "validate_request env c x = (v, w) \<Longrightarrow> fails w = fails (snd x)"
  by (cases c) (auto simp: mailbox_check_def dest: rate_check_failures [OF assms] split: pop_login.splits if_splits)

lemma handle_sasl_spends:
  assumes c: "counts_failures env fails" and h: "handle_sasl env m ps (s, w) = (a, s', w')"
    and u: "is_unauthenticated s" and i: "within_logins env s"
  shows "bounds_logins env fails (s, w) (s', w') \<and> (\<not> ends_session a \<longrightarrow> spends_logins env fails (s, w) (s', w'))"
proof -
  have "spends_logins env fails (s, w) (s', w') \<or> (\<exists>cr. handle_auth env cr (s, w) = (a, s', w'))"
    using h by (auto simp: handle_sasl_def intro!: spends_same split: if_splits option.splits)
  then show ?thesis using handle_auth_spends [OF c _ u i] spends_bounds by blast
qed

lemma execute_spends:
  assumes c: "counts_failures env fails" and v: "validate_request env rq x = (PopValid, w)"
    and e: "pop_execute env rq (s, w) = (a, s', w')" and x: "fst x = s" and i: "within_logins env s"
  shows "bounds_logins env fails (s, w) (s', w') \<and> (\<not> ends_session a \<longrightarrow> spends_logins env fails (s, w) (s', w'))"
proof (cases "is_unauthenticated s")
  case True
  then obtain n u where n: "pop_login_state s = PopNotAuthenticated n u"
    by (auto simp: is_unauthenticated_def split: pop_login.splits)
  show ?thesis
  proof (cases rq)
    case (PopPass secret)
    with v n x obtain user where user: "u = Some user"
      by (auto simp: plain_login_check_def split: if_splits option.splits)
    let ?s = "s\<lparr>pop_login_state := PopNotAuthenticated n None\<rparr>"
    have h: "handle_auth env (CredPlain user secret) (?s, w) = (a, s', w')" using e PopPass n user by simp
    have same: "within_logins env ?s = within_logins env s" "logins_left env ?s = logins_left env s"
      using n by (simp_all add: within_logins_def logins_left_def)
    from handle_auth_spends [OF c h] i same show ?thesis
      by (simp add: is_unauthenticated_def spends_logins_def bounds_logins_def)
  next
    case (PopAuth m ps)
    then show ?thesis using handle_sasl_spends [OF c _ True i] e by simp
  next
    case (PopUser user)
    with e n have "spends_logins env fails (s, w) (s', w')"
      by (auto simp: spends_logins_def within_logins_def logins_left_def)
    then show ?thesis by (simp add: spends_bounds)
  next
    case PopQuit
    with e have q: "handle_quit env (s, w) = (a, s', w')" by simp
    from readers_keep_login(5) [OF q] readers_keep_failures(5) [OF c q] have "spends_logins env fails (s, w) (s', w')"
      by (intro spends_same) auto
    then show ?thesis by (simp add: spends_bounds)
  qed (use v e n x in \<open>auto simp: mailbox_check_def handle_capa_def intro: spends_same spends_bounds\<close>)
next
  case False
  have "fails w' = fails w"
  proof (cases rq)
    case (PopUser u)
    then show ?thesis using False v x login_only_before(1) by blast
  next
    case (PopPass p)
    then show ?thesis using False v x login_only_before(2) by blast
  next
    case (PopAuth m ps)
    then show ?thesis using False v x login_only_before(3) by blast
  qed (use e in \<open>auto simp: handle_capa_def dest!: readers_keep_failures [OF c] markers_keep_failures\<close>)
  moreover have "keeps_maildrop (s, w) (s', w')" using execute_keeps [OF v] e x by simp
  ultimately have "spends_logins env fails (s, w) (s', w')" using False by (intro logged_in_spends) auto
  then show ?thesis by (simp add: spends_bounds)
qed

lemma request_spends:
  assumes c: "counts_failures env fails" and r: "pop_request_answer env rq x = (a, y)" and i: "within_logins env (fst x)"
  shows "bounds_logins env fails x y \<and> (\<not> ends_session a \<longrightarrow> spends_logins env fails x y)"
proof (cases rq)
  case (Inr c0)
  obtain v w where v: "validate_request env c0 x = (v, w)" by (cases "validate_request env c0 x")
  have w: "fails w = fails (snd x)" by (rule validate_failures [OF c v])
  show ?thesis
  proof (cases v)
    case PopValid
    obtain s' w' where y: "y = (s', w')" by (cases y)
    from r Inr v PopValid y have e: "pop_execute env c0 (fst x, w) = (a, s', w')" by (simp add: pop_request_answer_def)
    from execute_spends [OF c v [unfolded PopValid] e refl i] w y show ?thesis
      by (simp add: bounds_logins_def spends_logins_def)
  qed (use r Inr v w in \<open>auto simp: pop_request_answer_def ends_session_def intro: spends_same spends_bounds [OF spends_same]\<close>)
qed (use r in \<open>auto simp: pop_request_answer_def intro: spends_same spends_bounds [OF spends_same]\<close>)

lemma logins_progress:
  assumes c: "counts_failures env fails"
  shows "pop_progress env (spends_logins env fails) (bounds_logins env fails)"
proof
  show "spends_logins env fails x z" if "spends_logins env fails x y" "spends_logins env fails y z" for x y z
    using that by (auto simp: spends_logins_def)
  show "bounds_logins env fails x z" if "spends_logins env fails x y" "bounds_logins env fails y z" for x y z
    using that by (auto simp: spends_logins_def bounds_logins_def)
  show "spends_logins env fails x y" if "pop_request_answer env rq x = (a, y)" "\<not> ends_session a" for rq x a y
    using request_spends [OF c that(1)] that(2) by (cases "within_logins env (fst x)") (auto simp: spends_logins_def)
  show "bounds_logins env fails x y" if "pop_request_answer env rq x = (a, y)" for rq x a y
    using request_spends [OF c that] by (cases "within_logins env (fst x)") (auto simp: bounds_logins_def)
qed (auto simp: spends_bounds counts_failuresD(3) [OF c] pop_into_tls_def intro: spends_same)

text \<open>
  Logins can not be tried without end: in a whole connection, the upgrade to TLS included, the directory
  refuses at most one login more than the number of failures that is allowed.
\<close>

theorem pop_failed_logins_bounded:
  assumes "counts_failures env fails" and "pop_handle env tls acceptor evs handshake w = (r, out, s, w')"
  shows "fails w' \<le> fails w + unat (max_auth_failures env) + 1"
  using pop_progress.handle [OF logins_progress [OF assms(1)] assms(2)]
  by (simp add: bounds_logins_def within_logins_def logins_left_def pop_session_new_def)

section \<open>Deleting\<close>

text \<open>The positions of the messages marked for deletion, and what a command does to them.\<close>

definition marks :: "pop_message list \<Rightarrow> nat set" where
  "marks ms = {i. i < length ms \<and> pm_deleted (ms ! i)}"

fun marks_after :: "nat \<Rightarrow> pop_request \<Rightarrow> nat set \<Rightarrow> nat set" where
  "marks_after n (PopDele k) D = D \<union> ({message_index k} \<inter> {..<n})"
| "marks_after n (PopDeleMany ks) D = D \<union> (message_index ` set ks \<inter> {..<n})"
| "marks_after n PopRset D = {}"
| "marks_after n _ D = D"

lemma marks_update: "i < length ms \<Longrightarrow> marks (ms[i := (ms ! i)\<lparr>pm_deleted := True\<rparr>]) = insert i (marks ms)"
  by (auto simp: marks_def nth_list_update)

lemma length_mark_deleted [simp]: "length (snd (mark_deleted ns ms)) = length ms"
  using mark_deleted_core [of ns ms] by (metis length_map)

lemma marks_mark_deleted: "marks (snd (mark_deleted ns ms)) = marks ms \<union> (message_index ` set ns \<inter> {..<length ms})"
proof (induction ns arbitrary: ms)
  case (Cons n ns)
  let ?i = "message_index n"
  show ?case
  proof (cases "?i < length ms \<and> \<not> pm_deleted (ms ! ?i)")
    case True
    then show ?thesis using Cons [of "ms[?i := (ms ! ?i)\<lparr>pm_deleted := True\<rparr>]"] marks_update [of ?i ms]
      by (auto simp: Let_def)
  next
    case False
    then show ?thesis using Cons [of ms] by (auto simp: Let_def marks_def)
  qed
qed (simp add: marks_def)

lemma marks_reset: "marks (map (\<lambda>r. r\<lparr>pm_deleted := False\<rparr>) ms) = {}"
  by (auto simp: marks_def)

lemma marked_ids: "set (map pm_id (filter pm_deleted ms)) = (\<lambda>i. pm_id (ms ! i)) ` marks ms"
  by (force simp: marks_def in_set_conv_nth image_iff)

definition deletes_marked :: "'x pop_env \<Rightarrow> pop_mailbox \<Rightarrow> 'x pop_world \<Rightarrow> 'x pop_world \<Rightarrow> bool" where
  "deletes_marked env m w w' \<longleftrightarrow>
    (if marks (pb_messages m) = {} then w' = w
     else \<exists>ids res. set ids = (\<lambda>i. pm_id (pb_messages m ! i)) ` marks (pb_messages m) \<and> distinct ids \<and>
       emails_delete env (pb_account_id m) ids w = (res, w'))"

lemma handle_quit_deletes:
  assumes "pop_login_state (fst x) = PopAuthenticated m t f" and "handle_quit env x = (a, y)"
  shows "fst y = fst x \<and> deletes_marked env m (snd x) (snd y)"
proof -
  let ?ids = "remdups (map pm_id (filter pm_deleted (pb_messages m)))"
  have ids: "set ?ids = (\<lambda>i. pm_id (pb_messages m ! i)) ` marks (pb_messages m)" by (metis marked_ids set_remdups)
  show ?thesis
  proof (cases "?ids = []")
    case True
    with ids have "marks (pb_messages m) = {}" by auto
    with assms True show ?thesis
      by (cases x) (auto simp: handle_quit_def deletes_marked_def Let_def)
  next
    case False
    then have "marks (pb_messages m) \<noteq> {}" using ids by (metis image_is_empty set_empty)
    moreover obtain res w' where "emails_delete env (pb_account_id m) ?ids (snd x) = (res, w')"
      by (cases "emails_delete env (pb_account_id m) ?ids (snd x)")
    moreover from this have "y = (fst x, w')" using assms False
      by (cases x) (auto simp: handle_quit_def Let_def split: sum.splits bool.splits)
    ultimately show ?thesis using ids distinct_remdups unfolding deletes_marked_def by auto
  qed
qed

lemma answers_go_on:
  "handle_list env msg x = (PopSays out r, y) \<Longrightarrow> r = PopContinue"
  "handle_uidl env msg x = (PopSays out r, y) \<Longrightarrow> r = PopContinue"
  "handle_stat env x = (PopSays out r, y) \<Longrightarrow> r = PopContinue"
  "handle_fetch env n lines x = (PopSays out r, y) \<Longrightarrow> r = PopContinue"
  "handle_dele env ns x = (PopSays out r, y) \<Longrightarrow> r = PopContinue"
  "handle_rset x = (PopSays out r, y) \<Longrightarrow> r = PopContinue"
  "handle_auth env cr x = (PopSays out r, y) \<Longrightarrow> r = PopContinue"
  by (auto simp: handle_list_def handle_uidl_def handle_stat_def handle_fetch_def handle_dele_def handle_rset_def
      handle_auth_def with_mailbox_def Let_def
      split: pop_login.splits option.splits prod.splits sum.splits if_splits limiter_result.splits)

lemma sasl_goes_on: "handle_sasl env m ps x = (PopSays out r, y) \<Longrightarrow> r = PopContinue"
  by (auto simp: handle_sasl_def dest: answers_go_on split: if_splits option.splits)

lemma quit_closes: "handle_quit env x = (PopSays out r, y) \<Longrightarrow> r = PopClose"
  by (cases x) (auto simp: handle_quit_def Let_def split: pop_login.splits prod.splits sum.splits bool.splits if_splits)

lemma execute_closes:
  assumes "pop_execute env c x = (PopSays out r, y)"
  shows "r = PopClose \<longleftrightarrow> c = PopQuit"
  using assms
  by (cases c; cases x)
    (auto simp: handle_capa_def dest: answers_go_on sasl_goes_on quit_closes split: pop_login.splits option.splits)

lemma answered_marks:
  assumes v: "validate_request env c x = (PopValid, w)" and e: "pop_execute env c (fst x, w) = (PopSays out r, y)"
    and l: "pop_login_state (fst x) = PopAuthenticated m t f"
  shows "\<exists>m'. pop_login_state (fst y) = PopAuthenticated m' t f \<and>
    marks (pb_messages m') = marks_after (length (pb_messages m)) c (marks (pb_messages m))"
proof -
  have dele: "handle_dele env ns (fst x, w) = (PopSays out r, y) \<Longrightarrow>
      \<exists>m'. pop_login_state (fst y) = PopAuthenticated m' t f \<and>
        marks (pb_messages m') = marks (pb_messages m) \<union> (message_index ` set ns \<inter> {..<length (pb_messages m)})" for ns
    using l marks_mark_deleted [of ns "pb_messages m"]
    by (auto simp: handle_dele_def with_mailbox_def set_messages_def split: option.splits prod.splits)
  have no: "\<not> is_unauthenticated (fst x)" using l by (simp add: is_unauthenticated_def)
  show ?thesis
  proof (cases c)
    case (PopUser u)
    then show ?thesis using no v login_only_before(1) by blast
  next
    case (PopPass p)
    then show ?thesis using no v login_only_before(2) by blast
  next
    case (PopAuth m ps)
    then show ?thesis using no v login_only_before(3) by blast
  next
    case (PopDele n)
    then show ?thesis using dele [of "[n]"] e by simp
  next
    case (PopDeleMany ns)
    then show ?thesis using dele [of ns] e by simp
  next
    case PopRset
    then show ?thesis using e l marks_reset by (auto simp: handle_rset_def set_messages_def)
  qed (use e l in \<open>auto simp: handle_capa_def dest!: readers_keep_login\<close>)
qed


section \<open>The numbers of the messages\<close>

text \<open>
  The numbers of messages stay what they were at the login: whatever a client that is logged in sends, every
  number is the same message at the end of any part of the connection, deletions and resets included.
\<close>

lemma same_maildrop_at:
  assumes "same_maildrop m m'"
  shows "map_option message_core (message_at m' n) = map_option message_core (message_at m n)"
proof -
  have l: "length (pb_messages m') = length (pb_messages m)" using assms by (metis same_maildrop_def length_map)
  have "message_core (pb_messages m' ! i) = message_core (pb_messages m ! i)" if "i < length (pb_messages m)" for i
    using assms that l by (metis same_maildrop_def nth_map)
  with l show ?thesis by (simp add: message_at_def)
qed

theorem pop_numbers_stay:
  assumes "pop_handle_conn env evs x = (r, out, y, rest)" and "r = PopGoesOn" and "pop_login_state (fst x) = PopAuthenticated m t f"
  shows "\<exists>m'. pop_login_state (fst y) = PopAuthenticated m' t f
    \<and> (\<forall>n. map_option message_core (message_at m' n) = map_option message_core (message_at m n))"
  using maildrop.rel.conn [OF assms(1)] assms(2,3) same_maildrop_at unfolding keeps_maildrop_def by blast

section \<open>A session\<close>

text \<open>A server with one account and two messages in its inbox.\<close>

definition pop_demo_env :: "rate option \<Rightarrow> unit pop_env" where
  "pop_demo_env rt =
    \<lparr>from_utf8_lossy = (\<lambda>s. s), allow_plain_auth = True, imap_rate_requests = rt, max_auth_failures = 3,
     pop_clock = (\<lambda>w. (100, w)), pop_scanner_ban = (\<lambda>w. (None, w)),
     pop_authenticate = (\<lambda>_ w. (Inr \<lparr>pt_primary_id = 7, pt_permission = (\<lambda>_. True)\<rparr>, w)),
     imap_request_allowed = (\<lambda>_ w. (LimiterDisabled, w)),
     cached_messages = (\<lambda>_ w. (Inr \<lparr>cache_items = [\<lparr>cm_document_id = 1, cm_size = 10, cm_mailboxes = [(0, 1)]\<rparr>,
       \<lparr>cm_document_id = 2, cm_size = 20, cm_mailboxes = [(0, 2)]\<rparr>], cache_inbox_validity = Some 5\<rparr>, w)),
     message_metadata = (\<lambda>_ _ w. (Inr None, w)), message_blob = (\<lambda>_ w. (Inr None, w)),
     emails_delete = (\<lambda>_ _ w. (Inr True, w)), pop_base64_decode = (\<lambda>_. None), permission_name = (\<lambda>_. [])\<rparr>"

definition pop_demo_world :: "unit pop_world" where
  "pop_demo_world = \<lparr>pop_lookup = Map.empty, pop_outside = ()\<rparr>"

definition pop_demo_box :: pop_mailbox where
  "pop_demo_box = mailbox_of_cache 7
    \<lparr>cache_items = [\<lparr>cm_document_id = 1, cm_size = 10, cm_mailboxes = [(0, 1)]\<rparr>,
       \<lparr>cm_document_id = 2, cm_size = 20, cm_mailboxes = [(0, 2)]\<rparr>], cache_inbox_validity = Some 5\<rparr>"

abbreviation pop_demo_session :: pop_session where
  "pop_demo_session \<equiv> \<lparr>pop_receiver = PopInit,
     pop_login_state = PopAuthenticated pop_demo_box \<lparr>pt_primary_id = 7, pt_permission = (\<lambda>_. True)\<rparr> False, pop_is_tls = True\<rparr>"

theorem pop_never_panics_witness:
  "fst (pop_handle (pop_demo_env (Some \<lparr>requests = 10, period = 60\<rparr>)) False True
      [PopRead ''USER me'', PopRead (crlf @ ''PASS x'' @ crlf @ ''DELE 9'' @ crlf), PopReadError] True pop_demo_world) \<noteq> PopCrashes"
proof -
  let ?env = "pop_demo_env (Some \<lparr>requests = 10, period = 60\<rparr>)"
  let ?h = "pop_handle ?env False True [PopRead ''USER me'', PopRead (crlf @ ''PASS x'' @ crlf @ ''DELE 9'' @ crlf), PopReadError] True pop_demo_world"
  have "rate_period_set ?env" by (simp add: rate_period_set_def pop_demo_env_def)
  moreover obtain r out x where h: "?h = (r, out, x)" by (cases ?h)
  ultimately have "r \<noteq> PopCrashes" by (rule pop_never_panics)
  with h show ?thesis by simp
qed

lemma pop_demo_box_messages:
  "pb_messages pop_demo_box = [\<lparr>pm_id = 1, pm_uid = 1, pm_size = 10, pm_deleted = False\<rparr>, \<lparr>pm_id = 2, pm_uid = 2, pm_size = 20, pm_deleted = False\<rparr>]"
  by (simp add: pop_demo_box_def mailbox_of_cache_def inbox_entry_def INBOX_ID_def List.map_filter_def)



end
