(* ===== verification/Pop3_Requests.thy ===== *)
theory Pop3_Requests
  imports Pop3_Parser
begin

text \<open>
  Requests of POP3 as a client writes them, and that the parser gets them back however the bytes are split.
\<close>

section \<open>Writing requests\<close>

definition pop_words :: "string \<Rightarrow> string list \<Rightarrow> string" where
  "pop_words w args = w @ concat (map (\<lambda>a. '' '' @ a) args) @ [ch_cr, ch_lf]"

abbreviation show_number :: "u32 \<Rightarrow> string" where
  "show_number n \<equiv> show_nat (unat n)"

fun pop_print :: "pop_request \<Rightarrow> string" where
  "pop_print (PopUser name) = pop_words ''USER'' [name]"
| "pop_print (PopPass s) = pop_words ''PASS'' [s]"
| "pop_print (PopApop name digest) = pop_words ''APOP'' [name, digest]"
| "pop_print PopQuit = pop_words ''QUIT'' []"
| "pop_print PopStat = pop_words ''STAT'' []"
| "pop_print (PopList msg) = pop_words ''LIST'' (case msg of None \<Rightarrow> [] | Some n \<Rightarrow> [show_number n])"
| "pop_print (PopRetr n) = pop_words ''RETR'' [show_number n]"
| "pop_print (PopDele n) = pop_words ''DELE'' [show_number n]"
| "pop_print (PopDeleMany ns) = concat (map (\<lambda>n. pop_words ''DELE'' [show_number n]) ns)"
| "pop_print PopNoop = pop_words ''NOOP'' []"
| "pop_print PopRset = pop_words ''RSET'' []"
| "pop_print (PopTop n k) = pop_words ''TOP'' [show_number n, show_number k]"
| "pop_print (PopUidl msg) = pop_words ''UIDL'' (case msg of None \<Rightarrow> [] | Some n \<Rightarrow> [show_number n])"
| "pop_print PopCapa = pop_words ''CAPA'' []"
| "pop_print PopStls = pop_words ''STLS'' []"
| "pop_print PopUtf8 = pop_words ''UTF8'' []"
| "pop_print (PopAuth m ps) = pop_words ''AUTH'' (pop_mechanism_str m # ps)"

definition plain_byte :: "char \<Rightarrow> bool" where
  "plain_byte b \<longleftrightarrow> b \<noteq> ch_space \<and> b \<noteq> ch_tab \<and> b \<noteq> ch_cr \<and> b \<noteq> ch_lf"

definition plain_argument :: "string \<Rightarrow> bool" where
  "plain_argument a \<longleftrightarrow> a \<noteq> [] \<and> list_all plain_byte a \<and> utf8_valid a"

fun pop_printable :: "pop_request \<Rightarrow> bool" where
  "pop_printable (PopUser name) \<longleftrightarrow> plain_argument name \<and> length name \<le> POP_MAX_ARG_LEN"
| "pop_printable (PopPass s) \<longleftrightarrow> plain_argument s \<and> length s \<le> POP_MAX_ARG_LEN"
| "pop_printable (PopApop name digest) \<longleftrightarrow>
    plain_argument name \<and> length name < POP_MAX_ARG_LEN \<and> plain_argument digest \<and> length digest \<le> POP_MAX_ARG_LEN"
| "pop_printable (PopDeleMany ns) \<longleftrightarrow> False"
| "pop_printable (PopAuth m ps) \<longleftrightarrow>
    list_all plain_argument ps \<and> length ps \<le> 3 \<and> sum_list (map length ps) \<le> POP_MAX_ARG_LEN * 4"
| "pop_printable _ \<longleftrightarrow> True"

section \<open>One argument\<close>

lemma requests_feed: "pop_requests l st as = ([], st') \<Longrightarrow> pop_requests l st (as @ bs) = pop_requests l st' bs"
  by (simp add: pop_requests_append apfst_def map_prod_def split: prod.split)

fun put_argument :: "pop_partial \<Rightarrow> nat \<Rightarrow> string \<Rightarrow> string + pop_partial" where
  "put_argument c n [] = Inr c"
| "put_argument c n (b # bs) = (case update_argument c n b of Inl e \<Rightarrow> Inl e | Inr c \<Rightarrow> put_argument c n bs)"

lemma argument_bytes:
  "list_all plain_byte a \<Longrightarrow> put_argument c n a = Inr c' \<Longrightarrow>
    pop_requests l (PopArgument c n False) a = ([], PopArgument c' n False)"
  by (induction a arbitrary: c) (auto simp: pop_requests_Cons plain_byte_def split: sum.splits)

lemma argument_read:
  assumes "list_all plain_byte a" "a \<noteq> []" "put_argument c (n + 1) a = Inr c'"
  shows "pop_requests l (PopArgument c n sp) ('' '' @ a) = ([], PopArgument c' (n + 1) False)"
proof -
  obtain b bs where a: "a = b # bs" using assms(2) by (cases a) auto
  with assms(3) obtain c1 where "update_argument c (n + 1) b = Inr c1" "put_argument c1 (n + 1) bs = Inr c'"
    by (auto split: sum.splits)
  with assms(1) a show ?thesis by (auto simp: pop_requests_Cons plain_byte_def intro: argument_bytes)
qed

lemma put_user: "length name + length a \<le> POP_MAX_ARG_LEN \<Longrightarrow> put_argument (PopUser name) 1 a = Inr (PopUser (name @ a))"
  by (induction a arbitrary: name) auto

lemma put_pass: "length s + length a \<le> POP_MAX_ARG_LEN \<Longrightarrow> put_argument (PopPass s) 1 a = Inr (PopPass (s @ a))"
  by (induction a arbitrary: s) auto

lemma put_apop_name:
  "length name + length a \<le> POP_MAX_ARG_LEN \<Longrightarrow> put_argument (PopApop name []) 1 a = Inr (PopApop (name @ a) [])"
  by (induction a arbitrary: name) (auto simp: POP_MAX_ARG_LEN_def)

lemma put_apop_digest:
  "length name < POP_MAX_ARG_LEN \<Longrightarrow> length digest + length a \<le> POP_MAX_ARG_LEN \<Longrightarrow>
    put_argument (PopApop name digest) 2 a = Inr (PopApop name (digest @ a))"
  by (induction a arbitrary: digest) auto

lemma put_mechanism: "length m + length a \<le> 64 \<Longrightarrow> put_argument (PopAuth m []) 1 a = Inr (PopAuth (m @ a) [])"
  by (induction a arbitrary: m) (auto simp: POP_MAX_ARG_LEN_def)

lemma put_parameter_rest:
  "length m < 64 \<Longrightarrow> n \<le> 4 \<Longrightarrow> n = length ps + 2 \<Longrightarrow>
    sum_list (map length ps) + length p + length a \<le> POP_MAX_ARG_LEN * 4 \<Longrightarrow>
    put_argument (PopAuth m (ps @ [p])) n a = Inr (PopAuth m (ps @ [p @ a]))"
  by (induction a arbitrary: p) (auto simp: push_last_def)

lemma put_parameter:
  "length m < 64 \<Longrightarrow> n \<le> 4 \<Longrightarrow> n = length ps + 2 \<Longrightarrow> a \<noteq> [] \<Longrightarrow>
    sum_list (map length ps) + length a \<le> POP_MAX_ARG_LEN * 4 \<Longrightarrow>
    put_argument (PopAuth m ps) n a = Inr (PopAuth m (ps @ [a]))"
  using put_parameter_rest [of m n ps "[hd a]" "tl a"]
  by (cases a) (auto simp: push_last_def)

section \<open>Numbers\<close>

fun add_digits :: "u32 \<Rightarrow> string \<Rightarrow> string + u32" where
  "add_digits n [] = Inr n"
| "add_digits n (b # bs) = (case add_digit n b of Inl e \<Rightarrow> Inl e | Inr n \<Rightarrow> add_digits n bs)"

lemma add_digits_parse:
  "parse_digits u32_max acc s = Some v \<Longrightarrow> acc \<le> u32_max \<Longrightarrow> add_digits (word_of_nat acc) s = Inr (word_of_nat v)"
proof (induction s arbitrary: acc)
  case (Cons b s)
  then have b: "is_ascii_digit b" "acc * 10 + digit_value b \<le> u32_max"
      "parse_digits u32_max (acc * 10 + digit_value b) s = Some v"
    by (auto split: if_splits)
  have "unat (word_of_nat acc :: u32) = acc"
    using Cons.prems(2) by (simp add: unat_of_nat u32_max_def)
  with b Cons.IH [OF b(3,2)] show ?case by (simp add: add_digit_def digit_value_def)
qed simp

lemma add_digits_show: "add_digits 0 (show_number n) = Inr n"
proof -
  have "unat n < 4294967296" using unsigned_less [of n] by simp
  then have "unat n \<le> u32_max" by (simp add: u32_max_def)
  from add_digits_parse [OF parse_digits_show_nat [OF this]] show ?thesis by simp
qed

lemma put_number:
  assumes "\<And>n b. update_argument (f n) k b = map_sum id f (add_digit n b)"
  shows "put_argument (f n) k a = map_sum id f (add_digits n a)"
  by (induction a arbitrary: n) (auto simp: assms split: sum.splits)

lemma put_numbers:
  "put_argument (PopRetr 0) 1 (show_number n) = Inr (PopRetr n)"
  "put_argument (PopDele 0) 1 (show_number n) = Inr (PopDele n)"
  "put_argument (PopTop 0 0) 1 (show_number n) = Inr (PopTop n 0)"
  "put_argument (PopTop n 0) 2 (show_number k) = Inr (PopTop n k)"
  by (simp_all add: put_number [of PopRetr] put_number [of PopDele] put_number [of "\<lambda>m. PopTop m 0"]
      put_number [of "PopTop n"] add_digits_show)

lemma put_optional:
  "put_argument (PopList (Some n)) 1 a = map_sum id (PopList \<circ> Some) (add_digits n a)"
  "put_argument (PopUidl (Some n)) 1 a = map_sum id (PopUidl \<circ> Some) (add_digits n a)"
  by (auto simp: put_number [of "PopList \<circ> Some", unfolded comp_def] put_number [of "PopUidl \<circ> Some", unfolded comp_def] comp_def)

lemma put_optional_first:
  "a \<noteq> [] \<Longrightarrow> put_argument (PopList None) 1 a = put_argument (PopList (Some 0)) 1 a"
  "a \<noteq> [] \<Longrightarrow> put_argument (PopUidl None) 1 a = put_argument (PopUidl (Some 0)) 1 a"
  by (cases a; simp)+

lemma put_optional_numbers:
  "put_argument (PopList None) 1 (show_number n) = Inr (PopList (Some n))"
  "put_argument (PopUidl None) 1 (show_number n) = Inr (PopUidl (Some n))"
  unfolding put_optional_first [OF show_nat_nonempty] put_optional add_digits_show by simp_all

lemma number_plain: "list_all plain_byte (show_nat n)"
proof -
  have "plain_byte c" if "is_ascii_digit c" for c
    using that unfolding plain_byte_def is_ascii_digit_def by (auto simp: byte_def)
  with show_nat_digits [of _ n] show ?thesis unfolding list_all_iff by blast
qed

section \<open>Whole requests\<close>

lemma lowercase_letters:
  "to_ascii_lowercase (CHR ''A'') = CHR ''a''"
  "to_ascii_lowercase (CHR ''B'') = CHR ''b''"
  "to_ascii_lowercase (CHR ''C'') = CHR ''c''"
  "to_ascii_lowercase (CHR ''D'') = CHR ''d''"
  "to_ascii_lowercase (CHR ''E'') = CHR ''e''"
  "to_ascii_lowercase (CHR ''F'') = CHR ''f''"
  "to_ascii_lowercase (CHR ''G'') = CHR ''g''"
  "to_ascii_lowercase (CHR ''H'') = CHR ''h''"
  "to_ascii_lowercase (CHR ''I'') = CHR ''i''"
  "to_ascii_lowercase (CHR ''J'') = CHR ''j''"
  "to_ascii_lowercase (CHR ''K'') = CHR ''k''"
  "to_ascii_lowercase (CHR ''L'') = CHR ''l''"
  "to_ascii_lowercase (CHR ''M'') = CHR ''m''"
  "to_ascii_lowercase (CHR ''N'') = CHR ''n''"
  "to_ascii_lowercase (CHR ''O'') = CHR ''o''"
  "to_ascii_lowercase (CHR ''P'') = CHR ''p''"
  "to_ascii_lowercase (CHR ''Q'') = CHR ''q''"
  "to_ascii_lowercase (CHR ''R'') = CHR ''r''"
  "to_ascii_lowercase (CHR ''S'') = CHR ''s''"
  "to_ascii_lowercase (CHR ''T'') = CHR ''t''"
  "to_ascii_lowercase (CHR ''U'') = CHR ''u''"
  "to_ascii_lowercase (CHR ''V'') = CHR ''v''"
  "to_ascii_lowercase (CHR ''W'') = CHR ''w''"
  "to_ascii_lowercase (CHR ''X'') = CHR ''x''"
  "to_ascii_lowercase (CHR ''Y'') = CHR ''y''"
  "to_ascii_lowercase (CHR ''Z'') = CHR ''z''"
  by code_simp+

lemma words_read:
  "pop_requests l PopInit (''USER'' @ '' '' @ s) = pop_requests l (PopArgument (PopUser []) 0 True) s"
  "pop_requests l PopInit (''PASS'' @ '' '' @ s) = pop_requests l (PopArgument (PopPass []) 0 True) s"
  "pop_requests l PopInit (''APOP'' @ '' '' @ s) = pop_requests l (PopArgument (PopApop [] []) 0 True) s"
  "pop_requests l PopInit (''LIST'' @ '' '' @ s) = pop_requests l (PopArgument (PopList None) 0 True) s"
  "pop_requests l PopInit (''UIDL'' @ '' '' @ s) = pop_requests l (PopArgument (PopUidl None) 0 True) s"
  "pop_requests l PopInit (''RETR'' @ '' '' @ s) = pop_requests l (PopArgument (PopRetr 0) 0 True) s"
  "pop_requests l PopInit (''DELE'' @ '' '' @ s) = pop_requests l (PopArgument (PopDele 0) 0 True) s"
  "pop_requests l PopInit (''TOP'' @ '' '' @ s) = pop_requests l (PopArgument (PopTop 0 0) 0 True) s"
  "pop_requests l PopInit (''AUTH'' @ '' '' @ s) = pop_requests l (PopArgument (PopAuth [] []) 0 True) s"
  by (simp_all add: pop_requests_Cons step_word_def pop_command_of_def is_ascii_uppercase_def is_ascii_lowercase_def
      lowercase_letters byte_def)

lemma bare_words_read:
  "pop_requests l PopInit (''QUIT'' @ [ch_cr, ch_lf]) = ([Inr PopQuit], PopInit)"
  "pop_requests l PopInit (''STAT'' @ [ch_cr, ch_lf]) = ([Inr PopStat], PopInit)"
  "pop_requests l PopInit (''LIST'' @ [ch_cr, ch_lf]) = ([Inr (PopList None)], PopInit)"
  "pop_requests l PopInit (''UIDL'' @ [ch_cr, ch_lf]) = ([Inr (PopUidl None)], PopInit)"
  "pop_requests l PopInit (''NOOP'' @ [ch_cr, ch_lf]) = ([Inr PopNoop], PopInit)"
  "pop_requests l PopInit (''RSET'' @ [ch_cr, ch_lf]) = ([Inr PopRset], PopInit)"
  "pop_requests l PopInit (''CAPA'' @ [ch_cr, ch_lf]) = ([Inr PopCapa], PopInit)"
  "pop_requests l PopInit (''STLS'' @ [ch_cr, ch_lf]) = ([Inr PopStls], PopInit)"
  "pop_requests l PopInit (''UTF8'' @ [ch_cr, ch_lf]) = ([Inr PopUtf8], PopInit)"
  by (simp_all add: pop_requests_Cons step_word_def pop_command_of_def is_ascii_uppercase_def is_ascii_lowercase_def
      lowercase_letters byte_def)

text \<open>The space before the first argument is read with the word.\<close>

lemma first_argument_read:
  assumes "list_all plain_byte a" "a \<noteq> []" "put_argument c 1 a = Inr c'"
  shows "pop_requests l (PopArgument c 0 True) (a @ bs) = pop_requests l (PopArgument c' 1 False) bs"
  using requests_feed [OF argument_read [OF assms(1,2), of c 0 c' l True]] assms(3) by (simp add: pop_requests_Cons)

lemma next_argument_read:
  assumes "list_all plain_byte a" "a \<noteq> []" "put_argument c (n + 1) a = Inr c'"
  shows "pop_requests l (PopArgument c n sp) ('' '' @ a @ bs) = pop_requests l (PopArgument c' (n + 1) False) bs"
  using requests_feed [OF argument_read [OF assms, of l sp]] by simp

lemma end_read:
  "pop_finalize l c n = Inr rq \<Longrightarrow> pop_requests l (PopArgument c n sp) [ch_cr, ch_lf] = ([Inr rq], PopInit)"
  by (simp add: pop_requests_Cons apfst_def map_prod_def)

lemma parameters_read:
  assumes "list_all plain_argument ps" "length m < 64" "length qs + length ps \<le> 3"
    and "sum_list (map length (qs @ ps)) \<le> POP_MAX_ARG_LEN * 4"
  shows "pop_requests l (PopArgument (PopAuth m qs) (length qs + 1) False) (concat (map (\<lambda>a. '' '' @ a) ps) @ bs) =
    pop_requests l (PopArgument (PopAuth m (qs @ ps)) (length qs + length ps + 1) False) bs"
  using assms
proof (induction ps arbitrary: qs)
  case (Cons p ps)
  have p: "list_all plain_byte p" "p \<noteq> []" using Cons.prems(1) by (auto simp: plain_argument_def)
  have "put_argument (PopAuth m qs) (length qs + 1 + 1) p = Inr (PopAuth m (qs @ [p]))"
    using Cons.prems p by (intro put_parameter) auto
  from next_argument_read [OF p this, of l False "concat (map (\<lambda>a. '' '' @ a) ps) @ bs"] Cons.IH [of "qs @ [p]"] Cons.prems
  show ?case by simp
qed simp

lemma mechanism_plain: "list_all plain_byte (pop_mechanism_str m)" "pop_mechanism_str m \<noteq> []" "length (pop_mechanism_str m) < 64"
  by (cases m; simp add: plain_byte_def)+

lemma mechanism_read: "pop_mechanism_parse l (pop_mechanism_str m) = Inr m"
  by (cases m) (simp_all add: pop_mechanism_parse_def eq_ignore_ascii_case_def lowercase_letters)

lemma strings_read: "list_all plain_argument ps \<Longrightarrow> pop_into_strings ps = Inr ps"
  by (induction ps) (auto simp: pop_into_string_def plain_argument_def)


lemma one_argument_read:
  assumes "list_all plain_byte a" "a \<noteq> []" "put_argument c 1 a = Inr c'" "pop_finalize l c' 1 = Inr rq"
  shows "pop_requests l (PopArgument c 0 True) (a @ [ch_cr, ch_lf]) = ([Inr rq], PopInit)"
  using first_argument_read [OF assms(1-3)] end_read [OF assms(4)] by simp

lemma two_arguments_read:
  assumes "list_all plain_byte a" "a \<noteq> []" "put_argument c 1 a = Inr c1"
    and "list_all plain_byte b" "b \<noteq> []" "put_argument c1 2 b = Inr c2" "pop_finalize l c2 2 = Inr rq"
  shows "pop_requests l (PopArgument c 0 True) (a @ '' '' @ b @ [ch_cr, ch_lf]) = ([Inr rq], PopInit)"
  using first_argument_read [OF assms(1-3)] next_argument_read [OF assms(4,5), of c1 1 c2] end_read [OF assms(7)] assms(6)
  by (simp add: numeral_2_eq_2)

lemma request_read: "pop_printable rq \<Longrightarrow> pop_requests l PopInit (pop_print rq) = ([Inr rq], PopInit)"
proof (cases rq)
  case (PopUser name)
  assume "pop_printable rq"
  with PopUser have a: "plain_argument name" "length name \<le> POP_MAX_ARG_LEN" by auto
  then show ?thesis using put_user [of "[]" name] PopUser
    by (simp add: pop_words_def words_read [simplified] one_argument_read plain_argument_def pop_into_string_def)
next
  case (PopPass name)
  assume "pop_printable rq"
  with PopPass have a: "plain_argument name" "length name \<le> POP_MAX_ARG_LEN" by auto
  then show ?thesis using put_pass [of "[]" name] PopPass
    by (simp add: pop_words_def words_read [simplified] one_argument_read plain_argument_def pop_into_string_def)
next
  case (PopApop name digest)
  assume "pop_printable rq"
  with PopApop have a: "plain_argument name" "length name < POP_MAX_ARG_LEN" "plain_argument digest"
      "length digest \<le> POP_MAX_ARG_LEN" by auto
  then show ?thesis using put_apop_name [of "[]" name] put_apop_digest [of name "[]" digest] PopApop
      two_arguments_read [of name "PopApop [] []" "PopApop name []" digest "PopApop name digest" l]
    by (simp add: pop_words_def words_read [simplified] plain_argument_def pop_into_string_def)
next
  case (PopTop n k)
  then show ?thesis
    using two_arguments_read [OF number_plain show_nat_nonempty put_numbers(3) number_plain show_nat_nonempty put_numbers(4), of l]
    by (simp add: pop_words_def words_read [simplified])
next
  case (PopRetr n)
  then show ?thesis using one_argument_read [OF number_plain show_nat_nonempty put_numbers(1), of l]
    by (simp add: pop_words_def words_read [simplified])
next
  case (PopDele n)
  then show ?thesis using one_argument_read [OF number_plain show_nat_nonempty put_numbers(2), of l]
    by (simp add: pop_words_def words_read [simplified])
next
  case (PopList msg)
  show ?thesis
  proof (cases msg)
    case (Some n)
    with PopList show ?thesis
      using one_argument_read [OF number_plain show_nat_nonempty put_optional_numbers(1), of l]
      by (simp add: pop_words_def words_read [simplified])
  qed (use PopList bare_words_read in \<open>simp add: pop_words_def\<close>)
next
  case (PopUidl msg)
  show ?thesis
  proof (cases msg)
    case (Some n)
    with PopUidl show ?thesis
      using one_argument_read [OF number_plain show_nat_nonempty put_optional_numbers(2), of l]
      by (simp add: pop_words_def words_read [simplified])
  qed (use PopUidl bare_words_read in \<open>simp add: pop_words_def\<close>)
next
  case (PopAuth m ps)
  assume "pop_printable rq"
  with PopAuth have ps: "list_all plain_argument ps" "length ps \<le> 3" "sum_list (map length ps) \<le> POP_MAX_ARG_LEN * 4" by auto
  have put: "put_argument (PopAuth [] []) 1 (pop_mechanism_str m) = Inr (PopAuth (pop_mechanism_str m) [])"
    using put_mechanism [of "[]" "pop_mechanism_str m"] mechanism_plain(3) [of m] by simp
  have e: "pop_requests l (PopArgument (PopAuth (pop_mechanism_str m) ps) (length ps + 1) False) [ch_cr, ch_lf] = ([Inr rq], PopInit)"
    using PopAuth ps(1) by (intro end_read) (simp add: mechanism_read strings_read)
  have "pop_requests l PopInit (pop_print rq) =
      pop_requests l (PopArgument (PopAuth [] []) 0 True) (pop_mechanism_str m @ concat (map (\<lambda>a. '' '' @ a) ps) @ [ch_cr, ch_lf])"
    using PopAuth by (simp add: pop_words_def words_read [simplified])
  also have "\<dots> = pop_requests l (PopArgument (PopAuth (pop_mechanism_str m) []) 1 False) (concat (map (\<lambda>a. '' '' @ a) ps) @ [ch_cr, ch_lf])"
    by (rule first_argument_read [OF mechanism_plain(1,2) put])
  also have "\<dots> = pop_requests l (PopArgument (PopAuth (pop_mechanism_str m) ps) (length ps + 1) False) [ch_cr, ch_lf]"
    using parameters_read [of ps "pop_mechanism_str m" "[]" l "[ch_cr, ch_lf]"] ps mechanism_plain(3) by simp
  finally show ?thesis using e by simp
qed (use bare_words_read in \<open>simp_all add: pop_words_def\<close>)

fun pop_feed :: "(string \<Rightarrow> string) \<Rightarrow> pop_state \<Rightarrow> string list \<Rightarrow> (string + pop_request) list \<times> pop_state" where
  "pop_feed l st [] = ([], st)"
| "pop_feed l st (c # cs) = (case pop_requests l st c of (rs, st) \<Rightarrow> apfst ((@) rs) (pop_feed l st cs))"

lemma pop_feed_concat: "pop_feed l st cs = pop_requests l st (concat cs)"
  by (induction cs arbitrary: st) (auto simp: pop_requests_append split: prod.splits)

text \<open>
  Requests are read back as they were written: whatever requests a client writes, and however the bytes
  are split into the pieces that are read, the session takes out exactly these requests, in their order, and
  is ready for the next.
\<close>

theorem pop_requests_read_back:
  assumes "list_all pop_printable rqs" and "concat pieces = concat (map pop_print rqs)"
  shows "pop_feed l PopInit pieces = (map Inr rqs, PopInit)"
proof -
  have "pop_requests l PopInit (concat (map pop_print rqs)) = (map Inr rqs, PopInit)"
    using assms(1) by (induction rqs) (auto simp: pop_requests_append request_read)
  with assms(2) show ?thesis by (simp add: pop_feed_concat)
qed

theorem pop_requests_read_back_witness:
  "pop_feed id PopInit [''USER '', ''me'', [ch_cr], [ch_lf] @ ''ST'', ''AT'' @ [ch_cr, ch_lf]] =
    ([Inr (PopUser ''me''), Inr PopStat], PopInit)"
proof -
  have me: "pop_printable (PopUser ''me'')"
    by (simp add: plain_argument_def plain_byte_def POP_MAX_ARG_LEN_def ascii_string_utf8 ascii_string_def byte_def)
  then have "list_all pop_printable [PopUser ''me'', PopStat]" unfolding list.pred_inject by simp
  from pop_requests_read_back [OF this, of "[''USER '', ''me'', [ch_cr], [ch_lf] @ ''ST'', ''AT'' @ [ch_cr, ch_lf]]" id]
  show ?thesis by (simp add: pop_words_def del: pop_feed.simps)
qed

text \<open>A line that is too short for a command takes the next line with it.\<close>

lemma short_line_swallows_next:
  "pop_requests l PopInit (''NO'' @ [ch_cr, ch_lf] @ ''QUIT'' @ [ch_cr, ch_lf]) = ([Inl ''Invalid command''], PopInit)"
proof -
  have no: "pop_requests l PopInit (''NO'' @ [ch_cr, ch_lf]) = ([], PopError ''Invalid command'')"
    by (simp add: pop_requests_Cons step_word_def is_ascii_uppercase_def is_ascii_lowercase_def lowercase_letters byte_def)
  have "pop_requests l (PopError e) (''QUIT'' @ [ch_cr, ch_lf]) = ([Inl e], PopInit)" for e
    by (simp add: pop_requests_Cons)
  with requests_feed [OF no, of "''QUIT'' @ [ch_cr, ch_lf]"] show ?thesis by (simp only: append_assoc)
qed

end
