(* ===== verification/Spec2Isabelle.thy ===== *)
theory Spec2Isabelle
  imports Imap_Commands Spool_Properties Delivery_Properties Store_Locks Queue_Limits Manager_Properties Expr_Properties Inbound_Accept
    Pop3_Properties Pop3_Requests
begin

text \<open>
  The mail server of \<open>src/mail-server\<close> (the Rust workspace under \<open>crates/\<close>): a verification
  development of the path that mail takes through it, and of what that path stands on.

  \<^bold>\<open>The program.\<close> A message comes in over SMTP or LMTP (\<open>smtp/src/inbound\<close>), where every decision asks
  the expressions of the configuration (\<open>common/src/expr\<close>). It is queued: its text in the blob store, and in
  one transaction of the data store (\<open>store/src/write\<close>) its archive, the events that say when a queue has to
  look at it, and the counters of its quotas (\<open>smtp/src/queue/spool.rs\<close>, \<open>quota.rs\<close>). The queue manager
  (\<open>queue/manager.rs\<close>) scans the events, locks what is due and starts workers, as many as a queue has threads.
  A worker (\<open>outbound/delivery.rs\<close>) expires recipients, asks limits, routes, DNS and policies, opens sessions
  with remote hosts (\<open>outbound/session.rs\<close>, \<open>client.rs\<close>) or hands the message over locally, builds reports to
  the sender (\<open>queue/dsn.rs\<close>), saves or removes the message and tells the manager. The in-memory store
  (\<open>store/src/dispatch/lookup.rs\<close>) keeps rate limits and locks on the same data store. Clients read their
  mail over POP3 (\<open>pop3/src\<close>); the request receiver of IMAP and ManageSieve (\<open>imap-proto/src/receiver.rs\<close>)
  and the change log that synchronisation reads (\<open>store/src/write/log.rs\<close>, \<open>query/log.rs\<close>) are modelled too.

  \<^bold>\<open>The theories\<close>, each with the files it models in its first text:
  \<^item> \<open>Prelude\<close> and \<open>Rust_Str\<close>: bytes, ASCII classes, UTF-8, numbers and strings of the Rust library.
  \<^item> \<open>Codec_Leb128\<close>, \<open>Containers\<close>, \<open>Store_Key\<close>: integers, maps, sets and keys of the store. The locales
    \<open>prefix_codec\<close>, \<open>map_interface\<close> and \<open>set_interface\<close> are what their clients use, each interpreted on the code.
  \<^item> \<open>Store_Log\<close>, \<open>Store_Batch\<close>, \<open>Store_Writes\<close>: the change log, the batch builder and the RocksDB
    transaction, on a database that is a map from subspace and key to bytes; batches of plain writes.
  \<^item> \<open>Store_Lookup\<close>, \<open>Store_Locks\<close>: values, rate limits and the purge; locks as a step relation in which the
    reads, clears and writes of any number of workers interleave.
  \<^item> \<open>Expr_Values\<close>, \<open>Expr_Parser\<close>, \<open>Expr_Eval\<close>, \<open>Expr_Functions\<close>, \<open>Expr_Tokenizer\<close>, \<open>Expr_Compiler\<close>,
    \<open>Expr_Properties\<close>: from the text of a setting to its value, with an independent meaning of expressions.
  \<^item> \<open>Queue_Message\<close>, \<open>Queue_Dsn\<close>, \<open>Queue_Spool\<close>, \<open>Spool_Properties\<close>, \<open>Queue_Limits\<close>: the queued message,
    its reports, its storage as a refinement of an abstract spool (a map from ids to messages with events and
    counters), quotas and limits.
  \<^item> \<open>Queue_Manager\<close>, \<open>Manager_Properties\<close>: the manager and its workers as a transition system
    (\<open>queue_step\<close>, \<open>queue_run\<close>) in which the configuration may change with every round.
  \<^item> \<open>Smtp_Status\<close>, \<open>Smtp_Client\<close>, \<open>Smtp_Session\<close>, \<open>Session_Properties\<close>, \<open>Smtp_Policy\<close>, \<open>Smtp_Delivery\<close>,
    \<open>Delivery_Properties\<close>: delivery, from the bytes of a connection to a task of the queue. A task is a program
    over the state of the world (\<open>State_Monad\<close>), and \<open>pred_state\<close> speaks of all answers of the world.
  \<^item> \<open>Smtp_Settings\<close>, \<open>Inbound_State\<close>, \<open>Inbound_Limits\<close>, \<open>Inbound_Ehlo\<close>, \<open>Inbound_Mail\<close>, \<open>Inbound_Rcpt\<close>,
    \<open>Inbound_Auth\<close>, \<open>Inbound_Edits\<close>, \<open>Inbound_Checks\<close>, \<open>Inbound_Queue\<close>, \<open>Inbound_Loop\<close>: sessions of SMTP and
    LMTP. Each handler is the list of its phases in the order of the code; \<open>handle_session\<close> is the connection.
  \<^item> \<open>Inbound_Invariants\<close>, \<open>Inbound_Relay\<close>, \<open>Inbound_Frames\<close>, \<open>Inbound_Bounds\<close>, \<open>Inbound_Accept\<close>: what holds of
    sessions, by a Hoare logic of phases and the locales \<open>step_invariant\<close> and \<open>session_invariant\<close>, which carry
    an invariant from the phases to the life of a connection. \<open>Inbound_Demo\<close> is the server of their instances.
  \<^item> \<open>Imap_Receiver\<close>, \<open>Imap_Wire\<close>, \<open>Imap_Commands\<close>: the receiver as a state machine over bytes, the strings
    that the server itself writes, and the two command tables (locale \<open>command_syntax\<close>).
  \<^item> \<open>Pop3_Parser\<close>, \<open>Pop3_Requests\<close>, \<open>Pop3_Session\<close>, \<open>Pop3_Properties\<close>: POP3 from bytes to connections; the
    locales \<open>pop_progress\<close> and \<open>pop_relation\<close> lift what single requests establish to whole connections.

  \<^bold>\<open>What is shown.\<close> Safety of the way in: who may send to whom, sizes, failed logins, the sender of an account,
  the end of every turn, what an accepted message becomes. Of the queue: what the operations do to the
  abstract spool, that quotas are returned and kept, that the manager never panics or loses a message, that
  reports do not repeat. Of delivery: policies, answers for every recipient, that delivered means sent, that
  the end of a message can not be forged, final states, the end of attempts. Of the configuration: that text is
  compiled to its meaning, without panics. Of the store: transactions of batches, the log, limits, locks, the
  purge. Of POP3 and IMAP: parsers, round trips, the maildrop. Where the code does otherwise than it means to,
  the property states the condition under which it holds, and a lemma beside it shows what happens without it.

  \<^bold>\<open>Loops and bounds.\<close> Loops are structural recursion or have a measure. The receive loop of a session is
  \<open>while_option\<close>; that it ends is the property \<open>sessions_never_hang\<close>, for receivers that take what they are
  given (\<open>receivers_progress\<close>). Long-running loops (the manager, workers with locks) are step relations. No
  definition uses fuel. Integers have the width of the code and wrap around as its release build does; panics are
  values of the model (\<open>None\<close>, \<open>Panics\<close>, \<open>Crashes\<close>, \<open>PopPanics\<close>).

  \<^bold>\<open>What is a parameter.\<close> Code that is not in the repository: the parsers and receivers of the smtp-proto,
  mail-parser, mail-auth and sieve packages, hashes, X.509, rkyv archives, regular expressions, floats, and the
  directory \<open>smtp/src/scripts\<close>, which is missing from it. The world: clocks, DNS, sockets, TLS handshakes, the
  directory and the account database, blob stores. They are the fields of records (\<open>dsn_env\<close>, \<open>spool_env\<close>,
  \<open>session_env\<close>, \<open>delivery_env\<close>, \<open>inbound_env\<close>, \<open>pop_env\<close>, ...), and what a theorem asks of them is a named
  hypothesis (\<open>relay_contract\<close>, \<open>scripts_edit_envelope\<close>, \<open>receivers_progress\<close>, \<open>spool_env_ok\<close>,
  \<open>delivery_env_ok\<close>, \<open>counts_failures\<close>) that an instance discharges.

  \<^bold>\<open>What is not modelled.\<close> The handlers of IMAP, ManageSieve, JMAP, HTTP, CalDAV and CardDAV, which are
  queries and formatting over parsed objects; the directory backends, the spam filter, search, reports of DMARC
  and TLS, milter and hook clients, background services, migration, the command line tool and the webmail.
  Writes to a connection of a client are taken to succeed, trace events are left out, RocksDB conflicts are
  retried by the code until a transaction succeeds as a whole and appear here only as that transaction.
\<close>

end
